(* ===== verification/Prelude.thy ===== *)
theory Prelude
  imports Complex_Main "HOL-Library.Multiset" "HOL-Library.Char_ord" "HOL-Library.List_Lexorder"
    "HOL-Library.Product_Lexorder"
begin

text \<open>
  Shared ground of the development: the rewrite collections the component theories
  fill, the JavaScript values the code passes around (JSON trees, strings, optional
  values), and the generic facts on lists that several components need.

  Strings are Isabelle \<open>string\<close>s, one \<open>char\<close> per JavaScript code unit. The case and
  whitespace functions below are exact on ASCII and leave every other unit alone;
  Unicode normalisation is a parameter wherever the source asks for it.
\<close>

subsection \<open>Collections\<close>

named_theorems table_simps \<open>the constant tables, ready to evaluate\<close>
named_theorems decision_simps \<open>unfolding of the pure decision functions\<close>
named_theorems store_simps \<open>what the primitive store operations leave in every field\<close>

subsection \<open>Values\<close>

type_synonym uuid = string
type_synonym instant = int  \<comment> \<open>milliseconds since 1970-01-01T00:00:00Z, as \<open>Date.getTime()\<close>\<close>

text \<open>A value of \<open>JSON.parse\<close>; an object keeps its own keys in insertion order.\<close>

datatype json =
    JNull
  | JBool bool
  | JNum real
  | JStr string
  | JArr "json list"
  | JObj "(string \<times> json) list"

text \<open>\<open>obj[key]\<close> on a parsed object; \<open>None\<close> is JavaScript's \<open>undefined\<close>.\<close>

fun json_get :: "json \<Rightarrow> string \<Rightarrow> json option" where
  "json_get (JObj kvs) k = map_of kvs k"
| "json_get _ _ = None"

subsection \<open>JavaScript strings\<close>

definition is_js_space :: "char \<Rightarrow> bool" where
  "is_js_space c \<longleftrightarrow> (let n = of_char c :: nat in n = 32 \<or> (9 \<le> n \<and> n \<le> 13) \<or> n = 160)"

definition is_digit :: "char \<Rightarrow> bool" where
  "is_digit c \<longleftrightarrow> (let n = of_char c :: nat in 48 \<le> n \<and> n \<le> 57)"

definition is_upper :: "char \<Rightarrow> bool" where
  "is_upper c \<longleftrightarrow> (let n = of_char c :: nat in 65 \<le> n \<and> n \<le> 90)"

definition is_lower :: "char \<Rightarrow> bool" where
  "is_lower c \<longleftrightarrow> (let n = of_char c :: nat in 97 \<le> n \<and> n \<le> 122)"

definition upper_char :: "char \<Rightarrow> char" where
  "upper_char c = (if is_lower c then char_of (of_char c - 32 :: nat) else c)"

definition lower_char :: "char \<Rightarrow> char" where
  "lower_char c = (if is_upper c then char_of (of_char c + 32 :: nat) else c)"

abbreviation js_upper :: "string \<Rightarrow> string" where
  "js_upper \<equiv> map upper_char"

abbreviation js_lower :: "string \<Rightarrow> string" where
  "js_lower \<equiv> map lower_char"

definition js_trim :: "string \<Rightarrow> string" where
  "js_trim s = rev (dropWhile is_js_space (rev (dropWhile is_js_space s)))"

definition digit_val :: "char \<Rightarrow> int" where
  "digit_val c = of_char c - 48"

definition digits_val :: "string \<Rightarrow> int" where
  "digits_val s = foldl (\<lambda>acc c. 10 * acc + digit_val c) 0 s"

text \<open>\<open>s.split(sep)\<close> for a one-character separator.\<close>

fun split_on :: "char \<Rightarrow> string \<Rightarrow> string list" where
  "split_on d [] = [[]]"
| "split_on d (c # cs) =
     (if c = d then [] # split_on d cs
      else (case split_on d cs of [] \<Rightarrow> [[c]] | w # ws \<Rightarrow> (c # w) # ws))"

lemma split_on_not_Nil [simp]: "split_on d s \<noteq> []"
  by (induction s) (auto split: list.splits)

subsection \<open>Lists\<close>

text \<open>\<open>xs.indexOf(x)\<close>: the first index, or \<open>-1\<close>.\<close>

fun index_of :: "'a list \<Rightarrow> 'a \<Rightarrow> int" where
  "index_of [] x = -1"
| "index_of (y # ys) x = (if y = x then 0 else (let i = index_of ys x in if i < 0 then -1 else i + 1))"

lemma index_of_ge: "-1 \<le> index_of xs x"
  by (induction xs) (auto simp: Let_def)

lemma index_of_nonneg_iff: "0 \<le> index_of xs x \<longleftrightarrow> x \<in> set xs"
  by (induction xs) (auto simp: Let_def)

lemma index_of_lt_length: "index_of xs x < int (length xs)"
  by (induction xs) (auto simp: Let_def)

lemma index_of_nth: "x \<in> set xs \<Longrightarrow> xs ! nat (index_of xs x) = x"
proof (induction xs)
  case (Cons y ys)
  then show ?case
    using index_of_nonneg_iff [of ys x] by (auto simp: Let_def nat_add_distrib)
qed simp

lemma index_of_inj:
  assumes "x \<in> set xs" and "index_of xs x = index_of xs y" shows "x = y"
proof -
  have "y \<in> set xs" using assms index_of_nonneg_iff [of xs] by metis
  then show ?thesis using assms index_of_nth by metis
qed

text \<open>\<open>ORDER BY key DESC LIMIT 1\<close>; among equal keys, the row inserted last.\<close>

fun latest_by :: "('a \<Rightarrow> 'b::linorder) \<Rightarrow> 'a list \<Rightarrow> 'a option" where
  "latest_by key [] = None"
| "latest_by key (x # xs) =
     (case latest_by key xs of None \<Rightarrow> Some x | Some y \<Rightarrow> if key x \<le> key y then Some y else Some x)"

lemma latest_by_None_iff [simp]: "latest_by key xs = None \<longleftrightarrow> xs = []"
  by (cases xs) (auto split: option.split)

lemma latest_by_SomeD: "latest_by key xs = Some x \<Longrightarrow> x \<in> set xs \<and> (\<forall>y \<in> set xs. key y \<le> key x)"
proof (induction xs arbitrary: x)
  case (Cons a xs)
  show ?case
  proof (cases "latest_by key xs")
    case None
    with Cons.prems show ?thesis by simp
  next
    case (Some z)
    with Cons.IH have "z \<in> set xs" "\<forall>y \<in> set xs. key y \<le> key z" by blast+
    with Some Cons.prems show ?thesis by (force split: if_splits)
  qed
qed simp

lemma latest_by_sorted:
  "sorted (map key xs) \<Longrightarrow> latest_by key xs = (if xs = [] then None else Some (last xs))"
  by (induction xs) (auto split: option.split)

lemma latest_by_snoc_ge:
  "(\<And>y. y \<in> set xs \<Longrightarrow> key y \<le> key x) \<Longrightarrow> latest_by key (xs @ [x]) = Some x"
  by (induction xs) auto

subsection \<open>Tables\<close>

text \<open>
  A table with a primary key is an association list read through \<open>map_of\<close>: the first entry of a
  key is its row. A SELECT without ORDER BY may return its rows in any order; ours is the list's.
\<close>

definition table_keys :: "('k \<times> 'v) list \<Rightarrow> 'k list" where
  "table_keys t = remdups (map fst t)"

definition update_row :: "'k \<Rightarrow> ('v \<Rightarrow> 'v) \<Rightarrow> ('k \<times> 'v) list \<Rightarrow> ('k \<times> 'v) list" where
  "update_row k f t = map (\<lambda>(j, v). if j = k then (j, f v) else (j, v)) t"

text \<open>Every key of the list has a row, so \<open>the\<close> below always finds one.\<close>

definition select_rows :: "('k \<Rightarrow> 'v \<Rightarrow> bool) \<Rightarrow> ('k \<times> 'v) list \<Rightarrow> ('k \<times> 'v) list" where
  "select_rows P t =
     filter (\<lambda>(k, v). P k v) (map (\<lambda>k. (k, the (map_of t k))) (table_keys t))"

lemma map_of_update_row:
  "map_of (update_row k f t) j = (if j = k then map_option f (map_of t k) else map_of t j)"
  by (induction t) (auto simp: update_row_def)

lemma set_select_rows: "(k, v) \<in> set (select_rows P t) \<longleftrightarrow> map_of t k = Some v \<and> P k v"
proof -
  have "k \<in> fst ` set t \<longleftrightarrow> map_of t k \<noteq> None" by (simp add: map_of_eq_None_iff)
  then show ?thesis by (auto simp: select_rows_def table_keys_def)
qed

lemma distinct_select_rows: "distinct (map fst (select_rows P t))"
  unfolding select_rows_def table_keys_def
  by (rule distinct_map_filter) (simp add: comp_def)

subsection \<open>Decimal numerals\<close>

definition digit_char :: "nat \<Rightarrow> char" where
  "digit_char n = char_of (48 + n)"

text \<open>\<open>String(n)\<close> of a natural number, and PostgreSQL's \<open>lpad\<close>, which cuts a longer text down.\<close>

fun decimal :: "nat \<Rightarrow> string" where
  "decimal n = (if n < 10 then [digit_char n] else decimal (n div 10) @ [digit_char (n mod 10)])"

declare decimal.simps [simp del]

definition lpad :: "string \<Rightarrow> nat \<Rightarrow> char \<Rightarrow> string" where
  "lpad s n c = (if n < length s then take n s else replicate (n - length s) c @ s)"

lemma digit_val_digit_char [simp]: "n < 10 \<Longrightarrow> digit_val (digit_char n) = int n"
proof -
  assume "n < 10"
  then have "of_char (digit_char n) = 48 + n" by (simp add: digit_char_def)
  moreover have "digit_val c = int (of_char c) - 48" for c by (simp only: digit_val_def of_nat_of_char)
  ultimately show ?thesis by simp
qed

lemma digits_val_snoc: "digits_val (s @ [c]) = 10 * digits_val s + digit_val c"
  by (simp add: digits_val_def)

lemma digits_val_decimal: "digits_val (decimal n) = int n"
proof (induction n rule: decimal.induct)
  case (1 n)
  show ?case
  proof (cases "n < 10")
    case True
    then show ?thesis by (simp add: decimal.simps [of n] digits_val_def)
  next
    case False
    then have "digits_val (decimal n) = 10 * int (n div 10) + int (n mod 10)"
      using 1 by (simp add: decimal.simps [of n] digits_val_snoc)
    also have "\<dots> = int n" by (simp add: zdiv_int zmod_int)
    finally show ?thesis .
  qed
qed

lemma decimal_inj: "decimal m = decimal n \<Longrightarrow> m = n"
  by (metis digits_val_decimal of_nat_eq_iff)

lemma digits_val_zeros: "digits_val (replicate k CHR ''0'' @ s) = digits_val s"
proof (induction k)
  case (Suc k)
  have "digits_val (CHR ''0'' # t) = digits_val t" for t
    by (simp add: digits_val_def digit_val_def)
  with Suc show ?case by simp
qed simp

lemma length_decimal: "0 < k \<Longrightarrow> n < 10 ^ k \<Longrightarrow> length (decimal n) \<le> k"
proof (induction k arbitrary: n)
  case (Suc k)
  show ?case
  proof (cases "n < 10")
    case True
    then show ?thesis by (simp add: decimal.simps [of n])
  next
    case False
    then have "0 < k" using Suc.prems by (cases k) auto
    moreover have "n div 10 < 10 ^ k" using Suc.prems by (simp add: div_less_iff_less_mult)
    ultimately have "length (decimal (n div 10)) \<le> k" by (rule Suc.IH)
    then show ?thesis using False by (simp add: decimal.simps [of n])
  qed
qed simp

lemma lpad_decimal_inj:
  assumes "m < 10 ^ k" and "n < 10 ^ k" and "0 < k"
    and "lpad (decimal m) k CHR ''0'' = lpad (decimal n) k CHR ''0''"
  shows "m = n"
proof -
  have "digits_val (lpad (decimal j) k CHR ''0'') = int j" if "j < 10 ^ k" for j
    using length_decimal [OF assms(3) that] by (simp add: lpad_def digits_val_zeros digits_val_decimal)
  with assms show ?thesis by (metis of_nat_eq_iff)
qed

end
