(* ===== verification/SharedTypes.thy ===== *)
theory SharedTypes
  imports Prelude
begin

text \<open>
  The closed vocabularies of \<open>packages/shared-types\<close>: agencies, geography, application categories and
  the canonical order of application statuses. The tables of the announcements are in \<open>Announcements\<close>.
\<close>

subsection \<open>Agencies, channels and geography\<close>

datatype agency = RDF | RNP | RCS

definition AGENCIES :: "agency list" where
  "AGENCIES = [RDF, RNP, RCS]"

datatype application_channel = WEB | USSD | IREMBO_KIOSK | WALK_IN

datatype province =
    KIGALI_CITY | NORTHERN_PROVINCE | SOUTHERN_PROVINCE | EASTERN_PROVINCE | WESTERN_PROVINCE

datatype district =
    NYARUGENGE | KICUKIRO | GASABO
  | GICUMBI | BURERA | MUSANZE | GAKENKE | RULINDO
  | NYAMAGABE | NYARUGURU | GISAGARA | HUYE | NYANZA
  | RUHANGO | MUHANGA | KAMONYI
  | KIREHE | NGOMA | NYAGATARE | GATSIBO
  | KAYONZA | RWAMAGANA | BUGESERA
  | RUSIZI | NYAMASHEKE | KARONGI | RUTSIRO
  | RUBAVU | NYABIHU | NGORORERO

definition DISTRICTS :: "district list" where
  "DISTRICTS =
    [NYARUGENGE, KICUKIRO, GASABO,
     GICUMBI, BURERA, MUSANZE, GAKENKE, RULINDO,
     NYAMAGABE, NYARUGURU, GISAGARA, HUYE, NYANZA,
     RUHANGO, MUHANGA, KAMONYI,
     KIREHE, NGOMA, NYAGATARE, GATSIBO,
     KAYONZA, RWAMAGANA, BUGESERA,
     RUSIZI, NYAMASHEKE, KARONGI, RUTSIRO,
     RUBAVU, NYABIHU, NGORORERO]"

primrec DISTRICT_TO_PROVINCE :: "district \<Rightarrow> province" where
  "DISTRICT_TO_PROVINCE NYARUGENGE = KIGALI_CITY"
| "DISTRICT_TO_PROVINCE KICUKIRO = KIGALI_CITY"
| "DISTRICT_TO_PROVINCE GASABO = KIGALI_CITY"
| "DISTRICT_TO_PROVINCE GICUMBI = NORTHERN_PROVINCE"
| "DISTRICT_TO_PROVINCE BURERA = NORTHERN_PROVINCE"
| "DISTRICT_TO_PROVINCE MUSANZE = NORTHERN_PROVINCE"
| "DISTRICT_TO_PROVINCE GAKENKE = NORTHERN_PROVINCE"
| "DISTRICT_TO_PROVINCE RULINDO = NORTHERN_PROVINCE"
| "DISTRICT_TO_PROVINCE NYAMAGABE = SOUTHERN_PROVINCE"
| "DISTRICT_TO_PROVINCE NYARUGURU = SOUTHERN_PROVINCE"
| "DISTRICT_TO_PROVINCE GISAGARA = SOUTHERN_PROVINCE"
| "DISTRICT_TO_PROVINCE HUYE = SOUTHERN_PROVINCE"
| "DISTRICT_TO_PROVINCE NYANZA = SOUTHERN_PROVINCE"
| "DISTRICT_TO_PROVINCE RUHANGO = SOUTHERN_PROVINCE"
| "DISTRICT_TO_PROVINCE MUHANGA = SOUTHERN_PROVINCE"
| "DISTRICT_TO_PROVINCE KAMONYI = SOUTHERN_PROVINCE"
| "DISTRICT_TO_PROVINCE KIREHE = EASTERN_PROVINCE"
| "DISTRICT_TO_PROVINCE NGOMA = EASTERN_PROVINCE"
| "DISTRICT_TO_PROVINCE NYAGATARE = EASTERN_PROVINCE"
| "DISTRICT_TO_PROVINCE GATSIBO = EASTERN_PROVINCE"
| "DISTRICT_TO_PROVINCE KAYONZA = EASTERN_PROVINCE"
| "DISTRICT_TO_PROVINCE RWAMAGANA = EASTERN_PROVINCE"
| "DISTRICT_TO_PROVINCE BUGESERA = EASTERN_PROVINCE"
| "DISTRICT_TO_PROVINCE RUSIZI = WESTERN_PROVINCE"
| "DISTRICT_TO_PROVINCE NYAMASHEKE = WESTERN_PROVINCE"
| "DISTRICT_TO_PROVINCE KARONGI = WESTERN_PROVINCE"
| "DISTRICT_TO_PROVINCE RUTSIRO = WESTERN_PROVINCE"
| "DISTRICT_TO_PROVINCE RUBAVU = WESTERN_PROVINCE"
| "DISTRICT_TO_PROVINCE NYABIHU = WESTERN_PROVINCE"
| "DISTRICT_TO_PROVINCE NGORORERO = WESTERN_PROVINCE"

subsection \<open>Application categories\<close>

datatype application_category =
    GENERAL_ENLISTMENT | RESERVE_FORCE_ALEVEL | RESERVE_FORCE_UNIVERSITY | RESERVE_FORCE_SPECIALIST
  | CADET_OFFICER | BASIC_POLICE_COURSE
  | GENERAL_ENLISTEE | OFFICER_ONE_YEAR | OFFICER_ONE_YEAR_SPECIALIST | OFFICER_FOUR_YEAR_UR

definition RDF_APPLICATION_CATEGORIES :: "application_category list" where
  "RDF_APPLICATION_CATEGORIES =
    [GENERAL_ENLISTMENT, RESERVE_FORCE_ALEVEL, RESERVE_FORCE_UNIVERSITY, RESERVE_FORCE_SPECIALIST]"

definition RNP_APPLICATION_CATEGORIES :: "application_category list" where
  "RNP_APPLICATION_CATEGORIES = [CADET_OFFICER, BASIC_POLICE_COURSE]"

definition RCS_APPLICATION_CATEGORIES :: "application_category list" where
  "RCS_APPLICATION_CATEGORIES =
    [GENERAL_ENLISTEE, OFFICER_ONE_YEAR, OFFICER_ONE_YEAR_SPECIALIST, OFFICER_FOUR_YEAR_UR]"

definition ENTRIES :: "(application_category \<times> agency) list" where
  "ENTRIES =
     map (\<lambda>c. (c, RDF)) RDF_APPLICATION_CATEGORIES @
     map (\<lambda>c. (c, RNP)) RNP_APPLICATION_CATEGORIES @
     map (\<lambda>c. (c, RCS)) RCS_APPLICATION_CATEGORIES"

definition CATEGORY_TO_AGENCY :: "application_category \<Rightarrow> agency option" where
  "CATEGORY_TO_AGENCY c = map_of ENTRIES c"

text \<open>\<open>agencyForCategory\<close> throws when the map has no entry: \<open>None\<close> is that throw.\<close>

definition agencyForCategory :: "application_category \<Rightarrow> agency option" where
  "agencyForCategory c = (case CATEGORY_TO_AGENCY c of None \<Rightarrow> None | Some a \<Rightarrow> Some a)"

lemmas category_tables [table_simps] =
  RDF_APPLICATION_CATEGORIES_def RNP_APPLICATION_CATEGORIES_def RCS_APPLICATION_CATEGORIES_def
  ENTRIES_def CATEGORY_TO_AGENCY_def agencyForCategory_def AGENCIES_def

lemma in_AGENCIES [simp]: "a \<in> set AGENCIES"
  by (cases a) (auto simp: AGENCIES_def)

definition WALKIN_POLICY :: "agency \<Rightarrow> bool" where
  "WALKIN_POLICY a = (case a of RDF \<Rightarrow> True | RNP \<Rightarrow> False | RCS \<Rightarrow> False)"

subsection \<open>Application status, in the canonical order\<close>

datatype application_status =
    DRAFT | SUBMITTED | ACADEMIC_VETTING | CRIMINAL_CLEARANCE
  | DOCUMENT_REVIEW_GREEN | DOCUMENT_REVIEW_AMBER
  | SLOT_ASSIGNED | PHYSICAL_TEST_SCHEDULED | PHYSICAL_TEST_COMPLETE
  | MEDICAL_REVIEW | FINAL_SHORTLIST | ACCEPTED
  | ADJUDICATION_REVIEW | REJECTED | WITHDRAWN
  | WALK_IN_REGISTERED | WALK_IN_ON_SITE_VETTING | WALK_IN_PHYSICAL_TEST | WALK_IN_REJECTED

definition APPLICATION_STATUSES :: "application_status list" where
  "APPLICATION_STATUSES =
    [DRAFT, SUBMITTED, ACADEMIC_VETTING, CRIMINAL_CLEARANCE,
     DOCUMENT_REVIEW_GREEN, DOCUMENT_REVIEW_AMBER,
     SLOT_ASSIGNED, PHYSICAL_TEST_SCHEDULED, PHYSICAL_TEST_COMPLETE,
     MEDICAL_REVIEW, FINAL_SHORTLIST, ACCEPTED,
     ADJUDICATION_REVIEW, REJECTED, WITHDRAWN,
     WALK_IN_REGISTERED, WALK_IN_ON_SITE_VETTING, WALK_IN_PHYSICAL_TEST, WALK_IN_REJECTED]"

text \<open>\<open>APPLICATION_STATUSES.indexOf(status)\<close>: the canonical position every service ranks by.\<close>

definition status_rank :: "application_status \<Rightarrow> int" where
  "status_rank s = index_of APPLICATION_STATUSES s"

lemma status_rank_simps [simp]:
  "status_rank DRAFT = 0" "status_rank SUBMITTED = 1" "status_rank ACADEMIC_VETTING = 2"
  "status_rank CRIMINAL_CLEARANCE = 3" "status_rank DOCUMENT_REVIEW_GREEN = 4"
  "status_rank DOCUMENT_REVIEW_AMBER = 5" "status_rank SLOT_ASSIGNED = 6"
  "status_rank PHYSICAL_TEST_SCHEDULED = 7" "status_rank PHYSICAL_TEST_COMPLETE = 8"
  "status_rank MEDICAL_REVIEW = 9" "status_rank FINAL_SHORTLIST = 10" "status_rank ACCEPTED = 11"
  "status_rank ADJUDICATION_REVIEW = 12" "status_rank REJECTED = 13" "status_rank WITHDRAWN = 14"
  "status_rank WALK_IN_REGISTERED = 15" "status_rank WALK_IN_ON_SITE_VETTING = 16"
  "status_rank WALK_IN_PHYSICAL_TEST = 17" "status_rank WALK_IN_REJECTED = 18"
  by (simp_all add: status_rank_def APPLICATION_STATUSES_def Let_def)

lemma in_APPLICATION_STATUSES [simp]: "s \<in> set APPLICATION_STATUSES"
  by (cases s) (simp_all add: APPLICATION_STATUSES_def)

lemma status_rank_inj: "status_rank s = status_rank t \<Longrightarrow> s = t"
  unfolding status_rank_def by (rule index_of_inj [OF in_APPLICATION_STATUSES])

text \<open>The canonical order as the order of the type, so the library's order lemmas apply.\<close>

instantiation application_status :: linorder
begin

definition less_eq_application_status :: "application_status \<Rightarrow> application_status \<Rightarrow> bool" where
  "less_eq_application_status s t \<longleftrightarrow> status_rank s \<le> status_rank t"

definition less_application_status :: "application_status \<Rightarrow> application_status \<Rightarrow> bool" where
  "less_application_status s t \<longleftrightarrow> status_rank s < status_rank t"

instance
  by standard (auto simp: less_eq_application_status_def less_application_status_def
      intro: status_rank_inj)

end

lemmas status_order = less_eq_application_status_def less_application_status_def

text \<open>The four statuses the projections and the queue treat as settled.\<close>

definition TERMINAL :: "application_status set" where
  "TERMINAL = {REJECTED, WITHDRAWN, ACCEPTED, WALK_IN_REJECTED}"

lemma TERMINAL_iff [simp]:
  "s \<in> TERMINAL \<longleftrightarrow> s = REJECTED \<or> s = WITHDRAWN \<or> s = ACCEPTED \<or> s = WALK_IN_REJECTED"
  by (auto simp: TERMINAL_def)

text \<open>The lifecycle of a recruitment campaign; \<open>DRAFT\<close> and \<open>COMPLETED\<close> carry a prefix here.\<close>

datatype campaign_status =
    CAMPAIGN_DRAFT | REGISTRATION_OPEN | REGISTRATION_CLOSED | EXAMINATION_ACTIVE
  | CAMPAIGN_COMPLETED | CANCELLED

subsection \<open>Verdicts\<close>

text \<open>\<open>AcademicEligibilityStatus\<close> and \<open>AgeEligibilityStatus\<close> have the same three values.\<close>

datatype eligibility_status = PENDING | ELIGIBLE | INELIGIBLE

datatype criminal_clearance_status =
    CRIMINAL_PENDING | CLEARED | FLAGGED_CONVICTION | FLAGGED_PROSECUTION | FLAGGED_DISMISSED
  | UNDER_REVIEW

datatype document_lane = GREEN | AMBER | RED

datatype clearance_review_reason =
    CLEARANCE_CONTENT_REVIEW | IDENTITY_NAME_PARTIAL | IDENTITY_HOLDER_UNREADABLE
  | CLEARANCE_UNVERIFIED

datatype rib_record_status = RIB_CLEAR | HAS_RECORDS | UNDER_INVESTIGATION

end
