(* ===== verification/Lifecycle.thy ===== *)
theory Lifecycle
  imports SharedTypes
begin

text \<open>
  The pure lifecycle policy of \<open>application-service\<close> (\<open>domain/lifecycle.ts\<close>) and the
  adjudication-lane predicate the officer queue and the adjudicate guard share
  (\<open>domain/adjudication-lanes.ts\<close>, \<open>domain/human-decision.ts\<close>).
\<close>

subsection \<open>Vetting evidence and the lifecycle decision\<close>

text \<open>\<open>criminalContentReviewOnly\<close> absent in the source means false.\<close>

record vetting_evidence =
  ageStatus :: eligibility_status
  academicStatus :: eligibility_status
  criminalStatus :: criminal_clearance_status
  criminalContentReviewOnly :: bool

record lifecycle_options =
  clearanceContentReviewAdmitsToExam :: bool

definition default_options :: lifecycle_options where
  "default_options = \<lparr>clearanceContentReviewAdmitsToExam = False\<rparr>"

definition CRIMINAL_HARD_FAIL :: "criminal_clearance_status set" where
  "CRIMINAL_HARD_FAIL = {FLAGGED_CONVICTION, FLAGGED_PROSECUTION, FLAGGED_DISMISSED}"

definition stageRank :: "application_status \<Rightarrow> int" where
  "stageRank s = status_rank s"

definition isHardFail :: "vetting_evidence \<Rightarrow> bool" where
  "isHardFail e \<longleftrightarrow>
     ageStatus e = INELIGIBLE \<or> academicStatus e = INELIGIBLE \<or> criminalStatus e \<in> CRIMINAL_HARD_FAIL"

definition criminalAllowsScheduling :: "vetting_evidence \<Rightarrow> lifecycle_options \<Rightarrow> bool" where
  "criminalAllowsScheduling e opts \<longleftrightarrow>
     criminalStatus e = CLEARED \<or>
     clearanceContentReviewAdmitsToExam opts \<and> criminalStatus e = UNDER_REVIEW \<and>
       criminalContentReviewOnly e"

definition allGatesPassed :: "vetting_evidence \<Rightarrow> lifecycle_options \<Rightarrow> bool" where
  "allGatesPassed e opts \<longleftrightarrow>
     ageStatus e = ELIGIBLE \<and> academicStatus e = ELIGIBLE \<and> criminalAllowsScheduling e opts"

definition deriveApplicationStatus ::
  "application_status \<Rightarrow> vetting_evidence \<Rightarrow> lifecycle_options \<Rightarrow> application_status" where
  "deriveApplicationStatus current e opts =
     (if current \<in> TERMINAL then current
      else if isHardFail e then
        (if current = WALK_IN_REGISTERED then WALK_IN_REJECTED
         else if current = WALK_IN_ON_SITE_VETTING \<or> current = WALK_IN_PHYSICAL_TEST
           then ADJUDICATION_REVIEW
         else if stageRank current \<ge> stageRank SLOT_ASSIGNED then ADJUDICATION_REVIEW
         else REJECTED)
      else
        (let candidate =
           (if allGatesPassed e opts then DOCUMENT_REVIEW_GREEN
            else if criminalStatus e \<noteq> CRIMINAL_PENDING then CRIMINAL_CLEARANCE
            else if academicStatus e \<noteq> PENDING then ACADEMIC_VETTING
            else current)
         in if stageRank candidate > stageRank current then candidate else current))"

lemmas lifecycle_defs [decision_simps] =
  deriveApplicationStatus_def isHardFail_def criminalAllowsScheduling_def allGatesPassed_def
  stageRank_def CRIMINAL_HARD_FAIL_def Let_def

subsection \<open>How the decision behaves\<close>

lemma derive_terminal: "current \<in> TERMINAL \<Longrightarrow> deriveApplicationStatus current e opts = current"
  by (simp add: deriveApplicationStatus_def)

text \<open>The statuses of the pre-registered ladder up to acceptance, the only ones ranked by progress.\<close>

definition on_ladder :: "application_status \<Rightarrow> bool" where
  "on_ladder s \<longleftrightarrow> stageRank s \<le> stageRank ACCEPTED"

definition is_walk_in_status :: "application_status \<Rightarrow> bool" where
  "is_walk_in_status s \<longleftrightarrow> stageRank WALK_IN_REGISTERED \<le> stageRank s"

lemma derive_hard_fail_values:
  assumes "isHardFail e" and "current \<notin> TERMINAL"
  shows "deriveApplicationStatus current e opts =
    (if current = WALK_IN_REGISTERED then WALK_IN_REJECTED
     else if stageRank current < stageRank SLOT_ASSIGNED then REJECTED else ADJUDICATION_REVIEW)"
  using assms by (cases current) (simp_all add: deriveApplicationStatus_def stageRank_def)

lemma derive_rank_mono:
  assumes "\<not> is_walk_in_status current"
  shows "stageRank current \<le> stageRank (deriveApplicationStatus current e opts)"
  using assms
  by (cases current)
     (auto simp: deriveApplicationStatus_def stageRank_def is_walk_in_status_def Let_def)

lemma derive_idem:
  "deriveApplicationStatus (deriveApplicationStatus current e opts) e opts =
   deriveApplicationStatus current e opts"
proof (cases "current \<in> TERMINAL")
  case True
  then show ?thesis by (simp add: derive_terminal)
next
  case False
  show ?thesis
  proof (cases "isHardFail e")
    case True
    with False show ?thesis
      by (auto simp: derive_hard_fail_values stageRank_def derive_terminal)
  next
    case False
    then show ?thesis
      by (cases current) (simp_all add: deriveApplicationStatus_def stageRank_def Let_def)
  qed
qed

lemma derive_into_green:
  assumes "deriveApplicationStatus current e opts = DOCUMENT_REVIEW_GREEN"
    and "current \<noteq> DOCUMENT_REVIEW_GREEN"
  shows "allGatesPassed e opts \<and> \<not> isHardFail e \<and> stageRank current < stageRank DOCUMENT_REVIEW_GREEN"
  using assms by (cases current) (auto simp: deriveApplicationStatus_def stageRank_def Let_def split: if_splits)

lemma allGatesPassed_not_hard: "allGatesPassed e opts \<Longrightarrow> \<not> isHardFail e"
  by (auto simp: lifecycle_defs)

lemma derive_range:
  "deriveApplicationStatus current e opts \<in>
     {current, REJECTED, WALK_IN_REJECTED, ADJUDICATION_REVIEW,
      DOCUMENT_REVIEW_GREEN, CRIMINAL_CLEARANCE, ACADEMIC_VETTING}"
  by (simp add: deriveApplicationStatus_def Let_def)

subsection \<open>Evidence arrives in any order\<close>

text \<open>
  The three gates answer independently and every answer may be redelivered. \<open>record_verdict\<close>
  is the column write of one answer; \<open>project_verdicts\<close> is the projection loop over a sequence
  of deliveries, each deciding on the evidence recorded so far.
\<close>

datatype dimension = AGE | ACADEMIC | CRIMINAL

fun record_verdict :: "vetting_evidence \<Rightarrow> dimension \<Rightarrow> vetting_evidence \<Rightarrow> vetting_evidence" where
  "record_verdict verdicts AGE e = e\<lparr>ageStatus := ageStatus verdicts\<rparr>"
| "record_verdict verdicts ACADEMIC e = e\<lparr>academicStatus := academicStatus verdicts\<rparr>"
| "record_verdict verdicts CRIMINAL e =
     e\<lparr>criminalStatus := criminalStatus verdicts,
       criminalContentReviewOnly := criminalContentReviewOnly verdicts\<rparr>"

definition no_evidence :: vetting_evidence where
  "no_evidence = \<lparr>ageStatus = PENDING, academicStatus = PENDING, criminalStatus = CRIMINAL_PENDING,
                  criminalContentReviewOnly = False\<rparr>"

fun project_verdicts ::
  "vetting_evidence \<Rightarrow> lifecycle_options \<Rightarrow> dimension list \<Rightarrow>
   application_status \<times> vetting_evidence \<Rightarrow> application_status \<times> vetting_evidence" where
  "project_verdicts v opts [] se = se"
| "project_verdicts v opts (d # ds) (s, e) =
     (let e' = record_verdict v d e in
      project_verdicts v opts ds (deriveApplicationStatus s e' opts, e'))"

text \<open>\<open>seen v D\<close>: the row after the dimensions in \<open>D\<close> have been recorded at least once.\<close>

definition seen :: "vetting_evidence \<Rightarrow> dimension set \<Rightarrow> vetting_evidence" where
  "seen v D =
     \<lparr>ageStatus = (if AGE \<in> D then ageStatus v else PENDING),
      academicStatus = (if ACADEMIC \<in> D then academicStatus v else PENDING),
      criminalStatus = (if CRIMINAL \<in> D then criminalStatus v else CRIMINAL_PENDING),
      criminalContentReviewOnly = (CRIMINAL \<in> D \<and> criminalContentReviewOnly v)\<rparr>"

lemma seen_empty: "seen v {} = no_evidence"
  by (simp add: seen_def no_evidence_def)

lemma seen_insert: "record_verdict v d (seen v D) = seen v (insert d D)"
  by (cases d) (auto simp: seen_def)

lemma seen_all: "D = {AGE, ACADEMIC, CRIMINAL} \<Longrightarrow> seen v D = v"
  by (simp add: seen_def)

lemma hard_fail_mono: "isHardFail (seen v D) \<Longrightarrow> isHardFail (seen v (insert d D))"
  by (auto simp: isHardFail_def seen_def CRIMINAL_HARD_FAIL_def split: if_splits)

lemma gates_mono: "allGatesPassed (seen v D) opts \<Longrightarrow> allGatesPassed (seen v (insert d D)) opts"
  by (auto simp: allGatesPassed_def criminalAllowsScheduling_def seen_def split: if_splits)

lemma derive_submitted:
  "deriveApplicationStatus SUBMITTED e opts =
     (if isHardFail e then REJECTED
      else if allGatesPassed e opts then DOCUMENT_REVIEW_GREEN
      else if criminalStatus e \<noteq> CRIMINAL_PENDING then CRIMINAL_CLEARANCE
      else if academicStatus e \<noteq> PENDING then ACADEMIC_VETTING
      else SUBMITTED)"
  by (simp add: deriveApplicationStatus_def stageRank_def Let_def)

lemma derive_seen_step:
  "deriveApplicationStatus (deriveApplicationStatus SUBMITTED (seen v D) opts)
      (seen v (insert d D)) opts =
   deriveApplicationStatus SUBMITTED (seen v (insert d D)) opts"
proof (cases "isHardFail (seen v D)")
  case True
  then have "isHardFail (seen v (insert d D))" by (rule hard_fail_mono)
  with True show ?thesis by (simp add: derive_submitted derive_terminal)
next
  case not_hard: False
  have crim: "criminalStatus (seen v D) \<noteq> CRIMINAL_PENDING \<Longrightarrow>
      criminalStatus (seen v (insert d D)) \<noteq> CRIMINAL_PENDING"
    and acad: "academicStatus (seen v D) \<noteq> PENDING \<Longrightarrow>
      academicStatus (seen v (insert d D)) \<noteq> PENDING"
    by (simp_all add: seen_def split: if_splits)
  show ?thesis
    using not_hard crim acad gates_mono [of v D opts d]
    by (auto simp: derive_submitted) (auto simp: deriveApplicationStatus_def stageRank_def Let_def)
qed

lemma project_verdicts_seen:
  "project_verdicts v opts ds (deriveApplicationStatus SUBMITTED (seen v D) opts, seen v D) =
   (deriveApplicationStatus SUBMITTED (seen v (D \<union> set ds)) opts, seen v (D \<union> set ds))"
proof (induction ds arbitrary: D)
  case (Cons d ds)
  then show ?case
    using Cons.IH [of "insert d D"] by (simp add: seen_insert derive_seen_step Let_def)
qed simp

lemma project_verdicts_from_submitted:
  "project_verdicts v opts ds (SUBMITTED, no_evidence) =
   (deriveApplicationStatus SUBMITTED (seen v (set ds)) opts, seen v (set ds))"
proof -
  have "deriveApplicationStatus SUBMITTED (seen v {}) opts = SUBMITTED"
    by (simp add: derive_submitted seen_def lifecycle_defs)
  then show ?thesis using project_verdicts_seen [of v opts ds "{}"] by (simp add: seen_empty)
qed

subsection \<open>Adjudication lanes\<close>

datatype adjudication_lane = LANE_DOCUMENT | LANE_CRIMINAL | LANE_ACADEMIC

definition NESA_REVIEW_REQUIRED_CODE :: string where
  "NESA_REVIEW_REQUIRED_CODE = ''NESA_REVIEW_REQUIRED''"

definition DOCUMENT_HOLD :: "application_status set" where
  "DOCUMENT_HOLD = {DOCUMENT_REVIEW_AMBER, ADJUDICATION_REVIEW}"

text \<open>The detail column is jsonb; SQL NULL (\<open>None\<close>) is the source's null.\<close>

record hold_evidence =
  heStatus :: application_status
  heCriminal :: criminal_clearance_status
  heAcademic :: eligibility_status
  heDetail :: "json option"

definition adjudicationLanes :: "hold_evidence \<Rightarrow> adjudication_lane list" where
  "adjudicationLanes row =
     (if heStatus row \<in> TERMINAL then []
      else (if heStatus row \<in> DOCUMENT_HOLD then [LANE_DOCUMENT] else []) @
           (if heCriminal row = UNDER_REVIEW then [LANE_CRIMINAL] else []) @
           (if heAcademic row = PENDING \<and>
               (case heDetail row of None \<Rightarrow> False
                | Some d \<Rightarrow> json_get d ''failureCode'' = Some (JStr NESA_REVIEW_REQUIRED_CODE))
            then [LANE_ACADEMIC] else []))"

lemma adjudicationLanes_distinct: "distinct (adjudicationLanes row)"
  by (simp add: adjudicationLanes_def)

lemma document_lane_iff:
  "LANE_DOCUMENT \<in> set (adjudicationLanes row) \<longleftrightarrow>
     heStatus row = DOCUMENT_REVIEW_AMBER \<or> heStatus row = ADJUDICATION_REVIEW"
  by (auto simp: adjudicationLanes_def DOCUMENT_HOLD_def)

lemma criminal_lane_iff:
  "LANE_CRIMINAL \<in> set (adjudicationLanes row) \<longleftrightarrow>
     heStatus row \<notin> TERMINAL \<and> heCriminal row = UNDER_REVIEW"
  by (auto simp: adjudicationLanes_def)

lemma academic_lane_iff:
  "LANE_ACADEMIC \<in> set (adjudicationLanes row) \<longleftrightarrow>
     heStatus row \<notin> TERMINAL \<and> heAcademic row = PENDING \<and>
     (\<exists>d. heDetail row = Some d \<and> json_get d ''failureCode'' = Some (JStr NESA_REVIEW_REQUIRED_CODE))"
  by (auto simp: adjudicationLanes_def split: option.splits)

lemmas lane_iffs = document_lane_iff criminal_lane_iff academic_lane_iff

subsection \<open>A human decision outranks a machine's\<close>

definition decidedByHuman :: "dimension list \<Rightarrow> dimension \<Rightarrow> bool" where
  "decidedByHuman resolved d \<longleftrightarrow> d \<noteq> AGE \<and> d \<in> set resolved"

subsection \<open>Properties\<close>

text \<open>
  A row becomes document-green exactly when it is still before that rank and every gate has
  passed, and a green row stays green exactly while no gate has failed.
\<close>

theorem green_iff_all_gates:
  "deriveApplicationStatus s e opts = DOCUMENT_REVIEW_GREEN \<longleftrightarrow>
     (if s = DOCUMENT_REVIEW_GREEN then \<not> isHardFail e
      else stageRank s < stageRank DOCUMENT_REVIEW_GREEN \<and> allGatesPassed e opts)"
proof (cases "isHardFail e")
  case True
  then show ?thesis using allGatesPassed_not_hard by (cases s) (auto simp: deriveApplicationStatus_def stageRank_def)
next
  case False
  then show ?thesis
    by (cases s) (auto simp: deriveApplicationStatus_def stageRank_def Let_def)
qed

text \<open>
  A failed gate leaves terminal rows alone, rejects a registered walk-in in its own lane,
  rejects before the slot and holds for adjudication after it.
\<close>

theorem hard_fail_outcome:
  assumes "isHardFail e"
  shows "deriveApplicationStatus s e opts =
    (if s \<in> TERMINAL then s
     else if s = WALK_IN_REGISTERED then WALK_IN_REJECTED
     else if stageRank s < stageRank SLOT_ASSIGNED then REJECTED
     else ADJUDICATION_REVIEW)"
  using assms derive_hard_fail_values by (simp add: derive_terminal)

theorem hard_fail_outcome_witness:
  "deriveApplicationStatus SLOT_ASSIGNED
     \<lparr>ageStatus = ELIGIBLE, academicStatus = ELIGIBLE, criminalStatus = FLAGGED_CONVICTION,
      criminalContentReviewOnly = False\<rparr> default_options = ADJUDICATION_REVIEW"
proof -
  have "isHardFail \<lparr>ageStatus = ELIGIBLE, academicStatus = ELIGIBLE, criminalStatus = FLAGGED_CONVICTION,
      criminalContentReviewOnly = False\<rparr>" by (simp add: lifecycle_defs)
  from hard_fail_outcome [OF this, of SLOT_ASSIGNED default_options] show ?thesis by (simp add: stageRank_def)
qed

text \<open>
  Off the walk-in lane the derived status never ranks below the current one, and deriving
  again from the same evidence changes nothing.
\<close>

theorem progress_is_monotone:
  assumes "\<not> is_walk_in_status s"
  shows "stageRank s \<le> stageRank (deriveApplicationStatus s e opts) \<and>
    deriveApplicationStatus (deriveApplicationStatus s e opts) e opts = deriveApplicationStatus s e opts"
  using derive_rank_mono [OF assms] derive_idem by blast+

theorem progress_is_monotone_witness:
  "stageRank SUBMITTED \<le> stageRank (deriveApplicationStatus SUBMITTED no_evidence default_options)"
  using progress_is_monotone [of SUBMITTED no_evidence default_options]
  by (simp add: is_walk_in_status_def stageRank_def)

text \<open>On the walk-in lane the rank does regress: a hold ranks below the lane.\<close>

lemma walk_in_rank_regresses:
  "\<exists>e. stageRank (deriveApplicationStatus WALK_IN_ON_SITE_VETTING e opts) < stageRank WALK_IN_ON_SITE_VETTING"
proof
  show "stageRank (deriveApplicationStatus WALK_IN_ON_SITE_VETTING (no_evidence\<lparr>ageStatus := INELIGIBLE\<rparr>) opts)
      < stageRank WALK_IN_ON_SITE_VETTING"
    by (simp add: lifecycle_defs)
qed

end
