(* ===== verification/Store.thy ===== *)
theory Store
  imports Lifecycle
begin

text \<open>
  The PostgreSQL tables \<open>application-service\<close> reads and writes, as one database value: an
  isolated ops schema per agency (\<open>domain/agency-schema.ts\<close>: "the agency IS the schema") and
  the shared \<open>public_core\<close> tables. A repository transaction (\<open>sql.begin\<close> with its
  \<open>FOR UPDATE\<close> row lock) is a function from the database to the database and an outcome;
  a transaction that throws leaves the database as it was. \<open>db_now\<close> is \<open>now()\<close>, which
  PostgreSQL keeps constant inside a transaction.
\<close>

subsection \<open>Rows\<close>

text \<open>The exam day a slot assignment stamps, or the instant a gate admission stamps over it.\<close>

datatype scheduled_time = ScheduledDate string | ScheduledAt instant

text \<open>A row of \<open><schema>.applications\<close>: the columns the service reads or writes; \<open>None\<close> is SQL NULL.\<close>

record app_row =
  processing_code :: string
  applicant_id :: uuid
  campaign_id :: uuid
  category :: application_category
  app_status :: application_status
  is_walk_in :: bool
  nesa_index_number :: "string option"
  hec_registration_number :: "string option"
  policy_version_id :: "uuid option"
  evaluation_date :: "string option"
  submitted_at :: instant
  updated_at :: instant
  age_eligibility_status :: eligibility_status
  age_verified_at :: "instant option"
  age_eligibility_detail :: "json option"
  academic_status :: eligibility_status
  academic_eligibility_detail :: "json option"
  nesa_verified_at :: "instant option"
  nesa_verification_request_id :: "string option"
  hec_verified_at :: "instant option"
  hec_verification_request_id :: "string option"
  criminal_clearance_status :: criminal_clearance_status
  criminal_clearance_at :: "instant option"
  rib_request_id :: "string option"
  applied_criminal_threshold :: "string option"
  vetting_hold_resolvers :: "uuid list"
  vetting_hold_resolved_dimensions :: "dimension list"
  vetting_hold_resolved_at :: "instant option"
  venue_assignment_id :: "uuid option"
  assigned_district :: "string option"
  assigned_venue_name :: "string option"
  physical_test_scheduled_at :: "scheduled_time option"
  qr_invitation_code :: "string option"
  qr_invitation_issued_at :: "instant option"
  qr_signed_token :: "string option"
  sms_notification_sent_at :: "instant option"
  sms_notification_status :: "string option"
  physical_test_completed_at :: "instant option"
  physical_test_score_id :: "uuid option"
  medical_reviewed_by_id :: "uuid option"
  medical_reviewed_at :: "instant option"
  medical_fitness_status :: "string option"
  medical_cert_verified :: bool
  medical_cert_verified_at :: "instant option"
  medical_cert_physician_name :: "string option"
  final_decision_by_id :: "uuid option"
  final_decision_at :: "instant option"
  final_decision_notes :: "string option"

text \<open>A row with the column defaults of the schema and the values the front doors set.\<close>

definition opening_row ::
  "string \<Rightarrow> uuid \<Rightarrow> uuid \<Rightarrow> application_category \<Rightarrow> application_status \<Rightarrow> instant \<Rightarrow> app_row" where
  "opening_row code applicant campaign cat status now =
     \<lparr>processing_code = code, applicant_id = applicant, campaign_id = campaign, category = cat,
      app_status = status, is_walk_in = False, nesa_index_number = None, hec_registration_number = None,
      policy_version_id = None, evaluation_date = None, submitted_at = now, updated_at = now,
      age_eligibility_status = PENDING, age_verified_at = None, age_eligibility_detail = None,
      academic_status = PENDING, academic_eligibility_detail = None,
      nesa_verified_at = None, nesa_verification_request_id = None,
      hec_verified_at = None, hec_verification_request_id = None,
      criminal_clearance_status = CRIMINAL_PENDING, criminal_clearance_at = None, rib_request_id = None,
      applied_criminal_threshold = None, vetting_hold_resolvers = [], vetting_hold_resolved_dimensions = [],
      vetting_hold_resolved_at = None, venue_assignment_id = None, assigned_district = None,
      assigned_venue_name = None, physical_test_scheduled_at = None, qr_invitation_code = None,
      qr_invitation_issued_at = None, qr_signed_token = None, sms_notification_sent_at = None,
      sms_notification_status = None, physical_test_completed_at = None, physical_test_score_id = None,
      medical_reviewed_by_id = None, medical_reviewed_at = None, medical_fitness_status = None,
      medical_cert_verified = False, medical_cert_verified_at = None, medical_cert_physician_name = None,
      final_decision_by_id = None, final_decision_at = None, final_decision_notes = None\<rparr>"

record history_row =
  hist_application_id :: uuid
  from_status :: "application_status option"
  to_status :: application_status
  hist_reason :: string
  performed_by :: string
  hist_correlation_id :: string
  performed_at :: instant

text \<open>
  A row of \<open>physical_test_scores\<close>, the append-only log field-sync-service keeps; the vector clock is
  a \<open>jsonb\<close> object of counters by device.
\<close>

type_synonym vector_clock = "(string \<times> int) list"

record score_row =
  score_id :: uuid
  score_application_id :: uuid
  vector_clock :: vector_clock
  score_device_id :: string
  height_cm :: "int option"
  weight_kg :: "int option"
  run_3km_time_seconds :: "int option"
  chest_cm :: "int option"
  score_medical_fitness :: "string option"
  additional_notes :: "string option"
  device_signature :: string
  signed_payload_hash :: string
  capturing_officer_id :: uuid
  captured_at :: instant
  synced_at :: "instant option"
  sync_conflict_detected :: bool
  sync_conflict_resolution :: "string option"

record admission_row =
  adm_application_id :: uuid
  adm_ticket_id :: string
  adm_campaign_id :: uuid
  adm_venue_name :: string
  adm_exam_date :: string
  adm_identity_method :: string
  admitted_by_id :: uuid
  admitted_at :: instant

record attempt_row =
  att_application_id :: "uuid option"
  att_ticket_id :: "string option"
  att_outcome :: string
  att_gate_venue_name :: string
  att_officer_id :: uuid
  att_correlation_id :: string

text \<open>Biometric evidence an officer role can see excludes SHADOW rows (rls/0034).\<close>

record evidence_row =
  ev_id :: uuid
  ev_application_id :: uuid
  ev_ticket_id :: string
  ev_outcome :: string
  ev_shadow :: bool
  ev_received_at :: instant

record confirmation_row =
  conf_id :: uuid
  conf_evidence_id :: uuid
  confirmed_by_id :: uuid

record document_row =
  doc_application_id :: uuid
  doc_lane :: "document_lane option"
  human_reviewed_by_id :: "uuid option"
  human_reviewed_at :: "instant option"
  human_review_decision :: "string option"
  doc_id :: uuid
  doc_document_type :: string
  doc_object_key :: "string option"
  doc_object_bucket :: "string option"
  doc_file_size_bytes :: "nat option"
  doc_mime_type :: "string option"
  doc_virus_scan_status :: "string option"
  doc_virus_scan_at :: "instant option"
  doc_score :: "int option"
  doc_flags :: "json option"
  doc_completed_at :: "instant option"
  doc_revision :: int
  doc_content_hmac :: "string option"

text \<open>A row of \<open>clearance_certificate_verifications\<close> (written by background-vetting).\<close>

record clearance_row =
  cv_id :: uuid
  cv_application_id :: uuid
  cv_verified_at :: instant
  cv_outcome :: string
  cv_review_reasons :: "clearance_review_reason list option"
  cv_reference_hmac :: string
  cv_reference_last4 :: string
  cv_certificate_type :: "string option"
  cv_issued_on :: "string option"
  cv_failure_code :: "string option"
  cv_binding :: "json option"
  cv_upstream_trace_id :: "string option"
  cv_correlation_id :: "string option"

record ops_schema =
  applications :: "(uuid \<times> app_row) list"
  status_history :: "history_row list"
  physical_test_scores :: "score_row list"
  gate_admissions :: "admission_row list"
  gate_attempts :: "attempt_row list"
  biometric_evidence :: "evidence_row list"
  manual_identity_confirmations :: "confirmation_row list"
  document_records :: "document_row list"
  clearance_verifications :: "clearance_row list"
  processing_code_seq :: nat

record identity_row =
  national_id_hash :: string
  cross_agency_locked_at :: "instant option"
  cross_agency_locked_by_agency :: "agency option"
  cross_agency_lock_reason :: "string option"
  biometric_verified_at :: "instant option"

text \<open>The event type is a parameter: the outbox stores what the use cases hand it.\<close>

record campaign_row =
  campaign_agency :: agency
  campaign_status :: campaign_status

text \<open>A row of \<open>public_core.submission_requests\<close>; its key is the applicant and the idempotency key.\<close>

record ledger_row =
  request_hash :: string
  ledger_agency :: agency
  ledger_application_id :: uuid
  ledger_processing_code :: string
  created_at :: instant

record 'ev database =
  db_now :: instant
  schema_of :: "agency \<Rightarrow> ops_schema"
  applicant_identities :: "uuid \<Rightarrow> identity_row option"
  recruitment_campaigns :: "uuid \<Rightarrow> campaign_row option"
  submission_requests :: "((uuid \<times> string) \<times> ledger_row) list"
  event_outbox :: "'ev list"

subsection \<open>Statements\<close>

definition app_of :: "'ev database \<Rightarrow> agency \<Rightarrow> uuid \<Rightarrow> app_row option" where
  "app_of db a i = map_of (applications (schema_of db a)) i"

definition select_apps :: "(uuid \<Rightarrow> app_row \<Rightarrow> bool) \<Rightarrow> 'ev database \<Rightarrow> agency \<Rightarrow> (uuid \<times> app_row) list" where
  "select_apps P db a = select_rows P (applications (schema_of db a))"

definition history_of :: "'ev database \<Rightarrow> agency \<Rightarrow> history_row list" where
  "history_of db a = status_history (schema_of db a)"

definition update_schema :: "agency \<Rightarrow> (ops_schema \<Rightarrow> ops_schema) \<Rightarrow> 'ev database \<Rightarrow> 'ev database" where
  "update_schema a f db = db\<lparr>schema_of := (schema_of db)(a := f (schema_of db a))\<rparr>"

text \<open>\<open>UPDATE <schema>.applications SET \<dots> WHERE id = i\<close>; every statement of the source sets \<open>updated_at\<close>.\<close>

definition update_app :: "agency \<Rightarrow> uuid \<Rightarrow> (app_row \<Rightarrow> app_row) \<Rightarrow> 'ev database \<Rightarrow> 'ev database" where
  "update_app a i f db =
     update_schema a
       (\<lambda>s. s\<lparr>applications := update_row i (\<lambda>r. (f r)\<lparr>updated_at := db_now db\<rparr>) (applications s)\<rparr>) db"

definition insert_app :: "agency \<Rightarrow> uuid \<Rightarrow> app_row \<Rightarrow> 'ev database \<Rightarrow> 'ev database" where
  "insert_app a i r db = update_schema a (\<lambda>s. s\<lparr>applications := (i, r) # applications s\<rparr>) db"

definition insert_history ::
  "agency \<Rightarrow> uuid \<Rightarrow> application_status option \<Rightarrow> application_status \<Rightarrow> string \<Rightarrow> string \<Rightarrow> string \<Rightarrow>
   'ev database \<Rightarrow> 'ev database" where
  "insert_history a i f t reason by corr db =
     update_schema a
       (\<lambda>s. s\<lparr>status_history := status_history s @
              [\<lparr>hist_application_id = i, from_status = f, to_status = t, hist_reason = reason,
                performed_by = by, hist_correlation_id = corr, performed_at = db_now db\<rparr>]\<rparr>) db"

definition stage_events :: "'ev list \<Rightarrow> 'ev database \<Rightarrow> 'ev database" where
  "stage_events evs db = db\<lparr>event_outbox := event_outbox db @ evs\<rparr>"

text \<open>
  \<open>qr_invitation_code\<close> and \<open>processing_code\<close> are unique columns: a write that would repeat
  another row's value is refused by the engine.
\<close>

definition qr_taken :: "'ev database \<Rightarrow> agency \<Rightarrow> uuid \<Rightarrow> string \<Rightarrow> bool" where
  "qr_taken db a i code = (select_apps (\<lambda>j r. j \<noteq> i \<and> qr_invitation_code r = Some code) db a \<noteq> [])"

definition code_taken :: "'ev database \<Rightarrow> agency \<Rightarrow> uuid \<Rightarrow> string \<Rightarrow> bool" where
  "code_taken db a i code = (select_apps (\<lambda>j r. j \<noteq> i \<and> processing_code r = code) db a \<noteq> [])"

subsection \<open>What each statement leaves alone\<close>

lemma schema_of_update_schema [store_simps]:
  "schema_of (update_schema a f db) b = (if a = b then f (schema_of db a) else schema_of db b)"
  by (simp add: update_schema_def)

lemma update_schema_frame [store_simps]:
  "db_now (update_schema a f db) = db_now db"
  "applicant_identities (update_schema a f db) = applicant_identities db"
  "event_outbox (update_schema a f db) = event_outbox db"
  "recruitment_campaigns (update_schema a f db) = recruitment_campaigns db"
  "submission_requests (update_schema a f db) = submission_requests db"
  by (simp_all add: update_schema_def)

lemma app_of_statements [store_simps]:
  "app_of (update_app a i f db) b j =
     (if a = b \<and> i = j then map_option (\<lambda>r. (f r)\<lparr>updated_at := db_now db\<rparr>) (app_of db a i) else app_of db b j)"
  "app_of (insert_app a i r db) b j = (if a = b \<and> i = j then Some r else app_of db b j)"
  "app_of (insert_history a i fr t reason by corr db) b j = app_of db b j"
  "app_of (stage_events evs db) b j = app_of db b j"
  by (simp_all add: app_of_def update_app_def insert_app_def insert_history_def stage_events_def
      schema_of_update_schema map_of_update_row)

lemma in_select_apps: "(i, r) \<in> set (select_apps P db a) \<longleftrightarrow> app_of db a i = Some r \<and> P i r"
  by (simp add: select_apps_def app_of_def set_select_rows)

lemma select_apps_empty_iff: "select_apps P db a = [] \<longleftrightarrow> (\<forall>i r. app_of db a i = Some r \<longrightarrow> \<not> P i r)"
proof -
  have "select_apps P db a = [] \<longleftrightarrow> (\<forall>i r. (i, r) \<notin> set (select_apps P db a))"
    by (cases "select_apps P db a") auto
  then show ?thesis by (simp add: in_select_apps)
qed

lemma taken_iff:
  "qr_taken db a i code \<longleftrightarrow> (\<exists>j r. app_of db a j = Some r \<and> j \<noteq> i \<and> qr_invitation_code r = Some code)"
  "code_taken db a i code \<longleftrightarrow> (\<exists>j r. app_of db a j = Some r \<and> j \<noteq> i \<and> processing_code r = code)"
  by (auto simp: qr_taken_def code_taken_def select_apps_empty_iff)

lemma distinct_select_apps: "distinct (map fst (select_apps P db a))"
  by (simp add: select_apps_def distinct_select_rows)

lemma history_of_statements [store_simps]:
  "history_of (update_app a i f db) b = history_of db b"
  "history_of (insert_app a i r db) b = history_of db b"
  "history_of (insert_history a i fr t reason by corr db) b =
     history_of db b @ (if a = b
       then [\<lparr>hist_application_id = i, from_status = fr, to_status = t, hist_reason = reason,
              performed_by = by, hist_correlation_id = corr, performed_at = db_now db\<rparr>] else [])"
  "history_of (stage_events evs db) b = history_of db b"
  by (simp_all add: history_of_def update_app_def insert_app_def insert_history_def stage_events_def
      schema_of_update_schema)

lemma frame_statements [store_simps]:
  "db_now (update_app a i f db) = db_now db"
  "db_now (insert_app a i r db) = db_now db"
  "db_now (insert_history a i fr t reason by corr db) = db_now db"
  "db_now (stage_events evs db) = db_now db"
  "applicant_identities (update_app a i f db) = applicant_identities db"
  "applicant_identities (insert_app a i r db) = applicant_identities db"
  "applicant_identities (insert_history a i fr t reason by corr db) = applicant_identities db"
  "applicant_identities (stage_events evs db) = applicant_identities db"
  "event_outbox (update_app a i f db) = event_outbox db"
  "event_outbox (insert_app a i r db) = event_outbox db"
  "event_outbox (insert_history a i fr t reason by corr db) = event_outbox db"
  "event_outbox (stage_events evs db) = event_outbox db @ evs"
  "recruitment_campaigns (update_app a i f db) = recruitment_campaigns db"
  "recruitment_campaigns (insert_app a i r db) = recruitment_campaigns db"
  "recruitment_campaigns (insert_history a i fr t reason by corr db) = recruitment_campaigns db"
  "recruitment_campaigns (stage_events evs db) = recruitment_campaigns db"
  "submission_requests (update_app a i f db) = submission_requests db"
  "submission_requests (insert_app a i r db) = submission_requests db"
  "submission_requests (insert_history a i fr t reason by corr db) = submission_requests db"
  "submission_requests (stage_events evs db) = submission_requests db"
  by (simp_all add: update_app_def insert_app_def insert_history_def stage_events_def
      update_schema_frame)

lemma schema_of_statements [store_simps]:
  "a \<noteq> b \<Longrightarrow> schema_of (update_app a i f db) b = schema_of db b"
  "a \<noteq> b \<Longrightarrow> schema_of (insert_app a i r db) b = schema_of db b"
  "a \<noteq> b \<Longrightarrow> schema_of (insert_history a i fr t reason by corr db) b = schema_of db b"
  "schema_of (stage_events evs db) b = schema_of db b"
  by (simp_all add: update_app_def insert_app_def insert_history_def stage_events_def
      schema_of_update_schema)

lemma gate_admissions_statements [store_simps]:
  "gate_admissions (schema_of (update_app a i f db) b) = gate_admissions (schema_of db b)"
  "gate_admissions (schema_of (insert_app a i r db) b) = gate_admissions (schema_of db b)"
  "gate_admissions (schema_of (insert_history a i fr t reason by corr db) b) = gate_admissions (schema_of db b)"
  "gate_admissions (schema_of (stage_events evs db) b) = gate_admissions (schema_of db b)"
  by (simp_all add: update_app_def insert_app_def insert_history_def stage_events_def
      schema_of_update_schema)

subsection \<open>The status trail of an application\<close>

text \<open>
  The transitions the append-only history records for one application, oldest first. A
  well-formed trail starts with the opening entry (from NULL), each entry starts where the one
  before ended, none stays in place, and the last entry is the row's current status.
\<close>

definition rows_of :: "uuid \<Rightarrow> history_row list \<Rightarrow> history_row list" where
  "rows_of i h = filter (\<lambda>r. hist_application_id r = i) h"

definition trail :: "'ev database \<Rightarrow> agency \<Rightarrow> uuid \<Rightarrow> (application_status option \<times> application_status) list" where
  "trail db a i = map (\<lambda>r. (from_status r, to_status r)) (rows_of i (history_of db a))"

fun chained :: "application_status option \<Rightarrow> (application_status option \<times> application_status) list \<Rightarrow> bool" where
  "chained s [] = True"
| "chained s ((f, t) # es) = (f = s \<and> f \<noteq> Some t \<and> chained (Some t) es)"

fun trail_end :: "application_status option \<Rightarrow> (application_status option \<times> application_status) list \<Rightarrow> application_status option" where
  "trail_end s [] = s"
| "trail_end s ((f, t) # es) = trail_end (Some t) es"

lemma chained_snoc: "chained s (es @ [(f, t)]) \<longleftrightarrow> chained s es \<and> f = trail_end s es \<and> f \<noteq> Some t"
  by (induction s es rule: chained.induct) auto

lemma trail_end_snoc: "trail_end s (es @ [(f, t)]) = Some t"
  by (induction s es rule: trail_end.induct) auto

lemma trail_statements [store_simps]:
  "trail (update_app a i f db) b j = trail db b j"
  "trail (insert_app a i r db) b j = trail db b j"
  "trail (stage_events evs db) b j = trail db b j"
  "trail (insert_history a i fr t reason by corr db) b j =
     trail db b j @ (if a = b \<and> i = j then [(fr, t)] else [])"
  by (simp_all add: trail_def rows_of_def history_of_statements)

definition trail_ok :: "'ev database \<Rightarrow> bool" where
  "trail_ok db \<longleftrightarrow>
     (\<forall>a i. chained None (trail db a i) \<and>
            trail_end None (trail db a i) = map_option app_status (app_of db a i))"

end
