(* ===== verification/Sample.thy ===== *)
theory Sample
  imports Store
begin

text \<open>
  Concrete rows and databases: the inputs at which the hypotheses of the development's theorems
  are shown to hold. Nothing else depends on them.
\<close>

definition sample_row :: "application_status \<Rightarrow> app_row" where
  "sample_row s = opening_row ''RDF-00001'' ''citizen'' ''campaign'' GENERAL_ENLISTMENT s 0"

definition sample_history :: "uuid \<Rightarrow> application_status option \<Rightarrow> application_status \<Rightarrow> string \<Rightarrow> instant \<Rightarrow> history_row" where
  "sample_history i f t who when =
     \<lparr>hist_application_id = i, from_status = f, to_status = t, hist_reason = ''sample'', performed_by = who,
      hist_correlation_id = ''corr'', performed_at = when\<rparr>"

definition sample_score :: "uuid \<Rightarrow> uuid \<Rightarrow> string \<Rightarrow> instant \<Rightarrow> bool \<Rightarrow> score_row" where
  "sample_score k i hash t held =
     \<lparr>score_id = k, score_application_id = i, vector_clock = [(''tablet'', 1)], score_device_id = ''tablet'',
      height_cm = Some 180, weight_kg = Some 70, run_3km_time_seconds = Some 800, chest_cm = Some 95,
      score_medical_fitness = Some ''FIT'', additional_notes = None, device_signature = ''sig'',
      signed_payload_hash = hash, capturing_officer_id = ''o'', captured_at = t, synced_at = Some t,
      sync_conflict_detected = held, sync_conflict_resolution = None\<rparr>"

definition empty_schema :: ops_schema where
  "empty_schema =
     \<lparr>applications = [], status_history = [], physical_test_scores = [], gate_admissions = [], gate_attempts = [],
      biometric_evidence = [], manual_identity_confirmations = [], document_records = [],
      clearance_verifications = [], processing_code_seq = 0\<rparr>"

definition sample_identity :: identity_row where
  "sample_identity =
     \<lparr>national_id_hash = ''hash'', cross_agency_locked_at = None, cross_agency_locked_by_agency = None,
      cross_agency_lock_reason = None, biometric_verified_at = None\<rparr>"

text \<open>One open RDF campaign, one citizen, and the given content of the RDF schema.\<close>

definition sample_db :: "ops_schema \<Rightarrow> string database" where
  "sample_db s =
     \<lparr>db_now = 1000, schema_of = (\<lambda>_. empty_schema)(RDF := s),
      applicant_identities = (\<lambda>p. if p = ''citizen'' then Some sample_identity else None),
      recruitment_campaigns =
        (\<lambda>c. if c = ''campaign'' then Some \<lparr>campaign_agency = RDF, campaign_status = REGISTRATION_OPEN\<rparr> else None),
      submission_requests = [], event_outbox = []\<rparr>"

text \<open>The one application \<open>app\<close> of the citizen, in a given row state.\<close>

definition one_app :: "app_row \<Rightarrow> string database" where
  "one_app r = sample_db (empty_schema\<lparr>applications := [(''app'', r)]\<rparr>)"

lemmas sample_defs = sample_row_def sample_history_def sample_score_def empty_schema_def sample_identity_def sample_db_def one_app_def

lemma sample_simps [simp]:
  "app_status (sample_row s) = s" "applicant_id (sample_row s) = ''citizen''"
  "campaign_id (sample_row s) = ''campaign''" "category (sample_row s) = GENERAL_ENLISTMENT"
  "qr_signed_token (sample_row s) = None" "vetting_hold_resolved_dimensions (sample_row s) = []"
  "app_of (sample_db t) RDF i = map_of (applications t) i" "app_of (one_app r) RDF ''app'' = Some r"
  by (simp_all add: sample_row_def opening_row_def one_app_def sample_db_def app_of_def)

end
