(* ===== verification/Transitions.thy ===== *)
theory Transitions
  imports Sample
begin

text \<open>
  The contract between the repository transactions and the rest of the platform. An edge
  relation says which status changes an operation may make (\<open>None\<close> on the left opens a row);
  \<open>moves E db db'\<close> says that every application either stayed where it was or walked along
  \<open>E\<close>-edges, each of them recorded on its append-only history. Three locales state it as
  interfaces: any transaction, one that addresses a single application, one that never moves
  a status.
\<close>

type_synonym edge = "application_status option \<Rightarrow> application_status \<Rightarrow> bool"

definition status_of :: "'ev database \<Rightarrow> agency \<Rightarrow> uuid \<Rightarrow> application_status option" where
  "status_of db a i = map_option app_status (app_of db a i)"

text \<open>
  What identifies a row never changes after the insert, and a vetting dimension a human decided
  stays decided.
\<close>

definition same_key :: "app_row \<Rightarrow> app_row \<Rightarrow> bool" where
  "same_key r r' \<longleftrightarrow>
     applicant_id r' = applicant_id r \<and> campaign_id r' = campaign_id r \<and>
     category r' = category r \<and> is_walk_in r' = is_walk_in r \<and>
     processing_code r' = processing_code r \<and>
     set (vetting_hold_resolved_dimensions r) \<subseteq> set (vetting_hold_resolved_dimensions r')"

lemma same_key_refl [simp]: "same_key r r"
  by (simp add: same_key_def)

lemma same_key_trans: "same_key r s \<Longrightarrow> same_key s t \<Longrightarrow> same_key r t"
  by (auto simp: same_key_def)

lemma same_key_updated_at [simp]: "same_key r (s\<lparr>updated_at := t\<rparr>) = same_key r s"
  by (simp add: same_key_def)

subsection \<open>Trails\<close>

lemma chained_append: "chained s (xs @ ys) \<longleftrightarrow> chained s xs \<and> chained (trail_end s xs) ys"
  by (induction s xs rule: chained.induct) simp_all

lemma trail_end_append: "trail_end s (xs @ ys) = trail_end (trail_end s xs) ys"
  by (induction s xs rule: trail_end.induct) simp_all

lemma trail_end_None_iff: "trail_end None es = None \<longleftrightarrow> es = []"
proof -
  have "trail_end (Some s) es \<noteq> None" for s es
    by (induction "Some s" es arbitrary: s rule: trail_end.induct) auto
  then show ?thesis by (cases es) auto
qed

definition along :: "edge \<Rightarrow> (application_status option \<times> application_status) list \<Rightarrow> bool" where
  "along E es \<longleftrightarrow> (\<forall>e \<in> set es. E (fst e) (snd e))"

lemma along_simps [simp]:
  "along E []" "along E ((f, t) # es) \<longleftrightarrow> E f t \<and> along E es"
  "along E (xs @ ys) \<longleftrightarrow> along E xs \<and> along E ys"
  by (auto simp: along_def)

lemma along_mono: "along E es \<Longrightarrow> (\<And>f t. E f t \<Longrightarrow> F f t) \<Longrightarrow> along F es"
  by (auto simp: along_def)

subsection \<open>Moves\<close>

definition row_moves :: "edge \<Rightarrow> 'ev database \<Rightarrow> 'ev database \<Rightarrow> agency \<Rightarrow> uuid \<Rightarrow> bool" where
  "row_moves E db db' a i \<longleftrightarrow>
     (\<exists>es. trail db' a i = trail db a i @ es \<and> chained (status_of db a i) es \<and> along E es \<and>
           trail_end (status_of db a i) es = status_of db' a i) \<and>
     (\<forall>r. app_of db a i = Some r \<longrightarrow> (\<exists>r'. app_of db' a i = Some r' \<and> same_key r r'))"

text \<open>The history is append-only, and every new entry is stamped with the transaction's clock.\<close>

definition history_grows :: "'ev database \<Rightarrow> 'ev database \<Rightarrow> bool" where
  "history_grows db db' \<longleftrightarrow>
     (\<forall>a. \<exists>hs. history_of db' a = history_of db a @ hs \<and> (\<forall>h \<in> set hs. performed_at h = db_now db))"

lemma history_grows_same: "(\<And>a. history_of db' a = history_of db a) \<Longrightarrow> history_grows db db'"
  by (simp add: history_grows_def)

lemma history_grows_insert:
  assumes "\<And>b. history_of db2 b = history_of db b" and "db_now db2 = db_now db"
  shows "history_grows db (insert_history a i f t reason by corr db2)"
  using assms by (simp add: history_grows_def store_simps)

lemma history_grows_trans:
  assumes "history_grows db1 db2" and "history_grows db2 db3" and "db_now db2 = db_now db1"
  shows "history_grows db1 db3"
  unfolding history_grows_def
proof
  fix a
  from assms(1) obtain xs where "history_of db2 a = history_of db1 a @ xs" "\<forall>h \<in> set xs. performed_at h = db_now db1"
    unfolding history_grows_def by blast
  moreover from assms(2,3) obtain ys where "history_of db3 a = history_of db2 a @ ys"
      "\<forall>h \<in> set ys. performed_at h = db_now db1"
    unfolding history_grows_def by metis
  ultimately show "\<exists>hs. history_of db3 a = history_of db1 a @ hs \<and> (\<forall>h \<in> set hs. performed_at h = db_now db1)"
    by (intro exI [of _ "xs @ ys"]) auto
qed

definition moves :: "edge \<Rightarrow> 'ev database \<Rightarrow> 'ev database \<Rightarrow> bool" where
  "moves E db db' \<longleftrightarrow>
     db_now db' = db_now db \<and> history_grows db db' \<and> (\<forall>a i. row_moves E db db' a i)"

text \<open>No application moved at all.\<close>

definition quiet :: "'ev database \<Rightarrow> 'ev database \<Rightarrow> bool" where
  "quiet db db' \<longleftrightarrow> moves (\<lambda>_ _. False) db db'"

lemma row_moves_refl: "row_moves E db db a i"
  unfolding row_moves_def by (auto intro!: exI [where x = "[]"])

lemma row_moves_same:
  assumes "app_of db' a i = app_of db a i" and "trail db' a i = trail db a i"
  shows "row_moves E db db' a i"
  using assms unfolding row_moves_def status_of_def by (auto intro!: exI [where x = "[]"])

lemma row_moves_trans:
  assumes "row_moves E db1 db2 a i" and "row_moves E db2 db3 a i"
  shows "row_moves E db1 db3 a i"
proof -
  from assms(1) obtain xs where xs: "trail db2 a i = trail db1 a i @ xs"
      "chained (status_of db1 a i) xs" "along E xs" "trail_end (status_of db1 a i) xs = status_of db2 a i"
    unfolding row_moves_def by blast
  from assms(2) obtain ys where ys: "trail db3 a i = trail db2 a i @ ys"
      "chained (status_of db2 a i) ys" "along E ys" "trail_end (status_of db2 a i) ys = status_of db3 a i"
    unfolding row_moves_def by blast
  have "trail db3 a i = trail db1 a i @ (xs @ ys) \<and> chained (status_of db1 a i) (xs @ ys) \<and>
      along E (xs @ ys) \<and> trail_end (status_of db1 a i) (xs @ ys) = status_of db3 a i"
    using xs ys by (simp add: chained_append trail_end_append)
  moreover have "\<forall>r. app_of db1 a i = Some r \<longrightarrow> (\<exists>r'. app_of db3 a i = Some r' \<and> same_key r r')"
    using assms unfolding row_moves_def by (meson same_key_trans)
  ultimately show ?thesis unfolding row_moves_def by blast
qed

lemma moves_refl [simp, intro]: "moves E db db"
  by (simp add: moves_def row_moves_refl history_grows_same)

lemma moves_trans: "moves E db1 db2 \<Longrightarrow> moves E db2 db3 \<Longrightarrow> moves E db1 db3"
  unfolding moves_def using row_moves_trans history_grows_trans by metis

lemma moves_mono: "moves E db db' \<Longrightarrow> (\<And>f t. E f t \<Longrightarrow> F f t) \<Longrightarrow> moves F db db'"
  unfolding moves_def row_moves_def by (meson along_mono)

lemma quiet_moves: "quiet db db' \<Longrightarrow> moves E db db'"
  unfolding quiet_def by (erule moves_mono) simp

lemma quiet_then_moves: "quiet db1 db2 \<Longrightarrow> moves E db2 db3 \<Longrightarrow> moves E db1 db3"
  by (blast intro: moves_trans quiet_moves)

lemma moves_then_quiet: "moves E db1 db2 \<Longrightarrow> quiet db2 db3 \<Longrightarrow> moves E db1 db3"
  by (blast intro: moves_trans quiet_moves)

subsection \<open>The moves of the statements\<close>

lemma quiet_stage [simp]: "quiet db (stage_events evs db)"
  by (auto simp: quiet_def moves_def store_simps intro!: row_moves_same history_grows_same)

lemma moves_stage [simp]: "moves E db (stage_events evs db') \<longleftrightarrow> moves E db db'"
  by (auto simp: moves_def row_moves_def status_of_def history_grows_def store_simps)

text \<open>An UPDATE that leaves status and key alone.\<close>

lemma quiet_update_app:
  assumes "\<And>r. app_of db a i = Some r \<Longrightarrow> app_status (f r) = app_status r \<and> same_key r (f r)"
  shows "quiet db (update_app a i f db)"
proof -
  have "row_moves (\<lambda>_ _. False) db (update_app a i f db) b j" for b j
    using assms unfolding row_moves_def status_of_def
    by (cases "app_of db a i") (auto simp: store_simps intro!: exI [where x = "[]"])
  then show ?thesis by (simp add: quiet_def moves_def history_grows_same store_simps)
qed

text \<open>The UPDATE of a status with the history row that records it, the pair every transition writes.\<close>

lemma moves_recorded:
  assumes "app_of db a i = Some r" and "app_status r = s" and "E (Some s) t" and "t \<noteq> s"
    and "app_of db2 a i = Some r'" and "app_status r' = t" and "same_key r r'"
    and "\<And>b j. \<not> (a = b \<and> i = j) \<Longrightarrow> app_of db2 b j = app_of db b j"
    and "\<And>b. history_of db2 b = history_of db b" and "db_now db2 = db_now db"
  shows "moves E db (insert_history a i (Some s) t reason by corr db2)"
    (is "moves E db ?db'")
proof -
  have trails: "trail db2 b j = trail db b j" for b j using assms(9) by (simp add: trail_def)
  have "row_moves E db ?db' b j" for b j
  proof (cases "a = b \<and> i = j")
    case True
    with assms show ?thesis
      unfolding row_moves_def status_of_def
      by (auto simp: store_simps trails intro!: exI [where x = "[(Some s, t)]"])
  next
    case False
    with assms(8) show ?thesis by (auto simp: store_simps trails intro!: row_moves_same)
  qed
  with assms(9,10) show ?thesis by (simp add: moves_def history_grows_insert store_simps)
qed

lemma moves_transition:
  assumes "app_of db a i = Some r" and "app_status r = s" and "E (Some s) t" and "t \<noteq> s"
    and "app_status (f r) = t" and "same_key r (f r)"
  shows "moves E db (insert_history a i (Some s) t reason by corr (update_app a i f db))"
  by (rule moves_recorded [where r' = "(f r)\<lparr>updated_at := db_now db\<rparr>"])
     (use assms in \<open>auto simp: store_simps\<close>)

text \<open>How an operation without a state-dependent target is checked: one rule per statement shape.\<close>

lemmas step_rules = moves_transition quiet_moves [OF quiet_update_app]

lemma moves_opening:
  assumes "app_of db a i = None" and "E None t" and "app_status r = t"
  shows "moves E db (insert_history a i None t reason by corr (insert_app a i r db))"
    (is "moves E db ?db'")
proof -
  have "row_moves E db ?db' b j" for b j
  proof (cases "a = b \<and> i = j")
    case True
    with assms show ?thesis
      unfolding row_moves_def status_of_def
      by (auto simp: store_simps intro!: exI [where x = "[(None, t)]"])
  next
    case False
    then show ?thesis by (auto simp: store_simps intro!: row_moves_same)
  qed
  then show ?thesis by (simp add: moves_def history_grows_insert store_simps)
qed

lemma app_of_update_schema:
  "app_of (update_schema a f db) b i = (if a = b then map_of (applications (f (schema_of db a))) i else app_of db b i)"
  by (simp add: app_of_def schema_of_update_schema)

lemma history_of_update_schema:
  "history_of (update_schema a f db) b = (if a = b then status_history (f (schema_of db a)) else history_of db b)"
  by (simp add: history_of_def schema_of_update_schema)

text \<open>A write to any other table of a schema.\<close>

lemma quiet_update_schema:
  assumes "\<And>s. applications (f s) = applications s" and "\<And>s. status_history (f s) = status_history s"
  shows "quiet db (update_schema a f db)"
proof -
  have app: "app_of (update_schema a f db) b i = app_of db b i" for b i
    using assms(1) by (simp add: app_of_update_schema) (simp add: app_of_def)
  have hist: "history_of (update_schema a f db) b = history_of db b" for b
    using assms(2) by (simp add: history_of_update_schema) (simp add: history_of_def)
  with app show ?thesis
    by (simp add: quiet_def moves_def row_moves_same history_grows_same trail_def update_schema_frame)
qed

lemma quiet_public_core [simp]:
  "quiet db (db\<lparr>applicant_identities := m\<rparr>)"
  "quiet db (db\<lparr>submission_requests := l\<rparr>)"
  by (auto simp: quiet_def moves_def app_of_def trail_def history_of_def intro!: row_moves_same history_grows_same)

lemma public_core_frame [store_simps]:
  "app_of (db\<lparr>applicant_identities := m\<rparr>) a i = app_of db a i"
  "app_of (db\<lparr>submission_requests := l\<rparr>) a i = app_of db a i"
  "trail (db\<lparr>applicant_identities := m\<rparr>) a i = trail db a i"
  "trail (db\<lparr>submission_requests := l\<rparr>) a i = trail db a i"
  "history_of (db\<lparr>applicant_identities := m\<rparr>) a = history_of db a"
  "history_of (db\<lparr>submission_requests := l\<rparr>) a = history_of db a"
  by (simp_all add: app_of_def trail_def history_of_def)

text \<open>A loop over rows, each iteration of which moves along \<open>E\<close>.\<close>

lemma moves_foldl:
  assumes "\<And>x acc. x \<in> set xs \<Longrightarrow> moves E acc (step acc x)"
  shows "moves E db (foldl step db xs)"
  using assms
proof (induction xs arbitrary: db)
  case (Cons x xs)
  then show ?case by (simp add: moves_trans [of E db "step db x"])
qed simp

lemma trail_ok_moves:
  assumes "trail_ok db" and "moves E db db'" shows "trail_ok db'"
proof -
  have "chained None (trail db' a i) \<and> trail_end None (trail db' a i) = status_of db' a i" for a i
  proof -
    from assms(2) obtain es where "trail db' a i = trail db a i @ es" "chained (status_of db a i) es"
        "trail_end (status_of db a i) es = status_of db' a i"
      unfolding moves_def row_moves_def by blast
    with assms(1) show ?thesis
      by (simp add: trail_ok_def status_of_def chained_append trail_end_append)
  qed
  then show ?thesis by (simp add: trail_ok_def status_of_def)
qed

subsection \<open>Locality\<close>

text \<open>
  \<open>local_to a i db db'\<close>: every other agency's schema is untouched, and so is every other row of
  this one's \<open>applications\<close> table, with its history.
\<close>

definition local_to :: "agency \<Rightarrow> uuid \<Rightarrow> 'ev database \<Rightarrow> 'ev database \<Rightarrow> bool" where
  "local_to a i db db' \<longleftrightarrow>
     (\<forall>b. b \<noteq> a \<longrightarrow> schema_of db' b = schema_of db b) \<and>
     (\<forall>j. j \<noteq> i \<longrightarrow> app_of db' a j = app_of db a j \<and> trail db' a j = trail db a j)"

lemma local_to_refl [simp]: "local_to a i db db"
  by (simp add: local_to_def)

lemma local_to_statements [simp]:
  "local_to a i db (update_app a i f db') \<longleftrightarrow> local_to a i db db'"
  "local_to a i db (insert_app a i r db') \<longleftrightarrow> local_to a i db db'"
  "local_to a i db (insert_history a i fr t reason by corr db') \<longleftrightarrow> local_to a i db db'"
  "local_to a i db (stage_events evs db') \<longleftrightarrow> local_to a i db db'"
  "local_to a i db (db'\<lparr>applicant_identities := m\<rparr>) \<longleftrightarrow> local_to a i db db'"
  "local_to a i db (db'\<lparr>submission_requests := l\<rparr>) \<longleftrightarrow> local_to a i db db'"
  by (auto simp: local_to_def store_simps)

lemma local_to_update_schema:
  "(\<And>s. applications (f s) = applications s) \<Longrightarrow> (\<And>s. status_history (f s) = status_history s) \<Longrightarrow>
   local_to a i db (update_schema a f db') \<longleftrightarrow> local_to a i db db'"
  by (auto simp: local_to_def app_of_def trail_def history_of_def schema_of_update_schema)

lemma local_to_other:
  assumes "local_to a i db db'" and "\<not> (b = a \<and> j = i)"
  shows "app_of db' b j = app_of db b j" and "trail db' b j = trail db b j"
  using assms by (cases "b = a"; simp add: local_to_def app_of_def trail_def history_of_def)+

text \<open>What only the acceptance and the gate write: the shared identities and the admissions.\<close>

definition leaves_shared :: "'ev database \<Rightarrow> 'ev database \<Rightarrow> bool" where
  "leaves_shared db db' \<longleftrightarrow>
     applicant_identities db' = applicant_identities db \<and>
     (\<forall>a. gate_admissions (schema_of db' a) = gate_admissions (schema_of db a))"

lemma leaves_shared_refl [simp]: "leaves_shared db db"
  by (simp add: leaves_shared_def)

lemma leaves_shared_statements [simp]:
  "leaves_shared db (update_app a i f db') \<longleftrightarrow> leaves_shared db db'"
  "leaves_shared db (insert_app a i r db') \<longleftrightarrow> leaves_shared db db'"
  "leaves_shared db (insert_history a j fr t reason by corr db') \<longleftrightarrow> leaves_shared db db'"
  "leaves_shared db (stage_events evs db') \<longleftrightarrow> leaves_shared db db'"
  "leaves_shared db (db'\<lparr>submission_requests := l\<rparr>) \<longleftrightarrow> leaves_shared db db'"
  by (simp_all add: leaves_shared_def frame_statements gate_admissions_statements)

lemma leaves_shared_update_schema:
  "(\<And>s. gate_admissions (f s) = gate_admissions s) \<Longrightarrow>
   leaves_shared db (update_schema a f db') \<longleftrightarrow> leaves_shared db db'"
  by (auto simp: leaves_shared_def schema_of_update_schema update_schema_frame)

subsection \<open>Interfaces\<close>

text \<open>A transaction of the platform, with the status edges its input lets it take.\<close>

locale lifecycle_transaction =
  fixes run :: "'i \<Rightarrow> 'ev database \<Rightarrow> 'ev database \<times> 'o"
    and allowed :: "'i \<Rightarrow> edge"
  assumes step: "moves (allowed inp) db (fst (run inp db))"
begin

lemma keeps_trail_ok: "trail_ok db \<Longrightarrow> trail_ok (fst (run inp db))"
  using step trail_ok_moves by blast

lemma history_append_only: "\<exists>es. trail (fst (run inp db)) a i = trail db a i @ es \<and> along (allowed inp) es"
  using step [of inp db] unfolding moves_def row_moves_def by blast

lemma keeps_key:
  "app_of db a i = Some r \<Longrightarrow> \<exists>r'. app_of (fst (run inp db)) a i = Some r' \<and> same_key r r'"
  using step [of inp db] unfolding moves_def row_moves_def by blast

text \<open>A status the operation has no edge from is left where it is.\<close>

lemma keeps_status:
  assumes "app_of db a i = Some r" and "\<And>t. \<not> allowed inp (Some (app_status r)) t"
  shows "\<exists>r'. app_of (fst (run inp db)) a i = Some r' \<and> app_status r' = app_status r \<and>
              trail (fst (run inp db)) a i = trail db a i"
proof -
  let ?db' = "fst (run inp db)"
  from step [of inp db] obtain es where es: "trail ?db' a i = trail db a i @ es"
      "chained (status_of db a i) es" "along (allowed inp) es" "trail_end (status_of db a i) es = status_of ?db' a i"
    unfolding moves_def row_moves_def by blast
  have "es = []"
  proof (cases es)
    case (Cons e rest)
    then obtain f t where "e = (f, t)" by (cases e)
    with Cons es(2,3) assms show ?thesis by (simp add: status_of_def)
  qed simp
  moreover from keeps_key [OF assms(1), of inp] obtain r' where "app_of ?db' a i = Some r'" by blast
  ultimately show ?thesis using es assms(1) by (auto simp: status_of_def)
qed

lemma clock_kept: "db_now (fst (run inp db)) = db_now db"
  using step by (simp add: moves_def)

text \<open>Every edge ever taken stays inside a larger relation the operation respects.\<close>

lemma keeps_along:
  assumes "along F (trail db a i)" and "\<And>f t. allowed inp f t \<Longrightarrow> F f t"
  shows "along F (trail (fst (run inp db)) a i)"
  using history_append_only [of inp db a i] assms along_mono by (metis along_simps(3))

end

text \<open>A transaction that addresses one application of one agency: nothing else may change.\<close>

locale single_row_transaction = lifecycle_transaction run allowed
  for run :: "'i \<Rightarrow> 'ev database \<Rightarrow> 'ev database \<times> 'o" and allowed :: "'i \<Rightarrow> edge" +
  fixes target_agency :: "'i \<Rightarrow> agency" and target_id :: "'i \<Rightarrow> uuid"
  assumes local_step: "local_to (target_agency inp) (target_id inp) db (fst (run inp db))"
begin

lemma other_schema: "b \<noteq> target_agency inp \<Longrightarrow> schema_of (fst (run inp db)) b = schema_of db b"
  using local_step by (simp add: local_to_def)

lemma other_row:
  assumes "\<not> (b = target_agency inp \<and> j = target_id inp)"
  shows "app_of (fst (run inp db)) b j = app_of db b j" and "trail (fst (run inp db)) b j = trail db b j"
  using local_to_other [OF local_step assms] by blast+

lemma touches_only:
  assumes "app_of (fst (run inp db)) b j \<noteq> app_of db b j"
  shows "b = target_agency inp \<and> j = target_id inp"
  using assms other_row by blast

end

text \<open>A transaction that never moves an application.\<close>

locale quiet_transaction =
  fixes run :: "'i \<Rightarrow> 'ev database \<Rightarrow> 'ev database \<times> 'o"
  assumes quiet_step: "quiet db (fst (run inp db))"

sublocale quiet_transaction \<subseteq> lifecycle_transaction run "\<lambda>_ _ _. False"
  by unfold_locales (use quiet_step in \<open>simp add: quiet_def\<close>)

context quiet_transaction
begin

lemma status_unmoved: "status_of (fst (run inp db)) a i = status_of db a i"
  using quiet_step [of db inp] unfolding quiet_def moves_def row_moves_def
  by (metis (mono_tags, lifting) list.set_intros(1) neq_Nil_conv old.prod.exhaust trail_end.simps(1) along_def case_prodD)

end

end
