(* ===== verification/Journey.thy ===== *)
theory Journey
  imports Transitions "HOL-Library.Sublist"
begin

text \<open>
  The abstract lifecycle: which status may follow which, the journeys the append-only history
  may record, and the platform invariant every transaction keeps. The operations refine it: each
  component proves its own edges to be edges of this graph.
\<close>

subsection \<open>The lifecycle graph\<close>

fun successors :: "application_status \<Rightarrow> application_status list" where
  "successors DRAFT =
     [ACADEMIC_VETTING, CRIMINAL_CLEARANCE, DOCUMENT_REVIEW_GREEN, DOCUMENT_REVIEW_AMBER, REJECTED, WITHDRAWN]"
| "successors SUBMITTED =
     [ACADEMIC_VETTING, CRIMINAL_CLEARANCE, DOCUMENT_REVIEW_GREEN, DOCUMENT_REVIEW_AMBER, REJECTED, WITHDRAWN]"
| "successors ACADEMIC_VETTING =
     [CRIMINAL_CLEARANCE, DOCUMENT_REVIEW_GREEN, DOCUMENT_REVIEW_AMBER, REJECTED, WITHDRAWN]"
| "successors CRIMINAL_CLEARANCE = [DOCUMENT_REVIEW_GREEN, DOCUMENT_REVIEW_AMBER, REJECTED, WITHDRAWN]"
| "successors DOCUMENT_REVIEW_GREEN = [DOCUMENT_REVIEW_AMBER, SLOT_ASSIGNED, REJECTED, WITHDRAWN]"
| "successors DOCUMENT_REVIEW_AMBER =
     [SUBMITTED, ACADEMIC_VETTING, CRIMINAL_CLEARANCE, DOCUMENT_REVIEW_GREEN, REJECTED, WITHDRAWN]"
| "successors SLOT_ASSIGNED = [PHYSICAL_TEST_SCHEDULED, ADJUDICATION_REVIEW, REJECTED, WITHDRAWN]"
| "successors PHYSICAL_TEST_SCHEDULED = [PHYSICAL_TEST_COMPLETE, ADJUDICATION_REVIEW, REJECTED, WITHDRAWN]"
| "successors PHYSICAL_TEST_COMPLETE = [MEDICAL_REVIEW, ADJUDICATION_REVIEW, REJECTED, WITHDRAWN]"
| "successors MEDICAL_REVIEW = [FINAL_SHORTLIST, ADJUDICATION_REVIEW, REJECTED, WITHDRAWN]"
| "successors FINAL_SHORTLIST = [ACCEPTED, ADJUDICATION_REVIEW, REJECTED, WITHDRAWN]"
| "successors ADJUDICATION_REVIEW =
     [REJECTED, WITHDRAWN, SLOT_ASSIGNED, PHYSICAL_TEST_SCHEDULED, PHYSICAL_TEST_COMPLETE, MEDICAL_REVIEW,
      FINAL_SHORTLIST, WALK_IN_REGISTERED, WALK_IN_ON_SITE_VETTING, WALK_IN_PHYSICAL_TEST, WALK_IN_REJECTED]"
| "successors WALK_IN_REGISTERED =
     [WALK_IN_ON_SITE_VETTING, WALK_IN_REJECTED, ADJUDICATION_REVIEW, REJECTED, WITHDRAWN]"
| "successors WALK_IN_ON_SITE_VETTING = [WALK_IN_PHYSICAL_TEST, ADJUDICATION_REVIEW, REJECTED, WITHDRAWN]"
| "successors WALK_IN_PHYSICAL_TEST = [MEDICAL_REVIEW, ADJUDICATION_REVIEW, REJECTED, WITHDRAWN]"
| "successors WALK_IN_REJECTED = [ADJUDICATION_REVIEW]"
| "successors ACCEPTED = []"
| "successors REJECTED = []"
| "successors WITHDRAWN = []"

text \<open>
  A plain edge is one that needs no memory: anything but the lifting of an adjudication hold,
  which goes back to the stage the row held when the hold began.
\<close>

definition plain_edge :: edge where
  "plain_edge f t =
     (case f of
        None \<Rightarrow> t = SUBMITTED \<or> t = WALK_IN_REGISTERED
      | Some s \<Rightarrow> t \<in> set (successors s) \<and> (s = ADJUDICATION_REVIEW \<longrightarrow> t = REJECTED \<or> t = WITHDRAWN))"

inductive journey :: "(application_status option \<times> application_status) list \<Rightarrow> bool" where
  Start: "journey []"
| Plain: "journey es \<Longrightarrow> f = trail_end None es \<Longrightarrow> plain_edge f t \<Longrightarrow> journey (es @ [(f, t)])"
| Restore: "journey es \<Longrightarrow> trail_end None es = Some ADJUDICATION_REVIEW \<Longrightarrow>
    (Some t, ADJUDICATION_REVIEW) \<in> set es \<Longrightarrow> journey (es @ [(Some ADJUDICATION_REVIEW, t)])"

lemma plain_edge_into_hold: "plain_edge (Some t) ADJUDICATION_REVIEW \<Longrightarrow> t \<notin> {ACCEPTED, REJECTED, WITHDRAWN}"
  by (cases t) (auto simp: plain_edge_def)

lemma plain_edge_hold_stage:
  "plain_edge (Some t) ADJUDICATION_REVIEW \<Longrightarrow>
   t \<in> {SLOT_ASSIGNED, PHYSICAL_TEST_SCHEDULED, PHYSICAL_TEST_COMPLETE, MEDICAL_REVIEW, FINAL_SHORTLIST,
        WALK_IN_REGISTERED, WALK_IN_ON_SITE_VETTING, WALK_IN_PHYSICAL_TEST, WALK_IN_REJECTED}"
  by (cases t) (auto simp: plain_edge_def)

lemma plain_edge_nonterminal: "plain_edge (Some s) t \<Longrightarrow> s \<notin> {ACCEPTED, REJECTED, WITHDRAWN}"
  by (cases s) (auto simp: plain_edge_def)

text \<open>Every hold that was entered was entered by a plain edge.\<close>

lemma journey_hold_entry:
  "journey es \<Longrightarrow> (f, ADJUDICATION_REVIEW) \<in> set es \<Longrightarrow> plain_edge f ADJUDICATION_REVIEW"
  by (induction es rule: journey.induct) (auto simp: plain_edge_def)

lemma journey_extend:
  assumes "journey base" and "chained (trail_end None base) es" and "along plain_edge es"
  shows "journey (base @ es)"
  using assms
proof (induction es arbitrary: base)
  case (Cons e es)
  obtain f t where e: "e = (f, t)" by (cases e)
  with Cons.prems have "journey (base @ [(f, t)])" by (intro journey.Plain) auto
  then have "journey ((base @ [(f, t)]) @ es)"
    using Cons.prems e by (intro Cons.IH) (simp_all add: trail_end_snoc)
  then show ?case by (simp add: e)
qed simp

definition visited :: "(application_status option \<times> application_status) list \<Rightarrow> application_status set" where
  "visited es = snd ` set es"

lemma visited_simps [simp]: "visited [] = {}" "visited (es @ [(f, t)]) = insert t (visited es)"
  by (auto simp: visited_def)

lemma trail_end_visited: "trail_end None es = Some s \<Longrightarrow> s \<in> visited es"
  by (cases es rule: rev_cases) (auto simp: trail_end_snoc)

lemma journey_from_visited: "journey es \<Longrightarrow> (Some s, t) \<in> set es \<Longrightarrow> s \<in> visited es"
  by (induction es rule: journey.induct) (auto dest: trail_end_visited trail_end_visited [OF sym])

definition medical_ladders :: "application_status list list" where
  "medical_ladders =
     [[DOCUMENT_REVIEW_GREEN, SLOT_ASSIGNED, PHYSICAL_TEST_SCHEDULED, PHYSICAL_TEST_COMPLETE, MEDICAL_REVIEW],
      [WALK_IN_REGISTERED, WALK_IN_ON_SITE_VETTING, WALK_IN_PHYSICAL_TEST, MEDICAL_REVIEW]]"

text \<open>The stages a journey must have passed, in their order, before it can stand at a status.\<close>

fun ladders :: "application_status \<Rightarrow> application_status list list" where
  "ladders DOCUMENT_REVIEW_GREEN = [[DOCUMENT_REVIEW_GREEN]]"
| "ladders SLOT_ASSIGNED = [[DOCUMENT_REVIEW_GREEN, SLOT_ASSIGNED]]"
| "ladders PHYSICAL_TEST_SCHEDULED = [[DOCUMENT_REVIEW_GREEN, SLOT_ASSIGNED, PHYSICAL_TEST_SCHEDULED]]"
| "ladders PHYSICAL_TEST_COMPLETE =
     [[DOCUMENT_REVIEW_GREEN, SLOT_ASSIGNED, PHYSICAL_TEST_SCHEDULED, PHYSICAL_TEST_COMPLETE]]"
| "ladders WALK_IN_REGISTERED = [[WALK_IN_REGISTERED]]"
| "ladders WALK_IN_ON_SITE_VETTING = [[WALK_IN_REGISTERED, WALK_IN_ON_SITE_VETTING]]"
| "ladders WALK_IN_PHYSICAL_TEST = [[WALK_IN_REGISTERED, WALK_IN_ON_SITE_VETTING, WALK_IN_PHYSICAL_TEST]]"
| "ladders MEDICAL_REVIEW = medical_ladders"
| "ladders FINAL_SHORTLIST = map (\<lambda>l. l @ [FINAL_SHORTLIST]) medical_ladders"
| "ladders ACCEPTED = map (\<lambda>l. l @ [FINAL_SHORTLIST, ACCEPTED]) medical_ladders"
| "ladders _ = [[]]"

definition climbed :: "(application_status option \<times> application_status) list \<Rightarrow> application_status \<Rightarrow> bool" where
  "climbed es s \<longleftrightarrow> (\<exists>l \<in> set (ladders s). subseq l (map snd es))"

lemma climbed_later: "climbed es s \<Longrightarrow> climbed (es @ [e]) s"
  by (auto simp: climbed_def)

lemma ladder_step:
  assumes "plain_edge (Some s) t" and "l \<in> set (ladders s)"
  shows "\<exists>l' \<in> set (ladders t). subseq l' (l @ [t])"
  using assms by (cases s) (auto simp: plain_edge_def medical_ladders_def)

lemma journey_climbed: "journey es \<Longrightarrow> s \<in> visited es \<Longrightarrow> climbed es s"
proof (induction es arbitrary: s rule: journey.induct)
  case Start
  then show ?case by simp
next
  case (Plain es f t)
  show ?case
  proof (cases "s \<in> visited es")
    case True
    then show ?thesis by (rule climbed_later [OF Plain.IH])
  next
    case False
    then have [simp]: "s = t" using Plain.prems by simp
    show ?thesis
    proof (cases f)
      case None
      then have "t = SUBMITTED \<or> t = WALK_IN_REGISTERED" using Plain.hyps(3) by (simp add: plain_edge_def)
      then show ?thesis by (auto simp: climbed_def)
    next
      case (Some u)
      then have "climbed es u" using Plain.hyps(2) by (intro Plain.IH trail_end_visited) simp
      then obtain l where l: "l \<in> set (ladders u)" "subseq l (map snd es)" by (auto simp: climbed_def)
      obtain l' where l': "l' \<in> set (ladders t)" "subseq l' (l @ [t])"
        using ladder_step [OF _ l(1)] Plain.hyps(3) Some by blast
      have "subseq l' (map snd (es @ [(f, t)]))"
        using l'(2) list_emb_append_mono [OF l(2), of "[t]" "[t]"] by (auto intro: subseq_order.order_trans)
      with l'(1) show ?thesis by (auto simp: climbed_def)
    qed
  qed
next
  case (Restore es t)
  then have "t \<in> visited es" using journey_from_visited by blast
  with Restore show ?case by (auto intro: climbed_later)
qed

subsection \<open>The platform invariant\<close>

definition journeys_ok :: "'ev database \<Rightarrow> bool" where
  "journeys_ok db \<longleftrightarrow> trail_ok db \<and> (\<forall>a i. journey (trail db a i))"

text \<open>One citizen, one acceptance, platform-wide, and the shared identity row says whose.\<close>

definition acceptance_ok :: "'ev database \<Rightarrow> bool" where
  "acceptance_ok db \<longleftrightarrow>
     (\<forall>a i r. app_of db a i = Some r \<longrightarrow> app_status r = ACCEPTED \<longrightarrow>
        (\<exists>ident. applicant_identities db (applicant_id r) = Some ident \<and>
                 cross_agency_locked_by_agency ident = Some a)) \<and>
     (\<forall>a i r b j s. app_of db a i = Some r \<longrightarrow> app_of db b j = Some s \<longrightarrow> app_status r = ACCEPTED \<longrightarrow>
        app_status s = ACCEPTED \<longrightarrow> applicant_id r = applicant_id s \<longrightarrow> a = b \<and> i = j)"

text \<open>The unique indexes of the \<open>applications\<close> tables.\<close>

definition same_intent :: "app_row \<Rightarrow> app_row \<Rightarrow> bool" where
  "same_intent r s \<longleftrightarrow>
     applicant_id r = applicant_id s \<and> campaign_id r = campaign_id s \<and> category r = category s \<and>
     app_status r \<noteq> WITHDRAWN \<and> app_status s \<noteq> WITHDRAWN"

definition unique_ok :: "'ev database \<Rightarrow> bool" where
  "unique_ok db \<longleftrightarrow>
     (\<forall>a i j r s. app_of db a i = Some r \<longrightarrow> app_of db a j = Some s \<longrightarrow> i \<noteq> j \<longrightarrow>
        processing_code r \<noteq> processing_code s \<and> \<not> same_intent r s)"

definition single_use :: "'ev database \<Rightarrow> bool" where
  "single_use db \<longleftrightarrow>
     (\<forall>a. distinct (map adm_application_id (gate_admissions (schema_of db a))) \<and>
          distinct (map adm_ticket_id (gate_admissions (schema_of db a))))"

text \<open>The history is in the order of its timestamps, none of them in the future.\<close>

definition clock_ok :: "'ev database \<Rightarrow> bool" where
  "clock_ok db \<longleftrightarrow>
     (\<forall>a. sorted (map performed_at (history_of db a)) \<and> (\<forall>h \<in> set (history_of db a). performed_at h \<le> db_now db))"

definition platform_inv :: "'ev database \<Rightarrow> bool" where
  "platform_inv db \<longleftrightarrow> journeys_ok db \<and> acceptance_ok db \<and> unique_ok db \<and> single_use db \<and> clock_ok db"

subsection \<open>What moves preserve\<close>

lemma clock_ok_moves:
  assumes "clock_ok db" and "moves E db db'" shows "clock_ok db'"
  unfolding clock_ok_def
proof
  fix a
  from assms(2) obtain hs where "history_of db' a = history_of db a @ hs" "\<forall>h \<in> set hs. performed_at h = db_now db"
      "db_now db' = db_now db"
    unfolding moves_def history_grows_def by metis
  moreover have "sorted (map performed_at hs)"
    using calculation(2) by (induction hs) auto
  ultimately show "sorted (map performed_at (history_of db' a)) \<and>
      (\<forall>h \<in> set (history_of db' a). performed_at h \<le> db_now db')"
    using assms(1) by (auto simp: clock_ok_def sorted_append)
qed

lemma journeys_ok_moves:
  assumes "journeys_ok db" and "moves E db db'" and "\<And>f t. E f t \<Longrightarrow> plain_edge f t"
  shows "journeys_ok db'"
proof -
  have "journey (trail db' a i)" for a i
  proof -
    from assms(2) obtain es where es: "trail db' a i = trail db a i @ es" "chained (status_of db a i) es"
        "along E es"
      unfolding moves_def row_moves_def by blast
    have "trail_end None (trail db a i) = status_of db a i"
      using assms(1) by (simp add: journeys_ok_def trail_ok_def status_of_def)
    then show ?thesis
      using es assms(1,3) journey_extend [of "trail db a i" es] along_mono [of E es plain_edge]
      by (simp add: journeys_ok_def)
  qed
  then show ?thesis using assms(1,2) trail_ok_moves by (auto simp: journeys_ok_def)
qed

text \<open>A row that carries a status \<open>E\<close> never enters carried it before.\<close>

lemma moves_keeps_back:
  assumes "moves E db db'" and "app_of db' a i = Some r'" and "\<And>f. \<not> E f (app_status r')"
  obtains r where "app_of db a i = Some r" "app_status r = app_status r'" "same_key r r'"
proof -
  from assms(1) have "row_moves E db db' a i" by (simp add: moves_def)
  then obtain es where es: "along E es" "trail_end (status_of db a i) es = status_of db' a i"
    and key: "\<forall>r. app_of db a i = Some r \<longrightarrow> (\<exists>r'. app_of db' a i = Some r' \<and> same_key r r')"
    unfolding row_moves_def by blast
  have "es = []"
  proof (cases es rule: rev_cases)
    case (snoc xs e)
    with es assms(2,3) show ?thesis
      by (cases e) (auto simp: trail_end_snoc status_of_def)
  qed
  with es assms(2) obtain r where "app_of db a i = Some r" "app_status r = app_status r'"
    by (auto simp: status_of_def)
  with key assms(2) that show thesis by auto
qed

lemma acceptance_ok_moves:
  assumes "acceptance_ok db" and "moves E db db'" and "\<And>f. \<not> E f ACCEPTED"
    and "applicant_identities db' = applicant_identities db"
  shows "acceptance_ok db'"
proof -
  have earlier: "\<exists>r. app_of db a i = Some r \<and> app_status r = ACCEPTED \<and> applicant_id r = applicant_id r'"
    if "app_of db' a i = Some r'" "app_status r' = ACCEPTED" for a i r'
    using moves_keeps_back [OF assms(2) that(1)] assms(3) that(2) by (metis same_key_def)
  show ?thesis
    using assms(1,4) unfolding acceptance_ok_def by (metis earlier)
qed

text \<open>No new rows, and no row comes back from WITHDRAWN: the unique indexes stay satisfied.\<close>

lemma unique_ok_moves:
  assumes "unique_ok db" and "moves E db db'" and "\<And>t. \<not> E None t" and "\<And>t. \<not> E (Some WITHDRAWN) t"
  shows "unique_ok db'"
proof -
  have earlier: "\<exists>r. app_of db a i = Some r \<and> same_key r r' \<and> (app_status r = WITHDRAWN \<longrightarrow> app_status r' = WITHDRAWN)"
    if row': "app_of db' a i = Some r'" for a i r'
  proof -
    from assms(2) have "row_moves E db db' a i" by (simp add: moves_def)
    then obtain es where es: "chained (status_of db a i) es" "along E es"
        "trail_end (status_of db a i) es = status_of db' a i"
      and key: "\<forall>r. app_of db a i = Some r \<longrightarrow> (\<exists>r'. app_of db' a i = Some r' \<and> same_key r r')"
      unfolding row_moves_def by blast
    have stuck: "es = []" if "status_of db a i = None \<or> status_of db a i = Some WITHDRAWN"
      using es that assms(3,4) by (cases es) (auto split: prod.splits)
    then obtain r where r: "app_of db a i = Some r"
      using es(3) row' by (cases "app_of db a i") (auto simp: status_of_def)
    moreover have "app_status r' = WITHDRAWN" if "app_status r = WITHDRAWN"
      using stuck es(3) r row' that by (simp add: status_of_def)
    ultimately show ?thesis using key row' by auto
  qed
  show ?thesis
    unfolding unique_ok_def
  proof (intro allI impI)
    fix a i j r' s'
    assume rows: "app_of db' a i = Some r'" "app_of db' a j = Some s'" and "i \<noteq> j"
    from earlier [OF rows(1)] obtain r where r: "app_of db a i = Some r" "same_key r r'"
        "app_status r = WITHDRAWN \<longrightarrow> app_status r' = WITHDRAWN" by blast
    from earlier [OF rows(2)] obtain s where s: "app_of db a j = Some s" "same_key s s'"
        "app_status s = WITHDRAWN \<longrightarrow> app_status s' = WITHDRAWN" by blast
    from assms(1) r(1) s(1) \<open>i \<noteq> j\<close> have "processing_code r \<noteq> processing_code s \<and> \<not> same_intent r s"
      unfolding unique_ok_def by blast
    with r s show "processing_code r' \<noteq> processing_code s' \<and> \<not> same_intent r' s'"
      by (auto simp: same_intent_def same_key_def)
  qed
qed

lemma single_use_shared: "single_use db \<Longrightarrow> leaves_shared db db' \<Longrightarrow> single_use db'"
  by (simp add: single_use_def leaves_shared_def)

text \<open>The contract of every transaction that opens no row, lifts no hold and accepts nobody.\<close>

definition routine_edge :: edge where
  "routine_edge f t \<longleftrightarrow> plain_edge f t \<and> f \<noteq> None \<and> t \<noteq> ACCEPTED"

lemma platform_inv_routine:
  assumes "platform_inv db" and "moves routine_edge db db'" and "leaves_shared db db'"
  shows "platform_inv db'"
proof -
  have "\<not> plain_edge (Some WITHDRAWN) t" for t by (simp add: plain_edge_def)
  then show ?thesis
    using assms journeys_ok_moves [OF _ assms(2)] acceptance_ok_moves [OF _ assms(2)]
      unique_ok_moves [OF _ assms(2)] single_use_shared [OF _ assms(3)] clock_ok_moves [OF _ assms(2)]
    by (simp add: platform_inv_def routine_edge_def leaves_shared_def)
qed

locale routine_transaction = lifecycle_transaction run allowed
  for run :: "'i \<Rightarrow> 'ev database \<Rightarrow> 'ev database \<times> 'o" and allowed :: "'i \<Rightarrow> edge" +
  assumes routine: "allowed inp f t \<Longrightarrow> routine_edge f t"
    and shared: "leaves_shared db (fst (run inp db))"
begin

lemma moves_routine: "moves routine_edge db (fst (run inp db))"
  by (rule moves_mono [OF step]) (rule routine)

lemma keeps_platform_inv: "platform_inv db \<Longrightarrow> platform_inv (fst (run inp db))"
  by (rule platform_inv_routine [OF _ moves_routine shared])

text \<open>No terminal status other than the walk-in rejection is ever left.\<close>

lemma keeps_final_status:
  assumes "app_of db a i = Some r" and "app_status r \<in> {ACCEPTED, REJECTED, WITHDRAWN}"
  shows "\<exists>r'. app_of (fst (run inp db)) a i = Some r' \<and> app_status r' = app_status r \<and>
              trail (fst (run inp db)) a i = trail db a i"
proof (rule keeps_status [OF assms(1)])
  show "\<not> allowed inp (Some (app_status r)) t" for t
    using routine [of inp "Some (app_status r)" t] assms(2) plain_edge_nonterminal
    by (auto simp: routine_edge_def)
qed

end

end
