(* ===== verification/Projections.thy ===== *)
theory Projections
  imports Journey
begin

text \<open>
  The event projections of \<open>application-service\<close> (\<open>adapters/application.pg-repository.ts\<close>):
  each takes one event of another service and materialises it onto the application row in one
  transaction. Every projection is an interpretation of \<open>single_row_transaction\<close> with the
  status edges it may take.
\<close>

subsection \<open>Vetting verdicts\<close>

datatype verified_via = NESA | HEC

text \<open>\<open>VettingResult\<close>: one verdict of one dimension.\<close>

datatype vetting_verdict =
    AgeVerdict eligibility_status json
  | AcademicVerdict eligibility_status verified_via string json
  | CriminalVerdict criminal_clearance_status string string

record vetting_result =
  vr_application_id :: uuid
  vr_agency :: agency
  vr_correlation_id :: string
  vr_verdict :: vetting_verdict

fun verdict_dimension :: "vetting_verdict \<Rightarrow> dimension" where
  "verdict_dimension (AgeVerdict _ _) = AGE"
| "verdict_dimension (AcademicVerdict _ _ _ _) = ACADEMIC"
| "verdict_dimension (CriminalVerdict _ _ _) = CRIMINAL"

definition dimension_name :: "dimension \<Rightarrow> string" where
  "dimension_name d = (case d of AGE \<Rightarrow> ''AGE'' | ACADEMIC \<Rightarrow> ''ACADEMIC'' | CRIMINAL \<Rightarrow> ''CRIMINAL'')"

record applied_vetting =
  av_dimension :: dimension
  av_fromStatus :: application_status
  av_toStatus :: application_status
  av_statusChanged :: bool
  av_applicantId :: uuid
  av_campaignId :: uuid
  av_category :: application_category

datatype apply_vetting_outcome = Vetting_APPLIED applied_vetting | Vetting_NO_CHANGE | Vetting_NOT_FOUND

text \<open>\<open>clearance-content-review.pg.ts\<close>: is the open criminal review about the content only?\<close>

definition isContentReviewOnly :: "string option \<Rightarrow> clearance_review_reason list option \<Rightarrow> bool" where
  "isContentReviewOnly outcome reasons \<longleftrightarrow>
     outcome = Some ''REVIEW'' \<and>
     (case reasons of None \<Rightarrow> False | Some rs \<Rightarrow> length rs = 1 \<and> hd rs = CLEARANCE_CONTENT_REVIEW)"

definition criminalContentReviewOnly_of :: "agency \<Rightarrow> uuid \<Rightarrow> 'ev database \<Rightarrow> bool" where
  "criminalContentReviewOnly_of a i db =
     (case latest_by (\<lambda>c. (cv_verified_at c, cv_id c))
             (filter (\<lambda>c. cv_application_id c = i) (clearance_verifications (schema_of db a))) of
        None \<Rightarrow> False
      | Some latest \<Rightarrow> isContentReviewOnly (Some (cv_outcome latest)) (cv_review_reasons latest))"

text \<open>
  \<open>failureCodeOf\<close>: the code of a detail value, null when there is none. The source compares
  two codes with \<open>!==\<close>, which on objects and arrays compares references: two separately parsed
  ones always differ.
\<close>

definition failureCodeOf :: "json option \<Rightarrow> json" where
  "failureCodeOf detail =
     (case detail of None \<Rightarrow> JNull
      | Some d \<Rightarrow> (case json_get d ''failureCode'' of None \<Rightarrow> JNull | Some v \<Rightarrow> v))"

fun js_same :: "json \<Rightarrow> json \<Rightarrow> bool" where
  "js_same (JArr _) _ = False"
| "js_same (JObj _) _ = False"
| "js_same a b = (a = b)"

definition columnChanged :: "vetting_verdict \<Rightarrow> app_row \<Rightarrow> bool" where
  "columnChanged v current =
     (case v of
        AgeVerdict s _ \<Rightarrow> s \<noteq> age_eligibility_status current
      | AcademicVerdict s _ _ detail \<Rightarrow>
          s \<noteq> academic_status current \<or>
          \<not> js_same (failureCodeOf (Some detail)) (failureCodeOf (academic_eligibility_detail current))
      | CriminalVerdict s _ _ \<Rightarrow> s \<noteq> app_row.criminal_clearance_status current)"

definition projected_evidence ::
  "lifecycle_options \<Rightarrow> agency \<Rightarrow> uuid \<Rightarrow> vetting_verdict \<Rightarrow> app_row \<Rightarrow> 'ev database \<Rightarrow> vetting_evidence" where
  "projected_evidence opts a i v current db =
     (let newAge = (case v of AgeVerdict s _ \<Rightarrow> s | _ \<Rightarrow> age_eligibility_status current);
          newAcademic = (case v of AcademicVerdict s _ _ _ \<Rightarrow> s | _ \<Rightarrow> academic_status current);
          newCriminal = (case v of CriminalVerdict s _ _ \<Rightarrow> s | _ \<Rightarrow> app_row.criminal_clearance_status current)
      in \<lparr>ageStatus = newAge, academicStatus = newAcademic, criminalStatus = newCriminal,
          criminalContentReviewOnly =
            (if clearanceContentReviewAdmitsToExam opts \<and> newCriminal = UNDER_REVIEW
             then criminalContentReviewOnly_of a i db else False)\<rparr>)"

text \<open>The UPDATE of the projected dimension's columns.\<close>

definition write_verdict :: "agency \<Rightarrow> instant \<Rightarrow> vetting_verdict \<Rightarrow> app_row \<Rightarrow> app_row" where
  "write_verdict a now v r =
     (case v of
        AgeVerdict s detail \<Rightarrow>
          r\<lparr>age_eligibility_status := s, age_verified_at := Some now, age_eligibility_detail := Some detail\<rparr>
      | AcademicVerdict s via request detail \<Rightarrow>
          (case via of
             NESA \<Rightarrow> r\<lparr>academic_status := s, nesa_verified_at := Some now,
                       nesa_verification_request_id := Some request, academic_eligibility_detail := Some detail\<rparr>
           | HEC \<Rightarrow> r\<lparr>academic_status := s, hec_verified_at := Some now,
                       hec_verification_request_id := Some request, academic_eligibility_detail := Some detail\<rparr>)
      | CriminalVerdict s threshold rib \<Rightarrow>
          r\<lparr>app_row.criminal_clearance_status := s, criminal_clearance_at := Some now, rib_request_id := Some rib,
            applied_criminal_threshold :=
              (if a = RNP then Some threshold else applied_criminal_threshold r)\<rparr>)"

definition applyVettingResult ::
  "lifecycle_options \<Rightarrow> (apply_vetting_outcome \<Rightarrow> 'ev list) option \<Rightarrow> vetting_result \<Rightarrow>
   'ev database \<Rightarrow> 'ev database \<times> apply_vetting_outcome" where
  "applyVettingResult opts stage result db =
     (let a = vr_agency result; i = vr_application_id result; v = vr_verdict result in
      case app_of db a i of
        None \<Rightarrow> (db, Vetting_NOT_FOUND)
      | Some current \<Rightarrow>
          if decidedByHuman (vetting_hold_resolved_dimensions current) (verdict_dimension v)
          then (db, Vetting_NO_CHANGE)
          else
            let from = app_status current;
                toStatus = deriveApplicationStatus from (projected_evidence opts a i v current db) opts;
                statusChanged = (toStatus \<noteq> from)
            in
            if \<not> columnChanged v current \<and> \<not> statusChanged then (db, Vetting_NO_CHANGE)
            else
              let db1 = update_app a i (\<lambda>r. (write_verdict a (db_now db) v r)\<lparr>app_status := toStatus\<rparr>) db;
                  db2 = (if statusChanged
                         then insert_history a i (Some from) toStatus
                                (''Projected '' @ dimension_name (verdict_dimension v) @ '' verdict'')
                                ''application-service'' (vr_correlation_id result) db1
                         else db1);
                  applied = Vetting_APPLIED
                    \<lparr>av_dimension = verdict_dimension v, av_fromStatus = from, av_toStatus = toStatus,
                     av_statusChanged = statusChanged, av_applicantId = applicant_id current,
                     av_campaignId = campaign_id current, av_category = category current\<rparr>
              in (case stage of None \<Rightarrow> db2 | Some st \<Rightarrow> stage_events (st applied) db2, applied))"

text \<open>The edges a machine verdict may take, whatever the evidence.\<close>

definition vetting_edge :: edge where
  "vetting_edge f t =
     (case f of None \<Rightarrow> False
      | Some s \<Rightarrow>
          s \<notin> TERMINAL \<and> s \<noteq> t \<and>
          (t = REJECTED \<and> stageRank s < stageRank SLOT_ASSIGNED \<or>
           t = WALK_IN_REJECTED \<and> s = WALK_IN_REGISTERED \<or>
           t = ADJUDICATION_REVIEW \<and> stageRank SLOT_ASSIGNED \<le> stageRank s \<and> s \<noteq> WALK_IN_REGISTERED \<or>
           t \<in> {ACADEMIC_VETTING, CRIMINAL_CLEARANCE, DOCUMENT_REVIEW_GREEN} \<and> stageRank s < stageRank t))"

lemma derive_edge:
  assumes "deriveApplicationStatus s e opts \<noteq> s"
  shows "vetting_edge (Some s) (deriveApplicationStatus s e opts)"
proof (cases "s \<in> TERMINAL")
  case True
  with assms show ?thesis by (simp add: derive_terminal)
next
  case False
  show ?thesis
  proof (cases "isHardFail e")
    case True
    with False assms show ?thesis
      by (cases s) (simp_all add: vetting_edge_def derive_hard_fail_values stageRank_def)
  next
    case soft: False
    with False assms show ?thesis
      by (auto simp: vetting_edge_def deriveApplicationStatus_def stageRank_def Let_def split: if_splits)
  qed
qed

lemma write_verdict_frame [simp]:
  "same_key r (write_verdict a now v s) = same_key r s"
  "same_key r (write_verdict a now v s\<lparr>app_status := t\<rparr>) = same_key r s"
  "app_status (write_verdict a now v s) = app_status s"
  by (simp_all add: write_verdict_def same_key_def split: vetting_verdict.split verified_via.split)

text \<open>
  The four ways the projection can end, as one elimination rule: every later proof about it
  goes through these cases.
\<close>

lemma applyVettingResult_cases:
  fixes result :: vetting_result and db :: "'ev database"
  defines "a \<equiv> vr_agency result" and "i \<equiv> vr_application_id result" and "v \<equiv> vr_verdict result"
  obtains
    (not_found) "app_of db a i = None" "applyVettingResult opts stage result db = (db, Vetting_NOT_FOUND)"
  | (human) r where "app_of db a i = Some r"
      "decidedByHuman (vetting_hold_resolved_dimensions r) (verdict_dimension v)"
      "applyVettingResult opts stage result db = (db, Vetting_NO_CHANGE)"
  | (same) r where "app_of db a i = Some r"
      "\<not> decidedByHuman (vetting_hold_resolved_dimensions r) (verdict_dimension v)"
      "\<not> columnChanged v r"
      "deriveApplicationStatus (app_status r) (projected_evidence opts a i v r db) opts = app_status r"
      "applyVettingResult opts stage result db = (db, Vetting_NO_CHANGE)"
  | (applied) r t ap db2 where "app_of db a i = Some r"
      "\<not> decidedByHuman (vetting_hold_resolved_dimensions r) (verdict_dimension v)"
      "t = deriveApplicationStatus (app_status r) (projected_evidence opts a i v r db) opts"
      "columnChanged v r \<or> t \<noteq> app_status r"
      "ap = \<lparr>av_dimension = verdict_dimension v, av_fromStatus = app_status r, av_toStatus = t,
             av_statusChanged = (t \<noteq> app_status r), av_applicantId = applicant_id r,
             av_campaignId = campaign_id r, av_category = category r\<rparr>"
      "db2 = (let db1 = update_app a i (\<lambda>r. (write_verdict a (db_now db) v r)\<lparr>app_status := t\<rparr>) db
              in if t \<noteq> app_status r
                 then insert_history a i (Some (app_status r)) t
                        (''Projected '' @ dimension_name (verdict_dimension v) @ '' verdict'')
                        ''application-service'' (vr_correlation_id result) db1
                 else db1)"
      "applyVettingResult opts stage result db =
         (case stage of None \<Rightarrow> db2 | Some st \<Rightarrow> stage_events (st (Vetting_APPLIED ap)) db2, Vetting_APPLIED ap)"
proof (cases "app_of db a i")
  case None
  then show thesis by (intro not_found) (simp_all add: applyVettingResult_def a_def i_def Let_def)
next
  case (Some r)
  show thesis
  proof (cases "decidedByHuman (vetting_hold_resolved_dimensions r) (verdict_dimension v)")
    case True
    with Some show thesis
      by (intro human) (simp_all add: applyVettingResult_def a_def i_def v_def Let_def)
  next
    case machine: False
    let ?t = "deriveApplicationStatus (app_status r) (projected_evidence opts a i v r db) opts"
    show thesis
    proof (cases "columnChanged v r \<or> ?t \<noteq> app_status r")
      case False
      with Some machine show thesis
        by (intro same [OF Some machine]) (auto simp: applyVettingResult_def a_def i_def v_def Let_def)
    next
      case True
      with Some machine show thesis
        by (intro applied [OF Some machine refl True refl refl])
           (auto simp: applyVettingResult_def a_def i_def v_def Let_def split: option.split)
    qed
  qed
qed

lemma applyVettingResult_moves:
  "moves vetting_edge db (fst (applyVettingResult opts stage result db))"
proof (cases rule: applyVettingResult_cases [of db result opts stage])
  case (applied r t ap db2)
  have "moves vetting_edge db db2"
  proof (cases "t = app_status r")
    case True
    with applied(1,6) show ?thesis by (auto simp: Let_def intro!: quiet_moves quiet_update_app)
  next
    case False
    then have "vetting_edge (Some (app_status r)) t" using derive_edge applied(3) by metis
    with False applied(1,6) show ?thesis by (auto simp: Let_def intro!: moves_transition)
  qed
  with applied(7) show ?thesis by (simp split: option.split)
qed simp_all

lemma applyVettingResult_local:
  "local_to (vr_agency result) (vr_application_id result) db (fst (applyVettingResult opts stage result db))"
  by (cases rule: applyVettingResult_cases [of db result opts stage])
     (simp_all add: Let_def split: option.split)

interpretation vetting: single_row_transaction
  "\<lambda>(opts, stage, result). applyVettingResult opts stage result" "\<lambda>_. vetting_edge"
  "\<lambda>(opts, stage, result). vr_agency result" "\<lambda>(opts, stage, result). vr_application_id result"
  by unfold_locales
     (auto simp: applyVettingResult_moves applyVettingResult_local split: prod.split)

lemma vetting_edge_routine: "vetting_edge f t \<Longrightarrow> routine_edge f t"
proof (cases f)
  case (Some s)
  assume "vetting_edge f t"
  with Some show ?thesis
    by (cases s) (auto simp: vetting_edge_def routine_edge_def plain_edge_def stageRank_def)
qed (simp add: vetting_edge_def)

interpretation vetting_routine: routine_transaction
  "\<lambda>(opts, stage, result). applyVettingResult opts stage result" "\<lambda>_. vetting_edge"
proof unfold_locales
  have "leaves_shared db (fst (applyVettingResult opts stage result db))" for opts stage result and db :: "'a database"
    by (cases rule: applyVettingResult_cases [of db result opts stage]) (simp_all add: Let_def split: option.split)
  then show "leaves_shared db (fst ((case p of (opts, stage, result) \<Rightarrow> applyVettingResult opts stage result) db))"
    for p and db :: "'a database" by (cases p) simp
qed (rule vetting_edge_routine)

subsection \<open>Slot assignment\<close>

record slot_assignment_result =
  sa_applicationId :: uuid
  sa_agency :: agency
  sa_venueAssignmentId :: uuid
  sa_assignedDistrict :: string
  sa_assignedVenueName :: string
  sa_examDate :: string
  sa_qrInvitationCode :: string
  sa_qrSignedToken :: "string option"
  sa_correlationId :: string

datatype apply_slot_outcome =
    Slot_APPLIED application_status application_status uuid
  | Slot_NO_CHANGE
  | Slot_NOT_ASSIGNABLE application_status
  | Slot_NOT_FOUND
  | Slot_FAILED  \<comment> \<open>the thrown \<open>ApplicationPersistenceError\<close>\<close>

definition sameStoredAssignment :: "slot_assignment_result \<Rightarrow> app_row \<Rightarrow> bool" where
  "sameStoredAssignment result current \<longleftrightarrow>
     venue_assignment_id current = Some (sa_venueAssignmentId result) \<and>
     qr_invitation_code current = Some (sa_qrInvitationCode result)"

definition alreadyAssigned :: "slot_assignment_result \<Rightarrow> app_row \<Rightarrow> bool" where
  "alreadyAssigned result current \<longleftrightarrow>
     app_status current = SLOT_ASSIGNED \<or>
     sameStoredAssignment result current \<and> status_rank (app_status current) > status_rank SLOT_ASSIGNED"

definition applySlotAssignment ::
  "slot_assignment_result \<Rightarrow> 'ev database \<Rightarrow> 'ev database \<times> apply_slot_outcome" where
  "applySlotAssignment result db =
     (let a = sa_agency result; i = sa_applicationId result in
      case app_of db a i of
        None \<Rightarrow> (db, Slot_NOT_FOUND)
      | Some current \<Rightarrow>
          if alreadyAssigned result current then
            (if sameStoredAssignment result current \<and> qr_signed_token current = None \<and>
                sa_qrSignedToken result \<noteq> None
             then update_app a i (\<lambda>r. r\<lparr>qr_signed_token := sa_qrSignedToken result\<rparr>) db
             else db,
             Slot_NO_CHANGE)
          else if app_status current \<noteq> DOCUMENT_REVIEW_GREEN
          then (db, Slot_NOT_ASSIGNABLE (app_status current))
          else if qr_taken db a i (sa_qrInvitationCode result) then (db, Slot_FAILED)
          else
            (insert_history a i (Some DOCUMENT_REVIEW_GREEN) SLOT_ASSIGNED ''Exam slot assigned''
               ''application-service'' (sa_correlationId result)
               (update_app a i
                 (\<lambda>r. r\<lparr>venue_assignment_id := Some (sa_venueAssignmentId result),
                       assigned_district := Some (sa_assignedDistrict result),
                       assigned_venue_name := Some (sa_assignedVenueName result),
                       physical_test_scheduled_at := Some (ScheduledDate (sa_examDate result)),
                       qr_invitation_code := Some (sa_qrInvitationCode result),
                       qr_invitation_issued_at := Some (db_now db),
                       qr_signed_token := sa_qrSignedToken result,
                       app_status := SLOT_ASSIGNED\<rparr>) db),
             Slot_APPLIED DOCUMENT_REVIEW_GREEN SLOT_ASSIGNED (applicant_id current)))"

definition slot_edge :: edge where
  "slot_edge f t \<longleftrightarrow> f = Some DOCUMENT_REVIEW_GREEN \<and> t = SLOT_ASSIGNED"

lemma applySlotAssignment_moves: "moves slot_edge db (fst (applySlotAssignment result db))"
  by (auto simp: applySlotAssignment_def Let_def slot_edge_def same_key_def
      split: option.split intro!: step_rules)

lemma applySlotAssignment_local:
  "local_to (sa_agency result) (sa_applicationId result) db (fst (applySlotAssignment result db))"
  by (simp add: applySlotAssignment_def Let_def split: option.split)

interpretation slot: single_row_transaction
  applySlotAssignment "\<lambda>_. slot_edge" sa_agency sa_applicationId
  by unfold_locales (rule applySlotAssignment_moves applySlotAssignment_local)+

interpretation slot_routine: routine_transaction applySlotAssignment "\<lambda>_. slot_edge"
  by unfold_locales
     (auto simp: slot_edge_def routine_edge_def plain_edge_def applySlotAssignment_def Let_def split: option.split)

subsection \<open>Invitation delivery\<close>

datatype delivery_status = DELIVERED | PENDING_NO_CONTACT | FAILED

definition delivery_status_name :: "delivery_status \<Rightarrow> string" where
  "delivery_status_name d =
     (case d of DELIVERED \<Rightarrow> ''DELIVERED'' | PENDING_NO_CONTACT \<Rightarrow> ''PENDING_NO_CONTACT'' | FAILED \<Rightarrow> ''FAILED'')"

record notification_delivery_result =
  nd_applicationId :: uuid
  nd_agency :: agency
  nd_deliveryStatus :: delivery_status
  nd_correlationId :: string

datatype apply_notification_outcome =
    Notification_APPLIED application_status application_status uuid
  | Notification_NO_CHANGE
  | Notification_NOT_APPLICABLE application_status
  | Notification_NOT_FOUND

definition applyNotificationDelivery ::
  "notification_delivery_result \<Rightarrow> 'ev database \<Rightarrow> 'ev database \<times> apply_notification_outcome" where
  "applyNotificationDelivery result db =
     (let a = nd_agency result; i = nd_applicationId result;
          delivered = Some (delivery_status_name (nd_deliveryStatus result)) in
      case app_of db a i of
        None \<Rightarrow> (db, Notification_NOT_FOUND)
      | Some current \<Rightarrow>
          if status_rank (app_status current) \<ge> status_rank PHYSICAL_TEST_SCHEDULED then
            (update_app a i
               (\<lambda>r. r\<lparr>sms_notification_sent_at := Some (db_now db), sms_notification_status := delivered\<rparr>) db,
             Notification_NO_CHANGE)
          else if app_status current \<noteq> SLOT_ASSIGNED
          then (db, Notification_NOT_APPLICABLE (app_status current))
          else
            (insert_history a i (Some SLOT_ASSIGNED) PHYSICAL_TEST_SCHEDULED ''Slot invitation delivered''
               ''application-service'' (nd_correlationId result)
               (update_app a i
                 (\<lambda>r. r\<lparr>sms_notification_sent_at := Some (db_now db), sms_notification_status := delivered,
                       app_status := PHYSICAL_TEST_SCHEDULED\<rparr>) db),
             Notification_APPLIED SLOT_ASSIGNED PHYSICAL_TEST_SCHEDULED (applicant_id current)))"

definition notification_edge :: edge where
  "notification_edge f t \<longleftrightarrow> f = Some SLOT_ASSIGNED \<and> t = PHYSICAL_TEST_SCHEDULED"

interpretation notification: single_row_transaction
  applyNotificationDelivery "\<lambda>_. notification_edge" nd_agency nd_applicationId
proof unfold_locales
  show "moves notification_edge db (fst (applyNotificationDelivery result db))" for result db
    by (auto simp: applyNotificationDelivery_def Let_def notification_edge_def same_key_def
        split: option.split intro!: step_rules)
  show "local_to (nd_agency result) (nd_applicationId result) db (fst (applyNotificationDelivery result db))"
    for result db
    by (simp add: applyNotificationDelivery_def Let_def split: option.split)
qed

interpretation notification_routine: routine_transaction applyNotificationDelivery "\<lambda>_. notification_edge"
  by unfold_locales
     (auto simp: notification_edge_def routine_edge_def plain_edge_def applyNotificationDelivery_def Let_def
       split: option.split)

subsection \<open>Physical test captured\<close>

record physical_test_complete_result =
  pt_applicationId :: uuid
  pt_agency :: agency
  pt_signedPayloadHash :: string
  pt_correlationId :: string

datatype apply_physical_test_outcome =
    PhysicalTest_APPLIED application_status application_status uuid uuid
  | PhysicalTest_NO_CHANGE
  | PhysicalTest_NOT_APPLICABLE application_status
  | PhysicalTest_CONFLICT_HELD
  | PhysicalTest_BIOMETRIC_NOT_VERIFIED
  | PhysicalTest_SCORE_NOT_FOUND
  | PhysicalTest_NOT_FOUND

definition score_conflict :: "agency \<Rightarrow> uuid \<Rightarrow> 'ev database \<Rightarrow> bool" where
  "score_conflict a i db \<longleftrightarrow>
     list_ex (\<lambda>s. score_application_id s = i \<and> sync_conflict_detected s)
       (physical_test_scores (schema_of db a))"

text \<open>\<open>WHERE application_id AND signed_payload_hash ORDER BY captured_at DESC LIMIT 1\<close>\<close>

definition latest_score :: "agency \<Rightarrow> uuid \<Rightarrow> string \<Rightarrow> 'ev database \<Rightarrow> uuid option" where
  "latest_score a i hash db =
     map_option score_id
       (latest_by captured_at
         (filter (\<lambda>s. score_application_id s = i \<and> signed_payload_hash s = hash)
           (physical_test_scores (schema_of db a))))"

text \<open>Identity was established: a gate admission, or the legacy verified check-in.\<close>

definition identity_established :: "agency \<Rightarrow> uuid \<Rightarrow> uuid \<Rightarrow> 'ev database \<Rightarrow> bool" where
  "identity_established a i applicant db \<longleftrightarrow>
     list_ex (\<lambda>g. adm_application_id g = i) (gate_admissions (schema_of db a)) \<or>
     (case applicant_identities db applicant of
        None \<Rightarrow> False | Some ident \<Rightarrow> biometric_verified_at ident \<noteq> None)"

definition applyPhysicalTestComplete ::
  "physical_test_complete_result \<Rightarrow> 'ev database \<Rightarrow> 'ev database \<times> apply_physical_test_outcome" where
  "applyPhysicalTestComplete result db =
     (let a = pt_agency result; i = pt_applicationId result in
      case app_of db a i of
        None \<Rightarrow> (db, PhysicalTest_NOT_FOUND)
      | Some current \<Rightarrow>
          if (if a = RDF then is_walk_in current else False) then
            (if app_status current = WALK_IN_PHYSICAL_TEST then (db, PhysicalTest_NO_CHANGE)
             else if app_status current \<noteq> WALK_IN_ON_SITE_VETTING
             then (db, PhysicalTest_NOT_APPLICABLE (app_status current))
             else if score_conflict a i db then (db, PhysicalTest_CONFLICT_HELD)
             else
               (case latest_score a i (pt_signedPayloadHash result) db of
                  None \<Rightarrow> (db, PhysicalTest_SCORE_NOT_FOUND)
                | Some score \<Rightarrow>
                    (insert_history a i (Some WALK_IN_ON_SITE_VETTING) WALK_IN_PHYSICAL_TEST
                       ''Walk-in physical-test score captured'' ''application-service'' (pt_correlationId result)
                       (update_app a i
                         (\<lambda>r. r\<lparr>physical_test_completed_at := Some (db_now db),
                               physical_test_score_id := Some score,
                               app_status := WALK_IN_PHYSICAL_TEST\<rparr>) db),
                     PhysicalTest_APPLIED WALK_IN_ON_SITE_VETTING WALK_IN_PHYSICAL_TEST
                       (applicant_id current) score)))
          else if status_rank (app_status current) \<ge> status_rank PHYSICAL_TEST_COMPLETE
          then (db, PhysicalTest_NO_CHANGE)
          else if app_status current \<noteq> PHYSICAL_TEST_SCHEDULED
          then (db, PhysicalTest_NOT_APPLICABLE (app_status current))
          else if score_conflict a i db then (db, PhysicalTest_CONFLICT_HELD)
          else if \<not> identity_established a i (applicant_id current) db
          then (db, PhysicalTest_BIOMETRIC_NOT_VERIFIED)
          else
            (case latest_score a i (pt_signedPayloadHash result) db of
               None \<Rightarrow> (db, PhysicalTest_SCORE_NOT_FOUND)
             | Some score \<Rightarrow>
                 (insert_history a i (Some PHYSICAL_TEST_SCHEDULED) PHYSICAL_TEST_COMPLETE
                    ''Physical-test score captured'' ''application-service'' (pt_correlationId result)
                    (update_app a i
                      (\<lambda>r. r\<lparr>physical_test_completed_at := Some (db_now db),
                            physical_test_score_id := Some score,
                            app_status := PHYSICAL_TEST_COMPLETE\<rparr>) db),
                  PhysicalTest_APPLIED PHYSICAL_TEST_SCHEDULED PHYSICAL_TEST_COMPLETE
                    (applicant_id current) score)))"

definition physical_test_edge :: edge where
  "physical_test_edge f t \<longleftrightarrow>
     f = Some PHYSICAL_TEST_SCHEDULED \<and> t = PHYSICAL_TEST_COMPLETE \<or>
     f = Some WALK_IN_ON_SITE_VETTING \<and> t = WALK_IN_PHYSICAL_TEST"

interpretation physical_test: single_row_transaction
  applyPhysicalTestComplete "\<lambda>_. physical_test_edge" pt_agency pt_applicationId
proof unfold_locales
  show "moves physical_test_edge db (fst (applyPhysicalTestComplete result db))" for result db
    by (auto simp: applyPhysicalTestComplete_def Let_def physical_test_edge_def same_key_def
        split: option.split intro!: step_rules)
  show "local_to (pt_agency result) (pt_applicationId result) db (fst (applyPhysicalTestComplete result db))"
    for result db
    by (simp add: applyPhysicalTestComplete_def Let_def split: option.split)
qed

interpretation physical_test_routine: routine_transaction applyPhysicalTestComplete "\<lambda>_. physical_test_edge"
  by unfold_locales
     (auto simp: physical_test_edge_def routine_edge_def plain_edge_def applyPhysicalTestComplete_def Let_def
       split: option.split)

subsection \<open>Document forensics\<close>

record forensics_routing_result =
  fr_applicationId :: uuid
  fr_agency :: agency
  fr_lane :: document_lane
  fr_documentId :: uuid
  fr_correlationId :: string

datatype apply_forensics_outcome =
    Forensics_APPLIED application_status application_status uuid
  | Forensics_NO_CHANGE
  | Forensics_NOT_APPLICABLE application_status
  | Forensics_NOT_FOUND

definition lane_name :: "document_lane \<Rightarrow> string" where
  "lane_name l = (case l of GREEN \<Rightarrow> ''GREEN'' | AMBER \<Rightarrow> ''AMBER'' | RED \<Rightarrow> ''RED'')"

definition forensics_target :: "document_lane \<Rightarrow> application_status \<Rightarrow> application_status option" where
  "forensics_target lane current =
     (let currentRank = status_rank current in
      case lane of
        RED \<Rightarrow> Some (if currentRank \<ge> status_rank SLOT_ASSIGNED then ADJUDICATION_REVIEW else REJECTED)
      | AMBER \<Rightarrow>
          (if currentRank \<ge> status_rank SLOT_ASSIGNED then Some ADJUDICATION_REVIEW
           else if currentRank < status_rank DOCUMENT_REVIEW_AMBER then Some DOCUMENT_REVIEW_AMBER
           else None)
      | GREEN \<Rightarrow> None)"

definition applyForensicsRouting ::
  "forensics_routing_result \<Rightarrow> 'ev database \<Rightarrow> 'ev database \<times> apply_forensics_outcome" where
  "applyForensicsRouting result db =
     (let a = fr_agency result; i = fr_applicationId result in
      case app_of db a i of
        None \<Rightarrow> (db, Forensics_NOT_FOUND)
      | Some current \<Rightarrow>
          if app_status current = REJECTED \<or> app_status current = WITHDRAWN \<or> app_status current = ACCEPTED
          then (db, Forensics_NOT_APPLICABLE (app_status current))
          else
            (case forensics_target (fr_lane result) (app_status current) of
               None \<Rightarrow> (db, Forensics_NO_CHANGE)
             | Some target \<Rightarrow>
                 if target = app_status current then (db, Forensics_NO_CHANGE)
                 else
                   (insert_history a i (Some (app_status current)) target
                      (''Document forensics: '' @ lane_name (fr_lane result) @ '' lane (document '' @
                         fr_documentId result @ '')'')
                      ''application-service'' (fr_correlationId result)
                      (update_app a i (\<lambda>r. r\<lparr>app_status := target\<rparr>) db),
                    Forensics_APPLIED (app_status current) target (applicant_id current))))"

definition forensics_edge :: edge where
  "forensics_edge f t =
     (case f of None \<Rightarrow> False
      | Some s \<Rightarrow>
          s \<notin> {REJECTED, WITHDRAWN, ACCEPTED} \<and> s \<noteq> t \<and>
          (forensics_target RED s = Some t \<or> forensics_target AMBER s = Some t))"

interpretation forensics: single_row_transaction
  applyForensicsRouting "\<lambda>_. forensics_edge" fr_agency fr_applicationId
proof unfold_locales
  have target: "forensics_target lane s = Some t \<Longrightarrow>
      forensics_target RED s = Some t \<or> forensics_target AMBER s = Some t" for lane s t
    by (cases lane) (auto simp: forensics_target_def)
  show "moves forensics_edge db (fst (applyForensicsRouting result db))" for result db
    by (auto simp: applyForensicsRouting_def Let_def forensics_edge_def same_key_def
        split: option.split intro!: step_rules dest: target)
  show "local_to (fr_agency result) (fr_applicationId result) db (fst (applyForensicsRouting result db))"
    for result db
    by (simp add: applyForensicsRouting_def Let_def split: option.split)
qed

lemma forensics_edge_routine: "forensics_edge f t \<Longrightarrow> routine_edge f t"
proof (cases f)
  case (Some s)
  assume "forensics_edge f t"
  with Some show ?thesis
    by (cases s) (auto simp: forensics_edge_def routine_edge_def plain_edge_def forensics_target_def)
qed (simp add: forensics_edge_def)

interpretation forensics_routine: routine_transaction applyForensicsRouting "\<lambda>_. forensics_edge"
proof unfold_locales
  show "leaves_shared db (fst (applyForensicsRouting result db))" for result and db :: "'a database"
    by (simp add: applyForensicsRouting_def Let_def split: option.split)
qed (rule forensics_edge_routine)

subsection \<open>Convergence of the vetting projection\<close>

text \<open>The evidence columns of a row after the dimensions in \<open>D\<close> have answered.\<close>

definition verdict_agrees :: "vetting_evidence \<Rightarrow> vetting_verdict \<Rightarrow> bool" where
  "verdict_agrees v w \<longleftrightarrow>
     (case w of
        AgeVerdict s _ \<Rightarrow> s = ageStatus v
      | AcademicVerdict s _ _ _ \<Rightarrow> s = academicStatus v
      | CriminalVerdict s _ _ \<Rightarrow> s = criminalStatus v)"

definition columns_seen :: "vetting_evidence \<Rightarrow> dimension set \<Rightarrow> app_row \<Rightarrow> bool" where
  "columns_seen v D r \<longleftrightarrow>
     age_eligibility_status r = ageStatus (seen v D) \<and> academic_status r = academicStatus (seen v D) \<and>
     app_row.criminal_clearance_status r = criminalStatus (seen v D) \<and> vetting_hold_resolved_dimensions r = []"

text \<open>What the database says of an open clearance review, as the projection reads it.\<close>

definition content_review_recorded :: "lifecycle_options \<Rightarrow> vetting_evidence \<Rightarrow> agency \<Rightarrow> uuid \<Rightarrow> 'ev database \<Rightarrow> bool" where
  "content_review_recorded opts v a i db \<longleftrightarrow>
     criminalContentReviewOnly v =
       (clearanceContentReviewAdmitsToExam opts \<and> criminalStatus v = UNDER_REVIEW \<and>
        criminalContentReviewOnly_of a i db)"

lemma projected_evidence_seen:
  assumes "columns_seen v D r" and "verdict_agrees v w" and "content_review_recorded opts v a i db"
  shows "projected_evidence opts a i w r db = seen v (insert (verdict_dimension w) D)"
  using assms
  by (cases w; cases "CRIMINAL \<in> D")
     (auto simp: projected_evidence_def columns_seen_def verdict_agrees_def content_review_recorded_def seen_def Let_def)

lemma write_verdict_seen:
  assumes "columns_seen v D r" and "verdict_agrees v w"
  shows "columns_seen v (insert (verdict_dimension w) D) ((write_verdict a now w r)\<lparr>app_status := t\<rparr>)"
  using assms
  by (cases w) (auto simp: columns_seen_def verdict_agrees_def seen_def write_verdict_def split: verified_via.split)

lemma unchanged_seen:
  assumes "columns_seen v D r" and "verdict_agrees v w" and "\<not> columnChanged w r"
  shows "columns_seen v (insert (verdict_dimension w) D) r"
  using assms
  by (cases w) (auto simp: columns_seen_def verdict_agrees_def seen_def columnChanged_def)

lemma columns_seen_updated [simp]:
  "columns_seen v D (r\<lparr>updated_at := now\<rparr>) = columns_seen v D r"
  by (simp add: columns_seen_def)

lemma criminalContentReviewOnly_of_frame:
  "clearance_verifications (schema_of db' a) = clearance_verifications (schema_of db a) \<Longrightarrow>
   criminalContentReviewOnly_of a i db' = criminalContentReviewOnly_of a i db"
  by (simp add: criminalContentReviewOnly_of_def)

lemma clearance_statements [store_simps]:
  "clearance_verifications (schema_of (update_app a i f db) b) = clearance_verifications (schema_of db b)"
  "clearance_verifications (schema_of (insert_history a i fr t reason by corr db) b) = clearance_verifications (schema_of db b)"
  "clearance_verifications (schema_of (stage_events evs db) b) = clearance_verifications (schema_of db b)"
  by (simp_all add: update_app_def insert_history_def stage_events_def schema_of_update_schema)

lemma applyVettingResult_clearances:
  "clearance_verifications (schema_of (fst (applyVettingResult opts stage result db)) b) =
   clearance_verifications (schema_of db b)"
  by (cases rule: applyVettingResult_cases [of db result opts stage])
     (simp_all add: store_simps Let_def split: option.split)

lemma applyVettingResult_seen_step:
  assumes row: "app_of db (vr_agency result) (vr_application_id result) = Some r"
    and cols: "columns_seen v D r" and agrees: "verdict_agrees v (vr_verdict result)"
    and content: "content_review_recorded opts v (vr_agency result) (vr_application_id result) db"
  obtains r' where
    "app_of (fst (applyVettingResult opts stage result db)) (vr_agency result) (vr_application_id result) = Some r'"
    "columns_seen v (insert (verdict_dimension (vr_verdict result)) D) r'"
    "app_status r' = deriveApplicationStatus (app_status r) (seen v (insert (verdict_dimension (vr_verdict result)) D)) opts"
proof -
  note projected = projected_evidence_seen [OF cols agrees content]
  show thesis
  proof (cases rule: applyVettingResult_cases [of db result opts stage])
    case (human q)
    with row cols show thesis by (simp add: columns_seen_def decidedByHuman_def)
  next
    case (same q)
    with row projected unchanged_seen [OF cols agrees] show thesis
      by (intro that [of r]) simp_all
  next
    case (applied q t ap db2)
    with row have [simp]: "q = r" by simp
    have "app_of (fst (applyVettingResult opts stage result db)) (vr_agency result) (vr_application_id result) =
        Some ((write_verdict (vr_agency result) (db_now db) (vr_verdict result) r)\<lparr>app_status := t, updated_at := db_now db\<rparr>)"
      using applied row by (simp add: store_simps Let_def split: option.split)
    then show thesis
      by (rule that) (use write_verdict_seen [OF cols agrees] projected applied(3) in simp_all)
  qed (use row in simp)
qed

definition project_all ::
  "lifecycle_options \<Rightarrow> (apply_vetting_outcome \<Rightarrow> 'ev list) option \<Rightarrow> vetting_result list \<Rightarrow> 'ev database \<Rightarrow> 'ev database" where
  "project_all opts stage results db = foldl (\<lambda>d result. fst (applyVettingResult opts stage result d)) db results"

lemma project_all_seen:
  assumes "app_of db a i = Some r" and "columns_seen v D r"
    and "app_status r = deriveApplicationStatus SUBMITTED (seen v D) opts"
    and "\<forall>e \<in> set results. vr_agency e = a \<and> vr_application_id e = i \<and> verdict_agrees v (vr_verdict e)"
    and "content_review_recorded opts v a i db"
  shows "\<exists>r'. app_of (project_all opts stage results db) a i = Some r' \<and>
    columns_seen v (D \<union> (verdict_dimension \<circ> vr_verdict) ` set results) r' \<and>
    app_status r' = deriveApplicationStatus SUBMITTED (seen v (D \<union> (verdict_dimension \<circ> vr_verdict) ` set results)) opts"
  using assms
proof (induction results arbitrary: db r D)
  case Nil
  then show ?case by (simp add: project_all_def)
next
  case (Cons e results)
  let ?db1 = "fst (applyVettingResult opts stage e db)" and ?d = "verdict_dimension (vr_verdict e)"
  from Cons.prems(4) have e: "vr_agency e = a" "vr_application_id e = i" "verdict_agrees v (vr_verdict e)" by simp_all
  obtain r1 where r1: "app_of ?db1 a i = Some r1" "columns_seen v (insert ?d D) r1"
      "app_status r1 = deriveApplicationStatus (app_status r) (seen v (insert ?d D)) opts"
    using applyVettingResult_seen_step [of db e r v D opts stage] Cons.prems e by auto
  have status: "app_status r1 = deriveApplicationStatus SUBMITTED (seen v (insert ?d D)) opts"
    using r1(3) Cons.prems(3) by (simp add: derive_seen_step)
  have content: "content_review_recorded opts v a i ?db1"
    using Cons.prems(5)
    by (simp add: content_review_recorded_def criminalContentReviewOnly_of_frame [OF applyVettingResult_clearances])
  have rest: "\<forall>e \<in> set results. vr_agency e = a \<and> vr_application_id e = i \<and> verdict_agrees v (vr_verdict e)"
    using Cons.prems(4) by simp
  have dims: "insert ?d D \<union> (verdict_dimension \<circ> vr_verdict) ` set results =
      D \<union> (verdict_dimension \<circ> vr_verdict) ` set (e # results)" by auto
  have all: "project_all opts stage (e # results) db = project_all opts stage results ?db1"
    by (simp add: project_all_def)
  from Cons.IH [OF r1(1,2) status rest content] show ?case unfolding dims all .
qed

lemma three_verdicts_decide:
  assumes "app_of db a i = Some (opening_row code applicant campaign cat SUBMITTED now)"
    and "\<forall>e \<in> set results. vr_agency e = a \<and> vr_application_id e = i \<and> verdict_agrees v (vr_verdict e)"
    and "verdict_dimension ` vr_verdict ` set results = {AGE, ACADEMIC, CRIMINAL}"
    and "content_review_recorded opts v a i db"
  shows "status_of (project_all opts stage results db) a i = Some (deriveApplicationStatus SUBMITTED v opts)"
proof -
  let ?r = "opening_row code applicant campaign cat SUBMITTED now"
  have cols: "columns_seen v {} ?r" by (simp add: columns_seen_def seen_def opening_row_def)
  have status: "app_status ?r = deriveApplicationStatus SUBMITTED (seen v {}) opts"
    by (simp add: opening_row_def seen_empty) (simp add: no_evidence_def lifecycle_defs)
  have dims: "{} \<union> (verdict_dimension \<circ> vr_verdict) ` set results = {AGE, ACADEMIC, CRIMINAL}"
    using assms(3) by (simp add: image_comp)
  have "seen v {AGE, ACADEMIC, CRIMINAL} = v" by (rule seen_all) simp
  with project_all_seen [OF assms(1) cols status assms(2,4), of stage, unfolded dims]
  show ?thesis by (auto simp: status_of_def)
qed



subsection \<open>What the projections decide\<close>

lemma human_decision_is_final:
  assumes "app_of db (vr_agency result) (vr_application_id result) = Some r"
    and "decidedByHuman (vetting_hold_resolved_dimensions r) (verdict_dimension (vr_verdict result))"
  shows "applyVettingResult opts stage result db = (db, Vetting_NO_CHANGE)"
  using assms by (cases rule: applyVettingResult_cases [of db result opts stage]) simp_all

text \<open>The first delivery writes the row so that the second finds nothing to write.\<close>

definition plain_failure_code :: "vetting_verdict \<Rightarrow> bool" where
  "plain_failure_code v \<longleftrightarrow>
     (case v of AcademicVerdict _ _ _ detail \<Rightarrow> js_same (failureCodeOf (Some detail)) (failureCodeOf (Some detail))
      | _ \<Rightarrow> True)"

lemma write_verdict_evidence:
  "projected_evidence opts a i v (write_verdict a now v r\<lparr>app_status := t, updated_at := u\<rparr>) db =
   projected_evidence opts a i v r db"
  by (cases v) (simp_all add: projected_evidence_def write_verdict_def Let_def split: verified_via.split)

lemma write_verdict_unchanged:
  "plain_failure_code v \<Longrightarrow> \<not> columnChanged v ((write_verdict a now v r)\<lparr>app_status := t, updated_at := u\<rparr>)"
  by (cases v) (auto simp: columnChanged_def write_verdict_def plain_failure_code_def split: verified_via.split)

lemma projected_evidence_frame:
  "clearance_verifications (schema_of db' a) = clearance_verifications (schema_of db a) \<Longrightarrow>
   projected_evidence opts a i v r db' = projected_evidence opts a i v r db"
  by (simp add: projected_evidence_def criminalContentReviewOnly_of_def Let_def)

text \<open>
  Delivering a vetting verdict a second time changes nothing and is answered NO_CHANGE (or
  NOT_FOUND when there is no such row), unless its failure code is an object or array, which the
  source compares by reference.
\<close>

theorem vetting_redelivery:
  assumes "plain_failure_code (vr_verdict result)"
  shows "applyVettingResult opts stage result (fst (applyVettingResult opts stage result db)) =
    (fst (applyVettingResult opts stage result db),
     if app_of db (vr_agency result) (vr_application_id result) = None then Vetting_NOT_FOUND else Vetting_NO_CHANGE)"
proof -
  let ?db' = "fst (applyVettingResult opts stage result db)"
  let ?a = "vr_agency result" and ?i = "vr_application_id result" and ?v = "vr_verdict result"
  note frame = projected_evidence_frame [OF applyVettingResult_clearances [of opts stage result db ?a]]
  show ?thesis
  proof (cases rule: applyVettingResult_cases [of db result opts stage])
    case (applied r t ap db2)
    define r' where "r' = (write_verdict ?a (db_now db) ?v r)\<lparr>app_status := t, updated_at := db_now db\<rparr>"
    have row: "app_of ?db' ?a ?i = Some r'"
      using applied by (simp add: r'_def store_simps Let_def split: option.split)
    have "columnChanged ?v r' = False" and "app_status r' = t"
      using write_verdict_unchanged [OF assms] by (simp_all add: r'_def)
    moreover have "deriveApplicationStatus t (projected_evidence opts ?a ?i ?v r' ?db') opts = t"
      unfolding frame r'_def write_verdict_evidence applied(3) by (rule derive_idem)
    ultimately have "applyVettingResult opts stage result ?db' = (?db', Vetting_NO_CHANGE)"
      using row by (simp add: applyVettingResult_def Let_def)
    with applied(1) show ?thesis by simp
  qed simp_all
qed

theorem vetting_redelivery_witness:
  "snd (applyVettingResult default_options None
     \<lparr>vr_application_id = ''app'', vr_agency = RDF, vr_correlation_id = ''c'',
      vr_verdict = CriminalVerdict FLAGGED_CONVICTION ''NONE'' ''rib''\<rparr>
     (fst (applyVettingResult default_options None
       \<lparr>vr_application_id = ''app'', vr_agency = RDF, vr_correlation_id = ''c'',
        vr_verdict = CriminalVerdict FLAGGED_CONVICTION ''NONE'' ''rib''\<rparr> (one_app (sample_row SUBMITTED))))) =
   Vetting_NO_CHANGE"
  by (subst vetting_redelivery) (simp_all add: plain_failure_code_def)

text \<open>
  A slot is assigned exactly to a document-green row whose invitation code is free; a code
  in use elsewhere fails without a write, and on every other row an issued token is never
  replaced.
\<close>

theorem slot_assignment_outcome:
  assumes "app_of db (sa_agency s) (sa_applicationId s) = Some r"
    and "applySlotAssignment s db = (db', oc)"
  shows "if app_status r \<noteq> DOCUMENT_REVIEW_GREEN
     then oc \<in> {Slot_NO_CHANGE, Slot_NOT_ASSIGNABLE (app_status r)} \<and> (qr_signed_token r \<noteq> None \<longrightarrow> db' = db)
     else if qr_taken db (sa_agency s) (sa_applicationId s) (sa_qrInvitationCode s)
     then db' = db \<and> oc = Slot_FAILED
     else oc = Slot_APPLIED DOCUMENT_REVIEW_GREEN SLOT_ASSIGNED (applicant_id r) \<and>
          (\<exists>r'. app_of db' (sa_agency s) (sa_applicationId s) = Some r' \<and> app_status r' = SLOT_ASSIGNED \<and>
                qr_signed_token r' = sa_qrSignedToken s \<and>
                qr_invitation_code r' = Some (sa_qrInvitationCode s) \<and>
                physical_test_scheduled_at r' = Some (ScheduledDate (sa_examDate s)))"
  using assms
  by (auto simp: applySlotAssignment_def alreadyAssigned_def sameStoredAssignment_def Let_def store_simps split: if_splits)

definition sample_slot :: slot_assignment_result where
  "sample_slot =
     \<lparr>sa_applicationId = ''app'', sa_agency = RDF, sa_venueAssignmentId = ''v1'', sa_assignedDistrict = ''GASABO'',
      sa_assignedVenueName = ''Amahoro'', sa_examDate = ''2026-08-03'', sa_qrInvitationCode = ''QR-1'',
      sa_qrSignedToken = Some ''token'', sa_correlationId = ''c''\<rparr>"

theorem slot_assignment_outcome_witness:
  "snd (applySlotAssignment sample_slot (one_app (sample_row DOCUMENT_REVIEW_GREEN))) =
   Slot_APPLIED DOCUMENT_REVIEW_GREEN SLOT_ASSIGNED ''citizen''"
proof -
  have "\<not> qr_taken (one_app (sample_row DOCUMENT_REVIEW_GREEN)) RDF ''app'' ''QR-1''"
    by code_simp
  then show ?thesis
    using slot_assignment_outcome [of "one_app (sample_row DOCUMENT_REVIEW_GREEN)" sample_slot
        "sample_row DOCUMENT_REVIEW_GREEN", OF _ surjective_pairing]
    by (simp add: sample_slot_def)
qed

text \<open>
  A test completion is applied only with a stored score of this application and payload
  hash, the newest such, no score of the application flagged as a sync conflict, and either the
  walk-in lane of RDF or an established identity.
\<close>

theorem physical_test_needs_a_score:
  assumes "applyPhysicalTestComplete result db = (db', PhysicalTest_APPLIED from t applicant score)"
  shows "\<exists>r s. app_of db (pt_agency result) (pt_applicationId result) = Some r \<and> app_status r = from \<and>
     s \<in> set (physical_test_scores (schema_of db (pt_agency result))) \<and> score_id s = score \<and>
     score_application_id s = pt_applicationId result \<and> signed_payload_hash s = pt_signedPayloadHash result \<and>
     (\<forall>q \<in> set (physical_test_scores (schema_of db (pt_agency result))).
        score_application_id q = pt_applicationId result \<longrightarrow>
        \<not> sync_conflict_detected q \<and> (signed_payload_hash q = signed_payload_hash s \<longrightarrow> captured_at q \<le> captured_at s)) \<and>
     (from = WALK_IN_ON_SITE_VETTING \<and> t = WALK_IN_PHYSICAL_TEST \<and> is_walk_in r \<and> pt_agency result = RDF \<or>
      from = PHYSICAL_TEST_SCHEDULED \<and> t = PHYSICAL_TEST_COMPLETE \<and>
      identity_established (pt_agency result) (pt_applicationId result) (applicant_id r) db)"
proof -
  let ?a = "pt_agency result" and ?i = "pt_applicationId result" and ?h = "pt_signedPayloadHash result"
  have newest: "s \<in> set (physical_test_scores (schema_of db ?a)) \<and> score_application_id s = ?i \<and>
      signed_payload_hash s = ?h \<and> (\<forall>q \<in> set (physical_test_scores (schema_of db ?a)).
        score_application_id q = ?i \<longrightarrow> signed_payload_hash q = ?h \<longrightarrow> captured_at q \<le> captured_at s)"
    if "latest_by captured_at (filter (\<lambda>s. score_application_id s = ?i \<and> signed_payload_hash s = ?h)
           (physical_test_scores (schema_of db ?a))) = Some s" for s
    using latest_by_SomeD [OF that] by auto
  have applied: "latest_score ?a ?i ?h db = Some score \<and> \<not> score_conflict ?a ?i db"
    using assms by (auto simp: applyPhysicalTestComplete_def Let_def split: option.splits if_splits)
  then obtain s where s: "latest_by captured_at (filter (\<lambda>s. score_application_id s = ?i \<and> signed_payload_hash s = ?h)
           (physical_test_scores (schema_of db ?a))) = Some s" "score_id s = score"
    by (auto simp: latest_score_def)
  have clean: "\<forall>q \<in> set (physical_test_scores (schema_of db ?a)). score_application_id q = ?i \<longrightarrow> \<not> sync_conflict_detected q"
    using applied by (auto simp: score_conflict_def list_ex_iff)
  obtain r where "app_of db ?a ?i = Some r" "app_status r = from"
     "from = WALK_IN_ON_SITE_VETTING \<and> t = WALK_IN_PHYSICAL_TEST \<and> is_walk_in r \<and> ?a = RDF \<or>
      from = PHYSICAL_TEST_SCHEDULED \<and> t = PHYSICAL_TEST_COMPLETE \<and> identity_established ?a ?i (applicant_id r) db"
    using assms by (auto simp: applyPhysicalTestComplete_def Let_def split: option.splits if_splits)
  with s(2) newest [OF s(1)] clean show ?thesis by (intro exI [of _ r] exI [of _ s]) simp
qed

definition scored_db :: "string database" where
  "scored_db =
     sample_db (empty_schema
       \<lparr>applications := [(''app'', sample_row PHYSICAL_TEST_SCHEDULED)],
        physical_test_scores :=
          [sample_score ''s1'' ''app'' ''h'' 5 False],
        gate_admissions :=
          [\<lparr>adm_application_id = ''app'', adm_ticket_id = ''t'', adm_campaign_id = ''campaign'', adm_venue_name = ''v'',
            adm_exam_date = ''2026-08-03'', adm_identity_method = ''NATIONAL_ID_CARD'', admitted_by_id = ''o'',
            admitted_at = 3\<rparr>]\<rparr>)"

definition sample_score_event :: physical_test_complete_result where
  "sample_score_event = \<lparr>pt_applicationId = ''app'', pt_agency = RDF, pt_signedPayloadHash = ''h'', pt_correlationId = ''c''\<rparr>"

theorem physical_test_needs_a_score_witness:
  "\<exists>s. s \<in> set (physical_test_scores (schema_of scored_db RDF)) \<and> score_id s = ''s1''"
proof -
  have "snd (applyPhysicalTestComplete sample_score_event scored_db) =
      PhysicalTest_APPLIED PHYSICAL_TEST_SCHEDULED PHYSICAL_TEST_COMPLETE ''citizen'' ''s1''"
    by code_simp
  then obtain db' where "applyPhysicalTestComplete sample_score_event scored_db =
      (db', PhysicalTest_APPLIED PHYSICAL_TEST_SCHEDULED PHYSICAL_TEST_COMPLETE ''citizen'' ''s1'')"
    by (metis surjective_pairing)
  from physical_test_needs_a_score [OF this] show ?thesis by (auto simp: sample_score_event_def)
qed

text \<open>
  The forensics lane decides the status of a live row: green never moves it, anything from
  the slot on goes to adjudication, and before the slot red rejects and amber holds for document
  review.
\<close>

theorem forensics_decision:
  assumes "app_of db (fr_agency f) (fr_applicationId f) = Some r" and "app_status r \<notin> {REJECTED, WITHDRAWN, ACCEPTED}"
  shows "status_of (fst (applyForensicsRouting f db)) (fr_agency f) (fr_applicationId f) = Some
    (let s = app_status r in
     if fr_lane f = GREEN then s
     else if status_rank SLOT_ASSIGNED \<le> status_rank s then ADJUDICATION_REVIEW
     else if fr_lane f = RED then REJECTED
     else DOCUMENT_REVIEW_AMBER)"
  using assms
  by (cases "fr_lane f"; cases "app_status r")
     (auto simp: applyForensicsRouting_def forensics_target_def status_of_def store_simps Let_def split: if_splits)

theorem forensics_decision_witness:
  "status_of (fst (applyForensicsRouting
      \<lparr>fr_applicationId = ''app'', fr_agency = RDF, fr_lane = RED, fr_documentId = ''d'', fr_correlationId = ''c''\<rparr>
      (one_app (sample_row SUBMITTED)))) RDF ''app'' = Some REJECTED"
  using forensics_decision [of "one_app (sample_row SUBMITTED)"
      "\<lparr>fr_applicationId = ''app'', fr_agency = RDF, fr_lane = RED, fr_documentId = ''d'', fr_correlationId = ''c''\<rparr>"
      "sample_row SUBMITTED"]
  by (simp add: Let_def)

text \<open>
  A document verdict other than green moves a rejected walk-in to ADJUDICATION_REVIEW,
  although the guard is meant to keep terminal rows out.
\<close>

theorem forensics_reopens_walk_in_rejection:
  assumes "app_of db (fr_agency f) (fr_applicationId f) = Some r" and "app_status r = WALK_IN_REJECTED"
    and "fr_lane f \<noteq> GREEN"
  shows "status_of (fst (applyForensicsRouting f db)) (fr_agency f) (fr_applicationId f) = Some ADJUDICATION_REVIEW"
  using assms
  by (cases "fr_lane f")
     (auto simp: applyForensicsRouting_def forensics_target_def status_of_def store_simps Let_def)

theorem forensics_reopens_walk_in_rejection_witness:
  "status_of (fst (applyForensicsRouting
      \<lparr>fr_applicationId = ''app'', fr_agency = RDF, fr_lane = AMBER, fr_documentId = ''d'', fr_correlationId = ''c''\<rparr>
      (one_app (sample_row WALK_IN_REJECTED)))) RDF ''app'' = Some ADJUDICATION_REVIEW"
  using forensics_reopens_walk_in_rejection [of "one_app (sample_row WALK_IN_REJECTED)"
      "\<lparr>fr_applicationId = ''app'', fr_agency = RDF, fr_lane = AMBER, fr_documentId = ''d'', fr_correlationId = ''c''\<rparr>"
      "sample_row WALK_IN_REJECTED"]
  by simp

end
