(* ===== verification/Officer.thy ===== *)
theory Officer
  imports Projections
begin

text \<open>
  The officer-driven transitions (\<open>adapters/officer-transition.pg-repository.ts\<close>): medical
  review, final decision, acceptance under the cross-agency lock, and the adjudication of held
  applications, with the separation-of-duties refusals. Each runs in the officer's own agency
  schema; the database role it assumes is not modelled.
\<close>

subsection \<open>Actors and outcomes\<close>

record officer_actor =
  actor_agency :: agency
  officerId :: uuid
  actor_correlationId :: string

record separation_of_duties =
  finalDecisionExcludesMedicalReviewer :: bool
  acceptExcludesFinalDecider :: bool
  clearanceReviewExcludesAccepter :: bool

definition default_sod :: separation_of_duties where
  "default_sod = \<lparr>finalDecisionExcludesMedicalReviewer = True, acceptExcludesFinalDecider = False,
                  clearanceReviewExcludesAccepter = True\<rparr>"

datatype sod_rule =
    FINAL_DECISION_EXCLUDES_MEDICAL_REVIEWER
  | ACCEPT_EXCLUDES_FINAL_DECIDER
  | ACCEPT_EXCLUDES_CLEARANCE_REVIEWER

text \<open>The held lanes of a refusal are optional in the source: \<open>None\<close> is an absent field.\<close>

datatype officer_outcome =
    Officer_APPLIED application_status application_status
  | Officer_NO_CHANGE application_status
  | Officer_NOT_APPLICABLE application_status "adjudication_lane list option"
  | Officer_NOT_FOUND
  | Officer_CROSS_AGENCY_LOCKED agency
  | Officer_SEPARATION_OF_DUTIES sod_rule

text \<open>\<open>decide\<close>: the pure guard of the three one-way transitions.\<close>

definition decide ::
  "application_status option \<Rightarrow> application_status list \<Rightarrow> application_status \<Rightarrow> officer_outcome" where
  "decide current requiredFrom target =
     (case current of
        None \<Rightarrow> Officer_NOT_FOUND
      | Some s \<Rightarrow>
          if s = target then Officer_NO_CHANGE s
          else if s \<notin> set requiredFrom then Officer_NOT_APPLICABLE s None
          else Officer_APPLIED s target)"

lemma decide_APPLIED_iff:
  "decide current from target = Officer_APPLIED s t \<longleftrightarrow>
     current = Some s \<and> t = target \<and> s \<noteq> target \<and> s \<in> set from"
  by (auto simp: decide_def split: option.split)

subsection \<open>Medical review\<close>

datatype fitness_status = FIT | UNFIT
datatype cert_verdict = CERT_VERIFIED | CERT_REJECTED

datatype medical_mode = BOARD fitness_status | CERTIFICATE cert_verdict "string option"

record medical_review_input =
  mr_actor :: officer_actor
  mr_applicationId :: uuid
  mr_mode :: medical_mode

definition fitness_name :: "fitness_status \<Rightarrow> string" where
  "fitness_name f = (case f of FIT \<Rightarrow> ''FIT'' | UNFIT \<Rightarrow> ''UNFIT'')"

definition cert_name :: "cert_verdict \<Rightarrow> string" where
  "cert_name v = (case v of CERT_VERIFIED \<Rightarrow> ''CERT_VERIFIED'' | CERT_REJECTED \<Rightarrow> ''CERT_REJECTED'')"

definition medical_positive :: "medical_mode \<Rightarrow> bool" where
  "medical_positive m = (case m of BOARD f \<Rightarrow> f = FIT | CERTIFICATE v _ \<Rightarrow> v = CERT_VERIFIED)"

definition medicalReview ::
  "medical_review_input \<Rightarrow> 'ev database \<Rightarrow> 'ev database \<times> officer_outcome" where
  "medicalReview inp db =
     (let actor = mr_actor inp; a = actor_agency actor; i = mr_applicationId inp;
          target = (if medical_positive (mr_mode inp) then MEDICAL_REVIEW else REJECTED);
          reason = (case mr_mode inp of
                      BOARD f \<Rightarrow> ''Medical review: '' @ fitness_name f
                    | CERTIFICATE v _ \<Rightarrow> ''Medical certificate: '' @ cert_name v)
      in
      case decide (map_option app_status (app_of db a i))
             [PHYSICAL_TEST_COMPLETE, WALK_IN_PHYSICAL_TEST] target of
        Officer_APPLIED from t \<Rightarrow>
          (insert_history a i (Some from) target reason (officerId actor) (actor_correlationId actor)
             (update_app a i
               (\<lambda>r. (case mr_mode inp of
                       BOARD f \<Rightarrow>
                         r\<lparr>medical_reviewed_by_id := Some (officerId actor), medical_reviewed_at := Some (db_now db),
                           medical_fitness_status := Some (fitness_name f)\<rparr>
                     | CERTIFICATE CERT_VERIFIED physician \<Rightarrow>
                         r\<lparr>medical_cert_verified := True, medical_cert_verified_at := Some (db_now db),
                           medical_cert_physician_name := physician\<rparr>
                     | CERTIFICATE CERT_REJECTED _ \<Rightarrow> r)\<lparr>app_status := target\<rparr>) db),
           Officer_APPLIED from t)
      | other \<Rightarrow> (db, other))"

definition medical_edge :: edge where
  "medical_edge f t \<longleftrightarrow>
     f \<in> {Some PHYSICAL_TEST_COMPLETE, Some WALK_IN_PHYSICAL_TEST} \<and> t \<in> {MEDICAL_REVIEW, REJECTED}"

interpretation medical: single_row_transaction
  medicalReview "\<lambda>_. medical_edge" "\<lambda>inp. actor_agency (mr_actor inp)" mr_applicationId
proof unfold_locales
  show "moves medical_edge db (fst (medicalReview inp db))" for inp db
    by (auto simp: medicalReview_def Let_def decide_def medical_edge_def same_key_def
        split: option.split medical_mode.split cert_verdict.split intro!: step_rules)
  show "local_to (actor_agency (mr_actor inp)) (mr_applicationId inp) db (fst (medicalReview inp db))"
    for inp db
    by (simp add: medicalReview_def Let_def split: officer_outcome.split)
qed

interpretation medical_routine: routine_transaction medicalReview "\<lambda>_. medical_edge"
  by unfold_locales
     (auto simp: medical_edge_def routine_edge_def plain_edge_def medicalReview_def Let_def
       split: officer_outcome.split)

subsection \<open>Final decision\<close>

datatype final_verdict = SHORTLIST | REJECT_FINAL

record final_decision_input =
  fd_actor :: officer_actor
  fd_applicationId :: uuid
  fd_decision :: final_verdict
  fd_notes :: "string option"

text \<open>The newest history entry into a status (\<open>ORDER BY performed_at DESC LIMIT 1\<close>).\<close>

definition latest_entry_into :: "'ev database \<Rightarrow> agency \<Rightarrow> uuid \<Rightarrow> application_status \<Rightarrow> history_row option" where
  "latest_entry_into db a i s =
     latest_by performed_at (filter (\<lambda>h. to_status h = s) (rows_of i (history_of db a)))"

definition finalDecision ::
  "separation_of_duties \<Rightarrow> final_decision_input \<Rightarrow> 'ev database \<Rightarrow> 'ev database \<times> officer_outcome" where
  "finalDecision sod inp db =
     (let actor = fd_actor inp; a = actor_agency actor; i = fd_applicationId inp;
          target = (case fd_decision inp of SHORTLIST \<Rightarrow> FINAL_SHORTLIST | REJECT_FINAL \<Rightarrow> REJECTED)
      in
      case decide (map_option app_status (app_of db a i)) [MEDICAL_REVIEW] target of
        Officer_APPLIED from t \<Rightarrow>
          if finalDecisionExcludesMedicalReviewer sod \<and>
             map_option performed_by (latest_entry_into db a i MEDICAL_REVIEW) = Some (officerId actor)
          then (db, Officer_SEPARATION_OF_DUTIES FINAL_DECISION_EXCLUDES_MEDICAL_REVIEWER)
          else
            (insert_history a i (Some MEDICAL_REVIEW) target
               (''Final decision: '' @ (case fd_decision inp of SHORTLIST \<Rightarrow> ''SHORTLIST'' | REJECT_FINAL \<Rightarrow> ''REJECT''))
               (officerId actor) (actor_correlationId actor)
               (update_app a i
                 (\<lambda>r. r\<lparr>final_decision_by_id := Some (officerId actor), final_decision_at := Some (db_now db),
                       final_decision_notes := fd_notes inp, app_status := target\<rparr>) db),
             Officer_APPLIED from t)
      | other \<Rightarrow> (db, other))"

definition final_edge :: edge where
  "final_edge f t \<longleftrightarrow> f = Some MEDICAL_REVIEW \<and> t \<in> {FINAL_SHORTLIST, REJECTED}"

interpretation final: single_row_transaction
  "\<lambda>(sod, inp). finalDecision sod inp" "\<lambda>_. final_edge"
  "\<lambda>(sod, inp). actor_agency (fd_actor inp)" "\<lambda>(sod, inp). fd_applicationId inp"
proof unfold_locales
  have "moves final_edge db (fst (finalDecision sod inp db))" for sod inp and db :: "'a database"
    by (auto simp: finalDecision_def Let_def decide_def final_edge_def same_key_def
        split: option.split final_verdict.split intro!: step_rules)
  then show "moves final_edge db (fst ((case p of (sod, inp) \<Rightarrow> finalDecision sod inp) db))"
    for p and db :: "'a database" by (cases p) simp
  have "local_to (actor_agency (fd_actor inp)) (fd_applicationId inp) db (fst (finalDecision sod inp db))"
    for sod inp and db :: "'a database"
    by (simp add: finalDecision_def Let_def split: officer_outcome.split)
  then show "local_to (case p of (sod, inp) \<Rightarrow> actor_agency (fd_actor inp))
      (case p of (sod, inp) \<Rightarrow> fd_applicationId inp) db
      (fst ((case p of (sod, inp) \<Rightarrow> finalDecision sod inp) db))"
    for p and db :: "'a database" by (cases p) simp
qed

interpretation final_routine: routine_transaction "\<lambda>(sod, inp). finalDecision sod inp" "\<lambda>_. final_edge"
  by unfold_locales
     (auto simp: final_edge_def routine_edge_def plain_edge_def finalDecision_def Let_def
       split: officer_outcome.split)

subsection \<open>Acceptance\<close>

record accept_input =
  ac_actor :: officer_actor
  ac_applicationId :: uuid

text \<open>The refusals are those of the other transitions; an applied one carries the row's identifiers.\<close>

datatype accept_outcome =
    Accept_APPLIED application_status application_status uuid uuid application_category
  | Accept_REFUSED officer_outcome

definition hold_of :: "app_row \<Rightarrow> hold_evidence" where
  "hold_of r = \<lparr>heStatus = app_status r, heCriminal = app_row.criminal_clearance_status r,
                heAcademic = academic_status r, heDetail = academic_eligibility_detail r\<rparr>"

definition accept :: "separation_of_duties \<Rightarrow> accept_input \<Rightarrow> 'ev database \<Rightarrow> 'ev database \<times> accept_outcome" where
  "accept sod inp db =
     (let actor = ac_actor inp; a = actor_agency actor; i = ac_applicationId inp in
      case decide (map_option app_status (app_of db a i)) [FINAL_SHORTLIST] ACCEPTED of
        Officer_APPLIED from t \<Rightarrow>
          (case app_of db a i of
             None \<Rightarrow> (db, Accept_REFUSED Officer_NOT_FOUND)
           | Some current \<Rightarrow>
               let openHolds = adjudicationLanes (hold_of current) in
               if openHolds \<noteq> [] then (db, Accept_REFUSED (Officer_NOT_APPLICABLE (app_status current) (Some openHolds)))
               else if acceptExcludesFinalDecider sod \<and> final_decision_by_id current = Some (officerId actor)
               then (db, Accept_REFUSED (Officer_SEPARATION_OF_DUTIES ACCEPT_EXCLUDES_FINAL_DECIDER))
               else if clearanceReviewExcludesAccepter sod \<and> officerId actor \<in> set (vetting_hold_resolvers current)
               then (db, Accept_REFUSED (Officer_SEPARATION_OF_DUTIES ACCEPT_EXCLUDES_CLEARANCE_REVIEWER))
               else
                 (case applicant_identities db (applicant_id current) of
                    None \<Rightarrow> (db, Accept_REFUSED (Officer_CROSS_AGENCY_LOCKED a))
                  | Some ident \<Rightarrow>
                      (case cross_agency_locked_by_agency ident of
                         Some holder \<Rightarrow> (db, Accept_REFUSED (Officer_CROSS_AGENCY_LOCKED holder))
                       | None \<Rightarrow>
                           if cross_agency_locked_at ident \<noteq> None
                           then (db, Accept_REFUSED (Officer_CROSS_AGENCY_LOCKED a))
                           else
                             let locked = db\<lparr>applicant_identities := (applicant_identities db)
                                   (applicant_id current \<mapsto>
                                      ident\<lparr>cross_agency_locked_at := Some (db_now db),
                                            cross_agency_locked_by_agency := Some a,
                                            cross_agency_lock_reason := Some ''ACCEPTED''\<rparr>)\<rparr>
                             in
                             (insert_history a i (Some FINAL_SHORTLIST) ACCEPTED ''Accepted''
                                (officerId actor) (actor_correlationId actor)
                                (update_app a i (\<lambda>r. r\<lparr>app_status := ACCEPTED\<rparr>) locked),
                              Accept_APPLIED from t (applicant_id current) (campaign_id current) (category current)))))
      | other \<Rightarrow> (db, Accept_REFUSED other))"

definition accept_edge :: edge where
  "accept_edge f t \<longleftrightarrow> f = Some FINAL_SHORTLIST \<and> t = ACCEPTED"

text \<open>What an acceptance needed, and what it wrote.\<close>

definition acceptable :: "separation_of_duties \<Rightarrow> accept_input \<Rightarrow> 'ev database \<Rightarrow> app_row \<Rightarrow> identity_row \<Rightarrow> bool" where
  "acceptable sod inp db r ident \<longleftrightarrow>
     app_of db (actor_agency (ac_actor inp)) (ac_applicationId inp) = Some r \<and>
     app_status r = FINAL_SHORTLIST \<and> adjudicationLanes (hold_of r) = [] \<and>
     \<not> (acceptExcludesFinalDecider sod \<and> final_decision_by_id r = Some (officerId (ac_actor inp))) \<and>
     \<not> (clearanceReviewExcludesAccepter sod \<and> officerId (ac_actor inp) \<in> set (vetting_hold_resolvers r)) \<and>
     applicant_identities db (applicant_id r) = Some ident \<and>
     cross_agency_locked_by_agency ident = None \<and> cross_agency_locked_at ident = None"

definition accepted_db :: "accept_input \<Rightarrow> app_row \<Rightarrow> identity_row \<Rightarrow> 'ev database \<Rightarrow> 'ev database" where
  "accepted_db inp r ident db =
     (let actor = ac_actor inp; a = actor_agency actor; i = ac_applicationId inp in
      insert_history a i (Some FINAL_SHORTLIST) ACCEPTED ''Accepted'' (officerId actor) (actor_correlationId actor)
        (update_app a i (\<lambda>r. r\<lparr>app_status := ACCEPTED\<rparr>)
          (db\<lparr>applicant_identities := (applicant_identities db)
               (applicant_id r \<mapsto> ident\<lparr>cross_agency_locked_at := Some (db_now db),
                  cross_agency_locked_by_agency := Some a, cross_agency_lock_reason := Some ''ACCEPTED''\<rparr>)\<rparr>)))"

lemma accept_cases:
  obtains
    (refused) oc where "accept sod inp db = (db, Accept_REFUSED oc)"
      "\<And>r ident. \<not> acceptable sod inp db r ident"
  | (accepted) r ident where "acceptable sod inp db r ident"
      "accept sod inp db =
         (accepted_db inp r ident db,
          Accept_APPLIED FINAL_SHORTLIST ACCEPTED (applicant_id r) (campaign_id r) (category r))"
proof (cases "\<exists>r ident. acceptable sod inp db r ident")
  case True
  then obtain r ident where ok: "acceptable sod inp db r ident" by blast
  then show thesis
    by (intro accepted [OF ok])
       (simp add: acceptable_def accepted_db_def accept_def Let_def decide_def)
next
  case False
  have "\<exists>oc. accept sod inp db = (db, Accept_REFUSED oc)"
  proof (cases "app_of db (actor_agency (ac_actor inp)) (ac_applicationId inp)")
    case None
    then show ?thesis by (simp add: accept_def Let_def decide_def)
  next
    case (Some r)
    with False show ?thesis
      by (cases "applicant_identities db (applicant_id r)")
         (auto simp: accept_def Let_def decide_def acceptable_def split: option.split)
  qed
  with False show thesis by (blast intro: refused)
qed

lemma accepted_db_moves:
  assumes "acceptable sod inp db r ident" shows "moves accept_edge db (accepted_db inp r ident db)"
  unfolding accepted_db_def Let_def
  by (rule moves_recorded [where r = r and r' = "r\<lparr>app_status := ACCEPTED, updated_at := db_now db\<rparr>"])
     (use assms in \<open>auto simp: acceptable_def accept_edge_def same_key_def store_simps\<close>)

interpretation acceptance: single_row_transaction
  "\<lambda>(sod, inp). accept sod inp" "\<lambda>_. accept_edge"
  "\<lambda>(sod, inp). actor_agency (ac_actor inp)" "\<lambda>(sod, inp). ac_applicationId inp"
proof unfold_locales
  have "moves accept_edge db (fst (accept sod inp db))" for sod inp and db :: "'a database"
    by (cases rule: accept_cases [of sod inp db]) (auto intro: accepted_db_moves)
  then show "moves accept_edge db (fst ((case p of (sod, inp) \<Rightarrow> accept sod inp) db))"
    for p and db :: "'a database" by (cases p) simp
  have "local_to (actor_agency (ac_actor inp)) (ac_applicationId inp) db (fst (accept sod inp db))"
    for sod inp and db :: "'a database"
    by (cases rule: accept_cases [of sod inp db]) (simp_all add: accepted_db_def Let_def)
  then show "local_to (case p of (sod, inp) \<Rightarrow> actor_agency (ac_actor inp))
      (case p of (sod, inp) \<Rightarrow> ac_applicationId inp) db (fst ((case p of (sod, inp) \<Rightarrow> accept sod inp) db))"
    for p and db :: "'a database" by (cases p) simp
qed

subsection \<open>Adjudication\<close>

datatype adjudication_decision = CLEAR | REJECT

record adjudicate_input =
  aj_actor :: officer_actor
  aj_applicationId :: uuid
  aj_decision :: adjudication_decision
  aj_lane :: "adjudication_lane option"
  aj_notes :: "string option"

record adjudicated =
  aj_lane_decided :: adjudication_lane
  aj_fromStatus :: application_status
  aj_toStatus :: application_status
  aj_clearedToGreen :: bool
  aj_applicantId :: uuid
  aj_campaignId :: uuid
  aj_category :: application_category

datatype adjudicate_outcome =
    Adjudicate_APPLIED adjudicated
  | Adjudicate_NO_CHANGE application_status
  | Adjudicate_NOT_APPLICABLE application_status "adjudication_lane list"
  | Adjudicate_NOT_FOUND

definition append_once :: "'a \<Rightarrow> 'a list \<Rightarrow> 'a list" where
  "append_once x xs = (if x \<in> set xs then xs else xs @ [x])"

definition stampResolution :: "uuid \<Rightarrow> dimension \<Rightarrow> instant \<Rightarrow> app_row \<Rightarrow> app_row" where
  "stampResolution officer d now r =
     r\<lparr>vetting_hold_resolvers := append_once officer (vetting_hold_resolvers r),
       vetting_hold_resolved_dimensions := append_once d (vetting_hold_resolved_dimensions r),
       vetting_hold_resolved_at := Some now\<rparr>"

text \<open>The column write of a CLEAR in a dimension lane.\<close>

definition record_human_verdict :: "uuid \<Rightarrow> adjudication_lane \<Rightarrow> instant \<Rightarrow> app_row \<Rightarrow> app_row" where
  "record_human_verdict officer l now r =
     (case l of
        LANE_CRIMINAL \<Rightarrow>
          stampResolution officer CRIMINAL now
            (r\<lparr>app_row.criminal_clearance_status := CLEARED, criminal_clearance_at := Some now\<rparr>)
      | LANE_ACADEMIC \<Rightarrow> stampResolution officer ACADEMIC now (r\<lparr>academic_status := ELIGIBLE\<rparr>)
      | LANE_DOCUMENT \<Rightarrow> r)"

text \<open>The AMBER document rows not reviewed yet carry the officer's decision.\<close>

definition stamp_documents ::
  "agency \<Rightarrow> uuid \<Rightarrow> uuid \<Rightarrow> string \<Rightarrow> 'ev database \<Rightarrow> 'ev database" where
  "stamp_documents a i officer decision db =
     update_schema a
       (\<lambda>s. s\<lparr>document_records :=
              map (\<lambda>d. if doc_application_id d = i \<and> doc_lane d = Some AMBER \<and> human_reviewed_by_id d = None
                       then d\<lparr>human_reviewed_by_id := Some officer, human_reviewed_at := Some (db_now db),
                              human_review_decision := Some decision\<rparr>
                       else d) (document_records s)\<rparr>) db"

lemma stamp_documents_frame [store_simps]:
  "app_of (stamp_documents a i officer decision db) b j = app_of db b j"
  "trail (stamp_documents a i officer decision db) b j = trail db b j"
  "history_of (stamp_documents a i officer decision db) b = history_of db b"
  "db_now (stamp_documents a i officer decision db) = db_now db"
  "local_to a i db0 (stamp_documents a i officer decision db) = local_to a i db0 db"
  by (simp_all add: stamp_documents_def app_of_update_schema trail_def history_of_update_schema
      update_schema_frame local_to_update_schema)
     (simp_all add: app_of_def history_of_def)

definition decision_name :: "adjudication_decision \<Rightarrow> string" where
  "decision_name d = (case d of CLEAR \<Rightarrow> ''CLEAR'' | REJECT \<Rightarrow> ''REJECT'')"

definition lane_label :: "adjudication_lane \<Rightarrow> string" where
  "lane_label l = (case l of LANE_DOCUMENT \<Rightarrow> ''DOCUMENT'' | LANE_CRIMINAL \<Rightarrow> ''CRIMINAL'' | LANE_ACADEMIC \<Rightarrow> ''ACADEMIC'')"

text \<open>\<open>.slice(0, 200)\<close>; the dash before the notes is one code unit, here the character 151.\<close>

definition adjudication_reason :: "adjudication_decision \<Rightarrow> adjudication_lane \<Rightarrow> string option \<Rightarrow> string" where
  "adjudication_reason d l notes =
     take 200
       (''Adjudication: '' @ decision_name d @ '' ('' @ lane_label l @ '')'' @
        (case notes of None \<Rightarrow> [] | Some n \<Rightarrow> '' '' @ [char_of (151::nat)] @ '' '' @ n))"

definition held_evidence ::
  "lifecycle_options \<Rightarrow> agency \<Rightarrow> uuid \<Rightarrow> app_row \<Rightarrow> 'ev database \<Rightarrow> vetting_evidence" where
  "held_evidence opts a i current db =
     \<lparr>ageStatus = age_eligibility_status current, academicStatus = academic_status current,
      criminalStatus = app_row.criminal_clearance_status current,
      criminalContentReviewOnly =
        (if clearanceContentReviewAdmitsToExam opts \<and> app_row.criminal_clearance_status current = UNDER_REVIEW
         then criminalContentReviewOnly_of a i db else False)\<rparr>"

text \<open>Where a decision sends the row; \<open>None\<close> when there is no recorded entry into the hold.\<close>

definition adjudication_target ::
  "lifecycle_options \<Rightarrow> adjudicate_input \<Rightarrow> app_row \<Rightarrow> vetting_evidence \<Rightarrow> adjudication_lane list \<Rightarrow>
   adjudication_lane \<Rightarrow> 'ev database \<Rightarrow> application_status option" where
  "adjudication_target opts inp current evidence held decided db =
     (let a = actor_agency (aj_actor inp); i = aj_applicationId inp in
      case aj_decision inp of
        REJECT \<Rightarrow> Some REJECTED
      | CLEAR \<Rightarrow>
          if decided = LANE_DOCUMENT then
            (if app_status current = DOCUMENT_REVIEW_AMBER
             then Some (deriveApplicationStatus SUBMITTED evidence opts)
             else (case latest_entry_into db a i ADJUDICATION_REVIEW of
                     None \<Rightarrow> None | Some h \<Rightarrow> from_status h))
          else
            (let evidence' =
               (if decided = LANE_CRIMINAL then evidence\<lparr>criminalStatus := CLEARED\<rparr>
                else evidence\<lparr>academicStatus := ELIGIBLE\<rparr>);
                 blocking = filter (\<lambda>other. other \<noteq> decided \<and>
                   \<not> (other = LANE_CRIMINAL \<and> criminalContentReviewOnly evidence \<and>
                      clearanceContentReviewAdmitsToExam opts)) held
             in Some (if blocking \<noteq> [] then app_status current
                      else deriveApplicationStatus (app_status current) evidence' opts)))"

text \<open>
  The statements of an applied decision: the dimension verdict, the status, the document rows,
  the history entry. \<open>status\<close> is the row's status under the lock.
\<close>

definition write_adjudication ::
  "adjudicate_input \<Rightarrow> adjudication_lane \<Rightarrow> application_status \<Rightarrow> application_status \<Rightarrow> 'ev database \<Rightarrow> 'ev database" where
  "write_adjudication inp decided status target db =
     (let actor = aj_actor inp; a = actor_agency actor; i = aj_applicationId inp; decision = aj_decision inp;
          db1 = (if decision = CLEAR \<and> decided \<noteq> LANE_DOCUMENT
                 then update_app a i (record_human_verdict (officerId actor) decided (db_now db)) db
                 else db);
          db2 = (if target \<noteq> status then update_app a i (\<lambda>r. r\<lparr>app_status := target\<rparr>) db1 else db1);
          db3 = (if decided = LANE_DOCUMENT \<and> status = DOCUMENT_REVIEW_AMBER
                 then stamp_documents a i (officerId actor) (decision_name decision) db2 else db2)
      in if target \<noteq> status
         then insert_history a i (Some status) target (adjudication_reason decision decided (aj_notes inp))
                (officerId actor) (actor_correlationId actor) db3
         else db3)"

text \<open>In the DOCUMENT lane a target equal to the status writes nothing at all.\<close>

definition adjudicate ::
  "lifecycle_options \<Rightarrow> adjudicate_input \<Rightarrow> 'ev database \<Rightarrow> 'ev database \<times> adjudicate_outcome" where
  "adjudicate opts inp db =
     (let a = actor_agency (aj_actor inp); i = aj_applicationId inp in
      case app_of db a i of
        None \<Rightarrow> (db, Adjudicate_NOT_FOUND)
      | Some current \<Rightarrow>
          let evidence = held_evidence opts a i current db;
              held = adjudicationLanes (hold_of current);
              status = app_status current
          in
          case (case aj_lane inp of Some l \<Rightarrow> Some l | None \<Rightarrow> if length held = 1 then Some (hd held) else None) of
            None \<Rightarrow> (db, Adjudicate_NOT_APPLICABLE status held)
          | Some decided \<Rightarrow>
              if decided \<notin> set held then (db, Adjudicate_NOT_APPLICABLE status held)
              else
                (case adjudication_target opts inp current evidence held decided db of
                   None \<Rightarrow> (db, Adjudicate_NOT_APPLICABLE status held)
                 | Some target \<Rightarrow>
                     if target = status \<and> decided = LANE_DOCUMENT then (db, Adjudicate_NO_CHANGE status)
                     else
                       (write_adjudication inp decided status target db,
                        Adjudicate_APPLIED
                          \<lparr>aj_lane_decided = decided, aj_fromStatus = status, aj_toStatus = target,
                           aj_clearedToGreen = (aj_decision inp = CLEAR \<and> target = DOCUMENT_REVIEW_GREEN),
                           aj_applicantId = applicant_id current, aj_campaignId = campaign_id current,
                           aj_category = category current\<rparr>)))"

text \<open>The decision an application is open to: which lane, on which row, with which target.\<close>

definition decidable_adjudication ::
  "lifecycle_options \<Rightarrow> adjudicate_input \<Rightarrow> 'ev database \<Rightarrow> app_row \<Rightarrow> adjudication_lane \<Rightarrow> application_status \<Rightarrow> bool" where
  "decidable_adjudication opts inp db r decided target \<longleftrightarrow>
     (let a = actor_agency (aj_actor inp); i = aj_applicationId inp; held = adjudicationLanes (hold_of r) in
      app_of db a i = Some r \<and>
      (aj_lane inp = Some decided \<or> aj_lane inp = None \<and> held = [decided]) \<and> decided \<in> set held \<and>
      adjudication_target opts inp r (held_evidence opts a i r db) held decided db = Some target \<and>
      \<not> (target = app_status r \<and> decided = LANE_DOCUMENT))"

lemma adjudicate_cases:
  obtains
    (refused) oc where "adjudicate opts inp db = (db, oc)"
      "\<And>ap. oc \<noteq> Adjudicate_APPLIED ap"
  | (applied) r decided target where "decidable_adjudication opts inp db r decided target"
      "adjudicate opts inp db =
         (write_adjudication inp decided (app_status r) target db,
          Adjudicate_APPLIED
            \<lparr>aj_lane_decided = decided, aj_fromStatus = app_status r, aj_toStatus = target,
             aj_clearedToGreen = (aj_decision inp = CLEAR \<and> target = DOCUMENT_REVIEW_GREEN),
             aj_applicantId = applicant_id r, aj_campaignId = campaign_id r, aj_category = category r\<rparr>)"
proof (cases "app_of db (actor_agency (aj_actor inp)) (aj_applicationId inp)")
  case None
  then show thesis by (intro refused [of Adjudicate_NOT_FOUND]) (simp_all add: adjudicate_def Let_def)
next
  case (Some r)
  let ?held = "adjudicationLanes (hold_of r)"
  let ?choice = "case aj_lane inp of Some l \<Rightarrow> Some l | None \<Rightarrow> if length ?held = 1 then Some (hd ?held) else None"
  show thesis
  proof (cases "\<exists>d. ?choice = Some d \<and> d \<in> set ?held")
    case False
    with Some show thesis
      by (intro refused [of "Adjudicate_NOT_APPLICABLE (app_status r) ?held"])
         (auto simp: adjudicate_def Let_def split: option.split)
  next
    case True
    then obtain d where d: "?choice = Some d" "d \<in> set ?held" by blast
    then have lane: "aj_lane inp = Some d \<or> aj_lane inp = None \<and> ?held = [d]"
      by (cases "aj_lane inp"; cases ?held) (auto split: if_splits)
    let ?target = "adjudication_target opts inp r
        (held_evidence opts (actor_agency (aj_actor inp)) (aj_applicationId inp) r db) ?held d db"
    show thesis
    proof (cases "\<exists>t. ?target = Some t \<and> \<not> (t = app_status r \<and> d = LANE_DOCUMENT)")
      case True
      then obtain t where t: "?target = Some t" "\<not> (t = app_status r \<and> d = LANE_DOCUMENT)" by blast
      have "decidable_adjudication opts inp db r d t"
        using Some d lane t by (simp add: decidable_adjudication_def Let_def)
      then show thesis
        by (rule applied) (use Some d t in \<open>simp add: adjudicate_def Let_def\<close>)
    next
      case False
      with Some d have "\<exists>oc. adjudicate opts inp db = (db, oc) \<and> (\<forall>ap. oc \<noteq> Adjudicate_APPLIED ap)"
        by (cases ?target) (auto simp: adjudicate_def Let_def)
      then show thesis using refused by blast
    qed
  qed
qed

subsection \<open>The edges of an adjudication\<close>

definition adjudicate_edge :: edge where
  "adjudicate_edge f t =
     (case f of None \<Rightarrow> False
      | Some s \<Rightarrow>
          s \<notin> TERMINAL \<and> s \<noteq> t \<and>
          (t = REJECTED \<or> s = ADJUDICATION_REVIEW \<or> vetting_edge (Some s) t \<or>
           s = DOCUMENT_REVIEW_AMBER \<and>
             t \<in> {SUBMITTED, ACADEMIC_VETTING, CRIMINAL_CLEARANCE, DOCUMENT_REVIEW_GREEN}))"

lemma derive_from_submitted:
  "deriveApplicationStatus SUBMITTED e opts \<in>
     {REJECTED, SUBMITTED, ACADEMIC_VETTING, CRIMINAL_CLEARANCE, DOCUMENT_REVIEW_GREEN}"
  by (simp add: derive_submitted)

lemma held_not_terminal: "l \<in> set (adjudicationLanes (hold_of r)) \<Longrightarrow> app_status r \<notin> TERMINAL"
  by (auto simp: adjudicationLanes_def hold_of_def split: if_splits)

lemma adjudication_target_edge:
  assumes "decidable_adjudication opts inp db r decided target" and "target \<noteq> app_status r"
  shows "adjudicate_edge (Some (app_status r)) target"
proof -
  from assms have "decided \<in> set (adjudicationLanes (hold_of r))"
    by (simp add: decidable_adjudication_def Let_def)
  note held = this
  then have live: "app_status r \<notin> TERMINAL" by (rule held_not_terminal)
  have doc: "decided = LANE_DOCUMENT \<Longrightarrow> app_status r = DOCUMENT_REVIEW_AMBER \<or> app_status r = ADJUDICATION_REVIEW"
    using held document_lane_iff [of "hold_of r"] by (simp add: hold_of_def)
  consider "aj_decision inp = REJECT" | "aj_decision inp = CLEAR" "decided = LANE_DOCUMENT"
    | "aj_decision inp = CLEAR" "decided \<noteq> LANE_DOCUMENT"
    by (cases "aj_decision inp") auto
  then show ?thesis
  proof cases
    case 1
    with assms live show ?thesis
      by (auto simp: decidable_adjudication_def adjudication_target_def adjudicate_edge_def Let_def)
  next
    case 2
    with assms live doc derive_from_submitted show ?thesis
      by (auto simp: decidable_adjudication_def adjudication_target_def adjudicate_edge_def Let_def
          split: if_splits)
  next
    case 3
    then obtain e where "target = deriveApplicationStatus (app_status r) e opts"
      using assms by (auto simp: decidable_adjudication_def adjudication_target_def Let_def split: if_splits)
    with assms(2) live show ?thesis
      using derive_edge [of "app_status r" e opts] by (simp add: adjudicate_edge_def)
  qed
qed

lemma record_human_verdict_frame [simp]:
  "same_key r (record_human_verdict off l now r)"
  "app_status (record_human_verdict off l now s) = app_status s"
  by (cases l; auto simp: record_human_verdict_def stampResolution_def append_once_def same_key_def)+

text \<open>Whatever relation holds the one edge taken, the whole write moves along it.\<close>

lemma write_adjudication_moves_gen:
  assumes dec: "decidable_adjudication opts inp db r decided target"
    and edge: "target \<noteq> app_status r \<Longrightarrow> E (Some (app_status r)) target"
  shows "moves E db (write_adjudication inp decided (app_status r) target db)"
proof -
  let ?a = "actor_agency (aj_actor inp)" and ?i = "aj_applicationId inp"
  from dec have row: "app_of db ?a ?i = Some r" by (simp add: decidable_adjudication_def Let_def)
  define db1 where "db1 = (if aj_decision inp = CLEAR \<and> decided \<noteq> LANE_DOCUMENT
      then update_app ?a ?i (record_human_verdict (officerId (aj_actor inp)) decided (db_now db)) db else db)"
  have "quiet db db1" using row by (auto simp: db1_def quiet_def intro!: quiet_update_app [unfolded quiet_def])
  obtain r1 where r1: "app_of db1 ?a ?i = Some r1" "app_status r1 = app_status r" "same_key r r1"
    using row
    by (cases "aj_decision inp = CLEAR \<and> decided \<noteq> LANE_DOCUMENT") (auto simp: db1_def store_simps)
  have "moves E db1 (write_adjudication inp decided (app_status r) target db)"
  proof (cases "target = app_status r")
    case True
    then have "write_adjudication inp decided (app_status r) target db = db1"
      using dec by (auto simp: write_adjudication_def db1_def decidable_adjudication_def Let_def)
    then show ?thesis by simp
  next
    case False
    show ?thesis
      unfolding write_adjudication_def Let_def db1_def [symmetric] if_not_P [OF False] if_P [OF False]
      by (rule moves_recorded [where r = r1 and r' = "r1\<lparr>app_status := target, updated_at := db_now db1\<rparr>"])
         (use False r1 edge in \<open>auto simp: store_simps same_key_def\<close>)
  qed
  with \<open>quiet db db1\<close> show ?thesis by (rule quiet_then_moves)
qed

lemma write_adjudication_moves:
  "decidable_adjudication opts inp db r decided target \<Longrightarrow>
   moves adjudicate_edge db (write_adjudication inp decided (app_status r) target db)"
  using write_adjudication_moves_gen adjudication_target_edge by blast

interpretation adjudication: single_row_transaction
  "\<lambda>(opts, inp). adjudicate opts inp" "\<lambda>_. adjudicate_edge"
  "\<lambda>(opts, inp). actor_agency (aj_actor inp)" "\<lambda>(opts, inp). aj_applicationId inp"
proof unfold_locales
  have "moves adjudicate_edge db (fst (adjudicate opts inp db))" for opts inp and db :: "'a database"
    by (cases rule: adjudicate_cases [of opts inp db]) (auto intro: write_adjudication_moves)
  then show "moves adjudicate_edge db (fst ((case p of (opts, inp) \<Rightarrow> adjudicate opts inp) db))"
    for p and db :: "'a database" by (cases p) simp
  have "local_to (actor_agency (aj_actor inp)) (aj_applicationId inp) db (fst (adjudicate opts inp db))"
    for opts inp and db :: "'a database"
    by (cases rule: adjudicate_cases [of opts inp db])
       (simp_all add: write_adjudication_def Let_def store_simps)
  then show "local_to (case p of (opts, inp) \<Rightarrow> actor_agency (aj_actor inp))
      (case p of (opts, inp) \<Rightarrow> aj_applicationId inp) db
      (fst ((case p of (opts, inp) \<Rightarrow> adjudicate opts inp) db))"
    for p and db :: "'a database" by (cases p) simp
qed

subsection \<open>What the officer transitions guarantee\<close>

text \<open>
  An acceptance is applied exactly when the row is shortlisted with no open hold, the
  officer is not excluded by the separation of duties and the citizen holds no cross-agency
  lock, and then writes exactly the lock, the status and the history entry.
\<close>

theorem acceptance_decision:
  "accept sod inp db = (db', Accept_APPLIED f t p c cat) \<longleftrightarrow>
     (\<exists>r ident. acceptable sod inp db r ident \<and> db' = accepted_db inp r ident db \<and>
        f = FINAL_SHORTLIST \<and> t = ACCEPTED \<and> p = applicant_id r \<and> c = campaign_id r \<and> cat = category r)"
  (is "?run \<longleftrightarrow> (\<exists>r ident. acceptable sod inp db r ident \<and> ?written r ident)")
proof (cases rule: accept_cases [of sod inp db])
  case (accepted r ident)
  have "r' = r \<and> ident' = ident" if "acceptable sod inp db r' ident'" for r' ident'
    using that accepted(1) by (simp add: acceptable_def)
  with accepted(1) have "(\<exists>r ident. acceptable sod inp db r ident \<and> ?written r ident) \<longleftrightarrow> ?written r ident"
    by metis
  moreover have "?run \<longleftrightarrow> ?written r ident" unfolding accepted(2) by blast
  ultimately show ?thesis by (rule trans [OF _ sym, rotated])
qed simp

text \<open>
  An applied final decision comes from MEDICAL_REVIEW, lands on the shortlist or a
  rejection, and was not taken by the officer of the newest entry into medical review.
\<close>

theorem final_decision_separates_duties:
  assumes "finalDecision sod inp db = (db', Officer_APPLIED f t)" and "finalDecisionExcludesMedicalReviewer sod"
  shows "f = MEDICAL_REVIEW \<and> (t = FINAL_SHORTLIST \<or> t = REJECTED) \<and>
    status_of db (actor_agency (fd_actor inp)) (fd_applicationId inp) = Some MEDICAL_REVIEW \<and>
    status_of db' (actor_agency (fd_actor inp)) (fd_applicationId inp) = Some t \<and>
    (\<forall>h. latest_entry_into db (actor_agency (fd_actor inp)) (fd_applicationId inp) MEDICAL_REVIEW = Some h \<longrightarrow>
         performed_by h \<noteq> officerId (fd_actor inp))"
  using assms
  by (cases "fd_decision inp")
     (auto simp: finalDecision_def decide_def status_of_def store_simps Let_def split: option.splits if_splits)

definition rdf_officer :: "uuid \<Rightarrow> officer_actor" where
  "rdf_officer who = \<lparr>actor_agency = RDF, officerId = who, actor_correlationId = ''c''\<rparr>"

definition medically_reviewed :: "uuid \<Rightarrow> string database" where
  "medically_reviewed who =
     sample_db (empty_schema
       \<lparr>applications := [(''app'', sample_row MEDICAL_REVIEW)],
        status_history := [sample_history ''app'' (Some PHYSICAL_TEST_COMPLETE) MEDICAL_REVIEW who 10]\<rparr>)"

theorem final_decision_separates_duties_witness:
  "status_of (fst (finalDecision default_sod
       \<lparr>fd_actor = rdf_officer ''board'', fd_applicationId = ''app'', fd_decision = SHORTLIST, fd_notes = None\<rparr>
       (medically_reviewed ''doctor''))) RDF ''app'' = Some FINAL_SHORTLIST"
proof -
  let ?inp = "\<lparr>fd_actor = rdf_officer ''board'', fd_applicationId = ''app'', fd_decision = SHORTLIST, fd_notes = None\<rparr>"
  have "snd (finalDecision default_sod ?inp (medically_reviewed ''doctor'')) = Officer_APPLIED MEDICAL_REVIEW FINAL_SHORTLIST"
    by code_simp
  then obtain db' where run: "finalDecision default_sod ?inp (medically_reviewed ''doctor'') =
      (db', Officer_APPLIED MEDICAL_REVIEW FINAL_SHORTLIST)" by (metis surjective_pairing)
  from final_decision_separates_duties [OF this] have "status_of db' RDF ''app'' = Some FINAL_SHORTLIST"
    by (simp add: default_sod_def rdf_officer_def)
  then show ?thesis by (simp only: run fst_conv)
qed

definition pass_time :: "instant \<Rightarrow> 'ev database \<Rightarrow> 'ev database" where
  "pass_time ms db = db\<lparr>db_now := db_now db + ms\<rparr>"

text \<open>
  The medical reviewer is refused the final decision, but not after a later hold was
  cleared by another officer: the rule reads only the newest entry into medical review.
\<close>

theorem reviewer_decides_after_a_cleared_hold:
  "let doctor = rdf_officer ''doctor'';
       db1 = fst (medicalReview \<lparr>mr_actor = doctor, mr_applicationId = ''app'', mr_mode = BOARD FIT\<rparr>
                    (one_app (sample_row PHYSICAL_TEST_COMPLETE)));
       db2 = fst (applyForensicsRouting
                    \<lparr>fr_applicationId = ''app'', fr_agency = RDF, fr_lane = AMBER, fr_documentId = ''d'', fr_correlationId = ''c''\<rparr>
                    (pass_time 1 db1));
       db3 = fst (adjudicate default_options
                    \<lparr>aj_actor = rdf_officer ''adjudicator'', aj_applicationId = ''app'', aj_decision = CLEAR,
                     aj_lane = None, aj_notes = None\<rparr> (pass_time 1 db2));
       decision = \<lparr>fd_actor = doctor, fd_applicationId = ''app'', fd_decision = SHORTLIST, fd_notes = None\<rparr>
   in snd (finalDecision default_sod decision db1) =
        Officer_SEPARATION_OF_DUTIES FINAL_DECISION_EXCLUDES_MEDICAL_REVIEWER \<and>
      snd (finalDecision default_sod decision (pass_time 1 db3)) = Officer_APPLIED MEDICAL_REVIEW FINAL_SHORTLIST"
  by code_simp

text \<open>
  After an officer cleared the hold a hard-fail verdict caused, the redelivery of the same
  verdict puts the row back on hold.
\<close>

theorem redelivered_verdict_reopens_a_cleared_hold:
  "let flag = \<lparr>vr_application_id = ''app'', vr_agency = RDF, vr_correlation_id = ''c'',
               vr_verdict = CriminalVerdict FLAGGED_CONVICTION ''NONE'' ''rib''\<rparr>;
       db1 = fst (applyVettingResult default_options None flag (one_app (sample_row SLOT_ASSIGNED)));
       db2 = fst (adjudicate default_options
                    \<lparr>aj_actor = rdf_officer ''adjudicator'', aj_applicationId = ''app'', aj_decision = CLEAR,
                     aj_lane = None, aj_notes = None\<rparr> (pass_time 1 db1));
       db3 = fst (applyVettingResult default_options None flag (pass_time 1 db2))
   in map (\<lambda>db. status_of db RDF ''app'') [db1, db2, db3] =
        [Some ADJUDICATION_REVIEW, Some SLOT_ASSIGNED, Some ADJUDICATION_REVIEW]"
  by code_simp

text \<open>Adjudication\<close>

lemma write_adjudication_row:
  assumes "app_of db (actor_agency (aj_actor inp)) (aj_applicationId inp) = Some r"
  obtains r' where
    "app_of (write_adjudication inp decided (app_status r) target db) (actor_agency (aj_actor inp)) (aj_applicationId inp) = Some r'"
    "app_status r' = target"
    "aj_decision inp = CLEAR \<and> decided \<noteq> LANE_DOCUMENT \<Longrightarrow>
       officerId (aj_actor inp) \<in> set (vetting_hold_resolvers r')"
    "aj_decision inp = CLEAR \<Longrightarrow> decided = LANE_CRIMINAL \<Longrightarrow>
       CRIMINAL \<in> set (vetting_hold_resolved_dimensions r') \<and> app_row.criminal_clearance_status r' = CLEARED"
    "aj_decision inp = CLEAR \<Longrightarrow> decided = LANE_ACADEMIC \<Longrightarrow>
       ACADEMIC \<in> set (vetting_hold_resolved_dimensions r') \<and> academic_status r' = ELIGIBLE"
proof -
  let ?r = "if aj_decision inp = CLEAR \<and> decided \<noteq> LANE_DOCUMENT
    then (record_human_verdict (officerId (aj_actor inp)) decided (db_now db) r)\<lparr>updated_at := db_now db\<rparr> else r"
  let ?r' = "if target \<noteq> app_status r then ?r\<lparr>app_status := target, updated_at := db_now db\<rparr> else ?r"
  have "app_of (write_adjudication inp decided (app_status r) target db) (actor_agency (aj_actor inp)) (aj_applicationId inp) = Some ?r'"
    using assms by (simp add: write_adjudication_def store_simps Let_def)
  then show thesis
    by (rule that)
       (auto simp: record_human_verdict_def stampResolution_def append_once_def split: adjudication_lane.split)
qed

text \<open>An applied CLEAR leaves the dimension of its lane decided by a human.\<close>

lemma cleared_dimension_is_decided:
  assumes "adjudicate opts inp db = (db', Adjudicate_APPLIED ap)" and "aj_decision inp = CLEAR"
    and "aj_lane_decided ap = (if d = CRIMINAL then LANE_CRIMINAL else LANE_ACADEMIC)" and "d \<noteq> AGE"
  obtains r where "app_of db' (actor_agency (aj_actor inp)) (aj_applicationId inp) = Some r"
    "decidedByHuman (vetting_hold_resolved_dimensions r) d"
proof (cases rule: adjudicate_cases [of opts inp db])
  case (refused oc)
  with assms(1) show ?thesis by simp
next
  case (applied r decided target)
  then have row: "app_of db (actor_agency (aj_actor inp)) (aj_applicationId inp) = Some r"
    by (simp add: decidable_adjudication_def Let_def)
  obtain r' where r': "app_of db' (actor_agency (aj_actor inp)) (aj_applicationId inp) = Some r'"
      "decided = LANE_CRIMINAL \<Longrightarrow> CRIMINAL \<in> set (vetting_hold_resolved_dimensions r')"
      "decided = LANE_ACADEMIC \<Longrightarrow> ACADEMIC \<in> set (vetting_hold_resolved_dimensions r')"
    using write_adjudication_row [OF row, of decided target] applied(2) assms(1,2) by (metis Pair_inject)
  have "decided = aj_lane_decided ap" using applied(2) assms(1) by auto
  then have "decidedByHuman (vetting_hold_resolved_dimensions r') d"
    using r'(2,3) assms(3,4) by (cases d) (auto simp: decidedByHuman_def)
  with r'(1) show ?thesis by (rule that)
qed

text \<open>
  The officer who cleared a vetting dimension of an application is refused its acceptance
  when the clearance rule is on.
\<close>

theorem clearance_reviewer_cannot_accept:
  assumes "adjudicate opts inp db = (db', Adjudicate_APPLIED ap)" and "aj_decision inp = CLEAR"
    and "aj_lane_decided ap \<noteq> LANE_DOCUMENT" and "clearanceReviewExcludesAccepter sod"
    and "officerId (ac_actor acc) = officerId (aj_actor inp)" and "actor_agency (ac_actor acc) = actor_agency (aj_actor inp)"
    and "ac_applicationId acc = aj_applicationId inp"
  shows "\<exists>oc. accept sod acc db' = (db', Accept_REFUSED oc)"
proof (cases rule: adjudicate_cases [of opts inp db])
  case (refused oc)
  with assms(1) show ?thesis by simp
next
  case (applied r decided target)
  then have row: "app_of db (actor_agency (aj_actor inp)) (aj_applicationId inp) = Some r"
    by (simp add: decidable_adjudication_def Let_def)
  have "decided = aj_lane_decided ap" using applied(2) assms(1) by auto
  then obtain r' where r': "app_of db' (actor_agency (aj_actor inp)) (aj_applicationId inp) = Some r'"
      "officerId (aj_actor inp) \<in> set (vetting_hold_resolvers r')"
    using write_adjudication_row [OF row, of decided target] applied(2) assms(1-3) by (metis Pair_inject)
  show ?thesis
  proof (cases rule: accept_cases [of sod acc db'])
    case (accepted q ident)
    with r' assms(4-7) show ?thesis by (simp add: acceptable_def)
  qed blast
qed

definition under_review_row :: app_row where
  "under_review_row = (sample_row FINAL_SHORTLIST)\<lparr>app_row.criminal_clearance_status := UNDER_REVIEW\<rparr>"

definition clear_criminal :: "uuid \<Rightarrow> adjudicate_input" where
  "clear_criminal who =
     \<lparr>aj_actor = rdf_officer who, aj_applicationId = ''app'', aj_decision = CLEAR, aj_lane = Some LANE_CRIMINAL, aj_notes = None\<rparr>"

lemma clear_criminal_runs:
  obtains db' ap where "adjudicate default_options (clear_criminal who) (one_app under_review_row) = (db', Adjudicate_APPLIED ap)"
    "aj_lane_decided ap = LANE_CRIMINAL"
proof -
  have "LANE_CRIMINAL \<in> set (adjudicationLanes (hold_of under_review_row))"
    by code_simp
  then show thesis using that
    by (simp add: adjudicate_def clear_criminal_def rdf_officer_def adjudication_target_def Let_def)
qed

theorem clearance_reviewer_cannot_accept_witness:
  "\<exists>oc. snd (accept default_sod \<lparr>ac_actor = rdf_officer ''o1'', ac_applicationId = ''app''\<rparr>
     (fst (adjudicate default_options (clear_criminal ''o1'') (one_app under_review_row)))) = Accept_REFUSED oc"
proof -
  obtain db' ap where run: "adjudicate default_options (clear_criminal ''o1'') (one_app under_review_row) =
      (db', Adjudicate_APPLIED ap)" "aj_lane_decided ap = LANE_CRIMINAL" by (rule clear_criminal_runs)
  have "\<exists>oc. accept default_sod \<lparr>ac_actor = rdf_officer ''o1'', ac_applicationId = ''app''\<rparr> db' = (db', Accept_REFUSED oc)"
    by (rule clearance_reviewer_cannot_accept [OF run(1)])
       (simp_all add: run clear_criminal_def rdf_officer_def default_sod_def)
  then show ?thesis by (auto simp only: run(1) fst_conv snd_conv)
qed

end
