(* ===== verification/Filing.thy ===== *)
theory Filing
  imports Officer
begin

text \<open>
  How an application comes into being: the insert primitives shared by both front doors
  (\<open>adapters/application-insert.ts\<close>), the direct \<open>createApplication\<close>, the idempotent submission
  ledger (\<open>adapters/submission-ledger.pg-repository.ts\<close>) and the officer's walk-in registration
  (\<open>adapters/walk-in.pg-repository.ts\<close>).

  The unique indexes and foreign keys of the \<open>applications\<close> tables are part of the insert: a row
  that violates one is refused and the transaction rolls back, except for the sequence, which
  never does. Identifiers the database or \<open>randomUUID\<close> would draw are arguments.
\<close>

subsection \<open>Insert primitives\<close>

record front_door_row =
  fd_agency :: agency
  fd_applicantId :: uuid
  fd_campaignId :: uuid
  fd_category :: application_category
  fd_nesaIndexNumber :: "string option"
  fd_hecRegistrationNumber :: "string option"
  fd_policyVersionId :: "uuid option"
  fd_evaluationDate :: "string option"

datatype insert_failure = CampaignUnavailable | LiveIntentViolation | PersistenceFault

definition codePrefix :: "agency \<Rightarrow> string" where
  "codePrefix a = (case a of RDF \<Rightarrow> ''RDF'' | RNP \<Rightarrow> ''RNP'' | RCS \<Rightarrow> ''RCS'')"

definition format_processing_code :: "agency \<Rightarrow> nat \<Rightarrow> string" where
  "format_processing_code a n = codePrefix a @ ''-'' @ lpad (decimal n) 5 CHR ''0''"

text \<open>\<open>nextval\<close>: the sequence moves on whether or not the transaction commits.\<close>

definition next_sequence :: "agency \<Rightarrow> 'ev database \<Rightarrow> 'ev database" where
  "next_sequence a db = update_schema a (\<lambda>s. s\<lparr>processing_code_seq := Suc (processing_code_seq s)\<rparr>) db"

definition mintProcessingCode :: "agency \<Rightarrow> 'ev database \<Rightarrow> 'ev database \<times> string" where
  "mintProcessingCode a db =
     (next_sequence a db, format_processing_code a (Suc (processing_code_seq (schema_of db a))))"

definition lockCampaignForApplicationInsert ::
  "agency \<Rightarrow> uuid \<Rightarrow> campaign_status list \<Rightarrow> 'ev database \<Rightarrow> bool" where
  "lockCampaignForApplicationInsert a campaign allowedStatuses db =
     (case recruitment_campaigns db campaign of
        None \<Rightarrow> False
      | Some c \<Rightarrow> campaign_agency c = a \<and> campaign_status c \<in> set allowedStatuses)"

definition live_intent :: "uuid \<Rightarrow> uuid \<Rightarrow> application_category \<Rightarrow> app_row \<Rightarrow> bool" where
  "live_intent applicant campaign cat r \<longleftrightarrow>
     applicant_id r = applicant \<and> campaign_id r = campaign \<and> category r = cat \<and> app_status r \<noteq> WITHDRAWN"

definition findLiveApplication ::
  "agency \<Rightarrow> uuid \<Rightarrow> uuid \<Rightarrow> application_category \<Rightarrow> 'ev database \<Rightarrow> (uuid \<times> string) option" where
  "findLiveApplication a applicant campaign cat db =
     (case select_apps (\<lambda>_. live_intent applicant campaign cat) db a of
        [] \<Rightarrow> None
      | (i, r) # _ \<Rightarrow> Some (i, processing_code r))"

text \<open>
  The engine's INSERT: the category belongs to the schema's enum type, the applicant exists, and
  no primary key, unique column or live-intent index is violated.
\<close>

definition insert_application ::
  "agency \<Rightarrow> uuid \<Rightarrow> app_row \<Rightarrow> 'ev database \<Rightarrow> insert_failure + 'ev database" where
  "insert_application a i r db =
     (if agencyForCategory (category r) \<noteq> Some a \<or> applicant_identities db (applicant_id r) = None \<or>
         app_of db a i \<noteq> None \<or> code_taken db a i (processing_code r) \<or>
         (case qr_invitation_code r of None \<Rightarrow> False | Some q \<Rightarrow> qr_taken db a i q)
      then Inl PersistenceFault
      else if app_status r \<noteq> WITHDRAWN \<and>
              select_apps (\<lambda>_. live_intent (applicant_id r) (campaign_id r) (category r)) db a \<noteq> []
      then Inl LiveIntentViolation
      else Inr (insert_app a i r db))"

text \<open>
  \<open>insertSubmittedApplication\<close>, with explicit identifiers or with a drawn id and a code minted
  inline. On failure the database returned is the one after the rollback.
\<close>

definition submitted_row :: "front_door_row \<Rightarrow> string \<Rightarrow> instant \<Rightarrow> app_row" where
  "submitted_row inp code now =
     (opening_row code (fd_applicantId inp) (fd_campaignId inp) (fd_category inp) SUBMITTED now)
       \<lparr>nesa_index_number := fd_nesaIndexNumber inp, hec_registration_number := fd_hecRegistrationNumber inp,
        policy_version_id := fd_policyVersionId inp, evaluation_date := fd_evaluationDate inp\<rparr>"

definition insertSubmittedApplication ::
  "front_door_row \<Rightarrow> (uuid \<times> string) option \<Rightarrow> uuid \<Rightarrow> 'ev database \<Rightarrow>
   'ev database \<times> (insert_failure + uuid \<times> string)" where
  "insertSubmittedApplication inp identifiers drawn db =
     (let a = fd_agency inp in
      if \<not> lockCampaignForApplicationInsert a (fd_campaignId inp) [REGISTRATION_OPEN] db
      then (db, Inl CampaignUnavailable)
      else
        let (db1, i, code) = (case identifiers of
                Some (i, code) \<Rightarrow> (db, i, code)
              | None \<Rightarrow> (let (d, c) = mintProcessingCode a db in (d, drawn, c)))
        in (case insert_application a i (submitted_row inp code (db_now db)) db1 of
              Inl e \<Rightarrow> (db1, Inl e)
            | Inr db2 \<Rightarrow> (db2, Inr (i, code))))"

definition insertOpeningHistory :: "agency \<Rightarrow> uuid \<Rightarrow> string \<Rightarrow> 'ev database \<Rightarrow> 'ev database" where
  "insertOpeningHistory a i corr db =
     insert_history a i None SUBMITTED ''Application submitted via front door'' ''SYSTEM'' corr db"

subsection \<open>The direct write\<close>

datatype create_outcome = Created uuid string | Create_UNAVAILABLE | Create_FAILED

definition createApplication ::
  "uuid \<Rightarrow> (uuid \<times> string \<Rightarrow> 'ev list) option \<Rightarrow> front_door_row \<Rightarrow> string \<Rightarrow>
   'ev database \<Rightarrow> 'ev database \<times> create_outcome" where
  "createApplication drawn stage inp corr db =
     (case insertSubmittedApplication inp None drawn db of
        (db1, Inl CampaignUnavailable) \<Rightarrow> (db1, Create_UNAVAILABLE)
      | (db1, Inl _) \<Rightarrow> (db1, Create_FAILED)
      | (db1, Inr (i, code)) \<Rightarrow>
          (let db2 = insertOpeningHistory (fd_agency inp) i corr db1
           in (case stage of None \<Rightarrow> db2 | Some st \<Rightarrow> stage_events (st (i, code)) db2, Created i code)))"

definition opening_edge :: "application_status \<Rightarrow> edge" where
  "opening_edge s f t \<longleftrightarrow> f = None \<and> t = s"

lemma quiet_next_sequence [simp]: "quiet db (next_sequence a db)"
  by (simp add: next_sequence_def quiet_update_schema)

lemma next_sequence_frame [store_simps]:
  "app_of (next_sequence a db) b j = app_of db b j" "trail (next_sequence a db) b j = trail db b j"
  "db_now (next_sequence a db) = db_now db"
  "submission_requests (next_sequence a db) = submission_requests db"
  "applicant_identities (next_sequence a db) = applicant_identities db"
  "recruitment_campaigns (next_sequence a db) = recruitment_campaigns db"
  "event_outbox (next_sequence a db) = event_outbox db"
  by (simp_all add: next_sequence_def app_of_update_schema trail_def history_of_update_schema update_schema_frame)
     (simp_all add: app_of_def history_of_def)

lemma insert_application_InrD:
  assumes "insert_application a i r db = Inr db'"
  shows "db' = insert_app a i r db" and "app_of db a i = None"
    and "app_status r \<noteq> WITHDRAWN \<Longrightarrow>
         select_apps (\<lambda>_. live_intent (applicant_id r) (campaign_id r) (category r)) db a = []"
    and "\<not> code_taken db a i (processing_code r)" and "agencyForCategory (category r) = Some a"
    and "applicant_identities db (applicant_id r) \<noteq> None"
  using assms by (auto simp: insert_application_def split: if_splits)

text \<open>What an insert that succeeded amounts to.\<close>

lemma insertSubmitted_Inr:
  assumes "insertSubmittedApplication inp ids drawn db = (db', Inr (i, code))"
  obtains db1 where "quiet db db1" "db_now db1 = db_now db" "app_of db1 (fd_agency inp) i = None"
    "db' = insert_app (fd_agency inp) i (submitted_row inp code (db_now db)) db1"
    "insert_application (fd_agency inp) i (submitted_row inp code (db_now db)) db1 = Inr db'"
    "case ids of None \<Rightarrow> db1 = next_sequence (fd_agency inp) db \<and> i = drawn | Some p \<Rightarrow> db1 = db \<and> p = (i, code)"
proof (cases ids)
  case None
  with assms have ins: "insert_application (fd_agency inp) i (submitted_row inp code (db_now db))
      (next_sequence (fd_agency inp) db) = Inr db'" and "i = drawn"
    by (auto simp: insertSubmittedApplication_def Let_def mintProcessingCode_def split: if_splits sum.splits)
  with None insert_application_InrD(1,2) [OF ins] show thesis
    by (intro that [of "next_sequence (fd_agency inp) db"]) (simp_all add: store_simps)
next
  case (Some p)
  with assms have ins: "insert_application (fd_agency inp) i (submitted_row inp code (db_now db)) db = Inr db'"
    and "p = (i, code)"
    by (auto simp: insertSubmittedApplication_def Let_def split: if_splits sum.splits prod.splits)
  with Some insert_application_InrD(1,2) [OF ins] show thesis
    by (intro that [of db]) (simp_all add: quiet_moves quiet_def)
qed

lemma insertSubmitted_Inl:
  "insertSubmittedApplication inp ids drawn db = (db', Inl e) \<Longrightarrow> db' = db \<or> db' = next_sequence (fd_agency inp) db"
  by (auto simp: insertSubmittedApplication_def Let_def mintProcessingCode_def
      split: if_splits sum.splits option.splits prod.splits)

lemma submitted_row_simps [simp]:
  "app_status (submitted_row inp code now) = SUBMITTED" "processing_code (submitted_row inp code now) = code"
  "applicant_id (submitted_row inp code now) = fd_applicantId inp"
  "campaign_id (submitted_row inp code now) = fd_campaignId inp"
  "category (submitted_row inp code now) = fd_category inp"
  by (simp_all add: submitted_row_def opening_row_def)

lemma submitted_opening_moves:
  assumes "insertSubmittedApplication inp ids drawn db = (db', Inr (i, code))"
  shows "moves (opening_edge SUBMITTED) db (insertOpeningHistory (fd_agency inp) i corr db')"
proof -
  from assms obtain db1 where db1: "quiet db db1" "app_of db1 (fd_agency inp) i = None"
      "db' = insert_app (fd_agency inp) i (submitted_row inp code (db_now db)) db1"
    by (rule insertSubmitted_Inr)
  have "moves (opening_edge SUBMITTED) db1 (insertOpeningHistory (fd_agency inp) i corr db')"
    unfolding insertOpeningHistory_def db1(3)
    by (rule moves_opening) (use db1 in \<open>simp_all add: opening_edge_def\<close>)
  with db1(1) show ?thesis by (rule quiet_then_moves)
qed

interpretation create: lifecycle_transaction
  "\<lambda>(drawn, stage, inp, corr). createApplication drawn stage inp corr" "\<lambda>_. opening_edge SUBMITTED"
proof unfold_locales
  have "moves (opening_edge SUBMITTED) db (fst (createApplication drawn stage inp corr db))"
    for drawn stage inp corr and db :: "'a database"
  proof (cases "insertSubmittedApplication inp None drawn db")
    case (Pair db1 res)
    show ?thesis
    proof (cases res)
      case (Inl e)
      with Pair have "db1 = db \<or> db1 = next_sequence (fd_agency inp) db" using insertSubmitted_Inl by blast
      then have "moves (opening_edge SUBMITTED) db db1" by (auto intro: quiet_moves)
      with Pair Inl show ?thesis by (cases e) (simp_all add: createApplication_def)
    next
      case (Inr p)
      with Pair show ?thesis
        using submitted_opening_moves [of inp None drawn db db1 "fst p" "snd p" corr]
        by (cases p) (simp add: createApplication_def Let_def split: option.split)
    qed
  qed
  then show "moves (opening_edge SUBMITTED) db
      (fst ((case p of (drawn, stage, inp, corr) \<Rightarrow> createApplication drawn stage inp corr) db))"
    for p and db :: "'a database" by (cases p) simp
qed

subsection \<open>The idempotent submission ledger\<close>

text \<open>
  \<open>RecordSubmissionInput\<close> is the row the front door sets plus the request's identity. Every
  statement runs at READ COMMITTED: \<open>env k\<close> is what other sessions commit before the \<open>k\<close>-th
  statement of this one, so the model covers every interleaving; \<open>env = (\<lambda>_ d. d)\<close> is the
  undisturbed run.
\<close>

record submission_input =
  si_row :: front_door_row
  si_idempotencyKey :: string
  si_requestHash :: string
  si_correlationId :: string

datatype record_outcome =
    RECORDED uuid string
  | REPLAYED uuid string instant
  | KEY_REUSED
  | ALREADY_APPLIED uuid string
  | NO_OPEN_CAMPAIGN
  | Record_FAILED  \<comment> \<open>the thrown \<open>ApplicationPersistenceError\<close>\<close>

definition ledgerEntry :: "'ev database \<Rightarrow> uuid \<Rightarrow> string \<Rightarrow> ledger_row option" where
  "ledgerEntry db applicant key = map_of (submission_requests db) (applicant, key)"

definition replayOrRefuse :: "ledger_row \<Rightarrow> string \<Rightarrow> record_outcome" where
  "replayOrRefuse entry hash =
     (if request_hash entry \<noteq> hash then KEY_REUSED
      else REPLAYED (ledger_application_id entry) (ledger_processing_code entry) (created_at entry))"

definition resolveKey :: "uuid \<Rightarrow> string \<Rightarrow> string \<Rightarrow> 'ev database \<Rightarrow> record_outcome option" where
  "resolveKey applicant key hash db =
     (case ledgerEntry db applicant key of
        None \<Rightarrow> None
      | Some known \<Rightarrow>
          (case replayOrRefuse known hash of
             REPLAYED i code firstSeen \<Rightarrow> Some (REPLAYED i code firstSeen)
           | _ \<Rightarrow> Some KEY_REUSED))"

definition resolveLiveDuplicate :: "submission_input \<Rightarrow> 'ev database \<Rightarrow> record_outcome" where
  "resolveLiveDuplicate inp db =
     (let r = si_row inp in
      case findLiveApplication (fd_agency r) (fd_applicantId r) (fd_campaignId r) (fd_category r) db of
        None \<Rightarrow> Record_FAILED
      | Some (i, code) \<Rightarrow> ALREADY_APPLIED i code)"

definition claim_row :: "submission_input \<Rightarrow> uuid \<Rightarrow> string \<Rightarrow> instant \<Rightarrow> ledger_row" where
  "claim_row inp i code now =
     \<lparr>request_hash = si_requestHash inp, ledger_agency = fd_agency (si_row inp),
      ledger_application_id = i, ledger_processing_code = code, created_at = now\<rparr>"

definition claim_key :: "submission_input \<Rightarrow> uuid \<Rightarrow> string \<Rightarrow> 'ev database \<Rightarrow> 'ev database" where
  "claim_key inp i code db =
     db\<lparr>submission_requests :=
          ((fd_applicantId (si_row inp), si_idempotencyKey inp), claim_row inp i code (db_now db))
          # submission_requests db\<rparr>"

text \<open>Steps 4 and 5, under the claimed key; \<open>base\<close> is what a rollback leaves.\<close>

definition file_under_claim ::
  "submission_input \<Rightarrow> uuid \<Rightarrow> string \<Rightarrow> (uuid \<times> string \<Rightarrow> 'ev list) \<Rightarrow>
   ('ev database \<Rightarrow> 'ev database) \<Rightarrow> 'ev database \<Rightarrow> 'ev database \<times> record_outcome" where
  "file_under_claim inp i code stage later base =
     (let row = si_row inp in
      if list_ex (\<lambda>(_, e). ledger_application_id e = i) (submission_requests base) then (base, Record_FAILED)
      else
        case insertSubmittedApplication row (Some (i, code)) i (claim_key inp i code base) of
          (_, Inl CampaignUnavailable) \<Rightarrow> (base, NO_OPEN_CAMPAIGN)
        | (_, Inl LiveIntentViolation) \<Rightarrow> (later base, resolveLiveDuplicate inp (later base))
        | (_, Inl PersistenceFault) \<Rightarrow> (base, Record_FAILED)
        | (db1, Inr _) \<Rightarrow>
            (stage_events (stage (i, code)) (insertOpeningHistory (fd_agency row) i (si_correlationId inp) db1),
             RECORDED i code))"

definition recordSubmission ::
  "(nat \<Rightarrow> 'ev database \<Rightarrow> 'ev database) \<Rightarrow> uuid \<Rightarrow> (uuid \<times> string \<Rightarrow> 'ev list) \<Rightarrow> submission_input \<Rightarrow>
   'ev database \<Rightarrow> 'ev database \<times> record_outcome" where
  "recordSubmission env drawn stage inp db =
     (let row = si_row inp; a = fd_agency row; applicant = fd_applicantId row;
          key = si_idempotencyKey inp; hash = si_requestHash inp; db1 = env 1 db in
      case ledgerEntry db1 applicant key of
        Some known \<Rightarrow> (db1, replayOrRefuse known hash)
      | None \<Rightarrow>
          let db2 = env 2 db1 in
          case findLiveApplication a applicant (fd_campaignId row) (fd_category row) db2 of
            Some (liveId, liveCode) \<Rightarrow>
              (let db3 = env 3 db2 in
               case ledgerEntry db3 applicant key of
                 Some raced \<Rightarrow> (db3, replayOrRefuse raced hash)
               | None \<Rightarrow> (db3, ALREADY_APPLIED liveId liveCode))
          | None \<Rightarrow>
              let (db3, code) = mintProcessingCode a (env 3 db2); db4 = env 4 db3 in
              case ledgerEntry db4 applicant key of
                Some _ \<Rightarrow>
                  (let db5 = env 5 db4 in
                   case ledgerEntry db5 applicant key of
                     None \<Rightarrow> (db5, Record_FAILED)
                   | Some winner \<Rightarrow> (db5, replayOrRefuse winner hash))
              | None \<Rightarrow> file_under_claim inp drawn code stage (env 6) (env 5 db4))"

abbreviation undisturbed :: "nat \<Rightarrow> 'ev database \<Rightarrow> 'ev database" where
  "undisturbed \<equiv> \<lambda>_ db. db"

lemma quiet_refl [simp]: "quiet db db"
  by (simp add: quiet_def)

lemma quiet_trans: "quiet a b \<Longrightarrow> quiet b c \<Longrightarrow> quiet a c"
  unfolding quiet_def by (rule moves_trans)

lemma quiet_claim_key [simp]: "quiet db (claim_key inp i code db)"
  by (simp add: claim_key_def)

lemma claim_key_frame [store_simps]:
  "app_of (claim_key inp i code db) b j = app_of db b j" "db_now (claim_key inp i code db) = db_now db"
  "trail (claim_key inp i code db) b j = trail db b j"
  by (simp_all add: claim_key_def public_core_frame)

text \<open>How filing under a claim ends.\<close>

lemma file_under_claim_cases:
  obtains
    (refused) oc where "file_under_claim inp i code stage later base = (base, oc)"
      "oc \<in> {NO_OPEN_CAMPAIGN, Record_FAILED}"
  | (duplicate) "file_under_claim inp i code stage later base =
      (later base, resolveLiveDuplicate inp (later base))"
  | (filed) db1 where
      "insertSubmittedApplication (si_row inp) (Some (i, code)) i (claim_key inp i code base) = (db1, Inr (i, code))"
      "file_under_claim inp i code stage later base =
         (stage_events (stage (i, code))
            (insertOpeningHistory (fd_agency (si_row inp)) i (si_correlationId inp) db1), RECORDED i code)"
proof (cases "list_ex (\<lambda>(_, e). ledger_application_id e = i) (submission_requests base)")
  case True
  then show thesis by (intro refused [of Record_FAILED]) (simp_all add: file_under_claim_def Let_def)
next
  case fresh: False
  obtain db1 res where ins:
      "insertSubmittedApplication (si_row inp) (Some (i, code)) i (claim_key inp i code base) = (db1, res)"
    by fastforce
  show thesis
  proof (cases res)
    case (Inl e)
    then show thesis
    proof (cases e)
      case CampaignUnavailable
      with Inl ins fresh show thesis
        by (intro refused [of NO_OPEN_CAMPAIGN]) (simp_all add: file_under_claim_def Let_def)
    next
      case LiveIntentViolation
      with Inl ins fresh show thesis by (intro duplicate) (simp add: file_under_claim_def Let_def)
    next
      case PersistenceFault
      with Inl ins fresh show thesis
        by (intro refused [of Record_FAILED]) (simp_all add: file_under_claim_def Let_def)
    qed
  next
    case (Inr p)
    with ins have "p = (i, code)"
      using insertSubmitted_Inr [of "si_row inp" "Some (i, code)" i _ db1 "fst p" "snd p"] by auto
    with ins Inr fresh show thesis
      by (intro filed) (simp_all add: file_under_claim_def Let_def)
  qed
qed

lemma file_under_claim_moves:
  assumes "quiet base (later base)"
  shows "moves (opening_edge SUBMITTED) base (fst (file_under_claim inp i code stage later base))"
proof (cases rule: file_under_claim_cases [of inp i code stage later base])
  case (filed db1)
  then have "moves (opening_edge SUBMITTED) (claim_key inp i code base)
      (insertOpeningHistory (fd_agency (si_row inp)) i (si_correlationId inp) db1)"
    using submitted_opening_moves by blast
  with filed show ?thesis using quiet_then_moves [OF quiet_claim_key] by fastforce
qed (use assms in \<open>auto intro: quiet_moves\<close>)

interpretation ledger: lifecycle_transaction
  "\<lambda>(drawn, stage, inp). recordSubmission undisturbed drawn stage inp" "\<lambda>_. opening_edge SUBMITTED"
proof unfold_locales
  have "moves (opening_edge SUBMITTED) db (fst (recordSubmission undisturbed drawn stage inp db))"
    for drawn stage inp and db :: "'a database"
  proof -
    have "moves (opening_edge SUBMITTED) db
        (fst (file_under_claim inp drawn code stage (\<lambda>d. d) (next_sequence (fd_agency (si_row inp)) db)))" for code
      by (rule quiet_then_moves [OF quiet_next_sequence file_under_claim_moves]) simp
    then show ?thesis
      by (auto simp: recordSubmission_def mintProcessingCode_def Let_def store_simps ledgerEntry_def
          split: option.split intro: quiet_moves)
  qed
  then show "moves (opening_edge SUBMITTED) db
      (fst ((case p of (drawn, stage, inp) \<Rightarrow> recordSubmission undisturbed drawn stage inp) db))"
    for p and db :: "'a database" by (cases p) simp
qed

text \<open>Minting a code and claiming a key move no application.\<close>

interpretation minting: quiet_transaction mintProcessingCode
  by unfold_locales (simp add: mintProcessingCode_def)

interpretation claiming: quiet_transaction "\<lambda>(inp, i, code) db. (claim_key inp i code db, ())"
  by unfold_locales (simp split: prod.split)

subsection \<open>Walk-in registration and on-site vetting\<close>

record walk_in_input =
  wi_actor :: officer_actor
  wi_applicantId :: uuid
  wi_campaignId :: uuid
  wi_category :: application_category
  wi_nesaIndexNumber :: "string option"
  wi_hecRegistrationNumber :: "string option"
  wi_qrInvitationCode :: string

datatype create_walk_in_outcome =
    REGISTERED uuid string
  | WalkIn_ALREADY_APPLIED uuid string
  | NO_WALK_IN_CAMPAIGN
  | WalkIn_FAILED

definition walk_in_row :: "walk_in_input \<Rightarrow> string \<Rightarrow> instant \<Rightarrow> app_row" where
  "walk_in_row inp code now =
     (opening_row code (wi_applicantId inp) (wi_campaignId inp) (wi_category inp) WALK_IN_REGISTERED now)
       \<lparr>is_walk_in := True, qr_invitation_code := Some (wi_qrInvitationCode inp),
        qr_invitation_issued_at := Some now, nesa_index_number := wi_nesaIndexNumber inp,
        hec_registration_number := wi_hecRegistrationNumber inp\<rparr>"

text \<open>
  The walk-in columns and statuses exist in \<open>rdf_ops\<close> only; on another schema the INSERT is an
  SQL error. \<open>later\<close> is what other sessions commit before the fresh transaction that names the
  duplicate.
\<close>

definition createWalkInApplication ::
  "('ev database \<Rightarrow> 'ev database) \<Rightarrow> uuid \<Rightarrow> (uuid \<times> string \<Rightarrow> 'ev list) \<Rightarrow> walk_in_input \<Rightarrow>
   'ev database \<Rightarrow> 'ev database \<times> create_walk_in_outcome" where
  "createWalkInApplication later drawn stage inp db =
     (let actor = wi_actor inp; a = actor_agency actor in
      if \<not> lockCampaignForApplicationInsert a (wi_campaignId inp)
             [REGISTRATION_OPEN, REGISTRATION_CLOSED, EXAMINATION_ACTIVE] db
      then (db, NO_WALK_IN_CAMPAIGN)
      else if a \<noteq> RDF then (db, WalkIn_FAILED)
      else
        let (db1, code) = mintProcessingCode a db in
        case insert_application a drawn (walk_in_row inp code (db_now db)) db1 of
          Inl LiveIntentViolation \<Rightarrow>
            (later db1,
             case findLiveApplication a (wi_applicantId inp) (wi_campaignId inp) (wi_category inp) (later db1) of
               None \<Rightarrow> WalkIn_FAILED
             | Some (i, c) \<Rightarrow> WalkIn_ALREADY_APPLIED i c)
        | Inl _ \<Rightarrow> (db1, WalkIn_FAILED)
        | Inr db2 \<Rightarrow>
            (stage_events (stage (drawn, code))
               (insert_history a drawn None WALK_IN_REGISTERED ''Walk-in registered on-site by field officer''
                  (officerId actor) (actor_correlationId actor) db2),
             REGISTERED drawn code))"

lemma walk_in_row_simps [simp]:
  "app_status (walk_in_row inp code now) = WALK_IN_REGISTERED"
  "processing_code (walk_in_row inp code now) = code"
  "applicant_id (walk_in_row inp code now) = wi_applicantId inp"
  "campaign_id (walk_in_row inp code now) = wi_campaignId inp"
  "category (walk_in_row inp code now) = wi_category inp"
  "is_walk_in (walk_in_row inp code now) = True"
  by (simp_all add: walk_in_row_def opening_row_def)

interpretation walk_in: lifecycle_transaction
  "\<lambda>(drawn, stage, inp). createWalkInApplication (\<lambda>d. d) drawn stage inp"
  "\<lambda>_. opening_edge WALK_IN_REGISTERED"
proof unfold_locales
  have "moves (opening_edge WALK_IN_REGISTERED) db (fst (createWalkInApplication (\<lambda>d. d) drawn stage inp db))"
    for drawn stage inp and db :: "'a database"
  proof (cases "insert_application RDF drawn
      (walk_in_row inp (snd (mintProcessingCode RDF db)) (db_now db)) (next_sequence RDF db)")
    case (Inl e)
    then show ?thesis
      by (cases e) (auto simp: createWalkInApplication_def mintProcessingCode_def Let_def intro: quiet_moves)
  next
    case (Inr db2)
    have "moves (opening_edge WALK_IN_REGISTERED) (next_sequence RDF db)
        (insert_history RDF drawn None WALK_IN_REGISTERED reason who corr db2)" for reason who corr
      unfolding insert_application_InrD(1) [OF Inr]
      by (rule moves_opening) (use insert_application_InrD(2) [OF Inr] in \<open>simp_all add: opening_edge_def\<close>)
    with Inr show ?thesis
      by (auto simp: createWalkInApplication_def mintProcessingCode_def Let_def
          intro: quiet_then_moves [OF quiet_next_sequence])
  qed
  then show "moves (opening_edge WALK_IN_REGISTERED) db
      (fst ((case p of (drawn, stage, inp) \<Rightarrow> createWalkInApplication (\<lambda>d. d) drawn stage inp) db))"
    for p and db :: "'a database" by (cases p) simp
qed

record vet_on_site_input =
  vs_actor :: officer_actor
  vs_applicationId :: uuid

datatype vet_on_site_outcome =
    Vet_APPLIED application_status application_status eligibility_status
  | Vet_NO_CHANGE application_status
  | Vet_NOT_APPLICABLE application_status
  | Vet_AGE_PENDING application_status
  | Vet_NOT_FOUND

definition age_name :: "eligibility_status \<Rightarrow> string" where
  "age_name s = (case s of PENDING \<Rightarrow> ''PENDING'' | ELIGIBLE \<Rightarrow> ''ELIGIBLE'' | INELIGIBLE \<Rightarrow> ''INELIGIBLE'')"

definition vetOnSite ::
  "(vet_on_site_outcome \<Rightarrow> 'ev list) \<Rightarrow> vet_on_site_input \<Rightarrow> 'ev database \<Rightarrow> 'ev database \<times> vet_on_site_outcome" where
  "vetOnSite stage inp db =
     (let actor = vs_actor inp; a = actor_agency actor; i = vs_applicationId inp in
      case app_of db a i of
        None \<Rightarrow> (db, Vet_NOT_FOUND)
      | Some current \<Rightarrow>
          if app_status current = WALK_IN_ON_SITE_VETTING \<or> app_status current = WALK_IN_REJECTED
          then (db, Vet_NO_CHANGE (app_status current))
          else if app_status current \<noteq> WALK_IN_REGISTERED then (db, Vet_NOT_APPLICABLE (app_status current))
          else
            let age = age_eligibility_status current in
            if age = PENDING then (db, Vet_AGE_PENDING (app_status current))
            else
              let target = (if age = ELIGIBLE then WALK_IN_ON_SITE_VETTING else WALK_IN_REJECTED);
                  applied = Vet_APPLIED WALK_IN_REGISTERED target age
              in
              (stage_events (stage applied)
                 (insert_history a i (Some WALK_IN_REGISTERED) target (''On-site vetting: age '' @ age_name age)
                    (officerId actor) (actor_correlationId actor)
                    (update_app a i (\<lambda>r. r\<lparr>app_status := target\<rparr>) db)),
               applied))"

definition vet_edge :: edge where
  "vet_edge f t \<longleftrightarrow> f = Some WALK_IN_REGISTERED \<and> t \<in> {WALK_IN_ON_SITE_VETTING, WALK_IN_REJECTED}"

interpretation vet: single_row_transaction
  "\<lambda>(stage, inp). vetOnSite stage inp" "\<lambda>_. vet_edge"
  "\<lambda>(stage, inp). actor_agency (vs_actor inp)" "\<lambda>(stage, inp). vs_applicationId inp"
proof unfold_locales
  have "moves vet_edge db (fst (vetOnSite stage inp db))" for stage inp and db :: "'a database"
    by (auto simp: vetOnSite_def Let_def vet_edge_def same_key_def split: option.split intro!: step_rules)
  then show "moves vet_edge db (fst ((case p of (stage, inp) \<Rightarrow> vetOnSite stage inp) db))"
    for p and db :: "'a database" by (cases p) simp
  have "local_to (actor_agency (vs_actor inp)) (vs_applicationId inp) db (fst (vetOnSite stage inp db))"
    for stage inp and db :: "'a database"
    by (simp add: vetOnSite_def Let_def split: option.split)
  then show "local_to (case p of (stage, inp) \<Rightarrow> actor_agency (vs_actor inp))
      (case p of (stage, inp) \<Rightarrow> vs_applicationId inp) db
      (fst ((case p of (stage, inp) \<Rightarrow> vetOnSite stage inp) db))"
    for p and db :: "'a database" by (cases p) simp
qed

interpretation vet_routine: routine_transaction "\<lambda>(stage, inp). vetOnSite stage inp" "\<lambda>_. vet_edge"
  by unfold_locales
     (auto simp: vet_edge_def routine_edge_def plain_edge_def vetOnSite_def Let_def split: option.split)

subsection \<open>Filings happen once\<close>

text \<open>What a filing that was recorded amounts to: a claimed key, a row, its opening history, its events.\<close>

definition filed_db ::
  "submission_input \<Rightarrow> uuid \<Rightarrow> string \<Rightarrow> (uuid \<times> string \<Rightarrow> 'ev list) \<Rightarrow> 'ev database \<Rightarrow> 'ev database" where
  "filed_db inp i code stage base =
     (let a = fd_agency (si_row inp) in
      stage_events (stage (i, code)) (insertOpeningHistory a i (si_correlationId inp)
        (insert_app a i (submitted_row (si_row inp) code (db_now base)) (claim_key inp i code base))))"

lemma file_under_claim_recorded:
  assumes "file_under_claim inp drawn minted stage later base = (db', RECORDED i code)"
  shows "i = drawn \<and> code = minted \<and> db' = filed_db inp i code stage base \<and>
    lockCampaignForApplicationInsert (fd_agency (si_row inp)) (fd_campaignId (si_row inp)) [REGISTRATION_OPEN] base \<and>
    agencyForCategory (fd_category (si_row inp)) = Some (fd_agency (si_row inp))"
proof (cases rule: file_under_claim_cases [of inp drawn minted stage later base])
  case (refused oc)
  with assms show ?thesis by auto
next
  case duplicate
  with assms show ?thesis by (auto simp: resolveLiveDuplicate_def Let_def split: option.splits)
next
  case (filed db1)
  let ?a = "fd_agency (si_row inp)" and ?claimed = "claim_key inp drawn minted base"
  from filed(1) have lock: "lockCampaignForApplicationInsert ?a (fd_campaignId (si_row inp)) [REGISTRATION_OPEN] ?claimed"
    by (auto simp: insertSubmittedApplication_def Let_def split: if_splits)
  from filed(1) have ok: "insert_application ?a drawn (submitted_row (si_row inp) minted (db_now base)) ?claimed = Inr db1"
    by (rule insertSubmitted_Inr) (simp add: store_simps)
  have "i = drawn" "code = minted" using filed(2) assms by auto
  with filed(2) assms lock insert_application_InrD(1,5) [OF ok] show ?thesis
    by (simp add: filed_db_def Let_def lockCampaignForApplicationInsert_def) (simp add: claim_key_def)
qed

lemma recorded_run:
  assumes "recordSubmission env drawn stage inp db = (db', RECORDED i code)"
  obtains base where "db' = filed_db inp i code stage base"
    "lockCampaignForApplicationInsert (fd_agency (si_row inp)) (fd_campaignId (si_row inp)) [REGISTRATION_OPEN] base"
    "agencyForCategory (fd_category (si_row inp)) = Some (fd_agency (si_row inp))"
proof -
  have "\<exists>minted later base. file_under_claim inp drawn minted stage later base = (db', RECORDED i code)"
    using assms
    by (auto simp: recordSubmission_def mintProcessingCode_def replayOrRefuse_def Let_def
        split: option.splits if_splits)
  then show thesis using file_under_claim_recorded that by metis
qed

lemma filed_db_facts:
  "status_of (filed_db inp i code stage base) (fd_agency (si_row inp)) i = Some SUBMITTED"
  "ledgerEntry (filed_db inp i code stage base) (fd_applicantId (si_row inp)) (si_idempotencyKey inp) =
     Some (claim_row inp i code (db_now base))"
  "recruitment_campaigns (filed_db inp i code stage base) = recruitment_campaigns base"
  "event_outbox (filed_db inp i code stage base) = event_outbox base @ stage (i, code)"
  by (simp_all add: filed_db_def insertOpeningHistory_def status_of_def ledgerEntry_def store_simps Let_def)
     (simp_all add: claim_key_def)

text \<open>
  A RECORDED submission, under any interleaving, means a SUBMITTED row with the announced
  identifiers, the claimed key with the request hash, an open campaign of the right agency, a
  category of that agency, and the announcement staged last in the outbox.
\<close>

theorem recorded_filing:
  assumes "recordSubmission env drawn stage inp db = (db', RECORDED i code)"
  shows "status_of db' (fd_agency (si_row inp)) i = Some SUBMITTED \<and>
    (\<exists>t. ledgerEntry db' (fd_applicantId (si_row inp)) (si_idempotencyKey inp) = Some (claim_row inp i code t)) \<and>
    (\<exists>c. recruitment_campaigns db' (fd_campaignId (si_row inp)) = Some c \<and>
       campaign_agency c = fd_agency (si_row inp) \<and> campaign_status c = REGISTRATION_OPEN) \<and>
    (\<exists>before. event_outbox db' = before @ stage (i, code)) \<and>
    agencyForCategory (fd_category (si_row inp)) = Some (fd_agency (si_row inp))"
proof -
  from assms obtain base where "db' = filed_db inp i code stage base"
    "lockCampaignForApplicationInsert (fd_agency (si_row inp)) (fd_campaignId (si_row inp)) [REGISTRATION_OPEN] base"
    "agencyForCategory (fd_category (si_row inp)) = Some (fd_agency (si_row inp))" by (rule recorded_run)
  then show ?thesis
    by (auto simp: filed_db_facts lockCampaignForApplicationInsert_def split: option.splits)
qed

definition sample_filing :: submission_input where
  "sample_filing =
     \<lparr>si_row = \<lparr>fd_agency = RDF, fd_applicantId = ''citizen'', fd_campaignId = ''campaign'',
               fd_category = GENERAL_ENLISTMENT, fd_nesaIndexNumber = None, fd_hecRegistrationNumber = None,
               fd_policyVersionId = None, fd_evaluationDate = None\<rparr>,
      si_idempotencyKey = ''key'', si_requestHash = ''h'', si_correlationId = ''c''\<rparr>"

lemma sample_filing_recorded:
  "snd (recordSubmission undisturbed ''app'' (\<lambda>_. [''filed'']) sample_filing (sample_db empty_schema)) =
   RECORDED ''app'' ''RDF-00001''"
  by code_simp

theorem recorded_filing_witness:
  "status_of (fst (recordSubmission undisturbed ''app'' (\<lambda>_. [''filed'']) sample_filing (sample_db empty_schema))) RDF ''app'' =
   Some SUBMITTED"
proof -
  obtain db' where run: "recordSubmission undisturbed ''app'' (\<lambda>_. [''filed'']) sample_filing (sample_db empty_schema) =
      (db', RECORDED ''app'' ''RDF-00001'')" using sample_filing_recorded by (metis surjective_pairing)
  from recorded_filing [OF run] have "status_of db' RDF ''app'' = Some SUBMITTED" by (simp add: sample_filing_def)
  then show ?thesis by (simp only: run fst_conv)
qed

text \<open>C18\<close>

definition keeps_ledger :: "('ev database \<Rightarrow> 'ev database) \<Rightarrow> bool" where
  "keeps_ledger f \<longleftrightarrow> (\<forall>d p k e. ledgerEntry d p k = Some e \<longrightarrow> ledgerEntry (f d) p k = Some e)"

text \<open>
  C9: Once a submission was recorded, any later submission of the same citizen under the same
  idempotency key files nothing: with the same request hash it replays the recorded identifiers,
  with another hash it is refused, whatever other sessions commit in between.
\<close>

theorem resubmission_is_answered_from_the_ledger:
  assumes "recordSubmission env drawn stage inp db = (db', RECORDED i code)"
    and "keeps_ledger later" and "keeps_ledger (env2 1)"
    and "fd_applicantId (si_row again) = fd_applicantId (si_row inp)"
    and "si_idempotencyKey again = si_idempotencyKey inp"
  shows "\<exists>first_seen. recordSubmission env2 drawn2 stage2 again (later db') =
    (env2 1 (later db'),
     if si_requestHash again = si_requestHash inp then REPLAYED i code first_seen else KEY_REUSED)"
proof -
  from assms(1) obtain base where "db' = filed_db inp i code stage base" by (rule recorded_run)
  then have "ledgerEntry (env2 1 (later db')) (fd_applicantId (si_row inp)) (si_idempotencyKey inp) =
      Some (claim_row inp i code (db_now base))"
    using assms(2,3) filed_db_facts(2) unfolding keeps_ledger_def by blast
  with assms(4,5) show ?thesis
    by (auto simp: recordSubmission_def replayOrRefuse_def claim_row_def Let_def)
qed

theorem resubmission_is_answered_from_the_ledger_witness:
  "\<exists>t. snd (recordSubmission undisturbed ''app2'' (\<lambda>_. []) sample_filing
     (fst (recordSubmission undisturbed ''app'' (\<lambda>_. [''filed'']) sample_filing (sample_db empty_schema)))) =
   REPLAYED ''app'' ''RDF-00001'' t"
proof -
  obtain db' where run: "recordSubmission undisturbed ''app'' (\<lambda>_. [''filed'']) sample_filing (sample_db empty_schema) =
      (db', RECORDED ''app'' ''RDF-00001'')" using sample_filing_recorded by (metis surjective_pairing)
  have id: "keeps_ledger (\<lambda>d. d)" by (simp add: keeps_ledger_def)
  have "\<exists>t. recordSubmission undisturbed ''app2'' (\<lambda>_. []) sample_filing db' =
      (db', if si_requestHash sample_filing = si_requestHash sample_filing
            then REPLAYED ''app'' ''RDF-00001'' t else KEY_REUSED)"
    by (rule resubmission_is_answered_from_the_ledger [OF run id id refl refl])
  then show ?thesis by (auto simp only: run fst_conv snd_conv if_True simp_thms)
qed

text \<open>
  Below one hundred thousand, different sequence numbers or agencies give different
  processing codes.
\<close>

theorem processing_codes_are_distinct:
  assumes "m < 100000" and "n < 100000"
    and "format_processing_code a m = format_processing_code b n"
  shows "a = b \<and> m = n"
proof -
  have ab: "a = b" using assms(3) by (cases a; cases b) (simp_all add: format_processing_code_def codePrefix_def)
  with assms(3) have "lpad (decimal m) 5 CHR ''0'' = lpad (decimal n) 5 CHR ''0''"
    by (simp add: format_processing_code_def)
  then have "m = n" using assms(1,2) lpad_decimal_inj [of m 5 n] by simp
  with ab show ?thesis by simp
qed

theorem processing_codes_are_distinct_witness:
  "\<exists>m n. m < (100000::nat) \<and> n < 100000 \<and> format_processing_code RDF m = format_processing_code RDF n \<and> m = n"
proof -
  have "RDF = RDF \<and> (7::nat) = 7" by (rule processing_codes_are_distinct [of 7 7]) simp_all
  then show ?thesis by (intro exI [of _ 7]) simp
qed

text \<open>\<open>lpad\<close> cuts the sixth digit off.\<close>

lemma code_100000_repeats_code_10000:
  "format_processing_code a 100000 = format_processing_code a 10000"
  by (simp add: format_processing_code_def decimal.simps lpad_def)

text \<open>
  At sequence number 100000 the code is cut down to that of 10000, so while an application
  carries that code every filing that draws the number fails.
\<close>

theorem filing_fails_at_the_hundred_thousandth_code:
  assumes "processing_code_seq (schema_of db (fd_agency inp)) = 99999"
    and "app_of db (fd_agency inp) j = Some r" and "processing_code r = format_processing_code (fd_agency inp) 10000"
    and "j \<noteq> drawn"
    and "lockCampaignForApplicationInsert (fd_agency inp) (fd_campaignId inp) [REGISTRATION_OPEN] db"
  shows "snd (createApplication drawn stage inp corr db) = Create_FAILED"
proof -
  note code = code_100000_repeats_code_10000 [of "fd_agency inp"]
  have "code_taken (next_sequence (fd_agency inp) db) (fd_agency inp) drawn (format_processing_code (fd_agency inp) 100000)"
    using assms(2-4) unfolding taken_iff code by (auto simp: store_simps)
  then show ?thesis
    using assms(1,5)
    by (simp add: createApplication_def insertSubmittedApplication_def mintProcessingCode_def insert_application_def Let_def)
qed

lemma digit_chars: "digit_char 0 = CHR ''0''" "digit_char (Suc 0) = CHR ''1''"
  by code_simp+

definition worn_out_db :: "string database" where
  "worn_out_db =
     sample_db (empty_schema
       \<lparr>applications := [(''old'', (sample_row REJECTED)\<lparr>processing_code := ''RDF-10000''\<rparr>)],
        processing_code_seq := 99999\<rparr>)"

theorem filing_fails_at_the_hundred_thousandth_code_witness:
  "snd (createApplication ''app'' None (si_row sample_filing) ''c'' worn_out_db) = Create_FAILED"
proof (rule filing_fails_at_the_hundred_thousandth_code)
  show "processing_code_seq (schema_of worn_out_db (fd_agency (si_row sample_filing))) = 99999"
    by (simp add: worn_out_db_def sample_filing_def sample_db_def)
  show "app_of worn_out_db (fd_agency (si_row sample_filing)) ''old'' =
      Some ((sample_row REJECTED)\<lparr>processing_code := ''RDF-10000''\<rparr>)"
    by (simp add: worn_out_db_def sample_filing_def)
  show "processing_code ((sample_row REJECTED)\<lparr>processing_code := ''RDF-10000''\<rparr>) =
      format_processing_code (fd_agency (si_row sample_filing)) 10000"
    by (simp add: sample_filing_def format_processing_code_def codePrefix_def decimal.simps lpad_def digit_chars)
  show "lockCampaignForApplicationInsert (fd_agency (si_row sample_filing)) (fd_campaignId (si_row sample_filing))
      [REGISTRATION_OPEN] worn_out_db"
    by (simp add: worn_out_db_def sample_filing_def sample_db_def lockCampaignForApplicationInsert_def)
qed simp

end
