(* ===== verification/Withdrawals.thy ===== *)
theory Withdrawals
  imports Filing
begin

text \<open>
  The two ways an application is withdrawn: by the citizen
  (\<open>adapters/self-withdrawal.pg-repository.ts\<close>) and as the consequence of an acceptance elsewhere
  (\<open>adapters/withdrawal.pg-repository.ts\<close>, all three schemas in one transaction).
\<close>

definition withdraw_edge :: edge where
  "withdraw_edge f t = (case f of None \<Rightarrow> False | Some s \<Rightarrow> s \<notin> TERMINAL \<and> t = WITHDRAWN)"

subsection \<open>Auto-withdrawal of the siblings of an accepted application\<close>

record withdraw_siblings_input =
  ws_applicantId :: uuid
  ws_acceptedApplicationId :: uuid
  ws_correlationId :: string

record withdrawn_application =
  wa_applicationId :: uuid
  wa_agency :: agency
  wa_fromStatus :: application_status

definition TERMINAL_TEXT :: "application_status list" where
  "TERMINAL_TEXT = [REJECTED, WITHDRAWN, ACCEPTED, WALK_IN_REJECTED]"

definition withdrawable :: "withdraw_siblings_input \<Rightarrow> uuid \<Rightarrow> app_row \<Rightarrow> bool" where
  "withdrawable inp i r \<longleftrightarrow>
     applicant_id r = ws_applicantId inp \<and> i \<noteq> ws_acceptedApplicationId inp \<and>
     app_status r \<notin> set TERMINAL_TEXT"

definition withdraw_row ::
  "string \<Rightarrow> agency \<Rightarrow> 'ev database \<times> withdrawn_application list \<Rightarrow> uuid \<times> app_row \<Rightarrow>
   'ev database \<times> withdrawn_application list" where
  "withdraw_row corr a st row =
     (case st of (db, out) \<Rightarrow> case row of (i, r) \<Rightarrow>
        (insert_history a i (Some (app_status r)) WITHDRAWN
           ''Auto-withdrawn: applicant accepted elsewhere (ADR-017)'' ''SYSTEM'' corr
           (update_app a i (\<lambda>r. r\<lparr>app_status := WITHDRAWN\<rparr>) db),
         out @ [\<lparr>wa_applicationId = i, wa_agency = a, wa_fromStatus = app_status r\<rparr>]))"

definition withdraw_agency ::
  "withdraw_siblings_input \<Rightarrow> 'ev database \<times> withdrawn_application list \<Rightarrow> agency \<Rightarrow>
   'ev database \<times> withdrawn_application list" where
  "withdraw_agency inp st a =
     (let rows = select_apps (withdrawable inp) (fst st) a in foldl (withdraw_row (ws_correlationId inp) a) st rows)"

definition withdrawSiblings ::
  "withdraw_siblings_input \<Rightarrow> 'ev database \<Rightarrow> 'ev database \<times> withdrawn_application list" where
  "withdrawSiblings inp db = foldl (withdraw_agency inp) (db, []) AGENCIES"

subsection \<open>The loop over one schema\<close>

text \<open>Rows read under the lock, each still in the state it was read in.\<close>

definition locked_rows :: "(uuid \<Rightarrow> app_row \<Rightarrow> bool) \<Rightarrow> agency \<Rightarrow> (uuid \<times> app_row) list \<Rightarrow> 'ev database \<Rightarrow> bool" where
  "locked_rows P a rows db \<longleftrightarrow>
     distinct (map fst rows) \<and> (\<forall>i r. (i, r) \<in> set rows \<longrightarrow> app_of db a i = Some r \<and> P i r)"

lemma locked_rows_select: "locked_rows P a (select_apps P db a) db"
  by (simp add: locked_rows_def distinct_select_apps in_select_apps)

lemma withdraw_row_app_of:
  "app_of (fst (withdraw_row corr a (db, out) (i, r))) b j =
     (if a = b \<and> i = j
      then map_option (\<lambda>r. r\<lparr>app_status := WITHDRAWN, updated_at := db_now db\<rparr>) (app_of db a i)
      else app_of db b j)"
  "db_now (fst (withdraw_row corr a (db, out) (i, r))) = db_now db"
  by (simp_all add: withdraw_row_def store_simps)

lemma locked_rows_step:
  assumes "locked_rows P a ((i, r) # rows) db"
  shows "locked_rows P a rows (fst (withdraw_row corr a (db, out) (i, r)))"
  unfolding locked_rows_def
proof (intro conjI allI impI)
  show "distinct (map fst rows)" using assms by (simp add: locked_rows_def)
  fix j q assume in_rows: "(j, q) \<in> set rows"
  with assms have "i \<noteq> j" "app_of db a j = Some q" "P j q"
    by (auto simp: locked_rows_def rev_image_eqI)
  then show "app_of (fst (withdraw_row corr a (db, out) (i, r))) a j = Some q" "P j q"
    by (simp_all add: withdraw_row_app_of)
qed

lemma withdraw_row_moves:
  assumes "app_of db a i = Some r" and "app_status r \<notin> TERMINAL"
  shows "moves withdraw_edge db (fst (withdraw_row corr a (db, out) (i, r)))"
  using assms by (auto simp: withdraw_row_def withdraw_edge_def same_key_def intro!: moves_transition)

lemma withdraw_rows_moves:
  assumes "locked_rows (withdrawable inp) a rows db"
  shows "moves withdraw_edge db (fst (foldl (withdraw_row corr a) (db, out) rows))"
  using assms
proof (induction rows arbitrary: db out)
  case (Cons p rows)
  obtain i r where p: "p = (i, r)" by (cases p)
  obtain db1 out1 where step: "withdraw_row corr a (db, out) (i, r) = (db1, out1)" by fastforce
  from Cons.prems have head: "app_of db a i = Some r" "withdrawable inp i r"
    unfolding p locked_rows_def by (metis list.set_intros(1))+
  then have "moves withdraw_edge db db1"
    using withdraw_row_moves [of db a i r corr out] step
    by (simp add: withdrawable_def TERMINAL_TEXT_def)
  moreover have "locked_rows (withdrawable inp) a rows db1"
    using locked_rows_step [OF Cons.prems [unfolded p], of corr out] step by simp
  then have "moves withdraw_edge db1 (fst (foldl (withdraw_row corr a) (db1, out1) rows))"
    by (rule Cons.IH)
  ultimately show ?case using step by (simp add: p moves_trans)
qed simp

lemma withdraw_rows_app_of:
  assumes "locked_rows P a rows db"
  shows "app_of (fst (foldl (withdraw_row corr a) (db, out) rows)) b j =
    (if b = a \<and> j \<in> fst ` set rows
     then map_option (\<lambda>r. r\<lparr>app_status := WITHDRAWN, updated_at := db_now db\<rparr>) (app_of db a j)
     else app_of db b j)"
  using assms
proof (induction rows arbitrary: db out)
  case (Cons p rows)
  obtain i r where p: "p = (i, r)" by (cases p)
  obtain db1 out1 where step: "withdraw_row corr a (db, out) (i, r) = (db1, out1)" by fastforce
  have "distinct (map fst (p # rows))" using Cons.prems unfolding locked_rows_def by blast
  then have "i \<notin> fst ` set rows" by (simp add: p)
  moreover have "locked_rows P a rows db1"
    using locked_rows_step [OF Cons.prems [unfolded p], of corr out] step by simp
  ultimately show ?case
    using Cons.IH [of db1 out1] step withdraw_row_app_of [of corr a db out i r] by (auto simp: p)
qed simp

lemma withdraw_rows_out:
  "snd (foldl (withdraw_row corr a) (db, out) rows) =
     out @ map (\<lambda>(i, r). \<lparr>wa_applicationId = i, wa_agency = a, wa_fromStatus = app_status r\<rparr>) rows"
  by (induction rows arbitrary: db out) (auto simp: withdraw_row_def)

lemma withdraw_agency_step:
  "moves withdraw_edge db (fst (withdraw_agency inp (db, out) a))"
  "app_of (fst (withdraw_agency inp (db, out) a)) b j =
     (if b = a \<and> (\<exists>r. app_of db a j = Some r \<and> withdrawable inp j r)
      then map_option (\<lambda>r. r\<lparr>app_status := WITHDRAWN, updated_at := db_now db\<rparr>) (app_of db a j)
      else app_of db b j)"
  "db_now (fst (withdraw_agency inp (db, out) a)) = db_now db"
proof -
  let ?rows = "select_apps (withdrawable inp) db a"
  note locked = locked_rows_select [of "withdrawable inp" a db]
  show moved: "moves withdraw_edge db (fst (withdraw_agency inp (db, out) a))"
    using withdraw_rows_moves [OF locked] by (simp add: withdraw_agency_def)
  have "j \<in> fst ` set ?rows \<longleftrightarrow> (\<exists>r. app_of db a j = Some r \<and> withdrawable inp j r)" for j
    using in_select_apps [of j _ "withdrawable inp" db a] by (force simp: image_iff)
  then show "app_of (fst (withdraw_agency inp (db, out) a)) b j =
     (if b = a \<and> (\<exists>r. app_of db a j = Some r \<and> withdrawable inp j r)
      then map_option (\<lambda>r. r\<lparr>app_status := WITHDRAWN, updated_at := db_now db\<rparr>) (app_of db a j)
      else app_of db b j)"
    using withdraw_rows_app_of [OF locked] by (simp add: withdraw_agency_def)
  show "db_now (fst (withdraw_agency inp (db, out) a)) = db_now db"
    using moved by (simp add: moves_def)
qed

text \<open>All three schemas: exactly the withdrawable rows are withdrawn.\<close>

lemma withdrawSiblings_app_of:
  "app_of (fst (withdrawSiblings inp db)) b j =
     (case app_of db b j of
        None \<Rightarrow> None
      | Some r \<Rightarrow> Some (if withdrawable inp j r then r\<lparr>app_status := WITHDRAWN, updated_at := db_now db\<rparr> else r))"
proof -
  obtain db1 o1 where s1: "withdraw_agency inp (db, []) RDF = (db1, o1)" by fastforce
  obtain db2 o2 where s2: "withdraw_agency inp (db1, o1) RNP = (db2, o2)" by fastforce
  have "withdrawSiblings inp db = withdraw_agency inp (db2, o2) RCS"
    by (simp add: withdrawSiblings_def AGENCIES_def s1 s2)
  then show ?thesis
    using withdraw_agency_step(2) [of inp db "[]" RDF b j] withdraw_agency_step(2) [of inp db1 o1 RNP b j]
      withdraw_agency_step(2) [of inp db2 o2 RCS b j] withdraw_agency_step(3) [of inp db "[]" RDF]
      withdraw_agency_step(3) [of inp db1 o1 RNP]
    by (cases b) (auto simp: s1 s2 split: option.split)
qed

lemma withdraw_agencies_moves:
  "moves withdraw_edge (fst st) (fst (foldl (withdraw_agency inp) st as))"
proof (induction as arbitrary: st)
  case (Cons a as)
  show ?case
    using withdraw_agency_step(1) [of "fst st" inp "snd st" a] Cons.IH [of "withdraw_agency inp st a"]
    by (simp add: moves_trans)
qed simp

interpretation siblings: lifecycle_transaction withdrawSiblings "\<lambda>_. withdraw_edge"
proof unfold_locales
  show "moves withdraw_edge db (fst (withdrawSiblings inp db))" for inp and db :: "'a database"
    using withdraw_agencies_moves [of "(db, [])" inp AGENCIES] by (simp add: withdrawSiblings_def)
qed

lemma withdraw_edge_routine: "withdraw_edge f t \<Longrightarrow> routine_edge f t"
proof (cases f)
  case (Some s)
  assume "withdraw_edge f t"
  with Some show ?thesis
    by (cases s) (auto simp: withdraw_edge_def routine_edge_def plain_edge_def)
qed (simp add: withdraw_edge_def)

lemma leaves_shared_trans: "leaves_shared a b \<Longrightarrow> leaves_shared b c \<Longrightarrow> leaves_shared a c"
  by (simp add: leaves_shared_def)

lemma withdraw_rows_shared: "leaves_shared (fst st) (fst (foldl (withdraw_row corr a) st rows))"
proof (induction rows arbitrary: st)
  case (Cons p rows)
  have "leaves_shared (fst st) (fst (withdraw_row corr a st p))"
    by (simp add: withdraw_row_def split: prod.split)
  then show ?case using Cons.IH leaves_shared_trans by fastforce
qed simp

lemma withdraw_agencies_shared: "leaves_shared (fst st) (fst (foldl (withdraw_agency inp) st as))"
proof (induction as arbitrary: st)
  case (Cons a as)
  have "leaves_shared (fst st) (fst (withdraw_agency inp st a))"
    by (simp add: withdraw_agency_def Let_def withdraw_rows_shared)
  then show ?case using Cons.IH leaves_shared_trans by fastforce
qed simp

interpretation siblings_routine: routine_transaction withdrawSiblings "\<lambda>_. withdraw_edge"
proof unfold_locales
  show "leaves_shared db (fst (withdrawSiblings inp db))" for inp and db :: "'a database"
    using withdraw_agencies_shared [of "(db, [])" inp AGENCIES] by (simp add: withdrawSiblings_def)
qed (rule withdraw_edge_routine)

lemma withdrawSiblings_nothing:
  assumes "\<And>a i r. app_of db a i = Some r \<Longrightarrow> \<not> withdrawable inp i r"
  shows "withdrawSiblings inp db = (db, [])"
proof -
  have "select_apps (withdrawable inp) db a = []" for a
    using assms by (auto simp: select_apps_empty_iff)
  then have "withdraw_agency inp (db, []) a = (db, [])" for a
    by (simp add: withdraw_agency_def)
  then show ?thesis by (simp add: withdrawSiblings_def AGENCIES_def)
qed

subsection \<open>Voluntary withdrawal\<close>

record withdraw_own_input =
  wo_applicantId :: uuid
  wo_applicationId :: uuid
  wo_correlationId :: string

datatype withdraw_own_outcome =
    Own_WITHDRAWN agency application_status
  | Own_NO_CHANGE agency
  | Own_NOT_APPLICABLE agency application_status
  | Own_NOT_FOUND

definition IMMOVABLE_TEXT :: "application_status list" where
  "IMMOVABLE_TEXT = [REJECTED, ACCEPTED, WALK_IN_REJECTED]"

fun withdraw_own_in ::
  "withdraw_own_input \<Rightarrow> agency list \<Rightarrow> 'ev database \<Rightarrow> 'ev database \<times> withdraw_own_outcome" where
  "withdraw_own_in inp [] db = (db, Own_NOT_FOUND)"
| "withdraw_own_in inp (a # as) db =
     (let i = wo_applicationId inp in
      case app_of db a i of
        None \<Rightarrow> withdraw_own_in inp as db
      | Some r \<Rightarrow>
          if applicant_id r \<noteq> wo_applicantId inp then withdraw_own_in inp as db
          else if app_status r = WITHDRAWN then (db, Own_NO_CHANGE a)
          else if app_status r \<in> set IMMOVABLE_TEXT then (db, Own_NOT_APPLICABLE a (app_status r))
          else
            (insert_history a i (Some (app_status r)) WITHDRAWN ''Voluntary withdrawal by applicant (ADR-020)''
               ''APPLICANT'' (wo_correlationId inp) (update_app a i (\<lambda>r. r\<lparr>app_status := WITHDRAWN\<rparr>) db),
             Own_WITHDRAWN a (app_status r)))"

definition withdrawOwn :: "withdraw_own_input \<Rightarrow> 'ev database \<Rightarrow> 'ev database \<times> withdraw_own_outcome" where
  "withdrawOwn inp db = withdraw_own_in inp AGENCIES db"

lemma withdraw_own_in_moves: "moves withdraw_edge db (fst (withdraw_own_in inp as db))"
  by (induction as)
     (auto simp: Let_def withdraw_edge_def IMMOVABLE_TEXT_def same_key_def
       split: option.split intro!: moves_transition)

interpretation self_withdrawal: lifecycle_transaction withdrawOwn "\<lambda>_. withdraw_edge"
  by unfold_locales (simp add: withdrawOwn_def withdraw_own_in_moves)

lemma withdraw_own_in_shared: "leaves_shared db (fst (withdraw_own_in inp as db))"
  by (induction as) (auto simp: Let_def split: option.split)

interpretation self_withdrawal_routine: routine_transaction withdrawOwn "\<lambda>_. withdraw_edge"
  by unfold_locales (simp_all add: withdraw_edge_routine withdrawOwn_def withdraw_own_in_shared)

text \<open>Only an application of the caller is ever touched, and only the named one.\<close>

lemma withdraw_own_in_app_of:
  "app_of (fst (withdraw_own_in inp as db)) b j \<noteq> app_of db b j \<Longrightarrow>
   j = wo_applicationId inp \<and> (\<exists>r. app_of db b j = Some r \<and> applicant_id r = wo_applicantId inp)"
  by (induction as) (auto simp: Let_def store_simps split: option.splits if_splits)

subsection \<open>What a withdrawal touches\<close>

text \<open>
  The auto-withdrawal withdraws exactly the citizen's other non-terminal applications in
  all three schemas and touches no other row, and running it again finds nothing to withdraw.
\<close>

theorem acceptance_withdraws_every_sibling:
  "app_of (fst (withdrawSiblings inp db)) b j =
     (case app_of db b j of
        None \<Rightarrow> None
      | Some r \<Rightarrow>
          Some (if applicant_id r = ws_applicantId inp \<and> j \<noteq> ws_acceptedApplicationId inp \<and> app_status r \<notin> TERMINAL
                then r\<lparr>app_status := WITHDRAWN, updated_at := db_now db\<rparr> else r)) \<and>
   withdrawSiblings inp (fst (withdrawSiblings inp db)) = (fst (withdrawSiblings inp db), [])"
proof -
  have "withdrawSiblings inp (fst (withdrawSiblings inp db)) = (fst (withdrawSiblings inp db), [])"
    by (rule withdrawSiblings_nothing)
       (auto simp: withdrawSiblings_app_of withdrawable_def TERMINAL_TEXT_def split: option.splits if_splits)
  then show ?thesis
    by (simp add: withdrawSiblings_app_of withdrawable_def TERMINAL_TEXT_def split: option.split)
qed

text \<open>
  A voluntary withdrawal changes at most the one application named, only when the caller
  owns it and it is not terminal, and answers NOT_FOUND without a write when no schema holds
  such a row of the caller.
\<close>

theorem citizens_withdraw_only_their_own:
  "(app_of (fst (withdrawOwn inp db)) b j \<noteq> app_of db b j \<longrightarrow>
      j = wo_applicationId inp \<and> (\<exists>r. app_of db b j = Some r \<and> applicant_id r = wo_applicantId inp \<and>
         app_status r \<notin> TERMINAL \<and> status_of (fst (withdrawOwn inp db)) b j = Some WITHDRAWN \<and>
         snd (withdrawOwn inp db) = Own_WITHDRAWN b (app_status r))) \<and>
   ((\<nexists>a r. app_of db a (wo_applicationId inp) = Some r \<and> applicant_id r = wo_applicantId inp) \<longrightarrow>
      withdrawOwn inp db = (db, Own_NOT_FOUND))"
proof -
  have first: "app_of (fst (withdraw_own_in inp as db)) b j \<noteq> app_of db b j \<Longrightarrow>
      j = wo_applicationId inp \<and> (\<exists>r. app_of db b j = Some r \<and> applicant_id r = wo_applicantId inp \<and>
         app_status r \<notin> TERMINAL \<and> status_of (fst (withdraw_own_in inp as db)) b j = Some WITHDRAWN \<and>
         snd (withdraw_own_in inp as db) = Own_WITHDRAWN b (app_status r))" for as
    by (induction as) (auto simp: Let_def store_simps IMMOVABLE_TEXT_def status_of_def split: option.splits if_splits)
  have second: "withdraw_own_in inp as db = (db, Own_NOT_FOUND)"
    if "\<nexists>a r. app_of db a (wo_applicationId inp) = Some r \<and> applicant_id r = wo_applicantId inp" for as
    using that by (induction as) (auto simp: Let_def split: option.split)
  show ?thesis unfolding withdrawOwn_def using first second by blast
qed

theorem citizens_withdraw_only_their_own_witness:
  "withdrawOwn \<lparr>wo_applicantId = ''stranger'', wo_applicationId = ''app'', wo_correlationId = ''c''\<rparr>
     (one_app (sample_row SUBMITTED)) = (one_app (sample_row SUBMITTED), Own_NOT_FOUND)"
proof -
  have "\<nexists>a r. app_of (one_app (sample_row SUBMITTED)) a ''app'' = Some r \<and> applicant_id r = ''stranger''"
    by (auto simp: one_app_def sample_db_def app_of_def empty_schema_def split: if_splits)
  with citizens_withdraw_only_their_own
    [of "\<lparr>wo_applicantId = ''stranger'', wo_applicationId = ''app'', wo_correlationId = ''c''\<rparr>" "one_app (sample_row SUBMITTED)"]
  show ?thesis by auto
qed

end
