(* ===== verification/Calendar.thy ===== *)
theory Calendar
  imports Prelude
begin

text \<open>
  The proleptic Gregorian calendar behind \<open>Date\<close> and \<open>Intl.DateTimeFormat\<close>: days since
  1970-01-01 to year, month and day and back, and the calendar day it is in Kigali (UTC+2, no
  daylight saving) at an instant. Used by the venue gate, the submission's evaluation date and
  the age rules.
\<close>

record civil_date =
  civil_year :: int
  civil_month :: int
  civil_day :: int

definition is_leap :: "int \<Rightarrow> bool" where
  "is_leap y \<longleftrightarrow> y mod 4 = 0 \<and> (y mod 100 \<noteq> 0 \<or> y mod 400 = 0)"

definition days_in_month :: "int \<Rightarrow> int \<Rightarrow> int" where
  "days_in_month y m =
     (if m = 2 then (if is_leap y then 29 else 28)
      else if m \<in> {4, 6, 9, 11} then 30 else 31)"

definition valid_civil :: "int \<Rightarrow> int \<Rightarrow> int \<Rightarrow> bool" where
  "valid_civil y m d \<longleftrightarrow> 1 \<le> m \<and> m \<le> 12 \<and> 1 \<le> d \<and> d \<le> days_in_month y m"

text \<open>Days before the first of March of year \<open>y\<close>, counted from 1 March of year 0.\<close>

definition days_before_march :: "int \<Rightarrow> int" where
  "days_before_march y = 365 * y + y div 4 - y div 100 + y div 400"

definition march_month_start :: "int \<Rightarrow> int" where
  "march_month_start mp = (153 * mp + 2) div 5"

text \<open>\<open>Date.UTC(y, m - 1, d)\<close> in days; a day number out of its month carries over, as in JavaScript.\<close>

definition days_of_civil :: "int \<Rightarrow> int \<Rightarrow> int \<Rightarrow> int" where
  "days_of_civil y m d =
     (let yy = (if m \<le> 2 then y - 1 else y); mp = (m + 9) mod 12 in
      days_before_march yy + march_month_start mp + (d - 1) - 719468)"

definition civil_of_days :: "int \<Rightarrow> civil_date" where
  "civil_of_days z =
     (let z1 = z + 719468;
          era = z1 div 146097;
          doe = z1 mod 146097;
          yoe = (doe - doe div 1460 + doe div 36524 - doe div 146096) div 365;
          doy = doe - (365 * yoe + yoe div 4 - yoe div 100);
          mp = (5 * doy + 2) div 153;
          d = doy - march_month_start mp + 1;
          m = (if mp < 10 then mp + 3 else mp - 9);
          y = yoe + era * 400 + (if m \<le> 2 then 1 else 0)
      in \<lparr>civil_year = y, civil_month = m, civil_day = d\<rparr>)"

definition two_digits :: "int \<Rightarrow> string" where
  "two_digits n = lpad (decimal (nat n)) 2 CHR ''0''"

text \<open>\<open>en-CA\<close> formats a date as \<open>YYYY-MM-DD\<close>.\<close>

definition format_civil :: "civil_date \<Rightarrow> string" where
  "format_civil c =
     decimal (nat (civil_year c)) @ ''-'' @ two_digits (civil_month c) @ ''-'' @ two_digits (civil_day c)"

definition day_ms :: int where "day_ms = 86400000"

definition kigali_offset_ms :: int where "kigali_offset_ms = 7200000"

definition kigaliDate :: "instant \<Rightarrow> string" where
  "kigaliDate now = format_civil (civil_of_days ((now + kigali_offset_ms) div day_ms))"

lemma kigaliDate_epoch: "kigaliDate 0 = ''1970-01-01''"
  by code_simp

lemma kigaliDate_leap_day:
  "kigaliDate 951775199999 = ''2000-02-28''" "kigaliDate 951775200000 = ''2000-02-29''"
  by code_simp+

end
