(* ===== verification/Gate.thy ===== *)
theory Gate
  imports Withdrawals Calendar
begin

text \<open>
  The venue gate (\<open>domain/gate-admission.ts\<close>, \<open>domain/gate-identity.ts\<close>,
  \<open>adapters/gate-admission.pg-repository.ts\<close>) and what the portal shows of the invitation
  (\<open>domain/exam-invitation.ts\<close>). Base64url decoding followed by \<open>JSON.parse\<close>, \<open>Date.parse\<close> and
  Unicode NFC are arguments, collected in one record.
\<close>

record js_library =
  parse_base64url_json :: "string \<Rightarrow> json option"
  date_parse :: "string \<Rightarrow> instant option"
  normalize_nfc :: "string \<Rightarrow> string"

subsection \<open>Tickets\<close>

definition is_hex :: "char \<Rightarrow> bool" where
  "is_hex c \<longleftrightarrow> is_digit c \<or> lower_char c \<in> set ''abcdef''"

text \<open>A string against a template: \<open>-\<close> stands for itself, anything else for a class of characters.\<close>

fun matches_template :: "(char \<Rightarrow> bool) \<Rightarrow> string \<Rightarrow> string \<Rightarrow> bool" where
  "matches_template P [] [] = True"
| "matches_template P (t # ts) (c # cs) =
     ((if t = CHR ''-'' then c = CHR ''-'' else P c) \<and> matches_template P ts cs)"
| "matches_template P _ _ = False"

definition UUID_RE :: "string \<Rightarrow> bool" where
  "UUID_RE s = matches_template is_hex ''xxxxxxxx-xxxx-xxxx-xxxx-xxxxxxxxxxxx'' s"

definition DATE_RE :: "string \<Rightarrow> bool" where
  "DATE_RE s = matches_template is_digit ''dddd-dd-dd'' s"

definition MAX_TICKET_LENGTH :: nat where "MAX_TICKET_LENGTH = 4096"

record gate_ticket_claims =
  ticketId :: string
  claim_applicationId :: string
  claim_agency :: agency
  claim_campaignId :: string
  claim_venueName :: string
  examDate :: string
  reportingTimeHour :: int
  expiresAt :: string

definition agency_of_name :: "string \<Rightarrow> agency option" where
  "agency_of_name s =
     (if s = ''RDF'' then Some RDF else if s = ''RNP'' then Some RNP else if s = ''RCS'' then Some RCS else None)"

definition json_string :: "json \<Rightarrow> string \<Rightarrow> string option" where
  "json_string c k = (case json_get c k of Some (JStr s) \<Rightarrow> Some s | _ \<Rightarrow> None)"

definition json_integer :: "json \<Rightarrow> string \<Rightarrow> int option" where
  "json_integer c k =
     (case json_get c k of
        Some (JNum r) \<Rightarrow> if real_of_int \<lfloor>r\<rfloor> = r then Some \<lfloor>r\<rfloor> else None
      | _ \<Rightarrow> None)"

text \<open>The object behind the third segment of a four-segment \<open>USRP-SLOT.v1\<close> token.\<close>

definition ticket_payload :: "js_library \<Rightarrow> string \<Rightarrow> json option" where
  "ticket_payload lib token =
     (case split_on CHR ''.'' token of
        [scheme, version, payload, signature] \<Rightarrow>
          if scheme = ''USRP-SLOT'' \<and> version = ''v1'' then parse_base64url_json lib payload else None
      | _ \<Rightarrow> None)"

definition parseGateTicket :: "js_library \<Rightarrow> string \<Rightarrow> gate_ticket_claims option" where
  "parseGateTicket lib token =
     (if token = [] \<or> length token > MAX_TICKET_LENGTH then None
      else
        case ticket_payload lib token of
          Some (JObj kvs) \<Rightarrow>
            (let c = JObj kvs in
             case (json_string c ''ticketId'', json_string c ''applicationId'', json_string c ''agency'',
                   json_string c ''campaignId'', json_string c ''venueName'', json_string c ''examDate'',
                   json_integer c ''reportingTimeHour'', json_string c ''expiresAt'') of
               (Some ticket, Some app, Some agency, Some campaign, Some venue, Some exam, Some hour, Some expires) \<Rightarrow>
                 (case agency_of_name agency of
                    None \<Rightarrow> None
                  | Some a \<Rightarrow>
                      if ticket = [] \<or> length ticket > 64 \<or> \<not> UUID_RE app \<or> \<not> UUID_RE campaign \<or>
                         js_trim venue = [] \<or> \<not> DATE_RE exam \<or> date_parse lib expires = None
                      then None
                      else Some \<lparr>ticketId = ticket, claim_applicationId = js_lower app, claim_agency = a,
                                 claim_campaignId = campaign, claim_venueName = venue, examDate = exam,
                                 reportingTimeHour = hour, expiresAt = expires\<rparr>)
             | _ \<Rightarrow> None)
        | _ \<Rightarrow> None)"

text \<open>\<open>.replace(/\s+/g, ' ')\<close>\<close>

fun collapse_spaces :: "string \<Rightarrow> string" where
  "collapse_spaces [] = []"
| "collapse_spaces [c] = [if is_js_space c then CHR '' '' else c]"
| "collapse_spaces (c # d # cs) =
     (if is_js_space c then (if is_js_space d then collapse_spaces (d # cs) else CHR '' '' # collapse_spaces (d # cs))
      else c # collapse_spaces (d # cs))"

definition normalizeVenueName :: "js_library \<Rightarrow> string \<Rightarrow> string" where
  "normalizeVenueName lib name = js_upper (collapse_spaces (js_trim (normalize_nfc lib name)))"

text \<open>Equality of the presented token with the stored one; absent never matches.\<close>

definition sameToken :: "string option \<Rightarrow> string \<Rightarrow> bool" where
  "sameToken stored presented = (case stored of None \<Rightarrow> False | Some t \<Rightarrow> t = presented)"

subsection \<open>The decision before identity\<close>

definition ADMISSIBLE_STATUSES :: "application_status set" where
  "ADMISSIBLE_STATUSES = {SLOT_ASSIGNED, PHYSICAL_TEST_SCHEDULED}"

record gate_row_facts =
  gr_status :: application_status
  storedToken :: "string option"
  alreadyAdmitted_fact :: bool

datatype gate_refusal =
    UNKNOWN_TICKET | TICKET_NOT_ISSUED | ALREADY_ADMITTED | NOT_ADMISSIBLE | WRONG_VENUE | TOO_EARLY | EXPIRED

datatype pre_identity_decision = REFUSE gate_refusal | CHECK_IDENTITY

definition decideBeforeIdentity ::
  "js_library \<Rightarrow> gate_ticket_claims \<Rightarrow> string \<Rightarrow> gate_row_facts option \<Rightarrow> string \<Rightarrow> instant \<Rightarrow> pre_identity_decision" where
  "decideBeforeIdentity lib claims presentedToken row gateVenueName now =
     (case row of
        None \<Rightarrow> REFUSE UNKNOWN_TICKET
      | Some facts \<Rightarrow>
          if \<not> sameToken (storedToken facts) presentedToken then REFUSE TICKET_NOT_ISSUED
          else if alreadyAdmitted_fact facts then REFUSE ALREADY_ADMITTED
          else if gr_status facts \<notin> ADMISSIBLE_STATUSES then REFUSE NOT_ADMISSIBLE
          else if normalizeVenueName lib gateVenueName \<noteq> normalizeVenueName lib (claim_venueName claims)
          then REFUSE WRONG_VENUE
          else
            let today = kigaliDate now in
            if today < examDate claims then REFUSE TOO_EARLY
            else if today > examDate claims \<or>
                    (case date_parse lib (expiresAt claims) of None \<Rightarrow> False | Some t \<Rightarrow> now \<ge> t)
            then REFUSE EXPIRED
            else CHECK_IDENTITY)"

lemma check_identity_iff:
  "decideBeforeIdentity lib claims token row venue now = CHECK_IDENTITY \<longleftrightarrow>
     (\<exists>facts. row = Some facts \<and> storedToken facts = Some token \<and> \<not> alreadyAdmitted_fact facts \<and>
        gr_status facts \<in> ADMISSIBLE_STATUSES \<and>
        normalizeVenueName lib venue = normalizeVenueName lib (claim_venueName claims) \<and>
        kigaliDate now = examDate claims \<and>
        (\<forall>t. date_parse lib (expiresAt claims) = Some t \<longrightarrow> now < t))"
  by (auto simp: decideBeforeIdentity_def sameToken_def Let_def not_less split: option.splits)

subsection \<open>Identity\<close>

datatype identity_method = NATIONAL_ID_CARD | CARD_PORTRAIT | SUPERVISOR

definition method_name :: "identity_method \<Rightarrow> string" where
  "method_name m =
     (case m of NATIONAL_ID_CARD \<Rightarrow> ''NATIONAL_ID_CARD'' | CARD_PORTRAIT \<Rightarrow> ''NATIONAL_ID_CARD+CARD_PORTRAIT''
      | SUPERVISOR \<Rightarrow> ''NATIONAL_ID_CARD+SUPERVISOR'')"

datatype evidence_outcome = MATCH | NO_MATCH | INCONCLUSIVE | NOT_ATTEMPTED

definition evidence_outcome_of_name :: "string \<Rightarrow> evidence_outcome option" where
  "evidence_outcome_of_name s =
     (if s = ''MATCH'' then Some MATCH else if s = ''NO_MATCH'' then Some NO_MATCH
      else if s = ''INCONCLUSIVE'' then Some INCONCLUSIVE
      else if s = ''NOT_ATTEMPTED'' then Some NOT_ATTEMPTED else None)"

definition MANUAL_IDENTITY_REASONS :: "string list" where
  "MANUAL_IDENTITY_REASONS =
     [''CARD_PHOTO_OUTDATED'', ''APPEARANCE_CHANGED'', ''POOR_CAPTURE_CONDITIONS'', ''CARD_PORTRAIT_DAMAGED'',
      ''SECONDARY_DOCUMENT_CHECKED'', ''SUPERVISOR_INTERVIEW'']"

definition isManualIdentityReason :: "json \<Rightarrow> bool" where
  "isManualIdentityReason v = (case v of JStr s \<Rightarrow> s \<in> set MANUAL_IDENTITY_REASONS | _ \<Rightarrow> False)"

definition requiresManualIdentity :: "evidence_outcome \<Rightarrow> bool" where
  "requiresManualIdentity oc \<longleftrightarrow> oc = NO_MATCH \<or> oc = INCONCLUSIVE"

record visible_evidence =
  evidenceId :: uuid
  outcome :: evidence_outcome
  confirmation :: "(uuid \<times> uuid) option"

datatype gate_identity_decision =
    MANUAL_IDENTITY_REQUIRED "uuid list"
  | IDENTIFIED identity_method "uuid list" "uuid list"

definition resolveGateIdentity :: "visible_evidence list \<Rightarrow> uuid \<Rightarrow> gate_identity_decision" where
  "resolveGateIdentity evidence admittingOfficerId =
     (let negatives = filter (\<lambda>e. requiresManualIdentity (outcome e)) evidence;
          unresolved = filter (\<lambda>e. case confirmation e of None \<Rightarrow> True | Some (_, who) \<Rightarrow> who = admittingOfficerId) negatives
      in
      if unresolved \<noteq> [] then MANUAL_IDENTITY_REQUIRED (map evidenceId unresolved)
      else if negatives \<noteq> [] then
        IDENTIFIED SUPERVISOR (map evidenceId evidence)
          (concat (map (\<lambda>e. case confirmation e of None \<Rightarrow> [] | Some (c, _) \<Rightarrow> [c]) negatives))
      else if list_ex (\<lambda>e. outcome e = MATCH) evidence
      then IDENTIFIED CARD_PORTRAIT (map evidenceId evidence) []
      else IDENTIFIED NATIONAL_ID_CARD (map evidenceId evidence) [])"

lemma identified_iff:
  "(\<exists>m es cs. resolveGateIdentity evidence officer = IDENTIFIED m es cs) \<longleftrightarrow>
     (\<forall>e \<in> set evidence. requiresManualIdentity (outcome e) \<longrightarrow>
        (\<exists>c who. confirmation e = Some (c, who) \<and> who \<noteq> officer))"
  by (auto simp: resolveGateIdentity_def Let_def filter_empty_conv list_ex_iff split: option.splits)
    (fastforce split: option.splits)+

subsection \<open>Admission at the gate\<close>

record gate_candidate =
  gc_applicationId :: uuid
  gc_processingCode :: string
  gc_category :: application_category

record admitted_gate =
  ag_candidate :: gate_candidate
  ag_ticketId :: string
  ag_venueName :: string
  ag_examDate :: string
  ag_reportingTimeHour :: int
  ag_admittedAt :: instant
  ag_fromStatus :: application_status
  ag_advancedTo :: "application_status option"
  ag_identityMethod :: identity_method
  ag_evidenceIds :: "uuid list"
  ag_confirmationIds :: "uuid list"

datatype gate_outcome =
    Gate_ADMITTED admitted_gate
  | Gate_MALFORMED_TICKET
  | Gate_WRONG_AGENCY
  | Gate_UNKNOWN_TICKET
  | Gate_TICKET_NOT_ISSUED
  | Gate_ALREADY_ADMITTED gate_candidate instant string bool
  | Gate_NOT_ADMISSIBLE gate_candidate application_status
  | Gate_WRONG_VENUE string
  | Gate_TOO_EARLY string
  | Gate_EXPIRED string
  | Gate_IDENTITY_MISMATCH gate_candidate
  | Gate_MANUAL_IDENTITY_REQUIRED gate_candidate "uuid list"
  | Gate_FAILED  \<comment> \<open>the thrown \<open>ApplicationPersistenceError\<close>\<close>

fun gate_outcome_name :: "gate_outcome \<Rightarrow> string" where
  "gate_outcome_name (Gate_ADMITTED _) = ''ADMITTED''"
| "gate_outcome_name Gate_MALFORMED_TICKET = ''MALFORMED_TICKET''"
| "gate_outcome_name Gate_WRONG_AGENCY = ''WRONG_AGENCY''"
| "gate_outcome_name Gate_UNKNOWN_TICKET = ''UNKNOWN_TICKET''"
| "gate_outcome_name Gate_TICKET_NOT_ISSUED = ''TICKET_NOT_ISSUED''"
| "gate_outcome_name (Gate_ALREADY_ADMITTED _ _ _ _) = ''ALREADY_ADMITTED''"
| "gate_outcome_name (Gate_NOT_ADMISSIBLE _ _) = ''NOT_ADMISSIBLE''"
| "gate_outcome_name (Gate_WRONG_VENUE _) = ''WRONG_VENUE''"
| "gate_outcome_name (Gate_TOO_EARLY _) = ''TOO_EARLY''"
| "gate_outcome_name (Gate_EXPIRED _) = ''EXPIRED''"
| "gate_outcome_name (Gate_IDENTITY_MISMATCH _) = ''IDENTITY_MISMATCH''"
| "gate_outcome_name (Gate_MANUAL_IDENTITY_REQUIRED _ _) = ''MANUAL_IDENTITY_REQUIRED''"
| "gate_outcome_name Gate_FAILED = ''FAILED''"

record gate_admission_input =
  ga_actor :: officer_actor
  ga_token :: string
  ga_claims :: "gate_ticket_claims option"
  ga_gateVenueName :: string
  ga_nationalIdHash :: string
  ga_now :: instant

text \<open>\<open>gate_identity_matches\<close>: the engine compares the hash with the applicant's own.\<close>

definition gate_identity_matches :: "'ev database \<Rightarrow> agency \<Rightarrow> uuid \<Rightarrow> string \<Rightarrow> bool" where
  "gate_identity_matches db a i hash =
     (case app_of db a i of
        None \<Rightarrow> False
      | Some r \<Rightarrow> (case applicant_identities db (applicant_id r) of
                     None \<Rightarrow> False | Some ident \<Rightarrow> national_id_hash ident = hash))"

text \<open>The evidence of this ticket the officer's role can see, each row joined to its confirmations.\<close>

definition visible_rows :: "'ev database \<Rightarrow> agency \<Rightarrow> uuid \<Rightarrow> string \<Rightarrow> (evidence_row \<times> (uuid \<times> uuid) option) list" where
  "visible_rows db a i ticket =
     (let s = schema_of db a;
          evs = sort_key (\<lambda>e. (ev_received_at e, ev_id e))
                  (filter (\<lambda>e. \<not> ev_shadow e \<and> ev_application_id e = i \<and> ev_ticket_id e = ticket)
                     (biometric_evidence s))
      in concat (map (\<lambda>e.
           (case filter (\<lambda>c. conf_evidence_id c = ev_id e) (manual_identity_confirmations s) of
              [] \<Rightarrow> [(e, None)]
            | cs \<Rightarrow> map (\<lambda>c. (e, Some (conf_id c, confirmed_by_id c))) cs)) evs))"

text \<open>An unknown outcome code throws; \<open>None\<close> is that throw.\<close>

fun toVisibleEvidence :: "(evidence_row \<times> (uuid \<times> uuid) option) list \<Rightarrow> visible_evidence list option" where
  "toVisibleEvidence [] = Some []"
| "toVisibleEvidence ((e, c) # rest) =
     (case (evidence_outcome_of_name (ev_outcome e), toVisibleEvidence rest) of
        (Some oc, Some vs) \<Rightarrow> Some (\<lparr>evidenceId = ev_id e, outcome = oc, confirmation = c\<rparr> # vs)
      | _ \<Rightarrow> None)"

definition recordAttempt ::
  "gate_admission_input \<Rightarrow> gate_outcome \<Rightarrow> uuid option \<Rightarrow> 'ev database \<Rightarrow> 'ev database" where
  "recordAttempt inp oc app db =
     update_schema (actor_agency (ga_actor inp))
       (\<lambda>s. s\<lparr>gate_attempts := gate_attempts s @
              [\<lparr>att_application_id = app, att_ticket_id = map_option (\<lambda>c. take 64 (ticketId c)) (ga_claims inp),
                att_outcome = gate_outcome_name oc, att_gate_venue_name = take 200 (ga_gateVenueName inp),
                att_officer_id = officerId (ga_actor inp),
                att_correlation_id = take 128 (actor_correlationId (ga_actor inp))\<rparr>]\<rparr>) db"

text \<open>Append the attempt, then stage the audit events.\<close>

definition finish ::
  "(gate_outcome \<Rightarrow> 'ev list) \<Rightarrow> gate_admission_input \<Rightarrow> gate_outcome \<Rightarrow> uuid option \<Rightarrow> 'ev database \<Rightarrow>
   'ev database \<times> gate_outcome" where
  "finish stage inp oc app db = (stage_events (stage oc) (recordAttempt inp oc app db), oc)"

definition refusal ::
  "gate_refusal \<Rightarrow> gate_candidate \<Rightarrow> application_status \<Rightarrow> gate_ticket_claims \<Rightarrow> admission_row option \<Rightarrow> uuid \<Rightarrow>
   gate_outcome" where
  "refusal oc candidate status claims prior officer =
     (case oc of
        ALREADY_ADMITTED \<Rightarrow>
          (case prior of
             None \<Rightarrow> Gate_ALREADY_ADMITTED candidate 0 [] False
           | Some p \<Rightarrow> Gate_ALREADY_ADMITTED candidate (admitted_at p) (adm_venue_name p) (admitted_by_id p = officer))
      | NOT_ADMISSIBLE \<Rightarrow> Gate_NOT_ADMISSIBLE candidate status
      | WRONG_VENUE \<Rightarrow> Gate_WRONG_VENUE (claim_venueName claims)
      | TOO_EARLY \<Rightarrow> Gate_TOO_EARLY (examDate claims)
      | EXPIRED \<Rightarrow> Gate_EXPIRED (examDate claims)
      | UNKNOWN_TICKET \<Rightarrow> Gate_UNKNOWN_TICKET
      | TICKET_NOT_ISSUED \<Rightarrow> Gate_TICKET_NOT_ISSUED)"

definition insert_admission :: "agency \<Rightarrow> admission_row \<Rightarrow> 'ev database \<Rightarrow> 'ev database" where
  "insert_admission a g db = update_schema a (\<lambda>s. s\<lparr>gate_admissions := gate_admissions s @ [g]\<rparr>) db"

text \<open>The unique indexes on \<open>gate_admissions\<close> refuse a second application or ticket.\<close>

definition admission_conflict :: "agency \<Rightarrow> admission_row \<Rightarrow> 'ev database \<Rightarrow> bool" where
  "admission_conflict a g db \<longleftrightarrow>
     list_ex (\<lambda>h. adm_application_id h = adm_application_id g \<or> adm_ticket_id h = adm_ticket_id g)
       (gate_admissions (schema_of db a))"

text \<open>The writes of an admission: the row, and the status of one still at \<open>SLOT_ASSIGNED\<close>.\<close>

definition write_admission ::
  "gate_admission_input \<Rightarrow> admission_row \<Rightarrow> application_status \<Rightarrow> 'ev database \<Rightarrow> 'ev database" where
  "write_admission inp g status db =
     (let actor = ga_actor inp; a = actor_agency actor; i = adm_application_id g; db1 = insert_admission a g db in
      if status = SLOT_ASSIGNED
      then insert_history a i (Some SLOT_ASSIGNED) PHYSICAL_TEST_SCHEDULED ''Admitted at the venue gate''
             (officerId actor) (actor_correlationId actor)
             (update_app a i (\<lambda>r. r\<lparr>app_status := PHYSICAL_TEST_SCHEDULED,
                                  physical_test_scheduled_at := Some (ScheduledAt (admitted_at g))\<rparr>) db1)
      else db1)"

text \<open>
  The transaction from the identity check on: the ticket is genuine, unspent and presented at the
  right venue on the exam day. \<open>None\<close> is the unique violation that aborts the transaction.
\<close>

definition admit_checked ::
  "(gate_outcome \<Rightarrow> 'ev list) \<Rightarrow> gate_admission_input \<Rightarrow> gate_ticket_claims \<Rightarrow> app_row \<Rightarrow> 'ev database \<Rightarrow>
   ('ev database \<times> gate_outcome) option" where
  "admit_checked stage inp claims app db =
     (let actor = ga_actor inp; a = actor_agency actor; i = claim_applicationId claims;
          candidate = \<lparr>gc_applicationId = i, gc_processingCode = processing_code app, gc_category = category app\<rparr>
      in
      if \<not> gate_identity_matches db a i (ga_nationalIdHash inp)
      then Some (finish stage inp (Gate_IDENTITY_MISMATCH candidate) (Some i) db)
      else
        (case toVisibleEvidence (visible_rows db a i (ticketId claims)) of
           None \<Rightarrow> Some (db, Gate_FAILED)
         | Some evidence \<Rightarrow>
             (case resolveGateIdentity evidence (officerId actor) of
                MANUAL_IDENTITY_REQUIRED ids \<Rightarrow>
                  Some (finish stage inp (Gate_MANUAL_IDENTITY_REQUIRED candidate ids) (Some i) db)
              | IDENTIFIED mtd evidenceIds confirmationIds \<Rightarrow>
                  let g = \<lparr>adm_application_id = i, adm_ticket_id = ticketId claims,
                           adm_campaign_id = campaign_id app, adm_venue_name = claim_venueName claims,
                           adm_exam_date = examDate claims, adm_identity_method = method_name mtd,
                           admitted_by_id = officerId actor, admitted_at = db_now db\<rparr>
                  in
                  if admission_conflict a g db then None
                  else
                    Some (finish stage inp
                      (Gate_ADMITTED
                        \<lparr>ag_candidate = candidate, ag_ticketId = ticketId claims,
                         ag_venueName = claim_venueName claims, ag_examDate = examDate claims,
                         ag_reportingTimeHour = reportingTimeHour claims, ag_admittedAt = db_now db,
                         ag_fromStatus = app_status app,
                         ag_advancedTo = (if app_status app = SLOT_ASSIGNED
                                          then Some PHYSICAL_TEST_SCHEDULED else None),
                         ag_identityMethod = mtd, ag_evidenceIds = evidenceIds,
                         ag_confirmationIds = confirmationIds\<rparr>)
                      (Some i) (write_admission inp g (app_status app) db)))))"

definition attempt_admission ::
  "js_library \<Rightarrow> (gate_outcome \<Rightarrow> 'ev list) \<Rightarrow> gate_admission_input \<Rightarrow> 'ev database \<Rightarrow>
   ('ev database \<times> gate_outcome) option" where
  "attempt_admission lib stage inp db =
     (let actor = ga_actor inp; a = actor_agency actor in
      case ga_claims inp of
        None \<Rightarrow> Some (finish stage inp Gate_MALFORMED_TICKET None db)
      | Some claims \<Rightarrow>
          if claim_agency claims \<noteq> a then Some (finish stage inp Gate_WRONG_AGENCY None db)
          else
            let i = claim_applicationId claims in
            case app_of db a i of
              None \<Rightarrow> Some (finish stage inp Gate_UNKNOWN_TICKET None db)
            | Some app \<Rightarrow>
                let prior = find (\<lambda>g. adm_application_id g = i) (gate_admissions (schema_of db a)) in
                case decideBeforeIdentity lib claims (ga_token inp)
                       (Some \<lparr>gr_status = app_status app, storedToken = qr_signed_token app,
                              alreadyAdmitted_fact = (prior \<noteq> None)\<rparr>)
                       (ga_gateVenueName inp) (ga_now inp) of
                  REFUSE oc \<Rightarrow>
                    Some (finish stage inp
                      (refusal oc \<lparr>gc_applicationId = i, gc_processingCode = processing_code app,
                                   gc_category = category app\<rparr>
                         (app_status app) claims prior (officerId actor)) (Some i) db)
                | CHECK_IDENTITY \<Rightarrow> admit_checked stage inp claims app db)"

text \<open>A unique violation is retried once; \<open>later\<close> is what other sessions commit in between.\<close>

definition admit ::
  "js_library \<Rightarrow> ('ev database \<Rightarrow> 'ev database) \<Rightarrow> (gate_outcome \<Rightarrow> 'ev list) \<Rightarrow> gate_admission_input \<Rightarrow>
   'ev database \<Rightarrow> 'ev database \<times> gate_outcome" where
  "admit lib later stage inp db =
     (case attempt_admission lib stage inp db of
        Some result \<Rightarrow> result
      | None \<Rightarrow>
          (case attempt_admission lib stage inp (later db) of
             Some result \<Rightarrow> result
           | None \<Rightarrow> (later db, Gate_FAILED)))"

definition gate_edge :: edge where
  "gate_edge f t \<longleftrightarrow> f = Some SLOT_ASSIGNED \<and> t = PHYSICAL_TEST_SCHEDULED"

subsection \<open>What an attempt does\<close>

lemma recordAttempt_frame [store_simps]:
  "app_of (recordAttempt inp oc app db) b j = app_of db b j"
  "trail (recordAttempt inp oc app db) b j = trail db b j"
  "db_now (recordAttempt inp oc app db) = db_now db"
  "gate_admissions (schema_of (recordAttempt inp oc app db) b) = gate_admissions (schema_of db b)"
  "local_to (actor_agency (ga_actor inp)) i db0 (recordAttempt inp oc app db) =
     local_to (actor_agency (ga_actor inp)) i db0 db"
  by (simp_all add: recordAttempt_def app_of_update_schema trail_def history_of_update_schema
      update_schema_frame local_to_update_schema schema_of_update_schema)
     (simp_all add: app_of_def history_of_def)

lemma insert_admission_frame [store_simps]:
  "app_of (insert_admission a g db) b j = app_of db b j"
  "trail (insert_admission a g db) b j = trail db b j"
  "history_of (insert_admission a g db) b = history_of db b"
  "db_now (insert_admission a g db) = db_now db"
  "gate_admissions (schema_of (insert_admission a g db) b) =
     gate_admissions (schema_of db b) @ (if a = b then [g] else [])"
  "local_to a i db0 (insert_admission a g db) = local_to a i db0 db"
  by (simp_all add: insert_admission_def app_of_update_schema trail_def history_of_update_schema
      update_schema_frame local_to_update_schema schema_of_update_schema)
     (simp_all add: app_of_def history_of_def)

lemma quiet_gate [simp]:
  "quiet db (recordAttempt inp oc app db)" "quiet db (insert_admission a g db)"
  by (simp_all add: recordAttempt_def insert_admission_def quiet_update_schema)

lemma finish_simps [simp]:
  "snd (finish stage inp oc app db) = oc"
  "gate_admissions (schema_of (fst (finish stage inp oc app db)) b) = gate_admissions (schema_of db b)"
  "moves E db0 (fst (finish stage inp oc app db)) = moves E db0 (recordAttempt inp oc app db)"
  by (simp_all add: finish_def store_simps)

lemma quiet_finish: "quiet db (fst (finish stage inp oc app db))"
  by (simp add: finish_def) (rule quiet_trans [OF _ quiet_stage], simp)

lemma refusal_not_admitted: "refusal oc c s cl p off \<noteq> Gate_ADMITTED g"
  by (cases oc) (simp_all add: refusal_def split: option.split)

text \<open>Everything an admission needed, in the order it was asked.\<close>

definition genuine_ticket :: "js_library \<Rightarrow> gate_admission_input \<Rightarrow> 'ev database \<Rightarrow> gate_ticket_claims \<Rightarrow> app_row \<Rightarrow> bool" where
  "genuine_ticket lib inp db claims r \<longleftrightarrow>
     (let a = actor_agency (ga_actor inp); i = claim_applicationId claims in
      ga_claims inp = Some claims \<and> claim_agency claims = a \<and> app_of db a i = Some r \<and>
      qr_signed_token r = Some (ga_token inp) \<and>
      find (\<lambda>g. adm_application_id g = i) (gate_admissions (schema_of db a)) = None \<and>
      app_status r \<in> ADMISSIBLE_STATUSES \<and>
      normalizeVenueName lib (ga_gateVenueName inp) = normalizeVenueName lib (claim_venueName claims) \<and>
      kigaliDate (ga_now inp) = examDate claims \<and>
      (\<forall>t. date_parse lib (expiresAt claims) = Some t \<longrightarrow> ga_now inp < t))"

definition identified_holder ::
  "gate_admission_input \<Rightarrow> 'ev database \<Rightarrow> gate_ticket_claims \<Rightarrow> app_row \<Rightarrow> visible_evidence list \<Rightarrow> admission_row \<Rightarrow> bool" where
  "identified_holder inp db claims r evidence g \<longleftrightarrow>
     (let a = actor_agency (ga_actor inp); i = claim_applicationId claims in
      gate_identity_matches db a i (ga_nationalIdHash inp) \<and>
      toVisibleEvidence (visible_rows db a i (ticketId claims)) = Some evidence \<and>
      (\<exists>mtd es cs. resolveGateIdentity evidence (officerId (ga_actor inp)) = IDENTIFIED mtd es cs \<and>
         g = \<lparr>adm_application_id = i, adm_ticket_id = ticketId claims, adm_campaign_id = campaign_id r,
              adm_venue_name = claim_venueName claims, adm_exam_date = examDate claims,
              adm_identity_method = method_name mtd, admitted_by_id = officerId (ga_actor inp),
              admitted_at = db_now db\<rparr>) \<and>
      \<not> admission_conflict a g db)"

lemma admit_checked_cases:
  obtains
    (aborted) "admit_checked stage inp claims r db = None"
  | (failed) "admit_checked stage inp claims r db = Some (db, Gate_FAILED)"
  | (refused) oc app where "admit_checked stage inp claims r db = Some (finish stage inp oc app db)"
      "\<And>g. oc \<noteq> Gate_ADMITTED g"
  | (admitted) evidence g ag where "identified_holder inp db claims r evidence g"
      "admit_checked stage inp claims r db =
         Some (finish stage inp (Gate_ADMITTED ag) (Some (claim_applicationId claims))
                 (write_admission inp g (app_status r) db))"
proof (cases "gate_identity_matches db (actor_agency (ga_actor inp)) (claim_applicationId claims) (ga_nationalIdHash inp)")
  case False
  then show thesis by (intro refused [of "Gate_IDENTITY_MISMATCH _"]) (auto simp: admit_checked_def Let_def)
next
  case matches: True
  let ?rows = "visible_rows db (actor_agency (ga_actor inp)) (claim_applicationId claims) (ticketId claims)"
  show thesis
  proof (cases "toVisibleEvidence ?rows")
    case None
    with matches show thesis by (intro failed) (simp add: admit_checked_def Let_def)
  next
    case ev: (Some evidence)
    show thesis
    proof (cases "resolveGateIdentity evidence (officerId (ga_actor inp))")
      case (MANUAL_IDENTITY_REQUIRED ids)
      with matches ev show thesis
        by (intro refused [of "Gate_MANUAL_IDENTITY_REQUIRED _ ids"]) (auto simp: admit_checked_def Let_def)
    next
      case id: (IDENTIFIED mtd es cs)
      define g where "g = \<lparr>adm_application_id = claim_applicationId claims, adm_ticket_id = ticketId claims,
          adm_campaign_id = campaign_id r, adm_venue_name = claim_venueName claims,
          adm_exam_date = examDate claims, adm_identity_method = method_name mtd,
          admitted_by_id = officerId (ga_actor inp), admitted_at = db_now db\<rparr>"
      show thesis
      proof (cases "admission_conflict (actor_agency (ga_actor inp)) g db")
        case True
        with matches ev id show thesis
          by (intro aborted) (simp add: admit_checked_def Let_def g_def [symmetric])
      next
        case False
        then have "identified_holder inp db claims r evidence g"
          using matches ev id by (auto simp: identified_holder_def Let_def g_def)
        then show thesis
          by (rule admitted)
             (use matches ev id False in \<open>simp add: admit_checked_def Let_def g_def [symmetric] split del: if_split\<close>)
      qed
    qed
  qed
qed

lemma attempt_admission_cases:
  obtains
    (aborted) "attempt_admission lib stage inp db = None"
  | (failed) "attempt_admission lib stage inp db = Some (db, Gate_FAILED)"
  | (refused) oc app where "attempt_admission lib stage inp db = Some (finish stage inp oc app db)"
      "\<And>g. oc \<noteq> Gate_ADMITTED g"
  | (admitted) claims r evidence g ag where "genuine_ticket lib inp db claims r"
      "identified_holder inp db claims r evidence g"
      "attempt_admission lib stage inp db =
         Some (finish stage inp (Gate_ADMITTED ag) (Some (claim_applicationId claims))
                 (write_admission inp g (app_status r) db))"
proof -
  consider "ga_claims inp = None"
    | claims where "ga_claims inp = Some claims" "claim_agency claims \<noteq> actor_agency (ga_actor inp)"
    | claims where "ga_claims inp = Some claims" "claim_agency claims = actor_agency (ga_actor inp)"
        "app_of db (actor_agency (ga_actor inp)) (claim_applicationId claims) = None"
    | claims r where "ga_claims inp = Some claims" "claim_agency claims = actor_agency (ga_actor inp)"
        "app_of db (actor_agency (ga_actor inp)) (claim_applicationId claims) = Some r"
    by (metis not_Some_eq)
  then show thesis
  proof cases
    case 1
    then show thesis by (intro refused [of Gate_MALFORMED_TICKET]) (auto simp: attempt_admission_def Let_def)
  next
    case 2
    then show thesis by (intro refused [of Gate_WRONG_AGENCY]) (auto simp: attempt_admission_def Let_def)
  next
    case 3
    then show thesis by (intro refused [of Gate_UNKNOWN_TICKET]) (auto simp: attempt_admission_def Let_def)
  next
    case (4 claims r)
    let ?prior = "find (\<lambda>g. adm_application_id g = claim_applicationId claims)
        (gate_admissions (schema_of db (actor_agency (ga_actor inp))))"
    show thesis
    proof (cases "decideBeforeIdentity lib claims (ga_token inp)
          (Some \<lparr>gr_status = app_status r, storedToken = qr_signed_token r, alreadyAdmitted_fact = (?prior \<noteq> None)\<rparr>)
          (ga_gateVenueName inp) (ga_now inp)")
      case (REFUSE oc)
      with 4 show thesis
        by (intro refused [OF _ refusal_not_admitted]) (simp add: attempt_admission_def Let_def)
    next
      case CHECK_IDENTITY
      then have "genuine_ticket lib inp db claims r"
        using 4 by (auto simp: genuine_ticket_def Let_def check_identity_iff)
      moreover from CHECK_IDENTITY 4
      have "attempt_admission lib stage inp db = admit_checked stage inp claims r db"
        by (simp add: attempt_admission_def Let_def)
      ultimately show thesis
        using aborted failed refused admitted by (metis admit_checked_cases)
    qed
  qed
qed

lemma admissible_status:
  "genuine_ticket lib inp db claims r \<Longrightarrow> app_status r = SLOT_ASSIGNED \<or> app_status r = PHYSICAL_TEST_SCHEDULED"
  by (auto simp: genuine_ticket_def ADMISSIBLE_STATUSES_def Let_def)

lemma holder_row:
  assumes "identified_holder inp db claims r evidence g"
  shows "adm_application_id g = claim_applicationId claims" "adm_ticket_id g = ticketId claims"
    "admitted_by_id g = officerId (ga_actor inp)" "\<not> admission_conflict (actor_agency (ga_actor inp)) g db"
  using assms by (auto simp: identified_holder_def Let_def)

lemma write_admission_moves:
  assumes "genuine_ticket lib inp db claims r" and "identified_holder inp db claims r evidence g"
  shows "moves gate_edge db (write_admission inp g (app_status r) db)"
proof (cases "app_status r = SLOT_ASSIGNED")
  case True
  let ?a = "actor_agency (ga_actor inp)"
  from assms(1) have row: "app_of db ?a (claim_applicationId claims) = Some r"
    by (simp add: genuine_ticket_def Let_def)
  show ?thesis
    unfolding write_admission_def Let_def if_P [OF True] holder_row(1) [OF assms(2)]
    by (rule moves_recorded [where r = r and r' = "r\<lparr>app_status := PHYSICAL_TEST_SCHEDULED,
            physical_test_scheduled_at := Some (ScheduledAt (admitted_at g)), updated_at := db_now db\<rparr>"])
       (use row True in \<open>auto simp: store_simps gate_edge_def same_key_def\<close>)
next
  case False
  then show ?thesis by (simp add: write_admission_def Let_def quiet_moves)
qed

lemma attempt_admission_moves:
  "attempt_admission lib stage inp db = Some (db', oc) \<Longrightarrow> moves gate_edge db db'"
proof (cases rule: attempt_admission_cases [of lib stage inp db])
  case (refused oc' app)
  assume "attempt_admission lib stage inp db = Some (db', oc)"
  with refused show ?thesis using quiet_moves [OF quiet_finish] by (metis fst_conv option.inject)
next
  case (admitted claims r evidence g ag)
  assume "attempt_admission lib stage inp db = Some (db', oc)"
  with admitted show ?thesis
    using moves_then_quiet [OF write_admission_moves quiet_finish] by (metis fst_conv option.inject)
qed auto

lemma attempt_admission_identities:
  "attempt_admission lib stage inp db = Some (db', oc) \<Longrightarrow> applicant_identities db' = applicant_identities db"
  by (cases rule: attempt_admission_cases [of lib stage inp db])
     (auto simp: finish_def recordAttempt_def write_admission_def insert_admission_def Let_def
       frame_statements update_schema_frame)

lemma attempt_admission_local:
  assumes "attempt_admission lib stage inp db = Some (db', oc)"
  shows "local_to (actor_agency (ga_actor inp))
    (case ga_claims inp of None \<Rightarrow> [] | Some c \<Rightarrow> claim_applicationId c) db db'"
proof (cases rule: attempt_admission_cases [of lib stage inp db])
  case (admitted claims r evidence g ag)
  then have "ga_claims inp = Some claims" by (simp add: genuine_ticket_def Let_def)
  with assms admitted(3) holder_row(1) [OF admitted(2)] show ?thesis
    by (auto simp: finish_def write_admission_def Let_def store_simps)
qed (use assms in \<open>auto simp: finish_def store_simps\<close>)

interpretation gate: single_row_transaction
  "\<lambda>(lib, stage, inp). admit lib (\<lambda>d. d) stage inp" "\<lambda>_. gate_edge"
  "\<lambda>(lib, stage, inp). actor_agency (ga_actor inp)"
  "\<lambda>(lib, stage, inp). case ga_claims inp of None \<Rightarrow> [] | Some c \<Rightarrow> claim_applicationId c"
proof unfold_locales
  have "moves gate_edge db (fst (admit lib (\<lambda>d. d) stage inp db))" for lib stage inp and db :: "'a database"
    by (cases "attempt_admission lib stage inp db")
       (auto simp: admit_def dest: attempt_admission_moves)
  then show "moves gate_edge db (fst ((case p of (lib, stage, inp) \<Rightarrow> admit lib (\<lambda>d. d) stage inp) db))"
    for p and db :: "'a database" by (cases p) simp
  have "local_to (actor_agency (ga_actor inp))
      (case ga_claims inp of None \<Rightarrow> [] | Some c \<Rightarrow> claim_applicationId c) db
      (fst (admit lib (\<lambda>d. d) stage inp db))" for lib stage inp and db :: "'a database"
    by (cases "attempt_admission lib stage inp db")
       (auto simp: admit_def dest: attempt_admission_local)
  then show "local_to (case p of (lib, stage, inp) \<Rightarrow> actor_agency (ga_actor inp))
      (case p of (lib, stage, inp) \<Rightarrow> case ga_claims inp of None \<Rightarrow> [] | Some c \<Rightarrow> claim_applicationId c) db
      (fst ((case p of (lib, stage, inp) \<Rightarrow> admit lib (\<lambda>d. d) stage inp) db))"
    for p and db :: "'a database" by (cases p) simp
qed

subsection \<open>Single use\<close>

lemma write_admission_admissions:
  "gate_admissions (schema_of (write_admission inp g s db) b) =
     gate_admissions (schema_of db b) @ (if actor_agency (ga_actor inp) = b then [g] else [])"
  by (simp add: write_admission_def Let_def store_simps gate_admissions_statements)

lemma single_use_admission:
  assumes "single_use db" and "\<not> admission_conflict a g db"
    and "\<And>b. gate_admissions (schema_of db' b) = gate_admissions (schema_of db b) @ (if a = b then [g] else [])"
  shows "single_use db'"
  using assms by (auto simp: single_use_def admission_conflict_def list_ex_iff)

lemma attempt_admission_single_use:
  assumes "single_use db" and "attempt_admission lib stage inp db = Some (db', oc)"
  shows "single_use db'"
proof (cases rule: attempt_admission_cases [of lib stage inp db])
  case (admitted claims r evidence g ag)
  then show ?thesis
    using assms holder_row(4) [OF admitted(2)]
    by (intro single_use_admission [OF assms(1), of "actor_agency (ga_actor inp)" g])
       (auto simp: finish_def store_simps write_admission_admissions)
qed (use assms in \<open>auto simp: finish_def store_simps single_use_def\<close>)

lemma admit_single_use:
  assumes "single_use db" and "single_use (later db)" shows "single_use (fst (admit lib later stage inp db))"
  using assms attempt_admission_single_use
  by (cases "attempt_admission lib stage inp db"; cases "attempt_admission lib stage inp (later db)")
     (fastforce simp: admit_def)+

text \<open>A spent ticket is never admitted again, whatever else the second presentation says.\<close>

lemma genuine_ticket_unspent:
  "genuine_ticket lib inp db claims r \<Longrightarrow>
   g \<in> set (gate_admissions (schema_of db (actor_agency (ga_actor inp)))) \<Longrightarrow>
   adm_application_id g \<noteq> claim_applicationId claims"
  by (auto simp: genuine_ticket_def Let_def find_None_iff)

subsection \<open>The invitation the citizen may see\<close>

record invitation_claims =
  iv_ticketId :: string
  iv_applicationId :: string
  iv_venueName :: string
  iv_examDate :: string
  iv_reportingTimeHour :: real
  iv_expiresAt :: string

definition json_number :: "json \<Rightarrow> string \<Rightarrow> real option" where
  "json_number c k = (case json_get c k of Some (JNum r) \<Rightarrow> Some r | _ \<Rightarrow> None)"

definition readInvitationClaims :: "js_library \<Rightarrow> string \<Rightarrow> invitation_claims option" where
  "readInvitationClaims lib token =
     (case ticket_payload lib token of
        None \<Rightarrow> None
      | Some c \<Rightarrow>
          (case (json_string c ''ticketId'', json_string c ''applicationId'', json_string c ''venueName'',
                 json_string c ''examDate'', json_number c ''reportingTimeHour'', json_string c ''expiresAt'') of
             (Some ticket, Some app, Some venue, Some exam, Some hour, Some expires) \<Rightarrow>
               Some \<lparr>iv_ticketId = ticket, iv_applicationId = app, iv_venueName = venue, iv_examDate = exam,
                     iv_reportingTimeHour = hour, iv_expiresAt = expires\<rparr>
           | _ \<Rightarrow> None))"

datatype invitation_state =
    Invitation_READY invitation_claims string
  | Invitation_ADMITTED | Invitation_PENDING | Invitation_ON_HOLD | Invitation_COMPLETED
  | Invitation_CLOSED | Invitation_EXPIRED | Invitation_UNAVAILABLE | Invitation_WALK_IN

definition READY_STATUSES :: "application_status set" where
  "READY_STATUSES = {SLOT_ASSIGNED, PHYSICAL_TEST_SCHEDULED}"

definition PENDING_STATUSES :: "application_status set" where
  "PENDING_STATUSES =
     {DRAFT, SUBMITTED, ACADEMIC_VETTING, CRIMINAL_CLEARANCE, DOCUMENT_REVIEW_GREEN, DOCUMENT_REVIEW_AMBER}"

definition WALK_IN_STATUSES :: "application_status set" where
  "WALK_IN_STATUSES = {WALK_IN_REGISTERED, WALK_IN_ON_SITE_VETTING, WALK_IN_PHYSICAL_TEST}"

definition COMPLETED_STATUSES :: "application_status set" where
  "COMPLETED_STATUSES = {PHYSICAL_TEST_COMPLETE, MEDICAL_REVIEW, FINAL_SHORTLIST, ACCEPTED}"

lemmas invitation_statuses [table_simps] =
  READY_STATUSES_def PENDING_STATUSES_def WALK_IN_STATUSES_def COMPLETED_STATUSES_def ADMISSIBLE_STATUSES_def

definition decideInvitation ::
  "js_library \<Rightarrow> uuid \<Rightarrow> application_status \<Rightarrow> string option \<Rightarrow> instant \<Rightarrow> bool \<Rightarrow> invitation_state" where
  "decideInvitation lib applicationId status token now admitted =
     (if status = ADJUDICATION_REVIEW then Invitation_ON_HOLD
      else if status \<in> COMPLETED_STATUSES then Invitation_COMPLETED
      else if status \<in> PENDING_STATUSES then Invitation_PENDING
      else if status \<in> WALK_IN_STATUSES then Invitation_WALK_IN
      else if status \<notin> READY_STATUSES then Invitation_CLOSED
      else if admitted then Invitation_ADMITTED
      else case token of
             None \<Rightarrow> Invitation_UNAVAILABLE
           | Some t \<Rightarrow>
               (case readInvitationClaims lib t of
                  None \<Rightarrow> Invitation_UNAVAILABLE
                | Some claims \<Rightarrow>
                    if iv_applicationId claims \<noteq> applicationId then Invitation_UNAVAILABLE
                    else (case date_parse lib (iv_expiresAt claims) of
                            None \<Rightarrow> Invitation_EXPIRED
                          | Some expires \<Rightarrow> if now \<ge> expires then Invitation_EXPIRED else Invitation_READY claims t)))"

lemma decideInvitation_READY_iff:
  "decideInvitation lib i status token now admitted = Invitation_READY claims t \<longleftrightarrow>
     status \<in> READY_STATUSES \<and> \<not> admitted \<and> token = Some t \<and> readInvitationClaims lib t = Some claims \<and>
     iv_applicationId claims = i \<and> (\<exists>e. date_parse lib (iv_expiresAt claims) = Some e \<and> now < e)"
  by (cases status)
     (auto simp: decideInvitation_def invitation_statuses split: option.splits if_splits)

subsection \<open>What an admission takes\<close>

lemma admitted_run:
  assumes "admit lib later stage inp db = (db', Gate_ADMITTED ag)"
  obtains before claims r evidence g where "before = db \<or> before = later db"
    "genuine_ticket lib inp before claims r" "identified_holder inp before claims r evidence g"
    "db' = fst (finish stage inp (Gate_ADMITTED ag) (Some (claim_applicationId claims))
                  (write_admission inp g (app_status r) before))"
proof -
  have "attempt_admission lib stage inp db = Some (db', Gate_ADMITTED ag) \<or>
      attempt_admission lib stage inp (later db) = Some (db', Gate_ADMITTED ag)"
    using assms by (auto simp: admit_def split: option.splits)
  then obtain before where before: "before = db \<or> before = later db"
      "attempt_admission lib stage inp before = Some (db', Gate_ADMITTED ag)" by blast
  show thesis
  proof (cases rule: attempt_admission_cases [of lib stage inp before])
    case (refused oc app)
    with before(2) have "finish stage inp oc app before = (db', Gate_ADMITTED ag)" by simp
    with refused(2) show thesis by (metis finish_simps(1) snd_conv)
  next
    case (admitted claims r evidence g ag2)
    with before(2) have "finish stage inp (Gate_ADMITTED ag2) (Some (claim_applicationId claims))
        (write_admission inp g (app_status r) before) = (db', Gate_ADMITTED ag)" by simp
    then have "ag2 = ag" "db' = fst (finish stage inp (Gate_ADMITTED ag2) (Some (claim_applicationId claims))
        (write_admission inp g (app_status r) before))"
      by (metis finish_simps(1) gate_outcome.inject(1) snd_conv, metis fst_conv)
    with before(1) admitted(1,2) show thesis by (intro that) simp_all
  qed (use before(2) in auto)
qed

text \<open>
  C10: An ADMITTED outcome means a ticket of this agency whose text is the one stored on an
  admissible row, an unspent application and ticket, the right venue, the exam day in Kigali and
  a matching national-id hash, and it leaves the row scheduled with an admission naming the
  officer.
\<close>

theorem admission_is_earned:
  assumes "admit lib later stage inp db = (db', Gate_ADMITTED ag)"
  shows "\<exists>before claims r. before \<in> {db, later db} \<and> ga_claims inp = Some claims \<and>
    claim_agency claims = actor_agency (ga_actor inp) \<and>
    app_of before (actor_agency (ga_actor inp)) (claim_applicationId claims) = Some r \<and>
    qr_signed_token r = Some (ga_token inp) \<and>
    app_status r \<in> {SLOT_ASSIGNED, PHYSICAL_TEST_SCHEDULED} \<and>
    normalizeVenueName lib (ga_gateVenueName inp) = normalizeVenueName lib (claim_venueName claims) \<and>
    kigaliDate (ga_now inp) = examDate claims \<and>
    gate_identity_matches before (actor_agency (ga_actor inp)) (claim_applicationId claims) (ga_nationalIdHash inp) \<and>
    (\<forall>g \<in> set (gate_admissions (schema_of before (actor_agency (ga_actor inp)))).
       adm_application_id g \<noteq> claim_applicationId claims \<and> adm_ticket_id g \<noteq> ticketId claims) \<and>
    status_of db' (actor_agency (ga_actor inp)) (claim_applicationId claims) = Some PHYSICAL_TEST_SCHEDULED \<and>
    (\<exists>g \<in> set (gate_admissions (schema_of db' (actor_agency (ga_actor inp)))).
       adm_application_id g = claim_applicationId claims \<and> adm_ticket_id g = ticketId claims \<and>
       admitted_by_id g = officerId (ga_actor inp))"
proof -
  from assms obtain before claims r evidence g where run: "before = db \<or> before = later db"
      "genuine_ticket lib inp before claims r" "identified_holder inp before claims r evidence g"
      "db' = fst (finish stage inp (Gate_ADMITTED ag) (Some (claim_applicationId claims))
                    (write_admission inp g (app_status r) before))" by (rule admitted_run)
  have status: "status_of db' (actor_agency (ga_actor inp)) (claim_applicationId claims) = Some PHYSICAL_TEST_SCHEDULED"
    using admissible_status [OF run(2)] run(2) holder_row(1) [OF run(3)]
    by (auto simp: run(4) finish_def status_of_def write_admission_def genuine_ticket_def store_simps Let_def)
  have row: "g \<in> set (gate_admissions (schema_of db' (actor_agency (ga_actor inp))))"
    by (simp add: run(4) write_admission_admissions)
  show ?thesis
    using run(1) status row run(2,3) holder_row [OF run(3)]
    by (intro exI [of _ before] exI [of _ claims] exI [of _ r] conjI)
       (auto simp: genuine_ticket_def identified_holder_def ADMISSIBLE_STATUSES_def find_None_iff
         admission_conflict_def list_ex_iff Let_def)
qed

definition plain_library :: js_library where
  "plain_library = \<lparr>parse_base64url_json = (\<lambda>_. None), date_parse = (\<lambda>_. Some 2000000000000), normalize_nfc = (\<lambda>s. s)\<rparr>"

definition sample_claims :: gate_ticket_claims where
  "sample_claims =
     \<lparr>ticketId = ''t1'', claim_applicationId = ''app'', claim_agency = RDF, claim_campaignId = ''campaign'',
      claim_venueName = ''Amahoro'', examDate = ''2025-06-02'', reportingTimeHour = 7, expiresAt = ''e''\<rparr>"

definition sample_presentation :: gate_admission_input where
  "sample_presentation =
     \<lparr>ga_actor = rdf_officer ''guard'', ga_token = ''token'', ga_claims = Some sample_claims,
      ga_gateVenueName = '' amahoro'', ga_nationalIdHash = ''hash'', ga_now = 1748844000000\<rparr>"

definition slotted_db :: "string database" where
  "slotted_db = one_app ((sample_row SLOT_ASSIGNED)\<lparr>qr_signed_token := Some ''token''\<rparr>)"

lemma sample_admission:
  obtains db' ag where
    "admit plain_library (\<lambda>d. d) (\<lambda>_. []) sample_presentation slotted_db = (db', Gate_ADMITTED ag)"
proof -
  have "gate_outcome_name (snd (admit plain_library (\<lambda>d. d) (\<lambda>_. []) sample_presentation slotted_db)) = ''ADMITTED''"
    by code_simp
  then show thesis using that
    by (cases "admit plain_library (\<lambda>d. d) (\<lambda>_. []) sample_presentation slotted_db"; cases "snd (admit plain_library (\<lambda>d. d) (\<lambda>_. []) sample_presentation slotted_db)") simp_all
qed

theorem admission_is_earned_witness:
  "\<exists>a i. status_of (fst (admit plain_library (\<lambda>d. d) (\<lambda>_. []) sample_presentation slotted_db)) a i = Some PHYSICAL_TEST_SCHEDULED"
proof -
  obtain db' ag where run: "admit plain_library (\<lambda>d. d) (\<lambda>_. []) sample_presentation slotted_db = (db', Gate_ADMITTED ag)"
    by (rule sample_admission)
  from admission_is_earned [OF run] have "\<exists>a i. status_of db' a i = Some PHYSICAL_TEST_SCHEDULED" by blast
  then show ?thesis by (simp only: run fst_conv)
qed

text \<open>
  C11: A ticket or an application that was admitted once is never admitted again, whatever else
  is presented and whatever other sessions commit in between.
\<close>

theorem no_second_admission:
  assumes "g \<in> set (gate_admissions (schema_of db (actor_agency (ga_actor inp))))"
    and "\<forall>claims. ga_claims inp = Some claims \<longrightarrow>
           adm_application_id g = claim_applicationId claims \<or> adm_ticket_id g = ticketId claims"
    and "\<And>d. g \<in> set (gate_admissions (schema_of d (actor_agency (ga_actor inp)))) \<Longrightarrow>
           g \<in> set (gate_admissions (schema_of (later d) (actor_agency (ga_actor inp))))"
  shows "snd (admit lib later stage inp db) \<noteq> Gate_ADMITTED ag"
proof
  let ?a = "actor_agency (ga_actor inp)"
  assume "snd (admit lib later stage inp db) = Gate_ADMITTED ag"
  then obtain db' where "admit lib later stage inp db = (db', Gate_ADMITTED ag)" by (metis surjective_pairing)
  then obtain before claims r evidence g' where run: "before = db \<or> before = later db"
      "genuine_ticket lib inp before claims r" "identified_holder inp before claims r evidence g'"
    by (rule admitted_run)
  have spent: "g \<in> set (gate_admissions (schema_of before ?a))" using run(1) assms(1,3) by auto
  have "adm_application_id g \<noteq> claim_applicationId claims" by (rule genuine_ticket_unspent [OF run(2) spent])
  moreover have "adm_ticket_id g \<noteq> ticketId claims"
    using spent holder_row [OF run(3)] by (auto simp: admission_conflict_def list_ex_iff)
  moreover have "ga_claims inp = Some claims" using run(2) by (simp add: genuine_ticket_def Let_def)
  ultimately show False using assms(2) by blast
qed

definition spent_admission :: admission_row where
  "spent_admission =
     \<lparr>adm_application_id = ''app'', adm_ticket_id = ''t1'', adm_campaign_id = ''campaign'',
      adm_venue_name = ''Amahoro'', adm_exam_date = ''2025-06-02'', adm_identity_method = ''NATIONAL_ID_CARD'',
      admitted_by_id = ''guard'', admitted_at = 3\<rparr>"

theorem no_second_admission_witness:
  "\<forall>ag. snd (admit plain_library (\<lambda>d. d) (\<lambda>_. []) (sample_presentation\<lparr>ga_token := ''copy''\<rparr>)
     (sample_db (empty_schema\<lparr>gate_admissions := [spent_admission]\<rparr>))) \<noteq> Gate_ADMITTED ag"
  by (rule allI, rule no_second_admission [where g = spent_admission])
     (simp_all add: sample_db_def sample_presentation_def sample_claims_def rdf_officer_def spent_admission_def)

text \<open>
  The portal and the gate agree: an invitation shown as READY passes every check before
  identity at its own venue on its own exam day, and both read the same ticket from the token.
\<close>

theorem ready_invitation_passes_the_gate:
  assumes "decideInvitation lib i (app_status r) (qr_signed_token r) now False = Invitation_READY shown token"
    and "parseGateTicket lib token = Some claims"
    and "normalizeVenueName lib venue = normalizeVenueName lib (claim_venueName claims)"
    and "kigaliDate now = examDate claims"
  shows "decideBeforeIdentity lib claims token
     (Some \<lparr>gr_status = app_status r, storedToken = qr_signed_token r, alreadyAdmitted_fact = False\<rparr>) venue now = CHECK_IDENTITY \<and>
    ticketId claims = iv_ticketId shown \<and> claim_venueName claims = iv_venueName shown \<and>
    examDate claims = iv_examDate shown \<and> claim_applicationId claims = js_lower i"
proof -
  from assms(1) have ready: "app_status r \<in> READY_STATUSES" "qr_signed_token r = Some token"
      "readInvitationClaims lib token = Some shown" "iv_applicationId shown = i"
      and fresh: "\<exists>e. date_parse lib (iv_expiresAt shown) = Some e \<and> now < e"
    unfolding decideInvitation_READY_iff by auto
  have same: "ticketId claims = iv_ticketId shown \<and> claim_venueName claims = iv_venueName shown \<and>
      examDate claims = iv_examDate shown \<and> claim_applicationId claims = js_lower (iv_applicationId shown) \<and>
      expiresAt claims = iv_expiresAt shown"
    using ready(3) assms(2)
    by (auto simp: readInvitationClaims_def parseGateTicket_def Let_def split: option.splits json.splits if_splits)
  with ready fresh assms(3,4) show ?thesis
    by (auto simp: check_identity_iff invitation_statuses)
qed

definition token_payload :: json where
  "token_payload =
     JObj [(''ticketId'', JStr ''t1''), (''applicationId'', JStr ''0a0a0a0a-1111-2222-3333-444444444444''),
           (''agency'', JStr ''RDF''), (''campaignId'', JStr ''0b0b0b0b-1111-2222-3333-444444444444''),
           (''venueName'', JStr ''Amahoro''), (''examDate'', JStr ''2025-06-02''), (''reportingTimeHour'', JNum 7),
           (''expiresAt'', JStr ''2025-06-02T18:00:00Z'')]"

definition token_library :: js_library where
  "token_library = plain_library\<lparr>parse_base64url_json := (\<lambda>s. if s = ''p'' then Some token_payload else None)\<rparr>"

definition token_row :: app_row where
  "token_row = (sample_row SLOT_ASSIGNED)\<lparr>qr_signed_token := Some ''USRP-SLOT.v1.p.s''\<rparr>"

lemma token_read:
  "ticket_payload token_library ''USRP-SLOT.v1.p.s'' = Some token_payload"
  "date_parse token_library e = Some 2000000000000"
  by (simp_all add: ticket_payload_def token_library_def plain_library_def)

theorem ready_invitation_passes_the_gate_witness:
  "\<exists>claims. parseGateTicket token_library ''USRP-SLOT.v1.p.s'' = Some claims \<and>
     decideBeforeIdentity token_library claims ''USRP-SLOT.v1.p.s''
       (Some \<lparr>gr_status = SLOT_ASSIGNED, storedToken = Some ''USRP-SLOT.v1.p.s'', alreadyAdmitted_fact = False\<rparr>)
       ''amahoro'' 1748844000000 = CHECK_IDENTITY"
proof -
  let ?i = "''0a0a0a0a-1111-2222-3333-444444444444''"
  have re: "UUID_RE ?i" "UUID_RE ''0b0b0b0b-1111-2222-3333-444444444444''" "DATE_RE ''2025-06-02''"
      "js_lower ?i = ?i" "js_trim ''Amahoro'' \<noteq> []"
    by code_simp+
  have venue: "normalizeVenueName token_library ''amahoro'' = normalizeVenueName token_library ''Amahoro''" by code_simp
  have day: "kigaliDate 1748844000000 = ''2025-06-02''" by code_simp
  obtain claims where claims: "parseGateTicket token_library ''USRP-SLOT.v1.p.s'' = Some claims"
      "claim_venueName claims = ''Amahoro''" "examDate claims = ''2025-06-02''"
    using re
    by (simp add: parseGateTicket_def MAX_TICKET_LENGTH_def token_read [unfolded token_payload_def] json_string_def
        json_integer_def agency_of_name_def)
  obtain shown where shown: "readInvitationClaims token_library ''USRP-SLOT.v1.p.s'' = Some shown" "iv_applicationId shown = ?i"
    by (simp add: readInvitationClaims_def token_read [unfolded token_payload_def] json_string_def json_number_def)
  have "decideInvitation token_library ?i (app_status token_row) (qr_signed_token token_row) 1748844000000 False =
      Invitation_READY shown ''USRP-SLOT.v1.p.s''"
    unfolding decideInvitation_READY_iff
    by (simp add: shown token_row_def READY_STATUSES_def token_read)
  from ready_invitation_passes_the_gate [OF this claims(1), of "''amahoro''"] claims venue day
  show ?thesis by (simp add: token_row_def)
qed

end
