(* ===== verification/Platform.thy ===== *)
theory Platform
  imports Gate
begin

text \<open>
  The application service as one transition system: any transaction of the component theories,
  the passage of time, and the writes of the other services to the tables this one only reads.
  Its reachable states satisfy the platform invariant.
\<close>

subsection \<open>Opening a row\<close>

lemma platform_inv_opening:
  assumes inv: "platform_inv db" and ins: "insert_application a i r db = Inr db1"
    and status: "app_status r = SUBMITTED \<or> app_status r = WALK_IN_REGISTERED"
  shows "platform_inv (insert_history a i None (app_status r) reason who corr db1)" (is "platform_inv ?db'")
proof -
  note ins_facts = insert_application_InrD [OF ins]
  have live: "app_status r \<noteq> WITHDRAWN" "app_status r \<noteq> ACCEPTED" using status by auto
  have db1: "db1 = insert_app a i r db" and fresh: "app_of db a i = None" using ins_facts(1,2) by simp_all
  have "moves (opening_edge (app_status r)) db ?db'"
    unfolding db1 by (rule moves_opening) (use fresh in \<open>simp_all add: opening_edge_def\<close>)
  then have moved: "moves (\<lambda>f t. f = None \<and> t = app_status r) db ?db'"
    by (rule moves_mono) (simp add: opening_edge_def)
  have plain: "\<And>f t. f = None \<and> t = app_status r \<Longrightarrow> plain_edge f t" using status by (auto simp: plain_edge_def)
  have shared: "leaves_shared db ?db'" by (simp add: db1)
  have "journeys_ok ?db'" using inv journeys_ok_moves [OF _ moved plain] by (simp add: platform_inv_def)
  moreover have "acceptance_ok ?db'"
    using inv acceptance_ok_moves [OF _ moved] live shared by (simp add: platform_inv_def leaves_shared_def)
  moreover have "single_use ?db'" using inv single_use_shared [OF _ shared] by (simp add: platform_inv_def)
  moreover have "unique_ok ?db'"
  proof -
    have new: "processing_code r \<noteq> processing_code s \<and> processing_code s \<noteq> processing_code r \<and>
        \<not> same_intent r s \<and> \<not> same_intent s r"
      if "app_of db a j = Some s" "j \<noteq> i" for j s
    proof -
      have "\<not> live_intent (applicant_id r) (campaign_id r) (category r) s"
        using ins_facts(3) [OF live(1)] that(1) unfolding select_apps_empty_iff by blast
      moreover have "processing_code s \<noteq> processing_code r"
        using ins_facts(4) that unfolding taken_iff by blast
      ultimately show ?thesis by (auto simp: live_intent_def same_intent_def)
    qed
    have "unique_ok db" using inv by (simp add: platform_inv_def)
    then show ?thesis
      unfolding unique_ok_def using new by (auto simp: db1 store_simps split: if_splits)
  qed
  moreover have "clock_ok ?db'" using inv clock_ok_moves [OF _ moved] by (simp add: platform_inv_def)
  ultimately show ?thesis by (simp add: platform_inv_def)
qed

lemma platform_inv_stage [simp]: "platform_inv (stage_events evs db) = platform_inv db"
  by (simp add: platform_inv_def journeys_ok_def trail_ok_def acceptance_ok_def unique_ok_def single_use_def
      clock_ok_def store_simps)

lemma platform_inv_quiet:
  assumes "platform_inv db" and "quiet db db'" and "leaves_shared db db'" shows "platform_inv db'"
  using assms platform_inv_routine quiet_moves by blast

lemma platform_inv_next_sequence: "platform_inv db \<Longrightarrow> platform_inv (next_sequence a db)"
  by (erule platform_inv_quiet [OF _ quiet_next_sequence])
     (simp add: next_sequence_def leaves_shared_update_schema)

lemma platform_inv_claim: "platform_inv db \<Longrightarrow> platform_inv (claim_key inp i code db)"
  by (erule platform_inv_quiet [OF _ quiet_claim_key]) (simp add: claim_key_def)

lemma platform_inv_submitted:
  assumes "platform_inv db" and "insertSubmittedApplication inp ids drawn db = (db', Inr (i, code))"
  shows "platform_inv (insertOpeningHistory (fd_agency inp) i corr db')"
proof -
  from assms(2) obtain db1 where db1: "case ids of None \<Rightarrow> db1 = next_sequence (fd_agency inp) db \<and> i = drawn
        | Some p \<Rightarrow> db1 = db \<and> p = (i, code)"
      "insert_application (fd_agency inp) i (submitted_row inp code (db_now db)) db1 = Inr db'"
    by (rule insertSubmitted_Inr)
  then have "platform_inv db1" using assms(1) platform_inv_next_sequence by (cases ids) auto
  then show ?thesis
    using platform_inv_opening [OF _ db1(2)] by (simp add: insertOpeningHistory_def)
qed

lemma createApplication_inv:
  assumes "platform_inv db" shows "platform_inv (fst (createApplication drawn stage inp corr db))"
proof (cases "insertSubmittedApplication inp None drawn db")
  case (Pair db1 res)
  show ?thesis
  proof (cases res)
    case (Inl e)
    with Pair assms show ?thesis
      using insertSubmitted_Inl [of inp None drawn db db1 e] platform_inv_next_sequence
      by (cases e) (auto simp: createApplication_def)
  next
    case (Inr p)
    with Pair assms show ?thesis
      using platform_inv_submitted [of db inp None drawn db1 "fst p" "snd p" corr]
      by (cases p) (simp add: createApplication_def Let_def split: option.split)
  qed
qed

lemma file_under_claim_inv:
  assumes "platform_inv base" and "platform_inv (later base)"
  shows "platform_inv (fst (file_under_claim inp i code stage later base))"
proof (cases rule: file_under_claim_cases [of inp i code stage later base])
  case (filed db1)
  then show ?thesis
    using platform_inv_submitted [OF platform_inv_claim [OF assms(1)]] by simp
qed (use assms in auto)

text \<open>The ledger keeps the invariant under every interference that keeps it.\<close>

lemma recordSubmission_inv:
  assumes "platform_inv db" and "\<And>k d. platform_inv d \<Longrightarrow> platform_inv (env k d)"
  shows "platform_inv (fst (recordSubmission env drawn stage inp db))"
proof -
  let ?a = "fd_agency (si_row inp)"
  have env: "platform_inv (env 1 db)" "platform_inv (env 2 (env 1 db))" "platform_inv (env 3 (env 2 (env 1 db)))"
    using assms by auto
  then have env4: "platform_inv (env 4 (next_sequence ?a (env 3 (env 2 (env 1 db)))))"
    using assms(2) platform_inv_next_sequence by blast
  have env5: "platform_inv (env 5 (env 4 (next_sequence ?a (env 3 (env 2 (env 1 db))))))"
    using assms(2) [OF env4] .
  show ?thesis
    unfolding recordSubmission_def mintProcessingCode_def Let_def
    using env env4 env5 file_under_claim_inv [where later = "env 6", OF env5 assms(2) [OF env5, of 6]]
    by (simp split: option.split)
qed

lemma createWalkInApplication_inv:
  assumes "platform_inv db" and "\<And>d. platform_inv d \<Longrightarrow> platform_inv (later d)"
  shows "platform_inv (fst (createWalkInApplication later drawn stage inp db))"
proof (cases "insert_application RDF drawn
    (walk_in_row inp (snd (mintProcessingCode RDF db)) (db_now db)) (next_sequence RDF db)")
  case (Inl e)
  with assms platform_inv_next_sequence show ?thesis
    by (cases e) (auto simp: createWalkInApplication_def mintProcessingCode_def Let_def)
next
  case (Inr db2)
  from platform_inv_opening [OF platform_inv_next_sequence [OF assms(1)] Inr] assms(1) Inr show ?thesis
    by (auto simp: createWalkInApplication_def mintProcessingCode_def Let_def)
qed

subsection \<open>Acceptance\<close>

lemma accepted_db_rows:
  assumes "acceptable sod inp db r ident"
  shows "app_of (accepted_db inp r ident db) b j =
    (if b = actor_agency (ac_actor inp) \<and> j = ac_applicationId inp
     then Some (r\<lparr>app_status := ACCEPTED, updated_at := db_now db\<rparr>) else app_of db b j)"
    and "applicant_identities (accepted_db inp r ident db) =
    (applicant_identities db)(applicant_id r \<mapsto> ident\<lparr>cross_agency_locked_at := Some (db_now db),
       cross_agency_locked_by_agency := Some (actor_agency (ac_actor inp)),
       cross_agency_lock_reason := Some ''ACCEPTED''\<rparr>)"
  using assms by (auto simp: acceptable_def accepted_db_def Let_def store_simps)

lemma accept_inv:
  assumes inv: "platform_inv db" shows "platform_inv (fst (accept sod inp db))"
proof (cases rule: accept_cases [of sod inp db])
  case (accepted r ident)
  let ?a = "actor_agency (ac_actor inp)" and ?i = "ac_applicationId inp" and ?db' = "accepted_db inp r ident db"
  from accepted(1) have row: "app_of db ?a ?i = Some r" and ident: "applicant_identities db (applicant_id r) = Some ident"
    and free: "cross_agency_locked_by_agency ident = None"
    by (simp_all add: acceptable_def)
  note moved = accepted_db_moves [OF accepted(1)] and rows = accepted_db_rows [OF accepted(1)]
  have "journeys_ok ?db'"
    using inv journeys_ok_moves [OF _ moved] by (auto simp: platform_inv_def accept_edge_def plain_edge_def)
  moreover have "unique_ok ?db'"
    using inv unique_ok_moves [OF _ moved] by (simp add: platform_inv_def accept_edge_def)
  moreover have "single_use ?db'"
    using inv by (simp add: platform_inv_def single_use_def accepted_db_def Let_def gate_admissions_statements)
  moreover have "acceptance_ok ?db'"
  proof -
    have unlocked: "applicant_id s \<noteq> applicant_id r \<and> applicant_id r \<noteq> applicant_id s" if "app_of db b j = Some s" "app_status s = ACCEPTED" for b j s
      using inv that ident free unfolding platform_inv_def acceptance_ok_def by fastforce
    from inv have "acceptance_ok db" by (simp add: platform_inv_def)
    then show ?thesis
      unfolding acceptance_ok_def using unlocked by (auto simp: rows split: if_splits)
  qed
  moreover have "clock_ok ?db'" using inv clock_ok_moves [OF _ moved] by (simp add: platform_inv_def)
  ultimately show ?thesis using accepted(2) by (simp add: platform_inv_def)
qed (use inv in simp)

subsection \<open>Adjudication\<close>

text \<open>The one edge that needs the past: a lifted hold returns to where the hold began.\<close>

lemma adjudication_target_journey:
  assumes ok: "journeys_ok db" and dec: "decidable_adjudication opts inp db r decided target"
    and change: "target \<noteq> app_status r"
  shows "plain_edge (Some (app_status r)) target \<and> target \<noteq> ACCEPTED \<or>
    app_status r = ADJUDICATION_REVIEW \<and>
    (Some target, ADJUDICATION_REVIEW) \<in> set (trail db (actor_agency (aj_actor inp)) (aj_applicationId inp))"
proof (cases "app_status r = ADJUDICATION_REVIEW \<and> aj_decision inp = CLEAR \<and> decided = LANE_DOCUMENT")
  case True
  let ?a = "actor_agency (aj_actor inp)" and ?i = "aj_applicationId inp"
  from True dec obtain h where h: "latest_entry_into db ?a ?i ADJUDICATION_REVIEW = Some h" "from_status h = Some target"
    by (auto simp: decidable_adjudication_def adjudication_target_def Let_def split: option.splits)
  then have "h \<in> set (rows_of ?i (history_of db ?a))" "to_status h = ADJUDICATION_REVIEW"
    using latest_by_SomeD unfolding latest_entry_into_def by fastforce+
  with h(2) have "(Some target, ADJUDICATION_REVIEW) \<in> set (trail db ?a ?i)"
    by (force simp: trail_def)
  with True show ?thesis by simp
next
  case False
  from adjudication_target_edge [OF dec change]
  have edge: "adjudicate_edge (Some (app_status r)) target" .
  show ?thesis
  proof (cases "app_status r = ADJUDICATION_REVIEW")
    case hold: True
    have "target = REJECTED"
    proof (cases "aj_decision inp")
      case CLEAR
      with hold False have "decided \<noteq> LANE_DOCUMENT" by simp
      moreover have "LANE_DOCUMENT \<in> set (adjudicationLanes (hold_of r))"
        using hold by (simp add: document_lane_iff hold_of_def)
      ultimately have "target = app_status r"
        using dec CLEAR by (auto simp: decidable_adjudication_def adjudication_target_def Let_def filter_empty_conv)
      with change show ?thesis by simp
    next
      case REJECT
      with dec show ?thesis by (simp add: decidable_adjudication_def adjudication_target_def Let_def)
    qed
    with hold show ?thesis by (simp add: plain_edge_def)
  next
    case False
    with edge show ?thesis
      by (cases "app_status r")
         (auto simp: adjudicate_edge_def plain_edge_def vetting_edge_def stageRank_def)
  qed
qed

lemma adjudicate_inv:
  assumes inv: "platform_inv db" shows "platform_inv (fst (adjudicate opts inp db))"
proof (cases rule: adjudicate_cases [of opts inp db])
  case (applied r decided target)
  let ?a = "actor_agency (aj_actor inp)" and ?i = "aj_applicationId inp"
  let ?db' = "write_adjudication inp decided (app_status r) target db"
  have ok: "journeys_ok db" using inv by (simp add: platform_inv_def)
  have shared: "leaves_shared db ?db'"
    by (simp add: write_adjudication_def stamp_documents_def Let_def leaves_shared_update_schema)
  have local: "local_to ?a ?i db ?db'" by (simp add: write_adjudication_def Let_def store_simps)
  show ?thesis
  proof (cases "target = app_status r \<or> plain_edge (Some (app_status r)) target \<and> target \<noteq> ACCEPTED")
    case True
    then have "moves routine_edge db ?db'"
      by (intro write_adjudication_moves_gen [OF applied(1)]) (auto simp: routine_edge_def)
    with inv shared applied(2) show ?thesis using platform_inv_routine by (metis fst_conv)
  next
    case False
    then have change: "target \<noteq> app_status r" by simp
    from adjudication_target_journey [OF ok applied(1) change] False
    have hold: "app_status r = ADJUDICATION_REVIEW"
      and entry: "(Some target, ADJUDICATION_REVIEW) \<in> set (trail db ?a ?i)" by auto
    let ?E = "\<lambda>f t. f = Some ADJUDICATION_REVIEW \<and> t = target"
    have moved: "moves ?E db ?db'"
      by (rule write_adjudication_moves_gen [OF applied(1)]) (simp add: hold)
    have row: "app_of db ?a ?i = Some r" using applied(1) by (simp add: decidable_adjudication_def Let_def)
    have "plain_edge (Some target) ADJUDICATION_REVIEW"
      using ok entry journey_hold_entry by (auto simp: journeys_ok_def)
    then have alive: "target \<notin> {ACCEPTED, REJECTED, WITHDRAWN}" by (rule plain_edge_into_hold)
    have "journey (trail ?db' b j)" for b j
    proof (cases "b = ?a \<and> j = ?i")
      case True
      have "trail ?db' ?a ?i = trail db ?a ?i @ [(Some ADJUDICATION_REVIEW, target)]"
        using change hold by (simp add: write_adjudication_def Let_def store_simps)
      moreover have "trail_end None (trail db ?a ?i) = Some ADJUDICATION_REVIEW"
        using ok row hold by (simp add: journeys_ok_def trail_ok_def)
      ultimately show ?thesis
        using True ok entry by (auto simp: journeys_ok_def intro: journey.Restore)
    next
      case False
      with ok show ?thesis using local_to_other(2) [OF local False] by (simp add: journeys_ok_def)
    qed
    then have "journeys_ok ?db'" using ok trail_ok_moves [OF _ moved] by (simp add: journeys_ok_def)
    moreover have "acceptance_ok ?db'"
      using inv acceptance_ok_moves [OF _ moved] alive shared by (auto simp: platform_inv_def leaves_shared_def)
    moreover have "unique_ok ?db'" using inv unique_ok_moves [OF _ moved] by (simp add: platform_inv_def)
    moreover have "single_use ?db'" using inv single_use_shared [OF _ shared] by (simp add: platform_inv_def)
    moreover have "clock_ok ?db'" using inv clock_ok_moves [OF _ moved] by (simp add: platform_inv_def)
    ultimately show ?thesis using applied(2) by (simp add: platform_inv_def)
  qed
qed (use inv in simp)

subsection \<open>The venue gate\<close>

lemma attempt_admission_inv:
  assumes inv: "platform_inv db" and run: "attempt_admission lib stage inp db = Some (db', oc)"
  shows "platform_inv db'"
proof -
  have moved: "moves gate_edge db db'" by (rule attempt_admission_moves [OF run])
  have "gate_edge f t \<Longrightarrow> plain_edge f t" for f t by (auto simp: gate_edge_def plain_edge_def)
  then have "journeys_ok db'" using inv journeys_ok_moves [OF _ moved] by (auto simp: platform_inv_def)
  moreover have "unique_ok db'"
    using inv unique_ok_moves [OF _ moved] by (simp add: platform_inv_def gate_edge_def)
  moreover have "applicant_identities db' = applicant_identities db"
    using run by (rule attempt_admission_identities)
  then have "acceptance_ok db'"
    using inv acceptance_ok_moves [OF _ moved] by (simp add: platform_inv_def gate_edge_def)
  moreover have "single_use db'"
    using inv attempt_admission_single_use [OF _ run] by (simp add: platform_inv_def)
  moreover have "clock_ok db'" using inv clock_ok_moves [OF _ moved] by (simp add: platform_inv_def)
  ultimately show ?thesis by (simp add: platform_inv_def)
qed

lemma admit_inv:
  assumes "platform_inv db" and "platform_inv (later db)"
  shows "platform_inv (fst (admit lib later stage inp db))"
  using assms attempt_admission_inv
  by (cases "attempt_admission lib stage inp db"; cases "attempt_admission lib stage inp (later db)")
     (auto simp: admit_def)

subsection \<open>The transition system\<close>

text \<open>
  What the rest of the platform writes: campaigns, identities, scores, documents, evidence and
  clearance verifications, the outbox being drained. No other service writes an application, its
  history or an admission, and none lifts a cross-agency lock.
\<close>

definition foreign_write :: "'ev database \<Rightarrow> 'ev database \<Rightarrow> bool" where
  "foreign_write db db' \<longleftrightarrow>
     db_now db \<le> db_now db' \<and>
     (\<forall>a. applications (schema_of db' a) = applications (schema_of db a) \<and>
          status_history (schema_of db' a) = status_history (schema_of db a) \<and>
          gate_admissions (schema_of db' a) = gate_admissions (schema_of db a)) \<and>
     (\<forall>p ident. applicant_identities db p = Some ident \<longrightarrow>
        (\<exists>ident'. applicant_identities db' p = Some ident' \<and>
           cross_agency_locked_by_agency ident' = cross_agency_locked_by_agency ident \<and>
           cross_agency_locked_at ident' = cross_agency_locked_at ident))"

lemma foreign_write_inv:
  assumes "platform_inv db" and "foreign_write db db'" shows "platform_inv db'"
proof -
  from assms(2) have same: "app_of db' a i = app_of db a i" "history_of db' a = history_of db a"
      "trail db' a i = trail db a i" "gate_admissions (schema_of db' a) = gate_admissions (schema_of db a)" for a i
    by (simp_all add: foreign_write_def app_of_def history_of_def trail_def)
  have mono: "db_now db \<le> db_now db'" using assms(2) by (simp add: foreign_write_def)
  have "acceptance_ok db'"
    using assms unfolding platform_inv_def acceptance_ok_def foreign_write_def same by metis
  moreover have "clock_ok db'"
    using assms(1) mono unfolding platform_inv_def clock_ok_def same by (meson order_trans)
  ultimately show ?thesis
    using assms(1) by (simp add: platform_inv_def journeys_ok_def trail_ok_def unique_ok_def single_use_def same)
qed

text \<open>
  One committed transaction of the application service. The submission ledger and the walk-in
  registration run undisturbed here; their interleavings are the subject of their own lemmas.
\<close>

inductive step :: "'ev database \<Rightarrow> 'ev database \<Rightarrow> bool" where
  Create: "step db (fst (createApplication drawn stage front corr db))"
| Submit: "step db (fst (recordSubmission undisturbed drawn stage sub db))"
| WalkIn: "step db (fst (createWalkInApplication (\<lambda>d. d) drawn stage walk db))"
| VetOnSite: "step db (fst (vetOnSite vstage vet db))"
| Vetting: "step db (fst (applyVettingResult opts ostage result db))"
| Slot: "step db (fst (applySlotAssignment slot db))"
| Notification: "step db (fst (applyNotificationDelivery delivery db))"
| PhysicalTest: "step db (fst (applyPhysicalTestComplete test db))"
| Forensics: "step db (fst (applyForensicsRouting routing db))"
| Gate: "step db (fst (admit lib (\<lambda>d. d) gstage gate db))"
| Medical: "step db (fst (medicalReview review db))"
| Final: "step db (fst (finalDecision sod decision db))"
| Accept: "step db (fst (accept sod acceptance db))"
| Adjudicate: "step db (fst (adjudicate opts adjudication db))"
| WithdrawOwn: "step db (fst (withdrawOwn own db))"
| WithdrawSiblings: "step db (fst (withdrawSiblings siblings db))"
| Foreign: "foreign_write db db' \<Longrightarrow> step db db'"

definition initial :: "'ev database \<Rightarrow> bool" where
  "initial db \<longleftrightarrow>
     (\<forall>a. applications (schema_of db a) = [] \<and> status_history (schema_of db a) = [] \<and>
          gate_admissions (schema_of db a) = [])"

inductive reachable :: "'ev database \<Rightarrow> bool" where
  Initial: "initial db \<Longrightarrow> reachable db"
| Step: "reachable db \<Longrightarrow> step db db' \<Longrightarrow> reachable db'"

inductive_cases stepE: "step db db'"

lemma initial_inv: "initial db \<Longrightarrow> platform_inv db"
  by (simp add: initial_def platform_inv_def journeys_ok_def trail_ok_def acceptance_ok_def unique_ok_def
      single_use_def clock_ok_def app_of_def history_of_def trail_def rows_of_def journey.Start)

lemmas operation_invs =
  createApplication_inv recordSubmission_inv createWalkInApplication_inv accept_inv adjudicate_inv admit_inv
  foreign_write_inv slot_routine.keeps_platform_inv notification_routine.keeps_platform_inv
  physical_test_routine.keeps_platform_inv forensics_routine.keeps_platform_inv
  medical_routine.keeps_platform_inv self_withdrawal_routine.keeps_platform_inv
  siblings_routine.keeps_platform_inv

lemma step_inv: "step db db' \<Longrightarrow> platform_inv db \<Longrightarrow> platform_inv db'"
proof (induction rule: step.induct)
  case (Vetting db opts ostage result)
  then show ?case using vetting_routine.keeps_platform_inv [of db "(opts, ostage, result)"] by simp
next
  case (Final db sod decision)
  then show ?case using final_routine.keeps_platform_inv [of db "(sod, decision)"] by simp
next
  case (VetOnSite db vstage vet)
  then show ?case using vet_routine.keeps_platform_inv [of db "(vstage, vet)"] by simp
qed (auto intro: operation_invs)

theorem reachable_inv: "reachable db \<Longrightarrow> platform_inv db"
  by (induction rule: reachable.induct) (auto intro: initial_inv step_inv)

text \<open>Read off the invariant, for the theorems about single components.\<close>

lemma reachable_facts:
  assumes "reachable db"
  shows "journeys_ok db" "acceptance_ok db" "unique_ok db" "single_use db" "clock_ok db" "trail_ok db"
    "journey (trail db a i)"
  using reachable_inv [OF assms] by (simp_all add: platform_inv_def journeys_ok_def)

subsection \<open>No step leaves a final status\<close>

text \<open>Finality.\<close>

definition live_edge :: edge where
  "live_edge f t \<longleftrightarrow> f \<notin> {Some ACCEPTED, Some REJECTED, Some WITHDRAWN}"



lemma live_edges:
  "routine_edge f t \<Longrightarrow> live_edge f t" "opening_edge s f t \<Longrightarrow> live_edge f t" "accept_edge f t \<Longrightarrow> live_edge f t"
  "gate_edge f t \<Longrightarrow> live_edge f t" "adjudicate_edge f t \<Longrightarrow> live_edge f t"
  by (auto simp: live_edge_def routine_edge_def opening_edge_def accept_edge_def gate_edge_def adjudicate_edge_def
      dest: plain_edge_nonterminal split: option.splits)

lemmas moves_live = moves_mono [where F = live_edge, OF _ live_edges(1)] moves_mono [where F = live_edge, OF _ live_edges(2)]
  moves_mono [where F = live_edge, OF _ live_edges(3)] moves_mono [where F = live_edge, OF _ live_edges(4)]
  moves_mono [where F = live_edge, OF _ live_edges(5)]

lemma step_live: "step db db' \<Longrightarrow> moves live_edge db db' \<or> foreign_write db db'"
proof (induction rule: step.induct)
  case (Create db drawn stage front corr)
  show ?case using moves_live(2) [OF create.step [of db "(drawn, stage, front, corr)"]] by simp
next
  case (Submit db drawn stage sub)
  show ?case using moves_live(2) [OF ledger.step [of db "(drawn, stage, sub)"]] by simp
next
  case (WalkIn db drawn stage walk)
  show ?case using moves_live(2) [OF walk_in.step [of db "(drawn, stage, walk)"]] by simp
next
  case (VetOnSite db vstage vet)
  show ?case using moves_live(1) [OF vet_routine.moves_routine [of db "(vstage, vet)"]] by simp
next
  case (Vetting db opts ostage result)
  show ?case using moves_live(1) [OF vetting_routine.moves_routine [of db "(opts, ostage, result)"]] by simp
next
  case (Slot db slot)
  show ?case using moves_live(1) [OF slot_routine.moves_routine] by blast
next
  case (Notification db delivery)
  show ?case using moves_live(1) [OF notification_routine.moves_routine] by blast
next
  case (PhysicalTest db test)
  show ?case using moves_live(1) [OF physical_test_routine.moves_routine] by blast
next
  case (Forensics db routing)
  show ?case using moves_live(1) [OF forensics_routine.moves_routine] by blast
next
  case (Gate db lib gstage gate)
  show ?case using moves_live(4) [OF gate.step [of db "(lib, gstage, gate)"]] by simp
next
  case (Medical db review)
  show ?case using moves_live(1) [OF medical_routine.moves_routine] by blast
next
  case (Final db sod decision)
  show ?case using moves_live(1) [OF final_routine.moves_routine [of db "(sod, decision)"]] by simp
next
  case (Accept db sod acceptance)
  show ?case using moves_live(3) [OF acceptance.step [of db "(sod, acceptance)"]] by simp
next
  case (Adjudicate db opts adjudication)
  show ?case using moves_live(5) [OF adjudication.step [of db "(opts, adjudication)"]] by simp
next
  case (WithdrawOwn db own)
  show ?case using moves_live(1) [OF self_withdrawal_routine.moves_routine] by blast
next
  case (WithdrawSiblings db siblings)
  show ?case using moves_live(1) [OF siblings_routine.moves_routine] by blast
next
  case (Foreign db db')
  then show ?case by blast
qed

text \<open>A dimension a human decided stays decided whatever the platform does next.\<close>

lemma step_keeps_decided:
  assumes "step db db'" and "app_of db a i = Some r" and "decidedByHuman (vetting_hold_resolved_dimensions r) d"
  obtains r' where "app_of db' a i = Some r'" "decidedByHuman (vetting_hold_resolved_dimensions r') d"
proof -
  have "\<exists>r'. app_of db' a i = Some r' \<and> same_key r r'"
    using step_live [OF assms(1)]
  proof
    assume "moves live_edge db db'"
    with assms(2) show ?thesis unfolding moves_def row_moves_def by blast
  next
    assume "foreign_write db db'"
    then have "app_of db' a i = app_of db a i" by (simp add: foreign_write_def app_of_def)
    with assms(2) show ?thesis by simp
  qed
  with assms(3) that show thesis by (auto simp: same_key_def decidedByHuman_def)
qed

lemma steps_keep_decided:
  assumes "step\<^sup>*\<^sup>* db db'"
    and "\<exists>r. app_of db a i = Some r \<and> decidedByHuman (vetting_hold_resolved_dimensions r) d"
  shows "\<exists>r. app_of db' a i = Some r \<and> decidedByHuman (vetting_hold_resolved_dimensions r) d"
  using assms
proof (induction rule: rtranclp_induct)
  case (step db1 db2)
  then show ?case by (metis step_keeps_decided)
qed

text \<open>
  C12: After an officer cleared a criminal or academic hold, a later machine verdict of that
  dimension on that row, whatever it says and whatever transactions of the platform committed in
  between, writes nothing.
\<close>

theorem cleared_dimension_is_closed_to_machines:
  assumes "adjudicate opts inp db = (db1, Adjudicate_APPLIED ap)" and "aj_decision inp = CLEAR"
    and "aj_lane_decided ap = (if verdict_dimension (vr_verdict result) = CRIMINAL then LANE_CRIMINAL else LANE_ACADEMIC)"
    and "verdict_dimension (vr_verdict result) \<noteq> AGE"
    and "vr_agency result = actor_agency (aj_actor inp)" and "vr_application_id result = aj_applicationId inp"
    and "step\<^sup>*\<^sup>* db1 db'"
  shows "applyVettingResult opts' stage result db' = (db', Vetting_NO_CHANGE)"
proof -
  obtain r where "app_of db1 (vr_agency result) (vr_application_id result) = Some r"
      "decidedByHuman (vetting_hold_resolved_dimensions r) (verdict_dimension (vr_verdict result))"
    using cleared_dimension_is_decided [OF assms(1-4)] assms(5,6) by metis
  with steps_keep_decided [OF assms(7)] human_decision_is_final show ?thesis by blast
qed

theorem cleared_dimension_is_closed_to_machines_witness:
  "let db1 = fst (adjudicate default_options (clear_criminal ''o1'') (one_app under_review_row));
       db2 = fst (createApplication ''app2'' None (si_row sample_filing) ''c2'' db1)
   in snd (applyVettingResult default_options None
        \<lparr>vr_application_id = ''app'', vr_agency = RDF, vr_correlation_id = ''c'',
         vr_verdict = CriminalVerdict FLAGGED_CONVICTION ''NONE'' ''rib''\<rparr> db2) = Vetting_NO_CHANGE"
proof -
  obtain db' ap where run: "adjudicate default_options (clear_criminal ''o1'') (one_app under_review_row) =
      (db', Adjudicate_APPLIED ap)" "aj_lane_decided ap = LANE_CRIMINAL" by (rule clear_criminal_runs)
  show ?thesis
    unfolding Let_def run(1) fst_conv
    by (subst cleared_dimension_is_closed_to_machines [OF run(1) _ _ _ _ _ r_into_rtranclp [of step, OF step.Create]])
       (simp_all add: run(2) clear_criminal_def rdf_officer_def)
qed

lemma newest_entry_is_last:
  assumes "clock_ok db" and "trail db a i = es @ [(f, t)]"
  shows "map_option from_status (latest_entry_into db a i t) = Some f"
proof -
  let ?rows = "rows_of i (history_of db a)"
  from assms(2) obtain hs h where rows: "?rows = hs @ [h]" and h: "from_status h = f" "to_status h = t"
    unfolding trail_def by (cases ?rows rule: rev_cases) auto
  have "sorted (map performed_at ?rows)"
    using assms(1) unfolding clock_ok_def rows_of_def by (simp add: sorted_filter)
  then have "sorted (map performed_at (filter (\<lambda>h. to_status h = t) ?rows))" by (rule sorted_filter)
  then have "latest_entry_into db a i t = Some h"
    unfolding latest_entry_into_def by (subst latest_by_sorted) (simp_all add: rows h)
  with h show ?thesis by simp
qed

end
