(* ===== verification/Tour.thy ===== *)
theory Tour
  imports Platform
begin

text \<open>
  A concrete run of the platform: a walk-in from registration to acceptance, a second filing of the
  same citizen, and a document hold on the way. The theorems on reachable states are exhibited on it.
\<close>

definition score_arrives :: "string database \<Rightarrow> string database" where
  "score_arrives db =
     update_schema RDF (\<lambda>s. s\<lparr>physical_test_scores := physical_test_scores s @
       [sample_score ''s1'' ''app'' ''h'' 5 False]\<rparr>) (pass_time 1 db)"

definition age_cleared :: vetting_result where
  "age_cleared = \<lparr>vr_application_id = ''app'', vr_agency = RDF, vr_correlation_id = ''c'', vr_verdict = AgeVerdict ELIGIBLE JNull\<rparr>"

definition tour_1 :: "string database" where
  "tour_1 = fst (createWalkInApplication (\<lambda>d. d) ''app'' (\<lambda>_. [])
     \<lparr>wi_actor = rdf_officer ''field'', wi_applicantId = ''citizen'', wi_campaignId = ''campaign'', wi_category = GENERAL_ENLISTMENT,
      wi_nesaIndexNumber = None, wi_hecRegistrationNumber = None, wi_qrInvitationCode = ''QR''\<rparr> (sample_db empty_schema))"

definition tour_2 :: "string database" where
  "tour_2 = fst (vetOnSite (\<lambda>_. []) \<lparr>vs_actor = rdf_officer ''field'', vs_applicationId = ''app''\<rparr>
     (fst (applyVettingResult default_options None age_cleared tour_1)))"

definition tour_3 :: "string database" where
  "tour_3 = fst (applyPhysicalTestComplete sample_score_event (score_arrives tour_2))"

definition tour_4 :: "string database" where
  "tour_4 = fst (finalDecision default_sod
     \<lparr>fd_actor = rdf_officer ''board'', fd_applicationId = ''app'', fd_decision = SHORTLIST, fd_notes = None\<rparr>
     (fst (medicalReview \<lparr>mr_actor = rdf_officer ''doctor'', mr_applicationId = ''app'', mr_mode = BOARD FIT\<rparr> tour_3)))"

definition tour_5 :: "string database" where
  "tour_5 = fst (accept default_sod \<lparr>ac_actor = rdf_officer ''commander'', ac_applicationId = ''app''\<rparr> tour_4)"

lemma tour_statuses:
  "map (\<lambda>db. status_of db RDF ''app'') [tour_1, tour_2, tour_3, tour_4, tour_5] =
   [Some WALK_IN_REGISTERED, Some WALK_IN_ON_SITE_VETTING, Some WALK_IN_PHYSICAL_TEST, Some FINAL_SHORTLIST, Some ACCEPTED]"
  by code_simp

lemma score_arrives_foreign: "foreign_write db (score_arrives db)"
  by (simp add: foreign_write_def score_arrives_def pass_time_def update_schema_def)

lemma tour_reachable: "reachable tour_4" "reachable tour_5"
proof -
  have "initial (sample_db empty_schema)" by (simp add: initial_def sample_db_def empty_schema_def)
  then have 1: "reachable tour_1" unfolding tour_1_def by (rule reachable.Step [OF reachable.Initial step.WalkIn])
  have 2: "reachable tour_2" unfolding tour_2_def
    by (rule reachable.Step [OF reachable.Step [OF 1 step.Vetting] step.VetOnSite])
  have 3: "reachable tour_3" unfolding tour_3_def
    by (rule reachable.Step [OF reachable.Step [OF 2 step.Foreign [OF score_arrives_foreign]] step.PhysicalTest])
  show 4: "reachable tour_4" unfolding tour_4_def
    by (rule reachable.Step [OF reachable.Step [OF 3 step.Medical] step.Final])
  show "reachable tour_5" unfolding tour_5_def by (rule reachable.Step [OF 4 step.Accept])
qed


definition tour_second :: "string database" where
  "tour_second = fst (createApplication ''app2'' None
     ((si_row sample_filing)\<lparr>fd_category := RESERVE_FORCE_ALEVEL\<rparr>) ''c'' tour_1)"

definition tour_held :: "string database" where
  "tour_held = fst (applyForensicsRouting
     \<lparr>fr_applicationId = ''app'', fr_agency = RDF, fr_lane = AMBER, fr_documentId = ''d'', fr_correlationId = ''c''\<rparr> tour_3)"

lemma tour_branches:
  "status_of tour_second RDF ''app'' = Some WALK_IN_REGISTERED \<and> status_of tour_second RDF ''app2'' = Some SUBMITTED"
  "status_of tour_held RDF ''app'' = Some ADJUDICATION_REVIEW"
  by code_simp+

lemma tour_branches_reachable: "reachable tour_second" "reachable tour_held"
proof -
  have 1: "reachable tour_1" unfolding tour_1_def
    by (rule reachable.Step [OF reachable.Initial step.WalkIn]) (simp add: initial_def sample_db_def empty_schema_def)
  then show "reachable tour_second" unfolding tour_second_def by (rule reachable.Step [OF _ step.Create])
  have 3: "reachable tour_3" unfolding tour_3_def tour_2_def
    by (rule reachable.Step [OF reachable.Step [OF reachable.Step [OF reachable.Step [OF 1 step.Vetting] step.VetOnSite]
        step.Foreign [OF score_arrives_foreign]] step.PhysicalTest])
  then show "reachable tour_held" unfolding tour_held_def by (rule reachable.Step [OF _ step.Forensics])
qed


end
