(* ===== verification/Canonical.thy ===== *)
theory Canonical
  imports Prelude
begin

text \<open>
  Canonical JSON and the signatures over it: \<open>packages/shared-security/src/canonical.ts\<close>,
  \<open>hashing.ts\<close> and \<open>signing.ts\<close>. SHA-256 and Ed25519 belong to \<open>node:crypto\<close> and are parameters;
  what is proved is that the bytes they see determine the value that was serialised.
\<close>

subsection \<open>Objects\<close>

text \<open>
  The own keys of an object, in the order JavaScript enumerates them: array indices by value, then
  the other names in the order they were created.
\<close>

definition is_array_index :: "string \<Rightarrow> bool" where
  "is_array_index k \<longleftrightarrow>
     k \<noteq> [] \<and> list_all is_digit k \<and> (hd k \<noteq> CHR ''0'' \<or> length k = 1) \<and> digits_val k < 2 ^ 32 - 1"

definition own_order :: "(string \<times> 'a) list \<Rightarrow> (string \<times> 'a) list" where
  "own_order kvs =
     sort_key (digits_val \<circ> fst) (filter (is_array_index \<circ> fst) kvs) @ filter (Not \<circ> is_array_index \<circ> fst) kvs"

text \<open>
  Assigning to \<open>__proto__\<close> of a plain object creates no property.
\<close>

definition assigned :: "(string \<times> 'a) list \<Rightarrow> (string \<times> 'a) list" where
  "assigned kvs = own_order (filter (\<lambda>(k, _). k \<noteq> ''__proto__'') kvs)"

fun sortValue :: "json \<Rightarrow> json" where
  "sortValue (JArr vs) = JArr (map sortValue vs)"
| "sortValue (JObj kvs) = JObj (assigned (sort_key fst (map (\<lambda>(k, v). (k, sortValue v)) kvs)))"
| "sortValue JNull = JNull"
| "sortValue (JBool b) = JBool b"
| "sortValue (JNum x) = JNum x"
| "sortValue (JStr s) = JStr s"

subsection \<open>Serialisation\<close>

text \<open>\<open>JSON.stringify\<close> of a string: two-letter escapes, and a four-digit escape for the other control characters.\<close>

definition hex_digit :: "nat \<Rightarrow> char" where
  "hex_digit n = (if n < 10 then char_of (48 + n) else char_of (87 + n))"

definition quote_char :: "char \<Rightarrow> string" where
  "quote_char c =
     (let n = of_char c :: nat in
      if n = 34 then [CHR 0x5C, CHR 0x22]
      else if n = 92 then [CHR 0x5C, CHR 0x5C]
      else if n = 8 then [CHR 0x5C, CHR ''b'']
      else if n = 12 then [CHR 0x5C, CHR ''f'']
      else if n = 10 then [CHR 0x5C, CHR ''n'']
      else if n = 13 then [CHR 0x5C, CHR ''r'']
      else if n = 9 then [CHR 0x5C, CHR ''t'']
      else if n < 32 then [CHR 0x5C, CHR ''u'', CHR ''0'', CHR ''0'', hex_digit (n div 16), hex_digit (n mod 16)]
      else [c])"

definition json_quote :: "string \<Rightarrow> string" where
  "json_quote s = CHR 0x22 # concat (map quote_char s) @ [CHR 0x22]"

text \<open>
  A whole number up to \<open>2^53\<close> prints as its decimal digits; every other number prints the way the
  runtime prints it (\<open>Number::toString\<close>), a parameter.
\<close>

definition show_int :: "int \<Rightarrow> string" where
  "show_int n = (if n < 0 then CHR ''-'' # decimal (nat (- n)) else decimal (nat n))"

definition is_whole :: "real \<Rightarrow> bool" where
  "is_whole x \<longleftrightarrow> of_int \<lfloor>x\<rfloor> = x \<and> \<bar>x\<bar> \<le> 2 ^ 53"

definition show_number :: "(real \<Rightarrow> string) \<Rightarrow> real \<Rightarrow> string" where
  "show_number show_fraction x = (if is_whole x then show_int \<lfloor>x\<rfloor> else show_fraction x)"

fun commas :: "string list \<Rightarrow> string" where
  "commas [] = []"
| "commas [s] = s"
| "commas (s # t # ss) = s @ CHR '','' # commas (t # ss)"

fun stringify :: "(real \<Rightarrow> string) \<Rightarrow> json \<Rightarrow> string" where
  "stringify f JNull = ''null''"
| "stringify f (JBool b) = (if b then ''true'' else ''false'')"
| "stringify f (JNum x) = show_number f x"
| "stringify f (JStr s) = json_quote s"
| "stringify f (JArr vs) = ''['' @ commas (map (stringify f) vs) @ '']''"
| "stringify f (JObj kvs) = ''{'' @ commas (map (\<lambda>(k, v). json_quote k @ '':'' @ stringify f v) kvs) @ ''}''"

definition canonicalJson :: "(real \<Rightarrow> string) \<Rightarrow> json \<Rightarrow> string" where
  "canonicalJson f v = stringify f (sortValue v)"

subsection \<open>The serialisation determines the value\<close>

text \<open>Reading one quoted character back.\<close>

definition hex_value :: "char \<Rightarrow> nat" where
  "hex_value c = (let n = of_char c :: nat in if n < 58 then n - 48 else n - 87)"

fun unquote_char :: "string \<Rightarrow> (char \<times> string) option" where
  "unquote_char [] = None"
| "unquote_char (c # cs) =
     (if of_char c = (92 :: nat) then
        (case cs of
           [] \<Rightarrow> None
         | e # es \<Rightarrow>
             if e = CHR ''b'' then Some (CHR 0x08, es)
             else if e = CHR ''f'' then Some (CHR 0x0C, es)
             else if e = CHR ''n'' then Some (CHR 0x0A, es)
             else if e = CHR ''r'' then Some (CHR 0x0D, es)
             else if e = CHR ''t'' then Some (CHR 0x09, es)
             else if e = CHR ''u'' then
               (case es of
                  _ # _ # h # l # rest \<Rightarrow> Some (char_of (16 * hex_value h + hex_value l), rest)
                | _ \<Rightarrow> None)
             else Some (e, es))
      else Some (c, cs))"

lemma hex_value_digit: "n < 16 \<Longrightarrow> hex_value (hex_digit n) = n"
  by (auto simp: hex_value_def hex_digit_def Let_def of_char_of)

lemma char_literals:
  "char_of (34 :: nat) = CHR 0x22" "char_of (92 :: nat) = CHR 0x5C" "char_of (8 :: nat) = CHR 0x08"
  "char_of (12 :: nat) = CHR 0x0C" "char_of (10 :: nat) = CHR 0x0A" "char_of (13 :: nat) = CHR 0x0D"
  "char_of (9 :: nat) = CHR 0x09"
  by code_simp+

lemma unquote_quote: "unquote_char (quote_char c @ rest) = Some (c, rest)"
proof -
  define n where "n = (of_char c :: nat)"
  have c: "c = char_of n" by (simp add: n_def)
  have "n < 256" by (simp add: n_def nat_of_char_less_256)
  consider "n \<in> {34, 92, 8, 12, 10, 13, 9}" | "n < 32" "n \<notin> {8, 12, 10, 13, 9}" | "32 \<le> n" "n \<noteq> 34" "n \<noteq> 92"
    by (cases "n < 32") (blast, fastforce)
  then show ?thesis
  proof cases
    case 1
    then show ?thesis unfolding c by (auto simp: quote_char_def of_char_of char_literals)
  next
    case 2
    have "16 * (n div 16) + n mod 16 = n" by simp
    with 2 show ?thesis unfolding c by (auto simp: quote_char_def of_char_of hex_value_digit Let_def)
  next
    case 3
    then show ?thesis using \<open>n < 256\<close> unfolding c by (auto simp: quote_char_def of_char_of Let_def)
  qed
qed

lemma quote_char_head: "\<exists>d ds. quote_char c = d # ds \<and> of_char d \<noteq> (34 :: nat)"
  by (auto simp: quote_char_def Let_def of_char_of)

lemma json_quote_body:
  "concat (map quote_char s) @ CHR 0x22 # r = concat (map quote_char t) @ CHR 0x22 # r' \<Longrightarrow> s = t \<and> r = r'"
proof (induction s arbitrary: t)
  case Nil
  then show ?case using quote_char_head [of "hd t"] by (cases t) (auto simp: of_char_of)
next
  case (Cons c s)
  then obtain d t' where t: "t = d # t'"
    using quote_char_head [of c] by (cases t) (auto simp: of_char_of)
  have "unquote_char (quote_char c @ concat (map quote_char s) @ CHR 0x22 # r) =
      unquote_char (quote_char d @ concat (map quote_char t') @ CHR 0x22 # r')"
    using Cons.prems unfolding t by simp
  then have "c = d" and "concat (map quote_char s) @ CHR 0x22 # r = concat (map quote_char t') @ CHR 0x22 # r'"
    unfolding unquote_quote by simp_all
  with Cons.IH t show ?case by blast
qed

lemma json_quote_unambiguous: "json_quote s @ r = json_quote t @ r' \<Longrightarrow> s = t \<and> r = r'"
  using json_quote_body [of s r t r'] by (simp add: json_quote_def)

text \<open>What may follow a value: the end, a comma or a closing bracket.\<close>

definition ended :: "string \<Rightarrow> bool" where
  "ended r \<longleftrightarrow> r = [] \<or> hd r \<in> set '',]}''"

lemma decimal_digits: "list_all is_digit (decimal n) \<and> decimal n \<noteq> []"
proof (induction n rule: decimal.induct)
  case (1 n)
  have "is_digit (digit_char m)" if "m < 10" for m
    using that by (simp add: is_digit_def digit_char_def of_char_of Let_def)
  with 1 show ?case by (simp add: decimal.simps [of n])
qed

text \<open>The characters a printed number is made of.\<close>

definition number_char :: "char \<Rightarrow> bool" where
  "number_char c \<longleftrightarrow> is_digit c \<or> c \<in> set ''-+.e''"

text \<open>
  What the signatures rely on about \<open>Number::toString\<close>, for a set of numbers the runtime can hold: it
  uses the characters of a number and no two of those numbers print alike.
\<close>

definition printer :: "(real \<Rightarrow> string) \<Rightarrow> real set \<Rightarrow> bool" where
  "printer f D \<longleftrightarrow> inj_on (show_number f) D \<and> (\<forall>x \<in> D. \<not> is_whole x \<longrightarrow> f x \<noteq> [] \<and> list_all number_char (f x))"

lemma show_int_chars: "show_int n \<noteq> [] \<and> list_all number_char (show_int n)"
  using decimal_digits [of "nat n"] decimal_digits [of "nat (- n)"]
  by (auto simp: show_int_def number_char_def list_all_iff)

lemma show_number_chars:
  "printer f D \<Longrightarrow> x \<in> D \<Longrightarrow> show_number f x \<noteq> [] \<and> list_all number_char (show_number f x)"
  using show_int_chars by (auto simp: printer_def show_number_def)

lemma decimal_inj_int: "show_int m = show_int n \<Longrightarrow> m = n"
proof -
  assume same: "show_int m = show_int n"
  have "\<not> is_digit CHR ''-''" by (simp add: is_digit_def)
  then have "decimal k \<noteq> CHR ''-'' # cs" for k cs using decimal_digits [of k] by auto
  then have "decimal k \<noteq> CHR ''-'' # cs" "CHR ''-'' # cs \<noteq> decimal k" for k cs by metis+
  with same show "m = n" by (auto simp: show_int_def dest!: decimal_inj split: if_splits)
qed

text \<open>Whatever the runtime does with fractions, whole numbers alone have such a printer.\<close>

lemma show_number_whole:
  "is_whole x \<Longrightarrow> is_whole y \<Longrightarrow> show_number f x = show_number f y \<Longrightarrow> x = y"
  using decimal_inj_int by (auto simp: show_number_def is_whole_def)

lemma ended_no_number: "ended r \<Longrightarrow> takeWhile number_char r = []"
  by (cases r) (auto simp: ended_def number_char_def is_digit_def)

lemma show_number_unambiguous:
  assumes "printer f D" and "x \<in> D" and "y \<in> D" and "show_number f x @ r = show_number f y @ s"
    and "ended r" and "ended s"
  shows "x = y \<and> r = s"
proof -
  have read: "takeWhile number_char (show_number f z @ q) = show_number f z" if "z \<in> D" "ended q" for z q
    using show_number_chars [OF assms(1) that(1)] ended_no_number [OF that(2)] by (simp add: list_all_iff)
  have "show_number f x = show_number f y"
    using read [OF assms(2,5)] read [OF assms(3,6)] assms(4) by simp
  with assms show ?thesis by (auto simp: printer_def dest: inj_onD)
qed

text \<open>Values whose numbers all lie in such a set.\<close>

fun numbers_in :: "real set \<Rightarrow> json \<Rightarrow> bool" where
  "numbers_in D (JNum x) \<longleftrightarrow> x \<in> D"
| "numbers_in D (JArr vs) \<longleftrightarrow> list_all (numbers_in D) vs"
| "numbers_in D (JObj kvs) \<longleftrightarrow> list_all (\<lambda>(k, v). numbers_in D v) kvs"
| "numbers_in D JNull \<longleftrightarrow> True"
| "numbers_in D (JBool b) \<longleftrightarrow> True"
| "numbers_in D (JStr s) \<longleftrightarrow> True"

text \<open>The first character tells the kind of value.\<close>

definition kind :: "json \<Rightarrow> nat" where
  "kind v = (case v of JNull \<Rightarrow> 0 | JBool True \<Rightarrow> 1 | JBool False \<Rightarrow> 2 | JNum _ \<Rightarrow> 3 | JStr _ \<Rightarrow> 4 | JArr _ \<Rightarrow> 5 | JObj _ \<Rightarrow> 6)"

definition kind_of_head :: "char \<Rightarrow> nat" where
  "kind_of_head c =
     (if c = CHR ''n'' then 0 else if c = CHR ''t'' then 1 else if c = CHR ''f'' then 2
      else if c = CHR 0x22 then 4 else if c = CHR ''['' then 5 else if c = CHR ''{'' then 6 else 3)"

lemma number_head: "number_char c \<Longrightarrow> kind_of_head c = 3 \<and> c \<notin> set '',]}''"
proof -
  assume "number_char c"
  moreover have "list_all (\<lambda>d. \<not> number_char d) (CHR 0x22 # ''ntf[{,]}'')" by code_simp
  ultimately have "c \<notin> set (CHR 0x22 # ''ntf[{,]}'')" unfolding list_all_iff by metis
  then show ?thesis by (simp add: kind_of_head_def)
qed

lemma stringify_head:
  assumes "printer f D" and "numbers_in D v"
  shows "\<exists>c cs. stringify f v = c # cs \<and> kind_of_head c = kind v \<and> c \<notin> set '',]}''"
proof (cases v)
  case (JNum x)
  then obtain c cs where "show_number f x = c # cs" "number_char c"
    using show_number_chars [OF assms(1), of x] assms(2) by (cases "show_number f x") auto
  with number_head [of c] JNum show ?thesis by (auto simp: kind_def)
qed (auto simp: kind_def kind_of_head_def json_quote_def)

text \<open>Bracketed, comma-separated lists of unambiguous items.\<close>

definition unambiguous :: "('a \<Rightarrow> string) \<Rightarrow> ('a \<Rightarrow> bool) \<Rightarrow> 'a \<Rightarrow> bool" where
  "unambiguous g P x \<longleftrightarrow>
     (\<forall>y r s. P y \<longrightarrow> ended r \<longrightarrow> ended s \<longrightarrow> g x @ r = g y @ s \<longrightarrow> x = y \<and> r = s)"

lemma commas_cons: "commas (s # ss) = (if ss = [] then s else s @ CHR '','' # commas ss)"
  by (cases ss) auto

lemma ended_closing: "c \<in> set '',]}'' \<Longrightarrow> ended (c # cs)"
  by (simp add: ended_def)

lemma commas_unambiguous:
  assumes "\<And>x. x \<in> set xs \<Longrightarrow> unambiguous g P x" and "list_all P xs" and "list_all P ys"
    and "\<And>x. P x \<Longrightarrow> \<exists>c cs. g x = c # cs \<and> c \<notin> set '',]}''" and "close \<in> set '']}''"
    and "commas (map g xs) @ close # r = commas (map g ys) @ close # s"
  shows "xs = ys \<and> r = s"
  using assms(1-3,6)
proof (induction xs arbitrary: ys)
  case Nil
  show ?case
  proof (cases ys)
    case (Cons y ys')
    then obtain c cs where "g y = c # cs" "c \<notin> set '',]}''" using assms(4) [of y] Nil.prems(3) by auto
    with Cons Nil.prems(4) assms(5) show ?thesis by (auto simp: commas_cons split: if_splits)
  qed (use Nil.prems in simp)
next
  case (Cons x xs)
  obtain y ys' where ys: "ys = y # ys'"
  proof (cases ys)
    case Nil
    obtain c cs where "g x = c # cs" "c \<notin> set '',]}''" using assms(4) [of x] Cons.prems(2) by auto
    with Nil Cons.prems(4) assms(5) show ?thesis by (auto simp: commas_cons split: if_splits)
  qed
  define tl_of where "tl_of zs q = (if zs = [] then close # q else CHR '','' # commas (map g zs) @ close # q)" for zs q
  have ended: "ended (tl_of zs q)" for zs q using assms(5) by (auto simp: tl_of_def ended_def)
  have split: "commas (map g (z # zs)) @ close # q = g z @ tl_of zs q" for z zs q
    by (simp add: commas_cons tl_of_def)
  have "g x @ tl_of xs r = g y @ tl_of ys' s"
    using Cons.prems(4) unfolding ys split .
  moreover have "unambiguous g P x" "P y" using Cons.prems ys by auto
  ultimately have xy: "x = y" and tails: "tl_of xs r = tl_of ys' s"
    using ended unfolding unambiguous_def by blast+
  have "xs = ys' \<and> r = s"
  proof (cases "xs = []")
    case True
    with tails assms(5) show ?thesis by (auto simp: tl_of_def split: if_splits)
  next
    case False
    with tails assms(5) have "commas (map g xs) @ close # r = commas (map g ys') @ close # s"
      by (auto simp: tl_of_def split: if_splits)
    with Cons.IH [of ys'] Cons.prems ys show ?thesis by simp
  qed
  with xy ys show ?case by simp
qed

lemma same_kind:
  assumes "printer f D" and "numbers_in D v" and "numbers_in D w" and "stringify f v @ r = stringify f w @ s"
  shows "kind v = kind w"
  using stringify_head [OF assms(1,2)] stringify_head [OF assms(1,3)] assms(4) by auto

lemma object_items:
  fixes f :: "real \<Rightarrow> string"
  defines "g \<equiv> \<lambda>(k, v). json_quote k @ '':'' @ stringify f v"
  shows "unambiguous (stringify f) (numbers_in D) v \<Longrightarrow> unambiguous g ((numbers_in D) \<circ> snd) (k, v)"
    and "\<exists>c cs. g x = c # cs \<and> c \<notin> set '',]}''"
  unfolding g_def unambiguous_def
   apply (auto simp: comp_def)
   apply (drule json_quote_unambiguous; simp)+
  by (cases x) (simp add: json_quote_def)

lemma stringify_unambiguous:
  assumes "printer f D" and "numbers_in D v" shows "unambiguous (stringify f) (numbers_in D) v"
  using assms
proof (induction D v rule: numbers_in.induct)
  case (1 D x)
  show ?case unfolding unambiguous_def
  proof (intro allI impI)
    fix y r s assume y: "numbers_in D y" "ended r" "ended s" "stringify f (JNum x) @ r = stringify f y @ s"
    with same_kind [OF 1(1,2) y(1,4)] obtain z where "y = JNum z" by (cases y) (auto simp: kind_def split: bool.splits)
    with y 1 show "JNum x = y \<and> r = s" using show_number_unambiguous [OF 1(1), of x z r s] by simp
  qed
next
  case (2 D vs)
  show ?case unfolding unambiguous_def
  proof (intro allI impI)
    fix y r s assume y: "numbers_in D y" "ended r" "ended s" "stringify f (JArr vs) @ r = stringify f y @ s"
    with same_kind [OF 2(2,3) y(1,4)] obtain ws where ws: "y = JArr ws" by (cases y) (auto simp: kind_def split: bool.splits)
    have "vs = ws \<and> r = s"
    proof (rule commas_unambiguous [where g = "stringify f" and P = "numbers_in D"])
      show "unambiguous (stringify f) (numbers_in D) v" if "v \<in> set vs" for v
        using 2 that by (simp add: list_all_iff)
      show "\<exists>c cs. stringify f v = c # cs \<and> c \<notin> set '',]}''" if "numbers_in D v" for v
        using stringify_head [OF 2(2) that] by blast
    qed (use 2(3) y ws in auto)
    with ws show "JArr vs = y \<and> r = s" by simp
  qed
next
  case (3 D kvs)
  let ?g = "\<lambda>(k, v). json_quote k @ '':'' @ stringify f v"
  show ?case unfolding unambiguous_def
  proof (intro allI impI)
    fix y r s assume y: "numbers_in D y" "ended r" "ended s" "stringify f (JObj kvs) @ r = stringify f y @ s"
    with same_kind [OF 3(2,3) y(1,4)] obtain ws where ws: "y = JObj ws" by (cases y) (auto simp: kind_def split: bool.splits)
    have "kvs = ws \<and> r = s"
    proof (rule commas_unambiguous [where g = ?g and P = "(numbers_in D) \<circ> snd"])
      show "unambiguous ?g ((numbers_in D) \<circ> snd) x" if "x \<in> set kvs" for x
      proof (cases x)
        case (Pair k v)
        then have "unambiguous (stringify f) (numbers_in D) v"
          using 3 that by (auto simp: list_all_iff)
        then show ?thesis unfolding Pair by (rule object_items(1))
      qed
    qed (use 3(3) y ws object_items(2) in \<open>auto simp: list_all_iff\<close>)
    with ws show "JObj kvs = y \<and> r = s" by simp
  qed
next
  case (4 D)
  show ?case unfolding unambiguous_def
  proof (intro allI impI)
    fix y r s assume y: "numbers_in D y" "ended r" "ended s" "stringify f JNull @ r = stringify f y @ s"
    with same_kind [OF 4(1,2) y(1,4)] have "y = JNull" by (cases y) (auto simp: kind_def split: bool.splits)
    with y show "JNull = y \<and> r = s" by simp
  qed
next
  case (5 D b)
  show ?case unfolding unambiguous_def
  proof (intro allI impI)
    fix y r s assume y: "numbers_in D y" "ended r" "ended s" "stringify f (JBool b) @ r = stringify f y @ s"
    with same_kind [OF 5(1,2) y(1,4)] have "y = JBool b" by (cases y) (auto simp: kind_def split: bool.splits)
    with y show "JBool b = y \<and> r = s" by simp
  qed
next
  case (6 D t)
  show ?case unfolding unambiguous_def
  proof (intro allI impI)
    fix y r s assume y: "numbers_in D y" "ended r" "ended s" "stringify f (JStr t) @ r = stringify f y @ s"
    with same_kind [OF 6(1,2) y(1,4)] obtain u where "y = JStr u" by (cases y) (auto simp: kind_def split: bool.splits)
    with y show "JStr t = y \<and> r = s" using json_quote_unambiguous [of t r u s] by simp
  qed
qed

subsection \<open>What canonical equality means\<close>

lemma set_own_order [simp]: "set (own_order kvs) = set kvs"
  by (auto simp: own_order_def)

lemma set_assigned: "set (assigned kvs) = {(k, v) \<in> set kvs. k \<noteq> ''__proto__''}"
  by (auto simp: assigned_def)

lemma own_order_distinct: "distinct (map fst kvs) \<Longrightarrow> distinct (map fst (own_order kvs))"
proof -
  assume *: "distinct (map fst kvs)"
  have part: "distinct (map fst (filter P kvs))" for P by (rule distinct_map_filter [OF *])
  have "distinct (map fst (sort_key (digits_val \<circ> fst) (filter (is_array_index \<circ> fst) kvs)))"
    using part by (metis distinct_map set_sort distinct_sort)
  with part show ?thesis by (auto simp: own_order_def)
qed

lemma numbers_in_sortValue: "numbers_in D v \<Longrightarrow> numbers_in D (sortValue v)"
proof (induction v rule: sortValue.induct)
  case (2 kvs)
  then show ?case by (auto simp: list_all_iff set_assigned split_beta)
qed (auto simp: list_all_iff)

lemma canonicalJson_iff:
  assumes "printer f D" and "numbers_in D v" and "numbers_in D w"
  shows "canonicalJson f v = canonicalJson f w \<longleftrightarrow> sortValue v = sortValue w"
proof
  assume *: "canonicalJson f v = canonicalJson f w"
  have "unambiguous (stringify f) (numbers_in D) (sortValue v)"
    by (rule stringify_unambiguous [OF assms(1) numbers_in_sortValue [OF assms(2)]])
  with * numbers_in_sortValue [OF assms(3)] show "sortValue v = sortValue w"
    unfolding unambiguous_def canonicalJson_def by (metis ended_def)
qed (simp add: canonicalJson_def)

lemma json_get_sortValue:
  assumes "distinct (map fst kvs)" and "k \<noteq> ''__proto__''"
  shows "json_get (sortValue (JObj kvs)) k = map_option sortValue (map_of kvs k)"
proof -
  let ?m = "map (\<lambda>(k, v). (k, sortValue v)) kvs" and ?s = "\<lambda>xs. sort_key fst xs"
  have keys: "map fst ?m = map fst kvs" by (induction kvs) auto
  have "distinct (map fst (?s xs)) \<longleftrightarrow> distinct (map fst xs)" for xs :: "(string \<times> json) list"
    by (simp add: distinct_map)
  then have "distinct (map fst (?s ?m))" using assms(1) keys by metis
  then have dist: "distinct (map fst (assigned (?s ?m)))"
    unfolding assigned_def by (intro own_order_distinct distinct_map_filter)
  have dist': "distinct (map fst ?m)" using assms(1) keys by metis
  have "map_of (assigned (?s ?m)) k = map_of ?m k"
  proof (cases "map_of ?m k")
    case (Some v)
    then have "(k, v) \<in> set (assigned (?s ?m))"
      using dist' assms(2) by (auto simp: set_assigned dest!: map_of_SomeD)
    with Some dist show ?thesis by simp
  next
    case None
    then have "k \<notin> fst ` set (assigned (?s ?m))"
      by (auto simp: set_assigned map_of_eq_None_iff)
    with None show ?thesis by (metis map_of_eq_None_iff)
  qed
  also have "\<dots> = map_option sortValue (map_of kvs k)" by (induction kvs) auto
  finally show ?thesis by simp
qed

text \<open>Two objects with the same canonical text agree on every field.\<close>

lemma canonical_fields_agree:
  assumes "canonicalJson f (JObj kvs) = canonicalJson f (JObj ws)"
    and "printer f D" and "numbers_in D (JObj kvs)" and "numbers_in D (JObj ws)"
    and "distinct (map fst kvs)" and "distinct (map fst ws)" and "k \<noteq> ''__proto__''"
  shows "map_option sortValue (map_of kvs k) = map_option sortValue (map_of ws k)"
  using canonicalJson_iff [OF assms(2-4)] assms(1) json_get_sortValue [OF assms(5,7)]
    json_get_sortValue [OF assms(6,7)] by metis

text \<open>The order in which the fields of an object were written does not matter.\<close>

lemma canonical_ignores_key_order:
  assumes "mset kvs = mset ws" and "distinct (map fst kvs)"
  shows "canonicalJson f (JObj kvs) = canonicalJson f (JObj ws)"
proof -
  let ?g = "\<lambda>(k, v). (k, sortValue v)"
  have "map fst (map ?g kvs) = map fst kvs" by (induction kvs) auto
  with assms(2) have "inj_on fst (set (map ?g kvs))" by (metis distinct_map)
  moreover have "mset (map ?g kvs) = mset (map ?g ws)" using assms(1) by (metis mset_map)
  ultimately have "sort_key fst (map ?g kvs) = sort_key fst (map ?g ws)"
    by (intro sort_key_inj_key_eq) simp_all
  then show ?thesis by (simp add: canonicalJson_def)
qed

end
