(* ===== verification/Clocks.thy ===== *)
theory Clocks
  imports Store
begin

text \<open>
  Vector clocks and the merge policy of \<open>services/field-sync-service\<close> (\<open>domain/vector-clock.ts\<close>,
  \<open>domain/merge.ts\<close>). The interface \<open>causality\<close> states what a comparison of causal positions
  promises and derives, once, how the greatest position of a log behaves as records are appended;
  \<open>compareClocks\<close> is its instance, and \<open>decideMerge\<close> is read through it.
\<close>

subsection \<open>Comparing positions\<close>

datatype clock_relation = DOMINATES | DOMINATED | EQUAL | CONCURRENT

fun flip :: "clock_relation \<Rightarrow> clock_relation" where
  "flip DOMINATES = DOMINATED"
| "flip DOMINATED = DOMINATES"
| "flip EQUAL = EQUAL"
| "flip CONCURRENT = CONCURRENT"

locale causality =
  fixes compare_pos :: "'c \<Rightarrow> 'c \<Rightarrow> clock_relation"
  assumes self: "compare_pos a a = EQUAL"
    and turned: "compare_pos b a = flip (compare_pos a b)"
    and chain: "compare_pos a b \<in> {DOMINATES, EQUAL} \<Longrightarrow> compare_pos b c \<in> {DOMINATES, EQUAL} \<Longrightarrow>
                compare_pos a c \<in> {DOMINATES, EQUAL}"
begin

definition covers :: "'c \<Rightarrow> 'c \<Rightarrow> bool" where
  "covers a b \<longleftrightarrow> compare_pos a b \<in> {DOMINATES, EQUAL}"

definition undominated :: "'c set \<Rightarrow> 'c \<Rightarrow> bool" where
  "undominated S h \<longleftrightarrow> h \<in> S \<and> (\<forall>d \<in> S. compare_pos d h \<noteq> DOMINATES)"

text \<open>A log is settled when one of its positions covers all the others.\<close>

definition settled :: "'c set \<Rightarrow> bool" where
  "settled S \<longleftrightarrow> (\<exists>m \<in> S. \<forall>c \<in> S. covers m c)"

lemma covers_refl: "covers a a"
  by (simp add: covers_def self)

lemma covers_trans: "covers a b \<Longrightarrow> covers b c \<Longrightarrow> covers a c"
  unfolding covers_def by (rule chain)

lemma relation_iff:
  "compare_pos a b = DOMINATES \<longleftrightarrow> covers a b \<and> \<not> covers b a"
  "compare_pos a b = DOMINATED \<longleftrightarrow> covers b a \<and> \<not> covers a b"
  "compare_pos a b = EQUAL \<longleftrightarrow> covers a b \<and> covers b a"
  "compare_pos a b = CONCURRENT \<longleftrightarrow> \<not> covers a b \<and> \<not> covers b a"
  unfolding covers_def turned [of b a] by (cases "compare_pos a b"; simp)+

lemma covered_by_head:
  assumes "finite S" and "c \<in> S" shows "\<exists>h. undominated S h \<and> covers h c"
proof -
  let ?up = "{d \<in> S. covers d c}" and ?above = "\<lambda>a b. compare_pos b a = DOMINATES"
  have "asymp_on ?up ?above" by (rule asymp_onI) (simp add: relation_iff)
  moreover have "transp_on ?up ?above"
    by (rule transp_onI) (use covers_trans in \<open>unfold relation_iff, blast\<close>)
  moreover have "finite ?up" and "?up \<noteq> {}" using assms covers_refl by auto
  ultimately have "\<exists>h \<in> ?up. \<forall>d \<in> ?up. d \<noteq> h \<longrightarrow> \<not> ?above h d"
    by (intro Finite_Set.bex_max_element)
  then obtain h where h: "h \<in> ?up" "\<forall>d \<in> ?up. d \<noteq> h \<longrightarrow> \<not> ?above h d" ..
  have "undominated S h"
    unfolding undominated_def
  proof (intro conjI ballI notI)
    fix d assume d: "d \<in> S" "compare_pos d h = DOMINATES"
    then have "d \<in> ?up" using h(1) covers_trans by (auto simp: relation_iff)
    then show False using h(2) d(2) self [of h] by (metis clock_relation.distinct(3))
  qed (use h(1) in simp)
  with h(1) show ?thesis by auto
qed

lemma concurrent_unsettles:
  assumes "undominated S h" and "compare_pos x h = CONCURRENT" shows "\<not> settled (insert x S)"
proof
  assume "settled (insert x S)"
  then obtain m where m: "m = x \<or> m \<in> S" "covers m x" "\<forall>c \<in> S. covers m c" by (auto simp: settled_def)
  have "h \<in> S" using assms(1) by (simp add: undominated_def)
  with m assms have "m \<in> S" "covers m h" by (auto simp: relation_iff)
  then have "covers h m" using assms(1) by (auto simp: undominated_def relation_iff)
  with m(2) assms(2) show False using covers_trans by (auto simp: relation_iff)
qed

lemma dominating_settles:
  assumes "finite S" and "\<And>h. undominated S h \<Longrightarrow> compare_pos x h = DOMINATES"
  shows "settled (insert x S)" and "undominated (insert x S) h \<longleftrightarrow> h = x"
proof -
  have all: "compare_pos x c = DOMINATES" if "c \<in> S" for c
    using covered_by_head [OF assms(1) that] assms(2) covers_trans by (metis relation_iff(1))
  then show "settled (insert x S)" by (auto simp: settled_def relation_iff covers_refl)
  show "undominated (insert x S) h \<longleftrightarrow> h = x"
    using all by (auto simp: undominated_def relation_iff covers_refl)
qed

lemma covered_adds_nothing:
  assumes "h \<in> S" and "covers h x"
  shows "settled (insert x S) \<longleftrightarrow> settled S"
    and "c \<in> S \<Longrightarrow> undominated (insert x S) c \<longleftrightarrow> undominated S c"
    and "undominated (insert x S) x \<Longrightarrow> compare_pos h x = EQUAL"
proof -
  have under: "covers c x" if "\<forall>d \<in> S. covers c d" for c using that assms covers_trans by blast
  have "covers h c" if "\<forall>d \<in> S. covers x d" "c \<in> S" for c using that assms covers_trans by blast
  with under assms show "settled (insert x S) \<longleftrightarrow> settled S"
    unfolding settled_def by (metis insert_iff covers_refl)
  show "undominated (insert x S) c \<longleftrightarrow> undominated S c" if "c \<in> S"
  proof -
    have "compare_pos x c \<noteq> DOMINATES" if "compare_pos h c \<noteq> DOMINATES"
      using that assms(2) covers_trans unfolding relation_iff by blast
    with assms(1) \<open>c \<in> S\<close> show ?thesis by (auto simp: undominated_def)
  qed
  show "compare_pos h x = EQUAL" if "undominated (insert x S) x"
    using that assms by (auto simp: undominated_def relation_iff)
qed

lemma heads_mutual:
  assumes "undominated S g" and "undominated S h" and "compare_pos g h \<noteq> EQUAL"
  shows "compare_pos g h = CONCURRENT"
  using assms by (auto simp: undominated_def relation_iff)

lemma unsettled_two_heads:
  assumes "finite S" and "S \<noteq> {}"
  shows "\<not> settled S \<longleftrightarrow> (\<exists>g h. undominated S g \<and> undominated S h \<and> compare_pos g h = CONCURRENT)"
proof
  assume *: "\<not> settled S"
  obtain g where g: "undominated S g" using covered_by_head assms by blast
  then obtain c where c: "c \<in> S" "\<not> covers g c" using * by (auto simp: settled_def undominated_def)
  obtain h where h: "undominated S h" "covers h c" using covered_by_head assms(1) c(1) by blast
  then have "compare_pos g h = CONCURRENT"
    using heads_mutual [OF g h(1)] c(2) covers_trans by (metis relation_iff(3))
  with g h(1) show "\<exists>g h. undominated S g \<and> undominated S h \<and> compare_pos g h = CONCURRENT" by blast
next
  assume "\<exists>g h. undominated S g \<and> undominated S h \<and> compare_pos g h = CONCURRENT"
  then obtain g h where gh: "undominated S g" "undominated S h" "compare_pos g h = CONCURRENT" by blast
  show "\<not> settled S"
    using concurrent_unsettles [OF gh(2,3)] gh(1) by (simp add: undominated_def insert_absorb)
qed

end

subsection \<open>Clocks\<close>

text \<open>
  \<open>clock[key] ?? 0\<close>. A clock is a plain object of counters by device; a device id that is also a
  property of \<open>Object.prototype\<close> (such as \<open>constructor\<close>) is outside the model.
\<close>

definition axis :: "vector_clock \<Rightarrow> string \<Rightarrow> int" where
  "axis c k = (case map_of c k of None \<Rightarrow> 0 | Some n \<Rightarrow> n)"

definition both_keys :: "vector_clock \<Rightarrow> vector_clock \<Rightarrow> string list" where
  "both_keys a b = remdups (map fst a @ map fst b)"

fun compare_axis :: "vector_clock \<Rightarrow> vector_clock \<Rightarrow> bool \<times> bool \<Rightarrow> string \<Rightarrow> bool \<times> bool" where
  "compare_axis a b (aGreaterSomewhere, bGreaterSomewhere) key =
     (let av = axis a key; bv = axis b key in
      if bv < av then (True, bGreaterSomewhere)
      else if av < bv then (aGreaterSomewhere, True)
      else (aGreaterSomewhere, bGreaterSomewhere))"

definition compareClocks :: "vector_clock \<Rightarrow> vector_clock \<Rightarrow> clock_relation" where
  "compareClocks a b =
     (case foldl (compare_axis a b) (False, False) (both_keys a b) of
        (aGreaterSomewhere, bGreaterSomewhere) \<Rightarrow>
          if aGreaterSomewhere \<and> bGreaterSomewhere then CONCURRENT
          else if aGreaterSomewhere then DOMINATES
          else if bGreaterSomewhere then DOMINATED
          else EQUAL)"

definition mergeVectorClock :: "vector_clock \<Rightarrow> vector_clock \<Rightarrow> vector_clock" where
  "mergeVectorClock a b = map (\<lambda>key. (key, max (axis a key) (axis b key))) (both_keys a b)"

lemma compare_axis_fold:
  "foldl (compare_axis a b) (x, y) ks =
     (x \<or> (\<exists>k \<in> set ks. axis b k < axis a k), y \<or> (\<exists>k \<in> set ks. axis a k < axis b k))"
  by (induction ks arbitrary: x y) (auto simp: Let_def)

lemma axis_outside: "k \<notin> set (both_keys a b) \<Longrightarrow> axis a k = 0 \<and> axis b k = 0"
proof -
  assume "k \<notin> set (both_keys a b)"
  then have "map_of a k = None" "map_of b k = None" by (simp_all add: both_keys_def map_of_eq_None_iff)
  then show ?thesis by (simp add: axis_def)
qed

lemma compareClocks_pointwise:
  "compareClocks a b =
     (if (\<exists>k. axis b k < axis a k) \<and> (\<exists>k. axis a k < axis b k) then CONCURRENT
      else if \<exists>k. axis b k < axis a k then DOMINATES
      else if \<exists>k. axis a k < axis b k then DOMINATED
      else EQUAL)"
proof -
  have "(\<exists>k \<in> set (both_keys a b). axis b k < axis a k) \<longleftrightarrow> (\<exists>k. axis b k < axis a k)"
    and "(\<exists>k \<in> set (both_keys a b). axis a k < axis b k) \<longleftrightarrow> (\<exists>k. axis a k < axis b k)"
    using axis_outside by (metis less_irrefl)+
  then show ?thesis by (simp add: compareClocks_def compare_axis_fold)
qed

lemma compareClocks_covers: "compareClocks a b \<in> {DOMINATES, EQUAL} \<longleftrightarrow> (\<forall>k. axis b k \<le> axis a k)"
proof -
  have "(\<exists>k. axis a k < axis b k) \<longleftrightarrow> \<not> (\<forall>k. axis b k \<le> axis a k)" by (simp add: not_le)
  then show ?thesis unfolding compareClocks_pointwise by (cases "\<forall>k. axis b k \<le> axis a k") simp_all
qed

interpretation clock: causality compareClocks
proof
  show "compareClocks a a = EQUAL" for a by (simp add: compareClocks_pointwise)
  show "compareClocks b a = flip (compareClocks a b)" for a b by (simp add: compareClocks_pointwise)
  show "compareClocks a c \<in> {DOMINATES, EQUAL}"
    if "compareClocks a b \<in> {DOMINATES, EQUAL}" "compareClocks b c \<in> {DOMINATES, EQUAL}" for a b c
    using that unfolding compareClocks_covers by (meson order_trans)
qed

lemma covers_pointwise: "clock.covers a b \<longleftrightarrow> (\<forall>k. axis b k \<le> axis a k)"
  by (simp add: clock.covers_def compareClocks_covers [simplified])

lemma axis_mergeVectorClock: "axis (mergeVectorClock a b) k = max (axis a k) (axis b k)"
proof -
  have "map_of (map (\<lambda>key. (key, f key)) ks) k = (if k \<in> set ks then Some (f k) else None)"
    for ks and f :: "string \<Rightarrow> int"
    by (induction ks) auto
  then show ?thesis
    using axis_outside [of k a b] by (simp add: mergeVectorClock_def axis_def [of "map _ _"])
qed

subsection \<open>Merging a record into the log\<close>

record stored_record_ref =
  ref_clock :: vector_clock
  ref_hash :: string

datatype merge_decision = ACCEPT | DUPLICATE | SUPERSEDE | STALE | CONFLICT

text \<open>\<open>other !== candidate\<close> compares object identities: the position in the list.\<close>

definition computeHeads :: "('a \<Rightarrow> vector_clock) \<Rightarrow> 'a list \<Rightarrow> 'a list" where
  "computeHeads clock_of records =
     map snd (filter (\<lambda>(i, candidate).
        \<not> list_ex (\<lambda>(j, other). j \<noteq> i \<and> compareClocks (clock_of other) (clock_of candidate) = DOMINATES)
            (enumerate 0 records))
       (enumerate 0 records))"

definition decideMerge :: "stored_record_ref \<Rightarrow> stored_record_ref list \<Rightarrow> merge_decision" where
  "decideMerge incoming existing =
     (if list_ex (\<lambda>r. ref_hash r = ref_hash incoming) existing then DUPLICATE
      else
        let heads = computeHeads ref_clock existing in
        if length heads = 0 then ACCEPT
        else
          let relations = map (\<lambda>h. compareClocks (ref_clock incoming) (ref_clock h)) heads in
          if list_ex (\<lambda>r. r = CONCURRENT) relations then CONFLICT
          else if list_ex (\<lambda>r. r = DOMINATED \<or> r = EQUAL) relations then STALE
          else SUPERSEDE)"

lemma filter_map_snd: "map snd (filter (\<lambda>(i, c). P c) xs) = filter P (map snd xs)"
  by (induction xs) auto

text \<open>No clock dominates itself, so the identity test decides nothing.\<close>

lemma computeHeads_filter:
  "computeHeads f records =
     filter (\<lambda>c. \<not> list_ex (\<lambda>d. compareClocks (f d) (f c) = DOMINATES) records) records"
proof -
  have "list_ex (\<lambda>(j, other). j \<noteq> i \<and> compareClocks (f other) (f c) = DOMINATES) (enumerate 0 records) \<longleftrightarrow>
        list_ex (\<lambda>d. compareClocks (f d) (f c) = DOMINATES) records"
    if "(i, c) \<in> set (enumerate 0 records)" for i c
  proof
    assume "list_ex (\<lambda>(j, other). j \<noteq> i \<and> compareClocks (f other) (f c) = DOMINATES) (enumerate 0 records)"
    then show "list_ex (\<lambda>d. compareClocks (f d) (f c) = DOMINATES) records"
      by (auto simp: list_ex_iff in_set_enumerate_eq)
  next
    assume "list_ex (\<lambda>d. compareClocks (f d) (f c) = DOMINATES) records"
    then obtain j where j: "j < length records" "compareClocks (f (records ! j)) (f c) = DOMINATES"
      by (auto simp: list_ex_iff in_set_conv_nth)
    moreover have "records ! i = c" using that by (simp add: in_set_enumerate_eq)
    ultimately have "j \<noteq> i" using clock.self [of "f c"] by auto
    with j show "list_ex (\<lambda>(j, other). j \<noteq> i \<and> compareClocks (f other) (f c) = DOMINATES) (enumerate 0 records)"
      by (auto simp: list_ex_iff in_set_enumerate_eq intro!: bexI [of _ "(j, records ! j)"])
  qed
  then have "computeHeads f records =
      map snd (filter (\<lambda>(i, c). \<not> list_ex (\<lambda>d. compareClocks (f d) (f c) = DOMINATES) records) (enumerate 0 records))"
    unfolding computeHeads_def by (intro arg_cong [where f = "map snd"] filter_cong) auto
  also have "\<dots> = filter (\<lambda>c. \<not> list_ex (\<lambda>d. compareClocks (f d) (f c) = DOMINATES) records) (map snd (enumerate 0 records))"
    by (rule filter_map_snd)
  finally show ?thesis by simp
qed

lemma in_computeHeads: "r \<in> set (computeHeads f records) \<longleftrightarrow> r \<in> set records \<and> clock.undominated (f ` set records) (f r)"
  by (auto simp: computeHeads_filter clock.undominated_def list_ex_iff)

lemma computeHeads_Nil_iff: "computeHeads f records = [] \<longleftrightarrow> records = []"
proof
  assume *: "computeHeads f records = []"
  show "records = []"
  proof (rule ccontr)
    assume "records \<noteq> []"
    then obtain h where "clock.undominated (f ` set records) h"
      using clock.covered_by_head [of "f ` set records"] by (metis finite_imageI finite_set image_eqI last_in_set)
    then obtain r where "r \<in> set (computeHeads f records)"
      by (auto simp: in_computeHeads clock.undominated_def)
    with * show False by simp
  qed
qed (simp add: computeHeads_def)

text \<open>The decision in terms of the positions already stored.\<close>

abbreviation clocks :: "stored_record_ref list \<Rightarrow> vector_clock set" where
  "clocks kept \<equiv> ref_clock ` set kept"

lemma decideMerge_cases:
  obtains (Duplicate) "ref_hash r \<in> ref_hash ` set kept" and "decideMerge r kept = DUPLICATE"
  | (First) "kept = []" and "decideMerge r kept = ACCEPT"
  | (Concurrent) h where "ref_hash r \<notin> ref_hash ` set kept" and "clock.undominated (clocks kept) h"
      and "compareClocks (ref_clock r) h = CONCURRENT" and "decideMerge r kept = CONFLICT"
  | (Covered) h where "ref_hash r \<notin> ref_hash ` set kept" and "clock.undominated (clocks kept) h"
      and "clock.covers h (ref_clock r)"
      and "\<And>g. clock.undominated (clocks kept) g \<Longrightarrow> compareClocks (ref_clock r) g \<noteq> CONCURRENT"
      and "decideMerge r kept = STALE"
  | (Newest) "ref_hash r \<notin> ref_hash ` set kept" and "kept \<noteq> []"
      and "\<And>h. clock.undominated (clocks kept) h \<Longrightarrow> compareClocks (ref_clock r) h = DOMINATES"
      and "decideMerge r kept = SUPERSEDE"
proof -
  let ?heads = "computeHeads ref_clock kept" and ?rel = "\<lambda>h. compareClocks (ref_clock r) (ref_clock h)"
  have dup: "list_ex (\<lambda>s. ref_hash s = ref_hash r) kept \<longleftrightarrow> ref_hash r \<in> ref_hash ` set kept"
    unfolding list_ex_iff by (metis imageE imageI)
  have head: "clock.undominated (clocks kept) (ref_clock h)" if "h \<in> set ?heads" for h
    using that by (simp add: in_computeHeads)
  have heads: "\<exists>g \<in> set ?heads. ref_clock g = h" if "clock.undominated (clocks kept) h" for h
    using that by (auto simp: in_computeHeads clock.undominated_def)
  have covered: "list_ex (\<lambda>q. q = DOMINATED \<or> q = EQUAL) (map f hs) \<longleftrightarrow> (\<exists>h \<in> set hs. f h \<in> {DOMINATED, EQUAL})"
    for f :: "stored_record_ref \<Rightarrow> clock_relation" and hs by (auto simp: list_ex_iff)
  have peer: "list_ex (\<lambda>q. q = CONCURRENT) (map f hs) \<longleftrightarrow> (\<exists>h \<in> set hs. f h = CONCURRENT)"
    for f :: "stored_record_ref \<Rightarrow> clock_relation" and hs by (induction hs) auto
  note unfolded = decideMerge_def dup covered peer Let_def computeHeads_Nil_iff
  have "?rel h = DOMINATES \<or> ?rel h = CONCURRENT \<or> ?rel h \<in> {DOMINATED, EQUAL}" for h
    by (cases "?rel h") simp_all
  then consider "ref_hash r \<in> ref_hash ` set kept" | "kept = []"
    | h where "ref_hash r \<notin> ref_hash ` set kept" "kept \<noteq> []" "h \<in> set ?heads" "?rel h = CONCURRENT"
    | h where "ref_hash r \<notin> ref_hash ` set kept" "kept \<noteq> []" "\<forall>g \<in> set ?heads. ?rel g \<noteq> CONCURRENT"
        "h \<in> set ?heads" "?rel h \<in> {DOMINATED, EQUAL}"
    | "ref_hash r \<notin> ref_hash ` set kept" "kept \<noteq> []" "\<forall>g \<in> set ?heads. ?rel g = DOMINATES"
    by blast
  then show thesis
  proof cases
    case 1
    then show thesis by (intro Duplicate) (simp_all add: unfolded)
  next
    case 2
    then show thesis by (intro First) (simp_all add: unfolded computeHeads_def)
  next
    case (3 h)
    then show thesis by (intro Concurrent [of "ref_clock h"] head) (auto simp: unfolded)
  next
    case (4 h)
    then have "clock.covers (ref_clock h) (ref_clock r)"
      using clock.turned [of "ref_clock h" "ref_clock r"] by (auto simp: clock.covers_def)
    moreover have "decideMerge r kept = STALE" using 4 by (auto simp: unfolded)
    moreover have "compareClocks (ref_clock r) g \<noteq> CONCURRENT" if "clock.undominated (clocks kept) g" for g
      using heads [OF that] 4(3) by auto
    ultimately show thesis using 4 head by (intro Covered [of "ref_clock h"])
  next
    case 5
    then have "decideMerge r kept = SUPERSEDE" by (auto simp: unfolded)
    with 5 heads show thesis by (intro Newest) (auto, metis)
  qed
qed

subsection \<open>What a log converges to\<close>

text \<open>
  The effect of one verified record on the log of an application and on its conflict flag, as the
  store materialises the decision; and a whole history of uploads.
\<close>

definition absorb :: "stored_record_ref \<Rightarrow> stored_record_ref list \<times> bool \<Rightarrow> stored_record_ref list \<times> bool" where
  "absorb r = (\<lambda>(kept, held).
     case decideMerge r kept of
       ACCEPT \<Rightarrow> (kept @ [r], False)
     | SUPERSEDE \<Rightarrow> (kept @ [r], False)
     | CONFLICT \<Rightarrow> (kept @ [r], True)
     | STALE \<Rightarrow> (kept, held)
     | DUPLICATE \<Rightarrow> (kept, held))"

definition absorbed :: "stored_record_ref list \<Rightarrow> stored_record_ref list \<times> bool" where
  "absorbed xs = fold absorb xs ([], False)"

definition log_summary :: "stored_record_ref list \<Rightarrow> stored_record_ref list \<times> bool \<Rightarrow> bool" where
  "log_summary xs = (\<lambda>(kept, held).
     set kept \<subseteq> set xs \<and> (\<forall>r \<in> set xs. \<exists>h \<in> set kept. clock.covers (ref_clock h) (ref_clock r)) \<and>
     (held \<longleftrightarrow> kept \<noteq> [] \<and> \<not> clock.settled (clocks kept)))"

lemma absorb_summary:
  assumes "log_summary xs (kept, held)"
    and "\<And>q. q \<in> set xs \<Longrightarrow> ref_hash q = ref_hash r \<Longrightarrow> ref_clock q = ref_clock r"
  shows "log_summary (xs @ [r]) (absorb r (kept, held))"
proof (cases r kept rule: decideMerge_cases)
  case Duplicate
  then obtain q where q: "q \<in> set kept" "ref_hash q = ref_hash r" by (metis imageE)
  moreover have "q \<in> set xs" using assms(1) q(1) by (auto simp: log_summary_def)
  ultimately have "ref_clock q = ref_clock r" by (intro assms(2))
  then have "clock.covers (ref_clock q) (ref_clock r)" by (simp add: clock.covers_refl)
  with Duplicate q(1) assms(1) show ?thesis by (auto simp: log_summary_def absorb_def)
next
  case First
  then have "xs = []" using assms(1) by (cases xs) (auto simp: log_summary_def)
  with First show ?thesis
    by (simp add: log_summary_def absorb_def clock.settled_def clock.covers_refl)
next
  case (Concurrent h)
  then have "\<not> clock.settled (insert (ref_clock r) (clocks kept))" by (intro clock.concurrent_unsettles)
  with Concurrent assms(1) show ?thesis
    by (auto simp: log_summary_def absorb_def clock.covers_refl)
next
  case (Covered h)
  then show ?thesis using assms(1) by (auto simp: log_summary_def absorb_def clock.undominated_def)
next
  case Newest
  then have "clock.settled (insert (ref_clock r) (clocks kept))"
    by (intro clock.dominating_settles) auto
  with Newest assms(1) show ?thesis
    by (auto simp: log_summary_def absorb_def clock.covers_refl)
qed

lemma absorbed_summary:
  assumes "\<And>q r. q \<in> set xs \<Longrightarrow> r \<in> set xs \<Longrightarrow> ref_hash q = ref_hash r \<Longrightarrow> ref_clock q = ref_clock r"
  shows "log_summary xs (absorbed xs)"
  using assms
proof (induction xs rule: rev_induct)
  case (snoc r xs)
  have mem: "q \<in> set (xs @ [r])" if "q \<in> set xs" for q using that by simp
  have "log_summary xs (absorbed xs)" by (rule snoc.IH) (rule snoc.prems [OF mem mem])
  then have "log_summary xs (fst (absorbed xs), snd (absorbed xs))" by simp
  then have "log_summary (xs @ [r]) (absorb r (fst (absorbed xs), snd (absorbed xs)))"
    by (rule absorb_summary) (rule snoc.prems [OF mem], simp_all)
  then show ?case by (simp add: absorbed_def)
qed (simp add: log_summary_def absorbed_def)

lemma summary_heads:
  assumes "log_summary xs (kept, held)"
    and "\<And>r s. r \<in> set xs \<Longrightarrow> s \<in> set xs \<Longrightarrow> compareClocks (ref_clock r) (ref_clock s) = EQUAL \<Longrightarrow> r = s"
  shows "set (computeHeads ref_clock kept) = {r \<in> set xs. clock.undominated (clocks xs) (ref_clock r)}"
proof -
  have sub: "set kept \<subseteq> set xs" and cov: "\<forall>r \<in> set xs. \<exists>h \<in> set kept. clock.covers (ref_clock h) (ref_clock r)"
    using assms(1) by (auto simp: log_summary_def)
  have "r \<in> set kept" if r: "r \<in> set xs" "clock.undominated (clocks xs) (ref_clock r)" for r
  proof -
    obtain h where h: "h \<in> set kept" "clock.covers (ref_clock h) (ref_clock r)" using cov r(1) by blast
    moreover have "compareClocks (ref_clock h) (ref_clock r) \<noteq> DOMINATES"
      using that(2) sub h(1) unfolding clock.undominated_def by blast
    ultimately have "compareClocks (ref_clock h) (ref_clock r) = EQUAL" unfolding clock.covers_def by blast
    with assms(2) [of h r] sub h(1) that(1) show ?thesis by blast
  qed
  moreover have "clock.undominated (clocks xs) (ref_clock r)"
    if "r \<in> set kept" "clock.undominated (clocks kept) (ref_clock r)" for r
    unfolding clock.undominated_def
  proof (intro conjI ballI notI)
    show "ref_clock r \<in> clocks xs" using that(1) sub by auto
    fix c assume c: "c \<in> clocks xs" "compareClocks c (ref_clock r) = DOMINATES"
    then obtain h where "h \<in> set kept" "clock.covers (ref_clock h) c" using cov by auto
    then have "compareClocks (ref_clock h) (ref_clock r) = DOMINATES"
      using c(2) clock.covers_trans unfolding clock.relation_iff by blast
    with \<open>h \<in> set kept\<close> that(2) show False by (auto simp: clock.undominated_def)
  qed
  moreover have "clock.undominated (clocks kept) (ref_clock r)"
    if "r \<in> set kept" "clock.undominated (clocks xs) (ref_clock r)" for r
    using that sub unfolding clock.undominated_def by blast
  ultimately show ?thesis using sub by (auto simp: in_computeHeads)
qed

lemma summary_held:
  assumes "log_summary xs (kept, held)" shows "held \<longleftrightarrow> xs \<noteq> [] \<and> \<not> clock.settled (clocks xs)"
proof -
  have sub: "set kept \<subseteq> set xs" and cov: "\<And>r. r \<in> set xs \<Longrightarrow> \<exists>h \<in> set kept. clock.covers (ref_clock h) (ref_clock r)"
    using assms by (auto simp: log_summary_def)
  have "clock.settled (clocks xs)" if settled: "clock.settled (clocks kept)"
  proof -
    obtain m where m: "m \<in> set kept" "\<forall>k \<in> set kept. clock.covers (ref_clock m) (ref_clock k)"
      using settled by (auto simp: clock.settled_def)
    then have "\<forall>r \<in> set xs. clock.covers (ref_clock m) (ref_clock r)" using cov clock.covers_trans by blast
    with m(1) sub show ?thesis by (auto simp: clock.settled_def)
  qed
  moreover have "clock.settled (clocks kept)" if settled: "clock.settled (clocks xs)"
  proof -
    obtain m where m: "m \<in> set xs" "\<forall>r \<in> set xs. clock.covers (ref_clock m) (ref_clock r)"
      using settled by (auto simp: clock.settled_def)
    obtain h where "h \<in> set kept" "clock.covers (ref_clock h) (ref_clock m)" using cov m(1) by blast
    with m(2) sub clock.covers_trans show ?thesis unfolding clock.settled_def by blast
  qed
  ultimately have "clock.settled (clocks kept) \<longleftrightarrow> clock.settled (clocks xs)" by blast
  moreover have "kept = [] \<longleftrightarrow> xs = []" using assms by (cases xs) (auto simp: log_summary_def)
  ultimately show ?thesis using assms by (simp add: log_summary_def)
qed

end
