(* ===== verification/FieldSync.thy ===== *)
theory FieldSync
  imports Clocks Platform "HOL-Library.Monad_Syntax"
begin

text \<open>
  The score log of \<open>services/field-sync-service\<close>: \<open>adapters/field-score-store.pg.ts\<close> merges verified
  records into \<open>physical_test_scores\<close>, \<open>application/sync-field-scores.service.ts\<close> decides what may be
  merged and announces it, \<open>application/resolve-conflict.service.ts\<close> lets an officer settle a conflict.
  The store's transactions act on the same database as the application service, so what they leave is
  what \<open>applyPhysicalTestComplete\<close> finds.
\<close>

subsection \<open>A record and its row\<close>

record physical_test_metrics =
  m_heightCm :: real
  m_weightKg :: real
  m_run3kmTimeSeconds :: real
  m_chestCm :: real
  m_medicalFitnessStatus :: string
  m_additionalNotes :: "string option"

record sync_record_input =
  si_applicationId :: uuid
  si_agency :: agency
  si_qrInvitationCode :: string
  si_deviceId :: string
  si_capturingOfficerId :: uuid
  si_capturedAt :: string
  si_vectorClock :: vector_clock
  si_deviceSignature :: string
  si_signedPayloadHash :: string
  si_metrics :: physical_test_metrics

record captured_context =
  cc_scoreId :: uuid
  cc_campaignId :: uuid
  cc_isWalkIn :: bool

datatype sync_outcome =
    Sync_ACCEPTED captured_context
  | Sync_SUPERSEDED captured_context
  | Sync_CONFLICT captured_context
  | Sync_STALE
  | Sync_DUPLICATE
  | Sync_NOT_FOUND
  | Sync_TICKET_MISMATCH
  | Sync_NOT_ADMITTED

text \<open>Every failure of a statement reaches the caller as this error; the transaction is rolled back.\<close>

datatype field_sync_error = FieldSyncPersistenceError

text \<open>
  What the columns take: an \<open>integer\<close> column refuses a fraction and anything outside 32 bits, a
  \<open>varchar(n)\<close> column refuses a longer text unless the excess is blanks, which it cuts off.
\<close>

definition int4 :: "real \<Rightarrow> int option" where
  "int4 x = (let n = \<lfloor>x\<rfloor> in if of_int n = x \<and> - (2 ^ 31) \<le> n \<and> n < 2 ^ 31 then Some n else None)"

definition varchar :: "nat \<Rightarrow> string \<Rightarrow> string option" where
  "varchar n s =
     (if length s \<le> n then Some s
      else if list_all (\<lambda>c. c = CHR '' '') (drop n s) then Some (take n s) else None)"

text \<open>\<open>INSERT INTO physical_test_scores\<close>; the cast to \<open>timestamptz\<close> is the engine's, a parameter.\<close>

definition new_score ::
  "(string \<Rightarrow> instant option) \<Rightarrow> uuid \<Rightarrow> instant \<Rightarrow> bool \<Rightarrow> sync_record_input \<Rightarrow> score_row option" where
  "new_score timestamptz new_id now isConflict input =
     (let metrics = si_metrics input in
      do {
        device \<leftarrow> varchar 64 (si_deviceId input);
        height \<leftarrow> int4 (m_heightCm metrics);
        weight \<leftarrow> int4 (m_weightKg metrics);
        run \<leftarrow> int4 (m_run3kmTimeSeconds metrics);
        chest \<leftarrow> int4 (m_chestCm metrics);
        fitness \<leftarrow> varchar 20 (m_medicalFitnessStatus metrics);
        notes \<leftarrow> (case m_additionalNotes metrics of None \<Rightarrow> Some None | Some t \<Rightarrow> map_option Some (varchar 500 t));
        signature \<leftarrow> varchar 512 (si_deviceSignature input);
        hash \<leftarrow> varchar 64 (si_signedPayloadHash input);
        captured \<leftarrow> timestamptz (si_capturedAt input);
        Some \<lparr>score_id = new_id, score_application_id = si_applicationId input, vector_clock = si_vectorClock input,
              score_device_id = device, height_cm = Some height, weight_kg = Some weight,
              run_3km_time_seconds = Some run, chest_cm = Some chest, score_medical_fitness = Some fitness,
              additional_notes = notes, device_signature = signature, signed_payload_hash = hash,
              capturing_officer_id = si_capturingOfficerId input, captured_at = captured, synced_at = Some now,
              sync_conflict_detected = isConflict, sync_conflict_resolution = None\<rparr>
      })"

subsection \<open>Merging under the row lock\<close>

definition ticketMatches :: "string option \<Rightarrow> string \<Rightarrow> bool" where
  "ticketMatches issued presented = (case issued of None \<Rightarrow> False | Some code \<Rightarrow> code = presented)"

definition walkInFlag :: "agency \<Rightarrow> app_row \<Rightarrow> bool" where
  "walkInFlag a row = (if a = RDF then is_walk_in row else False)"

definition scores_of :: "'ev database \<Rightarrow> agency \<Rightarrow> uuid \<Rightarrow> score_row list" where
  "scores_of db a i = filter (\<lambda>s. score_application_id s = i) (physical_test_scores (schema_of db a))"

definition insert_score :: "agency \<Rightarrow> score_row \<Rightarrow> 'ev database \<Rightarrow> 'ev database" where
  "insert_score a row = update_schema a (\<lambda>s. s\<lparr>physical_test_scores := physical_test_scores s @ [row]\<rparr>)"

definition update_scores :: "agency \<Rightarrow> (score_row \<Rightarrow> bool) \<Rightarrow> (score_row \<Rightarrow> score_row) \<Rightarrow> 'ev database \<Rightarrow> 'ev database" where
  "update_scores a P f =
     update_schema a (\<lambda>s. s\<lparr>physical_test_scores := map (\<lambda>q. if P q then f q else q) (physical_test_scores s)\<rparr>)"

text \<open>\<open>SET sync_conflict_detected = flag WHERE application_id = i\<close>\<close>

definition flag_scores :: "agency \<Rightarrow> uuid \<Rightarrow> bool \<Rightarrow> 'ev database \<Rightarrow> 'ev database" where
  "flag_scores a i flag =
     update_scores a (\<lambda>q. score_application_id q = i) (\<lambda>q. q\<lparr>sync_conflict_detected := flag\<rparr>)"

definition stored_ref :: "score_row \<Rightarrow> stored_record_ref" where
  "stored_ref s = \<lparr>ref_clock = vector_clock s, ref_hash = signed_payload_hash s\<rparr>"

definition incoming_ref :: "sync_record_input \<Rightarrow> stored_record_ref" where
  "incoming_ref input = \<lparr>ref_clock = si_vectorClock input, ref_hash = si_signedPayloadHash input\<rparr>"

definition sync ::
  "(string \<Rightarrow> instant option) \<Rightarrow> uuid \<Rightarrow> sync_record_input \<Rightarrow> 'ev database \<Rightarrow>
   field_sync_error + 'ev database \<times> sync_outcome" where
  "sync timestamptz new_id input db =
     (let a = si_agency input; i = si_applicationId input in
      case app_of db a i of
        None \<Rightarrow> Inr (db, Sync_NOT_FOUND)
      | Some app \<Rightarrow>
          if \<not> ticketMatches (qr_invitation_code app) (si_qrInvitationCode input)
          then Inr (db, Sync_TICKET_MISMATCH)
          else if \<not> walkInFlag a app \<and> \<not> list_ex (\<lambda>g. adm_application_id g = i) (gate_admissions (schema_of db a))
          then Inr (db, Sync_NOT_ADMITTED)
          else
            let decision = decideMerge (incoming_ref input) (map stored_ref (scores_of db a i)) in
            if decision = DUPLICATE then Inr (db, Sync_DUPLICATE)
            else if decision = STALE then Inr (db, Sync_STALE)
            else
              let isConflict = (decision = CONFLICT);
                  context = \<lparr>cc_scoreId = new_id, cc_campaignId = campaign_id app, cc_isWalkIn = walkInFlag a app\<rparr> in
              case new_score timestamptz new_id (db_now db) isConflict input of
                None \<Rightarrow> Inl FieldSyncPersistenceError
              | Some row \<Rightarrow>
                  Inr (flag_scores a i isConflict (insert_score a row db),
                       if isConflict then Sync_CONFLICT context
                       else if decision = SUPERSEDE then Sync_SUPERSEDED context
                       else Sync_ACCEPTED context))"

subsection \<open>An officer's choice\<close>

record resolve_conflict_input =
  rc_applicationId :: uuid
  rc_agency :: agency
  rc_scoreId :: uuid
  rc_resolution :: string

record resolved_record =
  rr_context :: captured_context
  rr_deviceId :: string
  rr_capturingOfficerId :: uuid
  rr_vectorClock :: vector_clock
  rr_signedPayloadHash :: string

datatype resolve_outcome =
    Resolve_RESOLVED resolved_record
  | Resolve_NOT_FOUND
  | Resolve_NO_CONFLICT
  | Resolve_SCORE_NOT_FOUND

definition resolveConflict ::
  "resolve_conflict_input \<Rightarrow> 'ev database \<Rightarrow> field_sync_error + 'ev database \<times> resolve_outcome" where
  "resolveConflict input db =
     (let a = rc_agency input; i = rc_applicationId input in
      case app_of db a i of
        None \<Rightarrow> Inr (db, Resolve_NOT_FOUND)
      | Some app \<Rightarrow>
          if length (filter sync_conflict_detected (scores_of db a i)) = 0 then Inr (db, Resolve_NO_CONFLICT)
          else
            case filter (\<lambda>s. score_id s = rc_scoreId input \<and> sync_conflict_detected s) (scores_of db a i) of
              [] \<Rightarrow> Inr (db, Resolve_SCORE_NOT_FOUND)
            | rec # _ \<Rightarrow>
                (case varchar 50 (rc_resolution input) of
                   None \<Rightarrow> Inl FieldSyncPersistenceError
                 | Some resolution \<Rightarrow>
                     Inr (update_scores a (\<lambda>q. score_id q = rc_scoreId input)
                            (\<lambda>q. q\<lparr>sync_conflict_resolution := Some resolution\<rparr>)
                            (flag_scores a i False db),
                          Resolve_RESOLVED
                            \<lparr>rr_context = \<lparr>cc_scoreId = rc_scoreId input, cc_campaignId = campaign_id app,
                                          cc_isWalkIn = walkInFlag a app\<rparr>,
                             rr_deviceId = score_device_id rec, rr_capturingOfficerId = capturing_officer_id rec,
                             rr_vectorClock = vector_clock rec, rr_signedPayloadHash = signed_payload_hash rec\<rparr>)))"

subsection \<open>What the statements do to the log\<close>

lemma scores_of_statements [store_simps]:
  "scores_of (insert_score a row db) b j =
     scores_of db b j @ (if a = b \<and> score_application_id row = j then [row] else [])"
  "scores_of (flag_scores a i flag db) b j =
     map (\<lambda>q. if a = b \<and> i = j then q\<lparr>sync_conflict_detected := flag\<rparr> else q) (scores_of db b j)"
  by (auto simp: scores_of_def insert_score_def flag_scores_def update_scores_def schema_of_update_schema
      filter_map comp_def if_distrib [of score_application_id] cong: if_cong intro: filter_cong)

lemma score_statements_frame [store_simps]:
  "app_of (insert_score a row db) b j = app_of db b j"
  "app_of (update_scores a P f db) b j = app_of db b j"
  "app_of (flag_scores a i flag db) b j = app_of db b j"
  by (simp_all add: app_of_def insert_score_def flag_scores_def update_scores_def schema_of_update_schema)

lemma foreign_score_writes:
  "foreign_write db (insert_score a row db)"
  "foreign_write db (update_scores a P f db)"
  "foreign_write db (flag_scores a i flag db)"
  by (simp_all add: foreign_write_def insert_score_def flag_scores_def update_scores_def store_simps)

lemma foreign_write_refl: "foreign_write db db"
  by (simp add: foreign_write_def)

lemma foreign_write_trans:
  assumes "foreign_write db db'" and "foreign_write db' db''" shows "foreign_write db db''"
proof -
  have "\<exists>ident''. applicant_identities db'' p = Some ident'' \<and>
          cross_agency_locked_by_agency ident'' = cross_agency_locked_by_agency ident \<and>
          cross_agency_locked_at ident'' = cross_agency_locked_at ident"
    if "applicant_identities db p = Some ident" for p ident
    using that assms unfolding foreign_write_def by metis
  with assms show ?thesis by (auto simp: foreign_write_def)
qed

lemma new_score_fields:
  assumes "new_score tz k now c input = Some row"
  shows "score_id row = k" and "score_application_id row = si_applicationId input"
    and "vector_clock row = si_vectorClock input" and "sync_conflict_detected row = c"
    and "capturing_officer_id row = si_capturingOfficerId input"
    and "score_device_id row = the (varchar 64 (si_deviceId input))"
    and "varchar 64 (si_signedPayloadHash input) = Some (signed_payload_hash row)"
  using assms by (auto simp: new_score_def Let_def split: bind_splits option.splits)

text \<open>A SHA-256 digest is 64 characters, so the column keeps it whole.\<close>

lemma varchar_short: "length s \<le> n \<Longrightarrow> varchar n s = Some s"
  by (simp add: varchar_def)

lemma stored_ref_flag [simp]: "stored_ref (q\<lparr>sync_conflict_detected := flag\<rparr>) = stored_ref q"
  by (simp add: stored_ref_def)

lemma score_conflict_scores_of: "score_conflict a i db \<longleftrightarrow> list_ex sync_conflict_detected (scores_of db a i)"
  by (auto simp: score_conflict_def scores_of_def list_ex_iff)

subsection \<open>The guards, and the log as the merge policy sees it\<close>

definition may_score :: "'ev database \<Rightarrow> sync_record_input \<Rightarrow> app_row \<Rightarrow> bool" where
  "may_score db input app \<longleftrightarrow>
     app_of db (si_agency input) (si_applicationId input) = Some app \<and>
     qr_invitation_code app = Some (si_qrInvitationCode input) \<and>
     (walkInFlag (si_agency input) app \<or>
      list_ex (\<lambda>g. adm_application_id g = si_applicationId input) (gate_admissions (schema_of db (si_agency input))))"

definition log_of :: "'ev database \<Rightarrow> agency \<Rightarrow> uuid \<Rightarrow> stored_record_ref list \<times> bool" where
  "log_of db a i = (map stored_ref (scores_of db a i), score_conflict a i db)"

lemma sync_cases [consumes 1, case_names Refused Kept Appended]:
  assumes "sync tz k input db = Inr (db', out)"
  obtains "db' = db" and "out \<in> {Sync_NOT_FOUND, Sync_TICKET_MISMATCH, Sync_NOT_ADMITTED}"
      and "\<not> (\<exists>app. may_score db input app)"
  | app where "may_score db input app" and "db' = db" and "out \<in> {Sync_STALE, Sync_DUPLICATE}"
      and "decideMerge (incoming_ref input) (map stored_ref (scores_of db (si_agency input) (si_applicationId input)))
             = (if out = Sync_STALE then STALE else DUPLICATE)"
  | app row decision where "may_score db input app"
      and "decision = decideMerge (incoming_ref input) (map stored_ref (scores_of db (si_agency input) (si_applicationId input)))"
      and "decision \<in> {ACCEPT, SUPERSEDE, CONFLICT}"
      and "new_score tz k (db_now db) (decision = CONFLICT) input = Some row"
      and "db' = flag_scores (si_agency input) (si_applicationId input) (decision = CONFLICT)
                   (insert_score (si_agency input) row db)"
      and "out = (let context = \<lparr>cc_scoreId = k, cc_campaignId = campaign_id app, cc_isWalkIn = walkInFlag (si_agency input) app\<rparr> in
             if decision = CONFLICT then Sync_CONFLICT context
             else if decision = SUPERSEDE then Sync_SUPERSEDED context else Sync_ACCEPTED context)"
proof -
  let ?a = "si_agency input" and ?i = "si_applicationId input"
  let ?d = "decideMerge (incoming_ref input) (map stored_ref (scores_of db ?a ?i))"
  show thesis
  proof (cases "\<exists>app. may_score db input app")
    case False
    then have "\<And>app. app_of db ?a ?i = Some app \<Longrightarrow> ticketMatches (qr_invitation_code app) (si_qrInvitationCode input) \<Longrightarrow>
        \<not> walkInFlag ?a app \<and> \<not> list_ex (\<lambda>g. adm_application_id g = ?i) (gate_admissions (schema_of db ?a))"
      by (auto simp: may_score_def ticketMatches_def split: option.splits)
    with assms False show thesis
      by (intro that(1)) (auto simp: sync_def Let_def split: option.splits if_splits)
  next
    case True
    then obtain app where app: "may_score db input app" ..
    then have unguarded: "sync tz k input db =
        (if ?d = DUPLICATE then Inr (db, Sync_DUPLICATE)
         else if ?d = STALE then Inr (db, Sync_STALE)
         else (let isConflict = (?d = CONFLICT);
                  context = \<lparr>cc_scoreId = k, cc_campaignId = campaign_id app, cc_isWalkIn = walkInFlag ?a app\<rparr> in
              case new_score tz k (db_now db) isConflict input of
                None \<Rightarrow> Inl FieldSyncPersistenceError
              | Some row \<Rightarrow>
                  Inr (flag_scores ?a ?i isConflict (insert_score ?a row db),
                       if isConflict then Sync_CONFLICT context
                       else if ?d = SUPERSEDE then Sync_SUPERSEDED context
                       else Sync_ACCEPTED context)))"
      by (auto simp: sync_def may_score_def ticketMatches_def Let_def)
    show thesis
    proof (cases "?d \<in> {DUPLICATE, STALE}")
      case True
      with assms unguarded show thesis by (intro that(2) [OF app]) auto
    next
      case False
      then have "?d \<in> {ACCEPT, SUPERSEDE, CONFLICT}" by (cases ?d) auto
      moreover from this assms unguarded False obtain row
        where "new_score tz k (db_now db) (?d = CONFLICT) input = Some row"
        by (cases "new_score tz k (db_now db) (?d = CONFLICT) input") (simp_all add: Let_def)
      ultimately show thesis
        using assms unguarded False by (intro that(3) [OF app refl, of row]) (simp_all add: Let_def)
    qed
  qed
qed

lemma sync_foreign: "sync tz k input db = Inr (db', out) \<Longrightarrow> foreign_write db db'"
  by (erule sync_cases)
     (auto intro: foreign_write_trans [OF foreign_score_writes(1) foreign_score_writes(3)] foreign_write_refl)

lemma log_after_append:
  assumes "score_application_id row = i"
  shows "log_of (flag_scores a i flag (insert_score a row db)) a i =
    (map stored_ref (scores_of db a i) @ [stored_ref row], flag)"
  using assms by (auto simp: log_of_def store_simps score_conflict_scores_of list_ex_iff comp_def)

lemma sync_absorbs:
  assumes "may_score db input app" and "length (si_signedPayloadHash input) \<le> 64"
    and "sync tz k input db = Inr (db', out)"
  shows "log_of db' (si_agency input) (si_applicationId input) =
    absorb (incoming_ref input) (log_of db (si_agency input) (si_applicationId input))"
  using assms(3)
proof (cases rule: sync_cases)
  case Refused
  then show ?thesis using assms(1) by blast
next
  case (Kept app')
  then show ?thesis by (auto simp: log_of_def absorb_def split: if_splits)
next
  case (Appended app' row decision)
  have "stored_ref row = incoming_ref input"
    using new_score_fields [OF Appended(4)] assms(2)
    by (simp add: stored_ref_def incoming_ref_def varchar_short)
  with Appended(2,3) show ?thesis
    unfolding Appended(5) log_after_append [OF new_score_fields(2) [OF Appended(4)]]
    by (auto simp: log_of_def absorb_def)
qed

lemma sync_keeps_guards:
  assumes "sync tz k input db = Inr (db', out)" shows "may_score db' other app \<longleftrightarrow> may_score db other app"
  using sync_foreign [OF assms] by (simp add: may_score_def foreign_write_def app_of_def)

subsection \<open>Histories of uploads\<close>

fun sync_all :: "(string \<Rightarrow> instant option) \<Rightarrow> (uuid \<times> sync_record_input) list \<Rightarrow> 'ev database \<Rightarrow>
    field_sync_error + 'ev database" where
  "sync_all tz [] db = Inr db"
| "sync_all tz ((k, input) # us) db =
     (case sync tz k input db of Inl e \<Rightarrow> Inl e | Inr (db', _) \<Rightarrow> sync_all tz us db')"

definition newest_records :: "sync_record_input set \<Rightarrow> sync_record_input set" where
  "newest_records S =
     {input \<in> S. \<forall>other \<in> S. compareClocks (si_vectorClock other) (si_vectorClock input) \<noteq> DOMINATES}"

lemma sync_all_absorbs:
  assumes "sync_all tz us db = Inr db'"
    and "\<And>k input. (k, input) \<in> set us \<Longrightarrow> si_agency input = a \<and> si_applicationId input = i \<and>
           (\<exists>app. may_score db input app) \<and> length (si_signedPayloadHash input) \<le> 64"
  shows "log_of db' a i = fold absorb (map (incoming_ref \<circ> snd) us) (log_of db a i)"
  using assms
proof (induction us arbitrary: db)
  case (Cons u us)
  obtain k input where u: "u = (k, input)" by (cases u)
  have here: "si_agency input = a" "si_applicationId input = i" "\<exists>app. may_score db input app"
      "length (si_signedPayloadHash input) \<le> 64"
    using Cons.prems(2) [of k input] u by auto
  obtain mid out where mid: "sync tz k input db = Inr (mid, out)" "sync_all tz us mid = Inr db'"
    using Cons.prems(1) u by (auto split: sum.splits)
  have "log_of mid a i = absorb (incoming_ref input) (log_of db a i)"
    using sync_absorbs [OF _ here(4) mid(1)] here by auto
  moreover have "log_of db' a i = fold absorb (map (incoming_ref \<circ> snd) us) (log_of mid a i)"
    using Cons.prems(2) sync_keeps_guards [OF mid(1)] by (intro Cons.IH [OF mid(2)]) (metis list.set_intros(2))
  ultimately show ?case by (simp add: u comp_def)
qed simp

lemma stored_heads:
  "signed_payload_hash ` set (computeHeads vector_clock ss) =
   ref_hash ` set (computeHeads ref_clock (map stored_ref ss))"
  by (force simp: in_computeHeads stored_ref_def image_image)

lemma image_selection:
  assumes "N \<subseteq> S" and "\<And>x. x \<in> S \<Longrightarrow> Q (f x) \<longleftrightarrow> x \<in> N" shows "{r \<in> f ` S. Q r} = f ` N"
  using assms by blast

lemma uploads_summary:
  assumes "sync_all tz us db = Inr db'"
    and "\<And>k input. (k, input) \<in> set us \<Longrightarrow> si_agency input = a \<and> si_applicationId input = i \<and>
           (\<exists>app. may_score db input app) \<and> length (si_signedPayloadHash input) \<le> 64"
    and "scores_of db a i = []"
    and "\<And>x y. x \<in> snd ` set us \<Longrightarrow> y \<in> snd ` set us \<Longrightarrow>
           si_signedPayloadHash x = si_signedPayloadHash y \<or>
           compareClocks (si_vectorClock x) (si_vectorClock y) = EQUAL \<Longrightarrow> x = y"
  shows "signed_payload_hash ` set (computeHeads vector_clock (scores_of db' a i)) =
           si_signedPayloadHash ` newest_records (snd ` set us)"
    and "score_conflict a i db' \<longleftrightarrow> 1 < card (newest_records (snd ` set us))"
proof -
  let ?S = "snd ` set us" and ?refs = "map (incoming_ref \<circ> snd) us"
  have start: "log_of db a i = ([], False)"
    using assms(3) by (simp add: log_of_def score_conflict_scores_of)
  have logged: "log_of db' a i = absorbed ?refs"
    unfolding absorbed_def start [symmetric] by (rule sync_all_absorbs [OF assms(1,2)])
  have same_clock: "ref_clock q = ref_clock r" if "q \<in> set ?refs" "r \<in> set ?refs" "ref_hash q = ref_hash r" for q r
  proof -
    from that obtain x y where "x \<in> ?S" "q = incoming_ref x" "y \<in> ?S" "r = incoming_ref y" by auto
    with that(3) assms(4) [of x y] show ?thesis by (simp add: incoming_ref_def)
  qed
  have summary: "log_summary ?refs (map stored_ref (scores_of db' a i), score_conflict a i db')"
  proof -
    have "log_summary ?refs (absorbed ?refs)" by (rule absorbed_summary) (rule same_clock)
    then show ?thesis by (simp add: logged [symmetric] log_of_def)
  qed
  have positions: "clocks ?refs = si_vectorClock ` ?S" by (simp add: image_image incoming_ref_def)
  have top: "clock.undominated (clocks ?refs) (si_vectorClock x) \<longleftrightarrow> x \<in> newest_records ?S" if "x \<in> ?S" for x
    using that unfolding positions by (auto simp: clock.undominated_def newest_records_def)
  have "set (computeHeads ref_clock (map stored_ref (scores_of db' a i))) = incoming_ref ` newest_records ?S"
  proof (subst summary_heads [OF summary])
    fix r s assume rs: "r \<in> set ?refs" "s \<in> set ?refs" "compareClocks (ref_clock r) (ref_clock s) = EQUAL"
    then obtain x y where "x \<in> ?S" "r = incoming_ref x" "y \<in> ?S" "s = incoming_ref y" by auto
    with rs(3) assms(4) [of x y] show "r = s" by (simp add: incoming_ref_def)
  next
    show "{r \<in> set ?refs. clock.undominated (clocks ?refs) (ref_clock r)} = incoming_ref ` newest_records ?S"
    proof -
      have members: "set ?refs = incoming_ref ` ?S" by (simp add: image_image)
      show ?thesis
        unfolding members
      proof (rule image_selection)
        show "newest_records ?S \<subseteq> ?S" by (auto simp: newest_records_def)
        show "clock.undominated (ref_clock ` incoming_ref ` ?S) (ref_clock (incoming_ref x)) \<longleftrightarrow> x \<in> newest_records ?S"
          if "x \<in> ?S" for x
          using top [OF that] members by (simp add: incoming_ref_def)
      qed
    qed
  qed
  then show "signed_payload_hash ` set (computeHeads vector_clock (scores_of db' a i)) =
      si_signedPayloadHash ` newest_records ?S"
    unfolding stored_heads by (simp add: image_image incoming_ref_def)
  have "score_conflict a i db' \<longleftrightarrow> ?refs \<noteq> [] \<and> \<not> clock.settled (clocks ?refs)"
    by (rule summary_held [OF summary])
  also have "\<dots> \<longleftrightarrow> (\<exists>g h. clock.undominated (clocks ?refs) g \<and> clock.undominated (clocks ?refs) h \<and>
      compareClocks g h = CONCURRENT)"
    using clock.unsettled_two_heads [of "clocks ?refs"]
    by (cases us) (auto simp: clock.undominated_def)
  also have "\<dots> \<longleftrightarrow> (\<exists>x \<in> newest_records ?S. \<exists>y \<in> newest_records ?S. x \<noteq> y)" (is "?pair \<longleftrightarrow> _")
  proof
    assume ?pair
    then obtain g h where gh: "clock.undominated (clocks ?refs) g" "clock.undominated (clocks ?refs) h"
        "compareClocks g h = CONCURRENT" by blast
    then obtain x y where "x \<in> ?S" "g = si_vectorClock x" "y \<in> ?S" "h = si_vectorClock y"
      unfolding positions clock.undominated_def by blast
    with gh top clock.self [of g] show "\<exists>x \<in> newest_records ?S. \<exists>y \<in> newest_records ?S. x \<noteq> y"
      by (metis clock_relation.distinct(11))
  next
    assume "\<exists>x \<in> newest_records ?S. \<exists>y \<in> newest_records ?S. x \<noteq> y"
    then obtain x y where xy: "x \<in> newest_records ?S" "y \<in> newest_records ?S" "x \<noteq> y" by blast
    then have members: "x \<in> ?S" "y \<in> ?S" by (simp_all add: newest_records_def)
    then have "compareClocks (si_vectorClock x) (si_vectorClock y) \<noteq> EQUAL" using assms(4) xy(3) by blast
    moreover have "clock.undominated (clocks ?refs) (si_vectorClock x)" "clock.undominated (clocks ?refs) (si_vectorClock y)"
      using top xy members by blast+
    ultimately show ?pair using clock.heads_mutual by metis
  qed
  also have "\<dots> \<longleftrightarrow> 1 < card (newest_records ?S)"
  proof -
    have "finite (newest_records ?S)" by (simp add: newest_records_def)
    from card_le_Suc0_iff_eq [OF this] show ?thesis by (auto simp: not_le [symmetric])
  qed
  finally show "score_conflict a i db' \<longleftrightarrow> 1 < card (newest_records ?S)" .
qed

text \<open>
  C13: Whatever the order in which admissible records of one application are uploaded, and
  however often each is replayed, a store whose log began empty and where no statement failed
  ends with exactly the undominated records as heads, and holds the application exactly when
  more than one is left: the log implements an order-free summary of the set of uploads. Two
  records with the same metric hash, or with EQUAL clocks, are taken to be the same record: a
  correction back to earlier figures is dropped as a replay, so without this the order would
  show. A hash fits its column, as the 64 digits of SHA-256 do.
\<close>

theorem uploads_converge:
  assumes "sync_all tz us db = Inr db'"
    and "\<And>k input. (k, input) \<in> set us \<Longrightarrow> si_agency input = a \<and> si_applicationId input = i \<and>
           (\<exists>app. may_score db input app) \<and> length (si_signedPayloadHash input) \<le> 64"
    and "scores_of db a i = []"
    and "\<And>x y. x \<in> snd ` set us \<Longrightarrow> y \<in> snd ` set us \<Longrightarrow>
           si_signedPayloadHash x = si_signedPayloadHash y \<or>
           compareClocks (si_vectorClock x) (si_vectorClock y) = EQUAL \<Longrightarrow> x = y"
  shows "signed_payload_hash ` set (computeHeads vector_clock (scores_of db' a i)) =
           si_signedPayloadHash ` newest_records (snd ` set us) \<and>
         (score_conflict a i db' \<longleftrightarrow> 1 < card (newest_records (snd ` set us)))"
  using uploads_summary [of tz us db db' a i] assms by blast

subsection \<open>From a stored score to a completed test\<close>

lemma stored_only_once:
  assumes "sync tz k input db = Inr (db', out)" and "length (si_signedPayloadHash input) \<le> 64"
    and "out \<in> {Sync_ACCEPTED c, Sync_SUPERSEDED c}"
  shows "latest_score (si_agency input) (si_applicationId input) (si_signedPayloadHash input) db' = Some k"
    and "\<not> score_conflict (si_agency input) (si_applicationId input) db'"
    and "\<exists>app. may_score db input app"
proof -
  let ?a = "si_agency input" and ?i = "si_applicationId input" and ?h = "si_signedPayloadHash input"
  obtain app row decision where step: "may_score db input app"
      "decision = decideMerge (incoming_ref input) (map stored_ref (scores_of db ?a ?i))"
      "decision \<in> {ACCEPT, SUPERSEDE}" "new_score tz k (db_now db) False input = Some row"
      "db' = flag_scores ?a ?i False (insert_score ?a row db)"
    using assms(1,3) by (cases rule: sync_cases) (auto simp: Let_def split: if_splits)
  note fields = new_score_fields [OF step(4)]
  have "signed_payload_hash s \<noteq> ?h" if "s \<in> set (scores_of db ?a ?i)" for s
  proof
    assume "signed_payload_hash s = ?h"
    then have "ref_hash (incoming_ref input) \<in> ref_hash ` set (map stored_ref (scores_of db ?a ?i))"
      using that by (force simp: incoming_ref_def stored_ref_def)
    then have "decision = DUPLICATE"
      unfolding step(2) by (cases "incoming_ref input" "map stored_ref (scores_of db ?a ?i)" rule: decideMerge_cases) auto
    with step(3) show False by simp
  qed
  then have none: "filter (\<lambda>s. signed_payload_hash s = ?h) (map (\<lambda>q. q\<lparr>sync_conflict_detected := False\<rparr>) (scores_of db ?a ?i)) = []"
    by (auto simp: filter_empty_conv)
  have own: "signed_payload_hash row = ?h" using fields(7) assms(2) by (simp add: varchar_short)
  have "filter (\<lambda>s. score_application_id s = ?i \<and> signed_payload_hash s = ?h) (physical_test_scores (schema_of db' ?a)) =
      filter (\<lambda>s. signed_payload_hash s = ?h) (scores_of db' ?a ?i)"
    by (simp add: scores_of_def conj_commute)
  also have "\<dots> = [row\<lparr>sync_conflict_detected := False\<rparr>]"
    using none own fields(2) by (simp add: step(5) store_simps)
  finally show "latest_score ?a ?i ?h db' = Some k" using fields(1) by (simp add: latest_score_def)
  show "\<not> score_conflict ?a ?i db'"
    by (auto simp: score_conflict_scores_of step(5) store_simps list_ex_iff)
  show "\<exists>app. may_score db input app" using step(1) by blast
qed

definition test_complete :: "sync_record_input \<Rightarrow> string \<Rightarrow> physical_test_complete_result" where
  "test_complete input corr =
     \<lparr>pt_applicationId = si_applicationId input, pt_agency = si_agency input,
      pt_signedPayloadHash = si_signedPayloadHash input, pt_correlationId = corr\<rparr>"

text \<open>
  When the store accepts or supersedes with a field score, the projection of the event
  published for it finds that very score and completes the physical test of an application that
  was waiting for it, on the digital and on the walk-in lane.
\<close>

theorem accepted_score_advances:
  assumes "sync tz k input db = Inr (db', out)" and "out = Sync_ACCEPTED c \<or> out = Sync_SUPERSEDED c"
    and "length (si_signedPayloadHash input) \<le> 64"
    and "app_of db (si_agency input) (si_applicationId input) = Some r"
    and "app_status r = (if walkInFlag (si_agency input) r then WALK_IN_ON_SITE_VETTING else PHYSICAL_TEST_SCHEDULED)"
  shows "snd (applyPhysicalTestComplete (test_complete input corr) db') =
    PhysicalTest_APPLIED (app_status r)
      (if walkInFlag (si_agency input) r then WALK_IN_PHYSICAL_TEST else PHYSICAL_TEST_COMPLETE) (applicant_id r) k"
proof -
  have "out \<in> {Sync_ACCEPTED c, Sync_SUPERSEDED c}" using assms(2) by blast
  note stored = stored_only_once [OF assms(1,3) this]
  have row: "app_of db' (si_agency input) (si_applicationId input) = Some r"
    using sync_foreign [OF assms(1)] assms(4) by (simp add: foreign_write_def app_of_def)
  obtain app where "may_score db' input app" using stored(3) sync_keeps_guards [OF assms(1)] by blast
  moreover from this row have "app = r" by (simp add: may_score_def)
  ultimately have "may_score db' input r" by simp
  then have "walkInFlag (si_agency input) r \<or>
      identity_established (si_agency input) (si_applicationId input) (applicant_id r) db'"
    by (auto simp: may_score_def identity_established_def)
  then show ?thesis
    using row stored(1,2) assms(5)
    by (cases "si_agency input = RDF"; cases "is_walk_in r")
       (simp_all add: applyPhysicalTestComplete_def test_complete_def walkInFlag_def Let_def)
qed

subsection \<open>After the officer's choice\<close>

lemma update_scores_refs:
  assumes "\<And>q. score_application_id (f q) = score_application_id q" and "\<And>q. stored_ref (f q) = stored_ref q"
    and "\<And>q. sync_conflict_detected (f q) = sync_conflict_detected q"
  shows "log_of (update_scores a P f db) b j = log_of db b j"
proof -
  have "filter (\<lambda>s. score_application_id s = j) (map (\<lambda>q. if P q then f q else q) qs) =
      map (\<lambda>q. if P q then f q else q) (filter (\<lambda>s. score_application_id s = j) qs)" for qs
    using assms(1) by (induction qs) auto
  then have "scores_of (update_scores a P f db) b j =
      map (\<lambda>q. if a = b \<and> P q then f q else q) (scores_of db b j)"
    by (simp add: scores_of_def update_scores_def schema_of_update_schema)
  moreover have "list_ex sync_conflict_detected (map (\<lambda>q. if a = b \<and> P q then f q else q) qs) =
      list_ex sync_conflict_detected qs" for qs
    using assms(3) by (induction qs) auto
  ultimately show ?thesis using assms(2) by (simp add: log_of_def score_conflict_scores_of)
qed

lemma resolveConflict_RESOLVED:
  assumes "resolveConflict input db = Inr (db', Resolve_RESOLVED rec)"
  obtains app row resolution where "app_of db (rc_agency input) (rc_applicationId input) = Some app"
    and "row \<in> set (scores_of db (rc_agency input) (rc_applicationId input))" and "score_id row = rc_scoreId input"
    and "sync_conflict_detected row"
    and "rr_signedPayloadHash rec = signed_payload_hash row" and "rr_capturingOfficerId rec = capturing_officer_id row"
    and "db' = update_scores (rc_agency input) (\<lambda>q. score_id q = rc_scoreId input)
           (\<lambda>q. q\<lparr>sync_conflict_resolution := Some resolution\<rparr>)
           (flag_scores (rc_agency input) (rc_applicationId input) False db)"
proof -
  let ?ss = "scores_of db (rc_agency input) (rc_applicationId input)"
  let ?chosen = "filter (\<lambda>s. score_id s = rc_scoreId input \<and> sync_conflict_detected s) ?ss"
  obtain app row rows where app: "app_of db (rc_agency input) (rc_applicationId input) = Some app"
      and chosen: "?chosen = row # rows"
    using assms by (auto simp: resolveConflict_def Let_def split: option.splits if_splits list.splits)
  from chosen have row: "row \<in> set ?ss" "score_id row = rc_scoreId input" "sync_conflict_detected row"
    by (auto simp: filter_eq_Cons_iff)
  obtain resolution where "varchar 50 (rc_resolution input) = Some resolution"
    using assms app chosen by (auto simp: resolveConflict_def Let_def split: option.splits if_splits)
  with row app chosen assms show thesis
    by (intro that [of app row resolution]) (auto simp: resolveConflict_def Let_def split: if_splits)
qed

text \<open>The choice clears the flag; the positions it leaves are the ones that conflicted.\<close>

lemma resolution_keeps_positions:
  assumes "resolveConflict input db = Inr (db', Resolve_RESOLVED rec)"
  shows "log_of db' (rc_agency input) (rc_applicationId input) =
    (fst (log_of db (rc_agency input) (rc_applicationId input)), False)"
proof -
  let ?a = "rc_agency input" and ?i = "rc_applicationId input"
  obtain resolution where db': "db' = update_scores ?a (\<lambda>q. score_id q = rc_scoreId input)
      (\<lambda>q. q\<lparr>sync_conflict_resolution := Some resolution\<rparr>) (flag_scores ?a ?i False db)"
    using resolveConflict_RESOLVED [OF assms] by metis
  have "log_of db' ?a ?i = log_of (flag_scores ?a ?i False db) ?a ?i"
    unfolding db' by (rule update_scores_refs) (simp_all add: stored_ref_def)
  then show ?thesis by (auto simp: log_of_def score_conflict_scores_of store_simps list_ex_iff)
qed

lemma resolve_foreign: "resolveConflict input db = Inr (db', out) \<Longrightarrow> foreign_write db db'"
  by (auto simp: resolveConflict_def Let_def foreign_write_refl split: option.splits if_splits list.splits
      intro!: foreign_write_trans [OF foreign_score_writes(3) foreign_score_writes(2)])

text \<open>
  A correction that supersedes the chosen record, from a tablet that never saw the other one.
\<close>

text \<open>
  After an officer resolved a conflict, a correction of the chosen record that did not see
  the rejected one is a conflict again and is held: the rejected record still counts as a head.
\<close>

theorem resolved_conflict_recurs:
  assumes "resolveConflict choice db = Inr (db1, Resolve_RESOLVED rec)"
    and "sync tz k input db1 = Inr (db2, out)" and "may_score db1 input app"
    and "si_agency input = rc_agency choice" and "si_applicationId input = rc_applicationId choice"
    and "length (si_signedPayloadHash input) \<le> 64"
    and "si_signedPayloadHash input \<notin> signed_payload_hash ` set (scores_of db (rc_agency choice) (rc_applicationId choice))"
    and "loser \<in> set (computeHeads vector_clock (scores_of db (rc_agency choice) (rc_applicationId choice)))"
    and "compareClocks (si_vectorClock input) (vector_clock loser) = CONCURRENT"
  shows "score_conflict (rc_agency choice) (rc_applicationId choice) db2 \<and>
    fst (applyPhysicalTestComplete (test_complete input corr) db2) = db2"
proof -
  let ?a = "rc_agency choice" and ?i = "rc_applicationId choice"
  let ?refs = "map stored_ref (scores_of db ?a ?i)"
  have before: "log_of db1 ?a ?i = (?refs, False)"
    using resolution_keeps_positions [OF assms(1)] by (simp add: log_of_def)
  have "clock.undominated (clocks ?refs) (vector_clock loser)"
    using assms(8) by (simp add: in_computeHeads image_image stored_ref_def)
  moreover have "ref_hash (incoming_ref input) \<notin> ref_hash ` set ?refs"
    using assms(7) by (auto simp: incoming_ref_def stored_ref_def)
  ultimately have "decideMerge (incoming_ref input) ?refs = CONFLICT"
    using assms(9)
    by (cases "incoming_ref input" ?refs rule: decideMerge_cases)
       (auto simp: incoming_ref_def clock.undominated_def)
  then have "snd (log_of db2 ?a ?i)"
    using sync_absorbs [OF assms(3,6,2)] before by (simp add: assms(4,5) absorb_def)
  then have conflict: "score_conflict ?a ?i db2" by (simp add: log_of_def)
  have "fst (applyPhysicalTestComplete (test_complete input corr) db2) = db2"
    using conflict assms(4,5) by (simp add: applyPhysicalTestComplete_def test_complete_def Let_def split: option.splits)
  with conflict show ?thesis by blast
qed

text \<open>
  The stored hash covers the metrics alone, so a correction that returns to figures already in the
  log is taken for a replay, whatever its clock says.
\<close>

lemma correction_back_is_dropped:
  assumes "may_score db input app"
    and "si_signedPayloadHash input \<in> signed_payload_hash ` set (scores_of db (si_agency input) (si_applicationId input))"
  shows "sync tz k input db = Inr (db, Sync_DUPLICATE)"
proof -
  let ?refs = "map stored_ref (scores_of db (si_agency input) (si_applicationId input))"
  have "ref_hash (incoming_ref input) \<in> ref_hash ` set ?refs"
    using assms(2) by (force simp: incoming_ref_def stored_ref_def)
  then have "decideMerge (incoming_ref input) ?refs = DUPLICATE"
    by (cases "incoming_ref input" ?refs rule: decideMerge_cases) auto
  with assms(1) show ?thesis by (auto simp: sync_def may_score_def ticketMatches_def Let_def)
qed

subsection \<open>A concrete upload\<close>

definition tablet_db :: "'ev database" where
  "tablet_db =
     \<lparr>db_now = 1000,
      schema_of = (\<lambda>_. empty_schema)(RDF := empty_schema
        \<lparr>applications := [(''app'', (sample_row PHYSICAL_TEST_SCHEDULED)\<lparr>qr_invitation_code := Some ''QR''\<rparr>)],
         gate_admissions :=
           [\<lparr>adm_application_id = ''app'', adm_ticket_id = ''QR'', adm_campaign_id = ''campaign'', adm_venue_name = ''v'',
             adm_exam_date = ''2026-08-03'', adm_identity_method = ''NATIONAL_ID_CARD'', admitted_by_id = ''o'',
             admitted_at = 3\<rparr>]\<rparr>),
      applicant_identities = (\<lambda>_. None), recruitment_campaigns = (\<lambda>_. None), submission_requests = [], event_outbox = []\<rparr>"

definition tablet_input :: "vector_clock \<Rightarrow> string \<Rightarrow> sync_record_input" where
  "tablet_input c h =
     \<lparr>si_applicationId = ''app'', si_agency = RDF, si_qrInvitationCode = ''QR'', si_deviceId = ''tablet'',
      si_capturingOfficerId = ''o'', si_capturedAt = ''t'', si_vectorClock = c, si_deviceSignature = ''sig'',
      si_signedPayloadHash = h,
      si_metrics = \<lparr>m_heightCm = 180, m_weightKg = 70, m_run3kmTimeSeconds = 800, m_chestCm = 95,
                    m_medicalFitnessStatus = ''FIT'', m_additionalNotes = None\<rparr>\<rparr>"

lemma tablet_input_simps [simp]:
  "si_agency (tablet_input c h) = RDF" "si_applicationId (tablet_input c h) = ''app''"
  "si_vectorClock (tablet_input c h) = c" "si_signedPayloadHash (tablet_input c h) = h"
  by (simp_all add: tablet_input_def)

lemma tablet_input_eq [simp]: "tablet_input c h = tablet_input d k \<longleftrightarrow> c = d \<and> h = k"
  by (auto simp: tablet_input_def)

abbreviation offline_uploads :: "(uuid \<times> sync_record_input) list" where
  "offline_uploads \<equiv> [(''s1'', tablet_input [(''a'', 1)] ''h1''), (''s2'', tablet_input [(''b'', 1)] ''h2''),
     (''s3'', tablet_input [(''a'', 1)] ''h1'')]"

definition unit_db :: "unit database" where "unit_db = tablet_db"

lemma tablet_app:
  "may_score unit_db (tablet_input c h) ((sample_row PHYSICAL_TEST_SCHEDULED)\<lparr>qr_invitation_code := Some ''QR''\<rparr>)"
  by (simp add: may_score_def tablet_input_def unit_db_def tablet_db_def app_of_def)

lemma clash: "compareClocks [(''a'', 1)] [(''b'', 1)] = CONCURRENT" "compareClocks [(''b'', 1)] [(''a'', 1)] = CONCURRENT"
  by code_simp+

theorem uploads_converge_witness:
  "\<exists>db'. sync_all (\<lambda>_. Some 5) offline_uploads unit_db = Inr db' \<and> score_conflict RDF ''app'' db'"
proof -
  have "(case sync_all (\<lambda>_. Some 5) offline_uploads unit_db of Inl _ \<Rightarrow> False | Inr _ \<Rightarrow> True)" by code_simp
  then obtain db' where db': "sync_all (\<lambda>_. Some 5) offline_uploads unit_db = Inr db'" by (auto split: sum.splits)
  let ?x = "tablet_input [(''a'', 1)] ''h1''" and ?y = "tablet_input [(''b'', 1)] ''h2''"
  have both: "newest_records (snd ` set offline_uploads) = {?x, ?y}"
    using clash clock.self by (auto simp: newest_records_def)
  have members: "input \<in> {?x, ?y}" if "(k, input) \<in> set offline_uploads" for k input using that by auto
  have "score_conflict RDF ''app'' db' \<longleftrightarrow> 1 < card (newest_records (snd ` set offline_uploads))"
  proof (rule conjunct2 [OF uploads_converge [OF db']])
    show "si_agency input = RDF \<and> si_applicationId input = ''app'' \<and> (\<exists>app. may_score unit_db input app) \<and>
        length (si_signedPayloadHash input) \<le> 64" if "(k, input) \<in> set offline_uploads" for k input
      using members [OF that] tablet_app by auto
    show "scores_of unit_db RDF ''app'' = []"
      by (simp add: scores_of_def unit_db_def tablet_db_def empty_schema_def)
    show "u = v" if "u \<in> snd ` set offline_uploads" "v \<in> snd ` set offline_uploads"
        "si_signedPayloadHash u = si_signedPayloadHash v \<or>
         compareClocks (si_vectorClock u) (si_vectorClock v) = EQUAL" for u v
      using that clash by auto
  qed
  then have "score_conflict RDF ''app'' db'" unfolding both by simp
  with db' show ?thesis by blast
qed

theorem accepted_score_advances_witness:
  "\<exists>db'. sync (\<lambda>_. Some 5) ''s1'' (tablet_input [(''a'', 1)] ''h1'') unit_db =
       Inr (db', Sync_ACCEPTED \<lparr>cc_scoreId = ''s1'', cc_campaignId = ''campaign'', cc_isWalkIn = False\<rparr>) \<and>
     snd (applyPhysicalTestComplete (test_complete (tablet_input [(''a'', 1)] ''h1'') ''c'') db') =
       PhysicalTest_APPLIED PHYSICAL_TEST_SCHEDULED PHYSICAL_TEST_COMPLETE ''citizen'' ''s1''"
proof -
  let ?in = "tablet_input [(''a'', 1)] ''h1''"
  let ?c = "\<lparr>cc_scoreId = ''s1'', cc_campaignId = ''campaign'', cc_isWalkIn = False\<rparr>"
  have "(case sync (\<lambda>_. Some 5) ''s1'' ?in unit_db of Inl _ \<Rightarrow> False | Inr (_, out) \<Rightarrow> out = Sync_ACCEPTED ?c)"
    by code_simp
  then obtain db' where *: "sync (\<lambda>_. Some 5) ''s1'' ?in unit_db = Inr (db', Sync_ACCEPTED ?c)"
    by (auto split: sum.splits)
  let ?r = "(sample_row PHYSICAL_TEST_SCHEDULED)\<lparr>qr_invitation_code := Some ''QR''\<rparr>"
  have "app_of unit_db RDF ''app'' = Some ?r" by (simp add: unit_db_def tablet_db_def app_of_def)
  moreover have "\<not> is_walk_in ?r" by (simp add: sample_row_def opening_row_def)
  ultimately show ?thesis
    using * accepted_score_advances [OF *, of ?c ?r "''c''"] by (simp add: tablet_input_def walkInFlag_def)
qed

definition conflict_db :: "unit database" where
  "conflict_db = (case sync_all (\<lambda>_. Some 5) offline_uploads unit_db of Inl _ \<Rightarrow> unit_db | Inr db \<Rightarrow> db)"

definition sample_choice :: resolve_conflict_input where
  "sample_choice = \<lparr>rc_applicationId = ''app'', rc_agency = RDF, rc_scoreId = ''s1'', rc_resolution = ''first''\<rparr>"

text \<open>The correction follows the chosen record, and a tablet that knew nothing of the other one made it.\<close>

theorem resolved_conflict_recurs_witness:
  "\<exists>db1 db2 rec out. resolveConflict sample_choice conflict_db = Inr (db1, Resolve_RESOLVED rec) \<and>
     sync (\<lambda>_. Some 6) ''s3'' (tablet_input [(''a'', 2)] ''h3'') db1 = Inr (db2, out) \<and>
     compareClocks [(''a'', 2)] (rr_vectorClock rec) = DOMINATES \<and> score_conflict RDF ''app'' db2"
proof -
  let ?in = "tablet_input [(''a'', 2)] ''h3''"
  have "(case resolveConflict sample_choice conflict_db of
      Inr (db1, Resolve_RESOLVED rec) \<Rightarrow> compareClocks [(''a'', 2)] (rr_vectorClock rec) = DOMINATES \<and>
        (case sync (\<lambda>_. Some 6) ''s3'' ?in db1 of Inr _ \<Rightarrow> True | Inl _ \<Rightarrow> False)
    | _ \<Rightarrow> False)" by code_simp
  then obtain db1 rec db2 out where 1: "resolveConflict sample_choice conflict_db = Inr (db1, Resolve_RESOLVED rec)"
      "compareClocks [(''a'', 2)] (rr_vectorClock rec) = DOMINATES" "sync (\<lambda>_. Some 6) ''s3'' ?in db1 = Inr (db2, out)"
    by (auto split: sum.split_asm prod.split_asm resolve_outcome.split_asm)
  have "(case app_of conflict_db RDF ''app'' of Some r \<Rightarrow> qr_invitation_code r = Some ''QR'' | None \<Rightarrow> False)
     \<and> list_ex (\<lambda>g. adm_application_id g = ''app'') (gate_admissions (schema_of conflict_db RDF))
     \<and> ''h3'' \<notin> set (map signed_payload_hash (scores_of conflict_db RDF ''app''))
     \<and> list_ex (\<lambda>s. vector_clock s = [(''b'', 1)]) (computeHeads vector_clock (scores_of conflict_db RDF ''app''))"
    by code_simp
  then obtain app loser where facts: "app_of conflict_db RDF ''app'' = Some app" "qr_invitation_code app = Some ''QR''"
      "list_ex (\<lambda>g. adm_application_id g = ''app'') (gate_admissions (schema_of conflict_db RDF))"
      "''h3'' \<notin> signed_payload_hash ` set (scores_of conflict_db RDF ''app'')"
      "loser \<in> set (computeHeads vector_clock (scores_of conflict_db RDF ''app''))" "vector_clock loser = [(''b'', 1)]"
    by (auto simp: list_ex_iff split: option.split_asm)
  have "may_score conflict_db ?in app" using facts by (simp add: may_score_def tablet_input_def)
  then have guard: "may_score db1 ?in app"
    using resolve_foreign [OF 1(1)] by (simp add: may_score_def foreign_write_def app_of_def)
  have "compareClocks [(''a'', 2)] [(''b'', 1)] = CONCURRENT" by code_simp
  then have "score_conflict RDF ''app'' db2"
    using resolved_conflict_recurs [OF 1(1,3) guard, of loser] facts(4-6) by (simp add: sample_choice_def)
  with 1 show ?thesis by blast
qed

end
