(* ===== verification/Signing.thy ===== *)
theory Signing
  imports Canonical FieldSync
begin

text \<open>
  The two signed credentials of \<open>packages/shared-security/src/signing.ts\<close>: the physical-test record a
  tablet signs and the exam invitation scheduling mints. Ed25519, SHA-256 and base64 are collected in
  one record of parameters; the theorems name what they rely on.
\<close>

record crypto_library =
  ed25519_sign :: "string \<Rightarrow> string \<Rightarrow> string"            \<comment> \<open>private key, data; base64\<close>
  ed25519_verify :: "string \<Rightarrow> string \<Rightarrow> string \<Rightarrow> bool"  \<comment> \<open>public key, data, base64\<close>
  sha256_hex :: "string \<Rightarrow> string"
  base64url_encode :: "string \<Rightarrow> string"
  base64_to_url :: "string \<Rightarrow> string"
  url_to_base64 :: "string \<Rightarrow> string"
  number_text :: "real \<Rightarrow> string"

subsection \<open>Comparing digests\<close>

text \<open>\<open>Buffer.from(s, 'hex')\<close>: pairs of hexadecimal digits, up to the first that is not one.\<close>

definition hex_digit_value :: "char \<Rightarrow> nat" where
  "hex_digit_value c = hex_value (lower_char c)"

fun hex_bytes :: "string \<Rightarrow> nat list" where
  "hex_bytes (h # l # rest) =
     (if is_hex h \<and> is_hex l then (16 * hex_digit_value h + hex_digit_value l) # hex_bytes rest else [])"
| "hex_bytes _ = []"

definition timingSafeEqualHex :: "string \<Rightarrow> string \<Rightarrow> bool" where
  "timingSafeEqualHex a b =
     (if length a \<noteq> length b then False
      else
        let bufA = hex_bytes a; bufB = hex_bytes b in
        if length bufA \<noteq> length bufB \<or> length bufA = 0 then False else bufA = bufB)"

definition canonicalHash :: "crypto_library \<Rightarrow> json \<Rightarrow> string" where
  "canonicalHash crypt v = sha256_hex crypt (canonicalJson (number_text crypt) v)"

subsection \<open>The signed physical-test record\<close>

record signable_field_payload =
  sp_applicationId :: uuid
  sp_qrInvitationCode :: string
  sp_metrics :: physical_test_metrics
  sp_capturedAt :: string
  sp_deviceId :: string
  sp_capturingOfficerId :: uuid
  sp_vectorClock :: vector_clock

record field_signature =
  fs_deviceSignature :: string
  fs_signedPayloadHash :: string

definition metrics_json :: "physical_test_metrics \<Rightarrow> json" where
  "metrics_json m =
     JObj ([(''heightCm'', JNum (m_heightCm m)), (''weightKg'', JNum (m_weightKg m)),
            (''run3kmTimeSeconds'', JNum (m_run3kmTimeSeconds m)), (''chestCm'', JNum (m_chestCm m)),
            (''medicalFitnessStatus'', JStr (m_medicalFitnessStatus m))] @
           (case m_additionalNotes m of None \<Rightarrow> [] | Some t \<Rightarrow> [(''additionalNotes'', JStr t)]))"

definition clock_json :: "vector_clock \<Rightarrow> json" where
  "clock_json c = JObj (map (\<lambda>(k, n). (k, JNum (of_int n))) c)"

definition payload_json :: "signable_field_payload \<Rightarrow> json" where
  "payload_json p =
     JObj [(''applicationId'', JStr (sp_applicationId p)), (''qrInvitationCode'', JStr (sp_qrInvitationCode p)),
           (''metrics'', metrics_json (sp_metrics p)), (''capturedAt'', JStr (sp_capturedAt p)),
           (''deviceId'', JStr (sp_deviceId p)), (''capturingOfficerId'', JStr (sp_capturingOfficerId p)),
           (''vectorClock'', clock_json (sp_vectorClock p))]"

definition computeFieldPayloadHash :: "crypto_library \<Rightarrow> physical_test_metrics \<Rightarrow> string" where
  "computeFieldPayloadHash crypt metrics = canonicalHash crypt (metrics_json metrics)"

definition signFieldScoreRecord :: "crypto_library \<Rightarrow> string \<Rightarrow> signable_field_payload \<Rightarrow> field_signature" where
  "signFieldScoreRecord crypt privateKeyPem payload =
     (let canonical = canonicalJson (number_text crypt) (payload_json payload) in
      \<lparr>fs_deviceSignature = ed25519_sign crypt privateKeyPem canonical,
       fs_signedPayloadHash = computeFieldPayloadHash crypt (sp_metrics payload)\<rparr>)"

definition verifyFieldScoreRecord ::
  "crypto_library \<Rightarrow> string \<Rightarrow> signable_field_payload \<Rightarrow> field_signature \<Rightarrow> bool" where
  "verifyFieldScoreRecord crypt publicKeyPem payload signature =
     (let canonical = canonicalJson (number_text crypt) (payload_json payload);
          signatureOk = ed25519_verify crypt publicKeyPem canonical (fs_deviceSignature signature);
          hashOk = timingSafeEqualHex (fs_signedPayloadHash signature)
                     (computeFieldPayloadHash crypt (sp_metrics payload)) in
      signatureOk \<and> hashOk)"

subsection \<open>The signature binds every field\<close>

text \<open>
  A payload the runtime can hold: its numbers lie in the set the printer is known on, and its clock is
  an object's, each device once. Assigning to \<open>__proto__\<close>, as the parser of an upload does for every
  axis, creates no axis of that name.
\<close>

definition signable :: "real set \<Rightarrow> signable_field_payload \<Rightarrow> bool" where
  "signable D p \<longleftrightarrow>
     (let m = sp_metrics p in {m_heightCm m, m_weightKg m, m_run3kmTimeSeconds m, m_chestCm m} \<subseteq> D) \<and>
     distinct (map fst (sp_vectorClock p)) \<and>
     list_all (\<lambda>(k, n). k \<noteq> ''__proto__'' \<and> of_int n \<in> D) (sp_vectorClock p)"

lemma signable_payload_json: "signable D p \<Longrightarrow> numbers_in D (payload_json p)"
  by (auto simp: signable_def payload_json_def metrics_json_def clock_json_def list_all_iff Let_def
      split: option.splits)

definition plain_axes :: "vector_clock \<Rightarrow> bool" where
  "plain_axes c \<longleftrightarrow> distinct (map fst c) \<and> ''__proto__'' \<notin> fst ` set c"

lemma signable_plain_axes: "signable D p \<Longrightarrow> plain_axes (sp_vectorClock p)"
  by (auto simp: signable_def plain_axes_def list_all_iff)

lemma clock_json_axis:
  assumes "sortValue (clock_json a) = sortValue (clock_json b)" and "plain_axes a" and "plain_axes b"
  shows "axis a k = axis b k"
proof (cases "k = ''__proto__''")
  case True
  then show ?thesis using assms(2,3)
    by (force simp: axis_def plain_axes_def split: option.splits dest!: map_of_SomeD)
next
  case False
  have read: "json_get (sortValue (clock_json c)) k = map_option (JNum \<circ> of_int) (map_of c k)" if "plain_axes c" for c
  proof -
    have "map fst (map (\<lambda>(k, n). (k, JNum (of_int n))) c) = map fst c" by (induction c) auto
    then have "json_get (sortValue (clock_json c)) k = map_option sortValue (map_of (map (\<lambda>(k, n). (k, JNum (of_int n))) c) k)"
      using that False unfolding clock_json_def plain_axes_def by (metis json_get_sortValue)
    also have "map_of (map (\<lambda>(k, n). (k, JNum (of_int n))) c) k = map_option (JNum \<circ> of_int) (map_of c k)"
      by (induction c) auto
    finally show ?thesis by (simp add: option.map_comp comp_def)
  qed
  have "map_option (JNum \<circ> of_int) (map_of a k) = map_option (JNum \<circ> of_int) (map_of b k)"
    using assms read by metis
  then have "map_of a k = map_of b k" by (auto simp: map_option_case split: option.splits)
  then show ?thesis by (simp add: axis_def)
qed

lemma metrics_json_eq:
  assumes "sortValue (metrics_json m) = sortValue (metrics_json n)" shows "m = n"
proof -
  have get: "json_get (sortValue (metrics_json x)) k = map_option sortValue (json_get (metrics_json x) k)"
    if "k \<noteq> ''__proto__''" for x k
    unfolding metrics_json_def using that
    by (subst json_get_sortValue) (auto split: option.splits)
  have same: "map_option sortValue (json_get (metrics_json m) k) = map_option sortValue (json_get (metrics_json n) k)"
    if "k \<noteq> ''__proto__''" for k
    using get [OF that] assms by metis
  have "m_heightCm m = m_heightCm n" using same [of "''heightCm''"] by (simp add: metrics_json_def)
  moreover have "m_weightKg m = m_weightKg n" using same [of "''weightKg''"] by (simp add: metrics_json_def)
  moreover have "m_run3kmTimeSeconds m = m_run3kmTimeSeconds n"
    using same [of "''run3kmTimeSeconds''"] by (simp add: metrics_json_def)
  moreover have "m_chestCm m = m_chestCm n" using same [of "''chestCm''"] by (simp add: metrics_json_def)
  moreover have "m_medicalFitnessStatus m = m_medicalFitnessStatus n"
    using same [of "''medicalFitnessStatus''"] by (simp add: metrics_json_def)
  moreover have "m_additionalNotes m = m_additionalNotes n"
    using same [of "''additionalNotes''"]
    by (cases "m_additionalNotes m"; cases "m_additionalNotes n") (simp_all add: metrics_json_def)
  ultimately show ?thesis by (simp add: physical_test_metrics.equality)
qed

text \<open>
  C15: Two field-score payloads with the same signed bytes agree on every field, and their
  vector clocks on every axis, whatever finite numbers, fractions included, the metrics hold.
  About the printing of numbers it relies on the hypothesis called printer: the runtime prints
  distinct numbers distinctly, with digits, sign, point and exponent only. The clocks name each
  device once and none __proto__, an axis that the parser of an upload does not keep.
\<close>

theorem signature_binds_every_field:
  assumes "canonicalJson f (payload_json p) = canonicalJson f (payload_json q)"
    and "printer f D" and "signable D p" and "signable D q"
  shows "sp_applicationId p = sp_applicationId q \<and> sp_qrInvitationCode p = sp_qrInvitationCode q \<and>
    sp_metrics p = sp_metrics q \<and> sp_capturedAt p = sp_capturedAt q \<and> sp_deviceId p = sp_deviceId q \<and>
    sp_capturingOfficerId p = sp_capturingOfficerId q \<and>
    compareClocks (sp_vectorClock p) (sp_vectorClock q) = EQUAL"
proof -
  have "sortValue (payload_json p) = sortValue (payload_json q)"
    using canonicalJson_iff [OF assms(2) signable_payload_json signable_payload_json] assms by blast
  moreover have "json_get (sortValue (payload_json x)) k = map_option sortValue (json_get (payload_json x) k)"
    if "k \<noteq> ''__proto__''" for x k
    unfolding payload_json_def using that by (subst json_get_sortValue) simp_all
  ultimately have same: "map_option sortValue (json_get (payload_json p) k) = map_option sortValue (json_get (payload_json q) k)"
    if "k \<noteq> ''__proto__''" for k
    using that by metis
  have "sortValue (metrics_json (sp_metrics p)) = sortValue (metrics_json (sp_metrics q))"
    using same [of "''metrics''"] by (simp add: payload_json_def)
  then have "sp_metrics p = sp_metrics q" by (rule metrics_json_eq)
  moreover have clocks: "sortValue (clock_json (sp_vectorClock p)) = sortValue (clock_json (sp_vectorClock q))"
    using same [of "''vectorClock''"] by (simp add: payload_json_def)
  have "axis (sp_vectorClock p) k = axis (sp_vectorClock q) k" for k
    by (rule clock_json_axis [OF clocks]) (use assms(3,4) signable_plain_axes in blast)+
  then have "compareClocks (sp_vectorClock p) (sp_vectorClock q) = EQUAL"
    by (simp add: compareClocks_pointwise)
  moreover have "sp_applicationId p = sp_applicationId q" using same [of "''applicationId''"] by (simp add: payload_json_def)
  moreover have "sp_qrInvitationCode p = sp_qrInvitationCode q"
    using same [of "''qrInvitationCode''"] by (simp add: payload_json_def)
  moreover have "sp_capturedAt p = sp_capturedAt q" using same [of "''capturedAt''"] by (simp add: payload_json_def)
  moreover have "sp_deviceId p = sp_deviceId q" using same [of "''deviceId''"] by (simp add: payload_json_def)
  moreover have "sp_capturingOfficerId p = sp_capturingOfficerId q"
    using same [of "''capturingOfficerId''"] by (simp add: payload_json_def)
  ultimately show ?thesis by blast
qed

subsection \<open>The exam invitation\<close>

record slot_invitation_claims =
  sc_keyId :: string
  sc_ticketId :: string
  sc_applicationId :: string
  sc_applicantId :: string
  sc_agency :: agency
  sc_campaignId :: string
  sc_slotId :: string
  sc_venueName :: string
  sc_examDate :: string
  sc_reportingTimeHour :: int
  sc_issuedAt :: string
  sc_expiresAt :: string

definition agency_name :: "agency \<Rightarrow> string" where
  "agency_name a = (case a of RDF \<Rightarrow> ''RDF'' | RNP \<Rightarrow> ''RNP'' | RCS \<Rightarrow> ''RCS'')"

text \<open>The schema version \<open>v\<close> is the literal type \<open>1\<close>.\<close>

definition claims_json :: "slot_invitation_claims \<Rightarrow> json" where
  "claims_json c =
     JObj [(''v'', JNum 1), (''keyId'', JStr (sc_keyId c)), (''ticketId'', JStr (sc_ticketId c)),
           (''applicationId'', JStr (sc_applicationId c)), (''applicantId'', JStr (sc_applicantId c)),
           (''agency'', JStr (agency_name (sc_agency c))), (''campaignId'', JStr (sc_campaignId c)),
           (''slotId'', JStr (sc_slotId c)), (''venueName'', JStr (sc_venueName c)),
           (''examDate'', JStr (sc_examDate c)), (''reportingTimeHour'', JNum (of_int (sc_reportingTimeHour c))),
           (''issuedAt'', JStr (sc_issuedAt c)), (''expiresAt'', JStr (sc_expiresAt c))]"

definition SLOT_INVITATION_NS :: string where "SLOT_INVITATION_NS = ''USRP-SLOT''"

definition SLOT_INVITATION_VER :: string where "SLOT_INVITATION_VER = ''v1''"

definition signing_input :: "string \<Rightarrow> string \<Rightarrow> string \<Rightarrow> string" where
  "signing_input ns ver payload = ns @ ''.'' @ ver @ ''.'' @ payload"

definition signSlotInvitation :: "crypto_library \<Rightarrow> string \<Rightarrow> slot_invitation_claims \<Rightarrow> string" where
  "signSlotInvitation crypt privateKeyPem claims =
     (let payload = base64url_encode crypt (canonicalJson (number_text crypt) (claims_json claims));
          signingInput = signing_input SLOT_INVITATION_NS SLOT_INVITATION_VER payload;
          signatureUrl = base64_to_url crypt (ed25519_sign crypt privateKeyPem signingInput) in
      signingInput @ ''.'' @ signatureUrl)"

text \<open>
  \<open>Date.parse\<close> of the value under \<open>expiresAt\<close>: a string as it is, a number as its text; reading a
  property of \<open>null\<close> throws, and an absent one is not a date.
\<close>

definition expiry_of :: "crypto_library \<Rightarrow> js_library \<Rightarrow> json \<Rightarrow> instant option" where
  "expiry_of crypt lib claims =
     (case json_get claims ''expiresAt'' of
        Some (JStr s) \<Rightarrow> date_parse lib s
      | Some (JNum x) \<Rightarrow> date_parse lib (show_number (number_text crypt) x)
      | _ \<Rightarrow> None)"

definition verifySlotInvitation ::
  "crypto_library \<Rightarrow> js_library \<Rightarrow> string \<Rightarrow> string \<Rightarrow> instant \<Rightarrow> json option" where
  "verifySlotInvitation crypt lib publicKeyPem token now =
     (case split_on CHR ''.'' token of
        [ns, ver, payload, signatureUrl] \<Rightarrow>
          if ns \<noteq> SLOT_INVITATION_NS \<or> ver \<noteq> SLOT_INVITATION_VER then None
          else if \<not> ed25519_verify crypt publicKeyPem (signing_input ns ver payload) (url_to_base64 crypt signatureUrl)
          then None
          else
            (case parse_base64url_json lib payload of
               None \<Rightarrow> None
             | Some claims \<Rightarrow>
                 (case expiry_of crypt lib claims of
                    None \<Rightarrow> None
                  | Some expiresAtMs \<Rightarrow> if expiresAtMs \<le> now then None else Some claims))
      | _ \<Rightarrow> None)"

lemma split_on_none: "d \<notin> set s \<Longrightarrow> split_on d s = [s]"
  by (induction s) auto

lemma split_on_append: "d \<notin> set s \<Longrightarrow> split_on d (s @ d # t) = s # split_on d t"
  by (induction s) auto

text \<open>
  The contract between the party that signs and the parties that read: a signature over the very
  bytes verifies, base64url adds no dot and decodes to the value that was serialised.
\<close>

definition genuine_keys :: "crypto_library \<Rightarrow> js_library \<Rightarrow> string \<Rightarrow> string \<Rightarrow> json \<Rightarrow> bool" where
  "genuine_keys crypt lib priv pub v \<longleftrightarrow>
     (\<forall>data. ed25519_verify crypt pub data (ed25519_sign crypt priv data)) \<and>
     (\<forall>data. url_to_base64 crypt (base64_to_url crypt (ed25519_sign crypt priv data)) = ed25519_sign crypt priv data) \<and>
     (\<forall>s. CHR ''.'' \<notin> set (base64url_encode crypt s) \<and> CHR ''.'' \<notin> set (base64_to_url crypt s)) \<and>
     parse_base64url_json lib (base64url_encode crypt (canonicalJson (number_text crypt) v)) = Some (sortValue v)"

lemma token_segments:
  assumes "genuine_keys crypt lib priv pub (claims_json claims)"
  shows "split_on CHR ''.'' (signSlotInvitation crypt priv claims) =
    [''USRP-SLOT'', ''v1'', base64url_encode crypt (canonicalJson (number_text crypt) (claims_json claims)),
     base64_to_url crypt (ed25519_sign crypt priv
       (signing_input ''USRP-SLOT'' ''v1''
         (base64url_encode crypt (canonicalJson (number_text crypt) (claims_json claims)))))]"
proof -
  have "CHR ''.'' \<notin> set (base64url_encode crypt s)" "CHR ''.'' \<notin> set (base64_to_url crypt s)" for s
    using assms by (simp_all add: genuine_keys_def)
  then show ?thesis
    using split_on_append [of "CHR ''.''" "''USRP-SLOT''"] split_on_append [of "CHR ''.''" "''v1''"]
    by (simp add: signSlotInvitation_def signing_input_def SLOT_INVITATION_NS_def SLOT_INVITATION_VER_def
        Let_def split_on_append split_on_none)
qed

lemma json_get_claims:
  "k \<noteq> ''__proto__'' \<Longrightarrow> json_get (sortValue (claims_json c)) k = map_option sortValue (json_get (claims_json c) k)"
  unfolding claims_json_def by (subst json_get_sortValue) simp_all

lemma minted_round_trip:
  assumes "genuine_keys crypt lib priv pub (claims_json c)"
    and "date_parse lib (sc_expiresAt c) = Some t" and "now < t"
    and "length (signSlotInvitation crypt priv c) \<le> MAX_TICKET_LENGTH"
    and "sc_ticketId c \<noteq> []" and "length (sc_ticketId c) \<le> 64" and "UUID_RE (sc_applicationId c)"
    and "UUID_RE (sc_campaignId c)" and "js_trim (sc_venueName c) \<noteq> []" and "DATE_RE (sc_examDate c)"
  shows "verifySlotInvitation crypt lib pub (signSlotInvitation crypt priv c) now = Some (sortValue (claims_json c)) \<and>
    parseGateTicket lib (signSlotInvitation crypt priv c) =
      Some \<lparr>ticketId = sc_ticketId c, claim_applicationId = js_lower (sc_applicationId c), claim_agency = sc_agency c,
            claim_campaignId = sc_campaignId c, claim_venueName = sc_venueName c, examDate = sc_examDate c,
            reportingTimeHour = sc_reportingTimeHour c, expiresAt = sc_expiresAt c\<rparr>"
proof -
  let ?c = "sortValue (claims_json c)"
  have read: "parse_base64url_json lib (base64url_encode crypt (canonicalJson (number_text crypt) (claims_json c))) = Some ?c"
    using assms(1) by (simp add: genuine_keys_def)
  have strings: "json_string ?c ''ticketId'' = Some (sc_ticketId c)"
      "json_string ?c ''applicationId'' = Some (sc_applicationId c)"
      "json_string ?c ''agency'' = Some (agency_name (sc_agency c))"
      "json_string ?c ''campaignId'' = Some (sc_campaignId c)" "json_string ?c ''venueName'' = Some (sc_venueName c)"
      "json_string ?c ''examDate'' = Some (sc_examDate c)" "json_string ?c ''expiresAt'' = Some (sc_expiresAt c)"
      "json_integer ?c ''reportingTimeHour'' = Some (sc_reportingTimeHour c)"
      "json_get ?c ''expiresAt'' = Some (JStr (sc_expiresAt c))"
    by (simp_all add: json_string_def json_integer_def json_get_claims) (simp_all add: claims_json_def)
  obtain kvs where object: "?c = JObj kvs" by (simp add: claims_json_def)
  have "agency_of_name (agency_name a) = Some a" for a
    by (cases a) (simp_all add: agency_of_name_def agency_name_def)
  moreover have "signSlotInvitation crypt priv c \<noteq> []"
    by (simp add: signSlotInvitation_def signing_input_def SLOT_INVITATION_NS_def Let_def)
  ultimately have parsed: "parseGateTicket lib (signSlotInvitation crypt priv c) =
      Some \<lparr>ticketId = sc_ticketId c, claim_applicationId = js_lower (sc_applicationId c), claim_agency = sc_agency c,
            claim_campaignId = sc_campaignId c, claim_venueName = sc_venueName c, examDate = sc_examDate c,
            reportingTimeHour = sc_reportingTimeHour c, expiresAt = sc_expiresAt c\<rparr>"
    using assms(2,4-) read strings
    by (simp add: parseGateTicket_def ticket_payload_def token_segments [OF assms(1)] object)
  have "expiry_of crypt lib ?c = Some t" using strings assms(2) by (simp add: expiry_of_def)
  then have "verifySlotInvitation crypt lib pub (signSlotInvitation crypt priv c) now = Some ?c"
    using assms(1,3) read
    by (simp add: verifySlotInvitation_def token_segments [OF assms(1)] SLOT_INVITATION_NS_def
        SLOT_INVITATION_VER_def genuine_keys_def)
  with parsed show ?thesis by blast
qed

text \<open>
  C16: A minted slot invitation verifies before its expiry with the claims it was minted from,
  and the gate parses it back to them.
\<close>

theorem minted_invitation_reads_back:
  assumes "genuine_keys crypt lib priv pub (claims_json c)"
    and "date_parse lib (sc_expiresAt c) = Some t" and "now < t"
    and "length (signSlotInvitation crypt priv c) \<le> MAX_TICKET_LENGTH"
    and "sc_ticketId c \<noteq> []" and "length (sc_ticketId c) \<le> 64" and "UUID_RE (sc_applicationId c)"
    and "UUID_RE (sc_campaignId c)" and "js_trim (sc_venueName c) \<noteq> []" and "DATE_RE (sc_examDate c)"
  shows "verifySlotInvitation crypt lib pub (signSlotInvitation crypt priv c) now = Some (sortValue (claims_json c)) \<and>
    parseGateTicket lib (signSlotInvitation crypt priv c) =
      Some \<lparr>ticketId = sc_ticketId c, claim_applicationId = js_lower (sc_applicationId c), claim_agency = sc_agency c,
            claim_campaignId = sc_campaignId c, claim_venueName = sc_venueName c, examDate = sc_examDate c,
            reportingTimeHour = sc_reportingTimeHour c, expiresAt = sc_expiresAt c\<rparr>"
  by (rule minted_round_trip [OF assms])

text \<open>A library whose signatures are the signed bytes; enough to exhibit the contracts.\<close>

definition plain_crypto :: crypto_library where
  "plain_crypto =
     \<lparr>ed25519_sign = (\<lambda>_ data. filter (\<lambda>c. c \<noteq> CHR ''.'') data),
      ed25519_verify = (\<lambda>_ data sig. sig = filter (\<lambda>c. c \<noteq> CHR ''.'') data),
      sha256_hex = (\<lambda>s. if length s mod 2 = 0 then ''ab'' else ''cd''),
      base64url_encode = filter (\<lambda>c. c \<noteq> CHR ''.''),
      base64_to_url = filter (\<lambda>c. c \<noteq> CHR ''.''), url_to_base64 = (\<lambda>s. s), number_text = (\<lambda>_. ''0.5'')\<rparr>"

definition sample_invitation :: slot_invitation_claims where
  "sample_invitation =
     \<lparr>sc_keyId = ''k1'', sc_ticketId = ''T'', sc_applicationId = ''aaaaaaaa-aaaa-aaaa-aaaa-aaaaaaaaaaaa'',
      sc_applicantId = ''citizen'', sc_agency = RDF, sc_campaignId = ''bbbbbbbb-bbbb-bbbb-bbbb-bbbbbbbbbbbb'',
      sc_slotId = ''v1'', sc_venueName = ''Amahoro'', sc_examDate = ''2026-08-03'', sc_reportingTimeHour = 7,
      sc_issuedAt = ''i'', sc_expiresAt = ''e''\<rparr>"

definition invitation_library :: js_library where
  "invitation_library =
     \<lparr>parse_base64url_json = (\<lambda>_. Some (sortValue (claims_json sample_invitation))),
      date_parse = (\<lambda>_. Some 10), normalize_nfc = (\<lambda>s. s)\<rparr>"

theorem minted_invitation_reads_back_witness:
  "verifySlotInvitation plain_crypto invitation_library ''pub'' (signSlotInvitation plain_crypto ''priv'' sample_invitation) 5 =
     Some (sortValue (claims_json sample_invitation))"
proof -
  have "genuine_keys plain_crypto invitation_library ''priv'' ''pub'' (claims_json sample_invitation)"
    by (simp add: genuine_keys_def plain_crypto_def invitation_library_def)
  moreover have "length (signSlotInvitation plain_crypto ''priv'' sample_invitation) \<le> MAX_TICKET_LENGTH"
    by code_simp
  moreover have "UUID_RE (sc_applicationId sample_invitation)" "UUID_RE (sc_campaignId sample_invitation)"
      "js_trim (sc_venueName sample_invitation) \<noteq> []" "DATE_RE (sc_examDate sample_invitation)"
    by code_simp+
  ultimately show ?thesis
    using minted_invitation_reads_back [of plain_crypto invitation_library "''priv''" "''pub''" sample_invitation 10 5]
    by (simp add: invitation_library_def sample_invitation_def)
qed

definition sample_metrics :: physical_test_metrics where
  "sample_metrics =
     \<lparr>m_heightCm = 180, m_weightKg = 70, m_run3kmTimeSeconds = 800, m_chestCm = 95,
      m_medicalFitnessStatus = ''FIT'', m_additionalNotes = None\<rparr>"

definition sample_payload :: "vector_clock \<Rightarrow> signable_field_payload" where
  "sample_payload c =
     \<lparr>sp_applicationId = ''app'', sp_qrInvitationCode = ''QR'', sp_metrics = sample_metrics, sp_capturedAt = ''t'',
      sp_deviceId = ''tablet'', sp_capturingOfficerId = ''o'', sp_vectorClock = c\<rparr>"

text \<open>A runtime that prints the whole numbers up to \<open>2^53\<close> and the fraction 170.5.\<close>

definition metre_numbers :: "real set" where
  "metre_numbers = insert (341 / 2) {x. is_whole x}"

lemma half_not_whole: "\<not> is_whole (341 / 2)"
proof
  assume "is_whole (341 / 2)"
  then have "real_of_int (2 * \<lfloor>341 / 2 :: real\<rfloor>) = 341" by (simp add: is_whole_def)
  then have "2 * \<lfloor>341 / 2 :: real\<rfloor> = 341" by linarith
  then show False by presburger
qed

lemma metre_printer: "printer (\<lambda>_. ''170.5'') metre_numbers"
proof -
  have "CHR ''.'' \<notin> set (show_int n)" for n
    using decimal_digits [of "nat n"] decimal_digits [of "nat (- n)"]
    by (auto simp: show_int_def list_all_iff is_digit_def)
  then have "show_int n \<noteq> ''170.5''" for n by (metis list.set_intros)
  then have "inj_on (show_number (\<lambda>_. ''170.5'')) metre_numbers"
    using half_not_whole show_number_whole
    by (auto simp: inj_on_def metre_numbers_def show_number_def) metis
  moreover have "list_all number_char ''170.5''" by code_simp
  ultimately show ?thesis using half_not_whole by (simp add: printer_def metre_numbers_def)
qed

lemma is_whole_numeral: "numeral n \<le> (2 :: real) ^ 53 \<Longrightarrow> is_whole (numeral n)"
  by (simp add: is_whole_def)

definition tall_payload :: "vector_clock \<Rightarrow> signable_field_payload" where
  "tall_payload c = (sample_payload c)\<lparr>sp_metrics := sample_metrics\<lparr>m_heightCm := 341 / 2\<rparr>\<rparr>"

theorem signature_binds_every_field_witness:
  "compareClocks [(''a'', 1), (''b'', 2)] [(''b'', 2), (''a'', 1)] = EQUAL"
proof -
  let ?p = "tall_payload [(''a'', 1), (''b'', 2)]" and ?q = "tall_payload [(''b'', 2), (''a'', 1)]"
  have "sort_key fst (map (\<lambda>(k, v). (k, sortValue v)) (map (\<lambda>(k, n). (k, JNum (of_int n))) [(''a'', 1 :: int), (''b'', 2)])) =
      sort_key fst (map (\<lambda>(k, v). (k, sortValue v)) (map (\<lambda>(k, n). (k, JNum (of_int n))) [(''b'', 2), (''a'', 1)]))"
    by (intro sort_key_inj_key_eq) (auto simp: inj_on_def)
  then have "sortValue (clock_json [(''a'', 1), (''b'', 2)]) = sortValue (clock_json [(''b'', 2), (''a'', 1)])"
    unfolding clock_json_def sortValue.simps by simp
  then have "canonicalJson f (payload_json ?p) = canonicalJson f (payload_json ?q)" for f
    by (simp add: canonicalJson_def payload_json_def sample_payload_def tall_payload_def)
  moreover have "is_whole 1" by (simp add: is_whole_def)
  then have "signable metre_numbers ?p" "signable metre_numbers ?q"
    by (simp_all add: signable_def tall_payload_def sample_payload_def sample_metrics_def metre_numbers_def is_whole_numeral)
  ultimately show ?thesis
    using signature_binds_every_field [OF _ metre_printer, of ?p ?q] by (simp add: tall_payload_def sample_payload_def)
qed

end
