(* ===== verification/FieldUpload.thy ===== *)
theory FieldUpload
  imports Signing
begin

text \<open>
  The tablets and their uploads: the device registry (\<open>adapters/device-registry.pg.ts\<close>), the batch
  upload (\<open>application/sync-field-scores.service.ts\<close>), enrolment, revocation and the officer's
  resolution of a conflict. One record of a batch is one step here: in the service the registry is read in a
  transaction before the one that merges, so a revocation that commits between the two is seen by the next record
  only. A use case commits its transaction first and publishes afterwards, so its
  result is the world it left \<^emph>\<open>and\<close> an answer or an error: an error does not undo a commit.
\<close>

subsection \<open>Events\<close>

record captured_event =
  ce_applicationId :: uuid
  ce_agency :: agency
  ce_campaignId :: uuid
  ce_deviceId :: string
  ce_capturingOfficerId :: uuid
  ce_vectorClock :: vector_clock
  ce_signedPayloadHash :: string
  ce_isWalkIn :: bool
  ce_correlationId :: string

datatype audit_entity = SYSTEM | APPLICATION

record audit_event =
  ae_entityType :: audit_entity
  ae_entityId :: string
  ae_action :: string
  ae_performedBy :: string
  ae_agency :: agency
  ae_metadata :: "(string \<times> string) list"
  ae_correlationId :: string

datatype field_event = FIELD_SCORE_CAPTURED captured_event | AUDIT_ENTRY audit_event

subsection \<open>The registry\<close>

datatype contact_source = FIELD_SYNC | BIOMETRIC

text \<open>A row of \<open>public_core.field_devices\<close>; its key is the device id.\<close>

record field_device =
  fd_public_key_pem :: string
  fd_agency :: agency
  fd_enrolled_by :: string
  fd_last_seen_at :: "instant option"
  fd_last_seen_source :: "contact_source option"
  fd_last_sync_at :: "instant option"
  fd_revoked_at :: "instant option"
  fd_revoked_by :: "string option"
  fd_revoke_reason :: "string option"

record device_assignment =
  da_agency :: agency
  da_campaign_id :: uuid
  da_district :: string
  da_assigned_by :: string

text \<open>One venue day of an agency's campaign, as the join the assignment reads.\<close>

record venue_day =
  vd_public_code :: string
  vd_agency :: agency
  vd_district :: string
  vd_exam_date :: string
  vd_campaign_id :: uuid

record field_world =
  field_devices :: "(string \<times> field_device) list"
  device_assignments :: "((string \<times> string) \<times> device_assignment) list"
  venue_days :: "venue_day list"
  world_db :: "field_event database"
  publish_attempts :: nat
  published :: "field_event list"

definition find_device :: "string \<Rightarrow> field_world \<Rightarrow> field_device option" where
  "find_device deviceId w = map_of (field_devices w) deviceId"

datatype enroll_outcome = Enroll_ENROLLED | Enroll_ALREADY_ENROLLED agency | Enroll_REVOKED

record enroll_device_input =
  en_deviceId :: string
  en_publicKeyPem :: string
  en_agency :: agency
  en_enrolledBy :: string

definition enroll :: "enroll_device_input \<Rightarrow> field_world \<Rightarrow> field_world \<times> enroll_outcome" where
  "enroll input w =
     (case find_device (en_deviceId input) w of
        None \<Rightarrow>
          (w\<lparr>field_devices := (en_deviceId input,
               \<lparr>fd_public_key_pem = en_publicKeyPem input, fd_agency = en_agency input,
                fd_enrolled_by = en_enrolledBy input, fd_last_seen_at = None, fd_last_seen_source = None,
                fd_last_sync_at = None, fd_revoked_at = None, fd_revoked_by = None, fd_revoke_reason = None\<rparr>)
               # field_devices w\<rparr>, Enroll_ENROLLED)
      | Some row \<Rightarrow>
          if fd_revoked_at row \<noteq> None \<and> fd_agency row = en_agency input then (w, Enroll_REVOKED)
          else (w, Enroll_ALREADY_ENROLLED (fd_agency row)))"

datatype revoke_outcome = Revoke_REVOKED | Revoke_ALREADY_REVOKED | Revoke_NOT_FOUND

record revoke_device_input =
  rv_deviceId :: string
  rv_agency :: agency
  rv_revokedBy :: string
  rv_reason :: string
  rv_audit :: field_event

definition revoke :: "revoke_device_input \<Rightarrow> field_world \<Rightarrow> field_world \<times> revoke_outcome" where
  "revoke input w =
     (case find_device (rv_deviceId input) w of
        None \<Rightarrow> (w, Revoke_NOT_FOUND)
      | Some row \<Rightarrow>
          if fd_agency row \<noteq> rv_agency input then (w, Revoke_NOT_FOUND)
          else if fd_revoked_at row \<noteq> None then (w, Revoke_ALREADY_REVOKED)
          else
            (w\<lparr>field_devices := update_row (rv_deviceId input)
                 (\<lambda>d. d\<lparr>fd_revoked_at := Some (db_now (world_db w)), fd_revoked_by := Some (rv_revokedBy input),
                       fd_revoke_reason := Some (rv_reason input)\<rparr>) (field_devices w),
               world_db := stage_events [rv_audit input] (world_db w)\<rparr>, Revoke_REVOKED))"

datatype assign_outcome = Assign_ASSIGNED | Assign_DEVICE_NOT_FOUND | Assign_DEVICE_REVOKED | Assign_VENUE_NOT_FOUND

record assign_device_input =
  as_deviceId :: string
  as_agency :: agency
  as_campaignPublicCode :: string
  as_district :: string
  as_examDate :: string
  as_assignedBy :: string
  as_audit :: field_event

definition assign_device :: "assign_device_input \<Rightarrow> field_world \<Rightarrow> field_world \<times> assign_outcome" where
  "assign_device input w =
     (case find_device (as_deviceId input) w of
        None \<Rightarrow> (w, Assign_DEVICE_NOT_FOUND)
      | Some d \<Rightarrow>
          if fd_agency d \<noteq> as_agency input then (w, Assign_DEVICE_NOT_FOUND)
          else if fd_revoked_at d \<noteq> None then (w, Assign_DEVICE_REVOKED)
          else
            (case find (\<lambda>v. vd_public_code v = as_campaignPublicCode input \<and> vd_agency v = as_agency input \<and>
                            vd_district v = as_district input \<and> vd_exam_date v = as_examDate input) (venue_days w) of
               None \<Rightarrow> (w, Assign_VENUE_NOT_FOUND)
             | Some venue \<Rightarrow>
                 let key = (as_deviceId input, as_examDate input) in
                 (w\<lparr>device_assignments :=
                      (case map_of (device_assignments w) key of
                         None \<Rightarrow> (key, \<lparr>da_agency = as_agency input, da_campaign_id = vd_campaign_id venue,
                                        da_district = as_district input, da_assigned_by = as_assignedBy input\<rparr>)
                                 # device_assignments w
                       | Some _ \<Rightarrow> update_row key
                           (\<lambda>x. x\<lparr>da_campaign_id := vd_campaign_id venue, da_district := as_district input,
                                 da_assigned_by := as_assignedBy input\<rparr>) (device_assignments w)),
                    world_db := stage_events [as_audit input] (world_db w)\<rparr>, Assign_ASSIGNED)))"

text \<open>\<open>public_core.touch_field_device\<close>: the stamp never moves back and never marks a revoked device.\<close>

definition later_of :: "instant option \<Rightarrow> instant \<Rightarrow> instant" where
  "later_of old now = (case old of None \<Rightarrow> now | Some t \<Rightarrow> max t now)"

definition touch :: "string \<Rightarrow> contact_source \<Rightarrow> field_world \<Rightarrow> field_world" where
  "touch deviceId source w =
     w\<lparr>field_devices := update_row deviceId
         (\<lambda>d. if fd_revoked_at d \<noteq> None then d
              else d\<lparr>fd_last_seen_at := Some (later_of (fd_last_seen_at d) (db_now (world_db w))),
                     fd_last_seen_source := Some source,
                     fd_last_sync_at := (if source = FIELD_SYNC
                       then Some (later_of (fd_last_sync_at d) (db_now (world_db w))) else fd_last_sync_at d)\<rparr>)
         (field_devices w)\<rparr>"

subsection \<open>Publishing\<close>

text \<open>
  \<open>eventBus.publish\<close> may throw; \<open>bus n e\<close> says whether the \<open>n\<close>-th attempt of this process
  goes through. The generated event id and timestamp of the envelope are not modelled.
\<close>

datatype upload_error = PublishFailed | StoreFailed field_sync_error

definition publish :: "(nat \<Rightarrow> field_event \<Rightarrow> bool) \<Rightarrow> field_event \<Rightarrow> field_world \<Rightarrow> field_world \<times> (upload_error + unit)" where
  "publish bus e w =
     (let w' = w\<lparr>publish_attempts := Suc (publish_attempts w)\<rparr> in
      if bus (publish_attempts w) e then (w'\<lparr>published := published w' @ [e]\<rparr>, Inr ())
      else (w', Inl PublishFailed))"

fun then_do :: "'w \<times> ('e + 'a) \<Rightarrow> ('a \<Rightarrow> 'w \<Rightarrow> 'w \<times> ('e + 'b)) \<Rightarrow> 'w \<times> ('e + 'b)" where
  "then_do (w, Inl e) k = (w, Inl e)"
| "then_do (w, Inr x) k = k x w"

subsection \<open>Uploading a batch\<close>

datatype record_status =
    Rec_ACCEPTED | Rec_SUPERSEDED | Rec_CONFLICT | Rec_STALE | Rec_DUPLICATE | Rec_NOT_FOUND | Rec_REJECTED

datatype reject_reason =
    UNENROLLED_DEVICE | REVOKED_DEVICE | AGENCY_MISMATCH | OFFICER_MISMATCH | BAD_SIGNATURE
  | TICKET_MISMATCH | NOT_ADMITTED

definition reason_name :: "reject_reason \<Rightarrow> string" where
  "reason_name r =
     (case r of UNENROLLED_DEVICE \<Rightarrow> ''UNENROLLED_DEVICE'' | REVOKED_DEVICE \<Rightarrow> ''REVOKED_DEVICE''
      | AGENCY_MISMATCH \<Rightarrow> ''AGENCY_MISMATCH'' | OFFICER_MISMATCH \<Rightarrow> ''OFFICER_MISMATCH''
      | BAD_SIGNATURE \<Rightarrow> ''BAD_SIGNATURE'' | TICKET_MISMATCH \<Rightarrow> ''TICKET_MISMATCH'' | NOT_ADMITTED \<Rightarrow> ''NOT_ADMITTED'')"

record record_sync_result =
  rs_applicationId :: uuid
  rs_deviceId :: string
  rs_status :: record_status
  rs_reason :: "reject_reason option"
  rs_scoreId :: "uuid option"

record field_score_record =
  fsr_applicationId :: uuid
  fsr_qrInvitationCode :: string
  fsr_metrics :: physical_test_metrics
  fsr_capturedAt :: string
  fsr_deviceId :: string
  fsr_capturingOfficerId :: uuid
  fsr_vectorClock :: vector_clock
  fsr_deviceSignature :: string
  fsr_signedPayloadHash :: string

text \<open>What the process runs on: the bus, the libraries, the engine's casts and generated ids.\<close>

record upload_environment =
  env_bus :: "nat \<Rightarrow> field_event \<Rightarrow> bool"
  env_crypto :: crypto_library
  env_timestamptz :: "string \<Rightarrow> instant option"
  env_new_id :: "field_event database \<Rightarrow> uuid"

definition sync_result :: "field_score_record \<Rightarrow> record_status \<Rightarrow> reject_reason option \<Rightarrow> uuid option \<Rightarrow> record_sync_result" where
  "sync_result record status reason score =
     \<lparr>rs_applicationId = fsr_applicationId record, rs_deviceId = fsr_deviceId record, rs_status = status,
      rs_reason = reason, rs_scoreId = score\<rparr>"

definition device_audit :: "string \<Rightarrow> string \<Rightarrow> agency \<Rightarrow> string \<Rightarrow> (string \<times> string) list \<Rightarrow> field_event" where
  "device_audit corr deviceId a action metadata =
     AUDIT_ENTRY \<lparr>ae_entityType = SYSTEM, ae_entityId = deviceId, ae_action = action,
                  ae_performedBy = ''field-sync-service'', ae_agency = a, ae_metadata = metadata, ae_correlationId = corr\<rparr>"

definition reject_record ::
  "upload_environment \<Rightarrow> string \<Rightarrow> field_score_record \<Rightarrow> reject_reason \<Rightarrow> agency \<Rightarrow> field_world \<Rightarrow>
   field_world \<times> (upload_error + record_sync_result)" where
  "reject_record env corr record reason a w =
     then_do (publish (env_bus env) (device_audit corr (fsr_deviceId record) a ''FIELD_SCORE_REJECTED''
                [(''applicationId'', fsr_applicationId record), (''reason'', reason_name reason)]) w)
       (\<lambda>_ w. (w, Inr (sync_result record Rec_REJECTED (Some reason) None)))"

definition captured_of :: "string \<Rightarrow> field_score_record \<Rightarrow> agency \<Rightarrow> captured_context \<Rightarrow> field_event" where
  "captured_of corr record a c =
     FIELD_SCORE_CAPTURED
       \<lparr>ce_applicationId = fsr_applicationId record, ce_agency = a, ce_campaignId = cc_campaignId c,
        ce_deviceId = fsr_deviceId record, ce_capturingOfficerId = fsr_capturingOfficerId record,
        ce_vectorClock = fsr_vectorClock record, ce_signedPayloadHash = fsr_signedPayloadHash record,
        ce_isWalkIn = cc_isWalkIn c, ce_correlationId = corr\<rparr>"

definition announce_stored ::
  "upload_environment \<Rightarrow> string \<Rightarrow> field_score_record \<Rightarrow> agency \<Rightarrow> captured_context \<Rightarrow> record_status \<Rightarrow> string \<Rightarrow>
   field_world \<Rightarrow> field_world \<times> (upload_error + record_sync_result)" where
  "announce_stored env corr record a c status name w =
     then_do (publish (env_bus env) (captured_of corr record a c) w)
       (\<lambda>_ w. then_do (publish (env_bus env) (device_audit corr (fsr_deviceId record) a ''FIELD_SCORE_CAPTURED''
                  [(''applicationId'', fsr_applicationId record), (''scoreId'', cc_scoreId c), (''resolution'', name)]) w)
         (\<lambda>_ w. (w, Inr (sync_result record status None (Some (cc_scoreId c))))))"

definition materialise ::
  "upload_environment \<Rightarrow> string \<Rightarrow> field_score_record \<Rightarrow> agency \<Rightarrow> sync_outcome \<Rightarrow> field_world \<Rightarrow>
   field_world \<times> (upload_error + record_sync_result)" where
  "materialise env corr record a answer w =
     (case answer of
        Sync_ACCEPTED c \<Rightarrow> announce_stored env corr record a c Rec_ACCEPTED ''ACCEPTED'' w
      | Sync_SUPERSEDED c \<Rightarrow> announce_stored env corr record a c Rec_SUPERSEDED ''SUPERSEDED'' w
      | Sync_CONFLICT c \<Rightarrow>
          then_do (publish (env_bus env) (device_audit corr (fsr_deviceId record) a ''FIELD_SCORE_CONFLICT''
                     [(''applicationId'', fsr_applicationId record), (''scoreId'', cc_scoreId c)]) w)
            (\<lambda>_ w. (w, Inr (sync_result record Rec_CONFLICT None (Some (cc_scoreId c)))))
      | Sync_STALE \<Rightarrow> (w, Inr (sync_result record Rec_STALE None None))
      | Sync_DUPLICATE \<Rightarrow> (w, Inr (sync_result record Rec_DUPLICATE None None))
      | Sync_NOT_FOUND \<Rightarrow> (w, Inr (sync_result record Rec_NOT_FOUND None None))
      | Sync_TICKET_MISMATCH \<Rightarrow> reject_record env corr record TICKET_MISMATCH a w
      | Sync_NOT_ADMITTED \<Rightarrow> reject_record env corr record NOT_ADMITTED a w)"

definition payload_of :: "field_score_record \<Rightarrow> signable_field_payload" where
  "payload_of record =
     \<lparr>sp_applicationId = fsr_applicationId record, sp_qrInvitationCode = fsr_qrInvitationCode record,
      sp_metrics = fsr_metrics record, sp_capturedAt = fsr_capturedAt record, sp_deviceId = fsr_deviceId record,
      sp_capturingOfficerId = fsr_capturingOfficerId record, sp_vectorClock = fsr_vectorClock record\<rparr>"

definition store_input :: "field_score_record \<Rightarrow> agency \<Rightarrow> uuid \<Rightarrow> sync_record_input" where
  "store_input record a subject =
     \<lparr>si_applicationId = fsr_applicationId record, si_agency = a, si_qrInvitationCode = fsr_qrInvitationCode record,
      si_deviceId = fsr_deviceId record, si_capturingOfficerId = subject, si_capturedAt = fsr_capturedAt record,
      si_vectorClock = fsr_vectorClock record, si_deviceSignature = fsr_deviceSignature record,
      si_signedPayloadHash = fsr_signedPayloadHash record, si_metrics = fsr_metrics record\<rparr>"

definition stamp_contact :: "string \<Rightarrow> string set \<times> field_world \<Rightarrow> string set \<times> field_world" where
  "stamp_contact deviceId = (\<lambda>(stamped, w).
     if deviceId \<in> stamped then (stamped, w) else (insert deviceId stamped, touch deviceId FIELD_SYNC w))"

definition merge_record ::
  "upload_environment \<Rightarrow> string \<Rightarrow> field_score_record \<Rightarrow> agency \<Rightarrow> uuid \<Rightarrow> field_world \<Rightarrow>
   field_world \<times> (upload_error + record_sync_result)" where
  "merge_record env corr record a subject w =
     (case sync (env_timestamptz env) (env_new_id env (world_db w)) (store_input record a subject) (world_db w) of
        Inl e \<Rightarrow> (w, Inl (StoreFailed e))
      | Inr (db', answer) \<Rightarrow> materialise env corr record a answer (w\<lparr>world_db := db'\<rparr>))"

definition syncOne ::
  "upload_environment \<Rightarrow> string \<Rightarrow> field_score_record \<Rightarrow> agency \<Rightarrow> uuid \<Rightarrow> string set \<times> field_world \<Rightarrow>
   string set \<times> field_world \<times> (upload_error + record_sync_result)" where
  "syncOne env corr record actorAgency actorSubjectId = (\<lambda>(stamped, w).
     let refuse = (\<lambda>reason. (stamped, reject_record env corr record reason actorAgency w)) in
     case find_device (fsr_deviceId record) w of
       None \<Rightarrow> refuse UNENROLLED_DEVICE
     | Some device \<Rightarrow>
         if fd_revoked_at device \<noteq> None then refuse REVOKED_DEVICE
         else if fd_agency device \<noteq> actorAgency then refuse AGENCY_MISMATCH
         else if \<not> verifyFieldScoreRecord (env_crypto env) (fd_public_key_pem device) (payload_of record)
                    \<lparr>fs_deviceSignature = fsr_deviceSignature record,
                     fs_signedPayloadHash = fsr_signedPayloadHash record\<rparr>
         then refuse BAD_SIGNATURE
         else if fsr_capturingOfficerId record \<noteq> actorSubjectId then refuse OFFICER_MISMATCH
         else
           (case stamp_contact (fsr_deviceId record) (stamped, w) of
              (stamped', w') \<Rightarrow> (stamped', merge_record env corr record actorAgency actorSubjectId w')))"

fun sync_records ::
  "upload_environment \<Rightarrow> string \<Rightarrow> agency \<Rightarrow> uuid \<Rightarrow> field_score_record list \<Rightarrow> string set \<times> field_world \<Rightarrow>
   field_world \<times> (upload_error + record_sync_result list)" where
  "sync_records env corr a subject [] (stamped, w) = (w, Inr [])"
| "sync_records env corr a subject (r # rs) (stamped, w) =
     (case syncOne env corr r a subject (stamped, w) of
        (stamped', w', Inl e) \<Rightarrow> (w', Inl e)
      | (stamped', w', Inr res) \<Rightarrow>
          then_do (sync_records env corr a subject rs (stamped', w')) (\<lambda>rest w. (w, Inr (res # rest))))"

text \<open>\<open>SyncFieldScoresService.sync\<close>\<close>

definition sync_batch ::
  "upload_environment \<Rightarrow> string \<Rightarrow> agency \<Rightarrow> uuid \<Rightarrow> field_score_record list \<Rightarrow> field_world \<Rightarrow>
   field_world \<times> (upload_error + record_sync_result list)" where
  "sync_batch env corr actorAgency actorSubjectId records w =
     sync_records env corr actorAgency actorSubjectId records ({}, w)"

subsection \<open>Resolving a conflict, enrolling and revoking\<close>

text \<open>\<open>ResolveConflictService.resolve\<close>\<close>

definition resolve_case ::
  "upload_environment \<Rightarrow> string \<Rightarrow> resolve_conflict_input \<Rightarrow> string \<Rightarrow> field_world \<Rightarrow>
   field_world \<times> (upload_error + resolve_outcome)" where
  "resolve_case env corr input resolvedBy w =
     (case resolveConflict input (world_db w) of
        Inl e \<Rightarrow> (w, Inl (StoreFailed e))
      | Inr (db', Resolve_RESOLVED rec) \<Rightarrow>
          then_do (publish (env_bus env)
                     (FIELD_SCORE_CAPTURED
                        \<lparr>ce_applicationId = rc_applicationId input, ce_agency = rc_agency input,
                         ce_campaignId = cc_campaignId (rr_context rec), ce_deviceId = rr_deviceId rec,
                         ce_capturingOfficerId = rr_capturingOfficerId rec, ce_vectorClock = rr_vectorClock rec,
                         ce_signedPayloadHash = rr_signedPayloadHash rec, ce_isWalkIn = cc_isWalkIn (rr_context rec),
                         ce_correlationId = corr\<rparr>) (w\<lparr>world_db := db'\<rparr>))
            (\<lambda>_ w. then_do (publish (env_bus env)
                     (AUDIT_ENTRY
                        \<lparr>ae_entityType = APPLICATION, ae_entityId = rc_applicationId input,
                         ae_action = ''FIELD_SCORE_CONFLICT_RESOLVED'', ae_performedBy = resolvedBy,
                         ae_agency = rc_agency input,
                         ae_metadata =
                           [(''scoreId'', rc_scoreId input), (''resolution'', rc_resolution input),
                            (''capturingOfficerId'', rr_capturingOfficerId rec),
                            (''resolverIsCapturingOfficer'',
                             if rr_capturingOfficerId rec = resolvedBy then ''true'' else ''false'')],
                         ae_correlationId = corr\<rparr>) w)
              (\<lambda>_ w. (w, Inr (Resolve_RESOLVED rec))))
      | Inr (db', answer) \<Rightarrow> (w\<lparr>world_db := db'\<rparr>, Inr answer))"

text \<open>\<open>EnrollDeviceService.enroll\<close>\<close>

definition enroll_case ::
  "upload_environment \<Rightarrow> string \<Rightarrow> enroll_device_input \<Rightarrow> field_world \<Rightarrow> field_world \<times> (upload_error + enroll_outcome)" where
  "enroll_case env corr input w =
     (case enroll input w of
        (w', answer) \<Rightarrow>
          if answer = Enroll_ENROLLED then
            then_do (publish (env_bus env)
                       (AUDIT_ENTRY \<lparr>ae_entityType = SYSTEM, ae_entityId = en_deviceId input,
                                     ae_action = ''FIELD_DEVICE_ENROLLED'', ae_performedBy = en_enrolledBy input,
                                     ae_agency = en_agency input, ae_metadata = [(''deviceId'', en_deviceId input)],
                                     ae_correlationId = corr\<rparr>) w')
              (\<lambda>_ w. (w, Inr answer))
          else (w', Inr answer))"

subsection \<open>What a use case may change\<close>

lemma publish_frame [simp]:
  "world_db (fst (publish bus e w)) = world_db w" "field_devices (fst (publish bus e w)) = field_devices w"
  by (simp_all add: publish_def Let_def)

lemma then_do_frame:
  assumes "P (fst r)" and "\<And>x w. P w \<Longrightarrow> P (fst (k x w))" shows "P (fst (then_do r k))"
  using assms by (cases "(r, k)" rule: then_do.cases) auto

definition same_store :: "field_world \<Rightarrow> field_world \<Rightarrow> bool" where
  "same_store w w' \<longleftrightarrow> world_db w' = world_db w \<and> field_devices w' = field_devices w"

lemma same_store_publish: "same_store w v \<Longrightarrow> same_store w (fst (publish bus e v))"
  by (simp add: same_store_def)

lemma announcements_frame:
  "same_store w (fst (reject_record env corr r reason a w))"
  "same_store w (fst (announce_stored env corr r a c status name w))"
  "same_store w (fst (materialise env corr r a out w))"
proof -
  show reject: "same_store w (fst (reject_record env corr r reason a w))" for reason
    unfolding reject_record_def
    by (rule then_do_frame [of "same_store w"]) (auto simp: same_store_def)
  show announce: "same_store w (fst (announce_stored env corr r a c status name w))" for c status name
    unfolding announce_stored_def
    by (intro then_do_frame [of "same_store w"] same_store_publish) (auto simp: same_store_def)
  show "same_store w (fst (materialise env corr r a out w))"
    unfolding materialise_def
    by (cases out; simp add: reject announce)
       (auto simp: same_store_def intro!: then_do_frame [of "\<lambda>u. world_db u = world_db w \<and> field_devices u = field_devices w"])
qed

lemma touch_db [simp]: "world_db (touch i s w) = world_db w"
  by (simp add: touch_def)

lemma stamp_contact_db: "stamp_contact i (st, w) = (st', w') \<Longrightarrow> world_db w' = world_db w"
  by (auto simp: stamp_contact_def split: if_splits)

text \<open>A record got past the registry, the signature and the officer check.\<close>

definition trusted ::
  "upload_environment \<Rightarrow> field_score_record \<Rightarrow> agency \<Rightarrow> uuid \<Rightarrow> field_world \<Rightarrow> field_device \<Rightarrow> bool" where
  "trusted env r a subject w device \<longleftrightarrow>
     find_device (fsr_deviceId r) w = Some device \<and> fd_revoked_at device = None \<and> fd_agency device = a \<and>
     verifyFieldScoreRecord (env_crypto env) (fd_public_key_pem device) (payload_of r)
       \<lparr>fs_deviceSignature = fsr_deviceSignature r, fs_signedPayloadHash = fsr_signedPayloadHash r\<rparr> \<and>
     fsr_capturingOfficerId r = subject"

lemma syncOne_cases [consumes 1, case_names Refused Merged]:
  assumes "syncOne env corr r a subject (st, w) = (st', w', res)"
  obtains "\<not> (\<exists>device. trusted env r a subject w device)" and "same_store w w'"
      and "\<And>x. res = Inr x \<Longrightarrow> rs_status x = Rec_REJECTED"
  | device v where "trusted env r a subject w device" and "stamp_contact (fsr_deviceId r) (st, w) = (st', v)"
      and "merge_record env corr r a subject v = (w', res)"
proof -
  have rejected: "same_store w u \<and> (\<forall>x. res' = Inr x \<longrightarrow> rs_status x = Rec_REJECTED)"
    if "reject_record env corr r reason a w = (u, res')" for reason u res'
    using announcements_frame(1) [of w env corr r reason a] that
    by (auto simp: reject_record_def publish_def Let_def sync_result_def split: if_splits)
  show thesis
  proof (cases "\<exists>device. trusted env r a subject w device")
    case True
    then obtain device where d: "trusted env r a subject w device" ..
    with assms have "(case stamp_contact (fsr_deviceId r) (st, w) of
        (s, u) \<Rightarrow> (s, merge_record env corr r a subject u)) = (st', w', res)"
      by (simp add: syncOne_def trusted_def Let_def)
    then show thesis
      by (cases "stamp_contact (fsr_deviceId r) (st, w)") (auto intro!: that(2) [OF d])
  next
    case False
    then have "\<exists>reason. reject_record env corr r reason a w = (w', res)"
      using assms by (auto simp: syncOne_def trusted_def Let_def split: option.splits if_splits)
    with rejected False show thesis by (intro that(1)) blast+
  qed
qed

lemma merge_record_cases:
  assumes "merge_record env corr r a subject v = (w', res)"
  obtains e where "sync (env_timestamptz env) (env_new_id env (world_db v)) (store_input r a subject) (world_db v) = Inl e"
      and "w' = v" and "res = Inl (StoreFailed e)"
  | db' out where "sync (env_timestamptz env) (env_new_id env (world_db v)) (store_input r a subject) (world_db v) = Inr (db', out)"
      and "materialise env corr r a out (v\<lparr>world_db := db'\<rparr>) = (w', res)" and "world_db w' = db'"
proof (cases "sync (env_timestamptz env) (env_new_id env (world_db v)) (store_input r a subject) (world_db v)")
  case (Inl e)
  with assms show thesis by (intro that(1)) (auto simp: merge_record_def)
next
  case (Inr p)
  obtain db' out where p: "p = (db', out)" by (cases p)
  with Inr assms have "materialise env corr r a out (v\<lparr>world_db := db'\<rparr>) = (w', res)" by (simp add: merge_record_def)
  moreover from this have "world_db w' = db'"
    using announcements_frame(3) [of "v\<lparr>world_db := db'\<rparr>" env corr r a out] by (simp add: same_store_def)
  ultimately show thesis using Inr p by (intro that(2)) simp_all
qed

lemma store_input_simps [simp]:
  "si_agency (store_input r a s) = a" "si_applicationId (store_input r a s) = fsr_applicationId r"
  "si_qrInvitationCode (store_input r a s) = fsr_qrInvitationCode r" "si_capturingOfficerId (store_input r a s) = s"
  "si_signedPayloadHash (store_input r a s) = fsr_signedPayloadHash r"
  "si_vectorClock (store_input r a s) = fsr_vectorClock r"
  by (simp_all add: store_input_def)

text \<open>
  C34: An upload changes the score log of no application but the one the record names, and only
  for an enrolled, unrevoked device of the uploader\<open>'\<close>s agency whose key verifies
  the record, with the officer and the ticket matching and the gate passed or the walk-in lane;
  and then it appends one row and at most rewrites conflict flags.
\<close>

text \<open>
  C28: An upload changes the score log of no application but the one the record names, and only
  for an enrolled, unrevoked device of the uploader\<open>'\<close>s agency whose key verifies
  the record, with the officer and the ticket matching and the gate passed or the walk-in lane;
  and then it appends one row and at most rewrites conflict flags.
\<close>

text \<open>
  C28: An upload changes the score log of no application but the one the record names, and only
  for an enrolled, unrevoked device of the uploader\<open>'\<close>s agency whose key verifies
  the record, with the officer and the ticket matching and the gate passed or the walk-in lane;
  and then it appends one row and at most rewrites conflict flags.
\<close>

text \<open>
  C28: An upload changes the score log of no application but the one the record names, and only
  for an enrolled, unrevoked device of the uploader\<open>'\<close>s agency whose key verifies
  the record, with the officer and the ticket matching and the gate passed or the walk-in lane;
  and then it appends one row and at most rewrites conflict flags.
\<close>

text \<open>
  C28: An upload changes the score log of no application but the one the record names, and only
  for an enrolled, unrevoked device of the uploader\<open>'\<close>s agency whose key verifies
  the record, with the officer and the ticket matching and the gate passed or the walk-in lane;
  and then it appends one row and at most rewrites conflict flags.
\<close>

text \<open>
  C28: An upload changes the score log of no application but the one the record names, and only
  for an enrolled, unrevoked device of the uploader\<open>'\<close>s agency whose key verifies
  the record, with the officer and the ticket matching and the gate passed or the walk-in lane;
  and then it appends one row and at most rewrites conflict flags.
\<close>

text \<open>
  C28: An upload changes the score log of no application but the one the record names, and only
  for an enrolled, unrevoked device of the uploader\<open>'\<close>s agency whose key verifies
  the record, with the officer and the ticket matching and the gate passed or the walk-in lane;
  and then it appends one row and at most rewrites conflict flags.
\<close>

text \<open>
  C19: An upload changes the score log of no application but the one the record names, and only
  for an enrolled, unrevoked device of the uploader\<open>'\<close>s agency whose key verifies
  the record, with the officer and the ticket matching and the gate passed or the walk-in lane;
  and then it appends one row and at most rewrites conflict flags.
\<close>

text \<open>
  C19: An upload changes the score log of no application but the one the record names, and only
  for an enrolled, unrevoked device of the uploader\<open>'\<close>s agency whose key verifies
  the record, with the officer and the ticket matching and the gate passed or the walk-in lane;
  and then it appends one row and at most rewrites conflict flags.
\<close>

text \<open>
  C19: An upload changes the score log of no application but the one the record names, and only
  for an enrolled, unrevoked device of the uploader\<open>'\<close>s agency whose key verifies
  the record, with the officer and the ticket matching and the gate passed or the walk-in lane;
  and then it appends one row and at most rewrites conflict flags.
\<close>

text \<open>
  C19: An upload changes the score log of no application but the one the record names, and only
  for an enrolled, unrevoked device of the uploader\<open>'\<close>s agency whose key verifies
  the record, with the officer and the ticket matching and the gate passed or the walk-in lane;
  and then it appends one row and at most rewrites conflict flags.
\<close>

text \<open>
  C19: An upload changes the score log of no application but the one the record names, and only
  for an enrolled, unrevoked device of the uploader\<open>'\<close>s agency whose key verifies
  the record, with the officer and the ticket matching and the gate passed or the walk-in lane;
  and then it appends one row and at most rewrites conflict flags.
\<close>

text \<open>
  C19: An upload changes the score log of no application but the one the record names, and only
  for an enrolled, unrevoked device of the uploader\<open>'\<close>s agency whose key verifies
  the record, with the officer and the ticket matching and the gate passed or the walk-in lane;
  and then it appends one row and at most rewrites conflict flags.
\<close>

text \<open>
  C19: An upload changes the score log of no application but the one the record names, and only
  for an enrolled, unrevoked device of the uploader\<open>'\<close>s agency whose key verifies
  the record, with the officer and the ticket matching and the gate passed or the walk-in lane;
  and then it appends one row and at most rewrites conflict flags.
\<close>

text \<open>
  C15: An upload changes the score log of no application but the one the record names, and only
  for an enrolled, unrevoked device of the uploader\<open>'\<close>s agency whose key verifies
  the record, with the officer and the ticket matching and the gate passed or the walk-in lane;
  and then it appends one row and at most rewrites conflict flags.
\<close>

text \<open>
  C14: An upload changes the score log of no application but the one the record names, and only
  for an enrolled, unrevoked device of the uploader\<open>'\<close>s agency whose key verifies
  the record, with the officer and the ticket matching and the gate passed or the walk-in lane;
  and then it appends one row and at most rewrites conflict flags.
\<close>

text \<open>
  C14: An upload changes the score log of no application but the one the record names, and only
  for an enrolled, unrevoked device of the uploader\<open>'\<close>s agency whose key verifies
  the record, with the officer and the ticket matching and the gate passed or the walk-in lane;
  and then it appends one row and at most rewrites conflict flags.
\<close>

text \<open>
  C14: An upload changes the score log of no application but the one the record names, and only
  for an enrolled, unrevoked device of the uploader\<open>'\<close>s agency whose key verifies
  the record, with the officer and the ticket matching and the gate passed or the walk-in lane;
  and then it appends one row and at most rewrites conflict flags.
\<close>

text \<open>
  C14: An upload changes the score log of no application but the one the record names, and only
  for an enrolled, unrevoked device of the uploader\<open>'\<close>s agency whose key verifies
  the record, with the officer and the ticket matching and the gate passed or the walk-in lane;
  and then it appends one row and at most rewrites conflict flags.
\<close>

text \<open>
  C14: An upload changes the score log of no application but the one the record names, and only
  for an enrolled, unrevoked device of the uploader\<open>'\<close>s agency whose key verifies
  the record, with the officer and the ticket matching and the gate passed or the walk-in lane;
  and then it appends one row and at most rewrites conflict flags.
\<close>

text \<open>
  C14: An upload changes the score log of no application but the one the record names, and only
  for an enrolled, unrevoked device of the uploader\<open>'\<close>s agency whose key verifies
  the record, with the officer and the ticket matching and the gate passed or the walk-in lane;
  and then it appends one row and at most rewrites conflict flags.
\<close>

text \<open>
  C14: An upload changes the score log of no application but the one the record names, and only
  for an enrolled, unrevoked device of the uploader\<open>'\<close>s agency whose key verifies
  the record, with the officer and the ticket matching and the gate passed or the walk-in lane;
  and then it appends one row and at most rewrites conflict flags.
\<close>

text \<open>
  C14: An upload changes the score log of no application but the one the record names, and only
  for an enrolled, unrevoked device of the uploader\<open>'\<close>s agency whose key verifies
  the record, with the officer and the ticket matching and the gate passed or the walk-in lane;
  and then it appends one row and at most rewrites conflict flags.
\<close>

text \<open>
  C14: An upload changes the score log of no application but the one the record names, and only
  for an enrolled, unrevoked device of the uploader\<open>'\<close>s agency whose key verifies
  the record, with the officer and the ticket matching and the gate passed or the walk-in lane;
  and then it appends one row and at most rewrites conflict flags.
\<close>

text \<open>
  C14: An upload changes the score log of no application but the one the record names, and only
  for an enrolled, unrevoked device of the uploader\<open>'\<close>s agency whose key verifies
  the record, with the officer and the ticket matching and the gate passed or the walk-in lane;
  and then it appends one row and at most rewrites conflict flags.
\<close>

theorem stored_score_has_authority:
  assumes "syncOne env corr r a subject (st, w) = (st', w', res)"
    and "scores_of (world_db w') b j \<noteq> scores_of (world_db w) b j"
  shows "b = a \<and> j = fsr_applicationId r \<and>
    (\<exists>device. trusted env r a subject w device) \<and>
    (\<exists>app. app_of (world_db w) a j = Some app \<and> qr_invitation_code app = Some (fsr_qrInvitationCode r) \<and>
       (walkInFlag a app \<or> list_ex (\<lambda>g. adm_application_id g = j) (gate_admissions (schema_of (world_db w) a)))) \<and>
    (\<exists>row held. scores_of (world_db w') b j =
        map (\<lambda>q. q\<lparr>sync_conflict_detected := held\<rparr>) (scores_of (world_db w) b j) @ [row] \<and>
      capturing_officer_id row = subject \<and> vector_clock row = fsr_vectorClock r)"
  using assms(1)
proof (cases rule: syncOne_cases)
  case Refused
  then show ?thesis using assms(2) by (simp add: same_store_def)
next
  case (Merged device v)
  have db: "world_db v = world_db w" by (rule stamp_contact_db [OF Merged(2)])
  from Merged(3) show ?thesis
  proof (cases rule: merge_record_cases)
    case (1 e)
    then show ?thesis using assms(2) db by simp
  next
    case (2 db' out)
    note merged = 2
    from 2(1) show ?thesis
    proof (cases rule: sync_cases)
      case (Appended app row decision)
      note fields = new_score_fields [OF Appended(4)]
      have log: "scores_of (world_db w') b j =
          map (\<lambda>q. if a = b \<and> fsr_applicationId r = j then q\<lparr>sync_conflict_detected := decision = CONFLICT\<rparr> else q)
            (scores_of (world_db w) b j @ (if a = b \<and> fsr_applicationId r = j then [row] else []))"
        using merged(3) Appended(5) fields(2) db by (simp add: store_simps)
      with assms(2) have here: "b = a" "j = fsr_applicationId r"
        by (auto split: if_splits)
      then have "scores_of (world_db w') b j =
          map (\<lambda>q. q\<lparr>sync_conflict_detected := decision = CONFLICT\<rparr>) (scores_of (world_db w) b j) @
          [row\<lparr>sync_conflict_detected := decision = CONFLICT\<rparr>]"
        using log by simp
      moreover have "capturing_officer_id row = subject" "vector_clock row = fsr_vectorClock r"
        using fields(3,5) by simp_all
      ultimately show ?thesis
        using here Merged(1) Appended(1) db unfolding may_score_def by fastforce
    qed (use merged(3) assms(2) db in simp_all)
  qed
qed

subsection \<open>A failed announcement\<close>

lemma find_touch:
  "find_device j (touch i s w) =
     (if i = j then map_option (\<lambda>d. if fd_revoked_at d \<noteq> None then d
        else d\<lparr>fd_last_seen_at := Some (later_of (fd_last_seen_at d) (db_now (world_db w))),
               fd_last_seen_source := Some s,
               fd_last_sync_at := (if s = FIELD_SYNC
                 then Some (later_of (fd_last_sync_at d) (db_now (world_db w))) else fd_last_sync_at d)\<rparr>) (find_device j w)
      else find_device j w)"
  by (simp add: find_device_def touch_def map_of_update_row)

lemma trusted_stays:
  assumes "trusted env r a subject w device" and "stamp_contact i (st, w) = (st', v)" and "field_devices u = field_devices v"
  shows "\<exists>device'. trusted env r a subject u device'"
proof -
  have "find_device j u = find_device j v" for j using assms(3) by (simp add: find_device_def)
  then show ?thesis
    using assms(1,2) by (auto simp: stamp_contact_def trusted_def find_touch split: if_splits)
qed

text \<open>
  The store has committed when the bus refuses the event. The tablet's retry then finds its record
  already there: it is a duplicate, and nothing is ever published for it.
\<close>

text \<open>
  When the bus refuses the event of a score that was stored, the retry of the same record
  is answered DUPLICATE and publishes nothing: the score is in the store and its event never
  was, nor will be by this path.
\<close>

theorem unannounced_score_stays_silent:
  assumes "syncOne env corr r a subject (st, w) = (st1, w1, Inl PublishFailed)"
    and "scores_of (world_db w1) a (fsr_applicationId r) \<noteq> scores_of (world_db w) a (fsr_applicationId r)"
    and "length (fsr_signedPayloadHash r) \<le> 64"
    and "env_crypto env2 = env_crypto env"
  shows "\<exists>st3 w3. syncOne env2 corr2 r a subject (st2, w1) = (st3, w3, Inr (sync_result r Rec_DUPLICATE None None)) \<and>
    published w3 = published w1 \<and> world_db w3 = world_db w1"
  using assms(1)
proof (cases rule: syncOne_cases)
  case Refused
  then show ?thesis using assms(2) by (simp add: same_store_def)
next
  case (Merged device v)
  have db: "world_db v = world_db w" by (rule stamp_contact_db [OF Merged(2)])
  from Merged(3) show ?thesis
  proof (cases rule: merge_record_cases)
    case (1 e)
    then show ?thesis using assms(2) db by simp
  next
    case (2 db' out)
    let ?i = "fsr_applicationId r"
    have devices: "field_devices w1 = field_devices v"
      using announcements_frame(3) [of "v\<lparr>world_db := db'\<rparr>" env corr r a out] 2(2) by (simp add: same_store_def)
    obtain device2 where again: "trusted env2 r a subject w1 device2"
      using trusted_stays [OF Merged(1,2) devices] assms(4) by (auto simp: trusted_def)
    from 2(1) have "fsr_signedPayloadHash r \<in> signed_payload_hash ` set (scores_of db' a ?i) \<and>
        (\<exists>app. may_score (world_db v) (store_input r a subject) app)"
    proof (cases rule: sync_cases)
      case (Appended app row decision)
      have "signed_payload_hash row = fsr_signedPayloadHash r"
        using new_score_fields(7) [OF Appended(4)] assms(3) by (simp add: varchar_short)
      then show ?thesis
        using new_score_fields(2) [OF Appended(4)] Appended(1) by (auto simp: Appended(5) store_simps)
    qed (use assms(2) 2(3) db in simp_all)
    then have stored: "fsr_signedPayloadHash r \<in> signed_payload_hash ` set (scores_of db' a ?i)"
      and "\<exists>app. may_score (world_db v) (store_input r a subject) app" by blast+
    then obtain app where guard: "may_score db' (store_input r a subject) app"
      using sync_keeps_guards [OF 2(1)] by blast
    obtain st3 v3 where stamp: "stamp_contact (fsr_deviceId r) (st2, w1) = (st3, v3)" by (metis prod.exhaust)
    have db3: "world_db v3 = db'" using stamp_contact_db [OF stamp] 2(3) by simp
    have "sync (env_timestamptz env2) (env_new_id env2 db') (store_input r a subject) db' = Inr (db', Sync_DUPLICATE)"
      by (rule correction_back_is_dropped [OF guard]) (use stored in simp)
    then have "syncOne env2 corr2 r a subject (st2, w1) = (st3, v3, Inr (sync_result r Rec_DUPLICATE None None))"
      using again stamp db3
      by (simp add: syncOne_def trusted_def merge_record_def materialise_def Let_def)
    moreover have "published v3 = published w1"
      using stamp by (auto simp: stamp_contact_def touch_def split: if_splits)
    ultimately show ?thesis using db3 2(3) by (intro exI [of _ st3] exI [of _ v3]) simp
  qed
qed

subsection \<open>The life of a device\<close>

text \<open>Whatever the service does to its registry, one operation at a time.\<close>

inductive fleet_step :: "field_world \<Rightarrow> field_world \<Rightarrow> bool" where
  Enroll: "fleet_step w (fst (enroll input w))"
| Revoke: "fleet_step w (fst (revoke input w))"
| Assign: "fleet_step w (fst (assign_device input w))"
| Touch: "fleet_step w (touch i s w)"
| Upload: "syncOne env corr r a subject (st, w) = (st', w', res) \<Longrightarrow> fleet_step w w'"
| Resolve: "fleet_step w (fst (resolve_case env corr choice officer w))"
| Elsewhere: "field_devices w' = field_devices w \<Longrightarrow> fleet_step w w'"

inductive_cases fleet_stepE: "fleet_step w w'"

definition keeps_identity :: "field_device \<Rightarrow> field_device \<Rightarrow> bool" where
  "keeps_identity d d' \<longleftrightarrow>
     fd_public_key_pem d' = fd_public_key_pem d \<and> fd_agency d' = fd_agency d \<and>
     (fd_revoked_at d \<noteq> None \<longrightarrow> d' = d)"

lemma keeps_identity_refl: "keeps_identity d d"
  by (simp add: keeps_identity_def)

lemma keeps_identity_trans: "keeps_identity c d \<Longrightarrow> keeps_identity d e \<Longrightarrow> keeps_identity c e"
  by (auto simp: keeps_identity_def)

lemma resolve_case_devices: "field_devices (fst (resolve_case env corr choice officer w)) = field_devices w"
proof -
  have *: "P (fst (resolve_case env corr choice officer w))" if "P = (\<lambda>v. field_devices v = field_devices w)" for P
    unfolding resolve_case_def that
    by (cases "resolveConflict choice (world_db w)")
       (auto split: prod.splits resolve_outcome.splits
         intro!: then_do_frame [of "\<lambda>v. field_devices v = field_devices w"])
  from * [OF refl] show ?thesis .
qed

lemma touch_keeps: "find_device i w = Some d \<Longrightarrow> \<exists>d'. find_device i (touch j s w) = Some d' \<and> keeps_identity d d'"
  by (simp add: find_touch keeps_identity_def)

lemma fleet_step_keeps:
  assumes "fleet_step w w'" and "find_device i w = Some d"
  shows "\<exists>d'. find_device i w' = Some d' \<and> keeps_identity d d'"
  using assms(1)
proof cases
  case (Enroll input)
  then have "find_device i w' = Some d"
    using assms(2) by (auto simp: enroll_def find_device_def split: option.splits)
  then show ?thesis using keeps_identity_refl by blast
next
  case (Revoke input)
  then show ?thesis
    using assms(2) by (auto simp: revoke_def find_device_def map_of_update_row keeps_identity_def split: option.splits if_splits)
next
  case (Assign input)
  then have "find_device i w' = Some d"
    using assms(2) by (simp add: assign_device_def find_device_def Let_def split: option.splits if_splits)
  then show ?thesis using keeps_identity_refl by blast
next
  case (Touch j s)
  then show ?thesis using touch_keeps [OF assms(2)] by simp
next
  case (Upload env corr r a subject st st' res)
  then show ?thesis
  proof (cases rule: syncOne_cases)
    case Refused
    then show ?thesis using assms(2) keeps_identity_refl by (auto simp: same_store_def find_device_def)
  next
    case (Merged device v)
    have "field_devices w' = field_devices v"
      using Merged(3)
    proof (cases rule: merge_record_cases)
      case (2 db' out)
      then show ?thesis
        using announcements_frame(3) [of "v\<lparr>world_db := db'\<rparr>" env corr r a out] by (simp add: same_store_def)
    qed simp
    then have "find_device i w' = find_device i v" by (simp add: find_device_def)
    moreover have "\<exists>d'. find_device i v = Some d' \<and> keeps_identity d d'"
      using Merged(2) touch_keeps [OF assms(2)] assms(2) keeps_identity_refl by (auto simp: stamp_contact_def split: if_splits)
    ultimately show ?thesis by simp
  qed
next
  case (Resolve env corr choice officer)
  then show ?thesis using assms(2) keeps_identity_refl resolve_case_devices by (auto simp: find_device_def)
next
  case Elsewhere
  then show ?thesis using assms(2) keeps_identity_refl by (auto simp: find_device_def)
qed

lemma fleet_steps_keep:
  assumes "fleet_step\<^sup>*\<^sup>* w w'" and "find_device i w = Some d"
  shows "\<exists>d'. find_device i w' = Some d' \<and> keeps_identity d d'"
  using assms
proof (induction rule: rtranclp_induct)
  case base
  then show ?case using keeps_identity_refl by blast
next
  case (step y z)
  then obtain d1 where "find_device i y = Some d1" "keeps_identity d d1" by blast
  then show ?case using fleet_step_keeps [OF step.hyps(2)] keeps_identity_trans by blast
qed

text \<open>
  Whatever the service does after a device was revoked, the device stays revoked with its
  key and agency, its id cannot be enrolled again, and no upload in its name reaches the store.
\<close>

theorem revocation_is_final:
  assumes "fleet_step\<^sup>*\<^sup>* w w'" and "find_device i w = Some d" and "fd_revoked_at d = Some t"
    and "fsr_deviceId r = i" and "syncOne env corr r a subject (st, w') = (st', w2, res)"
  shows "find_device i w' = Some d \<and> enroll \<lparr>en_deviceId = i, en_publicKeyPem = k, en_agency = fd_agency d, en_enrolledBy = e\<rparr> w' = (w', Enroll_REVOKED) \<and>
    world_db w2 = world_db w' \<and> (\<forall>x. res = Inr x \<longrightarrow> rs_status x = Rec_REJECTED)"
proof -
  obtain d' where "find_device i w' = Some d'" "keeps_identity d d'"
    using fleet_steps_keep [OF assms(1,2)] by blast
  with assms(3) have d: "find_device i w' = Some d" by (simp add: keeps_identity_def)
  then have "\<not> (\<exists>device. trusted env r a subject w' device)" using assms(3,4) by (simp add: trusted_def)
  with assms(5) have "world_db w2 = world_db w' \<and> (\<forall>x. res = Inr x \<longrightarrow> rs_status x = Rec_REJECTED)"
    by (cases rule: syncOne_cases) (auto simp: same_store_def)
  then show ?thesis using d assms(3) by (simp add: enroll_def)
qed

subsection \<open>A concrete tablet\<close>

definition tablet_record :: field_score_record where
  "tablet_record =
     \<lparr>fsr_applicationId = ''app'', fsr_qrInvitationCode = ''QR'', fsr_metrics = sample_metrics, fsr_capturedAt = ''t'',
      fsr_deviceId = ''tablet'', fsr_capturingOfficerId = ''o'', fsr_vectorClock = [(''tablet'', 1)],
      fsr_deviceSignature = ''sig'', fsr_signedPayloadHash = ''ab''\<rparr>"

text \<open>Libraries under which the record above verifies, and a bus that is up or down.\<close>

definition tablet_env :: "bool \<Rightarrow> upload_environment" where
  "tablet_env up =
     \<lparr>env_bus = (\<lambda>_ _. up),
      env_crypto = plain_crypto\<lparr>ed25519_verify := (\<lambda>_ _ sig. sig = ''sig''), sha256_hex := (\<lambda>_. ''ab'')\<rparr>,
      env_timestamptz = (\<lambda>_. Some 5), env_new_id = (\<lambda>_. ''s1'')\<rparr>"

definition tablet_device :: field_device where
  "tablet_device =
     \<lparr>fd_public_key_pem = ''pem'', fd_agency = RDF, fd_enrolled_by = ''o'', fd_last_seen_at = None, fd_last_seen_source = None,
      fd_last_sync_at = None, fd_revoked_at = None, fd_revoked_by = None, fd_revoke_reason = None\<rparr>"

definition tablet_world :: field_world where
  "tablet_world =
     \<lparr>field_devices = [(''tablet'', tablet_device)], device_assignments = [], venue_days = [], world_db = tablet_db,
      publish_attempts = 0, published = []\<rparr>"

definition offline_sync :: "bool \<Rightarrow> field_world \<Rightarrow> string set \<times> field_world \<times> (upload_error + record_sync_result)" where
  "offline_sync up w = syncOne (tablet_env up) ''c'' tablet_record RDF ''o'' ({}, w)"

lemma tablet_trusted: "trusted (tablet_env up) tablet_record RDF ''o'' tablet_world tablet_device"
proof -
  have "timingSafeEqualHex ''ab'' ''ab''" by code_simp
  then show ?thesis
    by (simp add: trusted_def tablet_world_def find_device_def tablet_record_def tablet_device_def tablet_env_def
        verifyFieldScoreRecord_def computeFieldPayloadHash_def canonicalHash_def)
qed

lemma tablet_run:
  "length (scores_of (world_db (fst (snd (offline_sync False tablet_world)))) RDF ''app'') = 1"
  "snd (snd (offline_sync False tablet_world)) = Inl PublishFailed"
  "published (fst (snd (offline_sync False tablet_world))) = []"
  by code_simp+

lemma tablet_empty: "scores_of (world_db tablet_world) RDF ''app'' = []"
  by (simp add: tablet_world_def tablet_db_def scores_of_def empty_schema_def)

lemma offline_sync_run:
  "syncOne (tablet_env up) ''c'' tablet_record RDF ''o'' ({}, tablet_world) =
    (fst (offline_sync up tablet_world), fst (snd (offline_sync up tablet_world)), snd (snd (offline_sync up tablet_world)))"
  by (simp add: offline_sync_def)

theorem stored_score_has_authority_witness:
  "\<exists>device. trusted (tablet_env False) tablet_record RDF ''o'' tablet_world device"
  using stored_score_has_authority [OF offline_sync_run [of False], of RDF "''app''"] tablet_run(1) tablet_empty
  by (metis length_0_conv zero_neq_one)

text \<open>The bus is down for the upload and up for the retry: the score is stored, and stays unannounced.\<close>

theorem unannounced_score_stays_silent_witness:
  "\<exists>st w. syncOne (tablet_env True) ''c2'' tablet_record RDF ''o'' ({}, fst (snd (offline_sync False tablet_world))) =
      (st, w, Inr (sync_result tablet_record Rec_DUPLICATE None None)) \<and> published w = [] \<and>
    length (scores_of (world_db w) RDF ''app'') = 1"
proof -
  have "syncOne (tablet_env False) ''c'' tablet_record RDF ''o'' ({}, tablet_world) =
      (fst (offline_sync False tablet_world), fst (snd (offline_sync False tablet_world)), Inl PublishFailed)"
    using offline_sync_run [of False] tablet_run(2) by simp
  moreover have "scores_of (world_db (fst (snd (offline_sync False tablet_world)))) RDF (fsr_applicationId tablet_record) \<noteq>
      scores_of (world_db tablet_world) RDF (fsr_applicationId tablet_record)"
    using tablet_run(1) tablet_empty by (auto simp: tablet_record_def)
  moreover have "length (fsr_signedPayloadHash tablet_record) \<le> 64" "env_crypto (tablet_env True) = env_crypto (tablet_env False)"
    by (simp_all add: tablet_record_def tablet_env_def)
  ultimately obtain st w where "syncOne (tablet_env True) ''c2'' tablet_record RDF ''o''
        ({}, fst (snd (offline_sync False tablet_world))) = (st, w, Inr (sync_result tablet_record Rec_DUPLICATE None None))"
      "published w = published (fst (snd (offline_sync False tablet_world)))"
      "world_db w = world_db (fst (snd (offline_sync False tablet_world)))"
    using unannounced_score_stays_silent [of "tablet_env False" "''c''" tablet_record RDF "''o''" "{}" tablet_world
        "fst (offline_sync False tablet_world)" "fst (snd (offline_sync False tablet_world))" "tablet_env True" "''c2''" "{}"]
    by blast
  then show ?thesis using tablet_run by auto
qed

definition revoked_world :: field_world where
  "revoked_world =
     fst (revoke \<lparr>rv_deviceId = ''tablet'', rv_agency = RDF, rv_revokedBy = ''o'', rv_reason = ''LOST'',
                  rv_audit = device_audit ''c'' ''tablet'' RDF ''FIELD_DEVICE_REVOKED'' []\<rparr> tablet_world)"

theorem revocation_is_final_witness:
  "fd_revoked_at tablet_device = None \<and>
   snd (enroll \<lparr>en_deviceId = ''tablet'', en_publicKeyPem = ''new'', en_agency = RDF, en_enrolledBy = ''o''\<rparr>
     (touch ''tablet'' BIOMETRIC revoked_world)) = Enroll_REVOKED"
proof -
  let ?d = "tablet_device\<lparr>fd_revoked_at := Some 1000, fd_revoked_by := Some ''o'', fd_revoke_reason := Some ''LOST''\<rparr>"
  have d: "find_device ''tablet'' revoked_world = Some ?d"
    by (simp add: revoked_world_def revoke_def find_device_def tablet_world_def map_of_update_row tablet_device_def
        tablet_db_def)
  have steps: "fleet_step\<^sup>*\<^sup>* revoked_world (touch ''tablet'' BIOMETRIC revoked_world)"
    by (intro r_into_rtranclp fleet_step.Touch)
  obtain st w res where "syncOne (tablet_env True) ''c'' tablet_record RDF ''o'' ({}, touch ''tablet'' BIOMETRIC revoked_world) =
      (st, w, res)" by (metis prod.exhaust)
  from revocation_is_final [OF steps d, of 1000 tablet_record, OF _ _ this, of "''new''" "''o''"]
  show ?thesis by (simp add: tablet_record_def tablet_device_def)
qed

end
