(* ===== verification/Outbox.thy ===== *)
theory Outbox
  imports Prelude
begin

text \<open>
  The transactional outbox of \<open>packages/shared-database/src/outbox.ts\<close>: staging inside the caller's
  transaction, the post-commit dispatcher and the relay that guarantees delivery. Payloads are a type
  parameter; what the wire does with the \<open>n\<close>-th publication is a parameter of the runs.
\<close>

subsection \<open>The table\<close>

record 'p outbox_row =
  ob_id :: nat
  ob_event_id :: string
  ob_event_type :: string
  ob_producer :: string
  ob_payload :: 'p
  ob_created_at :: instant
  ob_published_at :: "instant option"
  ob_attempts :: nat
  ob_last_error :: "string option"

text \<open>The rows in \<open>id\<close> order (a \<open>bigserial\<close>), the clock, and what has gone on the wire so far.\<close>

record 'p outbox =
  ob_rows :: "'p outbox_row list"
  ob_next_id :: nat
  ob_now :: instant
  ob_tries :: nat
  ob_wire :: "'p list"

record 'p outbox_kit =
  ok_eventId :: "'p \<Rightarrow> string"
  ok_eventType :: "'p \<Rightarrow> string"
  ok_isValid :: "'p \<Rightarrow> bool"
  ok_publish :: "nat \<Rightarrow> 'p \<Rightarrow> string option"   \<comment> \<open>\<open>None\<close>: delivered; otherwise the error text\<close>

subsection \<open>Staging\<close>

definition assertProducer :: "string \<Rightarrow> bool" where
  "assertProducer producer \<longleftrightarrow> \<not> (js_trim producer = [] \<or> length producer > 64)"

definition new_outbox_row :: "'p outbox_kit \<Rightarrow> string \<Rightarrow> 'p \<Rightarrow> 'p outbox \<Rightarrow> 'p outbox_row" where
  "new_outbox_row kit producer event ob =
     \<lparr>ob_id = ob_next_id ob, ob_event_id = ok_eventId kit event, ob_event_type = ok_eventType kit event,
      ob_producer = producer, ob_payload = event, ob_created_at = ob_now ob, ob_published_at = None,
      ob_attempts = 0, ob_last_error = None\<rparr>"

text \<open>\<open>None\<close> aborts the caller's transaction: a bad producer name, or an event id already staged.\<close>

fun stage_rows :: "'p outbox_kit \<Rightarrow> string \<Rightarrow> 'p list \<Rightarrow> 'p outbox \<Rightarrow> 'p outbox option" where
  "stage_rows kit producer [] ob = Some ob"
| "stage_rows kit producer (e # es) ob =
     (if list_ex (\<lambda>r. ob_event_id r = ok_eventId kit e) (ob_rows ob) then None
      else stage_rows kit producer es
             (ob\<lparr>ob_rows := ob_rows ob @ [new_outbox_row kit producer e ob], ob_next_id := ob_next_id ob + 1\<rparr>))"

definition stageOutboxEvents :: "'p outbox_kit \<Rightarrow> 'p list \<Rightarrow> string \<Rightarrow> 'p outbox \<Rightarrow> 'p outbox option" where
  "stageOutboxEvents kit events producer ob =
     (if assertProducer producer then stage_rows kit producer events ob else None)"

subsection \<open>Dispatching after the commit\<close>

definition update_outbox_rows :: "('p outbox_row \<Rightarrow> bool) \<Rightarrow> ('p outbox_row \<Rightarrow> 'p outbox_row) \<Rightarrow> 'p outbox \<Rightarrow> 'p outbox" where
  "update_outbox_rows P f ob = ob\<lparr>ob_rows := map (\<lambda>r. if P r then f r else r) (ob_rows ob)\<rparr>"

definition stamp_published :: "instant \<Rightarrow> 'p outbox_row \<Rightarrow> 'p outbox_row" where
  "stamp_published now r = r\<lparr>ob_published_at := Some now, ob_attempts := ob_attempts r + 1, ob_last_error := None\<rparr>"

definition note_error :: "string \<Rightarrow> 'p outbox_row \<Rightarrow> 'p outbox_row" where
  "note_error err r = r\<lparr>ob_attempts := ob_attempts r + 1, ob_last_error := Some err\<rparr>"

definition markPublished :: "string \<Rightarrow> 'p outbox \<Rightarrow> 'p outbox" where
  "markPublished eventId ob =
     update_outbox_rows (\<lambda>r. ob_event_id r = eventId \<and> ob_published_at r = None) (stamp_published (ob_now ob)) ob"

definition send :: "'p outbox_kit \<Rightarrow> 'p \<Rightarrow> 'p outbox \<Rightarrow> 'p outbox \<times> string option" where
  "send kit p ob =
     (let ob' = ob\<lparr>ob_tries := Suc (ob_tries ob)\<rparr> in
      case ok_publish kit (ob_tries ob) p of
        None \<Rightarrow> (ob'\<lparr>ob_wire := ob_wire ob' @ [p]\<rparr>, None)
      | Some err \<Rightarrow> (ob', Some err))"

text \<open>\<open>stamped n\<close>: whether the stamp after the \<open>n\<close>-th publication commits; a lost stamp is swallowed.\<close>

fun dispatch :: "'p outbox_kit \<Rightarrow> (nat \<Rightarrow> bool) \<Rightarrow> 'p list \<Rightarrow> 'p outbox \<Rightarrow> 'p outbox" where
  "dispatch kit stamped [] ob = ob"
| "dispatch kit stamped (e # es) ob =
     (case send kit e ob of
        (ob', Some _) \<Rightarrow> ob'
      | (ob', None) \<Rightarrow>
          dispatch kit stamped es
            (if stamped (ob_tries ob) then markPublished (ok_eventId kit e) ob' else ob'))"

subsection \<open>The relay\<close>

record relay_options =
  ro_producer :: string
  ro_batchSize :: nat
  ro_graceMs :: int
  ro_retentionDays :: int

definition describeOutboxError :: "string \<Rightarrow> string" where
  "describeOutboxError raw = (if length raw > 512 then take 509 raw @ ''...'' else raw)"

definition INVALID_ENVELOPE :: string where
  "INVALID_ENVELOPE = ''stored payload is not a valid USRP event envelope''"

definition pending :: "relay_options \<Rightarrow> 'p outbox \<Rightarrow> 'p outbox_row list" where
  "pending opts ob =
     filter (\<lambda>r. ob_producer r = ro_producer opts \<and> ob_published_at r = None \<and>
                 ob_created_at r \<le> ob_now ob - ro_graceMs opts) (ob_rows ob)"

fun relay_rows :: "'p outbox_kit \<Rightarrow> 'p outbox_row list \<Rightarrow> nat \<Rightarrow> 'p outbox \<Rightarrow> 'p outbox \<times> nat \<times> bool" where
  "relay_rows kit [] published ob = (ob, published, False)"
| "relay_rows kit (row # rows) published ob =
     (if \<not> ok_isValid kit (ob_payload row) then
        relay_rows kit rows published
          (update_outbox_rows (\<lambda>r. ob_id r = ob_id row) (note_error INVALID_ENVELOPE) ob)
      else
        (case send kit (ob_payload row) ob of
           (ob', Some err) \<Rightarrow>
             (update_outbox_rows (\<lambda>r. ob_id r = ob_id row) (note_error (describeOutboxError err)) ob', published, True)
         | (ob', None) \<Rightarrow>
             relay_rows kit rows (published + 1)
               (update_outbox_rows (\<lambda>r. ob_id r = ob_id row) (stamp_published (ob_now ob')) ob')))"

text \<open>One drain pass; \<open>locked\<close> is the answer of the advisory lock.\<close>

definition drainOnce :: "'p outbox_kit \<Rightarrow> relay_options \<Rightarrow> bool \<Rightarrow> 'p outbox \<Rightarrow> 'p outbox \<times> nat \<times> bool" where
  "drainOnce kit opts locked ob =
     (if \<not> locked then (ob, 0, False)
      else relay_rows kit (take (ro_batchSize opts) (pending opts ob)) 0 ob)"

definition PURGE_BATCH :: nat where "PURGE_BATCH = 5000"

definition purge :: "relay_options \<Rightarrow> 'p outbox \<Rightarrow> 'p outbox" where
  "purge opts ob =
     (let old = take PURGE_BATCH
            (filter (\<lambda>r. ob_producer r = ro_producer opts \<and>
                (case ob_published_at r of None \<Rightarrow> False
                 | Some t \<Rightarrow> t < ob_now ob - ro_retentionDays opts * 86400000)) (ob_rows ob)) in
      ob\<lparr>ob_rows := filter (\<lambda>r. ob_id r \<notin> ob_id ` set old) (ob_rows ob)\<rparr>)"

subsection \<open>The ledger of deliveries\<close>

definition outbox_ok :: "'p outbox \<Rightarrow> bool" where
  "outbox_ok ob \<longleftrightarrow> distinct (map ob_id (ob_rows ob)) \<and> list_all (\<lambda>r. ob_id r < ob_next_id ob) (ob_rows ob)"

definition accounted :: "'p \<Rightarrow> 'p outbox \<Rightarrow> bool" where
  "accounted p ob \<longleftrightarrow> p \<in> set (ob_wire ob) \<or> (\<exists>r \<in> set (ob_rows ob). ob_payload r = p \<and> ob_published_at r = None)"

lemma update_outbox_rows_simps [simp]:
  "ob_rows (update_outbox_rows P f ob) = map (\<lambda>r. if P r then f r else r) (ob_rows ob)"
  "ob_wire (update_outbox_rows P f ob) = ob_wire ob" "ob_next_id (update_outbox_rows P f ob) = ob_next_id ob"
  "ob_now (update_outbox_rows P f ob) = ob_now ob" "ob_tries (update_outbox_rows P f ob) = ob_tries ob"
  by (simp_all add: update_outbox_rows_def)

lemma row_updates_simps [simp]:
  "ob_id (stamp_published now r) = ob_id r" "ob_id (note_error e r) = ob_id r"
  "ob_payload (stamp_published now r) = ob_payload r" "ob_payload (note_error e r) = ob_payload r"
  "ob_producer (stamp_published now r) = ob_producer r" "ob_producer (note_error e r) = ob_producer r"
  "ob_created_at (stamp_published now r) = ob_created_at r" "ob_created_at (note_error e r) = ob_created_at r"
  "ob_published_at (stamp_published now r) = Some now" "ob_published_at (note_error e r) = ob_published_at r"
  "ob_event_id (stamp_published now r) = ob_event_id r" "ob_event_id (note_error e r) = ob_event_id r"
  by (simp_all add: stamp_published_def note_error_def)

lemma send_simps:
  assumes "send kit p ob = (ob', res)"
  shows "ob_rows ob' = ob_rows ob" "ob_next_id ob' = ob_next_id ob" "ob_now ob' = ob_now ob"
    and "ob_wire ob' = ob_wire ob @ (if res = None then [p] else [])"
  using assms by (auto simp: send_def Let_def split: option.splits)

text \<open>Identity and liveness of every row survive an update that keeps ids.\<close>

lemma outbox_ok_update:
  assumes "outbox_ok ob" and "\<And>r. ob_id (f r) = ob_id r" shows "outbox_ok (update_outbox_rows P f ob)"
proof -
  have "map ob_id (map (\<lambda>r. if P r then f r else r) rs) = map ob_id rs" for rs using assms(2) by (induction rs) auto
  then have "map ob_id (ob_rows (update_outbox_rows P f ob)) = map ob_id (ob_rows ob)"
    unfolding update_outbox_rows_simps .
  then have "distinct (map ob_id (ob_rows (update_outbox_rows P f ob)))"
    using assms(1) unfolding outbox_ok_def by metis
  moreover have "list_all (\<lambda>r. ob_id r < ob_next_id ob) (ob_rows (update_outbox_rows P f ob))"
    using assms by (auto simp: outbox_ok_def list_all_iff)
  ultimately show ?thesis by (simp add: outbox_ok_def)
qed

lemma same_row:
  assumes "outbox_ok ob" and "q \<in> set (ob_rows ob)" and "r \<in> set (ob_rows ob)" and "ob_id q = ob_id r"
  shows "q = r"
  using assms by (auto simp: outbox_ok_def distinct_map inj_on_def)

lemma accounted_note: "accounted p (update_outbox_rows P (note_error e) ob) \<longleftrightarrow> accounted p ob"
proof -
  have "(\<exists>r \<in> set (map (\<lambda>r. if P r then note_error e r else r) rs). ob_payload r = p \<and> ob_published_at r = None) \<longleftrightarrow>
      (\<exists>r \<in> set rs. ob_payload r = p \<and> ob_published_at r = None)" for rs
    by (induction rs) auto
  from this [of "ob_rows ob"] show ?thesis unfolding accounted_def update_outbox_rows_simps by (simp only:)
qed

lemma accounted_stamp:
  assumes "accounted p ob" and "\<And>r. r \<in> set (ob_rows ob) \<Longrightarrow> P r \<Longrightarrow> ob_payload r \<in> set (ob_wire ob)"
  shows "accounted p (update_outbox_rows P (stamp_published now) ob)"
proof (cases "p \<in> set (ob_wire ob)")
  case False
  then obtain r where r: "r \<in> set (ob_rows ob)" "ob_payload r = p" "ob_published_at r = None"
    using assms(1) by (auto simp: accounted_def)
  then have "\<not> P r" using assms(2) False by blast
  then have "r \<in> set (ob_rows (update_outbox_rows P (stamp_published now) ob))" using r(1) by auto
  with r show ?thesis unfolding accounted_def by blast
qed (simp add: accounted_def)

lemma accounted_send:
  assumes "accounted p ob" and "send kit q ob = (ob', res)" shows "accounted p ob'"
  using assms send_simps [OF assms(2)] by (auto simp: accounted_def)

lemma outbox_ok_send: "send kit q ob = (ob', res) \<Longrightarrow> outbox_ok ob' \<longleftrightarrow> outbox_ok ob"
  using send_simps [of kit q ob ob' res] by (simp add: outbox_ok_def)

lemma stage_rows_keeps:
  assumes "stage_rows kit producer es ob = Some ob'" and "outbox_ok ob"
  shows "outbox_ok ob' \<and> (accounted p ob \<longrightarrow> accounted p ob') \<and> (p \<in> set es \<longrightarrow> accounted p ob')"
  using assms
proof (induction es arbitrary: ob)
  case (Cons e es)
  let ?ob1 = "ob\<lparr>ob_rows := ob_rows ob @ [new_outbox_row kit producer e ob], ob_next_id := ob_next_id ob + 1\<rparr>"
  have "outbox_ok ?ob1" using Cons.prems(2) by (fastforce simp: outbox_ok_def new_outbox_row_def list_all_iff)
  moreover have "stage_rows kit producer es ?ob1 = Some ob'" using Cons.prems(1) by (simp split: if_splits)
  moreover have "accounted q ?ob1" if "accounted q ob \<or> q = e" for q
    using that by (auto simp: accounted_def new_outbox_row_def)
  ultimately show ?case using Cons.IH [of ?ob1] by auto
qed simp

text \<open>An event is dispatched as it was staged: the row of its id holds that very event.\<close>

definition as_staged :: "'p outbox_kit \<Rightarrow> 'p outbox \<Rightarrow> 'p \<Rightarrow> bool" where
  "as_staged kit ob e \<longleftrightarrow> (\<forall>r \<in> set (ob_rows ob). ob_event_id r = ok_eventId kit e \<longrightarrow> ob_payload r = e)"

lemma stage_rows_as_staged:
  assumes "stage_rows kit producer es ob = Some ob'"
  shows "list_all (as_staged kit ob') es"
proof -
  have "list_all (as_staged kit ob') es \<and>
      (as_staged kit ob e \<longrightarrow> (\<exists>r \<in> set (ob_rows ob). ob_event_id r = ok_eventId kit e) \<longrightarrow> as_staged kit ob' e)" for e
    using assms
  proof (induction es arbitrary: ob e)
    case (Cons x xs)
    let ?ob1 = "ob\<lparr>ob_rows := ob_rows ob @ [new_outbox_row kit producer x ob], ob_next_id := ob_next_id ob + 1\<rparr>"
    have fresh: "ok_eventId kit x \<notin> ob_event_id ` set (ob_rows ob)" and rest: "stage_rows kit producer xs ?ob1 = Some ob'"
      using Cons.prems by (auto simp: list_ex_iff split: if_splits)
    have row: "ob_event_id (new_outbox_row kit producer x ob) = ok_eventId kit x"
        "ob_payload (new_outbox_row kit producer x ob) = x" by (simp_all add: new_outbox_row_def)
    have "as_staged kit ?ob1 x" using fresh row by (force simp: as_staged_def)
    then have "as_staged kit ob' x" using Cons.IH [OF rest, of x] row by auto
    moreover have "as_staged kit ?ob1 e" if "as_staged kit ob e" "\<exists>r \<in> set (ob_rows ob). ob_event_id r = ok_eventId kit e"
      using that fresh row by (force simp: as_staged_def)
    ultimately show ?case using Cons.IH [OF rest, of e] by auto
  qed simp
  then show ?thesis by blast
qed

lemma dispatch_keeps:
  assumes "outbox_ok ob" and "list_all (as_staged kit ob) es"
  shows "outbox_ok (dispatch kit stamped es ob) \<and> (accounted p ob \<longrightarrow> accounted p (dispatch kit stamped es ob))"
  using assms
proof (induction es arbitrary: ob)
  case (Cons e es)
  obtain ob1 res where s: "send kit e ob = (ob1, res)" by (cases "send kit e ob")
  note sent = send_simps [OF s]
  show ?case
  proof (cases res)
    case (Some err)
    then show ?thesis using s Cons.prems(1) outbox_ok_send [OF s] accounted_send [OF _ s] by simp
  next
    case None
    let ?ob2 = "if stamped (ob_tries ob) then markPublished (ok_eventId kit e) ob1 else ob1"
    have "outbox_ok ?ob2"
      using Cons.prems(1) outbox_ok_send [OF s] by (auto simp: markPublished_def intro!: outbox_ok_update)
    moreover have "list_all (as_staged kit ?ob2) es"
      using Cons.prems(2) sent(1) by (auto simp: list_all_iff as_staged_def markPublished_def)
    moreover have "accounted p ?ob2" if "accounted p ob"
    proof -
      have "ob_payload r \<in> set (ob_wire ob1)" if "r \<in> set (ob_rows ob1)" "ob_event_id r = ok_eventId kit e" for r
        using that Cons.prems(2) sent None by (auto simp: as_staged_def)
      then show ?thesis
        using accounted_send [OF that s] by (auto simp: markPublished_def intro!: accounted_stamp)
    qed
    ultimately show ?thesis using Cons.IH [of ?ob2] s None by simp
  qed
qed simp

lemma relay_rows_keeps:
  assumes "outbox_ok ob" and "\<And>r. r \<in> set rs \<Longrightarrow> \<exists>q \<in> set (ob_rows ob). ob_id q = ob_id r \<and> ob_payload q = ob_payload r"
  shows "outbox_ok (fst (relay_rows kit rs n ob)) \<and> (accounted p ob \<longrightarrow> accounted p (fst (relay_rows kit rs n ob)))"
  using assms
proof (induction rs arbitrary: n ob)
  case (Cons r rs)
  have there: "\<exists>q \<in> set (ob_rows (update_outbox_rows P f ob')). ob_id q = ob_id x \<and> ob_payload q = ob_payload x"
    if x: "x \<in> set rs" "ob_rows ob' = ob_rows ob" "\<And>q. ob_id (f q) = ob_id q" "\<And>q. ob_payload (f q) = ob_payload q" for x P f ob'
  proof -
    obtain q where q: "q \<in> set (ob_rows ob')" "ob_id q = ob_id x" "ob_payload q = ob_payload x"
      using Cons.prems(2) [of x] x(1,2) by auto
    then have "(if P q then f q else q) \<in> set (ob_rows (update_outbox_rows P f ob'))" by auto
    moreover have "ob_id (if P q then f q else q) = ob_id x" "ob_payload (if P q then f q else q) = ob_payload x"
      using q x(3,4) by simp_all
    ultimately show ?thesis by blast
  qed
  show ?case
  proof (cases "ok_isValid kit (ob_payload r)")
    case False
    let ?ob1 = "update_outbox_rows (\<lambda>q. ob_id q = ob_id r) (note_error INVALID_ENVELOPE) ob"
    have "outbox_ok ?ob1" using Cons.prems(1) by (intro outbox_ok_update) simp_all
    then show ?thesis using False Cons.IH [of ?ob1 n] there [of _ ob] by (simp add: accounted_note)
  next
    case True
    obtain ob1 res where s: "send kit (ob_payload r) ob = (ob1, res)" by (cases "send kit (ob_payload r) ob")
    note sent = send_simps [OF s]
    show ?thesis
    proof (cases res)
      case (Some err)
      then show ?thesis
        using True s Cons.prems(1) outbox_ok_send [OF s] accounted_send [OF _ s]
        by (simp add: accounted_note outbox_ok_update)
    next
      case None
      let ?ob2 = "update_outbox_rows (\<lambda>q. ob_id q = ob_id r) (stamp_published (ob_now ob1)) ob1"
      have ok1: "outbox_ok ob1" using Cons.prems(1) outbox_ok_send [OF s] by simp
      then have "outbox_ok ?ob2" by (intro outbox_ok_update) simp_all
      moreover have "accounted p ?ob2" if "accounted p ob"
      proof (rule accounted_stamp [OF accounted_send [OF that s]])
        fix q assume q: "q \<in> set (ob_rows ob1)" "ob_id q = ob_id r"
        obtain q' where "q' \<in> set (ob_rows ob1)" "ob_id q' = ob_id r" "ob_payload q' = ob_payload r"
          using Cons.prems(2) [of r] sent(1) by auto
        with q have "q = q'" by (intro same_row [OF ok1]) simp_all
        then show "ob_payload q \<in> set (ob_wire ob1)" using sent(4) None \<open>ob_payload q' = ob_payload r\<close> by simp
      qed
      ultimately show ?thesis
        using True s None Cons.IH [of ?ob2 "n + 1"] there [of _ ob1] sent(1) by simp
    qed
  qed
qed simp

subsection \<open>Nothing staged is ever lost\<close>

inductive outbox_step :: "'p outbox \<Rightarrow> 'p outbox \<Rightarrow> bool" where
  Stage: "stageOutboxEvents kit es producer ob = Some ob' \<Longrightarrow> outbox_step ob ob'"
| Dispatch: "list_all (as_staged kit ob) es \<Longrightarrow> outbox_step ob (dispatch kit stamped es ob)"
| Drain: "outbox_step ob (fst (drainOnce kit opts locked ob))"
| Purge: "outbox_step ob (purge opts ob)"
| Tick: "t \<ge> ob_now ob \<Longrightarrow> outbox_step ob (ob\<lparr>ob_now := t\<rparr>)"

inductive_cases outbox_stepE: "outbox_step ob ob'"

lemma in_pending: "r \<in> set (pending opts ob) \<Longrightarrow> r \<in> set (ob_rows ob)"
  by (simp add: pending_def)

lemma purge_keeps:
  assumes "outbox_ok ob"
  shows "outbox_ok (purge opts ob) \<and> (accounted p ob \<longrightarrow> accounted p (purge opts ob))"
proof -
  let ?due = "filter (\<lambda>r. ob_producer r = ro_producer opts \<and>
                (case ob_published_at r of None \<Rightarrow> False
                 | Some t \<Rightarrow> t < ob_now ob - ro_retentionDays opts * 86400000)) (ob_rows ob)"
  let ?old = "take PURGE_BATCH ?due"
  have purged: "purge opts ob = ob\<lparr>ob_rows := filter (\<lambda>r. ob_id r \<notin> ob_id ` set ?old) (ob_rows ob)\<rparr>"
    by (simp add: purge_def Let_def)
  have ok: "outbox_ok (purge opts ob)"
    using assms unfolding purged by (auto simp: outbox_ok_def list_all_iff distinct_map_filter)
  have "r \<in> set (ob_rows (purge opts ob))" if "r \<in> set (ob_rows ob)" "ob_published_at r = None" for r
  proof -
    have "ob_id r \<notin> ob_id ` set ?old"
    proof
      assume "ob_id r \<in> ob_id ` set ?old"
      then obtain q where q: "q \<in> set ?due" "ob_id q = ob_id r" by (auto dest: in_set_takeD)
      then have "q = r" using that(1) by (intro same_row [OF assms]) auto
      with q(1) that(2) show False by simp
    qed
    with that(1) show ?thesis unfolding purged by simp
  qed
  moreover have "ob_wire (purge opts ob) = ob_wire ob" by (simp add: purged)
  ultimately have "accounted p ob \<longrightarrow> accounted p (purge opts ob)"
    unfolding accounted_def by metis
  then show ?thesis using ok by blast
qed

lemma outbox_step_keeps:
  assumes "outbox_step ob ob'" and "outbox_ok ob"
  shows "outbox_ok ob' \<and> (accounted p ob \<longrightarrow> accounted p ob')"
  using assms(1)
proof cases
  case (Stage kit es producer)
  then show ?thesis using stage_rows_keeps [of kit producer es ob ob' p] assms(2)
    by (auto simp: stageOutboxEvents_def split: if_splits)
next
  case (Drain kit opts locked)
  then show ?thesis
    using relay_rows_keeps [OF assms(2), of "take (ro_batchSize opts) (pending opts ob)" kit 0 p] assms(2)
    by (auto simp: drainOnce_def dest!: in_set_takeD in_pending)
next
  case (Tick t)
  then show ?thesis using assms(2) by (simp add: outbox_ok_def accounted_def)
next
  case (Dispatch kit es stamped)
  show ?thesis unfolding Dispatch(1) by (rule dispatch_keeps [OF assms(2) Dispatch(2)])
next
  case (Purge opts)
  show ?thesis unfolding Purge by (rule purge_keeps [OF assms(2)])
qed

lemma outbox_steps_keep:
  assumes "outbox_step\<^sup>*\<^sup>* ob ob'" and "outbox_ok ob"
  shows "outbox_ok ob' \<and> (accounted p ob \<longrightarrow> accounted p ob')"
  using assms
proof (induction rule: rtranclp_induct)
  case (step y z)
  then show ?case using outbox_step_keeps [OF step.hyps(2)] by blast
qed simp

text \<open>
  C17: Whatever dispatches, drains, purges and stagings follow, every staged event has been put
  on the wire or still waits unpublished in the outbox.
\<close>

theorem staged_events_are_never_lost:
  assumes "outbox_ok ob" and "stageOutboxEvents kit es producer ob = Some ob1" and "outbox_step\<^sup>*\<^sup>* ob1 ob2"
    and "e \<in> set es"
  shows "e \<in> set (ob_wire ob2) \<or> (\<exists>r \<in> set (ob_rows ob2). ob_payload r = e \<and> ob_published_at r = None)"
proof -
  have start: "outbox_ok ob1 \<and> accounted e ob1"
    using stage_rows_keeps [of kit producer es ob ob1 e] assms by (auto simp: stageOutboxEvents_def split: if_splits)
  then have "accounted e ob2" using outbox_steps_keep [OF assms(3)] by blast
  then show ?thesis by (simp add: accounted_def)
qed

subsection \<open>A drain as a function of the queue\<close>

text \<open>With the wire up, a pass emits the valid payloads of its batch and leaves the invalid ones queued.\<close>

definition handled :: "'p outbox_kit \<Rightarrow> nat set \<Rightarrow> instant \<Rightarrow> 'p outbox_row \<Rightarrow> 'p outbox_row" where
  "handled kit ids now q =
     (if ob_id q \<in> ids then (if ok_isValid kit (ob_payload q) then stamp_published now q else note_error INVALID_ENVELOPE q)
      else q)"

lemma send_up: "ok_publish kit = (\<lambda>_ _. None) \<Longrightarrow>
    send kit p ob = (ob\<lparr>ob_tries := Suc (ob_tries ob), ob_wire := ob_wire ob @ [p]\<rparr>, None)"
  by (simp add: send_def)

lemma relay_rows_up:
  assumes "ok_publish kit = (\<lambda>_ _. None)" and "distinct (map ob_id rs)"
    and "\<And>r q. r \<in> set rs \<Longrightarrow> q \<in> set (ob_rows ob) \<Longrightarrow> ob_id q = ob_id r \<Longrightarrow> ob_payload q = ob_payload r"
  shows "ob_wire (fst (relay_rows kit rs n ob)) = ob_wire ob @ map ob_payload (filter (ok_isValid kit \<circ> ob_payload) rs) \<and>
    ob_rows (fst (relay_rows kit rs n ob)) = map (handled kit (ob_id ` set rs) (ob_now ob)) (ob_rows ob) \<and>
    ob_now (fst (relay_rows kit rs n ob)) = ob_now ob \<and>
    ob_next_id (fst (relay_rows kit rs n ob)) = ob_next_id ob"
  using assms(2,3)
proof (induction rs arbitrary: n ob)
  case Nil
  then show ?case by (simp add: handled_def map_idI)
next
  case (Cons r rs)
  let ?v = "ok_isValid kit (ob_payload r)"
  let ?ob1 = "if ?v then update_outbox_rows (\<lambda>q. ob_id q = ob_id r) (stamp_published (ob_now ob))
                 (ob\<lparr>ob_tries := Suc (ob_tries ob), ob_wire := ob_wire ob @ [ob_payload r]\<rparr>)
              else update_outbox_rows (\<lambda>q. ob_id q = ob_id r) (note_error INVALID_ENVELOPE) ob"
  have first: "fst (relay_rows kit (r # rs) n ob) = fst (relay_rows kit rs (if ?v then n + 1 else n) ?ob1)"
    by (simp add: send_up [OF assms(1)])
  have dist: "distinct (map ob_id rs)" using Cons.prems(1) by simp
  have keep: "ob_payload q = ob_payload x" if x: "x \<in> set rs" "q \<in> set (ob_rows ?ob1)" "ob_id q = ob_id x" for x q
  proof -
    obtain q' where "q' \<in> set (ob_rows ob)" "ob_id q' = ob_id q" "ob_payload q' = ob_payload q"
      using x(2) by (cases ?v) auto
    with Cons.prems(2) [of x q'] x(1,3) show ?thesis by simp
  qed
  note step = Cons.IH [where ob = ?ob1 and n = "if ?v then n + 1 else n", OF dist keep]
  have now: "ob_now ?ob1 = ob_now ob" "ob_next_id ?ob1 = ob_next_id ob" by simp_all
  have "map (handled kit (ob_id ` set rs) (ob_now ob)) (ob_rows ?ob1) =
      map (handled kit (ob_id ` set (r # rs)) (ob_now ob)) (ob_rows ob)"
  proof -
    have "handled kit (ob_id ` set rs) (ob_now ob)
          (if ob_id q = ob_id r then (if ?v then stamp_published (ob_now ob) q else note_error INVALID_ENVELOPE q) else q) =
        handled kit (ob_id ` set (r # rs)) (ob_now ob) q" if q: "q \<in> set (ob_rows ob)" for q
    proof (cases "ob_id q = ob_id r")
      case True
      then have "ob_id q \<notin> ob_id ` set rs" "ob_payload q = ob_payload r"
        using Cons.prems(1) Cons.prems(2) [OF _ q] by auto
      with True show ?thesis by (simp add: handled_def)
    qed (simp add: handled_def)
    moreover have "ob_rows ?ob1 = map (\<lambda>q. if ob_id q = ob_id r
        then (if ?v then stamp_published (ob_now ob) q else note_error INVALID_ENVELOPE q) else q) (ob_rows ob)"
      by simp
    ultimately show ?thesis by (simp only: map_map comp_def cong: map_cong)
  qed
  moreover have "ob_wire ?ob1 = ob_wire ob @ (if ?v then [ob_payload r] else [])" by simp
  ultimately have "ob_wire ?ob1 @ map ob_payload (filter (ok_isValid kit \<circ> ob_payload) rs) =
        ob_wire ob @ map ob_payload (filter (ok_isValid kit \<circ> ob_payload) (r # rs)) \<and>
      map (handled kit (ob_id ` set rs) (ob_now ?ob1)) (ob_rows ?ob1) =
        map (handled kit (ob_id ` set (r # rs)) (ob_now ob)) (ob_rows ob)"
    unfolding now(1) by (cases ?v) simp_all
  with step now show ?case
    unfolding first by (elim conjE) (intro conjI, simp_all only:)
qed

lemma filter_taken:
  assumes "distinct xs"
  shows "filter (\<lambda>x. \<not> (x \<in> set (take k xs) \<and> P x)) xs = filter (Not \<circ> P) (take k xs) @ drop k xs"
proof -
  have "filter (\<lambda>x. \<not> (x \<in> set (take k xs) \<and> P x)) (take k xs) = filter (Not \<circ> P) (take k xs)"
    by (rule filter_cong) auto
  moreover have "filter (\<lambda>x. \<not> (x \<in> set (take k xs) \<and> P x)) (drop k xs) = drop k xs"
    using set_take_disj_set_drop_if_distinct [OF assms, of k k] by (auto simp: filter_id_conv)
  ultimately show ?thesis by (metis append_take_drop_id filter_append)
qed

definition queue :: "relay_options \<Rightarrow> 'p outbox \<Rightarrow> 'p list" where
  "queue opts ob = map ob_payload (pending opts ob)"

definition pass :: "nat \<Rightarrow> ('p \<Rightarrow> bool) \<Rightarrow> 'p list \<times> 'p list \<Rightarrow> 'p list \<times> 'p list" where
  "pass k valid = (\<lambda>(q, wire). (filter (Not \<circ> valid) (take k q) @ drop k q, wire @ filter valid (take k q)))"

lemma drain_refines_pass:
  fixes opts :: relay_options and ob :: "'p outbox"
  assumes "ok_publish kit = (\<lambda>_ _. None)" and "outbox_ok ob"
  defines "ob' \<equiv> fst (drainOnce kit opts True ob)"
  shows "(queue opts ob', ob_wire ob') = pass (ro_batchSize opts) (ok_isValid kit) (queue opts ob, ob_wire ob)"
    and "outbox_ok ob'"
proof -
  let ?P = "pending opts ob" and ?k = "ro_batchSize opts"
  let ?B = "take ?k ?P" and ?v = "ok_isValid kit \<circ> ob_payload"
  have ids: "distinct (map ob_id ?P)"
    using assms(2) by (simp add: pending_def outbox_ok_def distinct_map_filter)
  then have dist: "distinct ?P" by (simp add: distinct_map)
  have run: "ob' = fst (relay_rows kit ?B 0 ob)" by (simp add: ob'_def drainOnce_def)
  have "distinct (map ob_id ?B)" using ids by (metis distinct_take take_map)
  moreover have same: "q = r" if "r \<in> set ?B" "q \<in> set (ob_rows ob)" "ob_id q = ob_id r" for r q
    using that by (auto dest!: in_set_takeD in_pending intro: same_row [OF assms(2)])
  ultimately have effect: "ob_wire ob' = ob_wire ob @ map ob_payload (filter ?v ?B)"
      "ob_rows ob' = map (handled kit (ob_id ` set ?B) (ob_now ob)) (ob_rows ob)" "ob_now ob' = ob_now ob"
      "ob_next_id ob' = ob_next_id ob"
    using relay_rows_up [OF assms(1), of ?B ob 0] unfolding run by auto
  show "outbox_ok ob'"
    using relay_rows_keeps [OF assms(2), of ?B kit 0] unfolding run by (auto dest!: in_set_takeD in_pending)
  define h where "h = handled kit (ob_id ` set ?B) (ob_now ob)"
  have h: "ob_producer (h q) = ob_producer q" "ob_created_at (h q) = ob_created_at q" "ob_payload (h q) = ob_payload q" for q
    by (simp_all add: h_def handled_def)
  have sub: "filter Q ?P = filter (\<lambda>q. (ob_producer q = ro_producer opts \<and> ob_published_at q = None \<and>
      ob_created_at q \<le> ob_now ob - ro_graceMs opts) \<and> Q q) (ob_rows ob)" for Q
    by (simp add: pending_def conj_commute)
  have "pending opts ob' = map h (filter (\<lambda>q. ob_producer q = ro_producer opts \<and> ob_published_at (h q) = None \<and>
      ob_created_at q \<le> ob_now ob - ro_graceMs opts) (ob_rows ob))"
    by (simp add: pending_def [of opts ob'] effect(2,3) h_def [symmetric] filter_map comp_def h)
  also have "\<dots> = map h (filter (\<lambda>q. \<not> (q \<in> set ?B \<and> ?v q)) ?P)"
    unfolding sub
  proof (intro arg_cong [where f = "map h"] filter_cong refl)
    fix q assume "q \<in> set (ob_rows ob)"
    then have "ob_id q \<in> ob_id ` set ?B \<longleftrightarrow> q \<in> set ?B" using same by auto
    then show "(ob_producer q = ro_producer opts \<and> ob_published_at (h q) = None \<and> ob_created_at q \<le> ob_now ob - ro_graceMs opts) =
        ((ob_producer q = ro_producer opts \<and> ob_published_at q = None \<and> ob_created_at q \<le> ob_now ob - ro_graceMs opts) \<and>
         \<not> (q \<in> set ?B \<and> ?v q))"
      by (auto simp: h_def handled_def)
  qed
  also have "\<dots> = map h (filter (Not \<circ> ?v) ?B @ drop ?k ?P)" unfolding filter_taken [OF dist] ..
  finally have "queue opts ob' = map ob_payload (filter (Not \<circ> ?v) ?B @ drop ?k ?P)"
    by (simp add: queue_def h comp_def)
  also have "\<dots> = filter (Not \<circ> ok_isValid kit) (take ?k (queue opts ob)) @ drop ?k (queue opts ob)"
    by (simp add: queue_def take_map drop_map filter_map comp_def)
  finally show "(queue opts ob', ob_wire ob') = pass ?k (ok_isValid kit) (queue opts ob, ob_wire ob)"
    using effect(1) by (simp add: pass_def queue_def take_map filter_map comp_def)
qed


lemma pass_drains:
  assumes "length (filter (Not \<circ> valid) q) < k" and "length (filter valid q) \<le> n"
  shows "(pass k valid ^^ n) (q, wire) = (filter (Not \<circ> valid) q, wire @ filter valid q)"
  using assms
proof (induction n arbitrary: q wire)
  case 0
  then have "filter valid q = []" by simp
  then show ?case by (simp add: filter_empty_conv filter_id_conv)
next
  case (Suc n)
  let ?q = "filter (Not \<circ> valid) (take k q) @ drop k q"
  have inv: "filter (Not \<circ> valid) ?q = filter (Not \<circ> valid) q"
  proof -
    have "filter (Not \<circ> valid) q = filter (Not \<circ> valid) (take k q) @ filter (Not \<circ> valid) (drop k q)"
      by (metis append_take_drop_id filter_append)
    then show ?thesis by (simp add: comp_def)
  qed
  have whole: "filter valid (take k q) @ filter valid (drop k q) = filter valid q"
    by (metis append_take_drop_id filter_append)
  have rest: "filter valid ?q = filter valid (drop k q)" by simp
  have "length (filter valid ?q) \<le> n"
  proof (cases "filter valid (take k q) = []")
    case True
    then have batch: "filter (Not \<circ> valid) (take k q) = take k q" by (simp add: filter_empty_conv filter_id_conv)
    have "length (take k q) \<le> length (filter (Not \<circ> valid) q)"
      by (metis append_take_drop_id batch filter_append le_add1 length_append)
    then have "drop k q = []" using Suc.prems(1) by (simp add: comp_def)
    then show ?thesis by simp
  next
    case False
    then have "length (filter valid (drop k q)) < length (filter valid q)"
      unfolding whole [symmetric] length_append by simp
    then show ?thesis using Suc.prems(2) unfolding rest by simp
  qed
  from Suc.IH [of ?q, unfolded inv, OF Suc.prems(1) this, of "wire @ filter valid (take k q)"] show ?case
    by (simp add: funpow_Suc_right pass_def whole comp_def del: funpow.simps)
qed

definition drains :: "'p outbox_kit \<Rightarrow> relay_options \<Rightarrow> nat \<Rightarrow> 'p outbox \<Rightarrow> 'p outbox" where
  "drains kit opts n ob = ((\<lambda>ob. fst (drainOnce kit opts True ob)) ^^ n) ob"

lemma drains_refine_pass:
  assumes "ok_publish kit = (\<lambda>_ _. None)" and "outbox_ok ob"
  shows "(queue opts (drains kit opts n ob), ob_wire (drains kit opts n ob)) =
      (pass (ro_batchSize opts) (ok_isValid kit) ^^ n) (queue opts ob, ob_wire ob) \<and> outbox_ok (drains kit opts n ob)"
proof (induction n)
  case (Suc n)
  have "drains kit opts (Suc n) ob = fst (drainOnce kit opts True (drains kit opts n ob))" by (simp add: drains_def)
  then show ?case using drain_refines_pass [OF assms(1), of "drains kit opts n ob" opts] Suc by simp
qed (simp add: drains_def assms(2))

text \<open>
  With the transport up, drains put every pending valid event on the wire, in the order
  they were staged, after at most one pass per event, provided the quarantined rows do not fill
  a batch.
\<close>

theorem relay_delivers:
  assumes "ok_publish kit = (\<lambda>_ _. None)" and "outbox_ok ob"
    and "length (filter (\<lambda>p. \<not> ok_isValid kit p) (queue opts ob)) < ro_batchSize opts"
    and "length (filter (ok_isValid kit) (queue opts ob)) \<le> n"
  shows "ob_wire (drains kit opts n ob) = ob_wire ob @ filter (ok_isValid kit) (queue opts ob)"
  using drains_refine_pass [OF assms(1,2), of opts n]
    pass_drains [of "ok_isValid kit" "queue opts ob" "ro_batchSize opts" n "ob_wire ob"] assms(3,4)
  by (simp add: comp_def)

text \<open>
  When the oldest pending rows that fill a batch are all invalid, no number of drains
  publishes anything behind them.
\<close>

theorem quarantine_starves_the_relay:
  assumes "ok_publish kit = (\<lambda>_ _. None)" and "outbox_ok ob"
    and "\<forall>p \<in> set (take (ro_batchSize opts) (queue opts ob)). \<not> ok_isValid kit p"
  shows "ob_wire (drains kit opts n ob) = ob_wire ob \<and> queue opts (drains kit opts n ob) = queue opts ob"
proof -
  let ?step = "pass (ro_batchSize opts) (ok_isValid kit)" and ?s = "(queue opts ob, ob_wire ob)"
  have "filter (Not \<circ> ok_isValid kit) (take (ro_batchSize opts) (queue opts ob)) = take (ro_batchSize opts) (queue opts ob)"
    and "filter (ok_isValid kit) (take (ro_batchSize opts) (queue opts ob)) = []"
    using assms(3) by (auto simp: filter_id_conv filter_empty_conv)
  then have "?step ?s = ?s" unfolding pass_def by simp
  then have "(?step ^^ n) ?s = ?s" by (induction n) simp_all
  with drains_refine_pass [OF assms(1,2), of opts n] show ?thesis by simp
qed

subsection \<open>A concrete outbox\<close>

text \<open>Integers as payloads, negative ones invalid; every row was staged at time 0 and the clock is past the grace.\<close>

definition number_kit :: "int outbox_kit" where
  "number_kit = \<lparr>ok_eventId = (\<lambda>p. replicate (nat (abs p)) CHR ''x''), ok_eventType = (\<lambda>_. ''number''),
     ok_isValid = (\<lambda>p. 0 \<le> p), ok_publish = (\<lambda>_ _. None)\<rparr>"

definition number_options :: relay_options where
  "number_options = \<lparr>ro_producer = ''numbers'', ro_batchSize = 2, ro_graceMs = 5000, ro_retentionDays = 7\<rparr>"

definition empty_outbox :: "int outbox" where
  "empty_outbox = \<lparr>ob_rows = [], ob_next_id = 1, ob_now = 0, ob_tries = 0, ob_wire = []\<rparr>"

definition staged_numbers :: "int list \<Rightarrow> int outbox" where
  "staged_numbers ps =
     (case stageOutboxEvents number_kit ps ''numbers'' empty_outbox of
        Some ob \<Rightarrow> ob\<lparr>ob_now := 6000\<rparr>
      | None \<Rightarrow> empty_outbox)"

theorem staged_events_are_never_lost_witness:
  "3 \<in> set (ob_wire (purge number_options (staged_numbers [3]))) \<or>
   (\<exists>r \<in> set (ob_rows (purge number_options (staged_numbers [3]))). ob_payload r = 3 \<and> ob_published_at r = None)"
proof -
  let ?ob1 = "the (stageOutboxEvents number_kit [3] ''numbers'' empty_outbox)"
  have "stageOutboxEvents number_kit [3] ''numbers'' empty_outbox = Some ?ob1" by code_simp
  moreover have "outbox_ok empty_outbox" by code_simp
  moreover have "outbox_step\<^sup>*\<^sup>* ?ob1 (purge number_options (?ob1\<lparr>ob_now := 6000\<rparr>))"
  proof -
    have "ob_now ?ob1 \<le> 6000" by code_simp
    then have "outbox_step ?ob1 (?ob1\<lparr>ob_now := 6000\<rparr>)" by (rule outbox_step.Tick)
    then show ?thesis using outbox_step.Purge by (meson r_into_rtranclp rtranclp.rtrancl_into_rtrancl)
  qed
  moreover have "?ob1\<lparr>ob_now := 6000\<rparr> = staged_numbers [3]" by code_simp
  ultimately show ?thesis using staged_events_are_never_lost [of empty_outbox number_kit "[3]" "''numbers''" ?ob1 _ 3]
    by (metis list.set_intros(1))
qed

theorem relay_delivers_witness:
  "ob_wire (drains number_kit number_options 3 (staged_numbers [4, -1, 5, 6])) = [4, 5, 6]"
proof -
  have "queue number_options (staged_numbers [4, -1, 5, 6]) = [4, -1, 5, 6]"
    "ob_wire (staged_numbers [4, -1, 5, 6]) = []" "outbox_ok (staged_numbers [4, -1, 5, 6])" by code_simp+
  then show ?thesis
    using relay_delivers [of number_kit "staged_numbers [4, -1, 5, 6]" number_options 3]
    by (simp add: number_kit_def number_options_def)
qed

theorem quarantine_starves_the_relay_witness:
  "ob_wire (drains number_kit number_options 1000 (staged_numbers [-1, -2, 7])) = [] \<and>
   queue number_options (drains number_kit number_options 1000 (staged_numbers [-1, -2, 7])) = [-1, -2, 7]"
proof -
  have "queue number_options (staged_numbers [-1, -2, 7]) = [-1, -2, 7]"
    "ob_wire (staged_numbers [-1, -2, 7]) = []" "outbox_ok (staged_numbers [-1, -2, 7])" by code_simp+
  then show ?thesis
    using quarantine_starves_the_relay [of number_kit "staged_numbers [-1, -2, 7]" number_options 1000]
    by (simp add: number_kit_def number_options_def)
qed

end
