(* ===== verification/Scheduling.thy ===== *)
theory Scheduling
  imports Signing Outbox
begin

text \<open>
  The exam-slot scheduler (\<open>services/scheduling-service\<close>): the slot ledger
  (\<open>adapters/slot-ledger.pg-repository.ts\<close> with the two SQL seat functions it calls), the venue and
  identity readers and the use case (\<open>application/assign-slot.service.ts\<close>). Other transactions may
  commit between any two statements; what they do is the argument \<open>others\<close>. The increment of a seat
  becomes visible with the commit, so a failing transaction leaves only what the others did.
\<close>

subsection \<open>Events\<close>

record event_context =
  cx_correlationId :: uuid
  cx_causationId :: uuid

record event_envelope =
  ev_eventId :: uuid
  ev_eventVersion :: string
  ev_occurredAt :: string
  ev_correlationId :: uuid
  ev_causationId :: uuid

definition EVENT_VERSION :: string where "EVENT_VERSION = ''1.0''"

text \<open>The random id and the time of the call are arguments.\<close>

definition newCorrelationContext :: "uuid \<Rightarrow> event_context" where
  "newCorrelationContext fresh = \<lparr>cx_correlationId = fresh, cx_causationId = fresh\<rparr>"

definition deriveContext :: "event_envelope \<Rightarrow> event_context" where
  "deriveContext parent = \<lparr>cx_correlationId = ev_correlationId parent, cx_causationId = ev_eventId parent\<rparr>"

definition newEnvelope :: "event_context \<Rightarrow> uuid \<Rightarrow> string \<Rightarrow> event_envelope" where
  "newEnvelope ctx fresh now =
     \<lparr>ev_eventId = fresh, ev_eventVersion = EVENT_VERSION, ev_occurredAt = now,
      ev_correlationId = cx_correlationId ctx, ev_causationId = cx_causationId ctx\<rparr>"

record slot_event =
  sv_envelope :: event_envelope
  sv_applicantId :: uuid
  sv_applicationId :: uuid
  sv_agency :: agency
  sv_campaignId :: uuid
  sv_slotId :: uuid
  sv_district :: string
  sv_venueName :: string
  sv_examDate :: string
  sv_reportingTimeHour :: int
  sv_qrInvitationCode :: string
  sv_qrSignedToken :: string

text \<open>An audit entry of this service: the entity is the application, the actor the service itself.\<close>

record slot_audit =
  su_envelope :: event_envelope
  su_entityId :: uuid
  su_action :: string
  su_agency :: agency
  su_metadata :: "(string \<times> json) list"

datatype sched_event = Slot_announced slot_event | Slot_audited slot_audit

fun sched_eventId :: "sched_event \<Rightarrow> string" where
  "sched_eventId (Slot_announced e) = ev_eventId (sv_envelope e)"
| "sched_eventId (Slot_audited e) = ev_eventId (su_envelope e)"

fun sched_eventType :: "sched_event \<Rightarrow> string" where
  "sched_eventType (Slot_announced e) = ''SLOT_ASSIGNED''"
| "sched_eventType (Slot_audited e) = ''AUDIT_ENTRY''"

subsection \<open>Tables\<close>

record venue_row =
  vn_id :: uuid
  vn_campaign_id :: uuid
  vn_district :: string
  vn_venue_name :: string
  vn_exam_date :: string
  vn_reporting_time_hour :: int
  vn_capacity_limit :: "int option"
  vn_registered_count :: int
  vn_is_active :: bool

record reservation_row =
  sr_application_id :: uuid
  sr_agency :: agency
  sr_campaign_id :: uuid
  sr_venue_assignment_id :: uuid
  sr_slot_event_id :: uuid
  sr_slot_event :: sched_event

record home_row =
  encrypted_home_district :: string
  home_deleted :: bool

record sched_world =
  sw_venues :: "venue_row list"
  sw_reservations :: "reservation_row list"
  sw_homes :: "uuid \<Rightarrow> home_row option"
  sw_outbox :: "sched_event outbox"

datatype scheduling_error = SchedulingReadError | SchedulingWriteError

text \<open>What one call draws from its surroundings: the library, keys, fresh ids, clock readings and the transport.\<close>

record sched_env =
  sn_decrypt :: "string \<Rightarrow> string option"
  sn_crypto :: crypto_library
  sn_privateKey :: string
  sn_keyId :: string
  sn_ticket :: string
  sn_ids :: "nat \<Rightarrow> uuid"
  sn_clock :: "nat \<Rightarrow> string"
  sn_publish :: "nat \<Rightarrow> sched_event \<Rightarrow> string option"
  sn_stamped :: "nat \<Rightarrow> bool"

text \<open>
  What other transactions commit: before the \<open>n\<close>-th statement of the call, and while it holds the row
  lock of a venue.
\<close>

record interference =
  in_between :: "nat \<Rightarrow> sched_world \<Rightarrow> sched_world"
  behind_lock :: "uuid \<Rightarrow> sched_world \<Rightarrow> sched_world"

definition sched_kit :: "sched_env \<Rightarrow> sched_event outbox_kit" where
  "sched_kit env =
     \<lparr>ok_eventId = sched_eventId, ok_eventType = sched_eventType, ok_isValid = (\<lambda>_. True), ok_publish = sn_publish env\<rparr>"

definition SCHEDULING_OUTBOX_PRODUCER :: string where
  "SCHEDULING_OUTBOX_PRODUCER = ''scheduling-service''"

definition stage_in :: "sched_env \<Rightarrow> sched_event list \<Rightarrow> sched_world \<Rightarrow> sched_world option" where
  "stage_in env events w =
     map_option (\<lambda>ob. w\<lparr>sw_outbox := ob\<rparr>)
       (stageOutboxEvents (sched_kit env) events SCHEDULING_OUTBOX_PRODUCER (sw_outbox w))"

definition dispatch_in :: "sched_env \<Rightarrow> sched_event list \<Rightarrow> sched_world \<Rightarrow> sched_world" where
  "dispatch_in env events w = w\<lparr>sw_outbox := dispatch (sched_kit env) (sn_stamped env) events (sw_outbox w)\<rparr>"

subsection \<open>The ledger\<close>

fun decodeSlotEvent :: "sched_event \<Rightarrow> scheduling_error + slot_event" where
  "decodeSlotEvent (Slot_announced e) = Inr e"
| "decodeSlotEvent (Slot_audited _) = Inl SchedulingReadError"

definition reservation_of :: "uuid \<Rightarrow> sched_world \<Rightarrow> reservation_row option" where
  "reservation_of applicationId w = find (\<lambda>r. sr_application_id r = applicationId) (sw_reservations w)"

definition reservationIn :: "uuid \<Rightarrow> sched_world \<Rightarrow> scheduling_error + slot_event option" where
  "reservationIn applicationId w =
     (case reservation_of applicationId w of
        None \<Rightarrow> Inr None
      | Some row \<Rightarrow> map_sum (\<lambda>e. e) Some (decodeSlotEvent (sr_slot_event row)))"

definition venue_of :: "uuid \<Rightarrow> sched_world \<Rightarrow> venue_row option" where
  "venue_of v w = find (\<lambda>r. vn_id r = v) (sw_venues w)"

definition update_venue :: "uuid \<Rightarrow> (venue_row \<Rightarrow> venue_row) \<Rightarrow> sched_world \<Rightarrow> sched_world" where
  "update_venue v f w = w\<lparr>sw_venues := map (\<lambda>r. if vn_id r = v then f r else r) (sw_venues w)\<rparr>"

record seat_decision =
  sd_reserved :: bool
  sd_venueExists :: bool
  sd_capacityLimit :: "int option"
  sd_registeredCount :: "int option"
  sd_isActive :: bool

definition seat_free :: "venue_row \<Rightarrow> bool" where
  "seat_free r \<longleftrightarrow> vn_is_active r \<and> (case vn_capacity_limit r of None \<Rightarrow> True | Some c \<Rightarrow> vn_registered_count r < c)"

definition take_seat :: "uuid \<Rightarrow> sched_world \<Rightarrow> sched_world" where
  "take_seat v = update_venue v (\<lambda>r. r\<lparr>vn_registered_count := vn_registered_count r + 1\<rparr>)"

definition seat_refusal :: "uuid \<Rightarrow> sched_world \<Rightarrow> seat_decision" where
  "seat_refusal v w =
     (case venue_of v w of
        None \<Rightarrow> \<lparr>sd_reserved = False, sd_venueExists = False, sd_capacityLimit = None, sd_registeredCount = None,
                 sd_isActive = False\<rparr>
      | Some r \<Rightarrow> \<lparr>sd_reserved = False, sd_venueExists = True, sd_capacityLimit = vn_capacity_limit r,
                   sd_registeredCount = Some (vn_registered_count r), sd_isActive = vn_is_active r\<rparr>)"

text \<open>\<open>release_campaign_venue_seat\<close>; \<open>None\<close> is the raised exception.\<close>

definition release_seat :: "uuid \<Rightarrow> sched_world \<Rightarrow> sched_world option" where
  "release_seat v w =
     (case venue_of v w of
        Some r \<Rightarrow> if vn_registered_count r > 0
                  then Some (update_venue v (\<lambda>r. r\<lparr>vn_registered_count := vn_registered_count r - 1\<rparr>) w) else None
      | None \<Rightarrow> None)"

record reserve_input =
  ri_applicationId :: uuid
  ri_agency :: agency
  ri_campaignId :: uuid
  ri_venueAssignmentId :: uuid
  ri_slotEvent :: slot_event

datatype no_capacity_reason = VENUE_AT_CAPACITY | VENUE_INACTIVE

datatype reserve_outcome =
    Reserve_RESERVED
  | Reserve_ALREADY_ASSIGNED slot_event
  | Reserve_NO_CAPACITY no_capacity_reason "int option" "int option"

definition no_capacity :: "seat_decision \<Rightarrow> reserve_outcome" where
  "no_capacity seat =
     Reserve_NO_CAPACITY (if sd_venueExists seat \<and> sd_isActive seat then VENUE_AT_CAPACITY else VENUE_INACTIVE)
       (sd_capacityLimit seat) (sd_registeredCount seat)"

definition new_reservation :: "reserve_input \<Rightarrow> reservation_row" where
  "new_reservation input =
     \<lparr>sr_application_id = ri_applicationId input, sr_agency = ri_agency input, sr_campaign_id = ri_campaignId input,
      sr_venue_assignment_id = ri_venueAssignmentId input,
      sr_slot_event_id = ev_eventId (sv_envelope (ri_slotEvent input)), sr_slot_event = Slot_announced (ri_slotEvent input)\<rparr>"

definition event_id_taken :: "uuid \<Rightarrow> sched_world \<Rightarrow> bool" where
  "event_id_taken eventId w \<longleftrightarrow> list_ex (\<lambda>r. sr_slot_event_id r = eventId) (sw_reservations w)"

text \<open>The seat was taken: the venue row stays locked until the transaction ends.\<close>

definition seated_reserve ::
  "sched_env \<Rightarrow> interference \<Rightarrow> reserve_input \<Rightarrow> (reserve_outcome \<Rightarrow> sched_event list) \<Rightarrow> sched_world \<Rightarrow>
   sched_world \<times> (scheduling_error + reserve_outcome)" where
  "seated_reserve env others input stage w =
     (let i = ri_applicationId input; v = ri_venueAssignmentId input;
          w2 = behind_lock others v w;
          w3 = take_seat v w2 in
      case reservation_of i w2 of
        Some _ \<Rightarrow>
          (case release_seat v w3 of
             None \<Rightarrow> (w2, Inl SchedulingWriteError)
           | Some w4 \<Rightarrow>
               (case reservationIn i w4 of
                  Inl e \<Rightarrow> (w2, Inl e)
                | Inr None \<Rightarrow> (w2, Inl SchedulingWriteError)
                | Inr (Some winner) \<Rightarrow> (w4, Inr (Reserve_ALREADY_ASSIGNED winner))))
      | None \<Rightarrow>
          if event_id_taken (ev_eventId (sv_envelope (ri_slotEvent input))) w2 then (w2, Inl SchedulingWriteError)
          else
            (case stage_in env (stage Reserve_RESERVED)
                    (w3\<lparr>sw_reservations := sw_reservations w3 @ [new_reservation input]\<rparr>) of
               None \<Rightarrow> (w2, Inl SchedulingWriteError)
             | Some w4 \<Rightarrow> (w4, Inr Reserve_RESERVED)))"

definition refused_reserve ::
  "sched_env \<Rightarrow> interference \<Rightarrow> reserve_input \<Rightarrow> (reserve_outcome \<Rightarrow> sched_event list) \<Rightarrow> sched_world \<Rightarrow>
   sched_world \<times> (scheduling_error + reserve_outcome)" where
  "refused_reserve env others input stage w =
     (let i = ri_applicationId input;
          w2 = in_between others 4 w;
          seat = seat_refusal (ri_venueAssignmentId input) w2;
          w3 = in_between others 5 w2 in
      case reservationIn i w3 of
        Inl e \<Rightarrow> (w3, Inl e)
      | Inr (Some raced) \<Rightarrow> (w3, Inr (Reserve_ALREADY_ASSIGNED raced))
      | Inr None \<Rightarrow>
          (case stage_in env (stage (no_capacity seat)) w3 of
             None \<Rightarrow> (w3, Inl SchedulingWriteError)
           | Some w4 \<Rightarrow> (w4, Inr (no_capacity seat))))"

definition reserve ::
  "sched_env \<Rightarrow> interference \<Rightarrow> reserve_input \<Rightarrow> (reserve_outcome \<Rightarrow> sched_event list) \<Rightarrow> sched_world \<Rightarrow>
   sched_world \<times> (scheduling_error + reserve_outcome)" where
  "reserve env others input stage w =
     (case reservationIn (ri_applicationId input) w of
        Inl e \<Rightarrow> (w, Inl e)
      | Inr (Some prior) \<Rightarrow> (w, Inr (Reserve_ALREADY_ASSIGNED prior))
      | Inr None \<Rightarrow>
          let w1 = in_between others 3 w in
          case venue_of (ri_venueAssignmentId input) w1 of
            Some r \<Rightarrow> if seat_free r then seated_reserve env others input stage w1
                      else refused_reserve env others input stage w1
          | None \<Rightarrow> refused_reserve env others input stage w1)"

definition recordDeferral :: "sched_env \<Rightarrow> sched_event list \<Rightarrow> sched_world \<Rightarrow> sched_world \<times> (scheduling_error + unit)" where
  "recordDeferral env events w =
     (if events = [] then (w, Inr ())
      else (case stage_in env events w of None \<Rightarrow> (w, Inl SchedulingWriteError) | Some w' \<Rightarrow> (w', Inr ())))"

subsection \<open>The readers\<close>

definition homeDistrictOf :: "sched_env \<Rightarrow> uuid \<Rightarrow> sched_world \<Rightarrow> scheduling_error + string option" where
  "homeDistrictOf env applicantId w =
     (case sw_homes w applicantId of
        None \<Rightarrow> Inr None
      | Some row \<Rightarrow>
          if home_deleted row then Inr None
          else (case sn_decrypt env (encrypted_home_district row) of
                  None \<Rightarrow> Inl SchedulingReadError
                | Some d \<Rightarrow> Inr (Some (js_upper (js_trim d)))))"

definition venueFor :: "uuid \<Rightarrow> string \<Rightarrow> sched_world \<Rightarrow> venue_row option" where
  "venueFor campaignId district w =
     find (\<lambda>r. vn_campaign_id r = campaignId \<and> vn_district r = district \<and> vn_is_active r) (sw_venues w)"

subsection \<open>Assigning a slot\<close>

record assign_slot_command =
  as_applicationId :: uuid
  as_applicantId :: uuid
  as_commandAgency :: agency
  as_campaignId :: uuid
  as_context :: "event_context option"

datatype assign_slot_outcome =
    Scheduled_ASSIGNED slot_event
  | Scheduled_ALREADY_ASSIGNED slot_event
  | Scheduled_NO_VENUE
  | Scheduled_NO_CAPACITY no_capacity_reason
  | Scheduled_APPLICANT_NOT_FOUND

definition slot_audit_of ::
  "sched_env \<Rightarrow> event_context \<Rightarrow> nat \<Rightarrow> assign_slot_command \<Rightarrow> string \<Rightarrow> (string \<times> json) list \<Rightarrow> slot_audit" where
  "slot_audit_of env ctx n command action metadata =
     \<lparr>su_envelope = newEnvelope ctx (sn_ids env n) (sn_clock env n), su_entityId = as_applicationId command,
      su_action = action, su_agency = as_commandAgency command, su_metadata = metadata\<rparr>"

definition no_venue_audit :: "sched_env \<Rightarrow> event_context \<Rightarrow> assign_slot_command \<Rightarrow> string \<Rightarrow> sched_event" where
  "no_venue_audit env ctx command district =
     Slot_audited (slot_audit_of env ctx 1 command ''SLOT_ASSIGNMENT_DEFERRED''
       [(''reason'', JStr ''NO_VENUE_FOR_DISTRICT''), (''district'', JStr district),
        (''campaignId'', JStr (as_campaignId command))])"

definition claims_of_slot :: "sched_env \<Rightarrow> assign_slot_command \<Rightarrow> venue_row \<Rightarrow> slot_invitation_claims" where
  "claims_of_slot env command venue =
     \<lparr>sc_keyId = sn_keyId env, sc_ticketId = sn_ticket env, sc_applicationId = as_applicationId command,
      sc_applicantId = as_applicantId command, sc_agency = as_commandAgency command, sc_campaignId = as_campaignId command,
      sc_slotId = vn_id venue, sc_venueName = vn_venue_name venue, sc_examDate = vn_exam_date venue,
      sc_reportingTimeHour = vn_reporting_time_hour venue, sc_issuedAt = sn_clock env 0,
      sc_expiresAt = vn_exam_date venue @ ''T23:59:59.000Z''\<rparr>"

definition slot_event_of :: "sched_env \<Rightarrow> event_context \<Rightarrow> assign_slot_command \<Rightarrow> venue_row \<Rightarrow> slot_event" where
  "slot_event_of env ctx command venue =
     \<lparr>sv_envelope = newEnvelope ctx (sn_ids env 1) (sn_clock env 1), sv_applicantId = as_applicantId command,
      sv_applicationId = as_applicationId command, sv_agency = as_commandAgency command, sv_campaignId = as_campaignId command,
      sv_slotId = vn_id venue, sv_district = vn_district venue, sv_venueName = vn_venue_name venue,
      sv_examDate = vn_exam_date venue, sv_reportingTimeHour = vn_reporting_time_hour venue,
      sv_qrInvitationCode = sn_ticket env,
      sv_qrSignedToken = signSlotInvitation (sn_crypto env) (sn_privateKey env) (claims_of_slot env command venue)\<rparr>"

definition assigned_audit :: "sched_env \<Rightarrow> event_context \<Rightarrow> assign_slot_command \<Rightarrow> venue_row \<Rightarrow> sched_event" where
  "assigned_audit env ctx command venue =
     Slot_audited (slot_audit_of env ctx 2 command ''SLOT_ASSIGNED''
       [(''venueName'', JStr (vn_venue_name venue)), (''examDate'', JStr (vn_exam_date venue)),
        (''reportingTimeHour'', JNum (of_int (vn_reporting_time_hour venue))),
        (''campaignId'', JStr (as_campaignId command))])"

definition json_count :: "int option \<Rightarrow> json" where
  "json_count n = (case n of None \<Rightarrow> JNull | Some k \<Rightarrow> JNum (of_int k))"

definition reason_text :: "no_capacity_reason \<Rightarrow> string" where
  "reason_text r = (case r of VENUE_AT_CAPACITY \<Rightarrow> ''VENUE_AT_CAPACITY'' | VENUE_INACTIVE \<Rightarrow> ''VENUE_INACTIVE'')"

definition capacity_audit ::
  "sched_env \<Rightarrow> event_context \<Rightarrow> assign_slot_command \<Rightarrow> venue_row \<Rightarrow> no_capacity_reason \<Rightarrow> int option \<Rightarrow> int option \<Rightarrow> sched_event" where
  "capacity_audit env ctx command venue why cap registered =
     Slot_audited (slot_audit_of env ctx 3 command ''SLOT_ASSIGNMENT_DEFERRED''
       [(''reason'', JStr (reason_text why)), (''venueName'', JStr (vn_venue_name venue)),
        (''venueAssignmentId'', JStr (vn_id venue)), (''capacityLimit'', json_count cap),
        (''registeredCount'', json_count registered), (''campaignId'', JStr (as_campaignId command))])"

fun staged_for :: "sched_env \<Rightarrow> event_context \<Rightarrow> assign_slot_command \<Rightarrow> venue_row \<Rightarrow> reserve_outcome \<Rightarrow> sched_event list" where
  "staged_for env ctx command venue Reserve_RESERVED =
     [Slot_announced (slot_event_of env ctx command venue), assigned_audit env ctx command venue]"
| "staged_for env ctx command venue (Reserve_NO_CAPACITY why cap registered) =
     [capacity_audit env ctx command venue why cap registered]"
| "staged_for env ctx command venue (Reserve_ALREADY_ASSIGNED _) = []"

definition assign_venue ::
  "sched_env \<Rightarrow> interference \<Rightarrow> assign_slot_command \<Rightarrow> event_context \<Rightarrow> venue_row \<Rightarrow> sched_world \<Rightarrow>
   sched_world \<times> (scheduling_error + assign_slot_outcome)" where
  "assign_venue env others command ctx venue w =
     (let slotEvent = slot_event_of env ctx command venue; staged = staged_for env ctx command venue in
      case reserve env others
             \<lparr>ri_applicationId = as_applicationId command, ri_agency = as_commandAgency command,
              ri_campaignId = as_campaignId command, ri_venueAssignmentId = vn_id venue, ri_slotEvent = slotEvent\<rparr>
             staged w of
        (w', Inl e) \<Rightarrow> (w', Inl e)
      | (w', Inr Reserve_RESERVED) \<Rightarrow> (dispatch_in env (staged Reserve_RESERVED) w', Inr (Scheduled_ASSIGNED slotEvent))
      | (w', Inr (Reserve_ALREADY_ASSIGNED event)) \<Rightarrow>
          (dispatch_in env [Slot_announced event] w', Inr (Scheduled_ALREADY_ASSIGNED event))
      | (w', Inr (Reserve_NO_CAPACITY why cap registered)) \<Rightarrow>
          (dispatch_in env (staged (Reserve_NO_CAPACITY why cap registered)) w', Inr (Scheduled_NO_CAPACITY why)))"

definition assign ::
  "sched_env \<Rightarrow> interference \<Rightarrow> assign_slot_command \<Rightarrow> sched_world \<Rightarrow>
   sched_world \<times> (scheduling_error + assign_slot_outcome)" where
  "assign env others command w =
     (case reservationIn (as_applicationId command) w of
        Inl e \<Rightarrow> (w, Inl e)
      | Inr (Some existing) \<Rightarrow>
          (dispatch_in env [Slot_announced existing] w, Inr (Scheduled_ALREADY_ASSIGNED existing))
      | Inr None \<Rightarrow>
          let w1 = in_between others 0 w in
          case homeDistrictOf env (as_applicantId command) w1 of
            Inl e \<Rightarrow> (w1, Inl e)
          | Inr None \<Rightarrow> (w1, Inr Scheduled_APPLICANT_NOT_FOUND)
          | Inr (Some district) \<Rightarrow>
              let w2 = in_between others 1 w1;
                  ctx = (case as_context command of Some c \<Rightarrow> c | None \<Rightarrow> newCorrelationContext (sn_ids env 0)) in
              case venueFor (as_campaignId command) district w2 of
                None \<Rightarrow>
                  (let deferral = no_venue_audit env ctx command district in
                   case recordDeferral env [deferral] w2 of
                     (w3, Inl e) \<Rightarrow> (w3, Inl e)
                   | (w3, Inr _) \<Rightarrow> (dispatch_in env [deferral] w3, Inr Scheduled_NO_VENUE))
              | Some venue \<Rightarrow> assign_venue env others command ctx venue (in_between others 2 w2))"


subsection \<open>Seats and reservations\<close>

text \<open>Every venue counts its reservations, within its capacity; a reservation keeps the event that announced it.\<close>

definition seats_of :: "uuid \<Rightarrow> sched_world \<Rightarrow> nat" where
  "seats_of v w = length (filter (\<lambda>s. sr_venue_assignment_id s = v) (sw_reservations w))"

definition venue_ok :: "sched_world \<Rightarrow> venue_row \<Rightarrow> bool" where
  "venue_ok w r \<longleftrightarrow> vn_registered_count r = int (seats_of (vn_id r) w) \<and>
     (\<forall>c. vn_capacity_limit r = Some c \<longrightarrow> vn_registered_count r \<le> c)"

definition reservation_ok :: "reservation_row \<Rightarrow> bool" where
  "reservation_ok s \<longleftrightarrow> (\<exists>e. sr_slot_event s = Slot_announced e \<and> sv_applicationId e = sr_application_id s \<and>
     sv_slotId e = sr_venue_assignment_id s)"

definition ledger_ok :: "sched_world \<Rightarrow> bool" where
  "ledger_ok w \<longleftrightarrow> distinct (map vn_id (sw_venues w)) \<and> distinct (map sr_application_id (sw_reservations w)) \<and>
     (\<forall>r \<in> set (sw_venues w). venue_ok w r) \<and> (\<forall>s \<in> set (sw_reservations w). reservation_ok s) \<and>
     outbox_ok (sw_outbox w)"

definition kept :: "sched_world \<Rightarrow> sched_world \<Rightarrow> bool" where
  "kept w w' \<longleftrightarrow> (\<forall>i r. reservation_of i w = Some r \<longrightarrow> reservation_of i w' = Some r)"

text \<open>What every committed transaction of the platform leaves in place.\<close>

definition carries_on :: "sched_world \<Rightarrow> sched_world \<Rightarrow> bool" where
  "carries_on w w' \<longleftrightarrow> (ledger_ok w \<longrightarrow> ledger_ok w' \<and> kept w w')"

lemma carries_on_refl [simp]: "carries_on w w"
  by (simp add: carries_on_def kept_def)

lemma carries_on_trans: "carries_on u v \<Longrightarrow> carries_on v w \<Longrightarrow> carries_on u w"
  by (auto simp: carries_on_def kept_def)

definition well_behaved :: "interference \<Rightarrow> bool" where
  "well_behaved others \<longleftrightarrow> (\<forall>n w. carries_on w (in_between others n w)) \<and>
     (\<forall>v w. carries_on w (behind_lock others v w) \<and> venue_of v (behind_lock others v w) = venue_of v w)"

definition alone :: interference where
  "alone = \<lparr>in_between = (\<lambda>_ w. w), behind_lock = (\<lambda>_ w. w)\<rparr>"

lemma alone_well_behaved: "well_behaved alone"
  by (simp add: well_behaved_def alone_def)

lemma same_ledger:
  assumes "sw_venues w' = sw_venues w" and "sw_reservations w' = sw_reservations w"
    and "outbox_ok (sw_outbox w) \<Longrightarrow> outbox_ok (sw_outbox w')"
  shows "carries_on w w'"
  using assms by (auto simp: carries_on_def ledger_ok_def kept_def venue_ok_def seats_of_def reservation_of_def)

text \<open>Events just staged: each waits in a row of its own id.\<close>

definition freshly_staged :: "sched_env \<Rightarrow> sched_event list \<Rightarrow> sched_event outbox \<Rightarrow> bool" where
  "freshly_staged env es ob \<longleftrightarrow> (\<forall>e \<in> set es. accounted e ob) \<and> list_all (as_staged (sched_kit env) ob) es"

lemma stage_in_frame:
  assumes "stage_in env es w = Some w'"
  shows "sw_venues w' = sw_venues w" "sw_reservations w' = sw_reservations w" "outbox_ok (sw_outbox w) \<Longrightarrow> outbox_ok (sw_outbox w')"
    and "outbox_ok (sw_outbox w) \<Longrightarrow> freshly_staged env es (sw_outbox w')"
proof -
  obtain ob where ob: "stageOutboxEvents (sched_kit env) es SCHEDULING_OUTBOX_PRODUCER (sw_outbox w) = Some ob"
      "w' = w\<lparr>sw_outbox := ob\<rparr>"
    using assms by (auto simp: stage_in_def)
  then have "stage_rows (sched_kit env) SCHEDULING_OUTBOX_PRODUCER es (sw_outbox w) = Some ob"
    by (simp add: stageOutboxEvents_def split: if_splits)
  note stage_rows_keeps [OF this] stage_rows_as_staged [OF this]
  with ob(2) show "sw_venues w' = sw_venues w" "sw_reservations w' = sw_reservations w"
      "outbox_ok (sw_outbox w) \<Longrightarrow> outbox_ok (sw_outbox w')"
      "outbox_ok (sw_outbox w) \<Longrightarrow> freshly_staged env es (sw_outbox w')"
    by (simp_all add: freshly_staged_def list_all_iff)
qed

lemma dispatch_outbox_ok: "outbox_ok ob \<Longrightarrow> outbox_ok (dispatch kit stamped es ob)"
proof (induction es arbitrary: ob)
  case (Cons e es)
  obtain ob1 res where s: "send kit e ob = (ob1, res)" by (cases "send kit e ob")
  have "outbox_ok ob1" using Cons.prems outbox_ok_send [OF s] by simp
  moreover from this have "outbox_ok (markPublished (ok_eventId kit e) ob1)"
    by (simp add: markPublished_def outbox_ok_update)
  ultimately show ?case using s Cons.IH by (cases res) simp_all
qed simp

lemma dispatch_in_frame [simp]:
  "sw_venues (dispatch_in env es w) = sw_venues w" "sw_reservations (dispatch_in env es w) = sw_reservations w"
  by (simp_all add: dispatch_in_def)

lemma dispatch_in_carries: "carries_on w (dispatch_in env es w)"
  by (rule same_ledger) (simp_all add: dispatch_in_def dispatch_outbox_ok)

lemma stage_in_carries: "stage_in env es w = Some w' \<Longrightarrow> carries_on w w'"
  using stage_in_frame by (intro same_ledger) blast+

lemma recordDeferral_carries: "recordDeferral env es w = (w', res) \<Longrightarrow> carries_on w w'"
  using stage_in_carries by (auto simp: recordDeferral_def split: if_splits option.splits)

lemma reservationIn_cases:
  assumes "ledger_ok w"
  shows "reservationIn i w =
    (case reservation_of i w of None \<Rightarrow> Inr None | Some s \<Rightarrow> Inr (Some (case sr_slot_event s of Slot_announced e \<Rightarrow> e)))"
proof (cases "reservation_of i w")
  case (Some s)
  then have "s \<in> set (sw_reservations w)" by (auto simp: reservation_of_def find_Some_iff)
  then have "reservation_ok s" using assms by (simp add: ledger_ok_def)
  then show ?thesis using Some by (auto simp: reservationIn_def reservation_ok_def)
qed (simp add: reservationIn_def)

lemma find_snoc: "find P (xs @ [x]) = (case find P xs of Some y \<Rightarrow> Some y | None \<Rightarrow> if P x then Some x else None)"
  by (induction xs) simp_all

lemma take_and_release:
  assumes "venue_of v w = Some r" and "vn_registered_count r \<ge> 0" and "release_seat v (take_seat v w) = Some w'"
  shows "w' = w"
proof -
  have "w' = update_venue v (\<lambda>r. r\<lparr>vn_registered_count := vn_registered_count r - 1\<rparr>) (take_seat v w)"
    using assms(3) by (auto simp: release_seat_def split: option.splits if_splits)
  then have undone: "w' = w\<lparr>sw_venues := map (\<lambda>r. if vn_id r = v then r\<lparr>vn_registered_count := vn_registered_count r - 1\<rparr> else r)
      (map (\<lambda>r. if vn_id r = v then r\<lparr>vn_registered_count := vn_registered_count r + 1\<rparr> else r) (sw_venues w))\<rparr>"
    by (simp add: take_seat_def update_venue_def)
  have "map (\<lambda>r. if vn_id r = v then r\<lparr>vn_registered_count := vn_registered_count r - 1\<rparr> else r)
      (map (\<lambda>r. if vn_id r = v then r\<lparr>vn_registered_count := vn_registered_count r + 1\<rparr> else r) rs) = rs" for rs
    by (induction rs) simp_all
  then show ?thesis unfolding undone by (metis sched_world.surjective sched_world.update_convs(1))
qed

text \<open>Taking a free seat with its reservation keeps the books.\<close>

lemma seat_taken:
  assumes "ledger_ok w" and "venue_of v w = Some r" and "seat_free r" and "reservation_of (ri_applicationId input) w = None"
    and "ri_venueAssignmentId input = v"
    and "sv_applicationId (ri_slotEvent input) = ri_applicationId input" and "sv_slotId (ri_slotEvent input) = v"
  shows "carries_on w ((take_seat v w)\<lparr>sw_reservations := sw_reservations w @ [new_reservation input]\<rparr>)"
    and "reservation_of (ri_applicationId input)
      ((take_seat v w)\<lparr>sw_reservations := sw_reservations w @ [new_reservation input]\<rparr>) = Some (new_reservation input)"
proof -
  let ?w = "(take_seat v w)\<lparr>sw_reservations := sw_reservations w @ [new_reservation input]\<rparr>"
  let ?bump = "\<lambda>q. q\<lparr>vn_registered_count := vn_registered_count q + 1\<rparr>"
  have fresh: "ri_applicationId input \<notin> sr_application_id ` set (sw_reservations w)"
    using assms(4) by (auto simp: reservation_of_def find_None_iff)
  have seats: "seats_of u ?w = seats_of u w + (if u = v then 1 else 0)" for u
    by (simp add: seats_of_def new_reservation_def assms(5))
  have rowv: "r \<in> set (sw_venues w)" "vn_id r = v"
    using assms(2) by (auto simp: venue_of_def find_Some_iff)
  have "venue_ok ?w q'" if q': "q' \<in> set (sw_venues ?w)" for q'
  proof -
    obtain q where q: "q \<in> set (sw_venues w)" "q' = (if vn_id q = v then ?bump q else q)"
      using q' by (auto simp: take_seat_def update_venue_def)
    have okq: "venue_ok w q" using assms(1) q(1) by (simp add: ledger_ok_def)
    show ?thesis
    proof (cases "vn_id q = v")
      case True
      then have "q = r" using rowv q(1) assms(1) by (auto simp: ledger_ok_def distinct_map inj_on_def)
      then show ?thesis
        using okq q(2) True assms(3) seats by (auto simp: venue_ok_def seat_free_def)
    next
      case False
      then show ?thesis using okq q(2) seats [of "vn_id q"] unfolding venue_ok_def by (metis add.right_neutral)
    qed
  qed
  moreover have "map vn_id (sw_venues ?w) = map vn_id (sw_venues w)"
    by (simp add: take_seat_def update_venue_def)
  moreover have "sw_reservations ?w = sw_reservations w @ [new_reservation input]" "sw_outbox ?w = sw_outbox w"
    and "sr_application_id (new_reservation input) = ri_applicationId input"
    by (simp_all add: take_seat_def update_venue_def new_reservation_def)
  moreover have "reservation_ok (new_reservation input)"
    using assms(5,6,7) by (simp add: reservation_ok_def new_reservation_def)
  ultimately have "ledger_ok ?w"
    using assms(1) fresh unfolding ledger_ok_def by (auto simp del: sched_world.simps)
  moreover have "kept w ?w" by (auto simp: kept_def reservation_of_def find_snoc)
  ultimately show "carries_on w ?w" by (simp add: carries_on_def)
  show "reservation_of (ri_applicationId input) ?w = Some (new_reservation input)"
    using assms(4) by (simp add: reservation_of_def find_snoc new_reservation_def)
qed

subsection \<open>The transaction keeps the books\<close>

lemma well_behavedD:
  assumes "well_behaved others"
  shows "carries_on w (in_between others n w)" "carries_on w (behind_lock others v w)"
    "venue_of v (behind_lock others v w) = venue_of v w"
  using assms by (simp_all add: well_behaved_def)

lemma seated_reserve_carries:
  assumes "well_behaved others" and "seated_reserve env others input stage w = (w', res)"
    and "venue_of (ri_venueAssignmentId input) w = Some r" and "seat_free r"
    and "sv_applicationId (ri_slotEvent input) = ri_applicationId input"
    and "sv_slotId (ri_slotEvent input) = ri_venueAssignmentId input"
  shows "carries_on w w'"
    and "res = Inr Reserve_RESERVED \<Longrightarrow> ledger_ok w \<Longrightarrow>
      reservation_of (ri_applicationId input) w' = Some (new_reservation input) \<and>
      freshly_staged env (stage Reserve_RESERVED) (sw_outbox w')"
proof -
  let ?i = "ri_applicationId input" and ?v = "ri_venueAssignmentId input"
  let ?w2 = "behind_lock others ?v w"
  have step: "carries_on w ?w2" and row: "venue_of ?v ?w2 = Some r"
    using well_behavedD [OF assms(1)] assms(3) by simp_all
  note run = assms(2) [unfolded seated_reserve_def Let_def]
  have "carries_on w w' \<and> (res = Inr Reserve_RESERVED \<longrightarrow> ledger_ok w \<longrightarrow>
      reservation_of ?i w' = Some (new_reservation input) \<and> freshly_staged env (stage Reserve_RESERVED) (sw_outbox w'))"
  proof (cases "reservation_of ?i ?w2")
    case (Some s)
    have "carries_on w w'"
    proof (cases "ledger_ok w")
      case True
      then have "ledger_ok ?w2" using step by (simp add: carries_on_def)
      moreover have "r \<in> set (sw_venues ?w2)" using row by (auto simp: venue_of_def find_Some_iff)
      ultimately have "vn_registered_count r \<ge> 0" by (simp add: ledger_ok_def venue_ok_def)
      from take_and_release [OF row this] have "w' = ?w2"
        using run Some by (auto split: option.splits sum.splits)
      then show ?thesis using step by simp
    qed (simp add: carries_on_def)
    moreover have "res \<noteq> Inr Reserve_RESERVED" using run Some by (auto split: option.splits sum.splits)
    ultimately show ?thesis by blast
  next
    case None
    let ?w3 = "(take_seat ?v ?w2)\<lparr>sw_reservations := sw_reservations (take_seat ?v ?w2) @ [new_reservation input]\<rparr>"
    have same: "sw_reservations (take_seat ?v ?w2) = sw_reservations ?w2" by (simp add: take_seat_def update_venue_def)
    show ?thesis
    proof (cases "res = Inr Reserve_RESERVED")
      case True
      then have st: "stage_in env (stage Reserve_RESERVED) ?w3 = Some w'"
        using run None by (auto split: option.splits if_splits)
      note frame = stage_in_frame [OF st]
      have books: "carries_on w ?w3 \<and> (ledger_ok w \<longrightarrow> reservation_of ?i ?w3 = Some (new_reservation input))"
      proof (cases "ledger_ok w")
        case True
        then have "ledger_ok ?w2" using step by (simp add: carries_on_def)
        from seat_taken [OF this row assms(4) None refl assms(5,6)] show ?thesis
          unfolding same using step carries_on_trans by blast
      qed (simp add: carries_on_def)
      then have "carries_on w w'" using stage_in_carries [OF st] carries_on_trans by blast
      moreover have "reservation_of ?i w' = reservation_of ?i ?w3"
        unfolding reservation_of_def frame(2) ..
      moreover have "ledger_ok w \<Longrightarrow> outbox_ok (sw_outbox ?w3)"
        using books by (simp add: carries_on_def ledger_ok_def)
      ultimately show ?thesis using books frame(4) by metis
    next
      case False
      then have "w' = ?w2" using run None by (auto split: option.splits if_splits)
      then show ?thesis using False step by simp
    qed
  qed
  then show "carries_on w w'"
    and "res = Inr Reserve_RESERVED \<Longrightarrow> ledger_ok w \<Longrightarrow>
      reservation_of ?i w' = Some (new_reservation input) \<and> freshly_staged env (stage Reserve_RESERVED) (sw_outbox w')"
    by blast+
qed

lemma refused_reserve_carries:
  assumes "well_behaved others" and "refused_reserve env others input stage w = (w', res)"
  shows "carries_on w w'" "res \<noteq> Inr Reserve_RESERVED"
proof -
  let ?w3 = "in_between others 5 (in_between others 4 w)"
  have step: "carries_on w ?w3" using well_behavedD(1) [OF assms(1)] carries_on_trans by blast
  have "w' = ?w3 \<or> (\<exists>es. stage_in env es ?w3 = Some w')"
    using assms(2) by (auto simp: refused_reserve_def Let_def split: sum.splits option.splits)
  then show "carries_on w w'" using step stage_in_carries carries_on_trans by blast
  show "res \<noteq> Inr Reserve_RESERVED"
    using assms(2) by (auto simp: refused_reserve_def no_capacity_def Let_def split: sum.splits option.splits)
qed

lemma reserve_carries:
  assumes "well_behaved others" and "reserve env others input stage w = (w', res)"
    and "sv_applicationId (ri_slotEvent input) = ri_applicationId input"
    and "sv_slotId (ri_slotEvent input) = ri_venueAssignmentId input"
  shows "carries_on w w'"
    and "res = Inr Reserve_RESERVED \<Longrightarrow> ledger_ok w \<Longrightarrow>
      reservation_of (ri_applicationId input) w' = Some (new_reservation input) \<and>
      freshly_staged env (stage Reserve_RESERVED) (sw_outbox w')"
proof -
  let ?w1 = "in_between others 3 w"
  have step: "carries_on w ?w1" by (rule well_behavedD(1) [OF assms(1)])
  have cases: "(w' = w \<and> res \<noteq> Inr Reserve_RESERVED) \<or> refused_reserve env others input stage ?w1 = (w', res) \<or>
      (\<exists>r. venue_of (ri_venueAssignmentId input) ?w1 = Some r \<and> seat_free r \<and>
           seated_reserve env others input stage ?w1 = (w', res))"
    using assms(2) by (auto simp: reserve_def Let_def split: sum.splits option.splits if_splits)
  then have "carries_on w w' \<and> (res = Inr Reserve_RESERVED \<longrightarrow> ledger_ok w \<longrightarrow>
      reservation_of (ri_applicationId input) w' = Some (new_reservation input) \<and>
      freshly_staged env (stage Reserve_RESERVED) (sw_outbox w'))"
  proof (elim disjE exE conjE)
    assume "refused_reserve env others input stage ?w1 = (w', res)"
    note refused_reserve_carries [OF assms(1) this]
    then show ?thesis using carries_on_trans [OF step] by blast
  next
    fix r
    assume "venue_of (ri_venueAssignmentId input) ?w1 = Some r" and "seat_free r"
      and run: "seated_reserve env others input stage ?w1 = (w', res)"
    note seated_reserve_carries [OF assms(1) run this(1,2) assms(3,4)]
    moreover have "ledger_ok w \<Longrightarrow> ledger_ok ?w1" using step by (simp add: carries_on_def)
    ultimately show ?thesis using carries_on_trans [OF step] by blast
  qed simp
  then show "carries_on w w'"
    and "res = Inr Reserve_RESERVED \<Longrightarrow> ledger_ok w \<Longrightarrow>
      reservation_of (ri_applicationId input) w' = Some (new_reservation input) \<and>
      freshly_staged env (stage Reserve_RESERVED) (sw_outbox w')"
    by blast+
qed

subsection \<open>The use case\<close>

lemma assign_cases:
  assumes "assign env others command w = (w', res)"
  obtains (Early) "w' = w" "\<And>e. res \<noteq> Inr (Scheduled_ASSIGNED e)"
  | (Again) existing where "reservationIn (as_applicationId command) w = Inr (Some existing)"
      "w' = dispatch_in env [Slot_announced existing] w" "res = Inr (Scheduled_ALREADY_ASSIGNED existing)"
  | (Unread) "w' = in_between others 0 w" "\<And>e. res \<noteq> Inr (Scheduled_ASSIGNED e)"
  | (Deferred) es ws where "recordDeferral env es (in_between others 1 (in_between others 0 w)) = ws"
      "w' = fst ws \<or> w' = dispatch_in env es (fst ws)" "\<And>e. res \<noteq> Inr (Scheduled_ASSIGNED e)"
  | (Venue) ctx venue district where
      "homeDistrictOf env (as_applicantId command) (in_between others 0 w) = Inr (Some district)"
      "venueFor (as_campaignId command) district (in_between others 1 (in_between others 0 w)) = Some venue"
      "assign_venue env others command ctx venue (in_between others 2 (in_between others 1 (in_between others 0 w))) = (w', res)"
proof (cases "reservationIn (as_applicationId command) w")
  case (Inl e)
  then show thesis using assms Early by (auto simp: assign_def)
next
  case (Inr prior)
  show thesis
  proof (cases prior)
    case (Some existing)
    then show thesis using assms Inr Again by (auto simp: assign_def)
  next
    case None
    let ?w1 = "in_between others 0 w" and ?w2 = "in_between others 1 (in_between others 0 w)"
    show thesis
    proof (cases "\<exists>district. homeDistrictOf env (as_applicantId command) ?w1 = Inr (Some district)")
      case False
      then show thesis using assms Inr None Unread
        by (auto simp: assign_def Let_def split: sum.splits option.splits)
    next
      case True
      then obtain district where d: "homeDistrictOf env (as_applicantId command) ?w1 = Inr (Some district)" by blast
      show thesis
      proof (cases "venueFor (as_campaignId command) district ?w2")
        case (Some venue)
        then show thesis using assms Inr None d Venue by (auto simp: assign_def Let_def)
      next
        case none: None
        let ?ctx = "case as_context command of Some c \<Rightarrow> c | None \<Rightarrow> newCorrelationContext (sn_ids env 0)"
        let ?es = "[no_venue_audit env ?ctx command district]"
        obtain w3 r3 where rec: "recordDeferral env ?es ?w2 = (w3, r3)" by (cases "recordDeferral env ?es ?w2")
        have "assign env others command w = (case (w3, r3) of
            (w3, Inl e) \<Rightarrow> (w3, Inl e) | (w3, Inr _) \<Rightarrow> (dispatch_in env ?es w3, Inr Scheduled_NO_VENUE))"
          by (simp only: assign_def Let_def Inr None d none rec sum.case option.case)
        then have split: "(w', res) = (case (w3, r3) of
            (w3, Inl e) \<Rightarrow> (w3, Inl e) | (w3, Inr _) \<Rightarrow> (dispatch_in env ?es w3, Inr Scheduled_NO_VENUE))"
          using assms by simp
        have "(w' = w3 \<or> w' = dispatch_in env ?es w3) \<and> (\<forall>e. res \<noteq> Inr (Scheduled_ASSIGNED e))"
          using split by (cases r3) simp_all
        then show thesis using Deferred [OF rec] by simp
      qed
    qed
  qed
qed

lemma assign_venue_carries:
  assumes "well_behaved others" and "assign_venue env others command ctx venue w = (w', res)"
  shows "carries_on w w'"
    and "res = Inr (Scheduled_ASSIGNED e) \<Longrightarrow> ledger_ok w \<Longrightarrow>
      e = slot_event_of env ctx command venue \<and>
      (\<exists>row. reservation_of (as_applicationId command) w' = Some row \<and> sr_slot_event row = Slot_announced e) \<and>
      accounted (Slot_announced e) (sw_outbox w')"
proof -
  let ?e = "slot_event_of env ctx command venue" and ?stage = "staged_for env ctx command venue"
  let ?input = "\<lparr>ri_applicationId = as_applicationId command, ri_agency = as_commandAgency command,
              ri_campaignId = as_campaignId command, ri_venueAssignmentId = vn_id venue, ri_slotEvent = ?e\<rparr>"
  obtain w1 out where run: "reserve env others ?input ?stage w = (w1, out)"
    by (cases "reserve env others ?input ?stage w")
  have names: "sv_applicationId (ri_slotEvent ?input) = ri_applicationId ?input"
      "sv_slotId (ri_slotEvent ?input) = ri_venueAssignmentId ?input" by (simp_all add: slot_event_of_def)
  note step = reserve_carries [OF assms(1) run names]
  have "w' = w1 \<or> (\<exists>es. w' = dispatch_in env es w1)"
    using assms(2) run by (auto simp: assign_venue_def Let_def split: sum.splits reserve_outcome.splits)
  then show "carries_on w w'" using step(1) dispatch_in_carries carries_on_trans by blast
  assume res: "res = Inr (Scheduled_ASSIGNED e)" and ok: "ledger_ok w"
  have hit: "out = Inr Reserve_RESERVED" "e = ?e" "w' = dispatch_in env (?stage Reserve_RESERVED) w1"
    using assms(2) run res by (auto simp: assign_venue_def Let_def split: sum.splits reserve_outcome.splits)
  note books = step(2) [OF hit(1) ok]
  have "outbox_ok (sw_outbox w1)" using step(1) ok by (simp add: carries_on_def ledger_ok_def)
  then have "accounted (Slot_announced e) (sw_outbox w')"
    using books dispatch_keeps [of "sw_outbox w1" "sched_kit env" "?stage Reserve_RESERVED" "sn_stamped env" "Slot_announced e"]
    unfolding hit(3) dispatch_in_def freshly_staged_def by (simp add: hit(2))
  moreover have "reservation_of (as_applicationId command) w' = Some (new_reservation ?input)"
    using books unfolding hit(3) by (simp add: reservation_of_def)
  ultimately show "e = ?e \<and>
      (\<exists>row. reservation_of (as_applicationId command) w' = Some row \<and> sr_slot_event row = Slot_announced e) \<and>
      accounted (Slot_announced e) (sw_outbox w')"
    using hit(2) by (simp add: new_reservation_def)
qed

lemma assign_carries:
  assumes "well_behaved others" and "assign env others command w = (w', res)"
  shows "carries_on w w'"
    and "res = Inr (Scheduled_ASSIGNED e) \<Longrightarrow> ledger_ok w \<Longrightarrow>
      (\<exists>ctx venue. e = slot_event_of env ctx command venue) \<and>
      (\<exists>row. reservation_of (as_applicationId command) w' = Some row \<and> sr_slot_event row = Slot_announced e) \<and>
      accounted (Slot_announced e) (sw_outbox w')"
proof -
  note others = well_behavedD(1) [OF assms(1)]
  have far: "carries_on w (in_between others 2 (in_between others 1 (in_between others 0 w)))"
      "carries_on w (in_between others 1 (in_between others 0 w))"
    using others carries_on_trans by blast+
  have "carries_on w w' \<and> (res = Inr (Scheduled_ASSIGNED e) \<longrightarrow> ledger_ok w \<longrightarrow>
      (\<exists>ctx venue. e = slot_event_of env ctx command venue) \<and>
      (\<exists>row. reservation_of (as_applicationId command) w' = Some row \<and> sr_slot_event row = Slot_announced e) \<and>
      accounted (Slot_announced e) (sw_outbox w'))" (is "_ \<and> (_ \<longrightarrow> _ \<longrightarrow> ?announced)")
    using assms(2)
  proof (cases rule: assign_cases)
    case (Deferred es ws)
    then have "carries_on w (fst ws)" using far(2) recordDeferral_carries carries_on_trans by (metis prod.collapse)
    then show ?thesis using Deferred(2,3) dispatch_in_carries carries_on_trans by blast
  next
    case (Venue ctx venue district)
    note step = assign_venue_carries [OF assms(1) Venue(3)]
    have "ledger_ok w \<Longrightarrow> ledger_ok (in_between others 2 (in_between others 1 (in_between others 0 w)))"
      using far(1) by (simp add: carries_on_def)
    with step(2) have "res = Inr (Scheduled_ASSIGNED e) \<longrightarrow> ledger_ok w \<longrightarrow> ?announced" by (metis (no_types, lifting))
    with carries_on_trans [OF far(1) step(1)] show ?thesis ..
  qed (use others dispatch_in_carries in simp_all)
  then show "carries_on w w'"
    and "res = Inr (Scheduled_ASSIGNED e) \<Longrightarrow> ledger_ok w \<Longrightarrow>
      (\<exists>ctx venue. e = slot_event_of env ctx command venue) \<and>
      (\<exists>row. reservation_of (as_applicationId command) w' = Some row \<and> sr_slot_event row = Slot_announced e) \<and>
      accounted (Slot_announced e) (sw_outbox w')"
    by blast+
qed

subsection \<open>Properties\<close>

text \<open>
  C18: A slot assignment, whatever other well-behaved transactions commit between its
  statements, leaves every venue counting exactly its reservations and within its capacity, at
  most one reservation per application, and every earlier reservation in place.
\<close>

theorem seats_are_never_oversold:
  assumes "assign env others command w = (w', res)" and "well_behaved others" and "ledger_ok w"
  shows "(\<forall>r \<in> set (sw_venues w').
       vn_registered_count r = int (length (filter (\<lambda>s. sr_venue_assignment_id s = vn_id r) (sw_reservations w'))) \<and>
       (\<forall>c. vn_capacity_limit r = Some c \<longrightarrow> vn_registered_count r \<le> c)) \<and>
     distinct (map sr_application_id (sw_reservations w')) \<and>
     (\<forall>i s. reservation_of i w = Some s \<longrightarrow> reservation_of i w' = Some s)"
  using assign_carries(1) [OF assms(2,1)] assms(3)
  unfolding carries_on_def ledger_ok_def [of w'] venue_ok_def seats_of_def kept_def by blast

text \<open>
  C19: Once an assignment has been answered ASSIGNED, every later call for that application,
  under any interference, re-announces the very same event and changes nothing in the ledger.
\<close>

theorem one_invitation_per_application:
  assumes "assign env others command w = (w1, Inr (Scheduled_ASSIGNED e))" and "well_behaved others" and "ledger_ok w"
    and "carries_on w1 w2" and "as_applicationId again = as_applicationId command"
  shows "assign env2 others2 again w2 =
    (dispatch_in env2 [Slot_announced e] w2, Inr (Scheduled_ALREADY_ASSIGNED e))"
proof -
  note step = assign_carries [OF assms(2,1)]
  obtain row where row: "reservation_of (as_applicationId command) w1 = Some row" "sr_slot_event row = Slot_announced e"
    using step(2) [OF refl assms(3)] by blast
  have "ledger_ok w1" using step(1) assms(3) by (simp add: carries_on_def)
  then have "reservation_of (as_applicationId command) w2 = Some row"
    using assms(4) row(1) by (simp add: carries_on_def kept_def)
  then have "reservationIn (as_applicationId again) w2 = Inr (Some e)"
    using row(2) assms(5) by (simp add: reservationIn_def)
  then show ?thesis by (simp add: assign_def)
qed

text \<open>
  C20: The announcement of an assigned slot is on the wire or waits unpublished in the outbox,
  and stays so whatever the dispatcher, the relay, the purge and later stagings do.
\<close>

theorem assigned_slot_is_announced:
  assumes "assign env others command w = (w1, Inr (Scheduled_ASSIGNED e))" and "well_behaved others" and "ledger_ok w"
    and "outbox_step\<^sup>*\<^sup>* (sw_outbox w1) ob"
  shows "Slot_announced e \<in> set (ob_wire ob) \<or>
    (\<exists>r \<in> set (ob_rows ob). ob_payload r = Slot_announced e \<and> ob_published_at r = None)"
proof -
  note step = assign_carries [OF assms(2,1)]
  have "outbox_ok (sw_outbox w1)" using step(1) assms(3) by (simp add: carries_on_def ledger_ok_def)
  moreover have "accounted (Slot_announced e) (sw_outbox w1)" using step(2) [OF refl assms(3)] by blast
  ultimately have "accounted (Slot_announced e) ob" using outbox_steps_keep [OF assms(4)] by blast
  then show ?thesis by (simp add: accounted_def)
qed

subsection \<open>From the reservation to the gate\<close>

text \<open>What application-service takes from the event (\<open>adapters/events/slot-assigned.consumer.ts\<close>).\<close>

definition slot_assignment_of :: "slot_event \<Rightarrow> slot_assignment_result" where
  "slot_assignment_of event =
     \<lparr>sa_applicationId = sv_applicationId event, sa_agency = sv_agency event,
      sa_venueAssignmentId = sv_slotId event, sa_assignedDistrict = sv_district event,
      sa_assignedVenueName = sv_venueName event, sa_examDate = sv_examDate event,
      sa_qrInvitationCode = sv_qrInvitationCode event,
      sa_qrSignedToken =
        (if take 13 (sv_qrSignedToken event) = ''USRP-SLOT.v1.'' then Some (sv_qrSignedToken event) else None),
      sa_correlationId = ev_correlationId (sv_envelope event)\<rparr>"

lemma minted_prefix: "take 13 (signSlotInvitation crypt key c) = ''USRP-SLOT.v1.''"
  by (simp add: signSlotInvitation_def signing_input_def SLOT_INVITATION_NS_def SLOT_INVITATION_VER_def Let_def)

lemma slot_projected:
  assumes "app_of db (sa_agency s) (sa_applicationId s) = Some r" and "app_status r = DOCUMENT_REVIEW_GREEN"
    and "\<not> qr_taken db (sa_agency s) (sa_applicationId s) (sa_qrInvitationCode s)"
  obtains r' where "app_of (fst (applySlotAssignment s db)) (sa_agency s) (sa_applicationId s) = Some r'"
    and "app_status r' = SLOT_ASSIGNED" and "qr_signed_token r' = sa_qrSignedToken s"
    and "qr_invitation_code r' = Some (sa_qrInvitationCode s)"
  using assms
  by (auto simp: applySlotAssignment_def alreadyAssigned_def sameStoredAssignment_def Let_def store_simps split: if_splits)

text \<open>The claims inside the token of an announced slot.\<close>

definition claims_of_event :: "sched_env \<Rightarrow> slot_event \<Rightarrow> slot_invitation_claims" where
  "claims_of_event env e =
     \<lparr>sc_keyId = sn_keyId env, sc_ticketId = sv_qrInvitationCode e, sc_applicationId = sv_applicationId e,
      sc_applicantId = sv_applicantId e, sc_agency = sv_agency e, sc_campaignId = sv_campaignId e,
      sc_slotId = sv_slotId e, sc_venueName = sv_venueName e, sc_examDate = sv_examDate e,
      sc_reportingTimeHour = sv_reportingTimeHour e, sc_issuedAt = sn_clock env 0,
      sc_expiresAt = sv_examDate e @ ''T23:59:59.000Z''\<rparr>"

lemma slot_event_token:
  "sv_qrSignedToken (slot_event_of env ctx command venue) =
     signSlotInvitation (sn_crypto env) (sn_privateKey env) (claims_of_event env (slot_event_of env ctx command venue))"
  by (simp add: slot_event_of_def claims_of_slot_def claims_of_event_def)

text \<open>
  The slot event an assignment produces, projected onto an application that is green,
  leaves it SLOT_ASSIGNED with the very ticket; the gate parses the signed token back to that
  ticket and, at the venue on the exam day, lets the holder through to the identity check; and a
  field score signed with the ticket matches.
\<close>

theorem scheduled_ticket_is_honoured:
  assumes "assign env others command w = (w1, Inr (Scheduled_ASSIGNED e))" and "well_behaved others" and "ledger_ok w"
    and "app_of db (sv_agency e) (sv_applicationId e) = Some r" and "app_status r = DOCUMENT_REVIEW_GREEN"
    and "\<not> qr_taken db (sv_agency e) (sv_applicationId e) (sv_qrInvitationCode e)"
    and "genuine_keys (sn_crypto env) lib (sn_privateKey env) pub (claims_json (claims_of_event env e))"
    and "date_parse lib (sv_examDate e @ ''T23:59:59.000Z'') = Some t" and "now < t" and "kigaliDate now = sv_examDate e"
    and "length (sv_qrSignedToken e) \<le> MAX_TICKET_LENGTH"
    and "sv_qrInvitationCode e \<noteq> []" and "length (sv_qrInvitationCode e) \<le> 64"
    and "UUID_RE (sv_applicationId e)" and "UUID_RE (sv_campaignId e)"
    and "js_trim (sv_venueName e) \<noteq> []" and "DATE_RE (sv_examDate e)"
  shows "\<exists>r' claims. app_of (fst (applySlotAssignment (slot_assignment_of e) db)) (sv_agency e) (sv_applicationId e) = Some r' \<and>
    app_status r' = SLOT_ASSIGNED \<and> ticketMatches (qr_invitation_code r') (sv_qrInvitationCode e) \<and>
    parseGateTicket lib (sv_qrSignedToken e) = Some claims \<and>
    ticketId claims = sv_qrInvitationCode e \<and> claim_applicationId claims = js_lower (sv_applicationId e) \<and>
    decideBeforeIdentity lib claims (sv_qrSignedToken e)
      (Some \<lparr>gr_status = app_status r', storedToken = qr_signed_token r', alreadyAdmitted_fact = False\<rparr>)
      (sv_venueName e) now = CHECK_IDENTITY"
proof -
  obtain ctx venue where e: "e = slot_event_of env ctx command venue"
    using assign_carries(2) [OF assms(2,1) refl assms(3)] by blast
  define c where "c = claims_of_event env e"
  have token: "sv_qrSignedToken e = signSlotInvitation (sn_crypto env) (sn_privateKey env) c"
    unfolding c_def e by (rule slot_event_token)
  have fields: "sc_ticketId c = sv_qrInvitationCode e" "sc_applicationId c = sv_applicationId e"
      "sc_campaignId c = sv_campaignId e" "sc_venueName c = sv_venueName e" "sc_examDate c = sv_examDate e"
      "sc_expiresAt c = sv_examDate e @ ''T23:59:59.000Z''"
    by (simp_all add: c_def claims_of_event_def)
  obtain r' where r': "app_of (fst (applySlotAssignment (slot_assignment_of e) db)) (sv_agency e) (sv_applicationId e) = Some r'"
      "app_status r' = SLOT_ASSIGNED" "qr_signed_token r' = Some (sv_qrSignedToken e)"
      "qr_invitation_code r' = Some (sv_qrInvitationCode e)"
    using slot_projected [of db "slot_assignment_of e" r] assms(4-6) minted_prefix token
    by (auto simp: slot_assignment_of_def)
  let ?read = "\<lparr>ticketId = sc_ticketId c, claim_applicationId = js_lower (sc_applicationId c), claim_agency = sc_agency c,
            claim_campaignId = sc_campaignId c, claim_venueName = sc_venueName c, examDate = sc_examDate c,
            reportingTimeHour = sc_reportingTimeHour c, expiresAt = sc_expiresAt c\<rparr>"
  have "parseGateTicket lib (sv_qrSignedToken e) = Some ?read"
    unfolding token
  proof (rule conjunct2 [OF minted_round_trip])
    show "genuine_keys (sn_crypto env) lib (sn_privateKey env) pub (claims_json c)" unfolding c_def by (rule assms(7))
    show "length (signSlotInvitation (sn_crypto env) (sn_privateKey env) c) \<le> MAX_TICKET_LENGTH"
      using assms(11) unfolding token .
  qed (use assms(8,9,12-17) in \<open>simp_all only: fields not_False_eq_True\<close>)
  moreover have "decideBeforeIdentity lib ?read (sv_qrSignedToken e)
      (Some \<lparr>gr_status = app_status r', storedToken = qr_signed_token r', alreadyAdmitted_fact = False\<rparr>)
      (sv_venueName e) now = CHECK_IDENTITY"
    using r'(2,3) assms(8-10) by (simp add: check_identity_iff fields ADMISSIBLE_STATUSES_def)
  ultimately show ?thesis
    using r' by (intro exI [of _ r'] exI [of _ ?read]) (simp add: ticketMatches_def fields)
qed


subsection \<open>A venue with one seat\<close>

definition gate_env :: sched_env where
  "gate_env =
     \<lparr>sn_decrypt = Some, sn_crypto = plain_crypto, sn_privateKey = ''priv'', sn_keyId = ''k1'', sn_ticket = ''T'',
      sn_ids = (\<lambda>n. replicate (n + 1) CHR ''i''), sn_clock = (\<lambda>_. ''now''), sn_publish = (\<lambda>_ _. Some ''down''),
      sn_stamped = (\<lambda>_. True)\<rparr>"

definition one_seat :: sched_world where
  "one_seat =
     \<lparr>sw_venues = [\<lparr>vn_id = ''v1'', vn_campaign_id = ''bbbbbbbb-bbbb-bbbb-bbbb-bbbbbbbbbbbb'', vn_district = ''GASABO'',
         vn_venue_name = ''Amahoro'', vn_exam_date = ''2026-08-03'', vn_reporting_time_hour = 8,
         vn_capacity_limit = Some 1, vn_registered_count = 0, vn_is_active = True\<rparr>],
      sw_reservations = [],
      sw_homes = (\<lambda>_. Some \<lparr>encrypted_home_district = '' gasabo'', home_deleted = False\<rparr>),
      sw_outbox = \<lparr>ob_rows = [], ob_next_id = 1, ob_now = 0, ob_tries = 0, ob_wire = []\<rparr>\<rparr>"

definition applicant :: "uuid \<Rightarrow> assign_slot_command" where
  "applicant i =
     \<lparr>as_applicationId = i, as_applicantId = ''citizen'', as_commandAgency = RDF,
      as_campaignId = ''bbbbbbbb-bbbb-bbbb-bbbb-bbbbbbbbbbbb'', as_context = None\<rparr>"

definition app1 :: uuid where "app1 = ''aaaaaaaa-aaaa-aaaa-aaaa-aaaaaaaaaaaa''"

abbreviation first_call :: "sched_world \<times> (scheduling_error + assign_slot_outcome)" where
  "first_call \<equiv> assign gate_env alone (applicant app1) one_seat"

definition announced_slot :: slot_event where
  "announced_slot =
     slot_event_of gate_env (newCorrelationContext ''i'') (applicant app1) (hd (sw_venues one_seat))"

lemma first_call_assigned: "first_call = (fst first_call, Inr (Scheduled_ASSIGNED announced_slot))"
proof -
  have "(case snd first_call of Inr (Scheduled_ASSIGNED e) \<Rightarrow> e = announced_slot | _ \<Rightarrow> False)" by code_simp
  then have "snd first_call = Inr (Scheduled_ASSIGNED announced_slot)"
    by (auto split: sum.splits assign_slot_outcome.splits)
  then show ?thesis by (metis prod.collapse)
qed

lemma one_seat_ok: "ledger_ok one_seat"
  by (simp add: one_seat_def ledger_ok_def venue_ok_def seats_of_def outbox_ok_def)

theorem seats_are_never_oversold_witness:
  "vn_registered_count (hd (sw_venues (fst (assign gate_env alone (applicant ''second'') (fst first_call))))) \<le> 1"
proof -
  let ?w = "fst first_call" and ?w' = "fst (assign gate_env alone (applicant ''second'') (fst first_call))"
  have ok: "ledger_ok ?w"
    using assign_carries(1) [OF alone_well_behaved first_call_assigned] one_seat_ok by (simp add: carries_on_def)
  have "case sw_venues ?w' of [] \<Rightarrow> False | r # _ \<Rightarrow> vn_capacity_limit r = Some 1" by code_simp
  then have one: "sw_venues ?w' \<noteq> [] \<and> vn_capacity_limit (hd (sw_venues ?w')) = Some 1" by (auto split: list.splits)
  note bounds = seats_are_never_oversold [OF surjective_pairing alone_well_behaved ok, of gate_env "applicant ''second''"]
  have "hd (sw_venues ?w') \<in> set (sw_venues ?w')" using one by (intro hd_in_set) blast
  from bspec [OF conjunct1 [OF bounds] this] show ?thesis using one by blast
qed

theorem one_invitation_per_application_witness:
  "snd (assign gate_env alone (applicant app1) (fst first_call)) = Inr (Scheduled_ALREADY_ASSIGNED announced_slot)"
  using one_invitation_per_application [OF first_call_assigned alone_well_behaved one_seat_ok carries_on_refl refl,
      of gate_env alone]
  by simp

theorem assigned_slot_is_announced_witness:
  "Slot_announced announced_slot \<in> set (ob_wire (sw_outbox (fst first_call))) \<or>
   (\<exists>r \<in> set (ob_rows (sw_outbox (fst first_call))). ob_payload r = Slot_announced announced_slot \<and> ob_published_at r = None)"
  by (rule assigned_slot_is_announced [OF first_call_assigned alone_well_behaved one_seat_ok rtranclp.rtrancl_refl])

definition slot_library :: js_library where
  "slot_library =
     \<lparr>parse_base64url_json = (\<lambda>_. Some (sortValue (claims_json (claims_of_event gate_env announced_slot)))),
      date_parse = (\<lambda>_. Some 1785801599000), normalize_nfc = (\<lambda>s. s)\<rparr>"

definition green_db :: "string database" where
  "green_db = sample_db (empty_schema\<lparr>applications := [(app1, sample_row DOCUMENT_REVIEW_GREEN)]\<rparr>)"

lemma announced_fields:
  "sv_agency announced_slot = RDF" "sv_applicationId announced_slot = app1" "sv_examDate announced_slot = ''2026-08-03''"
  "sv_qrInvitationCode announced_slot = ''T''" "sv_venueName announced_slot = ''Amahoro''"
  "sv_campaignId announced_slot = ''bbbbbbbb-bbbb-bbbb-bbbb-bbbbbbbbbbbb''"
  by (simp_all add: announced_slot_def slot_event_of_def applicant_def one_seat_def gate_env_def)

theorem scheduled_ticket_is_honoured_witness:
  "\<exists>r'. app_of (fst (applySlotAssignment (slot_assignment_of announced_slot) green_db)) RDF app1 = Some r' \<and>
     app_status r' = SLOT_ASSIGNED"
proof -
  have "app_of green_db RDF app1 = Some (sample_row DOCUMENT_REVIEW_GREEN)"
    by (simp add: green_db_def)
  moreover have "\<not> qr_taken green_db RDF app1 ''T''" by code_simp
  moreover have "genuine_keys (sn_crypto gate_env) slot_library (sn_privateKey gate_env) ''pub''
      (claims_json (claims_of_event gate_env announced_slot))"
    by (simp add: genuine_keys_def plain_crypto_def slot_library_def gate_env_def)
  moreover have "date_parse slot_library (''2026-08-03'' @ ''T23:59:59.000Z'') = Some 1785801599000"
    by (simp add: slot_library_def)
  moreover have "kigaliDate 1785744000000 = ''2026-08-03''" by code_simp
  moreover have "length (sv_qrSignedToken announced_slot) \<le> MAX_TICKET_LENGTH" by code_simp
  moreover have "UUID_RE app1" "UUID_RE ''bbbbbbbb-bbbb-bbbb-bbbb-bbbbbbbbbbbb''" "js_trim ''Amahoro'' \<noteq> []"
    "DATE_RE ''2026-08-03''" by code_simp+
  ultimately show ?thesis
    using scheduled_ticket_is_honoured [OF first_call_assigned alone_well_behaved one_seat_ok, of green_db
        "sample_row DOCUMENT_REVIEW_GREEN" slot_library "''pub''" 1785801599000 1785744000000]
    unfolding announced_fields by auto
qed

end
