(* ===== verification/Credentials.thy ===== *)
theory Credentials
  imports Signing "HOL-Library.Word"
begin

text \<open>
  What a citizen presents to sign in: the phone number (\<open>identity-service/src/domain/rwanda-phone.ts\<close>),
  the onboarding token (\<open>domain/onboarding-token.ts\<close>) and the digests of
  \<open>packages/shared-security/src/hashing.ts\<close>: the National ID key, the phone hash and the scrypt
  password digest. HMAC, scrypt, the base64 codec and \<open>Number(text)\<close> are parameters.
\<close>

record key_library = crypto_library +
  hmac_sha256_hex :: "string \<Rightarrow> string \<Rightarrow> string"        \<comment> \<open>key, data\<close>
  scrypt :: "string \<Rightarrow> nat list \<Rightarrow> int \<Rightarrow> int \<Rightarrow> int \<Rightarrow> nat list option"  \<comment> \<open>password, salt, N, r, p; None when it throws\<close>
  base64_text :: "nat list \<Rightarrow> string"
  base64_bytes :: "string \<Rightarrow> nat list"
  to_number :: "string \<Rightarrow> real option"                   \<comment> \<open>\<open>Number(text)\<close>; None for NaN and the infinities\<close>

subsection \<open>Phone numbers\<close>

definition SUPPORTED_MSISDN_PREFIXES :: "string list" where
  "SUPPORTED_MSISDN_PREFIXES = [''72'', ''73'', ''78'', ''79'']"

text \<open>\<open>raw.replace(/[\s().-]/g, '')\<close>\<close>

definition bare_number :: "string \<Rightarrow> string" where
  "bare_number raw = filter (\<lambda>c. \<not> (is_js_space c \<or> c \<in> set ''().-'')) raw"

text \<open>A prefix and then exactly nine digits.\<close>

definition nine_digits :: "string \<Rightarrow> bool" where
  "nine_digits s \<longleftrightarrow> length s = 9 \<and> list_all is_digit s"

definition nine_after :: "string \<Rightarrow> string \<Rightarrow> bool" where
  "nine_after p s \<longleftrightarrow> take (length p) s = p \<and> nine_digits (drop (length p) s)"

definition drop_trunk_zero :: "string \<Rightarrow> string" where
  "drop_trunk_zero s =
     (if nine_after ''+2500'' s then ''+250'' @ drop 5 s
      else if nine_after ''2500'' s then ''250'' @ drop 4 s
      else s)"

definition E164_prefix :: "string \<Rightarrow> string option" where
  "E164_prefix candidate = (if nine_after ''+250'' candidate then Some (take 2 (drop 4 candidate)) else None)"

definition normalizeRwandanMsisdn :: "string \<Rightarrow> string option" where
  "normalizeRwandanMsisdn raw =
     (let compact = bare_number raw;
          compact = (if take 2 compact = ''00'' then CHR ''+'' # drop 2 compact else compact);
          compact = drop_trunk_zero compact;
          national =
            (if nine_after ''+250'' compact then Some (drop 4 compact)
             else if nine_after ''250'' compact then Some (drop 3 compact)
             else if nine_after ''0'' compact then Some (drop 1 compact)
             else None)
      in
      (case national of
         None \<Rightarrow> None
       | Some n \<Rightarrow>
           let candidate = ''+250'' @ n in
           (case E164_prefix candidate of
              None \<Rightarrow> None
            | Some p \<Rightarrow> if p \<in> set SUPPORTED_MSISDN_PREFIXES then Some candidate else None)))"

text \<open>The spellings the module documents, each in front of the subscriber number.\<close>

definition deliverable :: "string \<Rightarrow> bool" where
  "deliverable n \<longleftrightarrow> nine_digits n \<and> take 2 n \<in> set SUPPORTED_MSISDN_PREFIXES"

definition spelling_prefixes :: "string list" where
  "spelling_prefixes = [''0'', ''250'', ''+250'', ''00250'', ''2500'', ''+2500'', ''002500'']"

lemma nine_after_append [simp]: "nine_after p (p @ n) = nine_digits n"
  by (simp add: nine_after_def)

lemma nine_after_split: "nine_after p s \<longleftrightarrow> (\<exists>n. s = p @ n \<and> nine_digits n)"
  by (metis append_eq_conv_conj nine_after_def)

lemma deliverable_shape:
  assumes "deliverable n" obtains b rest where "n = CHR ''7'' # b # rest" "length rest = 7" "list_all is_digit rest"
    "b \<in> set ''2389''"
  using assms
  by (auto simp: deliverable_def nine_digits_def SUPPORTED_MSISDN_PREFIXES_def eval_nat_numeral length_Suc_conv
      simp del: length_0_conv)

lemma nine_after_Cons [simp]:
  "nine_after [] s = nine_digits s"
  "nine_after (a # p) (b # s) = (a = b \<and> nine_after p s)"
  "nine_after (a # p) [] = False"
  by (auto simp: nine_after_def)

lemma nine_digits_length: "nine_digits s \<Longrightarrow> length s = 9"
  by (simp add: nine_digits_def)

lemma normalize_spelling:
  assumes "deliverable n" and "p \<in> set spelling_prefixes" and "bare_number raw = p @ n"
  shows "normalizeRwandanMsisdn raw = Some (''+250'' @ n)"
proof -
  have n: "nine_digits n" and sup: "take 2 n \<in> set SUPPORTED_MSISDN_PREFIXES" using assms(1) by (auto simp: deliverable_def)
  obtain b rest where shape: "n = CHR ''7'' # b # rest" "length rest = 7"
    using deliverable_shape [OF assms(1)] by metis
  have no: "\<not> nine_digits rest" "\<not> nine_digits (b # rest)" "\<not> nine_digits (c # n)" "\<not> nine_digits (c # d # n)" "\<not> nine_digits (c # d # e # n)" for c d e
    using shape by (auto simp: nine_digits_def)
  have spelled: "drop_trunk_zero (''+250'' @ n) = ''+250'' @ n" "drop_trunk_zero (''250'' @ n) = ''250'' @ n"
    "drop_trunk_zero (''0'' @ n) = ''0'' @ n" "drop_trunk_zero (''+2500'' @ n) = ''+250'' @ n" "drop_trunk_zero (''2500'' @ n) = ''250'' @ n"
    using n no by (simp_all add: drop_trunk_zero_def shape)
  have cand: "E164_prefix (''+250'' @ n) = Some (take 2 n)" using n by (simp add: E164_prefix_def)
  consider "p = ''0''" | "p = ''250''" | "p = ''+250''" | "p = ''00250''" | "p = ''2500''" | "p = ''+2500''" | "p = ''002500''"
    using assms(2) by (auto simp: spelling_prefixes_def)
  then show ?thesis
    using spelled cand sup n by cases (simp_all add: normalizeRwandanMsisdn_def assms(3) Let_def shape(1))
qed

lemma normalized_spelling:
  assumes "normalizeRwandanMsisdn raw = Some c"
  shows "\<exists>n p. c = ''+250'' @ n \<and> deliverable n \<and> p \<in> set spelling_prefixes \<and> bare_number raw = p @ n"
proof -
  define s where "s = bare_number raw"
  define t where "t = (if take 2 s = ''00'' then CHR ''+'' # drop 2 s else s)"
  obtain p n where spelled: "p \<in> {''+250'', ''250'', ''0''}" "drop_trunk_zero t = p @ n" "nine_digits n"
      and c: "c = ''+250'' @ n" and sup: "take 2 n \<in> set SUPPORTED_MSISDN_PREFIXES"
    using assms unfolding normalizeRwandanMsisdn_def Let_def s_def [symmetric] t_def [symmetric]
    by (auto simp: nine_after_split E164_prefix_def simp del: nine_after_Cons split: if_splits)
  have n: "deliverable n" using spelled sup by (simp add: deliverable_def)
  have t: "t \<in> {''+250'' @ n, ''250'' @ n, ''0'' @ n, ''+2500'' @ n, ''2500'' @ n}"
    using spelled(1,2) unfolding drop_trunk_zero_def
    by (auto simp: nine_after_split nine_digits_def simp del: nine_after_Cons split: if_splits)
  have "s \<in> (\<lambda>p. p @ n) ` set spelling_prefixes"
  proof (cases "take 2 s = ''00''")
    case True
    then have "s = ''00'' @ drop 2 s" "t = CHR ''+'' # drop 2 s" by (metis append_take_drop_id, simp add: t_def)
    with t show ?thesis by (auto simp: spelling_prefixes_def)
  next
    case False
    with t show ?thesis by (auto simp: t_def spelling_prefixes_def)
  qed
  with c n show ?thesis by (auto simp: s_def)
qed

lemma bare_canonical: "deliverable n \<Longrightarrow> bare_number (''+250'' @ n) = ''+250'' @ n"
proof -
  assume "deliverable n"
  then have digits: "list_all is_digit n" by (simp add: deliverable_def nine_digits_def)
  have "\<not> (is_js_space c \<or> c \<in> set ''().-'')" if "is_digit c" for c
    using that by (auto simp: is_digit_def is_js_space_def Let_def)
  with digits have "filter (\<lambda>c. \<not> (is_js_space c \<or> c \<in> set ''().-'')) n = n"
    by (simp add: filter_id_conv list_all_iff)
  then show ?thesis by (simp add: bare_number_def is_js_space_def)
qed

text \<open>
  A phone number is accepted exactly when it is one of the documented spellings of a
  supported subscriber number, the answer is that number in E.164 form, and normalising it again
  changes nothing.
\<close>

theorem phone_spellings_agree:
  "(normalizeRwandanMsisdn raw = Some c \<longleftrightarrow>
      (\<exists>n p. c = ''+250'' @ n \<and> deliverable n \<and> p \<in> set spelling_prefixes \<and> bare_number raw = p @ n)) \<and>
   (case normalizeRwandanMsisdn raw of None \<Rightarrow> True | Some d \<Rightarrow> normalizeRwandanMsisdn d = Some d)"
proof
  show "normalizeRwandanMsisdn raw = Some c \<longleftrightarrow>
      (\<exists>n p. c = ''+250'' @ n \<and> deliverable n \<and> p \<in> set spelling_prefixes \<and> bare_number raw = p @ n)"
    using normalize_spelling normalized_spelling by metis
  show "case normalizeRwandanMsisdn raw of None \<Rightarrow> True | Some d \<Rightarrow> normalizeRwandanMsisdn d = Some d"
  proof (cases "normalizeRwandanMsisdn raw")
    case (Some d)
    then obtain n where d: "d = ''+250'' @ n" "deliverable n" using normalized_spelling by metis
    then have "bare_number d = ''+250'' @ n" using bare_canonical by metis
    with d have "normalizeRwandanMsisdn d = Some d"
      using normalize_spelling [of n "''+250''" d] by (simp add: spelling_prefixes_def)
    with Some show ?thesis by simp
  qed simp
qed

subsection \<open>National IDs\<close>

definition isValidRwandanNationalId :: "string \<Rightarrow> bool" where
  "isValidRwandanNationalId raw \<longleftrightarrow> length (js_trim raw) = 16 \<and> list_all is_digit (js_trim raw)"

text \<open>\<open>None\<close> is the thrown \<open>InvalidNationalIdError\<close>.\<close>

definition hashNationalId :: "'a key_library_scheme \<Rightarrow> string \<Rightarrow> string \<Rightarrow> string option" where
  "hashNationalId crypt rawNationalId hmacKey =
     (let normalized = js_trim rawNationalId in
      if \<not> isValidRwandanNationalId normalized then None else Some (hmac_sha256_hex crypt hmacKey normalized))"

definition hashPhoneNumber :: "'a key_library_scheme \<Rightarrow> string \<Rightarrow> string \<Rightarrow> string" where
  "hashPhoneNumber crypt rawPhone hmacKey =
     hmac_sha256_hex crypt hmacKey (filter (\<lambda>c. \<not> (is_js_space c \<or> c = CHR ''-'')) rawPhone)"

subsection \<open>Passwords\<close>

definition SCRYPT_N :: int where "SCRYPT_N = 16384"
definition SCRYPT_R :: int where "SCRYPT_R = 8"
definition SCRYPT_P :: int where "SCRYPT_P = 1"

fun joined :: "char \<Rightarrow> string list \<Rightarrow> string" where
  "joined d [] = []"
| "joined d [s] = s"
| "joined d (s # t # ss) = s @ d # joined d (t # ss)"

text \<open>The salt is the one \<open>randomBytes\<close> drew; \<open>None\<close> is a thrown error of \<open>scryptSync\<close>.\<close>

definition hashPassword :: "'a key_library_scheme \<Rightarrow> nat list \<Rightarrow> string \<Rightarrow> string option" where
  "hashPassword crypt salt password =
     (case scrypt crypt password salt SCRYPT_N SCRYPT_R SCRYPT_P of
        None \<Rightarrow> None
      | Some digest \<Rightarrow>
          Some (joined CHR ''$''
            [''scrypt'', show_int SCRYPT_N, show_int SCRYPT_R, show_int SCRYPT_P,
             base64_text crypt salt, base64_text crypt digest]))"

text \<open>\<open>Number.isInteger\<close> of \<open>Number(text)\<close>, as an integer.\<close>

definition integer_of_text :: "'a key_library_scheme \<Rightarrow> string \<Rightarrow> int option" where
  "integer_of_text crypt text =
     (case to_number crypt text of None \<Rightarrow> None | Some x \<Rightarrow> if of_int \<lfloor>x\<rfloor> = x then Some \<lfloor>x\<rfloor> else None)"

text \<open>JavaScript's \<open>&\<close> works on the operands modulo \<open>2^32\<close>.\<close>

definition power_of_two_bits :: "int \<Rightarrow> bool" where
  "power_of_two_bits n \<longleftrightarrow> and (word_of_int n :: 32 word) (word_of_int (n - 1)) = 0"

definition verifyPassword :: "'a key_library_scheme \<Rightarrow> string \<Rightarrow> string \<Rightarrow> bool" where
  "verifyPassword crypt password encoded =
     (case split_on CHR ''$'' encoded of
        [scheme, nRaw, rRaw, pRaw, saltB64, hashB64] \<Rightarrow>
          if scheme \<noteq> ''scrypt'' then False
          else
            (case (integer_of_text crypt nRaw, integer_of_text crypt rRaw, integer_of_text crypt pRaw) of
               (Some n, Some r, Some p) \<Rightarrow>
                 if n \<le> 1 \<or> \<not> power_of_two_bits n \<or> r \<le> 0 \<or> p \<le> 0 then False
                 else
                   let salt = base64_bytes crypt saltB64; expected = base64_bytes crypt hashB64 in
                   if length salt = 0 \<or> length expected = 0 then False
                   else
                     (case scrypt crypt password salt n r p of
                        None \<Rightarrow> False
                      | Some actual \<Rightarrow> if length actual \<noteq> length expected then False else actual = expected)
             | _ \<Rightarrow> False)
      | _ \<Rightarrow> False)"

text \<open>
  What the digests rely on: the base64 codec round-trips without a \<open>$\<close> and \<open>Number\<close> reads a printed
  whole number back.
\<close>

definition faithful_codec :: "'a key_library_scheme \<Rightarrow> bool" where
  "faithful_codec crypt \<longleftrightarrow>
     (\<forall>bs. base64_bytes crypt (base64_text crypt bs) = bs) \<and> (\<forall>bs. CHR ''$'' \<notin> set (base64_text crypt bs)) \<and>
     (\<forall>n. \<bar>n\<bar> < 10 ^ 15 \<longrightarrow> to_number crypt (show_int n) = Some (of_int n))"

lemma split_joined: "(\<And>s. s \<in> set (t # ss) \<Longrightarrow> d \<notin> set s) \<Longrightarrow> split_on d (joined d (t # ss)) = t # ss"
proof (induction ss arbitrary: t)
  case Nil
  then show ?case by (simp add: split_on_none)
next
  case (Cons u us)
  then have "split_on d (joined d (u # us)) = u # us" "d \<notin> set t" by simp_all
  then show ?case by (simp add: split_on_append)
qed

lemma cost_facts:
  assumes "faithful_codec crypt"
  shows "integer_of_text crypt (show_int SCRYPT_N) = Some 16384" "integer_of_text crypt (show_int SCRYPT_R) = Some 8"
    "integer_of_text crypt (show_int SCRYPT_P) = Some 1" "power_of_two_bits 16384"
  using assms by (simp_all add: faithful_codec_def integer_of_text_def SCRYPT_N_def SCRYPT_R_def SCRYPT_P_def power_of_two_bits_def)

lemma decimal_has_no_dollar: "CHR ''$'' \<notin> set (decimal n)"
proof -
  have "\<not> is_digit (CHR ''$'')" by (simp add: is_digit_def)
  then show ?thesis using decimal_digits [of n] by (auto simp: list_all_iff)
qed

lemma cost_text: "CHR ''$'' \<notin> set (show_int SCRYPT_N)" "CHR ''$'' \<notin> set (show_int SCRYPT_R)" "CHR ''$'' \<notin> set (show_int SCRYPT_P)"
  using decimal_has_no_dollar by (auto simp: show_int_def SCRYPT_N_def SCRYPT_R_def SCRYPT_P_def)

lemma password_digest_accepts:
  assumes "faithful_codec crypt" and "hashPassword crypt salt password = Some encoded" and "salt \<noteq> []"
    and "scrypt crypt password salt 16384 8 1 \<noteq> Some []"
  shows "verifyPassword crypt guess encoded \<longleftrightarrow>
    scrypt crypt guess salt 16384 8 1 = scrypt crypt password salt 16384 8 1"
proof -
  obtain digest where digest: "scrypt crypt password salt 16384 8 1 = Some digest"
      and encoded: "encoded = joined CHR ''$'' [''scrypt'', show_int SCRYPT_N, show_int SCRYPT_R, show_int SCRYPT_P,
        base64_text crypt salt, base64_text crypt digest]"
    using assms(2) by (auto simp: hashPassword_def SCRYPT_N_def SCRYPT_R_def SCRYPT_P_def split: option.splits)
  have "split_on CHR ''$'' encoded = [''scrypt'', show_int SCRYPT_N, show_int SCRYPT_R, show_int SCRYPT_P,
        base64_text crypt salt, base64_text crypt digest]"
    unfolding encoded
    by (rule split_joined) (use assms(1) cost_text in \<open>auto simp: faithful_codec_def\<close>)
  with assms digest show ?thesis
    by (auto simp: verifyPassword_def cost_facts [OF assms(1)] faithful_codec_def Let_def split: option.splits)
qed

subsection \<open>Onboarding tokens\<close>

definition ONBOARDING_TOKEN_TTL_SECONDS :: int where "ONBOARDING_TOKEN_TTL_SECONDS = 15 * 60"
definition PURPOSE :: string where "PURPOSE = ''usrp:onboarding-token:v1''"
definition TOKEN_VERSION :: real where "TOKEN_VERSION = 1"

record onboarding_payload =
  op_v :: real
  op_sub :: string
  op_exp :: int

definition signingKey :: "'a key_library_scheme \<Rightarrow> string \<Rightarrow> string" where
  "signingKey crypt rootKey = hmac_sha256_hex crypt rootKey PURPOSE"

definition onboarding_json :: "onboarding_payload \<Rightarrow> json" where
  "onboarding_json p = JObj [(''v'', JNum (op_v p)), (''sub'', JStr (op_sub p)), (''exp'', JNum (of_int (op_exp p)))]"

text \<open>The token and the instant it expires.\<close>

definition issueOnboardingToken ::
  "'a key_library_scheme \<Rightarrow> string \<Rightarrow> uuid \<Rightarrow> instant \<Rightarrow> int \<Rightarrow> string \<times> instant" where
  "issueOnboardingToken crypt rootKey applicantId now ttlSeconds =
     (let ex = now div 1000 + ttlSeconds;
          body = base64url_encode crypt
                   (stringify (number_text crypt) (onboarding_json \<lparr>op_v = TOKEN_VERSION, op_sub = applicantId, op_exp = ex\<rparr>));
          mac = hmac_sha256_hex crypt (signingKey crypt rootKey) body in
      (body @ ''.'' @ mac, ex * 1000))"

text \<open>\<open>s.lastIndexOf(c)\<close>\<close>

definition last_index_of :: "'a list \<Rightarrow> 'a \<Rightarrow> int" where
  "last_index_of xs x = (let i = index_of (rev xs) x in if i < 0 then -1 else int (length xs) - 1 - i)"

definition verifyOnboardingToken ::
  "'a key_library_scheme \<Rightarrow> js_library \<Rightarrow> string \<Rightarrow> string \<Rightarrow> instant \<Rightarrow> string option" where
  "verifyOnboardingToken crypt lib rootKey token now =
     (if length token = 0 \<or> length token > 512 then None
      else
        let dot = index_of token CHR ''.'' in
        if dot \<le> 0 \<or> dot \<noteq> last_index_of token CHR ''.'' then None
        else
          let body = take (nat dot) token; mac = drop (nat dot + 1) token in
          if \<not> timingSafeEqualHex (hmac_sha256_hex crypt (signingKey crypt rootKey) body) mac then None
          else
            (case parse_base64url_json lib body of
               None \<Rightarrow> None
             | Some parsed \<Rightarrow>
                 (case (json_get parsed ''v'', json_get parsed ''sub'', json_get parsed ''exp'') of
                    (Some (JNum v), Some (JStr sub), Some (JNum ex)) \<Rightarrow>
                      if v \<noteq> TOKEN_VERSION then None
                      else if ex \<le> of_int (now div 1000) then None
                      else Some sub
                  | _ \<Rightarrow> None)))"

text \<open>
  What issuer and verifier share: base64url writes at least one character and no dot, and decodes to
  the value that was serialised; an HMAC is printed as hexadecimal digits.
\<close>

definition faithful_tokens :: "'a key_library_scheme \<Rightarrow> js_library \<Rightarrow> json \<Rightarrow> bool" where
  "faithful_tokens crypt lib v \<longleftrightarrow>
     (\<forall>s. CHR ''.'' \<notin> set (base64url_encode crypt s) \<and> base64url_encode crypt s \<noteq> []) \<and>
     parse_base64url_json lib (base64url_encode crypt (stringify (number_text crypt) v)) = Some v \<and>
     (\<forall>k s. CHR ''.'' \<notin> set (hmac_sha256_hex crypt k s) \<and> hex_bytes (hmac_sha256_hex crypt k s) \<noteq> [])"

lemma index_of_split: "d \<notin> set s \<Longrightarrow> index_of (s @ d # t) d = int (length s)"
  by (induction s) auto

lemma last_index_of_split:
  assumes "d \<notin> set t" shows "last_index_of (s @ d # t) d = int (length s)"
proof -
  have "index_of (rev (s @ d # t)) d = int (length (rev t))"
    using index_of_split [of d "rev t" "rev s"] assms by simp
  then show ?thesis by (simp add: last_index_of_def)
qed

lemma timingSafeEqualHex_refl: "hex_bytes a \<noteq> [] \<Longrightarrow> timingSafeEqualHex a a"
  by (simp add: timingSafeEqualHex_def)

text \<open>
  An onboarding token names the applicant it was issued for at every instant before the expiry
  announced with it, and nobody from that instant on.
\<close>

theorem onboarding_token_reads_back:
  assumes "faithful_tokens crypt lib (onboarding_json \<lparr>op_v = TOKEN_VERSION, op_sub = applicant, op_exp = issued div 1000 + ttl\<rparr>)"
    and "issueOnboardingToken crypt key applicant issued ttl = (token, expires)"
    and "length token \<le> 512"
  shows "verifyOnboardingToken crypt lib key token now = (if now < expires then Some applicant else None)"
proof -
  define ex where "ex = issued div 1000 + ttl"
  define p where "p = \<lparr>op_v = TOKEN_VERSION, op_sub = applicant, op_exp = ex\<rparr>"
  define body where "body = base64url_encode crypt (stringify (number_text crypt) (onboarding_json p))"
  define mac where "mac = hmac_sha256_hex crypt (signingKey crypt key) body"
  have issued: "token = body @ CHR ''.'' # mac" "expires = ex * 1000"
    using assms(2) by (auto simp: issueOnboardingToken_def Let_def p_def body_def mac_def ex_def)
  have shape: "CHR ''.'' \<notin> set body" "body \<noteq> []" "CHR ''.'' \<notin> set mac" "hex_bytes mac \<noteq> []"
      and read: "parse_base64url_json lib body = Some (onboarding_json p)"
    using assms(1) by (simp_all add: faithful_tokens_def body_def mac_def p_def ex_def)
  have "(real_of_int ex \<le> of_int (now div 1000)) = (expires \<le> now)"
    unfolding issued(2) of_int_le_iff by linarith
  with shape read assms(3) show ?thesis
    by (simp add: verifyOnboardingToken_def issued(1) index_of_split last_index_of_split mac_def [symmetric]
        timingSafeEqualHex_refl Let_def onboarding_json_def p_def nat_add_distrib)
qed

text \<open>A library of parameters that keeps every contract: bytes in unary, numbers in decimal.\<close>

definition unary_text :: "nat list \<Rightarrow> string" where
  "unary_text bs = concat (map (\<lambda>n. replicate n CHR ''a'' @ ''b'') bs)"

fun unary_bytes :: "nat \<Rightarrow> string \<Rightarrow> nat list" where
  "unary_bytes n [] = []"
| "unary_bytes n (c # cs) = (if c = CHR ''a'' then unary_bytes (Suc n) cs else n # unary_bytes 0 cs)"

definition signed_value :: "string \<Rightarrow> int" where
  "signed_value s = (case s of c # ds \<Rightarrow> if c = CHR ''-'' then - digits_val ds else digits_val s | [] \<Rightarrow> 0)"

definition plain_keys :: key_library where
  "plain_keys =
     \<lparr>ed25519_sign = (\<lambda>k d. ''sig''), ed25519_verify = (\<lambda>k d s. True), sha256_hex = (\<lambda>s. if s = ''2001-02-03'' then ''aa'' else ''00''),
      base64url_encode = (\<lambda>s. ''p''), base64_to_url = (\<lambda>s. s), url_to_base64 = (\<lambda>s. s), number_text = (\<lambda>_. ''0''),
      hmac_sha256_hex = (\<lambda>k d. if d = ''+250788123456'' then ''aa'' else if d = ''1190080012345678'' then ''1d'' else ''00''),
      scrypt = (\<lambda>pw salt n r p. Some (7 # map of_char pw)),
      base64_text = unary_text, base64_bytes = unary_bytes 0,
      to_number = (\<lambda>s. Some (of_int (signed_value s)))\<rparr>"

definition token_for :: "json \<Rightarrow> js_library" where
  "token_for v = plain_library\<lparr>parse_base64url_json := (\<lambda>s. Some v)\<rparr>"

lemma plain_hmac: "CHR ''.'' \<notin> set (hmac_sha256_hex plain_keys k s) \<and> hex_bytes (hmac_sha256_hex plain_keys k s) \<noteq> []"
proof -
  have "hex_bytes ''aa'' \<noteq> []" "hex_bytes ''1d'' \<noteq> []" "hex_bytes ''00'' \<noteq> []" by code_simp+
  then show ?thesis unfolding plain_keys_def by (simp only: key_library.simps split: if_splits) simp
qed

lemma unary_run: "unary_bytes k (replicate n CHR ''a'' @ CHR ''b'' # s) = (k + n) # unary_bytes 0 s"
  by (induction n arbitrary: k) auto

lemma unary_round_trip: "unary_bytes 0 (unary_text bs) = bs"
  by (induction bs) (simp_all add: unary_text_def unary_run)

lemma signed_value_show_int: "signed_value (show_int n) = n"
proof (cases "n < 0")
  case False
  obtain c ds where d: "decimal (nat n) = c # ds" using decimal_digits by (metis neq_Nil_conv)
  then have "is_digit c" using decimal_digits [of "nat n"] by simp
  then have "c \<noteq> CHR ''-''" by (auto simp: is_digit_def)
  with False d digits_val_decimal [of "nat n"] show ?thesis by (simp add: signed_value_def show_int_def)
qed (simp add: signed_value_def show_int_def digits_val_decimal)

lemma faithful_plain_keys: "faithful_codec plain_keys"
proof -
  have "CHR ''$'' \<notin> set (unary_text bs)" for bs by (induction bs) (auto simp: unary_text_def)
  then show ?thesis by (simp add: faithful_codec_def plain_keys_def unary_round_trip signed_value_show_int)
qed

theorem onboarding_token_reads_back_witness:
  "\<exists>token. verifyOnboardingToken plain_keys
     (token_for (onboarding_json \<lparr>op_v = TOKEN_VERSION, op_sub = ''citizen'', op_exp = 901\<rparr>)) ''key'' token 900000 =
     Some ''citizen''"
proof -
  let ?v = "onboarding_json \<lparr>op_v = TOKEN_VERSION, op_sub = ''citizen'', op_exp = 1500 div 1000 + 900\<rparr>"
  obtain token expires where issued: "issueOnboardingToken plain_keys ''key'' ''citizen'' 1500 900 = (token, expires)"
    by (rule prod.exhaust)
  then have "expires = 901000" "length token \<le> 512"
    by (auto simp: issueOnboardingToken_def plain_keys_def Let_def)
  moreover have "faithful_tokens plain_keys (token_for ?v) ?v"
    using plain_hmac by (auto simp: faithful_tokens_def token_for_def) (simp_all add: plain_keys_def)
  ultimately have "verifyOnboardingToken plain_keys (token_for ?v) ''key'' token 900000 = Some ''citizen''"
    using onboarding_token_reads_back [OF _ issued, of "token_for ?v" 900000] by simp
  then show ?thesis by (intro exI [of _ token]) simp
qed

end
