(* ===== verification/Citizens.thy ===== *)
theory Citizens
  imports Credentials Scheduling
begin

text \<open>
  The citizen registry of identity-service: the identity table, the NIDA-anchored creation of an
  identity (\<open>application/verify-identity.service.ts\<close>, \<open>adapters/identity.pg-repository.ts\<close>), the
  projection of the biometric result, and the one-time-code, session and lockout tables of
  \<open>adapters/applicant-auth.pg-repository.ts\<close>, one definition per repository method.

  A row of \<open>applicant_identities\<close> is split: the columns the application service reads are those of
  \<open>identity_row\<close> in the shared database, the remaining ones are \<open>citizen_columns\<close>. NIDA, pgcrypto,
  the event bus and the clock of the service process are parameters.
\<close>

subsection \<open>Tables\<close>

datatype identity_status = IDENTITY_PENDING | IDENTITY_VERIFIED | IDENTITY_FAILED | IDENTITY_EXPIRED
datatype gender = MALE | FEMALE

record citizen_columns =
  cz_encrypted_full_name :: string
  cz_encrypted_date_of_birth :: string
  cz_encrypted_home_district :: string
  cz_encrypted_home_province :: string
  cz_encrypted_nida_lookup_hash :: "string option"
  cz_encrypted_national_id_hint :: "string option"
  cz_encrypted_phone_number :: "string option"
  cz_gender :: gender
  cz_registration_channel :: application_channel
  cz_identity_status :: identity_status
  cz_nida_verification_request_id :: "string option"
  cz_nida_verified_at :: "instant option"
  cz_nida_match_confidence :: "string option"
  cz_phone_number_hash :: "string option"
  cz_phone_verified_at :: "instant option"
  cz_biometric_session_id :: "string option"
  cz_biometric_passed_liveness :: bool
  cz_biometric_face_match_confidence :: "string option"
  cz_deleted_at :: "instant option"
  cz_created_at :: instant
  cz_updated_at :: instant

record otp_challenge =
  oc_id :: uuid
  oc_applicantId :: uuid
  oc_otpHash :: string
  oc_expiresAt :: instant
  oc_attempts :: int
  oc_consumed_at :: "instant option"
  oc_created_at :: instant

record applicant_session =
  se_applicantId :: uuid
  se_token :: string
  se_channel :: application_channel
  se_expiresAt :: instant
  se_last_activity_at :: instant
  se_terminated_at :: "instant option"

record onboarding_attempt =
  oa_failed_count :: int
  oa_window_started_at :: instant
  oa_locked_until :: "instant option"

record 'ev identity_store =
  is_db :: "'ev database"
  is_citizens :: "(uuid \<times> citizen_columns) list"
  is_challenges :: "otp_challenge list"
  is_sessions :: "applicant_session list"
  is_attempts :: "string \<Rightarrow> onboarding_attempt option"

abbreviation is_now :: "'ev identity_store \<Rightarrow> instant" where
  "is_now s \<equiv> db_now (is_db s)"

definition citizen_of :: "'ev identity_store \<Rightarrow> uuid \<Rightarrow> citizen_columns option" where
  "citizen_of s i = map_of (is_citizens s) i"

definition hash_of :: "'ev identity_store \<Rightarrow> uuid \<Rightarrow> string option" where
  "hash_of s i = map_option national_id_hash (applicant_identities (is_db s) i)"

text \<open>A SELECT of ids by the National ID hash and a condition on the other columns.\<close>

definition select_citizen :: "string \<Rightarrow> (citizen_columns \<Rightarrow> bool) \<Rightarrow> 'ev identity_store \<Rightarrow> uuid option" where
  "select_citizen h P s =
     map_option fst (find (\<lambda>(i, c). hash_of s i = Some h \<and> P c) (is_citizens s))"

text \<open>
  UPDATE of one identity row. The trigger of \<open>rls/0014_erasure_freeze.sql\<close> refuses it on an erased
  row; without a row the statement changes nothing.
\<close>

definition update_citizen ::
  "uuid \<Rightarrow> (citizen_columns \<Rightarrow> citizen_columns) \<Rightarrow> 'ev identity_store \<Rightarrow> 'ev identity_store option" where
  "update_citizen i f s =
     (case citizen_of s i of
        None \<Rightarrow> Some s
      | Some c \<Rightarrow> if cz_deleted_at c \<noteq> None then None else Some (s\<lparr>is_citizens := update_row i f (is_citizens s)\<rparr>))"

subsection \<open>The world around a request\<close>

datatype auth_error = Invalid_national_id | Identity_persistence | Bus_fault | Nida_fault | Kdf_fault

record nida_citizen =
  nc_fullName :: string
  nc_dateOfBirth :: string
  nc_gender :: gender
  nc_homeDistrict :: string
  nc_homeProvince :: string
  nc_citizenshipStatus :: string

text \<open>The answer of the registry: the request id, the citizen, the lookup hash and the confidence.\<close>

datatype nida_lookup =
    NIDA_FOUND string nida_citizen string "real option"
  | NIDA_NOT_FOUND string

definition RWANDAN_CITIZEN :: string where "RWANDAN_CITIZEN = ''RWANDAN_CITIZEN''"

text \<open>Every audit entry here is of entity type APPLICANT, by identity-service, agency SYSTEM.\<close>

record auth_audit =
  aa_envelope :: event_envelope
  aa_entityId :: string
  aa_action :: string
  aa_metadata :: "(string \<times> string) list"

record nida_event =
  nv_envelope :: event_envelope
  nv_applicantId :: uuid
  nv_nidaRequestId :: string
  nv_matchConfidence :: "real option"
  nv_homeDistrict :: string
  nv_homeProvince :: string

datatype auth_event = Auth_AUDIT auth_audit | NIDA_VERIFICATION_COMPLETED nida_event

record 'ev auth_world =
  aw_store :: "'ev identity_store"
  aw_sms :: "(string \<times> string) list"      \<comment> \<open>messages handed to the channel: destination, body\<close>
  aw_published :: "auth_event list"

record auth_config =
  otpTtlSeconds :: int
  otpMaxAttempts :: int
  sessionTtlSeconds :: int
  onboardingMaxFailures :: int
  onboardingFailureWindowSeconds :: int
  onboardingLockSeconds :: int

text \<open>The service's clock is the database's plus a skew; \<open>en_nida\<close> is \<open>None\<close> when the gateway throws.\<close>

record auth_env =
  en_crypt :: key_library
  en_lib :: js_library
  en_hmacKey :: string
  en_encrypt :: "string \<Rightarrow> string"
  en_config :: auth_config
  en_nida :: "string \<Rightarrow> nida_lookup option"
  en_bus :: "auth_event \<Rightarrow> bool"
  en_skew :: int

text \<open>What a call draws at random, and the time stamps of its envelopes.\<close>

record auth_draws =
  dr_ids :: "nat \<Rightarrow> uuid"
  dr_stamps :: "nat \<Rightarrow> string"
  dr_code :: nat
  dr_salt :: "nat list"
  dr_token :: string

definition service_now :: "auth_env \<Rightarrow> 'ev auth_world \<Rightarrow> instant" where
  "service_now env w = is_now (aw_store w) + en_skew env"

definition publish_auth :: "auth_env \<Rightarrow> auth_event \<Rightarrow> 'ev auth_world \<Rightarrow> 'ev auth_world option" where
  "publish_auth env e w = (if en_bus env e then Some (w\<lparr>aw_published := aw_published w @ [e]\<rparr>) else None)"

definition envelope :: "auth_draws \<Rightarrow> nat \<Rightarrow> event_context \<Rightarrow> event_envelope" where
  "envelope dr n ctx = newEnvelope ctx (dr_ids dr n) (dr_stamps dr n)"

subsection \<open>The identity repository\<close>

definition findIdByNationalIdHash :: "string \<Rightarrow> 'ev identity_store \<Rightarrow> uuid option" where
  "findIdByNationalIdHash h s = select_citizen h (\<lambda>c. cz_deleted_at c = None) s"

definition findVerifiedApplicantByNidHash :: "string \<Rightarrow> 'ev identity_store \<Rightarrow> uuid option" where
  "findVerifiedApplicantByNidHash h s = select_citizen h (\<lambda>c. cz_identity_status c = IDENTITY_VERIFIED) s"

text \<open>\<open>x.toFixed(2)\<close>\<close>

definition toFixed2 :: "real \<Rightarrow> string" where
  "toFixed2 x =
     (let n = nat \<lfloor>100 * \<bar>x\<bar> + 1 / 2\<rfloor> in
      (if x < 0 then ''-'' else '''') @ decimal (n div 100) @ ''.'' @ two_digits (int (n mod 100)))"

record create_identity_input =
  ci_nationalIdHash :: string
  ci_nidaLookupHash :: string
  ci_nationalIdHint :: "string option"
  ci_fullName :: string
  ci_dateOfBirth :: string
  ci_homeDistrict :: string
  ci_homeProvince :: string
  ci_gender :: gender
  ci_registrationChannel :: application_channel
  ci_phoneNumberHash :: "string option"
  ci_nidaVerificationRequestId :: string
  ci_nidaMatchConfidence :: "real option"

definition new_citizen :: "auth_env \<Rightarrow> create_identity_input \<Rightarrow> instant \<Rightarrow> citizen_columns" where
  "new_citizen env inp now =
     \<lparr>cz_encrypted_full_name = en_encrypt env (ci_fullName inp),
      cz_encrypted_date_of_birth = en_encrypt env (ci_dateOfBirth inp),
      cz_encrypted_home_district = en_encrypt env (ci_homeDistrict inp),
      cz_encrypted_home_province = en_encrypt env (ci_homeProvince inp),
      cz_encrypted_nida_lookup_hash = Some (en_encrypt env (ci_nidaLookupHash inp)),
      cz_encrypted_national_id_hint = map_option (en_encrypt env) (ci_nationalIdHint inp),
      cz_encrypted_phone_number = None, cz_gender = ci_gender inp,
      cz_registration_channel = ci_registrationChannel inp, cz_identity_status = IDENTITY_VERIFIED,
      cz_nida_verification_request_id = Some (ci_nidaVerificationRequestId inp),
      cz_nida_verified_at = Some now,
      cz_nida_match_confidence = map_option toFixed2 (ci_nidaMatchConfidence inp),
      cz_phone_number_hash = ci_phoneNumberHash inp, cz_phone_verified_at = None,
      cz_biometric_session_id = None, cz_biometric_passed_liveness = False,
      cz_biometric_face_match_confidence = None, cz_deleted_at = None,
      cz_created_at = now, cz_updated_at = now\<rparr>"

definition fresh_identity_row :: "string \<Rightarrow> identity_row" where
  "fresh_identity_row h =
     \<lparr>national_id_hash = h, cross_agency_locked_at = None, cross_agency_locked_by_agency = None,
      cross_agency_lock_reason = None, biometric_verified_at = None\<rparr>"

text \<open>
  \<open>INSERT \<dots> ON CONFLICT (national_id_hash) DO NOTHING\<close> and the SELECT of the row that was in the way.
  The id is the one the engine draws; an id in use violates the primary key, and a hash is a
  \<open>varchar(64)\<close>, a request id a \<open>varchar(128)\<close>, a confidence a \<open>varchar(6)\<close>.
\<close>

definition too_long :: "nat \<Rightarrow> string option \<Rightarrow> bool" where
  "too_long n t = (case t of None \<Rightarrow> False | Some s \<Rightarrow> n < length s)"

definition createVerifiedIdentity ::
  "auth_env \<Rightarrow> uuid \<Rightarrow> create_identity_input \<Rightarrow> 'ev identity_store \<Rightarrow> ('ev identity_store \<times> uuid \<times> bool) option" where
  "createVerifiedIdentity env newId inp s =
     (if 64 < length (ci_nationalIdHash inp) \<or> too_long 64 (ci_phoneNumberHash inp) \<or>
         128 < length (ci_nidaVerificationRequestId inp) \<or>
         too_long 6 (map_option toFixed2 (ci_nidaMatchConfidence inp)) then None
      else
        (case select_citizen (ci_nationalIdHash inp) (\<lambda>_. True) s of
           Some existing \<Rightarrow> Some (s, existing, False)
         | None \<Rightarrow>
             if citizen_of s newId \<noteq> None \<or> applicant_identities (is_db s) newId \<noteq> None then None
             else Some (s\<lparr>is_citizens := is_citizens s @ [(newId, new_citizen env inp (is_now s))],
                          is_db := (is_db s)\<lparr>applicant_identities := (applicant_identities (is_db s))
                             (newId \<mapsto> fresh_identity_row (ci_nationalIdHash inp))\<rparr>\<rparr>, newId, True)))"

record biometric_input =
  bi_applicantId :: uuid
  bi_sessionId :: string
  bi_verified :: bool
  bi_passedLiveness :: bool
  bi_faceMatchConfidence :: real

datatype biometric_outcome = Biometric_updated | Biometric_not_found

definition recordBiometricResult :: "biometric_input \<Rightarrow> 'ev identity_store \<Rightarrow> ('ev identity_store \<times> biometric_outcome) option" where
  "recordBiometricResult inp s =
     (case citizen_of s (bi_applicantId inp) of
        None \<Rightarrow> Some (s, Biometric_not_found)
      | Some c \<Rightarrow>
          if cz_deleted_at c \<noteq> None then Some (s, Biometric_not_found)
          else if 128 < length (bi_sessionId inp) \<or> 6 < length (toFixed2 (bi_faceMatchConfidence inp)) then None
          else Some (s\<lparr>is_citizens := update_row (bi_applicantId inp)
                 (\<lambda>c. c\<lparr>cz_biometric_session_id := Some (bi_sessionId inp),
                        cz_biometric_passed_liveness := bi_passedLiveness inp,
                        cz_biometric_face_match_confidence := Some (toFixed2 (bi_faceMatchConfidence inp)),
                        cz_updated_at := is_now s\<rparr>) (is_citizens s),
               is_db := (is_db s)\<lparr>applicant_identities := (\<lambda>j.
                 if j = bi_applicantId inp
                 then map_option (\<lambda>r. r\<lparr>biometric_verified_at := (if bi_verified inp then Some (is_now s) else None)\<rparr>)
                        (applicant_identities (is_db s) j)
                 else applicant_identities (is_db s) j)\<rparr>\<rparr>, Biometric_updated))"

record project_biometric_command =
  pb_applicantId :: uuid
  pb_sessionId :: string
  pb_livenessPass :: bool
  pb_faceMatchPass :: bool
  pb_faceMatchConfidence :: real

definition project_biometric :: "project_biometric_command \<Rightarrow> 'ev identity_store \<Rightarrow> ('ev identity_store \<times> biometric_outcome) option" where
  "project_biometric cmd s =
     recordBiometricResult
       \<lparr>bi_applicantId = pb_applicantId cmd, bi_sessionId = pb_sessionId cmd,
        bi_verified = (pb_livenessPass cmd \<and> pb_faceMatchPass cmd), bi_passedLiveness = pb_livenessPass cmd,
        bi_faceMatchConfidence = pb_faceMatchConfidence cmd\<rparr> s"

subsection \<open>Verify and create\<close>

text \<open>\<open>nationalIdHintOf\<close> of \<open>packages/shared-identity-match\<close>.\<close>

definition nationalIdHintOf :: "string \<Rightarrow> string option" where
  "nationalIdHintOf nationalId =
     (let digits = filter (\<lambda>c. \<not> is_js_space c) nationalId in
      if \<not> (length digits = 16 \<and> list_all is_digit digits) then None
      else Some (take 4 digits @ drop 12 digits))"

record verify_identity_command =
  vc_rawNationalId :: string
  vc_registrationChannel :: application_channel
  vc_context :: "event_context option"

datatype verify_identity_outcome =
    Identity_CREATED uuid string nida_event
  | Identity_ALREADY_EXISTS uuid string
  | Identity_NOT_FOUND_IN_NIDA string auth_audit
  | Identity_NOT_A_CITIZEN string auth_audit

definition buildFailureAudit :: "event_envelope \<Rightarrow> string \<Rightarrow> string \<Rightarrow> string \<Rightarrow> auth_audit" where
  "buildFailureAudit env nationalIdHash nidaRequestId action =
     \<lparr>aa_envelope = env, aa_entityId = nationalIdHash, aa_action = action,
      aa_metadata = [(''nidaRequestId'', nidaRequestId)]\<rparr>"

definition answer_with ::
  "auth_env \<Rightarrow> auth_event \<Rightarrow> verify_identity_outcome \<Rightarrow> 'ev auth_world \<Rightarrow> 'ev auth_world \<times> (auth_error + verify_identity_outcome)" where
  "answer_with env e oc w = (case publish_auth env e w of None \<Rightarrow> (w, Inl Bus_fault) | Some w' \<Rightarrow> (w', Inr oc))"

text \<open>\<open>elsewhere\<close> is what other requests commit between the guard and the insertion.\<close>

definition verify_identity ::
  "auth_env \<Rightarrow> auth_draws \<Rightarrow> ('ev identity_store \<Rightarrow> 'ev identity_store) \<Rightarrow> verify_identity_command \<Rightarrow>
   'ev auth_world \<Rightarrow> 'ev auth_world \<times> (auth_error + verify_identity_outcome)" where
  "verify_identity env dr elsewhere cmd w =
     (case hashNationalId (en_crypt env) (vc_rawNationalId cmd) (en_hmacKey env) of
        None \<Rightarrow> (w, Inl Invalid_national_id)
      | Some h \<Rightarrow>
          (case findIdByNationalIdHash h (aw_store w) of
             Some existing \<Rightarrow> (w, Inr (Identity_ALREADY_EXISTS existing h))
           | None \<Rightarrow>
               let ctx = (case vc_context cmd of Some c \<Rightarrow> c | None \<Rightarrow> newCorrelationContext (dr_ids dr 10)) in
               (case en_nida env (vc_rawNationalId cmd) of
                  None \<Rightarrow> (w, Inl Nida_fault)
                | Some (NIDA_NOT_FOUND req) \<Rightarrow>
                    let a = buildFailureAudit (envelope dr 11 ctx) h req ''NIDA_CITIZEN_NOT_FOUND'' in
                    answer_with env (Auth_AUDIT a) (Identity_NOT_FOUND_IN_NIDA h a) w
                | Some (NIDA_FOUND req citizen lookupHash confidence) \<Rightarrow>
                    if nc_citizenshipStatus citizen \<noteq> RWANDAN_CITIZEN then
                      let a = buildFailureAudit (envelope dr 11 ctx) h req ''NIDA_NON_CITIZEN'' in
                      answer_with env (Auth_AUDIT a) (Identity_NOT_A_CITIZEN h a) w
                    else
                      let s = elsewhere (aw_store w) in
                      (case createVerifiedIdentity env (dr_ids dr 12)
                              \<lparr>ci_nationalIdHash = h, ci_nidaLookupHash = lookupHash,
                               ci_nationalIdHint = nationalIdHintOf (vc_rawNationalId cmd),
                               ci_fullName = nc_fullName citizen, ci_dateOfBirth = nc_dateOfBirth citizen,
                               ci_homeDistrict = nc_homeDistrict citizen, ci_homeProvince = nc_homeProvince citizen,
                               ci_gender = nc_gender citizen, ci_registrationChannel = vc_registrationChannel cmd,
                               ci_phoneNumberHash = None, ci_nidaVerificationRequestId = req,
                               ci_nidaMatchConfidence = confidence\<rparr> s of
                         None \<Rightarrow> (w\<lparr>aw_store := s\<rparr>, Inl Identity_persistence)
                       | Some (s', who, created) \<Rightarrow>
                           let w' = w\<lparr>aw_store := s'\<rparr> in
                           if \<not> created then (w', Inr (Identity_ALREADY_EXISTS who h))
                           else
                             let e = \<lparr>nv_envelope = envelope dr 11 ctx, nv_applicantId = who, nv_nidaRequestId = req,
                                      nv_matchConfidence = confidence, nv_homeDistrict = nc_homeDistrict citizen,
                                      nv_homeProvince = nc_homeProvince citizen\<rparr> in
                             answer_with env (NIDA_VERIFICATION_COMPLETED e) (Identity_CREATED who h e) w'))))"

end
