(* ===== verification/ApplicantAuth.thy ===== *)
theory ApplicantAuth
  imports Citizens
begin

text \<open>
  Citizen sign-in (\<open>application/applicant-auth.service.ts\<close> over
  \<open>adapters/applicant-auth.pg-repository.ts\<close>): National ID and date of birth against NIDA with a
  durable lockout, a one-time code bound to the phone, and opaque sessions kept as digests. The
  verification of a code is a sequence of statements, one per \<open>await\<close>, so that concurrent requests
  interleave in the theory of sign-in.
\<close>

subsection \<open>The lockout\<close>

definition findOnboardingLock :: "string \<Rightarrow> instant \<Rightarrow> 'ev identity_store \<Rightarrow> instant option" where
  "findOnboardingLock h now s =
     (case is_attempts s h of
        None \<Rightarrow> None
      | Some a \<Rightarrow> (case oa_locked_until a of None \<Rightarrow> None | Some t \<Rightarrow> if now < t then Some t else None))"

text \<open>Insert, bump inside the window or restart after it; then lock when the threshold is reached.\<close>

definition bumped :: "instant \<Rightarrow> int \<Rightarrow> onboarding_attempt option \<Rightarrow> onboarding_attempt" where
  "bumped now windowSeconds old =
     (case old of
        None \<Rightarrow> \<lparr>oa_failed_count = 1, oa_window_started_at = now, oa_locked_until = None\<rparr>
      | Some a \<Rightarrow>
          let over = oa_window_started_at a + windowSeconds * 1000 \<le> now in
          a\<lparr>oa_failed_count := (if over then 1 else oa_failed_count a + 1),
            oa_window_started_at := (if over then now else oa_window_started_at a)\<rparr>)"

definition recordOnboardingFailure ::
  "auth_config \<Rightarrow> string \<Rightarrow> instant \<Rightarrow> 'ev identity_store \<Rightarrow> 'ev identity_store" where
  "recordOnboardingFailure cfg h now s =
     (let a = bumped now (onboardingFailureWindowSeconds cfg) (is_attempts s h);
          a' = (if onboardingMaxFailures cfg \<le> oa_failed_count a
                then a\<lparr>oa_locked_until := Some (now + onboardingLockSeconds cfg * 1000)\<rparr> else a) in
      s\<lparr>is_attempts := (is_attempts s)(h \<mapsto> a')\<rparr>)"

definition clearOnboardingFailures :: "string \<Rightarrow> 'ev identity_store \<Rightarrow> 'ev identity_store" where
  "clearOnboardingFailures h s = s\<lparr>is_attempts := (is_attempts s)(h := None)\<rparr>"

subsection \<open>Challenges\<close>

text \<open>The id is drawn by the engine; the row references an existing identity.\<close>

definition createChallenge ::
  "uuid \<Rightarrow> uuid \<Rightarrow> string \<Rightarrow> instant \<Rightarrow> 'ev identity_store \<Rightarrow> 'ev identity_store option" where
  "createChallenge newId applicantId otpHash until s =
     (if citizen_of s applicantId = None \<or> list_ex (\<lambda>c. oc_id c = newId) (is_challenges s) then None
      else Some (s\<lparr>is_challenges := is_challenges s @
                 [\<lparr>oc_id = newId, oc_applicantId = applicantId, oc_otpHash = otpHash, oc_expiresAt = until,
                   oc_attempts = 0, oc_consumed_at = None, oc_created_at = is_now s\<rparr>]\<rparr>))"

definition live_challenge :: "instant \<Rightarrow> otp_challenge \<Rightarrow> bool" where
  "live_challenge now c \<longleftrightarrow> oc_consumed_at c = None \<and> now < oc_expiresAt c"

definition findLiveChallenge :: "uuid \<Rightarrow> 'ev identity_store \<Rightarrow> otp_challenge option" where
  "findLiveChallenge applicantId s =
     latest_by oc_created_at
       (filter (\<lambda>c. oc_applicantId c = applicantId \<and> live_challenge (is_now s) c) (is_challenges s))"

definition update_challenges ::
  "(otp_challenge \<Rightarrow> bool) \<Rightarrow> (otp_challenge \<Rightarrow> otp_challenge) \<Rightarrow> 'ev identity_store \<Rightarrow> 'ev identity_store" where
  "update_challenges P f s = s\<lparr>is_challenges := map (\<lambda>c. if P c then f c else c) (is_challenges s)\<rparr>"

definition recordFailedAttempt :: "uuid \<Rightarrow> 'ev identity_store \<Rightarrow> 'ev identity_store" where
  "recordFailedAttempt challengeId s =
     update_challenges (\<lambda>c. oc_id c = challengeId) (\<lambda>c. c\<lparr>oc_attempts := oc_attempts c + 1\<rparr>) s"

text \<open>The compare-and-set: a row is stamped when it is still unconsumed and unexpired.\<close>

definition consumable :: "uuid \<Rightarrow> instant \<Rightarrow> otp_challenge \<Rightarrow> bool" where
  "consumable challengeId now c \<longleftrightarrow> oc_id c = challengeId \<and> live_challenge now c"

definition consumeChallenge :: "uuid \<Rightarrow> 'ev identity_store \<Rightarrow> 'ev identity_store \<times> bool" where
  "consumeChallenge challengeId s =
     (update_challenges (consumable challengeId (is_now s)) (\<lambda>c. c\<lparr>oc_consumed_at := Some (is_now s)\<rparr>) s,
      length (filter (consumable challengeId (is_now s)) (is_challenges s)) = 1)"

definition stampPhoneVerified ::
  "(string \<Rightarrow> string) \<Rightarrow> uuid \<Rightarrow> string \<Rightarrow> string \<Rightarrow> 'ev identity_store \<Rightarrow> 'ev identity_store option" where
  "stampPhoneVerified encrypt applicantId phoneNumberHash rawPhoneNumber s =
     update_citizen applicantId
       (\<lambda>c. c\<lparr>cz_phone_number_hash := Some phoneNumberHash, cz_phone_verified_at := Some (is_now s),
              cz_encrypted_phone_number := Some (encrypt rawPhoneNumber)\<rparr>) s"

subsection \<open>Sessions\<close>

definition sessionTokenDigest :: "'a key_library_scheme \<Rightarrow> string \<Rightarrow> string" where
  "sessionTokenDigest crypt sessionToken = sha256_hex crypt (''usrp:applicant-session:v1:'' @ sessionToken)"

text \<open>The token column is unique, and the row references an existing identity.\<close>

definition createSession ::
  "'a key_library_scheme \<Rightarrow> uuid \<Rightarrow> string \<Rightarrow> application_channel \<Rightarrow> instant \<Rightarrow> 'ev identity_store \<Rightarrow> 'ev identity_store option" where
  "createSession crypt applicantId sessionToken channel until s =
     (let digest = sessionTokenDigest crypt sessionToken in
      if citizen_of s applicantId = None \<or> list_ex (\<lambda>r. se_token r = digest) (is_sessions s) \<or> 256 < length digest then None
      else Some (s\<lparr>is_sessions := is_sessions s @
                 [\<lparr>se_applicantId = applicantId, se_token = digest, se_channel = channel, se_expiresAt = until,
                   se_last_activity_at = is_now s, se_terminated_at = None\<rparr>]\<rparr>))"

definition live_session :: "string \<Rightarrow> instant \<Rightarrow> applicant_session \<Rightarrow> bool" where
  "live_session digest now r \<longleftrightarrow> se_token r = digest \<and> se_terminated_at r = None \<and> now < se_expiresAt r"

definition update_sessions ::
  "(applicant_session \<Rightarrow> bool) \<Rightarrow> (applicant_session \<Rightarrow> applicant_session) \<Rightarrow> 'ev identity_store \<Rightarrow> 'ev identity_store" where
  "update_sessions P f s = s\<lparr>is_sessions := map (\<lambda>r. if P r then f r else r) (is_sessions s)\<rparr>"

definition findLiveSession :: "'a key_library_scheme \<Rightarrow> string \<Rightarrow> 'ev identity_store \<Rightarrow> 'ev identity_store \<times> uuid option" where
  "findLiveSession crypt sessionToken s =
     (let P = live_session (sessionTokenDigest crypt sessionToken) (is_now s) in
      (update_sessions P (\<lambda>r. r\<lparr>se_last_activity_at := is_now s\<rparr>) s,
       map_option se_applicantId (find P (is_sessions s))))"

definition terminateSession :: "'a key_library_scheme \<Rightarrow> string \<Rightarrow> 'ev identity_store \<Rightarrow> 'ev identity_store" where
  "terminateSession crypt sessionToken s =
     update_sessions (\<lambda>r. se_token r = sessionTokenDigest crypt sessionToken \<and> se_terminated_at r = None)
       (\<lambda>r. r\<lparr>se_terminated_at := Some (is_now s)\<rparr>) s"

subsection \<open>Step 1: National ID and date of birth\<close>

record begin_command =
  bg_rawNationalId :: string
  bg_dateOfBirth :: string
  bg_channel :: application_channel
  bg_context :: "event_context option"

datatype begin_outcome = READY string instant | NOT_CONFIRMED

definition channel_name :: "application_channel \<Rightarrow> string" where
  "channel_name c = (case c of WEB \<Rightarrow> ''WEB'' | USSD \<Rightarrow> ''USSD'' | IREMBO_KIOSK \<Rightarrow> ''IREMBO_KIOSK'' | WALK_IN \<Rightarrow> ''WALK_IN'')"

definition auth_audit_of :: "event_envelope \<Rightarrow> uuid \<Rightarrow> string \<Rightarrow> application_channel \<Rightarrow> auth_event" where
  "auth_audit_of e applicantId action channel =
     Auth_AUDIT \<lparr>aa_envelope = e, aa_entityId = applicantId, aa_action = action,
                 aa_metadata = [(''channel'', channel_name channel)]\<rparr>"

definition sameDate :: "'a key_library_scheme \<Rightarrow> string \<Rightarrow> string \<Rightarrow> bool" where
  "sameDate crypt a b = timingSafeEqualHex (sha256_hex crypt a) (sha256_hex crypt b)"

text \<open>The tail of step 1, once the citizen is confirmed and the identity verified.\<close>

definition issue_token ::
  "auth_env \<Rightarrow> auth_draws \<Rightarrow> event_context \<Rightarrow> application_channel \<Rightarrow> uuid \<Rightarrow> 'ev auth_world \<Rightarrow>
   'ev auth_world \<times> (auth_error + begin_outcome)" where
  "issue_token env dr ctx channel who w =
     (case issueOnboardingToken (en_crypt env) (en_hmacKey env) who (service_now env w) ONBOARDING_TOKEN_TTL_SECONDS of
        (token, until) \<Rightarrow>
          (case publish_auth env (auth_audit_of (envelope dr 1 ctx) who ''APPLICANT_ONBOARDING_CONFIRMED'' channel) w of
             None \<Rightarrow> (w, Inl Bus_fault)
           | Some w' \<Rightarrow> (w', Inr (READY token until))))"

definition beginOnboarding ::
  "auth_env \<Rightarrow> auth_draws \<Rightarrow> ('ev identity_store \<Rightarrow> 'ev identity_store) \<Rightarrow> begin_command \<Rightarrow>
   'ev auth_world \<Rightarrow> 'ev auth_world \<times> (auth_error + begin_outcome)" where
  "beginOnboarding env dr elsewhere cmd w =
     (case hashNationalId (en_crypt env) (bg_rawNationalId cmd) (en_hmacKey env) of
        None \<Rightarrow> (w, Inl Invalid_national_id)
      | Some h \<Rightarrow>
          let ctx = (case bg_context cmd of Some c \<Rightarrow> c | None \<Rightarrow> newCorrelationContext (dr_ids dr 0));
              now = service_now env w in
          if findOnboardingLock h now (aw_store w) \<noteq> None then (w, Inr NOT_CONFIRMED)
          else
            (case en_nida env (bg_rawNationalId cmd) of
               None \<Rightarrow> (w, Inl Nida_fault)
             | Some (NIDA_NOT_FOUND _) \<Rightarrow> (w, Inr NOT_CONFIRMED)
             | Some (NIDA_FOUND _ citizen _ _) \<Rightarrow>
                 if nc_citizenshipStatus citizen \<noteq> RWANDAN_CITIZEN then (w, Inr NOT_CONFIRMED)
                 else if \<not> sameDate (en_crypt env) (nc_dateOfBirth citizen) (bg_dateOfBirth cmd) then
                   (w\<lparr>aw_store := recordOnboardingFailure (en_config env) h now (aw_store w)\<rparr>, Inr NOT_CONFIRMED)
                 else
                   (case verify_identity env dr elsewhere
                           \<lparr>vc_rawNationalId = bg_rawNationalId cmd, vc_registrationChannel = bg_channel cmd,
                            vc_context = Some ctx\<rparr>
                           (w\<lparr>aw_store := clearOnboardingFailures h (aw_store w)\<rparr>) of
                      (w', Inl e) \<Rightarrow> (w', Inl e)
                    | (w', Inr verdict) \<Rightarrow>
                        (case (case verdict of Identity_CREATED who _ _ \<Rightarrow> Some who
                                | Identity_ALREADY_EXISTS who _ \<Rightarrow> Some who | _ \<Rightarrow> None) of
                           None \<Rightarrow> (w', Inr NOT_CONFIRMED)
                         | Some who \<Rightarrow>
                             if findVerifiedApplicantByNidHash h (aw_store w') \<noteq> Some who then (w', Inr NOT_CONFIRMED)
                             else issue_token env dr ctx (bg_channel cmd) who w'))))"

subsection \<open>Step 2: the code\<close>

record request_otp_command =
  rq_onboardingToken :: string
  rq_rawPhoneNumber :: string
  rq_channel :: application_channel
  rq_context :: "event_context option"

datatype request_otp_outcome = CHALLENGED | ONBOARDING_INVALID | PHONE_INVALID

text \<open>\<open>String(n).padStart(6, '0')\<close>\<close>

definition code_text :: "nat \<Rightarrow> string" where
  "code_text n = replicate (6 - length (decimal n)) CHR ''0'' @ decimal n"

definition otpSecret :: "auth_env \<Rightarrow> string \<Rightarrow> string \<Rightarrow> string" where
  "otpSecret env otp normalizedPhone = otp @ ''|'' @ hashPhoneNumber (en_crypt env) normalizedPhone (en_hmacKey env)"

definition sms_body :: "auth_env \<Rightarrow> string \<Rightarrow> string" where
  "sms_body env otp =
     ''USRP verification code: '' @ otp @ ''. Valid '' @ show_int ((otpTtlSeconds (en_config env) + 30) div 60) @
     '' minutes. Never share this code.''"

text \<open>The answer does not depend on the SMS channel: a refused or slow hand-off is swallowed.\<close>

definition requestOtp ::
  "auth_env \<Rightarrow> auth_draws \<Rightarrow> request_otp_command \<Rightarrow> 'ev auth_world \<Rightarrow> 'ev auth_world \<times> (auth_error + request_otp_outcome)" where
  "requestOtp env dr cmd w =
     (case verifyOnboardingToken (en_crypt env) (en_lib env) (en_hmacKey env) (rq_onboardingToken cmd) (service_now env w) of
        None \<Rightarrow> (w, Inr ONBOARDING_INVALID)
      | Some who \<Rightarrow>
          (case normalizeRwandanMsisdn (rq_rawPhoneNumber cmd) of
             None \<Rightarrow> (w, Inr PHONE_INVALID)
           | Some phone \<Rightarrow>
               let ctx = (case rq_context cmd of Some c \<Rightarrow> c | None \<Rightarrow> newCorrelationContext (dr_ids dr 0));
                   otp = code_text (dr_code dr);
                   until = service_now env w + otpTtlSeconds (en_config env) * 1000 in
               (case hashPassword (en_crypt env) (dr_salt dr) (otpSecret env otp phone) of
                  None \<Rightarrow> (w, Inl Kdf_fault)
                | Some otpHash \<Rightarrow>
                    (case createChallenge (dr_ids dr 2) who otpHash until (aw_store w) of
                       None \<Rightarrow> (w, Inl Identity_persistence)
                     | Some s \<Rightarrow>
                         let w' = w\<lparr>aw_store := s, aw_sms := aw_sms w @ [(phone, sms_body env otp)]\<rparr> in
                         (case publish_auth env (auth_audit_of (envelope dr 1 ctx) who ''APPLICANT_OTP_ISSUED'' (rq_channel cmd)) w' of
                            None \<Rightarrow> (w', Inl Bus_fault)
                          | Some w'' \<Rightarrow> (w'', Inr CHALLENGED))))))"

subsection \<open>Step 3: the session\<close>

record verify_otp_command =
  vo_onboardingToken :: string
  vo_rawPhoneNumber :: string
  vo_otp :: string
  vo_channel :: application_channel
  vo_context :: "event_context option"

datatype verify_otp_outcome = AUTHENTICATED string instant | INVALID_OTP

text \<open>The constants of the handler that later statements read.\<close>

record verify_locals =
  vl_applicantId :: uuid
  vl_phone :: string
  vl_challenge :: otp_challenge

text \<open>Where a request stands: before the statement named, answered, or stopped by a fault there.\<close>

datatype verify_point =
    At_start
  | At_recordFailedAttempt verify_locals
  | At_consumeChallenge verify_locals
  | At_stampPhoneVerified verify_locals
  | At_createSession verify_locals
  | At_audit verify_locals instant
  | Answered "verify_locals option" verify_otp_outcome
  | Stopped verify_point auth_error

fun verify_step ::
  "auth_env \<Rightarrow> auth_draws \<Rightarrow> verify_otp_command \<Rightarrow> verify_point \<Rightarrow> 'ev auth_world \<Rightarrow> verify_point \<times> 'ev auth_world" where
  "verify_step env dr cmd At_start w =
     (case verifyOnboardingToken (en_crypt env) (en_lib env) (en_hmacKey env) (vo_onboardingToken cmd) (service_now env w) of
        None \<Rightarrow> (Answered None INVALID_OTP, w)
      | Some who \<Rightarrow>
          (case normalizeRwandanMsisdn (vo_rawPhoneNumber cmd) of
             None \<Rightarrow> (Answered None INVALID_OTP, w)
           | Some phone \<Rightarrow>
               (case findLiveChallenge who (aw_store w) of
                  None \<Rightarrow> (Answered None INVALID_OTP, w)
                | Some challenge \<Rightarrow>
                    let l = \<lparr>vl_applicantId = who, vl_phone = phone, vl_challenge = challenge\<rparr> in
                    if otpMaxAttempts (en_config env) \<le> oc_attempts challenge then (Answered (Some l) INVALID_OTP, w)
                    else if \<not> verifyPassword (en_crypt env) (otpSecret env (vo_otp cmd) phone) (oc_otpHash challenge)
                    then (At_recordFailedAttempt l, w)
                    else (At_consumeChallenge l, w))))"
| "verify_step env dr cmd (At_recordFailedAttempt l) w =
     (Answered (Some l) INVALID_OTP, w\<lparr>aw_store := recordFailedAttempt (oc_id (vl_challenge l)) (aw_store w)\<rparr>)"
| "verify_step env dr cmd (At_consumeChallenge l) w =
     (case consumeChallenge (oc_id (vl_challenge l)) (aw_store w) of
        (s, consumed) \<Rightarrow>
          (if \<not> consumed then Answered (Some l) INVALID_OTP else At_stampPhoneVerified l, w\<lparr>aw_store := s\<rparr>))"
| "verify_step env dr cmd (At_stampPhoneVerified l) w =
     (case stampPhoneVerified (en_encrypt env) (vl_applicantId l)
             (hashPhoneNumber (en_crypt env) (vl_phone l) (en_hmacKey env)) (vl_phone l) (aw_store w) of
        None \<Rightarrow> (Stopped (At_stampPhoneVerified l) Identity_persistence, w)
      | Some s \<Rightarrow> (At_createSession l, w\<lparr>aw_store := s\<rparr>))"
| "verify_step env dr cmd (At_createSession l) w =
     (let until = service_now env w + sessionTtlSeconds (en_config env) * 1000 in
      case createSession (en_crypt env) (vl_applicantId l) (dr_token dr) (vo_channel cmd) until (aw_store w) of
        None \<Rightarrow> (Stopped (At_createSession l) Identity_persistence, w)
      | Some s \<Rightarrow> (At_audit l until, w\<lparr>aw_store := s\<rparr>))"
| "verify_step env dr cmd (At_audit l until) w =
     (let ctx = (case vo_context cmd of Some c \<Rightarrow> c | None \<Rightarrow> newCorrelationContext (dr_ids dr 0)) in
      case publish_auth env (auth_audit_of (envelope dr 1 ctx) (vl_applicantId l) ''APPLICANT_SESSION_ISSUED'' (vo_channel cmd)) w of
        None \<Rightarrow> (Stopped (At_audit l until) Bus_fault, w)
      | Some w' \<Rightarrow> (Answered (Some l) (AUTHENTICATED (dr_token dr) until), w'))"
| "verify_step env dr cmd (Answered l oc) w = (Answered l oc, w)"
| "verify_step env dr cmd (Stopped p e) w = (Stopped p e, w)"

text \<open>The request on its own: at most five statements after the start.\<close>

definition verifyOtp ::
  "auth_env \<Rightarrow> auth_draws \<Rightarrow> verify_otp_command \<Rightarrow> 'ev auth_world \<Rightarrow> 'ev auth_world \<times> (auth_error + verify_otp_outcome)" where
  "verifyOtp env dr cmd w =
     (case ((\<lambda>(p, w). verify_step env dr cmd p w) ^^ 5) (At_start, w) of
        (Answered _ oc, w') \<Rightarrow> (w', Inr oc)
      | (Stopped _ e, w') \<Rightarrow> (w', Inl e)
      | (_, w') \<Rightarrow> (w', Inl Identity_persistence))"

definition authenticateSession :: "auth_env \<Rightarrow> string \<Rightarrow> 'ev auth_world \<Rightarrow> 'ev auth_world \<times> uuid option" where
  "authenticateSession env sessionToken w =
     (if length sessionToken = 0 \<or> length sessionToken > 256 then (w, None)
      else
        (case findLiveSession (en_crypt env) sessionToken (aw_store w) of (s, who) \<Rightarrow> (w\<lparr>aw_store := s\<rparr>, who)))"

definition logout :: "auth_env \<Rightarrow> string \<Rightarrow> 'ev auth_world \<Rightarrow> 'ev auth_world" where
  "logout env sessionToken w =
     (if length sessionToken = 0 \<or> length sessionToken > 256 then w
      else w\<lparr>aw_store := terminateSession (en_crypt env) sessionToken (aw_store w)\<rparr>)"

subsection \<open>The lockout holds\<close>

definition at_db_time :: "instant \<Rightarrow> 'ev auth_world \<Rightarrow> 'ev auth_world" where
  "at_db_time t w = w\<lparr>aw_store := (aw_store w)\<lparr>is_db := (is_db (aw_store w))\<lparr>db_now := t\<rparr>\<rparr>\<rparr>"

lemma at_db_time_simps [simp]:
  "service_now env (at_db_time t w) = t + en_skew env"
  "is_now (aw_store (at_db_time t w)) = t"
  "is_attempts (aw_store (at_db_time t w)) = is_attempts (aw_store w)"
  "is_challenges (aw_store (at_db_time t w)) = is_challenges (aw_store w)"
  "is_sessions (aw_store (at_db_time t w)) = is_sessions (aw_store w)"
  "is_citizens (aw_store (at_db_time t w)) = is_citizens (aw_store w)"
  "citizen_of (aw_store (at_db_time t w)) = citizen_of (aw_store w)"
  by (simp_all add: at_db_time_def service_now_def citizen_of_def fun_eq_iff)

text \<open>Guesses of the date of birth, each at its own time.\<close>

definition guesses ::
  "auth_env \<Rightarrow> auth_draws \<Rightarrow> (instant \<times> begin_command) list \<Rightarrow> 'ev auth_world \<Rightarrow> 'ev auth_world" where
  "guesses env dr gs w = fold (\<lambda>(t, cmd) w. fst (beginOnboarding env dr id cmd (at_db_time t w))) gs w"

definition wrong_guess :: "auth_env \<Rightarrow> string \<Rightarrow> nida_citizen \<Rightarrow> begin_command \<Rightarrow> bool" where
  "wrong_guess env nid citizen cmd \<longleftrightarrow>
     bg_rawNationalId cmd = nid \<and> \<not> sameDate (en_crypt env) (nc_dateOfBirth citizen) (bg_dateOfBirth cmd)"

lemma locked_begin:
  assumes "hashNationalId (en_crypt env) (bg_rawNationalId cmd) (en_hmacKey env) = Some h"
    and "findOnboardingLock h (service_now env w) (aw_store w) \<noteq> None"
  shows "beginOnboarding env dr elsewhere cmd w = (w, Inr NOT_CONFIRMED)"
  using assms by (simp add: beginOnboarding_def Let_def)

lemma wrong_begin:
  assumes "hashNationalId (en_crypt env) nid (en_hmacKey env) = Some h"
    and "en_nida env nid = Some (NIDA_FOUND req citizen lookup conf)" and "nc_citizenshipStatus citizen = RWANDAN_CITIZEN"
    and "wrong_guess env nid citizen cmd" and "findOnboardingLock h (service_now env w) (aw_store w) = None"
  shows "beginOnboarding env dr elsewhere cmd w =
    (w\<lparr>aw_store := recordOnboardingFailure (en_config env) h (service_now env w) (aw_store w)\<rparr>, Inr NOT_CONFIRMED)"
  using assms by (simp add: beginOnboarding_def wrong_guess_def Let_def)

lemma counted_guesses:
  assumes "hashNationalId (en_crypt env) nid (en_hmacKey env) = Some h"
    and "en_nida env nid = Some (NIDA_FOUND req citizen lookup conf)" and "nc_citizenshipStatus citizen = RWANDAN_CITIZEN"
    and "is_attempts (aw_store w) h = None"
    and "gs \<noteq> []" and "list_all (wrong_guess env nid citizen \<circ> snd) gs" and "sorted (map fst gs)"
    and "fst (last gs) < fst (hd gs) + onboardingFailureWindowSeconds (en_config env) * 1000"
    and "int (length gs) \<le> onboardingMaxFailures (en_config env)"
  shows "is_attempts (aw_store (guesses env dr gs w)) h =
    Some \<lparr>oa_failed_count = int (length gs), oa_window_started_at = fst (hd gs) + en_skew env,
          oa_locked_until = (if int (length gs) = onboardingMaxFailures (en_config env)
            then Some (fst (last gs) + en_skew env + onboardingLockSeconds (en_config env) * 1000) else None)\<rparr>"
  using assms(5-)
proof (induction gs rule: rev_induct)
  case (snoc g gs)
  obtain t cmd where g: "g = (t, cmd)" by (cases g)
  let ?w = "guesses env dr gs w"
  have wrong: "wrong_guess env nid citizen cmd" using snoc.prems(2) g by simp
  have run: "guesses env dr (gs @ [g]) w = fst (beginOnboarding env dr id cmd (at_db_time t ?w))"
    by (simp add: guesses_def g)
  show ?case
  proof (cases "gs = []")
    case True
    then have w: "?w = w" by (simp add: guesses_def)
    have "findOnboardingLock h (service_now env (at_db_time t w)) (aw_store (at_db_time t w)) = None"
      using assms(4) by (simp add: findOnboardingLock_def)
    from wrong_begin [OF assms(1-3) wrong this] assms(4) True snoc.prems show ?thesis
      unfolding run w by (simp add: recordOnboardingFailure_def bumped_def g Let_def)
  next
    case False
    have "fst (last gs) \<le> t" using snoc.prems(3) False g by (auto simp: sorted_append)
    moreover have "t < fst (hd gs) + onboardingFailureWindowSeconds (en_config env) * 1000"
      using snoc.prems(4) False g by simp
    ultimately have "fst (last gs) < fst (hd gs) + onboardingFailureWindowSeconds (en_config env) * 1000" by linarith
    then have before: "is_attempts (aw_store ?w) h =
        Some \<lparr>oa_failed_count = int (length gs), oa_window_started_at = fst (hd gs) + en_skew env, oa_locked_until = None\<rparr>"
      using snoc False g by (auto simp: sorted_append)
    then have "findOnboardingLock h (service_now env (at_db_time t ?w)) (aw_store (at_db_time t ?w)) = None"
      by (simp add: findOnboardingLock_def)
    from wrong_begin [OF assms(1-3) wrong this] before False snoc.prems show ?thesis
      unfolding run by (simp add: recordOnboardingFailure_def bumped_def g Let_def)
  qed
qed simp

text \<open>
  C23: Once a citizen's date of birth has been guessed wrong as often as the configuration
  allows inside one window, every attempt for that National ID within the lock period is refused
  without a change, the right date included and whatever NIDA would answer.
\<close>

theorem lockout_stops_guessing:
  assumes "hashNationalId (en_crypt env) nid (en_hmacKey env) = Some h"
    and "en_nida env nid = Some (NIDA_FOUND req citizen lookup conf)" and "nc_citizenshipStatus citizen = RWANDAN_CITIZEN"
    and "is_attempts (aw_store w) h = None"
    and "gs \<noteq> []" and "list_all (wrong_guess env nid citizen \<circ> snd) gs" and "sorted (map fst gs)"
    and "fst (last gs) < fst (hd gs) + onboardingFailureWindowSeconds (en_config env) * 1000"
    and "int (length gs) = onboardingMaxFailures (en_config env)"
    and "t < fst (last gs) + onboardingLockSeconds (en_config env) * 1000"
    and "bg_rawNationalId cmd = nid"
  shows "beginOnboarding (env\<lparr>en_nida := nida\<rparr>) dr' elsewhere cmd (at_db_time t (guesses env dr gs w)) =
    (at_db_time t (guesses env dr gs w), Inr NOT_CONFIRMED)"
proof (rule locked_begin)
  show "hashNationalId (en_crypt (env\<lparr>en_nida := nida\<rparr>)) (bg_rawNationalId cmd) (en_hmacKey (env\<lparr>en_nida := nida\<rparr>)) = Some h"
    using assms(1,11) by simp
  have "is_attempts (aw_store (guesses env dr gs w)) h =
    Some \<lparr>oa_failed_count = int (length gs), oa_window_started_at = fst (hd gs) + en_skew env,
          oa_locked_until = Some (fst (last gs) + en_skew env + onboardingLockSeconds (en_config env) * 1000)\<rparr>"
    using counted_guesses [OF assms(1-8)] assms(9) by simp
  then show "findOnboardingLock h (service_now (env\<lparr>en_nida := nida\<rparr>) (at_db_time t (guesses env dr gs w)))
      (aw_store (at_db_time t (guesses env dr gs w))) \<noteq> None"
    using assms(10) by (simp add: findOnboardingLock_def service_now_def at_db_time_def)
qed


lemma find_last: "list_all (\<lambda>x. \<not> P x) xs \<Longrightarrow> find P (xs @ [y]) = (if P y then Some y else None)"
  by (induction xs) auto

lemma steps5: "(f ^^ 5) x = f (f (f (f (f x))))"
  by (simp add: eval_nat_numeral)

definition challenge_for :: "auth_env \<Rightarrow> auth_draws \<Rightarrow> uuid \<Rightarrow> string \<Rightarrow> 'ev auth_world \<Rightarrow> otp_challenge" where
  "challenge_for env dr who otpHash w =
     \<lparr>oc_id = dr_ids dr 2, oc_applicantId = who, oc_otpHash = otpHash,
      oc_expiresAt = service_now env w + otpTtlSeconds (en_config env) * 1000, oc_attempts = 0,
      oc_consumed_at = None, oc_created_at = is_now (aw_store w)\<rparr>"

lemma requested_code:
  assumes "verifyOnboardingToken (en_crypt env) (en_lib env) (en_hmacKey env) (rq_onboardingToken rq) (service_now env w) = Some who"
    and "normalizeRwandanMsisdn (rq_rawPhoneNumber rq) = Some phone"
    and "citizen_of (aw_store w) who \<noteq> None"
    and "hashPassword (en_crypt env) (dr_salt dr) (otpSecret env (code_text (dr_code dr)) phone) = Some otpHash"
    and "\<And>e. en_bus env e" and "\<not> list_ex (\<lambda>c. oc_id c = dr_ids dr 2) (is_challenges (aw_store w))"
    and "requestOtp env dr rq w = (w1, answer)"
  shows "answer = Inr CHALLENGED" "aw_sms w1 = aw_sms w @ [(phone, sms_body env (code_text (dr_code dr)))]"
    "aw_store w1 = (aw_store w)\<lparr>is_challenges := is_challenges (aw_store w) @ [challenge_for env dr who otpHash w]\<rparr>"
  using assms by (auto simp: requestOtp_def createChallenge_def publish_auth_def challenge_for_def service_now_def Let_def)

lemma verified_code:
  assumes "verifyOnboardingToken (en_crypt env) (en_lib env) (en_hmacKey env) (vo_onboardingToken vo) (service_now env w) = Some who"
    and "normalizeRwandanMsisdn (vo_rawPhoneNumber vo) = Some phone"
    and "findLiveChallenge who (aw_store w) = Some c" and "oc_attempts c < otpMaxAttempts (en_config env)"
    and "verifyPassword (en_crypt env) (otpSecret env (vo_otp vo) phone) (oc_otpHash c)"
    and "filter (consumable (oc_id c) (is_now (aw_store w))) (is_challenges (aw_store w)) = [c]"
    and "citizen_of (aw_store w) who = Some citizen" and "cz_deleted_at citizen = None"
    and "\<not> list_ex (\<lambda>r. se_token r = sessionTokenDigest (en_crypt env) (dr_token dr)) (is_sessions (aw_store w))"
    and "length (sessionTokenDigest (en_crypt env) (dr_token dr)) \<le> 256"
    and "\<And>e. en_bus env e" and "verifyOtp env dr vo w = (w', answer)"
  shows "answer = Inr (AUTHENTICATED (dr_token dr) (service_now env w + sessionTtlSeconds (en_config env) * 1000))"
    "is_sessions (aw_store w') = is_sessions (aw_store w) @
       [\<lparr>se_applicantId = who, se_token = sessionTokenDigest (en_crypt env) (dr_token dr), se_channel = vo_channel vo,
         se_expiresAt = service_now env w + sessionTtlSeconds (en_config env) * 1000,
         se_last_activity_at = is_now (aw_store w), se_terminated_at = None\<rparr>]"
  using assms
  by (auto simp: verifyOtp_def steps5 consumeChallenge_def update_challenges_def stampPhoneVerified_def update_citizen_def
      citizen_of_def map_of_update_row createSession_def publish_auth_def service_now_def Let_def)

lemma session_answer:
  "tok \<noteq> [] \<Longrightarrow> length tok \<le> 256 \<Longrightarrow>
   snd (authenticateSession env tok w) =
     map_option se_applicantId
       (find (live_session (sessionTokenDigest (en_crypt env) tok) (is_now (aw_store w))) (is_sessions (aw_store w)))"
  by (simp add: authenticateSession_def findLiveSession_def Let_def)

lemma after_logout:
  "tok \<noteq> [] \<Longrightarrow> length tok \<le> 256 \<Longrightarrow>
   snd (authenticateSession env tok (at_db_time u (logout env tok w))) = None"
  by (subst session_answer)
     (auto simp: find_None_iff logout_def terminateSession_def update_sessions_def live_session_def)

text \<open>
  C22: With an unexpired onboarding token of an identity on file, a request for a code is
  answered CHALLENGED and hands the code to the normalised phone; that code, sent back in time
  with any spelling of that phone, yields a session that names the applicant until it expires,
  and nobody after a logout.
\<close>

theorem code_signs_in:
  assumes "verifyOnboardingToken (en_crypt env) (en_lib env) (en_hmacKey env) (rq_onboardingToken rq) (service_now env w) = Some who"
    and "verifyOnboardingToken (en_crypt env) (en_lib env) (en_hmacKey env) (vo_onboardingToken vo) (t + en_skew env) = Some who"
    and "normalizeRwandanMsisdn (rq_rawPhoneNumber rq) = Some phone" and "normalizeRwandanMsisdn (vo_rawPhoneNumber vo) = Some phone"
    and "vo_otp vo = code_text (dr_code dr)"
    and "citizen_of (aw_store w) who = Some citizen" and "cz_deleted_at citizen = None"
    and "faithful_codec (en_crypt env)" and "hashPassword (en_crypt env) (dr_salt dr) (otpSecret env (vo_otp vo) phone) = Some otpHash"
    and "dr_salt dr \<noteq> []" and "scrypt (en_crypt env) (otpSecret env (vo_otp vo) phone) (dr_salt dr) 16384 8 1 \<noteq> Some []"
    and "\<And>e. en_bus env e" and "0 < otpMaxAttempts (en_config env)"
    and "\<not> list_ex (\<lambda>c. oc_id c = dr_ids dr 2) (is_challenges (aw_store w))"
    and "list_all (\<lambda>c. oc_created_at c \<le> is_now (aw_store w)) (is_challenges (aw_store w))"
    and "is_now (aw_store w) \<le> t" and "t < service_now env w + otpTtlSeconds (en_config env) * 1000"
    and "\<not> list_ex (\<lambda>r. se_token r = sessionTokenDigest (en_crypt env) (dr_token dr)) (is_sessions (aw_store w))"
    and "length (sessionTokenDigest (en_crypt env) (dr_token dr)) \<le> 256" and "dr_token dr \<noteq> []" and "length (dr_token dr) \<le> 256"
    and "requestOtp env dr rq w = (w1, answer)" and "verifyOtp env dr vo (at_db_time t w1) = (w2, answer')"
  shows "answer = Inr CHALLENGED \<and> aw_sms w1 = aw_sms w @ [(phone, sms_body env (vo_otp vo))] \<and>
    answer' = Inr (AUTHENTICATED (dr_token dr) (t + en_skew env + sessionTtlSeconds (en_config env) * 1000)) \<and>
    snd (authenticateSession env (dr_token dr) (at_db_time u w2)) =
      (if u < t + en_skew env + sessionTtlSeconds (en_config env) * 1000 then Some who else None) \<and>
    snd (authenticateSession env (dr_token dr) (at_db_time u (logout env (dr_token dr) w2))) = None"
proof -
  note code = assms(9) [unfolded assms(5)]
  have there: "citizen_of (aw_store w) who \<noteq> None" using assms(6) by simp
  note asked = requested_code [OF assms(1,3) there code assms(12,14,22)]
  define c where "c = challenge_for env dr who otpHash w"
  have w1: "aw_store w1 = (aw_store w)\<lparr>is_challenges := is_challenges (aw_store w) @ [c]\<rparr>" using asked(3) by (simp add: c_def)
  have live: "live_challenge t c"
    using assms(17) by (simp add: live_challenge_def c_def challenge_for_def)
  have "findLiveChallenge who (aw_store (at_db_time t w1)) =
      latest_by oc_created_at (filter (\<lambda>d. oc_applicantId d = who \<and> live_challenge t d) (is_challenges (aw_store w)) @ [c])"
    using live by (simp add: findLiveChallenge_def w1 c_def challenge_for_def)
  also have "\<dots> = Some c"
    by (rule latest_by_snoc_ge) (use assms(15) in \<open>auto simp: list_all_iff c_def challenge_for_def\<close>)
  finally have found: "findLiveChallenge who (aw_store (at_db_time t w1)) = Some c" .
  have "filter (consumable (oc_id c) t) (is_challenges (aw_store w)) = []"
    using assms(14) by (auto simp: filter_empty_conv consumable_def list_ex_iff c_def challenge_for_def)
  then have only: "filter (consumable (oc_id c) (is_now (aw_store (at_db_time t w1)))) (is_challenges (aw_store (at_db_time t w1))) = [c]"
    using live by (simp add: w1 consumable_def)
  have accepts: "verifyPassword (en_crypt env) (otpSecret env (vo_otp vo) phone) (oc_otpHash c)"
    using password_digest_accepts [OF assms(8,9,10,11)] by (simp add: c_def challenge_for_def)
  have attempts: "oc_attempts c < otpMaxAttempts (en_config env)" using assms(13) by (simp add: c_def challenge_for_def)
  have token: "verifyOnboardingToken (en_crypt env) (en_lib env) (en_hmacKey env) (vo_onboardingToken vo)
      (service_now env (at_db_time t w1)) = Some who" using assms(2) by simp
  have citizen: "citizen_of (aw_store (at_db_time t w1)) who = Some citizen"
    using assms(6) by (simp add: w1 citizen_of_def)
  have unused: "\<not> list_ex (\<lambda>r. se_token r = sessionTokenDigest (en_crypt env) (dr_token dr)) (is_sessions (aw_store (at_db_time t w1)))"
    using assms(18) by (simp add: w1)
  note signed = verified_code [OF token assms(4) found attempts accepts only citizen assms(7) unused assms(19,12,23)]
  let ?d = "sessionTokenDigest (en_crypt env) (dr_token dr)"
  have others: "list_all (\<lambda>r. \<not> live_session ?d u r) (is_sessions (aw_store w))"
    using assms(18) by (auto simp: list_all_iff list_ex_iff live_session_def)
  have sessions: "is_sessions (aw_store w2) = is_sessions (aw_store w) @
       [\<lparr>se_applicantId = who, se_token = ?d, se_channel = vo_channel vo,
         se_expiresAt = t + en_skew env + sessionTtlSeconds (en_config env) * 1000, se_last_activity_at = t,
         se_terminated_at = None\<rparr>]"
    using signed(2) by (simp add: w1)
  have "snd (authenticateSession env (dr_token dr) (at_db_time u w2)) =
      (if u < t + en_skew env + sessionTtlSeconds (en_config env) * 1000 then Some who else None)"
    using assms(20,21) by (subst session_answer) (simp_all add: sessions find_last [OF others] live_session_def)
  moreover have "snd (authenticateSession env (dr_token dr) (at_db_time u (logout env (dr_token dr) w2))) = None"
    using assms(20,21) by (rule after_logout)
  ultimately show ?thesis using asked(1,2) signed(1) assms(5) by simp
qed

subsection \<open>At concrete inputs\<close>

definition sample_nida_citizen :: nida_citizen where
  "sample_nida_citizen =
     \<lparr>nc_fullName = ''name'', nc_dateOfBirth = ''2001-02-03'', nc_gender = FEMALE, nc_homeDistrict = ''Gasabo'',
      nc_homeProvince = ''Kigali'', nc_citizenshipStatus = RWANDAN_CITIZEN\<rparr>"

definition sample_auth_env :: auth_env where
  "sample_auth_env =
     \<lparr>en_crypt = plain_keys,
      en_lib = token_for (onboarding_json \<lparr>op_v = TOKEN_VERSION, op_sub = ''citizen'', op_exp = 901\<rparr>),
      en_hmacKey = ''key'', en_encrypt = (\<lambda>s. s),
      en_config = \<lparr>otpTtlSeconds = 300, otpMaxAttempts = 5, sessionTtlSeconds = 1800, onboardingMaxFailures = 2,
        onboardingFailureWindowSeconds = 900, onboardingLockSeconds = 900\<rparr>,
      en_nida = (\<lambda>_. Some (NIDA_FOUND ''req'' sample_nida_citizen ''00'' None)), en_bus = (\<lambda>_. True), en_skew = 0\<rparr>"

definition sample_citizen_columns :: citizen_columns where
  "sample_citizen_columns =
     new_citizen sample_auth_env
       \<lparr>ci_nationalIdHash = ''hash'', ci_nidaLookupHash = ''00'', ci_nationalIdHint = None, ci_fullName = ''name'',
        ci_dateOfBirth = ''2001-02-03'', ci_homeDistrict = ''Gasabo'', ci_homeProvince = ''Kigali'', ci_gender = FEMALE,
        ci_registrationChannel = WEB, ci_phoneNumberHash = None, ci_nidaVerificationRequestId = ''req'',
        ci_nidaMatchConfidence = None\<rparr> 0"

definition sample_auth_world :: "string auth_world" where
  "sample_auth_world =
     \<lparr>aw_store = \<lparr>is_db = sample_db empty_schema, is_citizens = [(''citizen'', sample_citizen_columns)],
        is_challenges = [], is_sessions = [], is_attempts = (\<lambda>_. None)\<rparr>,
      aw_sms = [], aw_published = []\<rparr>"

definition sample_draws :: auth_draws where
  "sample_draws = \<lparr>dr_ids = (\<lambda>_. ''id''), dr_stamps = (\<lambda>_. ''now''), dr_code = 42, dr_salt = [1, 2], dr_token = ''tok''\<rparr>"

definition sample_begin :: "string \<Rightarrow> begin_command" where
  "sample_begin dob = \<lparr>bg_rawNationalId = ''1190080012345678'', bg_dateOfBirth = dob, bg_channel = WEB, bg_context = None\<rparr>"

theorem lockout_stops_guessing_witness:
  "snd (beginOnboarding sample_auth_env sample_draws id (sample_begin ''2001-02-03'')
     (at_db_time 600000 (guesses sample_auth_env sample_draws
        [(1000, sample_begin ''1999-01-01''), (2000, sample_begin ''1999-01-02'')] sample_auth_world))) = Inr NOT_CONFIRMED"
proof -
  let ?gs = "[(1000, sample_begin ''1999-01-01''), (2000, sample_begin ''1999-01-02'')] :: (instant \<times> begin_command) list"
  have hash: "hashNationalId (en_crypt sample_auth_env) ''1190080012345678'' (en_hmacKey sample_auth_env) = Some ''1d''"
    by code_simp
  have wrong: "list_all (wrong_guess sample_auth_env ''1190080012345678'' sample_nida_citizen \<circ> snd) ?gs"
    by code_simp
  have same: "sample_auth_env\<lparr>en_nida := en_nida sample_auth_env\<rparr> = sample_auth_env" by simp
  show ?thesis
    using lockout_stops_guessing [OF hash _ _ _ _ wrong, of "''req''" "''00''" None sample_auth_world 600000
        "sample_begin ''2001-02-03''" "en_nida sample_auth_env" sample_draws id sample_draws]
    unfolding same
    by (simp add: sample_auth_env_def sample_nida_citizen_def sample_auth_world_def sample_begin_def)
qed

definition sample_otp_request :: request_otp_command where
  "sample_otp_request = \<lparr>rq_onboardingToken = ''p.00'', rq_rawPhoneNumber = ''0788 123 456'', rq_channel = WEB, rq_context = None\<rparr>"

definition sample_otp_answer :: verify_otp_command where
  "sample_otp_answer =
     \<lparr>vo_onboardingToken = ''p.00'', vo_rawPhoneNumber = ''+250 (0)788-123-456'', vo_otp = ''000042'', vo_channel = WEB, vo_context = None\<rparr>"

lemma sample_token:
  "t < 901000 \<Longrightarrow> verifyOnboardingToken (en_crypt sample_auth_env) (en_lib sample_auth_env) (en_hmacKey sample_auth_env) ''p.00'' t = Some ''citizen''"
proof -
  assume "t < 901000"
  then have "\<not> (901 :: real) \<le> of_int (t div 1000)" by linarith
  moreover have "timingSafeEqualHex ''00'' ''00''" by code_simp
  ultimately show ?thesis
    by (simp add: verifyOnboardingToken_def sample_auth_env_def token_for_def plain_keys_def last_index_of_def
        onboarding_json_def Let_def signingKey_def)
qed

theorem code_signs_in_witness:
  "snd (authenticateSession sample_auth_env ''tok''
     (at_db_time 4000 (fst (verifyOtp sample_auth_env sample_draws sample_otp_answer
        (at_db_time 3000 (fst (requestOtp sample_auth_env sample_draws sample_otp_request sample_auth_world))))))) =
   Some ''citizen''"
proof -
  obtain w1 a where asked: "requestOtp sample_auth_env sample_draws sample_otp_request sample_auth_world = (w1, a)"
    by (rule prod.exhaust)
  obtain w2 b where answered: "verifyOtp sample_auth_env sample_draws sample_otp_answer (at_db_time 3000 w1) = (w2, b)"
    by (rule prod.exhaust)
  have phones: "normalizeRwandanMsisdn ''0788 123 456'' = Some ''+250788123456''"
      "normalizeRwandanMsisdn ''+250 (0)788-123-456'' = Some ''+250788123456''"
      "code_text 42 = ''000042''"
    by code_simp+
  have digest: "hashPassword (en_crypt sample_auth_env) [1, 2] secret =
      Some (joined CHR ''$'' [''scrypt'', show_int SCRYPT_N, show_int SCRYPT_R, show_int SCRYPT_P,
        base64_text plain_keys [1, 2], base64_text plain_keys (7 # map of_char secret)])" for secret
    by (simp add: hashPassword_def sample_auth_env_def plain_keys_def)
  have codec: "faithful_codec (en_crypt sample_auth_env)" by (simp add: sample_auth_env_def faithful_plain_keys)
  have facts: "service_now sample_auth_env sample_auth_world = 1000" "en_skew sample_auth_env = 0" "is_now (aw_store sample_auth_world) = 1000"
      "otpTtlSeconds (en_config sample_auth_env) = 300" "otpMaxAttempts (en_config sample_auth_env) = 5"
      "sessionTtlSeconds (en_config sample_auth_env) = 1800" "en_bus sample_auth_env e"
      "is_challenges (aw_store sample_auth_world) = []" "is_sessions (aw_store sample_auth_world) = []"
      "citizen_of (aw_store sample_auth_world) ''citizen'' = Some sample_citizen_columns" "cz_deleted_at sample_citizen_columns = None"
      "length (sessionTokenDigest (en_crypt sample_auth_env) ''tok'') \<le> 256"
      "scrypt (en_crypt sample_auth_env) secret salt n r p \<noteq> Some []" for e secret salt n r p
    by (simp_all add: service_now_def sample_auth_env_def sample_auth_world_def sample_db_def citizen_of_def
        sample_citizen_columns_def new_citizen_def sessionTokenDigest_def plain_keys_def)
  have texts: "vo_otp sample_otp_answer = ''000042''" "vo_rawPhoneNumber sample_otp_answer = ''+250 (0)788-123-456''"
      "rq_rawPhoneNumber sample_otp_request = ''0788 123 456''" "dr_code sample_draws = 42" "dr_salt sample_draws = [1, 2]"
      "rq_onboardingToken sample_otp_request = ''p.00''" "vo_onboardingToken sample_otp_answer = ''p.00''"
      "dr_token sample_draws = ''tok''"
    by (simp_all add: sample_otp_answer_def sample_otp_request_def sample_draws_def)
  have "snd (authenticateSession sample_auth_env (dr_token sample_draws) (at_db_time 4000 w2)) =
      (if 4000 < 3000 + en_skew sample_auth_env + sessionTtlSeconds (en_config sample_auth_env) * 1000 then Some ''citizen'' else None)"
    by (rule code_signs_in [where rq = sample_otp_request and vo = sample_otp_answer and t = 3000 and dr = sample_draws and u = 4000 and
          w = sample_auth_world and ?w1.0 = w1 and answer = a and answer' = b and citizen = sample_citizen_columns,
          THEN conjunct2, THEN conjunct2, THEN conjunct2, THEN conjunct1])
       (simp_all only: facts texts phones asked answered codec digest sample_token, simp_all)
  then show ?thesis by (simp add: asked answered facts texts)
qed

end
