(* ===== verification/SignIn.thy ===== *)
theory SignIn
  imports ApplicantAuth
begin

text \<open>
  Concurrent sign-ins: any number of \<open>verifyOtp\<close> requests, interleaved statement by statement with each
  other, with faults, and with every other request of the service. The invariant of the reachable
  states ties each session to a code of its own; the run at the end shows what the attempt limit does
  not stop.
\<close>

subsection \<open>Interleaved requests\<close>

type_synonym request = "auth_draws \<times> verify_otp_command \<times> verify_point"

abbreviation point_of :: "request \<Rightarrow> verify_point" where
  "point_of r \<equiv> snd (snd r)"

fun locals_of :: "verify_point \<Rightarrow> verify_locals option" where
  "locals_of At_start = None"
| "locals_of (At_recordFailedAttempt l) = Some l"
| "locals_of (At_consumeChallenge l) = Some l"
| "locals_of (At_stampPhoneVerified l) = Some l"
| "locals_of (At_createSession l) = Some l"
| "locals_of (At_audit l _) = Some l"
| "locals_of (Answered l _) = l"
| "locals_of (Stopped p _) = locals_of p"

text \<open>A request has won its challenge, and has issued its session.\<close>

fun issued :: "verify_point \<Rightarrow> bool" where
  "issued (At_audit _ _) = True"
| "issued (Answered _ (AUTHENTICATED _ _)) = True"
| "issued (Stopped p _) = issued p"
| "issued _ = False"

fun won :: "verify_point \<Rightarrow> bool" where
  "won (At_stampPhoneVerified _) = True"
| "won (At_createSession _) = True"
| "won (Stopped p _) = won p"
| "won p = issued p"

fun accepted :: "verify_point \<Rightarrow> bool" where
  "accepted (At_consumeChallenge _) = True"
| "accepted (Stopped p _) = accepted p"
| "accepted p = won p"

definition challenge_id :: "verify_point \<Rightarrow> uuid option" where
  "challenge_id p = map_option (\<lambda>l. oc_id (vl_challenge l)) (locals_of p)"

definition unanswered :: "verify_point \<Rightarrow> bool" where
  "unanswered p \<longleftrightarrow> (case p of Answered _ _ \<Rightarrow> False | Stopped _ _ \<Rightarrow> False | _ \<Rightarrow> True)"

text \<open>
  The ids the engine draws are new. Other writers (the biometric projection, erasure, the retention
  sweep) may delete challenges and sessions and change everything else, but add none.
\<close>

definition unused_id :: "uuid \<Rightarrow> 'ev auth_world \<Rightarrow> request list \<Rightarrow> bool" where
  "unused_id i w ts \<longleftrightarrow>
     list_all (\<lambda>c. oc_id c \<noteq> i) (is_challenges (aw_store w)) \<and> list_all (\<lambda>r. challenge_id (point_of r) \<noteq> Some i) ts"

inductive sign_in_step :: "auth_env \<Rightarrow> 'ev auth_world \<times> request list \<Rightarrow> 'ev auth_world \<times> request list \<Rightarrow> bool"
  for env where
  Arrive: "sign_in_step env (w, ts) (w, ts @ [(dr, cmd, At_start)])"
| Proceed: "i < length ts \<Longrightarrow> ts ! i = (dr, cmd, p) \<Longrightarrow> verify_step env dr cmd p w = (p', w') \<Longrightarrow>
    sign_in_step env (w, ts) (w', ts[i := (dr, cmd, p')])"
| Fault: "i < length ts \<Longrightarrow> ts ! i = (dr, cmd, p) \<Longrightarrow> unanswered p \<Longrightarrow>
    sign_in_step env (w, ts) (w, ts[i := (dr, cmd, Stopped p e)])"
| Ask: "unused_id (dr_ids dr 2) w ts \<Longrightarrow> sign_in_step env (w, ts) (fst (requestOtp env dr rq w), ts)"
| Begin: "sign_in_step env (w, ts) (fst (beginOnboarding env dr id bg w), ts)"
| Use: "sign_in_step env (w, ts) (fst (authenticateSession env token w), ts)"
| Leave: "sign_in_step env (w, ts) (logout env token w, ts)"
| Elsewhere: "is_challenges (aw_store w') = filter P (is_challenges (aw_store w)) \<Longrightarrow>
    is_sessions (aw_store w') = filter Q (is_sessions (aw_store w)) \<Longrightarrow> sign_in_step env (w, ts) (w', ts)"

inductive signing_in :: "auth_env \<Rightarrow> 'ev auth_world \<times> request list \<Rightarrow> bool" for env where
  Opening: "is_challenges (aw_store w) = [] \<Longrightarrow> is_sessions (aw_store w) = [] \<Longrightarrow> signing_in env (w, [])"
| Next: "signing_in env s \<Longrightarrow> sign_in_step env s s' \<Longrightarrow> signing_in env s'"

inductive_cases sign_in_stepE: "sign_in_step env s s'"

subsection \<open>One code, one session\<close>

text \<open>The guess of a request was right for the challenge it read.\<close>

definition right_guess :: "auth_env \<Rightarrow> verify_otp_command \<Rightarrow> verify_locals \<Rightarrow> bool" where
  "right_guess env cmd l \<longleftrightarrow>
     oc_applicantId (vl_challenge l) = vl_applicantId l \<and>
     oc_attempts (vl_challenge l) < otpMaxAttempts (en_config env) \<and>
     (\<exists>t. verifyOnboardingToken (en_crypt env) (en_lib env) (en_hmacKey env) (vo_onboardingToken cmd) t = Some (vl_applicantId l)) \<and>
     normalizeRwandanMsisdn (vo_rawPhoneNumber cmd) = Some (vl_phone l) \<and>
     verifyPassword (en_crypt env) (otpSecret env (vo_otp cmd) (vl_phone l)) (oc_otpHash (vl_challenge l))"

definition right_request :: "auth_env \<Rightarrow> request \<Rightarrow> bool" where
  "right_request env r \<longleftrightarrow>
     (accepted (point_of r) \<longrightarrow> (\<exists>l. locals_of (point_of r) = Some l \<and> right_guess env (fst (snd r)) l))"

definition spent :: "otp_challenge list \<Rightarrow> verify_point \<Rightarrow> bool" where
  "spent cs p \<longleftrightarrow> (won p \<longrightarrow> (\<forall>c \<in> set cs. challenge_id p = Some (oc_id c) \<longrightarrow> oc_consumed_at c \<noteq> None))"

definition exclusive :: "request list \<Rightarrow> bool" where
  "exclusive ts \<longleftrightarrow>
     (\<forall>i < length ts. \<forall>j < length ts. i \<noteq> j \<longrightarrow> won (point_of (ts ! i)) \<longrightarrow> won (point_of (ts ! j)) \<longrightarrow>
        challenge_id (point_of (ts ! i)) \<noteq> challenge_id (point_of (ts ! j)))"

definition issued_by :: "auth_env \<Rightarrow> applicant_session \<Rightarrow> request \<Rightarrow> bool" where
  "issued_by env s r \<longleftrightarrow>
     issued (point_of r) \<and> se_token s = sessionTokenDigest (en_crypt env) (dr_token (fst r)) \<and>
     map_option vl_applicantId (locals_of (point_of r)) = Some (se_applicantId s)"

definition sign_in_inv :: "auth_env \<Rightarrow> 'ev auth_world \<times> request list \<Rightarrow> bool" where
  "sign_in_inv env s \<longleftrightarrow>
     list_all (right_request env) (snd s) \<and>
     list_all (\<lambda>r. spent (is_challenges (aw_store (fst s))) (point_of r)) (snd s) \<and>
     exclusive (snd s) \<and>
     distinct (map oc_id (is_challenges (aw_store (fst s)))) \<and>
     distinct (map se_token (is_sessions (aw_store (fst s)))) \<and>
     (\<forall>x \<in> set (is_sessions (aw_store (fst s))). \<exists>r \<in> set (snd s). issued_by env x r)"

lemma issued_won: "issued p \<Longrightarrow> won p"
  by (induction p rule: issued.induct) auto

lemma won_accepted: "won p \<Longrightarrow> accepted p"
  by (induction p rule: won.induct) auto

text \<open>What one statement of a request does to the two tables and to its own standing.\<close>

definition same_but_attempts :: "otp_challenge \<Rightarrow> otp_challenge \<Rightarrow> bool" where
  "same_but_attempts c d \<longleftrightarrow> oc_id d = oc_id c \<and> oc_consumed_at d = oc_consumed_at c"

lemma started:
  assumes "verify_step env dr cmd At_start w = (p', w')"
  shows "w' = w \<and> \<not> won p' \<and> (accepted p' \<longrightarrow> (\<exists>l. locals_of p' = Some l \<and> right_guess env cmd l))"
  using assms
  by (auto simp: Let_def right_guess_def findLiveChallenge_def dest!: latest_by_SomeD split: option.splits if_splits)

lemma won_step:
  assumes "verify_step env dr cmd (At_consumeChallenge l) w = (p', w')"
  shows "is_sessions (aw_store w') = is_sessions (aw_store w) \<and>
    is_challenges (aw_store w') =
      map (\<lambda>c. if consumable (oc_id (vl_challenge l)) (is_now (aw_store w)) c
               then c\<lparr>oc_consumed_at := Some (is_now (aw_store w))\<rparr> else c) (is_challenges (aw_store w)) \<and>
    (p' = Answered (Some l) INVALID_OTP \<or>
     p' = At_stampPhoneVerified l \<and>
     length (filter (consumable (oc_id (vl_challenge l)) (is_now (aw_store w))) (is_challenges (aw_store w))) = 1)"
  using assms by (simp add: consumeChallenge_def update_challenges_def) (auto split: if_splits)

lemma issue_step:
  assumes "verify_step env dr cmd (At_createSession l) w = (p', w')"
  shows "is_challenges (aw_store w') = is_challenges (aw_store w) \<and>
    (p' = Stopped (At_createSession l) Identity_persistence \<and> w' = w \<or>
     (\<exists>until x. p' = At_audit l until \<and> is_sessions (aw_store w') = is_sessions (aw_store w) @ [x] \<and>
        se_token x = sessionTokenDigest (en_crypt env) (dr_token dr) \<and> se_applicantId x = vl_applicantId l \<and>
        (\<forall>y \<in> set (is_sessions (aw_store w)). se_token y \<noteq> se_token x)))"
  using assms by (auto simp: createSession_def Let_def list_ex_iff split: option.splits if_splits)

lemma other_step:
  assumes "verify_step env dr cmd p w = (p', w')"
    and "p \<noteq> At_start" and "\<And>l. p \<noteq> At_consumeChallenge l" and "\<And>l. p \<noteq> At_createSession l"
  shows "is_sessions (aw_store w') = is_sessions (aw_store w) \<and>
    list_all2 same_but_attempts (is_challenges (aw_store w)) (is_challenges (aw_store w')) \<and>
    locals_of p' = locals_of p \<and> won p' = won p \<and> issued p' = issued p \<and> accepted p' = accepted p"
  using assms
  by (cases p)
     (auto simp: same_but_attempts_def recordFailedAttempt_def update_challenges_def list_all2_map2 list_all2_refl stampPhoneVerified_def
       update_citizen_def publish_auth_def Let_def intro!: list_all2_refl split: option.splits if_splits)


text \<open>How the parts of the invariant survive.\<close>

lemma spent_mono:
  assumes "spent cs p" and "list_all2 same_but_attempts cs ds" shows "spent ds p"
proof (unfold spent_def, intro impI ballI)
  fix d assume d: "d \<in> set ds" and w: "won p" and i: "challenge_id p = Some (oc_id d)"
  from assms(2) d obtain c where "c \<in> set cs" "same_but_attempts c d"
    by (metis in_set_conv_nth list_all2_conv_all_nth)
  with assms(1) w i show "oc_consumed_at d \<noteq> None" by (auto simp: spent_def same_but_attempts_def)
qed

lemma spent_subset: "spent cs p \<Longrightarrow> set ds \<subseteq> set cs \<Longrightarrow> spent ds p"
  by (auto simp: spent_def)

lemma spent_stamp: "spent cs p \<Longrightarrow> spent (map (\<lambda>c. if P c then c\<lparr>oc_consumed_at := Some t\<rparr> else c) cs) p"
  by (auto simp: spent_def)

lemma issued_by_cong:
  "issued (point_of r') = issued (point_of r) \<Longrightarrow> locals_of (point_of r') = locals_of (point_of r) \<Longrightarrow> fst r' = fst r \<Longrightarrow>
   issued_by env x r \<Longrightarrow> issued_by env x r'"
  by (simp add: issued_by_def)

lemma exclusive_update:
  assumes "exclusive ts" and "i < length ts"
    and "won p' \<Longrightarrow> won (point_of (ts ! i)) \<and> challenge_id p' = challenge_id (point_of (ts ! i)) \<or>
      (\<forall>j < length ts. j \<noteq> i \<longrightarrow> won (point_of (ts ! j)) \<longrightarrow> challenge_id (point_of (ts ! j)) \<noteq> challenge_id p')"
  shows "exclusive (ts[i := (dr, cmd, p')])"
  unfolding exclusive_def
proof (intro allI impI)
  fix j k assume jk: "j < length (ts[i := (dr, cmd, p')])" "k < length (ts[i := (dr, cmd, p')])" "j \<noteq> k"
    "won (point_of (ts[i := (dr, cmd, p')] ! j))" "won (point_of (ts[i := (dr, cmd, p')] ! k))"
  have old: "challenge_id (point_of (ts ! a)) \<noteq> challenge_id (point_of (ts ! b))"
    if "a < length ts" "b < length ts" "a \<noteq> b" "won (point_of (ts ! a))" "won (point_of (ts ! b))" for a b
    using assms(1) that unfolding exclusive_def by blast
  consider "j = i" | "k = i" | "j \<noteq> i" "k \<noteq> i" by blast
  then show "challenge_id (point_of (ts[i := (dr, cmd, p')] ! j)) \<noteq> challenge_id (point_of (ts[i := (dr, cmd, p')] ! k))"
  proof cases
    case 1
    then have "won p'" "k < length ts" "k \<noteq> i" "won (point_of (ts ! k))" using jk by (auto simp: nth_list_update)
    then show ?thesis using assms(3) old [of i k] 1 jk assms(2) by (auto simp: nth_list_update)
  next
    case 2
    then have "won p'" "j < length ts" "j \<noteq> i" "won (point_of (ts ! j))" using jk by (auto simp: nth_list_update)
    then show ?thesis using assms(3) old [of i j] 2 jk assms(2) by (auto simp: nth_list_update)
  next
    case 3
    then show ?thesis using old [of j k] jk by (auto simp: nth_list_update)
  qed
qed

lemma list_all_update: "list_all P xs \<Longrightarrow> P y \<Longrightarrow> list_all P (xs[i := y])"
  by (auto simp: list_all_iff dest: set_update_subset_insert [THEN subsetD])

text \<open>A change of the point that keeps every standing keeps the whole invariant.\<close>

lemma issued_by_update:
  assumes "\<exists>r \<in> set ts. issued_by env x r" and "i < length ts" and "ts ! i = (dr, cmd, p)"
    and "issued p \<Longrightarrow> issued p' \<and> locals_of p' = locals_of p"
  shows "\<exists>r \<in> set (ts[i := (dr, cmd, p')]). issued_by env x r"
proof -
  from assms(1) obtain j where j: "j < length ts" "issued_by env x (ts ! j)" by (metis in_set_conv_nth)
  show ?thesis
  proof (cases "j = i")
    case True
    then have "issued_by env x (dr, cmd, p')" using j assms(3,4) by (auto simp: issued_by_def)
    then show ?thesis using assms(2) by (metis set_update_memI)
  next
    case False
    then have "ts[i := (dr, cmd, p')] ! j = ts ! j" by simp
    then show ?thesis using j by (metis length_list_update nth_mem)
  qed
qed

lemma keep_inv:
  assumes "sign_in_inv env (w, ts)" and "i < length ts" and "ts ! i = (dr, cmd, p)"
    and "list_all2 same_but_attempts (is_challenges (aw_store w)) (is_challenges (aw_store w'))"
    and "is_sessions (aw_store w') = is_sessions (aw_store w)"
    and "won p' \<Longrightarrow> won p \<and> locals_of p' = locals_of p" and "issued p \<Longrightarrow> issued p' \<and> locals_of p' = locals_of p"
    and "accepted p' \<Longrightarrow> accepted p \<and> locals_of p' = locals_of p \<or> (\<exists>l. locals_of p' = Some l \<and> right_guess env cmd l)"
  shows "sign_in_inv env (w', ts[i := (dr, cmd, p')])"
proof -
  have inv: "list_all (right_request env) ts" "list_all (\<lambda>r. spent (is_challenges (aw_store w)) (point_of r)) ts"
      "exclusive ts" "distinct (map se_token (is_sessions (aw_store w)))" "distinct (map oc_id (is_challenges (aw_store w)))"
      "\<forall>x \<in> set (is_sessions (aw_store w)). \<exists>r \<in> set ts. issued_by env x r"
    using assms(1) by (simp_all add: sign_in_inv_def)
  have here: "right_request env (dr, cmd, p)" "spent (is_challenges (aw_store w)) p"
    using inv(1,2) assms(2,3) by (metis list_all_length snd_conv)+
  have "right_request env (dr, cmd, p')" using here(1) assms(8) by (auto simp: right_request_def)
  then have "list_all (right_request env) (ts[i := (dr, cmd, p')])" using inv(1) by (rule list_all_update [rotated])
  moreover have "spent (is_challenges (aw_store w')) p'"
    using spent_mono [OF here(2) assms(4)] assms(6) by (auto simp: spent_def challenge_id_def)
  then have "list_all (\<lambda>r. spent (is_challenges (aw_store w')) (point_of r)) (ts[i := (dr, cmd, p')])"
    using inv(2) spent_mono [OF _ assms(4)] by (intro list_all_update) (auto simp: list_all_iff)
  moreover have "exclusive (ts[i := (dr, cmd, p')])"
    using inv(3) assms(2) by (rule exclusive_update) (use assms(3,6) in \<open>auto simp: challenge_id_def\<close>)
  moreover have "\<exists>r \<in> set (ts[i := (dr, cmd, p')]). issued_by env x r" if "x \<in> set (is_sessions (aw_store w))" for x
    using inv(6) that issued_by_update [OF _ assms(2,3,7)] by blast
  moreover have "map oc_id (is_challenges (aw_store w')) = map oc_id (is_challenges (aw_store w))"
    using assms(4) by (induction rule: list_all2_induct) (auto simp: same_but_attempts_def)
  ultimately show ?thesis using inv(4,5) by (simp add: sign_in_inv_def assms(5))
qed


lemma win_inv:
  assumes "sign_in_inv env (w, ts)" and "i < length ts" and "ts ! i = (dr, cmd, At_consumeChallenge l)"
    and "is_sessions (aw_store w') = is_sessions (aw_store w)"
    and "is_challenges (aw_store w') =
      map (\<lambda>c. if consumable (oc_id (vl_challenge l)) t c then c\<lparr>oc_consumed_at := Some t\<rparr> else c) (is_challenges (aw_store w))"
    and "length (filter (consumable (oc_id (vl_challenge l)) t) (is_challenges (aw_store w))) = 1"
  shows "sign_in_inv env (w', ts[i := (dr, cmd, At_stampPhoneVerified l)])"
proof -
  let ?p' = "At_stampPhoneVerified l" and ?cs = "is_challenges (aw_store w)"
  have inv: "list_all (right_request env) ts" "list_all (\<lambda>r. spent ?cs (point_of r)) ts"
      "exclusive ts" "distinct (map oc_id ?cs)" "distinct (map se_token (is_sessions (aw_store w)))"
      "\<forall>x \<in> set (is_sessions (aw_store w)). \<exists>r \<in> set ts. issued_by env x r"
    using assms(1) by (simp_all add: sign_in_inv_def)
  from assms(6) obtain c where "filter (consumable (oc_id (vl_challenge l)) t) ?cs = [c]" by (auto simp: length_Suc_conv)
  then have "c \<in> set (filter (consumable (oc_id (vl_challenge l)) t) ?cs)" by simp
  then have c: "c \<in> set ?cs" "oc_id c = oc_id (vl_challenge l)" "live_challenge t c" by (simp_all add: consumable_def)
  have only: "d = c" if "d \<in> set ?cs" "oc_id d = oc_id (vl_challenge l)" for d
    using inv(4) that c by (metis distinct_map inj_onD)
  have "right_request env (dr, cmd, At_consumeChallenge l)" using inv(1) assms(2,3) by (metis list_all_length)
  then have "list_all (right_request env) (ts[i := (dr, cmd, ?p')])"
    by (intro list_all_update inv(1)) (simp add: right_request_def)
  moreover have "spent (is_challenges (aw_store w')) ?p'"
  proof -
    have "consumable (oc_id (vl_challenge l)) t d" if "d \<in> set ?cs" "oc_id d = oc_id (vl_challenge l)" for d
      using only [OF that] c by (simp add: consumable_def)
    then show ?thesis unfolding spent_def assms(5) challenge_id_def by (auto split: if_splits)
  qed
  then have "list_all (\<lambda>r. spent (is_challenges (aw_store w')) (point_of r)) (ts[i := (dr, cmd, ?p')])"
    using inv(2) by (intro list_all_update) (auto simp: list_all_iff assms(5) spent_stamp)
  moreover have "exclusive (ts[i := (dr, cmd, ?p')])"
    using inv(3) assms(2)
  proof (rule exclusive_update)
    have "challenge_id (point_of (ts ! j)) \<noteq> challenge_id ?p'" if j: "j < length ts" "won (point_of (ts ! j))" for j
    proof
      assume same: "challenge_id (point_of (ts ! j)) = challenge_id ?p'"
      have "spent ?cs (point_of (ts ! j))" using inv(2) j by (simp add: list_all_length)
      with j same c show False by (auto simp: spent_def challenge_id_def live_challenge_def)
    qed
    then show "won (point_of (ts ! i)) \<and> challenge_id ?p' = challenge_id (point_of (ts ! i)) \<or>
        (\<forall>j<length ts. j \<noteq> i \<longrightarrow> won (point_of (ts ! j)) \<longrightarrow> challenge_id (point_of (ts ! j)) \<noteq> challenge_id ?p')"
      by blast
  qed
  moreover have "\<exists>r \<in> set (ts[i := (dr, cmd, ?p')]). issued_by env x r" if "x \<in> set (is_sessions (aw_store w))" for x
    using inv(6) that issued_by_update [OF _ assms(2,3)] by simp
  moreover have "map oc_id (is_challenges (aw_store w')) = map oc_id ?cs" by (simp add: assms(5) comp_def)
  ultimately show ?thesis using inv(4,5) by (simp add: sign_in_inv_def assms(4))
qed

lemma issue_inv:
  assumes "sign_in_inv env (w, ts)" and "i < length ts" and "ts ! i = (dr, cmd, At_createSession l)"
    and "is_challenges (aw_store w') = is_challenges (aw_store w)"
    and "is_sessions (aw_store w') = is_sessions (aw_store w) @ [x]"
    and "se_token x = sessionTokenDigest (en_crypt env) (dr_token dr)" and "se_applicantId x = vl_applicantId l"
    and "\<forall>y \<in> set (is_sessions (aw_store w)). se_token y \<noteq> se_token x"
  shows "sign_in_inv env (w', ts[i := (dr, cmd, At_audit l until)])"
proof -
  let ?ts = "ts[i := (dr, cmd, At_audit l until)]"
  define v where "v = w'\<lparr>aw_store := (aw_store w')\<lparr>is_sessions := is_sessions (aw_store w)\<rparr>\<rparr>"
  have "sign_in_inv env (v, ?ts)"
    by (rule keep_inv [OF assms(1-3)]) (simp_all add: v_def assms(4) list_all2_refl same_but_attempts_def)
  moreover have "(dr, cmd, At_audit l until) \<in> set ?ts" using assms(2) by (simp add: set_update_memI)
  moreover have "issued_by env x (dr, cmd, At_audit l until)" using assms(6,7) by (simp add: issued_by_def)
  ultimately show ?thesis using assms(8) by (auto simp: sign_in_inv_def v_def assms(5))
qed

lemma proceed_inv:
  assumes "sign_in_inv env (w, ts)" and "i < length ts" and "ts ! i = (dr, cmd, p)"
    and "verify_step env dr cmd p w = (p', w')"
  shows "sign_in_inv env (w', ts[i := (dr, cmd, p')])"
proof -
  have same: "list_all2 same_but_attempts cs cs" for cs by (simp add: list_all2_refl same_but_attempts_def)
  consider "p = At_start" | l where "p = At_consumeChallenge l" | l where "p = At_createSession l"
    | "p \<noteq> At_start" "\<And>l. p \<noteq> At_consumeChallenge l" "\<And>l. p \<noteq> At_createSession l" by metis
  then show ?thesis
  proof cases
    case 1
    from started [OF assms(4) [unfolded 1]] same show ?thesis
      by (intro keep_inv [OF assms(1-3)]) (auto simp: 1)
  next
    case (2 l)
    note step = won_step [OF assms(4) [unfolded 2]]
    show ?thesis
    proof (cases "p' = Answered (Some l) INVALID_OTP")
      case True
      have "sign_in_inv env (w, ts[i := (dr, cmd, p')])"
        by (rule keep_inv [OF assms(1-3) same]) (simp_all add: True 2)
      then show ?thesis using step by (auto simp: sign_in_inv_def list_all_iff spent_stamp comp_def if_distrib cong: if_cong)
    next
      case False
      with step show ?thesis using win_inv [OF assms(1,2) assms(3) [unfolded 2]] by auto
    qed
  next
    case (3 l)
    note step = issue_step [OF assms(4) [unfolded 3]]
    show ?thesis
    proof (cases "p' = Stopped (At_createSession l) Identity_persistence \<and> w' = w")
      case True
      then show ?thesis by (intro keep_inv [OF assms(1-3)]) (auto simp: 3 same)
    next
      case False
      with step show ?thesis using issue_inv [OF assms(1,2) assms(3) [unfolded 3]] by auto
    qed
  next
    case 4
    from other_step [OF assms(4) 4] show ?thesis by (intro keep_inv [OF assms(1-3)]) auto
  qed
qed


text \<open>The other requests: no session is added, and a challenge at most one, unused and unconsumed.\<close>

definition fewer_sessions :: "applicant_session list \<Rightarrow> applicant_session list \<Rightarrow> bool" where
  "fewer_sessions old new \<longleftrightarrow>
     (\<exists>Q. map (\<lambda>x. (se_token x, se_applicantId x)) new = map (\<lambda>x. (se_token x, se_applicantId x)) (filter Q old))"

lemma fewer_sessions_facts:
  assumes "fewer_sessions old new" and "distinct (map se_token old)"
  shows "distinct (map se_token new)"
    "y \<in> set new \<Longrightarrow> \<exists>x \<in> set old. se_token x = se_token y \<and> se_applicantId x = se_applicantId y"
proof -
  let ?k = "\<lambda>x. (se_token x, se_applicantId x)"
  from assms(1) obtain Q where Q: "map ?k new = map ?k (filter Q old)" by (auto simp: fewer_sessions_def)
  have "map se_token new = map fst (map ?k new)" by (simp add: comp_def)
  also have "\<dots> = map se_token (filter Q old)" by (simp add: Q comp_def)
  finally show "distinct (map se_token new)" using assms(2) by (simp add: distinct_map_filter)
  assume "y \<in> set new"
  then have "?k y \<in> set (map ?k new)" by simp
  then show "\<exists>x \<in> set old. se_token x = se_token y \<and> se_applicantId x = se_applicantId y"
    unfolding Q by force
qed

lemma fewer_sessions_map:
  assumes "\<And>x. se_token (f x) = se_token x \<and> se_applicantId (f x) = se_applicantId x"
  shows "fewer_sessions xs (map f xs)"
  unfolding fewer_sessions_def by (rule exI [of _ "\<lambda>_. True"]) (simp add: assms comp_def)

lemma aside_inv:
  assumes "sign_in_inv env (w, ts)"
    and "is_challenges (aw_store w') = filter P (is_challenges (aw_store w)) @ cs"
    and "cs = [] \<or> (\<exists>c. cs = [c] \<and> unused_id (oc_id c) w ts)"
    and "fewer_sessions (is_sessions (aw_store w)) (is_sessions (aw_store w'))"
  shows "sign_in_inv env (w', ts)"
proof -
  have inv: "list_all (right_request env) ts" "list_all (\<lambda>r. spent (is_challenges (aw_store w)) (point_of r)) ts"
      "exclusive ts" "distinct (map oc_id (is_challenges (aw_store w)))" "distinct (map se_token (is_sessions (aw_store w)))"
      "\<forall>x \<in> set (is_sessions (aw_store w)). \<exists>r \<in> set ts. issued_by env x r"
    using assms(1) by (simp_all add: sign_in_inv_def)
  have "list_all (\<lambda>r. spent (is_challenges (aw_store w')) (point_of r)) ts"
    using inv(2) assms(3) by (auto simp: list_all_iff spent_def assms(2) unused_id_def)
  moreover have "distinct (map oc_id (is_challenges (aw_store w')))"
    using inv(4) assms(3) by (auto simp: assms(2) distinct_map_filter unused_id_def list_all_iff)
  moreover have "\<exists>r \<in> set ts. issued_by env y r" if y: "y \<in> set (is_sessions (aw_store w'))" for y
  proof -
    obtain x where "x \<in> set (is_sessions (aw_store w))" "se_token x = se_token y" "se_applicantId x = se_applicantId y"
      using fewer_sessions_facts(2) [OF assms(4) inv(5) y] by blast
    then show ?thesis using inv(6) unfolding issued_by_def by metis
  qed
  ultimately show ?thesis
    using inv(1,3) fewer_sessions_facts(1) [OF assms(4) inv(5)] by (simp add: sign_in_inv_def)
qed

lemma same_sessions: "fewer_sessions xs xs"
  by (auto simp: fewer_sessions_def intro: exI [of _ "\<lambda>_. True"])

lemma requestOtp_tables:
  "is_sessions (aw_store (fst (requestOtp env dr rq w))) = is_sessions (aw_store w) \<and>
   (\<exists>cs. is_challenges (aw_store (fst (requestOtp env dr rq w))) = is_challenges (aw_store w) @ cs \<and>
     (cs = [] \<or> (\<exists>c. cs = [c] \<and> oc_id c = dr_ids dr 2)))"
  by (auto simp: requestOtp_def createChallenge_def publish_auth_def Let_def split: option.splits)

lemma verify_identity_tables:
  "is_sessions (aw_store (fst (verify_identity env dr id cmd w))) = is_sessions (aw_store w)"
  "is_challenges (aw_store (fst (verify_identity env dr id cmd w))) = is_challenges (aw_store w)"
  by (auto simp: verify_identity_def createVerifiedIdentity_def answer_with_def publish_auth_def Let_def
      split: option.splits nida_lookup.splits)

lemma beginOnboarding_tables:
  "is_sessions (aw_store (fst (beginOnboarding env dr id bg w))) = is_sessions (aw_store w) \<and>
   is_challenges (aw_store (fst (beginOnboarding env dr id bg w))) = is_challenges (aw_store w)"
proof -
  have run: "is_sessions (aw_store w2) = is_sessions (aw_store w1) \<and> is_challenges (aw_store w2) = is_challenges (aw_store w1)"
    if "verify_identity env dr id cmd w1 = (w2, out)" for cmd and w1 w2 :: "'a auth_world" and out
    using verify_identity_tables [of env dr cmd w1] that by simp_all
  show ?thesis
    by (auto simp: beginOnboarding_def recordOnboardingFailure_def clearOnboardingFailures_def issue_token_def publish_auth_def
        Let_def dest!: run split: option.splits nida_lookup.splits prod.splits sum.splits)
qed

lemma step_inv_sign_in: "sign_in_step env s s' \<Longrightarrow> sign_in_inv env s \<Longrightarrow> sign_in_inv env s'"
proof (induction rule: sign_in_step.induct)
  case (Arrive w ts dr cmd)
  then show ?case
    by (auto simp: sign_in_inv_def exclusive_def right_request_def spent_def nth_append)
next
  case (Proceed i ts dr cmd p w p' w')
  then show ?case by (intro proceed_inv)
next
  case (Fault i ts dr cmd p w e)
  then show ?case
    by (intro keep_inv) (auto simp: list_all2_refl same_but_attempts_def right_request_def sign_in_inv_def)
next
  case (Ask dr w ts rq)
  obtain cs where asked: "is_challenges (aw_store (fst (requestOtp env dr rq w))) = is_challenges (aw_store w) @ cs"
      "cs = [] \<or> (\<exists>c. cs = [c] \<and> oc_id c = dr_ids dr 2)"
    using requestOtp_tables by blast
  show ?case
  proof (rule aside_inv [OF Ask(2)])
    show "is_challenges (aw_store (fst (requestOtp env dr rq w))) = filter (\<lambda>_. True) (is_challenges (aw_store w)) @ cs"
      by (simp add: asked(1))
    show "cs = [] \<or> (\<exists>c. cs = [c] \<and> unused_id (oc_id c) w ts)" using asked(2) Ask(1) by auto
    show "fewer_sessions (is_sessions (aw_store w)) (is_sessions (aw_store (fst (requestOtp env dr rq w))))"
      using requestOtp_tables [of env dr rq w] same_sessions by simp
  qed
next
  case (Begin w ts dr bg)
  show ?case
    by (rule aside_inv [OF Begin, where P = "\<lambda>_. True" and cs = "[]"])
      (use beginOnboarding_tables [of env dr bg w] same_sessions in simp_all)
next
  case (Use w ts token)
  have "fewer_sessions (is_sessions (aw_store w)) (is_sessions (aw_store (fst (authenticateSession env token w))))"
    by (auto simp: authenticateSession_def findLiveSession_def update_sessions_def Let_def intro: same_sessions fewer_sessions_map)
  then show ?case
    by (intro aside_inv [OF Use, where P = "\<lambda>_. True" and cs = "[]"])
      (simp_all add: authenticateSession_def findLiveSession_def update_sessions_def Let_def)
next
  case (Leave w ts token)
  have "fewer_sessions (is_sessions (aw_store w)) (is_sessions (aw_store (logout env token w)))"
    by (auto simp: logout_def terminateSession_def update_sessions_def intro: same_sessions fewer_sessions_map)
  then show ?case
    by (intro aside_inv [OF Leave, where P = "\<lambda>_. True" and cs = "[]"])
      (simp_all add: logout_def terminateSession_def update_sessions_def)
next
  case (Elsewhere w' P w Q ts)
  then have "fewer_sessions (is_sessions (aw_store w)) (is_sessions (aw_store w'))" by (auto simp: fewer_sessions_def)
  then show ?case
    by (intro aside_inv [OF Elsewhere(3), where P = P and cs = "[]"]) (simp_all add: Elsewhere(1))
qed

lemma signing_in_inv: "signing_in env s \<Longrightarrow> sign_in_inv env s"
proof (induction rule: signing_in.induct)
  case (Opening w)
  then show ?case by (simp add: sign_in_inv_def exclusive_def)
next
  case (Next s s')
  then show ?case using step_inv_sign_in by blast
qed


text \<open>The challenge a session was issued for: one of a request whose guess was right.\<close>

definition bought_with :: "auth_env \<Rightarrow> request list \<Rightarrow> applicant_session \<Rightarrow> uuid \<Rightarrow> bool" where
  "bought_with env ts x c \<longleftrightarrow>
     list_ex (\<lambda>(dr, cmd, p). issued p \<and> se_token x = sessionTokenDigest (en_crypt env) (dr_token dr) \<and>
       (case locals_of p of
          None \<Rightarrow> False
        | Some l \<Rightarrow> oc_id (vl_challenge l) = c \<and> vl_applicantId l = se_applicantId x \<and> right_guess env cmd l)) ts"

text \<open>
  C21: However concurrent sign-ins interleave with each other, with faults and with the rest of
  the service, there is a challenge for every session on file, a different one for each, issued
  to the session's applicant, and a request that named it presented an onboarding token of that
  applicant and the right code for the phone, before the challenge was locked.
\<close>

theorem one_code_buys_one_session:
  assumes "signing_in env (w, ts)"
  shows "\<exists>code. inj_on code (set (is_sessions (aw_store w))) \<and>
    list_all (\<lambda>x. bought_with env ts x (code x)) (is_sessions (aw_store w))"
proof -
  have inv: "list_all (right_request env) ts" "exclusive ts" "distinct (map se_token (is_sessions (aw_store w)))"
      "\<forall>x \<in> set (is_sessions (aw_store w)). \<exists>r \<in> set ts. issued_by env x r"
    using signing_in_inv [OF assms] by (simp_all add: sign_in_inv_def)
  have "\<forall>x \<in> set (is_sessions (aw_store w)). \<exists>i. i < length ts \<and> issued_by env x (ts ! i)"
    using inv(4) unfolding set_conv_nth by blast
  from bchoice [OF this] obtain r
    where r: "\<And>x. x \<in> set (is_sessions (aw_store w)) \<Longrightarrow> r x < length ts \<and> issued_by env x (ts ! r x)"
    by blast
  define code where "code x = the (challenge_id (point_of (ts ! r x)))" for x
  have right: "\<exists>l. locals_of (point_of (ts ! r x)) = Some l \<and> right_guess env (fst (snd (ts ! r x))) l \<and>
      vl_applicantId l = se_applicantId x \<and> code x = oc_id (vl_challenge l)"
    if x: "x \<in> set (is_sessions (aw_store w))" for x
  proof -
    have "right_request env (ts ! r x)" using r [OF x] inv(1) by (simp add: list_all_length)
    moreover have "accepted (point_of (ts ! r x))" using r [OF x] by (simp add: issued_by_def issued_won won_accepted)
    ultimately show ?thesis using r [OF x] by (auto simp: right_request_def issued_by_def code_def challenge_id_def)
  qed
  have "inj_on code (set (is_sessions (aw_store w)))"
  proof (rule inj_onI)
    fix x y assume x: "x \<in> set (is_sessions (aw_store w))" and y: "y \<in> set (is_sessions (aw_store w))" and same: "code x = code y"
    have "won (point_of (ts ! r x))" "won (point_of (ts ! r y))"
      using r [OF x] r [OF y] by (simp_all add: issued_by_def issued_won)
    moreover have "challenge_id (point_of (ts ! r x)) = challenge_id (point_of (ts ! r y))"
      using right [OF x] right [OF y] same by (auto simp: challenge_id_def)
    ultimately have "r x = r y" using inv(2) r [OF x] r [OF y] unfolding exclusive_def by blast
    then have "se_token x = se_token y" using r [OF x] r [OF y] by (simp add: issued_by_def)
    then show "x = y" using inv(3) x y by (metis distinct_map inj_onD)
  qed
  moreover have "bought_with env ts x (code x)" if x: "x \<in> set (is_sessions (aw_store w))" for x
    unfolding bought_with_def list_ex_length
  proof (intro exI conjI)
    show "r x < length ts" using r [OF x] by blast
    show "case ts ! r x of (dr, cmd, p) \<Rightarrow> issued p \<and> se_token x = sessionTokenDigest (en_crypt env) (dr_token dr) \<and>
        (case locals_of p of None \<Rightarrow> False
         | Some l \<Rightarrow> oc_id (vl_challenge l) = code x \<and> vl_applicantId l = se_applicantId x \<and> right_guess env cmd l)"
      using r [OF x] right [OF x] by (cases "ts ! r x") (auto simp: issued_by_def)
  qed
  ultimately show ?thesis by (intro exI [of _ code]) (simp add: list_all_iff)
qed

subsection \<open>Runs\<close>

lemma proceeds:
  assumes "signing_in env (w, ts @ (dr, cmd, p) # us)" and "verify_step env dr cmd p w = (p', w')"
  shows "signing_in env (w', ts @ (dr, cmd, p') # us)"
proof -
  have "sign_in_step env (w, ts @ (dr, cmd, p) # us) (w', (ts @ (dr, cmd, p) # us)[length ts := (dr, cmd, p')])"
    using assms(2) by (intro Proceed) simp_all
  then show ?thesis using Next [OF assms(1)] by simp
qed

lemma arrives: "signing_in env (w, ts) \<Longrightarrow> signing_in env (w, ts @ [(dr, cmd, At_start)])"
  by (rule Next) (auto intro: Arrive)

text \<open>Several requests read the same challenge before any of them writes.\<close>

lemma read_all:
  assumes "signing_in env (w, ts)" and "list_all (\<lambda>(dr, cmd). verify_step env dr cmd At_start w = (p, w)) gs"
  shows "signing_in env (w, ts @ map (\<lambda>(dr, cmd). (dr, cmd, p)) gs)"
  using assms(2)
proof (induction gs rule: rev_induct)
  case (snoc g gs)
  obtain dr cmd where g: "g = (dr, cmd)" by (cases g)
  have "signing_in env (w, (ts @ map (\<lambda>(dr, cmd). (dr, cmd, p)) gs) @ [(dr, cmd, At_start)])"
    using snoc by (intro arrives) (simp del: verify_step.simps)
  moreover have "verify_step env dr cmd At_start w = (p, w)" using snoc.prems by (simp add: g del: verify_step.simps)
  ultimately show ?case
    using proceeds [of env w "ts @ map (\<lambda>(dr, cmd). (dr, cmd, p)) gs" dr cmd At_start "[]" p w]
    by (simp add: g del: verify_step.simps)
qed (simp add: assms(1))

lemma fail_all:
  assumes "signing_in env (w, ts @ map (\<lambda>(dr, cmd). (dr, cmd, At_recordFailedAttempt l)) gs @ us)"
  shows "signing_in env
    (w\<lparr>aw_store := (recordFailedAttempt (oc_id (vl_challenge l)) ^^ length gs) (aw_store w)\<rparr>,
     ts @ map (\<lambda>(dr, cmd). (dr, cmd, Answered (Some l) INVALID_OTP)) gs @ us)"
  using assms
proof (induction gs arbitrary: w ts)
  case (Cons g gs)
  obtain dr cmd where g: "g = (dr, cmd)" by (cases g)
  let ?w = "w\<lparr>aw_store := recordFailedAttempt (oc_id (vl_challenge l)) (aw_store w)\<rparr>"
  have "signing_in env (?w, (ts @ [(dr, cmd, Answered (Some l) INVALID_OTP)]) @ map (\<lambda>(dr, cmd). (dr, cmd, At_recordFailedAttempt l)) gs @ us)"
    using proceeds [OF Cons.prems [unfolded g list.map append_Cons prod.case], of "Answered (Some l) INVALID_OTP" ?w] by simp
  from Cons.IH [OF this] show ?case by (simp add: g funpow_swap1)
qed simp

lemma failures_recorded:
  "(recordFailedAttempt i ^^ n) s =
     s\<lparr>is_challenges := map (\<lambda>c. if oc_id c = i then c\<lparr>oc_attempts := oc_attempts c + int n\<rparr> else c) (is_challenges s)\<rparr>"
proof (induction n)
  case 0
  have "map (\<lambda>c. if oc_id c = i then c\<lparr>oc_attempts := oc_attempts c + int 0\<rparr> else c) (is_challenges s) = is_challenges s"
    by (rule map_idI) simp
  then show ?case by (simp only: funpow.simps id_apply) simp
next
  case (Suc n)
  then show ?case by (auto simp: recordFailedAttempt_def update_challenges_def)
qed

lemma winner_finishes:
  fixes w :: "'ev auth_world"
  assumes "signing_in env (w, ts @ [(dr, cmd, At_consumeChallenge l)])"
    and "length (filter (consumable (oc_id (vl_challenge l)) (is_now (aw_store w))) (is_challenges (aw_store w))) = 1"
    and "citizen_of (aw_store w) (vl_applicantId l) = Some citizen" and "cz_deleted_at citizen = None"
    and "\<not> list_ex (\<lambda>r. se_token r = sessionTokenDigest (en_crypt env) (dr_token dr)) (is_sessions (aw_store w))"
    and "length (sessionTokenDigest (en_crypt env) (dr_token dr)) \<le> 256" and "\<And>e. en_bus env e"
  shows "\<exists>(w' :: 'ev auth_world) until. signing_in env (w', ts @ [(dr, cmd, Answered (Some l) (AUTHENTICATED (dr_token dr) until))]) \<and>
    map oc_attempts (is_challenges (aw_store w')) = map oc_attempts (is_challenges (aw_store w)) \<and>
    map oc_id (is_challenges (aw_store w')) = map oc_id (is_challenges (aw_store w))"
proof -
  let ?step = "verify_step env dr cmd" and ?cs = "\<lambda>w. is_challenges (aw_store w)" and ?ss = "\<lambda>w. is_sessions (aw_store w)"
  obtain w1 where s1: "?step (At_consumeChallenge l) w = (At_stampPhoneVerified l, w1)"
      and w1: "map oc_attempts (?cs w1) = map oc_attempts (?cs w)" "map oc_id (?cs w1) = map oc_id (?cs w)" "?ss w1 = ?ss w"
        "citizen_of (aw_store w1) = citizen_of (aw_store w)"
    using assms(2) by (simp add: consumeChallenge_def update_challenges_def citizen_of_def fun_eq_iff comp_def
        if_distrib [of oc_attempts] if_distrib [of oc_id])
  have there: "map_of (is_citizens (aw_store w1)) (vl_applicantId l) = Some citizen"
    using w1(4) assms(3) by (metis citizen_of_def)
  obtain w2 where s2: "?step (At_stampPhoneVerified l) w1 = (At_createSession l, w2)"
      and w2: "?cs w2 = ?cs w1" "?ss w2 = ?ss w1" "citizen_of (aw_store w2) (vl_applicantId l) \<noteq> None"
    using assms(4) there by (simp add: stampPhoneVerified_def update_citizen_def citizen_of_def map_of_update_row)
  obtain w3 until where s3: "?step (At_createSession l) w2 = (At_audit l until, w3)" and w3: "?cs w3 = ?cs w2"
    using w2(3) assms(5,6) by (simp add: createSession_def w1(3) w2(2) Let_def)
  obtain w4 where s4: "?step (At_audit l until) w3 = (Answered (Some l) (AUTHENTICATED (dr_token dr) until), w4)"
      and w4: "?cs w4 = ?cs w3"
    using assms(7) by (simp add: publish_auth_def Let_def)
  have "signing_in env (w4, ts @ [(dr, cmd, Answered (Some l) (AUTHENTICATED (dr_token dr) until))])"
    by (rule proceeds [OF proceeds [OF proceeds [OF proceeds [OF assms(1) s1] s2] s3] s4])
  moreover have "map oc_attempts (?cs w4) = map oc_attempts (?cs w)" "map oc_id (?cs w4) = map oc_id (?cs w)"
    using w1(1,2) w2(1) w3 w4 by simp_all
  ultimately show ?thesis by blast
qed

lemma one_match:
  assumes "distinct (map g xs)" and "c \<in> set xs" and "P c" and "\<And>d. P d \<Longrightarrow> g d = g c"
  shows "length (filter P xs) = 1"
proof -
  have "set (filter P xs) = {c}" using assms by (auto dest: inj_onD simp: distinct_map)
  moreover have "distinct (filter P xs)" using assms(1) by (simp add: distinct_map)
  ultimately show ?thesis by (metis distinct_card is_singletonI is_singleton_altdef)
qed

text \<open>A request that names an applicant and a phone and finds a given challenge open.\<close>

definition asks_as :: "auth_env \<Rightarrow> uuid \<Rightarrow> string \<Rightarrow> instant \<Rightarrow> verify_otp_command \<Rightarrow> bool" where
  "asks_as env who phone t cmd \<longleftrightarrow>
     verifyOnboardingToken (en_crypt env) (en_lib env) (en_hmacKey env) (vo_onboardingToken cmd) t = Some who \<and>
     normalizeRwandanMsisdn (vo_rawPhoneNumber cmd) = Some phone"

definition guesses_right :: "auth_env \<Rightarrow> string \<Rightarrow> otp_challenge \<Rightarrow> verify_otp_command \<Rightarrow> bool" where
  "guesses_right env phone c cmd \<longleftrightarrow> verifyPassword (en_crypt env) (otpSecret env (vo_otp cmd) phone) (oc_otpHash c)"

text \<open>
  The attempt limit does not bound concurrent guesses: any number of wrong codes can be
  compared with a challenge below its limit, each counted afterwards, and the right code among
  them still signs in, although by then the counter stands as far beyond the limit as there were
  guesses.
\<close>

theorem guesses_slip_past_the_limit:
  fixes w :: "'ev auth_world" and wrong :: "(auth_draws \<times> verify_otp_command) list"
  assumes "signing_in env (w, ts)" and "findLiveChallenge who (aw_store w) = Some c"
    and "oc_attempts c < otpMaxAttempts (en_config env)"
    and "list_all (\<lambda>(dr', g). asks_as env who phone (service_now env w) g \<and> \<not> guesses_right env phone c g) wrong"
    and "asks_as env who phone (service_now env w) cmd" and "guesses_right env phone c cmd"
    and "citizen_of (aw_store w) who = Some citizen" and "cz_deleted_at citizen = None"
    and "\<not> list_ex (\<lambda>r. se_token r = sessionTokenDigest (en_crypt env) (dr_token dr)) (is_sessions (aw_store w))"
    and "length (sessionTokenDigest (en_crypt env) (dr_token dr)) \<le> 256" and "\<And>e. en_bus env e"
  shows "\<exists>(w' :: 'ev auth_world) ts' l until. signing_in env (w', ts' @ [(dr, cmd, Answered (Some l) (AUTHENTICATED (dr_token dr) until))]) \<and>
    vl_challenge l = c \<and>
    list_ex (\<lambda>d. oc_id d = oc_id c \<and> oc_attempts d = oc_attempts c + int (length wrong)) (is_challenges (aw_store w'))"
proof -
  let ?l = "\<lparr>vl_applicantId = who, vl_phone = phone, vl_challenge = c\<rparr>"
  have read: "verify_step env dr' g At_start w = (if guesses_right env phone c g then At_consumeChallenge ?l else At_recordFailedAttempt ?l, w)"
    if "asks_as env who phone (service_now env w) g" for dr' g
    using that assms(2,3) by (simp add: asks_as_def guesses_right_def Let_def)
  have "list_all (\<lambda>(dr', g). verify_step env dr' g At_start w = (At_recordFailedAttempt ?l, w)) wrong"
    using assms(4) read by (auto simp: list_all_iff simp del: verify_step.simps)
  note arrived = arrives [OF read_all [OF assms(1) this], of dr cmd]
  have step: "verify_step env dr cmd At_start w = (At_consumeChallenge ?l, w)" using read [OF assms(5)] assms(6) by presburger
  have "signing_in env (w, (ts @ map (\<lambda>(dr, cmd). (dr, cmd, At_recordFailedAttempt ?l)) wrong) @ [(dr, cmd, At_consumeChallenge ?l)])"
    by (rule proceeds [OF arrived step])
  then have "signing_in env (w, ts @ map (\<lambda>(dr, cmd). (dr, cmd, At_recordFailedAttempt ?l)) wrong @ [(dr, cmd, At_consumeChallenge ?l)])"
    by simp
  note failed = fail_all [OF this]
  let ?w = "w\<lparr>aw_store := (recordFailedAttempt (oc_id c) ^^ length wrong) (aw_store w)\<rparr>"
  let ?ts = "ts @ map (\<lambda>(dr, cmd). (dr, cmd, Answered (Some ?l) INVALID_OTP)) wrong"
  have standing: "signing_in env (?w, ?ts @ [(dr, cmd, At_consumeChallenge ?l)])" using failed by simp
  have c: "c \<in> set (is_challenges (aw_store w))" "live_challenge (is_now (aw_store w)) c"
    using assms(2) by (auto simp: findLiveChallenge_def dest: latest_by_SomeD)
  let ?c = "c\<lparr>oc_attempts := oc_attempts c + int (length wrong)\<rparr>"
  have c': "?c \<in> set (is_challenges (aw_store ?w))"
    using c(1) by (auto simp: failures_recorded image_iff intro!: bexI [of _ c])
  have "distinct (map oc_id (is_challenges (aw_store ?w)))"
    using signing_in_inv [OF standing] by (simp add: sign_in_inv_def)
  then have one: "length (filter (consumable (oc_id (vl_challenge ?l)) (is_now (aw_store ?w))) (is_challenges (aw_store ?w))) = 1"
    using c' by (rule one_match) (use c(2) in \<open>auto simp: consumable_def live_challenge_def failures_recorded\<close>)
  have citizen: "citizen_of (aw_store ?w) (vl_applicantId ?l) = Some citizen"
    using assms(7) by (simp add: failures_recorded citizen_of_def)
  have unused: "\<not> list_ex (\<lambda>r. se_token r = sessionTokenDigest (en_crypt env) (dr_token dr)) (is_sessions (aw_store ?w))"
    using assms(9) by (simp add: failures_recorded)
  obtain w' :: "'ev auth_world" and until where fin: "signing_in env (w', ?ts @ [(dr, cmd, Answered (Some ?l) (AUTHENTICATED (dr_token dr) until))])"
      "map oc_attempts (is_challenges (aw_store w')) = map oc_attempts (is_challenges (aw_store ?w))"
      "map oc_id (is_challenges (aw_store w')) = map oc_id (is_challenges (aw_store ?w))"
    using winner_finishes [OF standing one citizen assms(8) unused assms(10,11)] by blast
  obtain k where k: "k < length (is_challenges (aw_store ?w))" "is_challenges (aw_store ?w) ! k = ?c"
    using c' by (metis in_set_conv_nth)
  then have "k < length (is_challenges (aw_store w'))" using fin(2) by (metis length_map)
  moreover have "oc_attempts (is_challenges (aw_store w') ! k) = oc_attempts ?c" "oc_id (is_challenges (aw_store w') ! k) = oc_id ?c"
    using k fin(2,3) calculation by (metis nth_map)+
  ultimately have "list_ex (\<lambda>d. oc_id d = oc_id c \<and> oc_attempts d = oc_attempts c + int (length wrong)) (is_challenges (aw_store w'))"
    by (auto simp: list_ex_length)
  with fin(1) show ?thesis by (intro exI [of _ w'] exI [of _ ?ts] exI [of _ ?l] exI [of _ until]) simp
qed


subsection \<open>At concrete inputs\<close>

lemma runs:
  assumes "signing_in env (w, ts)"
  shows "signing_in env (snd (((\<lambda>(p, w). verify_step env dr cmd p w) ^^ n) (At_start, w)),
    ts @ [(dr, cmd, fst (((\<lambda>(p, w). verify_step env dr cmd p w) ^^ n) (At_start, w)))])"
proof (induction n)
  case 0
  show ?case using arrives [OF assms] by simp
next
  case (Suc n)
  define s where "s = ((\<lambda>(p, w). verify_step env dr cmd p w) ^^ n) (At_start, w)"
  obtain p w1 where s: "s = (p, w1)" by (rule prod.exhaust)
  obtain p' w2 where step: "verify_step env dr cmd p w1 = (p', w2)" by (rule prod.exhaust)
  have "signing_in env (w1, ts @ [(dr, cmd, p)])" using Suc by (simp add: s_def [symmetric] s del: verify_step.simps)
  from proceeds [where us = "[]", OF this step] show ?case
    by (simp add: s_def [symmetric] s step del: verify_step.simps)
qed

lemma verifyOtp_run: "fst (verifyOtp env dr cmd w) = snd (((\<lambda>(p, w). verify_step env dr cmd p w) ^^ 5) (At_start, w))"
  by (simp add: verifyOtp_def del: verify_step.simps split: prod.splits verify_point.splits)

definition asked_world :: "string auth_world" where
  "asked_world = fst (requestOtp sample_auth_env sample_draws sample_otp_request sample_auth_world)"

definition sample_secret :: string where
  "sample_secret = otpSecret sample_auth_env ''000042'' ''+250788123456''"

definition sample_otp_hash :: string where
  "sample_otp_hash = the (hashPassword plain_keys [1, 2] sample_secret)"

definition sample_challenge :: otp_challenge where
  "sample_challenge = challenge_for sample_auth_env sample_draws ''citizen'' sample_otp_hash sample_auth_world"

lemma sample_facts:
  "service_now sample_auth_env sample_auth_world = 1000" "is_now (aw_store sample_auth_world) = 1000"
  "en_crypt sample_auth_env = plain_keys" "en_bus sample_auth_env e" "otpMaxAttempts (en_config sample_auth_env) = 5"
  "is_challenges (aw_store sample_auth_world) = []" "is_sessions (aw_store sample_auth_world) = []"
  "citizen_of (aw_store sample_auth_world) ''citizen'' = Some sample_citizen_columns" "cz_deleted_at sample_citizen_columns = None"
  "length (sessionTokenDigest plain_keys ''tok'') \<le> 256"
  "normalizeRwandanMsisdn ''0788 123 456'' = Some ''+250788123456''"
  "normalizeRwandanMsisdn ''+250 (0)788-123-456'' = Some ''+250788123456''" "code_text 42 = ''000042''"
  "hashPassword plain_keys [1, 2] sample_secret = Some sample_otp_hash" "otpTtlSeconds (en_config sample_auth_env) = 300"
proof -
  show "normalizeRwandanMsisdn ''0788 123 456'' = Some ''+250788123456''"
      "normalizeRwandanMsisdn ''+250 (0)788-123-456'' = Some ''+250788123456''" "code_text 42 = ''000042''"
    by code_simp+
  show "hashPassword plain_keys [1, 2] sample_secret = Some sample_otp_hash"
    by (simp add: sample_otp_hash_def hashPassword_def plain_keys_def)
qed (simp_all add: service_now_def sample_auth_env_def sample_auth_world_def sample_db_def citizen_of_def
    sample_citizen_columns_def new_citizen_def sessionTokenDigest_def plain_keys_def)

lemma asked_facts:
  "signing_in sample_auth_env (asked_world, [])"
  "aw_store asked_world = (aw_store sample_auth_world)\<lparr>is_challenges := [sample_challenge]\<rparr>"
  "service_now sample_auth_env asked_world = 1000"
  "findLiveChallenge ''citizen'' (aw_store asked_world) = Some sample_challenge"
proof -
  have "unused_id (dr_ids sample_draws 2) sample_auth_world []" by (simp add: unused_id_def sample_facts)
  then have "sign_in_step sample_auth_env (sample_auth_world, []) (asked_world, [])"
    unfolding asked_world_def by (rule Ask)
  with Opening [OF sample_facts(6,7)] show "signing_in sample_auth_env (asked_world, [])" by (rule Next)
  obtain a where run: "requestOtp sample_auth_env sample_draws sample_otp_request sample_auth_world = (asked_world, a)"
    unfolding asked_world_def by (metis prod.collapse)
  show store: "aw_store asked_world = (aw_store sample_auth_world)\<lparr>is_challenges := [sample_challenge]\<rparr>"
    using requested_code(3) [OF _ _ _ _ _ _ run, of "''citizen''" "''+250788123456''" sample_otp_hash] sample_facts sample_token [of 1000]
    by (simp add: sample_otp_request_def sample_draws_def sample_challenge_def sample_secret_def)
  then show "service_now sample_auth_env asked_world = 1000"
    using sample_facts(1,2) by (simp add: service_now_def)
  show "findLiveChallenge ''citizen'' (aw_store asked_world) = Some sample_challenge"
    using sample_facts(1,2,15)
    by (simp add: store findLiveChallenge_def sample_challenge_def challenge_for_def live_challenge_def)
qed

definition wrong_answer :: verify_otp_command where
  "wrong_answer = sample_otp_answer\<lparr>vo_otp := ''000041''\<rparr>"

lemma sample_guesses:
  "asks_as sample_auth_env ''citizen'' ''+250788123456'' 1000 sample_otp_answer"
  "asks_as sample_auth_env ''citizen'' ''+250788123456'' 1000 wrong_answer"
  "guesses_right sample_auth_env ''+250788123456'' sample_challenge sample_otp_answer"
  "\<not> guesses_right sample_auth_env ''+250788123456'' sample_challenge wrong_answer"
proof -
  show "asks_as sample_auth_env ''citizen'' ''+250788123456'' 1000 sample_otp_answer"
      "asks_as sample_auth_env ''citizen'' ''+250788123456'' 1000 wrong_answer"
    using sample_token [of 1000] sample_facts by (simp_all add: asks_as_def wrong_answer_def sample_otp_answer_def)
  have accepts: "verifyPassword plain_keys guess sample_otp_hash \<longleftrightarrow>
      scrypt plain_keys guess [1, 2] 16384 8 1 = scrypt plain_keys sample_secret [1, 2] 16384 8 1" for guess
    by (rule password_digest_accepts [OF faithful_plain_keys sample_facts(14)]) (simp_all add: plain_keys_def)
  have "inj (of_char :: char \<Rightarrow> nat)" by (simp add: inj_of_char)
  then have same: "scrypt plain_keys a s n r p = scrypt plain_keys b s n r p \<longleftrightarrow> a = b" for a b s n r p
    by (auto simp: plain_keys_def dest: map_injective)
  show "guesses_right sample_auth_env ''+250788123456'' sample_challenge sample_otp_answer"
      "\<not> guesses_right sample_auth_env ''+250788123456'' sample_challenge wrong_answer"
    by (simp_all add: guesses_right_def sample_facts(3) accepts same sample_challenge_def challenge_for_def sample_secret_def
        wrong_answer_def sample_otp_answer_def otpSecret_def)
qed

theorem guesses_slip_past_the_limit_witness:
  "\<exists>(w :: string auth_world) ts. signing_in sample_auth_env (w, ts) \<and> list_ex (\<lambda>r. issued (point_of r)) ts \<and>
     list_ex (\<lambda>d. oc_attempts d = 7) (is_challenges (aw_store w))"
proof -
  have "\<exists>(w' :: string auth_world) ts' l until. signing_in sample_auth_env
      (w', ts' @ [(sample_draws, sample_otp_answer, Answered (Some l) (AUTHENTICATED (dr_token sample_draws) until))]) \<and>
    vl_challenge l = sample_challenge \<and>
    list_ex (\<lambda>d. oc_id d = oc_id sample_challenge \<and>
      oc_attempts d = oc_attempts sample_challenge + int (length (replicate 7 (sample_draws, wrong_answer)))) (is_challenges (aw_store w'))"
  proof (rule guesses_slip_past_the_limit [OF asked_facts(1,4)])
    show "oc_attempts sample_challenge < otpMaxAttempts (en_config sample_auth_env)"
      by (simp add: sample_facts sample_challenge_def challenge_for_def)
    show "list_all (\<lambda>(dr', g). asks_as sample_auth_env ''citizen'' ''+250788123456'' (service_now sample_auth_env asked_world) g \<and>
        \<not> guesses_right sample_auth_env ''+250788123456'' sample_challenge g) (replicate 7 (sample_draws, wrong_answer))"
      by (simp add: asked_facts(3) sample_guesses list_all_iff)
    show "asks_as sample_auth_env ''citizen'' ''+250788123456'' (service_now sample_auth_env asked_world) sample_otp_answer"
      by (simp add: asked_facts(3) sample_guesses)
    show "citizen_of (aw_store asked_world) ''citizen'' = Some sample_citizen_columns"
      using sample_facts(8) by (simp add: asked_facts(2) citizen_of_def)
  qed (simp_all add: sample_guesses sample_facts asked_facts(2) sample_draws_def)
  then obtain w' :: "string auth_world" and ts' l until where fin:
      "signing_in sample_auth_env (w', ts' @ [(sample_draws, sample_otp_answer, Answered (Some l) (AUTHENTICATED (dr_token sample_draws) until))])"
      "list_ex (\<lambda>d. oc_id d = oc_id sample_challenge \<and>
        oc_attempts d = oc_attempts sample_challenge + int (length (replicate 7 (sample_draws, wrong_answer)))) (is_challenges (aw_store w'))"
    by blast
  have "list_ex (\<lambda>d. oc_attempts d = 7) (is_challenges (aw_store w'))"
    using fin(2) by (auto simp: list_ex_iff sample_challenge_def challenge_for_def)
  with fin(1) show ?thesis by (intro exI conjI) (assumption, simp_all)
qed

theorem one_code_buys_one_session_witness:
  "\<exists>(w :: string auth_world) ts x code. signing_in sample_auth_env (w, ts) \<and> is_sessions (aw_store w) = [x] \<and>
     bought_with sample_auth_env ts x code"
proof -
  obtain w a where run: "verifyOtp sample_auth_env sample_draws sample_otp_answer asked_world = (w, a)" by (rule prod.exhaust)
  have asks: "verifyOnboardingToken (en_crypt sample_auth_env) (en_lib sample_auth_env) (en_hmacKey sample_auth_env)
        (vo_onboardingToken sample_otp_answer) (service_now sample_auth_env asked_world) = Some ''citizen''"
      "normalizeRwandanMsisdn (vo_rawPhoneNumber sample_otp_answer) = Some ''+250788123456''"
      "verifyPassword (en_crypt sample_auth_env) (otpSecret sample_auth_env (vo_otp sample_otp_answer) ''+250788123456'') (oc_otpHash sample_challenge)"
    using sample_guesses(1,3) asked_facts(3) by (simp_all add: asks_as_def guesses_right_def)
  have "\<exists>x. is_sessions (aw_store w) = [x]"
  proof -
    have "oc_attempts sample_challenge < otpMaxAttempts (en_config sample_auth_env)"
      by (simp add: sample_facts sample_challenge_def challenge_for_def)
    moreover have "filter (consumable (oc_id sample_challenge) (is_now (aw_store asked_world))) (is_challenges (aw_store asked_world)) = [sample_challenge]"
      using sample_facts(1,2,15)
      by (simp add: asked_facts(2) consumable_def sample_challenge_def challenge_for_def live_challenge_def)
    moreover have "citizen_of (aw_store asked_world) ''citizen'' = Some sample_citizen_columns"
      using sample_facts(8) by (simp add: asked_facts(2) citizen_of_def)
    ultimately show ?thesis
      using verified_code(2) [OF asks(1,2) asked_facts(4) _ asks(3) _ _ sample_facts(9) _ _ sample_facts(4) run]
      by (simp add: asked_facts(2) sample_facts sample_draws_def)
  qed
  then obtain x where x: "is_sessions (aw_store w) = [x]" by blast
  define ts where "ts = [(sample_draws, sample_otp_answer,
      fst (((\<lambda>(p, w). verify_step sample_auth_env sample_draws sample_otp_answer p w) ^^ 5) (At_start, asked_world)))]"
  have "signing_in sample_auth_env (w, ts)"
    using runs [OF asked_facts(1), where dr = sample_draws and cmd = sample_otp_answer and n = 5] verifyOtp_run [of sample_auth_env sample_draws sample_otp_answer asked_world]
    by (simp add: run ts_def del: verify_step.simps)
  from this one_code_buys_one_session [OF this] x show ?thesis by auto
qed

end
