(* ===== verification/Erasure.thy ===== *)
theory Erasure
  imports SignIn Platform
begin

text \<open>
  The end of a citizen's data (\<open>identity-service\<close>): the tombstone erasure behind its gate
  (\<open>adapters/erasure.pg-repository.ts\<close>, \<open>application/erase-identity.service.ts\<close>), the intake of
  erasure requests (\<open>adapters/erasure-request.pg-repository.ts\<close>,
  \<open>application/erasure-request.service.ts\<close>) and the retention sweep
  (\<open>adapters/retention.pg-repository.ts\<close>, \<open>application/retention-sweep.service.ts\<close>). The gate reads the
  applications of the shared database, so erasure is stated against the platform's own transitions.
\<close>

subsection \<open>Erasing an identity\<close>

datatype erase_outcome =
    ERASED "string option"
  | ALREADY_ERASED
  | REFUSED_ACTIVE_APPLICATION agency application_status
  | REFUSED_ACCEPT_LOCKED agency
  | ERASE_NOT_FOUND

definition TERMINAL_STATUSES :: "application_status list" where
  "TERMINAL_STATUSES = [REJECTED, WITHDRAWN, WALK_IN_REJECTED]"

definition OPS_SCHEMAS :: "agency list" where "OPS_SCHEMAS = [RDF, RNP, RCS]"

definition TOMBSTONE :: string where "TOMBSTONE = ''ERASED''"

text \<open>The random value is 64 characters, one \<open>e\<close> and 63 hexadecimal digits.\<close>

definition rotatedHash :: "string \<Rightarrow> string" where
  "rotatedHash randomHex = CHR ''e'' # drop 1 randomHex"

text \<open>One row per schema at most, in the order of the schemas; the first offender is reported.\<close>

definition active_applications :: "uuid \<Rightarrow> 'ev database \<Rightarrow> (agency \<times> application_status) list" where
  "active_applications who db =
     concat (map (\<lambda>a. map (\<lambda>(_, r). (a, app_status r))
       (take 1 (select_apps (\<lambda>_ r. applicant_id r = who \<and> app_status r \<notin> set TERMINAL_STATUSES) db a))) OPS_SCHEMAS)"

definition entombed :: "instant \<Rightarrow> citizen_columns \<Rightarrow> citizen_columns" where
  "entombed now c =
     c\<lparr>cz_encrypted_full_name := TOMBSTONE, cz_encrypted_date_of_birth := TOMBSTONE,
       cz_encrypted_home_district := TOMBSTONE, cz_encrypted_home_province := TOMBSTONE,
       cz_encrypted_nida_lookup_hash := None, cz_encrypted_national_id_hint := None,
       cz_encrypted_phone_number := None, cz_phone_number_hash := None, cz_phone_verified_at := None,
       cz_biometric_session_id := None, cz_biometric_passed_liveness := False,
       cz_biometric_face_match_confidence := None, cz_nida_verification_request_id := None,
       cz_nida_verified_at := None, cz_nida_match_confidence := None,
       cz_deleted_at := Some now, cz_updated_at := now\<rparr>"

text \<open>The overwrite and the two deletions; a hash in use would violate the unique index.\<close>

definition erase_rows :: "uuid \<Rightarrow> string \<Rightarrow> 'ev identity_store \<Rightarrow> 'ev identity_store" where
  "erase_rows who rotated s =
     s\<lparr>is_citizens := update_row who (entombed (is_now s)) (is_citizens s),
       is_db := (is_db s)\<lparr>applicant_identities := (\<lambda>j.
         if j = who then map_option (\<lambda>r. r\<lparr>national_id_hash := rotated, biometric_verified_at := None\<rparr>)
                           (applicant_identities (is_db s) j)
         else applicant_identities (is_db s) j)\<rparr>,
       is_sessions := filter (\<lambda>x. se_applicantId x \<noteq> who) (is_sessions s),
       is_challenges := filter (\<lambda>c. oc_applicantId c \<noteq> who) (is_challenges s)\<rparr>"

text \<open>
  The stored contact, read before the overwrite when the adapter holds the key; decryption may throw.
\<close>

definition notice_contact :: "(string \<Rightarrow> string option) option \<Rightarrow> citizen_columns \<Rightarrow> string option option" where
  "notice_contact decrypt c =
     (case decrypt of
        None \<Rightarrow> Some None
      | Some d \<Rightarrow>
          (case cz_encrypted_phone_number c of
             None \<Rightarrow> Some None
           | Some text \<Rightarrow> map_option Some (d text)))"

definition eraseIdentity ::
  "(string \<Rightarrow> string option) option \<Rightarrow> string \<Rightarrow> uuid \<Rightarrow> 'ev identity_store \<Rightarrow> ('ev identity_store \<times> erase_outcome) option" where
  "eraseIdentity decrypt randomHex who s =
     (case (citizen_of s who, applicant_identities (is_db s) who) of
        (Some c, Some ident) \<Rightarrow>
          if cz_deleted_at c \<noteq> None then Some (s, ALREADY_ERASED)
          else
            (case cross_agency_locked_by_agency ident of
               Some holder \<Rightarrow> Some (s, REFUSED_ACCEPT_LOCKED holder)
             | None \<Rightarrow>
                 (case active_applications who (is_db s) of
                    (a, st) # _ \<Rightarrow> Some (s, REFUSED_ACTIVE_APPLICATION a st)
                  | [] \<Rightarrow>
                      (case notice_contact decrypt c of
                         None \<Rightarrow> None
                       | Some contact \<Rightarrow>
                           if select_citizen (rotatedHash randomHex) (\<lambda>_. True) s \<noteq> None then None
                           else Some (erase_rows who (rotatedHash randomHex) s, ERASED contact))))
      | _ \<Rightarrow> Some (s, ERASE_NOT_FOUND))"

subsection \<open>The officer's erasure\<close>

record erasure_audit =
  ea_envelope :: event_envelope
  ea_entityId :: string
  ea_action :: string
  ea_performedBy :: string
  ea_agency :: "agency option"     \<comment> \<open>None is the literal SYSTEM\<close>
  ea_metadata :: "(string \<times> string) list"

datatype request_status = REQUEST_PENDING | REQUEST_EXECUTED | REQUEST_DECLINED

record erasure_request =
  er_id :: uuid
  er_applicantId :: uuid
  er_status :: request_status
  er_requested_at :: instant
  er_decided_by :: "uuid option"
  er_decided_at :: "instant option"
  er_decision_note :: "string option"

record 'ev erasure_world =
  ew_store :: "'ev identity_store"
  ew_requests :: "erasure_request list"
  ew_audits :: "erasure_audit list"
  ew_sms :: "(string \<times> string) list"

text \<open>
  The wiring: the contact key, the request store and the SMS channel are optional; the channel accepts,
  refuses or throws, the bus accepts or throws, and stamping the request may fail.
\<close>

datatype sms_result = SMS_ACCEPTED | SMS_REFUSED

record erasure_wiring =
  wr_decrypt :: "(string \<Rightarrow> string option) option"
  wr_requests :: bool
  wr_stamping_fails :: bool
  wr_sms :: "(string \<Rightarrow> sms_result option) option"
  wr_bus :: "erasure_audit \<Rightarrow> bool"

record erasure_officer =
  eo_subjectId :: uuid
  eo_agency :: agency

definition markExecuted :: "uuid \<Rightarrow> uuid \<Rightarrow> 'ev erasure_world \<Rightarrow> 'ev erasure_world \<times> nat" where
  "markExecuted applicantId by w =
     (let P = (\<lambda>r. er_applicantId r = applicantId \<and> er_status r = REQUEST_PENDING) in
      (w\<lparr>ew_requests := map (\<lambda>r. if P r then r\<lparr>er_status := REQUEST_EXECUTED, er_decided_by := Some by,
             er_decided_at := Some (is_now (ew_store w))\<rparr> else r) (ew_requests w)\<rparr>,
       length (filter P (ew_requests w))))"

definition publish_erasure :: "erasure_wiring \<Rightarrow> erasure_audit \<Rightarrow> 'ev erasure_world \<Rightarrow> 'ev erasure_world option" where
  "publish_erasure wr a w = (if wr_bus wr a then Some (w\<lparr>ew_audits := ew_audits w @ [a]\<rparr>) else None)"

fun status_text :: "application_status \<Rightarrow> string" where
  "status_text DRAFT = ''DRAFT''"
| "status_text SUBMITTED = ''SUBMITTED''"
| "status_text ACADEMIC_VETTING = ''ACADEMIC_VETTING''"
| "status_text CRIMINAL_CLEARANCE = ''CRIMINAL_CLEARANCE''"
| "status_text DOCUMENT_REVIEW_GREEN = ''DOCUMENT_REVIEW_GREEN''"
| "status_text DOCUMENT_REVIEW_AMBER = ''DOCUMENT_REVIEW_AMBER''"
| "status_text SLOT_ASSIGNED = ''SLOT_ASSIGNED''"
| "status_text PHYSICAL_TEST_SCHEDULED = ''PHYSICAL_TEST_SCHEDULED''"
| "status_text PHYSICAL_TEST_COMPLETE = ''PHYSICAL_TEST_COMPLETE''"
| "status_text MEDICAL_REVIEW = ''MEDICAL_REVIEW''"
| "status_text FINAL_SHORTLIST = ''FINAL_SHORTLIST''"
| "status_text ACCEPTED = ''ACCEPTED''"
| "status_text ADJUDICATION_REVIEW = ''ADJUDICATION_REVIEW''"
| "status_text REJECTED = ''REJECTED''"
| "status_text WITHDRAWN = ''WITHDRAWN''"
| "status_text WALK_IN_REGISTERED = ''WALK_IN_REGISTERED''"
| "status_text WALK_IN_ON_SITE_VETTING = ''WALK_IN_ON_SITE_VETTING''"
| "status_text WALK_IN_PHYSICAL_TEST = ''WALK_IN_PHYSICAL_TEST''"
| "status_text WALK_IN_REJECTED = ''WALK_IN_REJECTED''"

fun metadataFor :: "erase_outcome \<Rightarrow> (string \<times> string) list" where
  "metadataFor (ERASED _) = [(''outcome'', ''ERASED'')]"
| "metadataFor ALREADY_ERASED = [(''outcome'', ''ALREADY_ERASED'')]"
| "metadataFor (REFUSED_ACTIVE_APPLICATION a st) =
     [(''outcome'', ''REFUSED''), (''ground'', ''ACTIVE_APPLICATION''), (''agency'', agency_name a), (''status'', status_text st)]"
| "metadataFor (REFUSED_ACCEPT_LOCKED a) =
     [(''outcome'', ''REFUSED''), (''ground'', ''ACCEPT_LOCKED''), (''lockedByAgency'', agency_name a)]"
| "metadataFor ERASE_NOT_FOUND = []"

definition NL :: string where "NL = [CHR 0x0A]"

definition buildErasureDeclinedBody :: string where
  "buildErasureDeclinedBody =
     ''USRP: your data-erasure request has been declined.'' @ NL @
     ''The recorded ground for the decision is available in the applicant portal.''"

definition buildErasureExecutedBody :: string where
  "buildErasureExecutedBody =
     ''USRP: your data-erasure request has been executed.'' @ NL @
     ''Your personal data has been removed from the recruitment platform.''"

text \<open>One notice: the message if there is a contact, and the delivery status for the audit entry.\<close>

definition send_notice ::
  "(string \<Rightarrow> sms_result option) \<Rightarrow> string \<Rightarrow> string option \<Rightarrow> 'ev erasure_world \<Rightarrow> 'ev erasure_world \<times> string" where
  "send_notice channel body contact w =
     (case contact of
        None \<Rightarrow> (w, ''PENDING_NO_CONTACT'')
      | Some phone \<Rightarrow>
          (case channel phone of
             None \<Rightarrow> (w, ''FAILED'')
           | Some SMS_ACCEPTED \<Rightarrow> (w\<lparr>ew_sms := ew_sms w @ [(phone, body)]\<rparr>, ''DELIVERED'')
           | Some SMS_REFUSED \<Rightarrow> (w, ''FAILED'')))"

definition notice_audit :: "event_envelope \<Rightarrow> uuid \<Rightarrow> erasure_officer \<Rightarrow> string \<Rightarrow> string \<Rightarrow> erasure_audit" where
  "notice_audit e applicantId officer decision status =
     \<lparr>ea_envelope = e, ea_entityId = applicantId, ea_action = ''ERASURE_DECISION_NOTIFIED'',
      ea_performedBy = ''identity-service'', ea_agency = Some (eo_agency officer),
      ea_metadata = [(''decision'', decision), (''channel'', ''SMS''), (''deliveryStatus'', status)]\<rparr>"

definition executed_outcome :: "erase_outcome \<Rightarrow> bool" where
  "executed_outcome oc \<longleftrightarrow> (case oc of ERASED _ \<Rightarrow> True | ALREADY_ERASED \<Rightarrow> True | _ \<Rightarrow> False)"

definition notify_executed ::
  "erasure_wiring \<Rightarrow> auth_draws \<Rightarrow> event_context \<Rightarrow> uuid \<Rightarrow> erasure_officer \<Rightarrow> erase_outcome \<Rightarrow>
   'ev erasure_world \<Rightarrow> 'ev erasure_world \<times> (auth_error + erase_outcome)" where
  "notify_executed wr dr ctx who officer oc w =
     (case (oc, wr_sms wr) of
        (ERASED contact, Some channel) \<Rightarrow>
          (case send_notice channel buildErasureExecutedBody contact w of (w', status) \<Rightarrow>
             (case publish_erasure wr (notice_audit (envelope dr 2 ctx) who officer ''EXECUTED'' status) w' of
                None \<Rightarrow> (w', Inl Bus_fault)
              | Some w'' \<Rightarrow> (w'', Inr oc)))
      | _ \<Rightarrow> (w, Inr oc))"

definition erase_service ::
  "erasure_wiring \<Rightarrow> auth_draws \<Rightarrow> string \<Rightarrow> uuid \<Rightarrow> event_context option \<Rightarrow> erasure_officer \<Rightarrow>
   'ev erasure_world \<Rightarrow> 'ev erasure_world \<times> (auth_error + erase_outcome)" where
  "erase_service wr dr randomHex who context officer w =
     (case eraseIdentity (wr_decrypt wr) randomHex who (ew_store w) of
        None \<Rightarrow> (w, Inl Identity_persistence)
      | Some (s, oc) \<Rightarrow>
          let ctx = (case context of Some c \<Rightarrow> c | None \<Rightarrow> newCorrelationContext (dr_ids dr 0));
              w1 = w\<lparr>ew_store := s\<rparr> in
          if oc = ERASE_NOT_FOUND then (w1, Inr oc)
          else
            let w2 = (if executed_outcome oc \<and> wr_requests wr \<and> \<not> wr_stamping_fails wr
                      then fst (markExecuted who (eo_subjectId officer) w1) else w1);
                a = \<lparr>ea_envelope = envelope dr 1 ctx, ea_entityId = who,
                     ea_action = (if executed_outcome oc then ''ERASURE_EXECUTED'' else ''ERASURE_REFUSED''),
                     ea_performedBy = eo_subjectId officer, ea_agency = Some (eo_agency officer),
                     ea_metadata = metadataFor oc\<rparr> in
            (case publish_erasure wr a w2 of
               None \<Rightarrow> (w2, Inl Bus_fault)
             | Some w3 \<Rightarrow> notify_executed wr dr ctx who officer oc w3))"

subsection \<open>Requests\<close>

datatype file_request_outcome = FILED uuid | ALREADY_PENDING uuid

text \<open>The partial unique index refuses a second pending row; the insertion references the identity.\<close>

definition fileRequest :: "uuid \<Rightarrow> uuid \<Rightarrow> 'ev erasure_world \<Rightarrow> ('ev erasure_world \<times> file_request_outcome) option" where
  "fileRequest newId applicantId w =
     (case find (\<lambda>r. er_applicantId r = applicantId \<and> er_status r = REQUEST_PENDING) (ew_requests w) of
        Some r \<Rightarrow> Some (w, ALREADY_PENDING (er_id r))
      | None \<Rightarrow>
          if citizen_of (ew_store w) applicantId = None \<or> list_ex (\<lambda>r. er_id r = newId) (ew_requests w) then None
          else Some (w\<lparr>ew_requests := ew_requests w @
                 [\<lparr>er_id = newId, er_applicantId = applicantId, er_status = REQUEST_PENDING,
                   er_requested_at = is_now (ew_store w), er_decided_by = None, er_decided_at = None,
                   er_decision_note = None\<rparr>]\<rparr>, FILED newId))"

definition latestForApplicant :: "uuid \<Rightarrow> 'ev erasure_world \<Rightarrow> erasure_request option" where
  "latestForApplicant applicantId w =
     latest_by er_requested_at (filter (\<lambda>r. er_applicantId r = applicantId) (ew_requests w))"

definition listPending :: "'ev erasure_world \<Rightarrow> erasure_request list" where
  "listPending w = sort_key er_requested_at (filter (\<lambda>r. er_status r = REQUEST_PENDING) (ew_requests w))"

datatype decline_outcome = DECLINED uuid "string option" | NOT_PENDING request_status | REQUEST_NOT_FOUND

text \<open>The note is a \<open>varchar(200)\<close>; the contact is read in the same transaction and only of a living row.\<close>

definition decline_request ::
  "(string \<Rightarrow> string option) option \<Rightarrow> uuid \<Rightarrow> uuid \<Rightarrow> string \<Rightarrow> 'ev erasure_world \<Rightarrow> ('ev erasure_world \<times> decline_outcome) option" where
  "decline_request decrypt requestId decider note w =
     (case find (\<lambda>r. er_id r = requestId) (ew_requests w) of
        None \<Rightarrow> Some (w, REQUEST_NOT_FOUND)
      | Some row \<Rightarrow>
          if er_status row \<noteq> REQUEST_PENDING then Some (w, NOT_PENDING (er_status row))
          else if 200 < length note then None
          else
            let contact = (case citizen_of (ew_store w) (er_applicantId row) of
                  None \<Rightarrow> Some None
                | Some c \<Rightarrow> if cz_deleted_at c \<noteq> None then Some None else notice_contact decrypt c);
                w' = w\<lparr>ew_requests := map (\<lambda>r. if er_id r = requestId
                   then r\<lparr>er_status := REQUEST_DECLINED, er_decided_by := Some decider,
                          er_decided_at := Some (is_now (ew_store w)), er_decision_note := Some note\<rparr>
                   else r) (ew_requests w)\<rparr> in
            (case contact of None \<Rightarrow> None | Some ct \<Rightarrow> Some (w', DECLINED (er_applicantId row) ct)))"

definition file_service ::
  "erasure_wiring \<Rightarrow> auth_draws \<Rightarrow> event_context \<Rightarrow> uuid \<Rightarrow> 'ev erasure_world \<Rightarrow> 'ev erasure_world \<times> (auth_error + file_request_outcome)" where
  "file_service wr dr ctx applicantId w =
     (case fileRequest (dr_ids dr 0) applicantId w of
        None \<Rightarrow> (w, Inl Identity_persistence)
      | Some (w', oc) \<Rightarrow>
          (case oc of
             ALREADY_PENDING _ \<Rightarrow> (w', Inr oc)
           | FILED requestId \<Rightarrow>
               (case publish_erasure wr
                       \<lparr>ea_envelope = envelope dr 1 ctx, ea_entityId = applicantId, ea_action = ''ERASURE_REQUESTED'',
                        ea_performedBy = applicantId, ea_agency = None,
                        ea_metadata = [(''stage'', ''SELF_SERVICE''), (''requestId'', requestId)]\<rparr> w' of
                  None \<Rightarrow> (w', Inl Bus_fault)
                | Some w'' \<Rightarrow> (w'', Inr oc))))"

definition decline_service ::
  "erasure_wiring \<Rightarrow> auth_draws \<Rightarrow> event_context \<Rightarrow> uuid \<Rightarrow> string \<Rightarrow> erasure_officer \<Rightarrow>
   'ev erasure_world \<Rightarrow> 'ev erasure_world \<times> (auth_error + decline_outcome)" where
  "decline_service wr dr ctx requestId note officer w =
     (case decline_request (wr_decrypt wr) requestId (eo_subjectId officer) note w of
        None \<Rightarrow> (w, Inl Identity_persistence)
      | Some (w1, oc) \<Rightarrow>
          (case oc of
             DECLINED who contact \<Rightarrow>
               (case publish_erasure wr
                       \<lparr>ea_envelope = envelope dr 1 ctx, ea_entityId = who, ea_action = ''ERASURE_REQUEST_DECLINED'',
                        ea_performedBy = eo_subjectId officer, ea_agency = Some (eo_agency officer),
                        ea_metadata = [(''requestId'', requestId), (''ground'', note)]\<rparr> w1 of
                  None \<Rightarrow> (w1, Inl Bus_fault)
                | Some w2 \<Rightarrow>
                    (case wr_sms wr of
                       None \<Rightarrow> (w2, Inr oc)
                     | Some channel \<Rightarrow>
                         (case send_notice channel buildErasureDeclinedBody contact w2 of (w3, status) \<Rightarrow>
                            (case publish_erasure wr (notice_audit (envelope dr 2 ctx) who officer ''DECLINED'' status) w3 of
                               None \<Rightarrow> (w3, Inl Bus_fault)
                             | Some w4 \<Rightarrow> (w4, Inr oc)))))
           | _ \<Rightarrow> (w1, Inr oc)))"

subsection \<open>Retention\<close>

definition NEGATIVE_TERMINAL :: "application_status list" where
  "NEGATIVE_TERMINAL = [REJECTED, WITHDRAWN, WALK_IN_REJECTED]"

definition applied :: "'ev database \<Rightarrow> uuid \<Rightarrow> bool" where
  "applied db who \<longleftrightarrow> list_ex (\<lambda>a. select_apps (\<lambda>_ r. applicant_id r = who) db a \<noteq> []) OPS_SCHEMAS"

text \<open>An application that keeps the citizen: in another status, or touched since the cutoff.\<close>

definition retained :: "instant \<Rightarrow> 'ev database \<Rightarrow> uuid \<Rightarrow> bool" where
  "retained cutoff db who \<longleftrightarrow>
     list_ex (\<lambda>a. select_apps (\<lambda>_ r. applicant_id r = who \<and>
       (app_status r \<notin> set NEGATIVE_TERMINAL \<or> cutoff \<le> app_row.updated_at r)) db a \<noteq> []) OPS_SCHEMAS"

definition findNeverApplied :: "instant \<Rightarrow> 'ev identity_store \<Rightarrow> uuid list" where
  "findNeverApplied cutoff s =
     map fst (sort_key (\<lambda>(_, c). cz_created_at c)
       (filter (\<lambda>(i, c). cz_deleted_at c = None \<and> cz_created_at c < cutoff \<and> \<not> applied (is_db s) i) (is_citizens s)))"

definition findNegativeTerminal :: "instant \<Rightarrow> 'ev identity_store \<Rightarrow> uuid list" where
  "findNegativeTerminal cutoff s =
     map fst (sort_key (\<lambda>(_, c). cz_created_at c)
       (filter (\<lambda>(i, c). cz_deleted_at c = None \<and> applied (is_db s) i \<and> \<not> retained cutoff (is_db s) i) (is_citizens s)))"

text \<open>\<open>coalesce(terminated_at, expires_at)\<close> and \<open>coalesce(consumed_at, expires_at)\<close>\<close>

definition session_end :: "applicant_session \<Rightarrow> instant" where
  "session_end x = (case se_terminated_at x of None \<Rightarrow> se_expiresAt x | Some t \<Rightarrow> t)"

definition challenge_end :: "otp_challenge \<Rightarrow> instant" where
  "challenge_end c = (case oc_consumed_at c of None \<Rightarrow> oc_expiresAt c | Some t \<Rightarrow> t)"

definition countPurgeableSessions :: "instant \<Rightarrow> 'ev identity_store \<Rightarrow> nat" where
  "countPurgeableSessions cutoff s = length (filter (\<lambda>x. session_end x < cutoff) (is_sessions s))"

definition countPurgeableChallenges :: "instant \<Rightarrow> 'ev identity_store \<Rightarrow> nat" where
  "countPurgeableChallenges cutoff s = length (filter (\<lambda>c. challenge_end c < cutoff) (is_challenges s))"

definition purgeSessions :: "instant \<Rightarrow> 'ev identity_store \<Rightarrow> 'ev identity_store \<times> nat" where
  "purgeSessions cutoff s =
     (s\<lparr>is_sessions := filter (\<lambda>x. \<not> session_end x < cutoff) (is_sessions s)\<rparr>, countPurgeableSessions cutoff s)"

definition purgeChallenges :: "instant \<Rightarrow> 'ev identity_store \<Rightarrow> 'ev identity_store \<times> nat" where
  "purgeChallenges cutoff s =
     (s\<lparr>is_challenges := filter (\<lambda>c. \<not> challenge_end c < cutoff) (is_challenges s)\<rparr>, countPurgeableChallenges cutoff s)"

text \<open>\<open>setUTCMonth(getUTCMonth() - months)\<close>: the day of the month carries over when the month is shorter.\<close>

definition monthsBefore :: "instant \<Rightarrow> int \<Rightarrow> instant" where
  "monthsBefore from months =
     (let c = civil_of_days (from div day_ms); m = civil_month c - 1 - months in
      days_of_civil (civil_year c + m div 12) (m mod 12 + 1) (civil_day c) * day_ms + from mod day_ms)"

record retention_policy =
  neverAppliedMonths :: int
  negativeTerminalMonths :: int
  purgeGraceDays :: int

record sweep_report =
  sr_neverApplied_cutoff :: instant
  sr_negativeTerminal_cutoff :: instant
  sr_purge_cutoff :: instant
  sr_neverApplied :: "uuid list"
  sr_negativeTerminal :: "uuid list"
  sr_purgeableSessions :: nat
  sr_purgeableChallenges :: nat

record sweep_result =
  sw_report :: sweep_report
  sw_erased :: "uuid list"
  sw_skipped :: "(uuid \<times> erase_outcome) list"
  sw_purgedSessions :: nat
  sw_purgedChallenges :: nat

definition retention_audit :: "event_envelope \<Rightarrow> uuid \<Rightarrow> string \<Rightarrow> erasure_audit" where
  "retention_audit e applicantId retentionClass =
     \<lparr>ea_envelope = e, ea_entityId = applicantId, ea_action = ''RETENTION_ERASURE_EXECUTED'',
      ea_performedBy = ''retention-sweep'', ea_agency = None,
      ea_metadata = [(''class'', retentionClass), (''policy'', ''ADR-019/D7'')]\<rparr>"

text \<open>
  A sweep between two of its transactions: each query, each erasure, each purge commits on its own,
  and each audit entry is published after the erasure it reports. The queue holds the candidates of
  the two classes in their order, the random values and envelopes are numbered by the candidates seen.
\<close>

record sweep_progress =
  sp_report :: sweep_report
  sp_queue :: "(uuid \<times> string) list"
  sp_erased :: "uuid list"
  sp_skipped :: "(uuid \<times> erase_outcome) list"
  sp_count :: nat

datatype sweep_at =
    Discover_never
  | Discover_negative "uuid list"
  | Count_sessions "uuid list" "uuid list"
  | Count_challenges "uuid list" "uuid list" nat
  | Erase_next sweep_progress
  | Audit_erased uuid string sweep_progress
  | Purge_sessions sweep_progress
  | Purge_challenges sweep_progress nat
  | Swept_result sweep_result
  | Sweep_fault auth_error

definition never_cutoff :: "retention_policy \<Rightarrow> instant \<Rightarrow> instant" where
  "never_cutoff policy now = monthsBefore now (neverAppliedMonths policy)"

definition negative_cutoff :: "retention_policy \<Rightarrow> instant \<Rightarrow> instant" where
  "negative_cutoff policy now = monthsBefore now (negativeTerminalMonths policy)"

definition purge_cutoff :: "retention_policy \<Rightarrow> instant \<Rightarrow> instant" where
  "purge_cutoff policy now = now - purgeGraceDays policy * day_ms"

definition start_sweeping :: "retention_policy \<Rightarrow> instant \<Rightarrow> uuid list \<Rightarrow> uuid list \<Rightarrow> nat \<Rightarrow> nat \<Rightarrow> sweep_progress" where
  "start_sweeping policy now never negative sessions challenges =
     \<lparr>sp_report =
        \<lparr>sr_neverApplied_cutoff = never_cutoff policy now, sr_negativeTerminal_cutoff = negative_cutoff policy now,
         sr_purge_cutoff = purge_cutoff policy now, sr_neverApplied = never, sr_negativeTerminal = negative,
         sr_purgeableSessions = sessions, sr_purgeableChallenges = challenges\<rparr>,
      sp_queue = map (\<lambda>i. (i, ''NEVER_APPLIED'')) never @ map (\<lambda>i. (i, ''NEGATIVE_TERMINAL'')) negative,
      sp_erased = [], sp_skipped = [], sp_count = 0\<rparr>"

definition erase_next ::
  "erasure_wiring \<Rightarrow> (nat \<Rightarrow> string) \<Rightarrow> sweep_progress \<Rightarrow> 'ev erasure_world \<Rightarrow> sweep_at \<times> 'ev erasure_world" where
  "erase_next wr random p w =
     (case sp_queue p of
        [] \<Rightarrow> (Purge_sessions p, w)
      | (who, label) # rest \<Rightarrow>
          let p = p\<lparr>sp_queue := rest, sp_count := Suc (sp_count p)\<rparr> in
          (case eraseIdentity (wr_decrypt wr) (random (sp_count p)) who (ew_store w) of
             None \<Rightarrow> (Sweep_fault Identity_persistence, w)
           | Some (s, oc) \<Rightarrow>
               (case oc of
                  ERASED _ \<Rightarrow> Audit_erased who label (p\<lparr>sp_erased := sp_erased p @ [who]\<rparr>)
                | ALREADY_ERASED \<Rightarrow> Erase_next p
                | _ \<Rightarrow> Erase_next (p\<lparr>sp_skipped := sp_skipped p @ [(who, oc)]\<rparr>),
                w\<lparr>ew_store := s\<rparr>)))"

fun sweep_step ::
  "erasure_wiring \<Rightarrow> (nat \<Rightarrow> string) \<Rightarrow> (nat \<Rightarrow> event_envelope) \<Rightarrow> retention_policy \<Rightarrow> instant \<Rightarrow>
   sweep_at \<Rightarrow> 'ev erasure_world \<Rightarrow> sweep_at \<times> 'ev erasure_world" where
  "sweep_step wr random stamps policy now Discover_never w =
     (Discover_negative (findNeverApplied (never_cutoff policy now) (ew_store w)), w)"
| "sweep_step wr random stamps policy now (Discover_negative never) w =
     (Count_sessions never (findNegativeTerminal (negative_cutoff policy now) (ew_store w)), w)"
| "sweep_step wr random stamps policy now (Count_sessions never negative) w =
     (Count_challenges never negative (countPurgeableSessions (purge_cutoff policy now) (ew_store w)), w)"
| "sweep_step wr random stamps policy now (Count_challenges never negative sessions) w =
     (Erase_next (start_sweeping policy now never negative sessions
        (countPurgeableChallenges (purge_cutoff policy now) (ew_store w))), w)"
| "sweep_step wr random stamps policy now (Erase_next p) w = erase_next wr random p w"
| "sweep_step wr random stamps policy now (Audit_erased who label p) w =
     (case publish_erasure wr (retention_audit (stamps (sp_count p)) who label) w of
        None \<Rightarrow> (Sweep_fault Bus_fault, w)
      | Some w' \<Rightarrow> (Erase_next p, w'))"
| "sweep_step wr random stamps policy now (Purge_sessions p) w =
     (case purgeSessions (sr_purge_cutoff (sp_report p)) (ew_store w) of
        (s, n) \<Rightarrow> (Purge_challenges p n, w\<lparr>ew_store := s\<rparr>))"
| "sweep_step wr random stamps policy now (Purge_challenges p sessions) w =
     (case purgeChallenges (sr_purge_cutoff (sp_report p)) (ew_store w) of
        (s, n) \<Rightarrow>
          (Swept_result \<lparr>sw_report = sp_report p, sw_erased = sp_erased p, sw_skipped = sp_skipped p,
                         sw_purgedSessions = sessions, sw_purgedChallenges = n\<rparr>, w\<lparr>ew_store := s\<rparr>))"
| "sweep_step wr random stamps policy now (Swept_result r) w = (Swept_result r, w)"
| "sweep_step wr random stamps policy now (Sweep_fault e) w = (Sweep_fault e, w)"

text \<open>
  The worlds a sweep passes through, newest first, with whatever other transactions commit between
  two of its own.
\<close>

inductive sweep_run ::
  "erasure_wiring \<Rightarrow> (nat \<Rightarrow> string) \<Rightarrow> (nat \<Rightarrow> event_envelope) \<Rightarrow> retention_policy \<Rightarrow> instant \<Rightarrow>
   'ev erasure_world list \<Rightarrow> sweep_at \<Rightarrow> bool"
  for wr random stamps policy now where
  Begin: "sweep_run wr random stamps policy now [w] Discover_never"
| Own: "sweep_run wr random stamps policy now (w # ws) pos \<Longrightarrow>
    sweep_step wr random stamps policy now pos w = (pos', w') \<Longrightarrow>
    sweep_run wr random stamps policy now (w' # w # ws) pos'"
| Others: "sweep_run wr random stamps policy now ws pos \<Longrightarrow> sweep_run wr random stamps policy now (w # ws) pos"

subsection \<open>The gate\<close>

lemma select_apps_Nil: "select_apps P db a = [] \<longleftrightarrow> (\<forall>i r. app_of db a i = Some r \<longrightarrow> \<not> P i r)"
  unfolding select_apps_def app_of_def using set_select_rows [of _ _ P "applications (schema_of db a)"]
  by (metis last_in_set list.set_intros(1) neq_Nil_conv prod.collapse list.distinct(1) empty_iff empty_set)

lemma active_applications_Nil:
  "active_applications who db = [] \<longleftrightarrow>
     (\<forall>a i r. app_of db a i = Some r \<longrightarrow> applicant_id r = who \<longrightarrow> app_status r \<in> set TERMINAL_STATUSES)"
proof -
  have take1: "take 1 xs = [] \<longleftrightarrow> xs = []" for xs :: "(uuid \<times> app_row) list" by (cases xs) auto
  have "active_applications who db = [] \<longleftrightarrow>
      (\<forall>a \<in> set OPS_SCHEMAS. select_apps (\<lambda>_ r. applicant_id r = who \<and> app_status r \<notin> set TERMINAL_STATUSES) db a = [])"
    by (simp add: active_applications_def concat_eq_Nil_conv take1)
  also have "set OPS_SCHEMAS = UNIV" by (auto simp: OPS_SCHEMAS_def) (metis agency.exhaust)
  finally show ?thesis unfolding select_apps_Nil by auto
qed

lemma erased_by:
  assumes "eraseIdentity decrypt hex who s = Some (s', ERASED contact)"
  obtains c ident where "citizen_of s who = Some c" "cz_deleted_at c = None"
    "applicant_identities (is_db s) who = Some ident" "cross_agency_locked_by_agency ident = None"
    "active_applications who (is_db s) = []" "s' = erase_rows who (rotatedHash hex) s"
  using assms by (auto simp: eraseIdentity_def split: option.splits if_splits list.splits prod.splits)

lemma erase_rows_frame:
  "citizen_of (erase_rows who h s) j = (if j = who then map_option (entombed (is_now s)) (citizen_of s who) else citizen_of s j)"
  "schema_of (is_db (erase_rows who h s)) = schema_of (is_db s)"
  "is_now (erase_rows who h s) = is_now s"
  "map_option cross_agency_locked_by_agency (applicant_identities (is_db (erase_rows who h s)) j) =
     map_option cross_agency_locked_by_agency (applicant_identities (is_db s) j)"
  by (auto simp: erase_rows_def citizen_of_def map_of_update_row option.map_comp comp_def)

lemma erase_rows_foreign: "foreign_write (is_db s) (is_db (erase_rows who h s))"
  by (auto simp: foreign_write_def erase_rows_def)


subsection \<open>Erasure is final\<close>

text \<open>Everything the identity service and the platform do to the store, one request or statement at a time.\<close>

inductive registry_step :: "auth_env \<Rightarrow> 'ev auth_world \<Rightarrow> 'ev auth_world \<Rightarrow> bool" for env where
  Onboard: "registry_step env w (fst (beginOnboarding env dr id bg w))"
| Register: "registry_step env w (fst (verify_identity env dr id cmd w))"
| Challenge: "registry_step env w (fst (requestOtp env dr rq w))"
| Statement: "registry_step env w (snd (verify_step env dr vo p w))"
| Authenticate: "registry_step env w (fst (authenticateSession env token w))"
| Logout: "registry_step env w (logout env token w)"
| Biometric: "recordBiometricResult inp (aw_store w) = Some (s, oc) \<Longrightarrow> registry_step env w (w\<lparr>aw_store := s\<rparr>)"
| Erase: "eraseIdentity decrypt hex who (aw_store w) = Some (s, oc') \<Longrightarrow> registry_step env w (w\<lparr>aw_store := s\<rparr>)"
| Purge: "registry_step env w (w\<lparr>aw_store := fst (purgeChallenges t (fst (purgeSessions t (aw_store w))))\<rparr>)"
| Recruit: "step (is_db (aw_store w)) db \<Longrightarrow> registry_step env w (w\<lparr>aw_store := (aw_store w)\<lparr>is_db := db\<rparr>\<rparr>)"

definition keeps_erased :: "'ev identity_store \<Rightarrow> 'ev identity_store \<Rightarrow> bool" where
  "keeps_erased s s' \<longleftrightarrow>
     (\<forall>who c. citizen_of s who = Some c \<longrightarrow> cz_deleted_at c \<noteq> None \<longrightarrow> citizen_of s' who = Some c)"

lemma keeps_erased_refl [simp, intro]: "keeps_erased s s"
  by (simp add: keeps_erased_def)

lemma keeps_erased_trans: "keeps_erased s t \<Longrightarrow> keeps_erased t u \<Longrightarrow> keeps_erased s u"
  unfolding keeps_erased_def by blast

lemma keeps_erased_same: "is_citizens s' = is_citizens s \<Longrightarrow> keeps_erased s s'"
  by (simp add: keeps_erased_def citizen_of_def)

lemma createVerifiedIdentity_keeps: "createVerifiedIdentity env i inp s = Some (s', r) \<Longrightarrow> keeps_erased s s'"
  by (auto simp: createVerifiedIdentity_def keeps_erased_def citizen_of_def map_add_Some_iff split: option.splits if_splits)

lemma update_citizen_keeps: "update_citizen i f s = Some s' \<Longrightarrow> keeps_erased s s'"
  by (auto simp: update_citizen_def keeps_erased_def citizen_of_def map_of_update_row split: option.splits if_splits)

lemma verify_identity_keeps: "keeps_erased (aw_store w) (aw_store (fst (verify_identity env dr id cmd w)))"
  by (auto simp: verify_identity_def answer_with_def publish_auth_def Let_def
      dest: createVerifiedIdentity_keeps split: option.splits nida_lookup.splits)

lemma beginOnboarding_keeps: "keeps_erased (aw_store w) (aw_store (fst (beginOnboarding env dr id bg w)))"
proof -
  have run: "keeps_erased s (aw_store w2)"
    if "verify_identity env dr id cmd w1 = (w2, out)" and "is_citizens (aw_store w1) = is_citizens s"
    for cmd and w1 w2 :: "'a auth_world" and out s
    using verify_identity_keeps [of w1 env dr cmd] that keeps_erased_same [of "aw_store w1" s]
    by (auto intro: keeps_erased_trans)
  show ?thesis
    by (auto simp: beginOnboarding_def recordOnboardingFailure_def clearOnboardingFailures_def issue_token_def publish_auth_def
        Let_def dest!: run [where s = "aw_store w"] intro: keeps_erased_same split: option.splits nida_lookup.splits prod.splits sum.splits)
qed

lemma requestOtp_keeps: "keeps_erased (aw_store w) (aw_store (fst (requestOtp env dr rq w)))"
  by (auto simp: requestOtp_def createChallenge_def publish_auth_def Let_def intro: keeps_erased_same split: option.splits)

lemma verify_step_keeps: "keeps_erased (aw_store w) (aw_store (snd (verify_step env dr vo p w)))"
  by (cases p)
     (auto simp: recordFailedAttempt_def consumeChallenge_def update_challenges_def stampPhoneVerified_def createSession_def
       publish_auth_def Let_def intro: keeps_erased_same dest: update_citizen_keeps split: option.splits)

lemma recordBiometricResult_keeps: "recordBiometricResult inp s = Some (s', oc) \<Longrightarrow> keeps_erased s s'"
  by (auto simp: recordBiometricResult_def keeps_erased_def citizen_of_def map_of_update_row split: option.splits if_splits)

lemma eraseIdentity_cases:
  assumes "eraseIdentity decrypt hex who s = Some (s', oc)"
  obtains contact where "oc = ERASED contact" | "s' = s"
  using assms by (auto simp: eraseIdentity_def split: option.splits if_splits list.splits prod.splits)

lemma eraseIdentity_keeps:
  assumes "eraseIdentity decrypt hex who s = Some (s', oc)" shows "keeps_erased s s'"
  using assms
proof (cases rule: eraseIdentity_cases)
  case (1 contact)
  from assms [unfolded 1] obtain c where "citizen_of s who = Some c" "cz_deleted_at c = None" "s' = erase_rows who (rotatedHash hex) s"
    by (rule erased_by)
  then show ?thesis by (auto simp: keeps_erased_def erase_rows_frame)
qed simp

lemma registry_step_keeps: "registry_step env w w' \<Longrightarrow> keeps_erased (aw_store w) (aw_store w')"
proof (induction rule: registry_step.induct)
  case (Onboard w dr bg)
  show ?case by (rule beginOnboarding_keeps)
next
  case (Register w dr cmd)
  show ?case by (rule verify_identity_keeps)
next
  case (Challenge w dr rq)
  show ?case by (rule requestOtp_keeps)
next
  case (Statement w dr vo p)
  show ?case by (rule verify_step_keeps)
next
  case (Authenticate w token)
  show ?case
    by (rule keeps_erased_same) (simp add: authenticateSession_def findLiveSession_def update_sessions_def Let_def)
next
  case (Logout w token)
  show ?case by (rule keeps_erased_same) (simp add: logout_def terminateSession_def update_sessions_def)
next
  case (Biometric inp w s oc)
  then show ?case using recordBiometricResult_keeps by simp
next
  case (Erase decrypt hex who w s oc')
  then show ?case using eraseIdentity_keeps by simp
next
  case (Purge w t)
  show ?case by (rule keeps_erased_same) (simp add: purgeChallenges_def purgeSessions_def)
next
  case (Recruit w db)
  show ?case by (rule keeps_erased_same) simp
qed

text \<open>
  Once a citizen's row is erased, no sequence of requests, statements, sweeps and recruitment
  transactions changes a column of it: the erasure is irreversible.
\<close>

theorem erased_stays_erased:
  assumes "(registry_step env)\<^sup>*\<^sup>* w w'" and "citizen_of (aw_store w) who = Some c" and "cz_deleted_at c \<noteq> None"
  shows "citizen_of (aw_store w') who = Some c"
  using assms
proof (induction rule: rtranclp_induct)
  case (step v v')
  then show ?case using registry_step_keeps [of env v v'] unfolding keeps_erased_def by blast
qed

text \<open>
  A sign-in that stands between its phone stamp and its session when the citizen is erased
  still creates the session afterwards: the erasure deleted the sessions on file, and the erased
  citizen is authenticated by this one until it expires.
\<close>

theorem session_outlives_erasure:
  assumes "eraseIdentity decrypt hex who (aw_store w) = Some (s, ERASED contact)" and "vl_applicantId l = who"
    and "\<not> list_ex (\<lambda>r. se_token r = sessionTokenDigest (en_crypt env) (dr_token dr)) (is_sessions (aw_store w))"
    and "length (sessionTokenDigest (en_crypt env) (dr_token dr)) \<le> 256" and "dr_token dr \<noteq> []" and "length (dr_token dr) \<le> 256"
    and "verify_step env dr cmd (At_createSession l) (w\<lparr>aw_store := s\<rparr>) = (p, w')"
    and "t < service_now env w + sessionTtlSeconds (en_config env) * 1000"
  shows "filter (\<lambda>x. se_applicantId x = who) (is_sessions s) = [] \<and>
    (\<exists>c. citizen_of (aw_store w') who = Some c \<and> cz_deleted_at c \<noteq> None) \<and>
    snd (authenticateSession env (dr_token dr) (at_db_time t w')) = Some who"
proof -
  from assms(1) obtain c where c: "citizen_of (aw_store w) who = Some c" and s: "s = erase_rows who (rotatedHash hex) (aw_store w)"
    by (rule erased_by)
  have tomb: "citizen_of s who = Some (entombed (is_now (aw_store w)) c)" using c by (simp add: s erase_rows_frame)
  let ?d = "sessionTokenDigest (en_crypt env) (dr_token dr)"
  have sessions: "is_sessions s = filter (\<lambda>x. se_applicantId x \<noteq> who) (is_sessions (aw_store w))" by (simp add: s erase_rows_def)
  have unused: "list_all (\<lambda>r. se_token r \<noteq> ?d) (is_sessions s)"
    using assms(3) by (auto simp: sessions list_all_iff list_ex_iff)
  define x where "x = \<lparr>se_applicantId = who, se_token = ?d, se_channel = vo_channel cmd,
      se_expiresAt = service_now env w + sessionTtlSeconds (en_config env) * 1000,
      se_last_activity_at = is_now s, se_terminated_at = None\<rparr>"
  have x: "se_applicantId x = who" "se_token x = ?d" "se_terminated_at x = None"
      "se_expiresAt x = service_now env w + sessionTtlSeconds (en_config env) * 1000"
    by (simp_all add: x_def)
  have "\<not> list_ex (\<lambda>r. se_token r = ?d) (is_sessions s)" using unused by (auto simp: list_all_iff list_ex_iff)
  then have "createSession (en_crypt env) who (dr_token dr) (vo_channel cmd)
      (service_now env w + sessionTtlSeconds (en_config env) * 1000) s = Some (s\<lparr>is_sessions := is_sessions s @ [x]\<rparr>)"
    using tomb assms(4) by (simp add: createSession_def x_def)
  moreover have "service_now env (w\<lparr>aw_store := s\<rparr>) = service_now env w" by (simp add: service_now_def s erase_rows_frame)
  ultimately have w': "is_sessions (aw_store w') = is_sessions s @ [x]" "is_citizens (aw_store w') = is_citizens s"
    using assms(2,7) by auto
  have "list_all (\<lambda>r. \<not> live_session ?d t r) (is_sessions s)"
    using unused by (auto simp: list_all_iff live_session_def)
  then have "snd (authenticateSession env (dr_token dr) (at_db_time t w')) = Some who"
    using assms(5,6,8) x by (subst session_answer) (simp_all add: w' find_last live_session_def)
  moreover have "citizen_of (aw_store w') who = citizen_of s who" by (simp add: citizen_of_def w')
  ultimately show ?thesis using tomb by (auto simp: sessions entombed_def filter_empty_conv)
qed

subsection \<open>The sweep is gated\<close>

text \<open>A living citizen one of the two retention classes selects, in the store as it stood.\<close>

definition sweep_candidate :: "retention_policy \<Rightarrow> instant \<Rightarrow> uuid \<Rightarrow> 'ev identity_store \<Rightarrow> bool" where
  "sweep_candidate policy now who s \<longleftrightarrow>
     (\<exists>c. (who, c) \<in> set (is_citizens s) \<and> cz_deleted_at c = None \<and>
        (\<not> applied (is_db s) who \<and> cz_created_at c < never_cutoff policy now \<or>
         applied (is_db s) who \<and> \<not> retained (negative_cutoff policy now) (is_db s) who))"

lemma discovered_candidates:
  "who \<in> set (findNeverApplied (never_cutoff policy now) s) \<Longrightarrow> sweep_candidate policy now who s"
  "who \<in> set (findNegativeTerminal (negative_cutoff policy now) s) \<Longrightarrow> sweep_candidate policy now who s"
  by (auto simp: findNeverApplied_def findNegativeTerminal_def sweep_candidate_def)

text \<open>The candidates and the purge cutoff a sweep still holds at a point of its run.\<close>

fun sweep_candidates :: "sweep_at \<Rightarrow> uuid set" where
  "sweep_candidates (Discover_negative never) = set never"
| "sweep_candidates (Count_sessions never negative) = set never \<union> set negative"
| "sweep_candidates (Count_challenges never negative _) = set never \<union> set negative"
| "sweep_candidates (Erase_next p) = fst ` set (sp_queue p)"
| "sweep_candidates (Audit_erased _ _ p) = fst ` set (sp_queue p)"
| "sweep_candidates _ = {}"

fun sweep_purges :: "sweep_at \<Rightarrow> instant option" where
  "sweep_purges (Erase_next p) = Some (sr_purge_cutoff (sp_report p))"
| "sweep_purges (Audit_erased _ _ p) = Some (sr_purge_cutoff (sp_report p))"
| "sweep_purges (Purge_sessions p) = Some (sr_purge_cutoff (sp_report p))"
| "sweep_purges (Purge_challenges p _) = Some (sr_purge_cutoff (sp_report p))"
| "sweep_purges _ = None"

lemma sweep_step_candidates:
  assumes "sweep_step wr random stamps policy now pos w = (pos', w')" and "who \<in> sweep_candidates pos'"
  shows "who \<in> sweep_candidates pos \<or> sweep_candidate policy now who (ew_store w)"
  using assms
  by (cases pos)
     (auto simp: erase_next_def start_sweeping_def Let_def image_image discovered_candidates
       split: list.splits option.splits erase_outcome.splits prod.splits)

lemma sweep_step_purges:
  assumes "sweep_step wr random stamps policy now pos w = (pos', w')"
    and "\<And>t. sweep_purges pos = Some t \<Longrightarrow> t = purge_cutoff policy now" and "sweep_purges pos' = Some t"
  shows "t = purge_cutoff policy now"
  using assms
  by (cases pos)
     (auto simp: erase_next_def start_sweeping_def Let_def
       split: list.splits option.splits erase_outcome.splits prod.splits)

lemma sweep_run_invariant:
  assumes "sweep_run wr random stamps policy now ws pos"
  shows "(\<forall>who \<in> sweep_candidates pos. \<exists>v \<in> set ws. sweep_candidate policy now who (ew_store v)) \<and>
    (\<forall>t. sweep_purges pos = Some t \<longrightarrow> t = purge_cutoff policy now)"
  using assms
proof (induction rule: sweep_run.induct)
  case (Own w ws pos pos' w')
  note purges = sweep_step_purges [OF Own.hyps(2)]
  show ?case
  proof (intro conjI ballI allI impI)
    fix who assume "who \<in> sweep_candidates pos'"
    then have "who \<in> sweep_candidates pos \<or> sweep_candidate policy now who (ew_store w)"
      by (rule sweep_step_candidates [OF Own.hyps(2)])
    with Own.IH show "\<exists>v \<in> set (w' # w # ws). sweep_candidate policy now who (ew_store v)" by auto
  next
    fix t assume "sweep_purges pos' = Some t"
    with purges Own.IH show "t = purge_cutoff policy now" by blast
  qed
qed auto

text \<open>What one erasure of the sweep changes.\<close>

lemma erase_effect:
  assumes "eraseIdentity decrypt hex j s = Some (s', oc)"
  shows "schema_of (is_db s') = schema_of (is_db s)"
    and "citizen_of s' who \<noteq> citizen_of s who \<Longrightarrow>
      who = j \<and> (\<exists>c. citizen_of s who = Some c \<and> cz_deleted_at c = None) \<and>
      map_option cross_agency_locked_by_agency (applicant_identities (is_db s) who) = Some None \<and>
      active_applications who (is_db s) = [] \<and>
      citizen_of s' who = map_option (entombed (is_now s)) (citizen_of s who)"
    and "citizen_of s' (se_applicantId x) = citizen_of s (se_applicantId x) \<Longrightarrow> x \<in> set (is_sessions s) \<Longrightarrow>
      x \<in> set (is_sessions s')"
proof -
  have "schema_of (is_db s') = schema_of (is_db s) \<and>
    (citizen_of s' who \<noteq> citizen_of s who \<longrightarrow>
      who = j \<and> (\<exists>c. citizen_of s who = Some c \<and> cz_deleted_at c = None) \<and>
      map_option cross_agency_locked_by_agency (applicant_identities (is_db s) who) = Some None \<and>
      active_applications who (is_db s) = [] \<and>
      citizen_of s' who = map_option (entombed (is_now s)) (citizen_of s who)) \<and>
    (citizen_of s' (se_applicantId x) = citizen_of s (se_applicantId x) \<longrightarrow> x \<in> set (is_sessions s) \<longrightarrow>
      x \<in> set (is_sessions s'))" for who
    using assms
  proof (cases rule: eraseIdentity_cases)
    case (1 contact)
    from assms [unfolded 1] obtain c ident where e: "citizen_of s j = Some c" "cz_deleted_at c = None"
        "applicant_identities (is_db s) j = Some ident" "cross_agency_locked_by_agency ident = None"
        "active_applications j (is_db s) = []" "s' = erase_rows j (rotatedHash hex) s"
      by (rule erased_by)
    have "citizen_of s' j \<noteq> citizen_of s j"
      using e(1,2) by (auto simp: e(6) erase_rows_frame entombed_def dest: arg_cong [where f = cz_deleted_at])
    moreover have "x \<in> set (is_sessions s')" if "x \<in> set (is_sessions s)" "se_applicantId x \<noteq> j"
      using that by (simp add: e(6) erase_rows_def)
    ultimately show ?thesis using e(1-5)
      by (auto simp: e(6) erase_rows_frame split: if_splits)
  qed simp
  then show "schema_of (is_db s') = schema_of (is_db s)"
    and "citizen_of s' who \<noteq> citizen_of s who \<Longrightarrow>
      who = j \<and> (\<exists>c. citizen_of s who = Some c \<and> cz_deleted_at c = None) \<and>
      map_option cross_agency_locked_by_agency (applicant_identities (is_db s) who) = Some None \<and>
      active_applications who (is_db s) = [] \<and>
      citizen_of s' who = map_option (entombed (is_now s)) (citizen_of s who)"
    and "citizen_of s' (se_applicantId x) = citizen_of s (se_applicantId x) \<Longrightarrow> x \<in> set (is_sessions s) \<Longrightarrow>
      x \<in> set (is_sessions s')"
    by blast+
qed

lemma publish_erasure_requests: "publish_erasure wr a w = Some w' \<Longrightarrow> ew_requests w' = ew_requests w \<and> ew_store w' = ew_store w"
  by (auto simp: publish_erasure_def split: if_splits)

text \<open>A step of the sweep is an erasure of a candidate, a purge, or leaves the store alone.\<close>

lemma sweep_step_store:
  assumes "sweep_step wr random stamps policy now pos w = (pos', w')"
  obtains "ew_store w' = ew_store w"
  | j hex oc where "j \<in> sweep_candidates pos"
      and "eraseIdentity (wr_decrypt wr) hex j (ew_store w) = Some (ew_store w', oc)"
  | t where "sweep_purges pos = Some t" and "ew_store w' = fst (purgeSessions t (ew_store w))"
  | t where "sweep_purges pos = Some t" and "ew_store w' = fst (purgeChallenges t (ew_store w))"
proof (cases pos)
  case (Erase_next p)
  show thesis
  proof (cases "sp_queue p")
    case Nil
    with assms Erase_next show thesis by (intro that(1)) (auto simp: erase_next_def)
  next
    case (Cons e rest)
    obtain j label where e: "e = (j, label)" by (rule prod.exhaust)
    show thesis
    proof (cases "eraseIdentity (wr_decrypt wr) (random (Suc (sp_count p))) j (ew_store w)")
      case None
      with assms Erase_next Cons e show thesis by (intro that(1)) (auto simp: erase_next_def Let_def)
    next
      case (Some r)
      obtain s oc where r: "r = (s, oc)" by (rule prod.exhaust)
      with assms Erase_next Cons e Some show thesis
        by (intro that(2) [of j "random (Suc (sp_count p))" oc]) (auto simp: erase_next_def Let_def)
    qed
  qed
next
  case (Audit_erased who label p)
  with assms show thesis by (intro that(1)) (auto dest!: publish_erasure_requests split: option.splits)
next
  case (Purge_sessions p)
  with assms show thesis by (intro that(3)) (auto split: prod.splits)
next
  case (Purge_challenges p n)
  with assms show thesis by (intro that(4)) (auto split: prod.splits)
qed (use assms that(1) in auto)


subsection \<open>At concrete inputs\<close>

abbreviation sample_store :: "string identity_store" where
  "sample_store \<equiv> aw_store sample_auth_world"

definition erased_store :: "string identity_store" where
  "erased_store = erase_rows ''citizen'' (rotatedHash ''0abc'') sample_store"

lemma sample_store_facts:
  "reachable (is_db sample_store)" "citizen_of sample_store ''citizen'' = Some sample_citizen_columns"
  "cz_deleted_at sample_citizen_columns = None" "is_sessions sample_store = []"
  "eraseIdentity None ''0abc'' ''citizen'' sample_store = Some (erased_store, ERASED None)"
proof -
  have "initial (is_db sample_store)"
    by (simp add: initial_def sample_auth_world_def sample_db_def empty_schema_def)
  then show "reachable (is_db sample_store)" by (rule Initial)
  show here: "citizen_of sample_store ''citizen'' = Some sample_citizen_columns"
    "cz_deleted_at sample_citizen_columns = None" "is_sessions sample_store = []"
    using sample_facts(7-9) by simp_all
  have "active_applications ''citizen'' (is_db sample_store) = []"
    by (simp add: active_applications_Nil app_of_def sample_auth_world_def sample_db_def empty_schema_def)
  moreover have "applicant_identities (is_db sample_store) ''citizen'' = Some sample_identity"
    by (simp add: sample_auth_world_def sample_db_def)
  moreover have "select_citizen (rotatedHash ''0abc'') (\<lambda>_. True) sample_store = None"
    by (simp add: select_citizen_def hash_of_def rotatedHash_def sample_auth_world_def sample_db_def sample_identity_def)
  ultimately show "eraseIdentity None ''0abc'' ''citizen'' sample_store = Some (erased_store, ERASED None)"
    using here(1,2) by (simp add: eraseIdentity_def notice_contact_def erased_store_def sample_identity_def)
qed


theorem erased_stays_erased_witness:
  "(case citizen_of (aw_store (logout sample_auth_env ''tok'' (sample_auth_world\<lparr>aw_store := erased_store\<rparr>))) ''citizen'' of
      None \<Rightarrow> False | Some c \<Rightarrow> cz_deleted_at c = Some 1000)"
proof -
  let ?w = "sample_auth_world\<lparr>aw_store := erased_store\<rparr>"
  have here: "citizen_of (aw_store ?w) ''citizen'' = Some (entombed 1000 sample_citizen_columns)"
    using sample_store_facts(2) sample_facts(2) by (simp add: erased_store_def erase_rows_frame)
  have gone: "cz_deleted_at (entombed 1000 sample_citizen_columns) \<noteq> None" by (simp add: entombed_def)
  have "(registry_step sample_auth_env)\<^sup>*\<^sup>* ?w (logout sample_auth_env ''tok'' ?w)"
    by (rule r_into_rtranclp) (rule registry_step.Logout)
  from erased_stays_erased [OF this here gone] show ?thesis by (simp add: entombed_def)
qed

definition sample_locals :: verify_locals where
  "sample_locals = \<lparr>vl_applicantId = ''citizen'', vl_phone = ''+250788123456'', vl_challenge = sample_challenge\<rparr>"

theorem session_outlives_erasure_witness:
  "snd (authenticateSession sample_auth_env ''tok''
     (at_db_time 2000 (snd (verify_step sample_auth_env sample_draws sample_otp_answer (At_createSession sample_locals)
        (sample_auth_world\<lparr>aw_store := erased_store\<rparr>))))) = Some ''citizen''"
proof -
  obtain p w' where run: "verify_step sample_auth_env sample_draws sample_otp_answer (At_createSession sample_locals)
      (sample_auth_world\<lparr>aw_store := erased_store\<rparr>) = (p, w')" by (rule prod.exhaust)
  have tok: "dr_token sample_draws = ''tok''" by (simp add: sample_draws_def)
  have ttl: "sessionTtlSeconds (en_config sample_auth_env) = 1800" by (simp add: sample_auth_env_def)
  have "snd (authenticateSession sample_auth_env (dr_token sample_draws) (at_db_time 2000 w')) = Some ''citizen''"
    by (rule session_outlives_erasure [OF sample_store_facts(5) _ _ _ _ _ run, THEN conjunct2, THEN conjunct2])
      (simp_all add: sample_locals_def sample_store_facts(4) tok sample_facts ttl)
  then show ?thesis by (simp add: run tok del: verify_step.simps)
qed

definition sample_wiring :: erasure_wiring where
  "sample_wiring = \<lparr>wr_decrypt = None, wr_requests = True, wr_stamping_fails = False, wr_sms = None, wr_bus = (\<lambda>_. True)\<rparr>"

definition sample_erasure_world :: "string erasure_world" where
  "sample_erasure_world = \<lparr>ew_store = sample_store, ew_requests = [], ew_audits = [], ew_sms = []\<rparr>"

text \<open>
  A sweep in 2001: one citizen registered long ago and never applied, another registered today and is
  signed in.
\<close>

definition sweep_time :: instant where "sweep_time = 1000000000000"

definition keeper_session :: applicant_session where
  "keeper_session = \<lparr>se_applicantId = ''keeper'', se_token = ''digest'', se_channel = WEB,
     se_expiresAt = sweep_time + 1000, se_last_activity_at = sweep_time, se_terminated_at = None\<rparr>"

definition retention_world :: "string erasure_world" where
  "retention_world = sample_erasure_world\<lparr>ew_store := sample_store
     \<lparr>is_db := (sample_db empty_schema)\<lparr>applicant_identities := (\<lambda>p.
        if p = ''citizen'' then Some sample_identity
        else if p = ''keeper'' then Some (sample_identity\<lparr>national_id_hash := ''hash2''\<rparr>) else None)\<rparr>,
      is_citizens := [(''citizen'', sample_citizen_columns\<lparr>cz_created_at := 0\<rparr>),
                      (''keeper'', sample_citizen_columns\<lparr>cz_created_at := sweep_time\<rparr>)],
      is_sessions := [keeper_session]\<rparr>\<rparr>"

definition sample_policy :: retention_policy where
  "sample_policy = \<lparr>neverAppliedMonths = 12, negativeTerminalMonths = 24, purgeGraceDays = 30\<rparr>"

definition sample_stamps :: "nat \<Rightarrow> event_envelope" where
  "sample_stamps = (\<lambda>n. envelope sample_draws n \<lparr>cx_correlationId = ''c'', cx_causationId = ''c''\<rparr>)"

abbreviation sample_sweep :: "sweep_at \<Rightarrow> string erasure_world \<Rightarrow> sweep_at \<times> string erasure_world" where
  "sample_sweep \<equiv> sweep_step sample_wiring (\<lambda>_. ''0abc'') sample_stamps sample_policy sweep_time"

definition discovered :: sweep_progress where
  "discovered = start_sweeping sample_policy sweep_time [''citizen''] [] 0 0"

lemma discovery_run:
  "sweep_run sample_wiring (\<lambda>_. ''0abc'') sample_stamps sample_policy sweep_time
     [retention_world, retention_world, retention_world, retention_world, retention_world] (Erase_next discovered)"
proof -
  have "findNeverApplied (never_cutoff sample_policy sweep_time) (ew_store retention_world) = [''citizen'']"
       "findNegativeTerminal (negative_cutoff sample_policy sweep_time) (ew_store retention_world) = []"
       "countPurgeableSessions (purge_cutoff sample_policy sweep_time) (ew_store retention_world) = 0"
       "countPurgeableChallenges (purge_cutoff sample_policy sweep_time) (ew_store retention_world) = 0"
    by code_simp+
  then have "sample_sweep Discover_never retention_world = (Discover_negative [''citizen''], retention_world)"
    "sample_sweep (Discover_negative [''citizen'']) retention_world = (Count_sessions [''citizen''] [], retention_world)"
    "sample_sweep (Count_sessions [''citizen''] []) retention_world = (Count_challenges [''citizen''] [] 0, retention_world)"
    "sample_sweep (Count_challenges [''citizen''] [] 0) retention_world = (Erase_next discovered, retention_world)"
    by (simp_all add: discovered_def)
  then show ?thesis by (meson sweep_run.intros)
qed


text \<open>
  The gate of the erasure looks at the applications in progress only: a citizen found as never having
  applied who files and withdraws before the sweep comes to the row is erased all the same, although
  the row is no longer a candidate of either class.
\<close>

theorem applied_since_discovery_is_erased:
  "let w = retention_world\<lparr>ew_store := (ew_store retention_world)\<lparr>is_db := one_app ((sample_row WITHDRAWN)\<lparr>app_row.updated_at := sweep_time\<rparr>)\<rparr>\<rparr>;
       w' = snd (sample_sweep (Erase_next discovered) w)
   in map_option cz_encrypted_full_name (citizen_of (ew_store w') ''citizen'') = Some TOMBSTONE \<and>
      findNeverApplied (never_cutoff sample_policy sweep_time) (ew_store w) = [] \<and>
      findNegativeTerminal (negative_cutoff sample_policy sweep_time) (ew_store w) = []"
  by code_simp

subsection \<open>Requests are decided once\<close>

text \<open>The shape the table's constraints ask of a row, and of the queue.\<close>

definition well_formed_request :: "erasure_request \<Rightarrow> bool" where
  "well_formed_request r \<longleftrightarrow>
     (case er_status r of
        REQUEST_PENDING \<Rightarrow> er_decided_by r = None \<and> er_decided_at r = None \<and> er_decision_note r = None
      | REQUEST_EXECUTED \<Rightarrow> er_decided_by r \<noteq> None \<and> er_decided_at r \<noteq> None \<and> er_decision_note r = None
      | REQUEST_DECLINED \<Rightarrow> er_decided_by r \<noteq> None \<and> er_decided_at r \<noteq> None \<and> er_decision_note r \<noteq> None)"

definition well_formed_queue :: "erasure_request list \<Rightarrow> bool" where
  "well_formed_queue rs \<longleftrightarrow>
     list_all well_formed_request rs \<and> distinct (map er_id rs) \<and>
     distinct (map er_applicantId (filter (\<lambda>r. er_status r = REQUEST_PENDING) rs))"

inductive request_step :: "'ev erasure_world \<Rightarrow> 'ev erasure_world \<Rightarrow> bool" where
  Filed: "request_step w (fst (file_service wr dr ctx who w))"
| Declined: "request_step w (fst (decline_service wr dr ctx req note officer w))"
| Executed: "request_step w (fst (erase_service wr dr hex who ctx officer w))"
| Swept: "request_step w (snd (sweep_step wr random stamps policy now pos w))"
| Other: "ew_requests w' = ew_requests w \<Longrightarrow> request_step w w'"

definition decides :: "erasure_request list \<Rightarrow> erasure_request list \<Rightarrow> bool" where
  "decides rs rs' \<longleftrightarrow>
     (well_formed_queue rs \<longrightarrow> well_formed_queue rs') \<and>
     (\<forall>r \<in> set rs. er_status r \<noteq> REQUEST_PENDING \<longrightarrow> r \<in> set rs')"

lemma decides_refl [simp, intro]: "decides rs rs"
  by (simp add: decides_def)

lemma decides_trans: "decides rs ss \<Longrightarrow> (well_formed_queue rs \<Longrightarrow> decides ss ts) \<Longrightarrow> well_formed_queue rs \<Longrightarrow> decides rs ts"
  unfolding decides_def by blast

lemma pending_after:
  assumes "\<And>r. er_applicantId (f r) = er_applicantId r" and "\<And>r. er_status (f r) = REQUEST_PENDING \<Longrightarrow> er_status r = REQUEST_PENDING"
    and "distinct (map er_applicantId (filter (\<lambda>r. er_status r = REQUEST_PENDING) rs))"
  shows "distinct (map er_applicantId (filter (\<lambda>r. er_status r = REQUEST_PENDING) (map f rs)))"
  using assms(3)
proof (induction rs)
  case (Cons r rs)
  have "er_applicantId ` {x \<in> f ` set rs. er_status x = REQUEST_PENDING} \<subseteq> er_applicantId ` {x \<in> set rs. er_status x = REQUEST_PENDING}"
    using assms(1,2) by force
  with Cons show ?case using assms(1,2) [of r] by (auto simp: image_iff split: if_splits)
qed simp

lemma decide_rows:
  assumes "\<And>r. P r \<Longrightarrow> er_status r = REQUEST_PENDING"
    and "\<And>r. P r \<Longrightarrow> er_id (f r) = er_id r \<and> er_applicantId (f r) = er_applicantId r \<and> er_status (f r) \<noteq> REQUEST_PENDING \<and>
      (well_formed_request r \<longrightarrow> well_formed_request (f r))"
  shows "decides rs (map (\<lambda>r. if P r then f r else r) rs)"
proof -
  let ?g = "\<lambda>r. if P r then f r else r"
  have "distinct (map er_id (map ?g rs))" if "well_formed_queue rs"
  proof -
    have "map er_id (map ?g rs) = map er_id rs" using assms(2) by (auto simp: comp_def)
    then show ?thesis using that by (simp only: well_formed_queue_def)
  qed
  moreover have "distinct (map er_applicantId (filter (\<lambda>r. er_status r = REQUEST_PENDING) (map ?g rs)))" if "well_formed_queue rs"
    using that assms(2) by (intro pending_after) (auto simp: well_formed_queue_def split: if_splits)
  moreover have "list_all well_formed_request (map ?g rs)" if "well_formed_queue rs"
    using that assms(2) by (auto simp: well_formed_queue_def list_all_iff)
  moreover have "r \<in> set (map ?g rs)" if "r \<in> set rs" "er_status r \<noteq> REQUEST_PENDING" for r
    using that assms(1) by (force simp: image_iff)
  ultimately show ?thesis unfolding decides_def well_formed_queue_def [of "map ?g rs"] by blast
qed

lemma markExecuted_decides: "decides (ew_requests w) (ew_requests (fst (markExecuted who officer w)))"
  unfolding markExecuted_def Let_def fst_conv erasure_world.select_convs erasure_world.update_convs
  by (simp, rule decide_rows) (auto simp: well_formed_request_def)

lemma fileRequest_decides: "fileRequest i who w = Some (w', oc) \<Longrightarrow> decides (ew_requests w) (ew_requests w')"
  by (auto simp: fileRequest_def decides_def well_formed_queue_def well_formed_request_def find_None_iff list_ex_iff
      split: option.splits if_splits)

lemma decline_request_decides:
  assumes "decline_request d req officer note w = Some (w', oc)" and "well_formed_queue (ew_requests w)"
  shows "decides (ew_requests w) (ew_requests w')"
proof (cases "w' = w")
  case False
  let ?f = "\<lambda>r. r\<lparr>er_status := REQUEST_DECLINED, er_decided_by := Some officer,
      er_decided_at := Some (is_now (ew_store w)), er_decision_note := Some note\<rparr>"
  from assms(1) False obtain row where row: "find (\<lambda>r. er_id r = req) (ew_requests w) = Some row" "er_status row = REQUEST_PENDING"
      and w': "ew_requests w' = map (\<lambda>r. if er_id r = req then ?f r else r) (ew_requests w)"
    by (auto simp: decline_request_def Let_def split: option.splits if_splits)
  have found: "row \<in> set (ew_requests w)" "er_id row = req" using row(1) by (auto simp: find_Some_iff)
  have only: "r = row" if "r \<in> set (ew_requests w)" "er_id r = req" for r
    using that found assms(2) unfolding well_formed_queue_def by (metis distinct_map inj_onD)
  have "ew_requests w' = map (\<lambda>r. if er_id r = req \<and> er_status r = REQUEST_PENDING then ?f r else r) (ew_requests w)"
    unfolding w' using only row(2) by (intro map_cong) auto
  moreover have "decides (ew_requests w) \<dots>" by (rule decide_rows) (auto simp: well_formed_request_def)
  ultimately show ?thesis by simp
qed simp

lemma send_notice_requests: "send_notice ch body contact w = (w', st) \<Longrightarrow> ew_requests w' = ew_requests w"
  by (auto simp: send_notice_def split: option.splits sms_result.splits)

lemma notify_executed_requests: "ew_requests (fst (notify_executed wr dr ctx who officer oc w)) = ew_requests w"
  by (auto simp: notify_executed_def dest!: send_notice_requests publish_erasure_requests
      split: erase_outcome.splits option.splits prod.splits)

lemma erase_service_decides: "decides (ew_requests w) (ew_requests (fst (erase_service wr dr hex who ctx officer w)))"
proof (cases "eraseIdentity (wr_decrypt wr) hex who (ew_store w)")
  case (Some r)
  obtain s oc where r: "r = (s, oc)" by (rule prod.exhaust)
  let ?v = "ew_requests (fst (erase_service wr dr hex who ctx officer w))"
  have "?v = ew_requests w \<or> ?v = ew_requests (fst (markExecuted who (eo_subjectId officer) (w\<lparr>ew_store := s\<rparr>)))"
    using Some r
    by (auto simp: erase_service_def Let_def notify_executed_requests dest!: publish_erasure_requests split: option.splits)
  then show ?thesis using markExecuted_decides [of "w\<lparr>ew_store := s\<rparr>"] by auto
qed (simp add: erase_service_def)

lemma sweep_step_requests: "ew_requests (snd (sweep_step wr random stamps policy now pos w)) = ew_requests w"
  by (cases pos)
     (auto simp: erase_next_def Let_def dest!: publish_erasure_requests split: list.splits option.splits prod.splits)

lemma request_step_decides: "request_step w w' \<Longrightarrow> well_formed_queue (ew_requests w) \<Longrightarrow> decides (ew_requests w) (ew_requests w')"
proof (induction rule: request_step.induct)
  case (Filed w wr dr ctx who)
  show ?case
    by (auto simp: file_service_def dest!: fileRequest_decides publish_erasure_requests split: option.splits file_request_outcome.splits)
next
  case (Declined w wr dr ctx req ground officer)
  note step = decline_request_decides [OF _ Declined]
  show ?case
    by (auto simp: decline_service_def dest!: step send_notice_requests publish_erasure_requests
        split: option.splits decline_outcome.splits prod.splits)
next
  case (Executed w wr dr hex who ctx officer)
  show ?case by (rule erase_service_decides)
next
  case (Swept w wr random stamps policy now pos)
  show ?case by (simp add: sweep_step_requests)
qed simp

text \<open>
  C27: Starting from a well-formed queue of erasure requests, whatever is filed, declined,
  executed or swept leaves it well formed: a pending row carries no decision, a decided one says
  who and when, no two rows share an id and no citizen has two pending ones; and a decided
  request is never changed again.
\<close>

theorem requests_stay_well_formed:
  assumes "request_step\<^sup>*\<^sup>* w w'" and "well_formed_queue (ew_requests w)"
  shows "well_formed_queue (ew_requests w') \<and>
    set (filter (\<lambda>r. er_status r \<noteq> REQUEST_PENDING) (ew_requests w)) \<subseteq> set (ew_requests w')"
  using assms
proof (induction rule: rtranclp_induct)
  case (step v v')
  have kept: "decides (ew_requests v) (ew_requests v')" using step request_step_decides by blast
  have "r \<in> set (ew_requests v')" if "r \<in> set (ew_requests w)" "er_status r \<noteq> REQUEST_PENDING" for r
    using step.IH [OF step.prems] kept that unfolding decides_def by auto
  with kept step show ?case unfolding decides_def by auto
qed auto

theorem requests_stay_well_formed_witness:
  "well_formed_queue (ew_requests (fst (erase_service sample_wiring sample_draws ''0abc'' ''citizen'' None
     \<lparr>eo_subjectId = ''dpo'', eo_agency = RDF\<rparr>
     (fst (file_service sample_wiring sample_draws \<lparr>cx_correlationId = ''c'', cx_causationId = ''c''\<rparr> ''citizen'' sample_erasure_world)))))"
proof -
  have "well_formed_queue (ew_requests sample_erasure_world)" by (simp add: sample_erasure_world_def well_formed_queue_def)
  moreover have "request_step\<^sup>*\<^sup>* sample_erasure_world (fst (erase_service sample_wiring sample_draws ''0abc'' ''citizen'' None
     \<lparr>eo_subjectId = ''dpo'', eo_agency = RDF\<rparr>
     (fst (file_service sample_wiring sample_draws \<lparr>cx_correlationId = ''c'', cx_causationId = ''c''\<rparr> ''citizen'' sample_erasure_world))))"
    by (rule rtranclp.rtrancl_into_rtrancl [OF r_into_rtranclp]) (rule Filed, rule Executed)
  ultimately show ?thesis using requests_stay_well_formed by blast
qed

end
