(* ===== verification/IdentityMatch.thy ===== *)
theory IdentityMatch
  imports Citizens Calendar
begin

text \<open>
  Binding of a credential to the applicant (\<open>packages/shared-identity-match/src/index.ts\<close>): names as
  multisets of tokens, dates of birth in the two written forms, sex, the hint of the National ID, and the
  rule that combines them. NFKD, the removal of marks and upper-casing are one function of the library
  record, the Unicode letters another; characters have
  eight bits here, so of the four apostrophes that are dropped and the four marks that may mask a digit
  of the hint, the bullet and two apostrophes are outside the model.
\<close>

record name_library =
  nfkd_upper :: "string \<Rightarrow> string"
  is_letter :: "char \<Rightarrow> bool"

datatype name_match = NAME_EXACT | NAME_PARTIAL | NAME_MISMATCH

datatype field_result = FIELD_MATCH | FIELD_PARTIAL | FIELD_MISMATCH | NOT_COMPARED | UNREADABLE

datatype binding_outcome = BOUND | REVIEW | NOT_BOUND

record identity_facts =
  if_fullName :: string
  if_dateOfBirth :: string
  if_sex :: "string option"
  if_nationalIdHint :: "string option"

record credential_claim =
  cc_holderName :: string
  cc_dateOfBirth :: "string option"
  cc_sex :: "string option"
  cc_nationalIdHint :: "string option"

datatype claim_field = DATE_OF_BIRTH | SEX | NATIONAL_ID_HINT

record binding_fields =
  bf_name :: field_result
  bf_dateOfBirth :: field_result
  bf_sex :: field_result
  bf_nationalIdHint :: field_result

record binding_result =
  br_outcome :: binding_outcome
  br_nameMatch :: name_match
  br_fields :: binding_fields

subsection \<open>Names\<close>

text \<open>\<open>s.split(/[^\<dots>]+/)\<close> with the empty pieces dropped: the maximal runs of accepted units.\<close>

fun runs_of :: "(char \<Rightarrow> bool) \<Rightarrow> string \<Rightarrow> string \<Rightarrow> string list" where
  "runs_of ok w [] = (if w = [] then [] else [w])"
| "runs_of ok w (c # cs) =
     (if ok c then runs_of ok (w @ [c]) cs
      else (if w = [] then [] else [w]) @ runs_of ok [] cs)"

definition nameTokens :: "name_library \<Rightarrow> string \<Rightarrow> string list" where
  "nameTokens lib name =
     runs_of (is_letter lib) [] (filter (\<lambda>c. c \<notin> {CHR 0x27, CHR 0x60}) (nfkd_upper lib name))"

definition differing :: "string \<Rightarrow> string \<Rightarrow> nat list" where
  "differing a b = filter (\<lambda>i. a ! i \<noteq> b ! i) [0..<length a]"

fun scan_shorter :: "bool \<Rightarrow> string \<Rightarrow> string \<Rightarrow> bool" where
  "scan_shorter skipped (x # xs) (y # ys) =
     (if x = y then scan_shorter skipped xs ys
      else if skipped then False
      else scan_shorter True (x # xs) ys)"
| "scan_shorter skipped [] ys = True"
| "scan_shorter skipped xs [] = True"

definition editDistanceAtMostOne :: "string \<Rightarrow> string \<Rightarrow> bool" where
  "editDistanceAtMostOne a b =
     (if a = b then True
      else let la = length a; lb = length b in
      if \<bar>int la - int lb\<bar> > 1 then False
      else if la = lb then
        (case differing a b of
           [_] \<Rightarrow> True
         | [i, j] \<Rightarrow> j = i + 1 \<and> a ! i = b ! j \<and> a ! j = b ! i
         | _ \<Rightarrow> False)
      else if la < lb then scan_shorter False a b
      else scan_shorter False b a)"

text \<open>
  The Map of counts keeps its keys in the order of their first insertion; \<open>leftover\<close> repeats a token as
  often as the other side does not consume it.
\<close>

definition count_of :: "string list \<Rightarrow> string \<Rightarrow> nat" where
  "count_of ts t = length (filter (\<lambda>u. u = t) ts)"

definition leftover :: "string list \<Rightarrow> string list \<Rightarrow> string list" where
  "leftover from against =
     concat (map (\<lambda>t. replicate (count_of from t - min (count_of from t) (count_of against t)) t) (rev (remdups (rev from))))"

definition FUZZY_MIN_LENGTH :: nat where "FUZZY_MIN_LENGTH = 3"

definition compareNames :: "name_library \<Rightarrow> string \<Rightarrow> string \<Rightarrow> name_match" where
  "compareNames lib left right =
     (let a = nameTokens lib left; b = nameTokens lib right in
      if a = [] \<or> b = [] then NAME_MISMATCH
      else
        let onlyA = leftover a b; onlyB = leftover b a; shared = length a - length onlyA in
        if onlyA = [] \<and> onlyB = [] then NAME_EXACT
        else if shared > 0 \<and> (onlyA = [] \<or> onlyB = []) then NAME_PARTIAL
        else
          (case (onlyA, onlyB) of
             ([x], [y]) \<Rightarrow>
               if min (length x) (length y) \<ge> FUZZY_MIN_LENGTH \<and> editDistanceAtMostOne x y then NAME_PARTIAL
               else NAME_MISMATCH
           | _ \<Rightarrow> NAME_MISMATCH))"

subsection \<open>Dates of birth\<close>

definition DATE_SEPARATORS :: "char set" where "DATE_SEPARATORS = {CHR ''/'', CHR ''.'', CHR ''-''}"

definition digits_only :: "nat \<Rightarrow> string \<Rightarrow> bool" where
  "digits_only n s \<longleftrightarrow> length s = n \<and> list_all is_digit s"

text \<open>The two patterns; each yields year, month and day as read.\<close>

definition iso_parts :: "string \<Rightarrow> (int \<times> int \<times> int) option" where
  "iso_parts v =
     (let y = take 4 v; m = take 2 (drop 5 v); d = take 2 (drop 8 v); rest = drop 10 v in
      if digits_only 4 y \<and> take 1 (drop 4 v) = ''-'' \<and> digits_only 2 m \<and> take 1 (drop 7 v) = ''-'' \<and> digits_only 2 d \<and>
         (case rest of [] \<Rightarrow> True | c # cs \<Rightarrow> c = CHR ''T'' \<and> list_all (\<lambda>x. x \<notin> {CHR 0x0A, CHR 0x0D}) cs)
      then Some (digits_val y, digits_val m, digits_val d) else None)"

definition printed_parts :: "string \<Rightarrow> (int \<times> int \<times> int) option" where
  "printed_parts v =
     (let d = takeWhile is_digit v; r = dropWhile is_digit v in
      case r of
        [] \<Rightarrow> None
      | s # r \<Rightarrow>
          (let m = takeWhile is_digit r; r = dropWhile is_digit r in
           case r of
             [] \<Rightarrow> None
           | s' # y \<Rightarrow>
               if length d \<in> {1, 2} \<and> s \<in> DATE_SEPARATORS \<and> length m \<in> {1, 2} \<and> s' \<in> DATE_SEPARATORS \<and> digits_only 4 y
               then Some (digits_val y, digits_val m, digits_val d) else None))"

text \<open>\<open>Date.UTC\<close> reads the years 0 to 99 as 1900 to 1999; a day past its month rolls over.\<close>

definition utc_year :: "int \<Rightarrow> int" where
  "utc_year y = (if 0 \<le> y \<and> y \<le> 99 then 1900 + y else y)"

definition real_date :: "int \<Rightarrow> int \<Rightarrow> int \<Rightarrow> bool" where
  "real_date y m d \<longleftrightarrow>
     1 \<le> m \<and> m \<le> 12 \<and> 1 \<le> d \<and>
     civil_of_days (days_of_civil (utc_year y) m d) = \<lparr>civil_year = y, civil_month = m, civil_day = d\<rparr>"

definition four_digits :: "int \<Rightarrow> string" where
  "four_digits n = (let s = decimal (nat n) in replicate (4 - length s) CHR ''0'' @ s)"

definition parseDateOfBirth :: "string \<Rightarrow> string option" where
  "parseDateOfBirth raw =
     (let v = js_trim raw in
      case (case iso_parts v of Some p \<Rightarrow> Some p | None \<Rightarrow> printed_parts v) of
        None \<Rightarrow> None
      | Some (y, m, d) \<Rightarrow>
          if real_date y m d then Some (four_digits y @ ''-'' @ two_digits m @ ''-'' @ two_digits d) else None)"

subsection \<open>Sex and the hint of the National ID\<close>

definition normaliseSex :: "string \<Rightarrow> gender option" where
  "normaliseSex raw =
     (let v = js_upper (js_trim raw) in
      if v = ''MALE'' \<or> v = ''M'' then Some MALE
      else if v = ''FEMALE'' \<or> v = ''F'' then Some FEMALE
      else None)"

definition parseNationalIdHint :: "string \<Rightarrow> string option" where
  "parseNationalIdHint raw =
     (let v = filter (\<lambda>c. \<not> is_js_space c) raw in
      if length v = 16 \<and> list_all is_digit (take 4 v) \<and> list_all (\<lambda>c. c \<in> set ''*xX'') (take 8 (drop 4 v)) \<and>
         list_all is_digit (drop 12 v)
      then Some (take 4 v @ drop 12 v)
      else if digits_only 8 v then Some v else None)"

subsection \<open>The rule\<close>

definition present :: "string option \<Rightarrow> bool" where
  "present v \<longleftrightarrow> (case v of None \<Rightarrow> False | Some s \<Rightarrow> js_trim s \<noteq> [])"

definition compareField :: "string option \<Rightarrow> string option \<Rightarrow> (string \<Rightarrow> 'a option) \<Rightarrow> field_result" where
  "compareField identityRaw claimRaw parse =
     (case (claimRaw, identityRaw) of
        (Some c, Some i) \<Rightarrow>
          if \<not> present claimRaw \<or> \<not> present identityRaw then NOT_COMPARED
          else
            (case (parse c, parse i) of
               (Some claim, Some identity) \<Rightarrow> if claim = identity then FIELD_MATCH else FIELD_MISMATCH
             | _ \<Rightarrow> UNREADABLE)
      | _ \<Rightarrow> NOT_COMPARED)"

fun NAME_FIELD :: "name_match \<Rightarrow> field_result" where
  "NAME_FIELD NAME_EXACT = FIELD_MATCH"
| "NAME_FIELD NAME_PARTIAL = FIELD_PARTIAL"
| "NAME_FIELD NAME_MISMATCH = FIELD_MISMATCH"

fun field_of :: "claim_field \<Rightarrow> binding_fields \<Rightarrow> field_result" where
  "field_of DATE_OF_BIRTH f = bf_dateOfBirth f"
| "field_of SEX f = bf_sex f"
| "field_of NATIONAL_ID_HINT f = bf_nationalIdHint f"

definition bindCredential :: "name_library \<Rightarrow> identity_facts \<Rightarrow> credential_claim \<Rightarrow> claim_field list \<Rightarrow> binding_result" where
  "bindCredential lib identity claim requiredFields =
     (let nameMatch = compareNames lib (if_fullName identity) (cc_holderName claim);
          fields = \<lparr>bf_name = NAME_FIELD nameMatch,
            bf_dateOfBirth = compareField (Some (if_dateOfBirth identity)) (cc_dateOfBirth claim) parseDateOfBirth,
            bf_sex = compareField (if_sex identity) (cc_sex claim) normaliseSex,
            bf_nationalIdHint = compareField (if_nationalIdHint identity) (cc_nationalIdHint claim) parseNationalIdHint\<rparr>;
          all_fields = [bf_name fields, bf_dateOfBirth fields, bf_sex fields, bf_nationalIdHint fields];
          requiredMissing = list_ex (\<lambda>f. field_of f fields = NOT_COMPARED) requiredFields;
          outcome = (if FIELD_MISMATCH \<in> set all_fields then NOT_BOUND
            else if FIELD_PARTIAL \<in> set all_fields \<or> UNREADABLE \<in> set all_fields \<or> requiredMissing then REVIEW
            else BOUND)
      in \<lparr>br_outcome = outcome, br_nameMatch = nameMatch, br_fields = fields\<rparr>)"


subsection \<open>One edit\<close>

text \<open>What the scans decide: nothing, one unit replaced, inserted or deleted, or two neighbours swapped.\<close>

inductive one_edit :: "string \<Rightarrow> string \<Rightarrow> bool" where
  Same: "one_edit a a"
| Replace: "one_edit (u @ x # v) (u @ y # v)"
| Insert: "one_edit (u @ v) (u @ x # v)"
| Delete: "one_edit (u @ x # v) (u @ v)"
| Swap: "one_edit (u @ x # y # v) (u @ y # x # v)"

lemma one_edit_sym: "one_edit a b \<Longrightarrow> one_edit b a"
  by (induction rule: one_edit.induct) (auto intro: one_edit.intros)

lemma differing_Cons:
  "differing (x # a) (y # b) = (if x = y then [] else [0]) @ map Suc (differing a b)"
proof -
  have "differing (x # a) (y # b) = filter (\<lambda>i. (x # a) ! i \<noteq> (y # b) ! i) (0 # map Suc [0..<length a])"
    by (simp only: differing_def length_Cons upt_conv_Cons zero_less_Suc map_Suc_upt)
  then show ?thesis by (simp add: differing_def filter_map comp_def)
qed

lemma differing_Nil [simp]: "differing [] b = []"
  by (simp add: differing_def)

lemma differing_same: "length a = length b \<Longrightarrow> differing a b = [] \<longleftrightarrow> a = b"
  by (induction a b rule: list_induct2) (auto simp: differing_Cons)

lemma differing_append: "length u = length w \<Longrightarrow> differing (u @ a) (w @ b) = differing u w @ map (\<lambda>i. i + length u) (differing a b)"
  by (induction u w rule: list_induct2) (auto simp: differing_Cons comp_def)

lemma differing_one:
  "length a = length b \<Longrightarrow> differing a b = [i] \<Longrightarrow> \<exists>u x y v. a = u @ x # v \<and> b = u @ y # v"
proof (induction a b arbitrary: i rule: list_induct2)
  case (Cons x a y b)
  show ?case
  proof (cases "x = y")
    case True
    with Cons.prems obtain j where "differing a b = [j]" by (auto simp: differing_Cons)
    with Cons.IH obtain u x' y' v where "a = u @ x' # v" "b = u @ y' # v" by blast
    with True show ?thesis by (intro exI [of _ "x # u"]) auto
  next
    case False
    with Cons have "a = b" by (auto simp: differing_Cons differing_same)
    then show ?thesis by (intro exI [of _ "[]"]) simp
  qed
qed simp

lemma differing_swap:
  "length a = length b \<Longrightarrow> differing a b = [i, i + 1] \<Longrightarrow> a ! i = b ! (i + 1) \<Longrightarrow> a ! (i + 1) = b ! i \<Longrightarrow>
     \<exists>u x y v. a = u @ x # y # v \<and> b = u @ y # x # v"
proof (induction a b arbitrary: i rule: list_induct2)
  case (Cons x a y b)
  show ?case
  proof (cases "x = y")
    case True
    with Cons.prems(1) have d: "map Suc (differing a b) = [i, i + 1]" by (simp add: differing_Cons)
    then obtain j where j: "i = Suc j" by (cases "differing a b") auto
    with d have "differing a b = [j, j + 1]" by (auto simp: map_eq_Cons_conv)
    with Cons.IH [of j] Cons.prems(2,3) j obtain u x' y' v where "a = u @ x' # y' # v" "b = u @ y' # x' # v" by auto
    with True show ?thesis by (intro exI [of _ "x # u"]) auto
  next
    case False
    with Cons.prems(1) have i: "i = 0" "map Suc (differing a b) = [1]" by (auto simp: differing_Cons)
    then have one: "differing a b = [0]" by (simp add: map_eq_Cons_conv)
    then obtain x' a' y' b' where ab: "a = x' # a'" "b = y' # b'" using Cons.hyps
      by (cases a; cases b) auto
    with one have "differing a' b' = []" by (auto simp: differing_Cons split: if_splits)
    with ab Cons.hyps have "a' = b'" by (simp add: differing_same)
    with ab Cons.prems(2,3) i show ?thesis by (intro exI [of _ "[]"]) auto
  qed
qed simp

lemma scan_skipped: "length a = length b \<Longrightarrow> scan_shorter True a b \<longleftrightarrow> a = b"
  by (induction a b rule: list_induct2) auto

lemma scan_deletes: "length b = Suc (length a) \<Longrightarrow> scan_shorter False a b \<longleftrightarrow> (\<exists>u x v. a = u @ v \<and> b = u @ x # v)"
proof (induction a arbitrary: b)
  case Nil
  then obtain x where "b = [x]" by (cases b) auto
  then show ?case by auto
next
  case (Cons y a)
  then obtain z b' where b: "b = z # b'" "length b' = Suc (length a)" by (cases b) auto
  show ?case
  proof (cases "y = z")
    case True
    have "(\<exists>u x v. a = u @ v \<and> b' = u @ x # v) \<longleftrightarrow> (\<exists>u x v. y # a = u @ v \<and> b = u @ x # v)" (is "?l \<longleftrightarrow> ?r")
    proof
      assume ?l then obtain u x v where "a = u @ v" "b' = u @ x # v" by blast
      with True b show ?r by (intro exI [of _ "y # u"]) auto
    next
      assume ?r then obtain u x v where r: "y # a = u @ v" "b = u @ x # v" by blast
      show ?l
      proof (cases u)
        case Nil
        with r b True show ?thesis by (intro exI [of _ "[]"]) auto
      next
        case (Cons c u')
        with r b show ?thesis by auto
      qed
    qed
    with Cons.IH [OF b(2)] True b show ?thesis by simp
  next
    case False
    have "(\<exists>u x v. y # a = u @ v \<and> b = u @ x # v) \<longleftrightarrow> y # a = b'"
    proof
      assume "\<exists>u x v. y # a = u @ v \<and> b = u @ x # v"
      then obtain u x v where r: "y # a = u @ v" "b = u @ x # v" by blast
      with False b show "y # a = b'" by (cases u) auto
    qed (use b in \<open>auto intro: exI [of _ "[]"]\<close>)
    with False b scan_skipped [of "y # a" b'] show ?thesis by simp
  qed
qed

lemma equal_length_edit:
  assumes "length a = length b" and "a \<noteq> b"
  shows "(case differing a b of [_] \<Rightarrow> True | [i, j] \<Rightarrow> j = i + 1 \<and> a ! i = b ! j \<and> a ! j = b ! i | _ \<Rightarrow> False) \<longleftrightarrow> one_edit a b"
    (is "?decide \<longleftrightarrow> _")
proof
  assume ?decide
  then consider i where "differing a b = [i]" | i where "differing a b = [i, i + 1]" "a ! i = b ! (i + 1)" "a ! (i + 1) = b ! i"
    by (auto split: list.splits)
  then show "one_edit a b"
  proof cases
    case 1
    from differing_one [OF assms(1) this] show ?thesis by (auto intro: Replace)
  next
    case 2
    from differing_swap [OF assms(1) this] show ?thesis by (auto intro: Swap)
  qed
next
  assume "one_edit a b"
  then show ?decide
  proof cases
    case (Replace u x v y)
    have "differing u u = []" by (simp add: differing_same)
    moreover have "differing v v = []" by (simp add: differing_same)
    moreover have "x \<noteq> y" using Replace assms(2) by auto
    ultimately show ?thesis by (simp add: Replace differing_append differing_Cons)
  next
    case (Swap u x y v)
    have "differing u u = []" by (simp add: differing_same)
    moreover have "differing v v = []" by (simp add: differing_same)
    moreover have "x \<noteq> y" using Swap assms(2) by auto
    ultimately show ?thesis by (simp add: Swap differing_append differing_Cons nth_append)
  qed (use assms in auto)
qed

lemma edit_scan_iff: "editDistanceAtMostOne a b \<longleftrightarrow> one_edit a b"
proof -
  consider "a = b" | "a \<noteq> b" "length a = length b" | "length b = Suc (length a)" | "length a = Suc (length b)"
    | "\<bar>int (length a) - int (length b)\<bar> > 1" by linarith
  then show ?thesis
  proof cases
    case 1
    then show ?thesis by (simp add: editDistanceAtMostOne_def one_edit.Same)
  next
    case 2
    then show ?thesis using equal_length_edit [OF 2(2,1)] by (simp add: editDistanceAtMostOne_def)
  next
    case 3
    then have "a \<noteq> b" by auto
    have "one_edit a b \<longleftrightarrow> (\<exists>u x v. a = u @ v \<and> b = u @ x # v)"
      using 3 by (auto elim!: one_edit.cases intro: one_edit.Insert)
    with \<open>a \<noteq> b\<close> 3 scan_deletes [OF 3] show ?thesis by (simp add: editDistanceAtMostOne_def)
  next
    case 4
    then have "a \<noteq> b" by auto
    have "one_edit a b \<longleftrightarrow> (\<exists>u x v. b = u @ v \<and> a = u @ x # v)"
      using 4 by (auto elim!: one_edit.cases intro: one_edit.Delete)
    with \<open>a \<noteq> b\<close> 4 scan_deletes [OF 4] show ?thesis by (simp add: editDistanceAtMostOne_def)
  next
    case 5
    then have "a \<noteq> b" by auto
    moreover have "\<not> one_edit a b" using 5 by (auto elim!: one_edit.cases)
    ultimately show ?thesis using 5 by (simp add: editDistanceAtMostOne_def)
  qed
qed

text \<open>
  The edit-distance scan accepts exactly the pairs of names that are equal or one edit
  apart, where an edit replaces, inserts or deletes one unit or swaps two neighbours; so it does
  not depend on the order of its arguments.
\<close>

text \<open>
  C24: The edit-distance scan accepts exactly the pairs of names that are equal or one edit
  apart, where an edit replaces, inserts or deletes one unit or swaps two neighbours; so it does
  not depend on the order of its arguments.
\<close>

theorem edit_scan_is_one_edit:
  "(editDistanceAtMostOne a b \<longleftrightarrow> one_edit a b) \<and> editDistanceAtMostOne b a = editDistanceAtMostOne a b"
  unfolding edit_scan_iff using one_edit_sym by blast

subsection \<open>Names as multisets\<close>

lemma count_of_mset: "count_of ts t = count (mset ts) t"
  by (induction ts) (auto simp: count_of_def)

lemma mset_replicates:
  "distinct ks \<Longrightarrow> count (mset (concat (map (\<lambda>t. replicate (f t) t) ks))) x = (if x \<in> set ks then f x else 0)"
  by (induction ks) auto

lemma mset_leftover: "mset (leftover from against) = mset from - mset against"
proof (rule multiset_eqI)
  fix x
  have "count (mset (leftover from against)) x =
      (if x \<in> set from then count_of from x - min (count_of from x) (count_of against x) else 0)"
    unfolding leftover_def by (subst mset_replicates) simp_all
  also have "\<dots> = count (mset from - mset against) x"
    by (auto simp: count_of_mset min_def not_in_iff) (metis count_greater_zero_iff le0 le_less_trans not_le set_mset_mset)
  finally show "count (mset (leftover from against)) x = count (mset from - mset against) x" .
qed

lemma leftover_Nil_iff: "leftover a b = [] \<longleftrightarrow> mset a \<subseteq># mset b"
  by (metis mset_leftover mset_zero_iff Diff_eq_empty_iff_mset)

lemma leftover_shared: "length a - length (leftover a b) = size (mset a \<inter># mset b)"
proof -
  have "length (leftover a b) = size (mset a - mset b)" by (metis mset_leftover size_mset)
  moreover have "size (mset a - mset b) = size (mset a) - size (mset a \<inter># mset b)"
    by (simp add: size_Diff_subset_Int)
  moreover have "size (mset a \<inter># mset b) \<le> size (mset a)" using size_mset_mono [of "mset a \<inter># mset b" "mset a"] by simp
  ultimately show ?thesis by simp
qed

lemma compareNames_exact:
  "compareNames lib l r = NAME_EXACT \<longleftrightarrow> mset (nameTokens lib l) = mset (nameTokens lib r) \<and> nameTokens lib l \<noteq> []"
  by (auto simp: compareNames_def Let_def leftover_Nil_iff split: list.splits)

lemma compareNames_sym: "compareNames lib r l = compareNames lib l r"
proof -
  let ?a = "nameTokens lib l" and ?b = "nameTokens lib r"
  have "editDistanceAtMostOne y x = editDistanceAtMostOne x y" for x y unfolding edit_scan_iff using one_edit_sym by blast
  then show ?thesis
    by (auto simp: compareNames_def Let_def leftover_shared subset_mset.inf_commute min.commute split: list.splits)
qed

text \<open>
  The names that are not a mismatch: one side's tokens are among the other's, or the two sides differ in
  one token each, of at least three letters, by one edit.
\<close>

definition close_names :: "string multiset \<Rightarrow> string multiset \<Rightarrow> bool" where
  "close_names A B \<longleftrightarrow>
     A \<noteq> {#} \<and> B \<noteq> {#} \<and>
     (A \<subseteq># B \<or> B \<subseteq># A \<or>
      (\<exists>C x y. A = add_mset x C \<and> B = add_mset y C \<and> 3 \<le> length x \<and> 3 \<le> length y \<and> one_edit x y))"

lemma single_leftover: "leftover a b = [x] \<longleftrightarrow> mset a - mset b = {#x#}"
  using mset_leftover [of a b] by (metis mset_single_iff)

lemma one_token_apart:
  assumes "x \<noteq> y"
  shows "A - B = {#x#} \<and> B - A = {#y#} \<longleftrightarrow> (\<exists>C. A = add_mset x C \<and> B = add_mset y C)"
proof
  assume diff: "A - B = {#x#} \<and> B - A = {#y#}"
  have "A = A \<inter># B + (A - B)" "B = A \<inter># B + (B - A)"
    by (auto simp: multiset_eq_iff min_def)
  with diff have "A = add_mset x (A \<inter># B)" "B = add_mset y (A \<inter># B)" by simp_all
  then show "\<exists>C. A = add_mset x C \<and> B = add_mset y C" by blast
qed (use assms in auto)

lemma compareNames_mismatch:
  "compareNames lib l r = NAME_MISMATCH \<longleftrightarrow> \<not> close_names (mset (nameTokens lib l)) (mset (nameTokens lib r))"
proof -
  let ?a = "nameTokens lib l" and ?b = "nameTokens lib r"
  show ?thesis
  proof (cases "?a = [] \<or> ?b = [] \<or> mset ?a \<subseteq># mset ?b \<or> mset ?b \<subseteq># mset ?a")
    case True
    have "size (mset ?a \<inter># mset ?b) = length ?a" if "mset ?a \<subseteq># mset ?b"
      using that by (simp add: subset_mset.inf_absorb1)
    moreover have "size (mset ?a \<inter># mset ?b) = length ?b" if "mset ?b \<subseteq># mset ?a"
      using that by (simp add: subset_mset.inf_absorb2)
    ultimately show ?thesis using True
      by (auto simp: compareNames_def close_names_def Let_def leftover_Nil_iff leftover_shared)
  next
    case False
    then have apart: "?a \<noteq> []" "?b \<noteq> []" "leftover ?a ?b \<noteq> []" "leftover ?b ?a \<noteq> []"
      by (simp_all add: leftover_Nil_iff)
    have "compareNames lib l r \<noteq> NAME_MISMATCH \<longleftrightarrow>
        (\<exists>x y. leftover ?a ?b = [x] \<and> leftover ?b ?a = [y] \<and> 3 \<le> length x \<and> 3 \<le> length y \<and> one_edit x y)"
      using apart by (auto simp: compareNames_def Let_def edit_scan_iff FUZZY_MIN_LENGTH_def split: list.splits if_splits)
    also have "\<dots> \<longleftrightarrow> (\<exists>x y. x \<noteq> y \<and> mset ?a - mset ?b = {#x#} \<and> mset ?b - mset ?a = {#y#} \<and>
        3 \<le> length x \<and> 3 \<le> length y \<and> one_edit x y)"
    proof -
      have "\<not> (mset ?a - mset ?b = {#x#} \<and> mset ?b - mset ?a = {#x#})" for x
      proof
        assume both: "mset ?a - mset ?b = {#x#} \<and> mset ?b - mset ?a = {#x#}"
        then have "count (mset ?a - mset ?b) x = 1" "count (mset ?b - mset ?a) x = 1" by simp_all
        then show False by simp
      qed
      then show ?thesis unfolding single_leftover by metis
    qed
    also have "\<dots> \<longleftrightarrow> (\<exists>C x y. mset ?a = add_mset x C \<and> mset ?b = add_mset y C \<and> 3 \<le> length x \<and> 3 \<le> length y \<and> one_edit x y)"
    proof -
      have "x \<noteq> y" if "mset ?a = add_mset x C" "mset ?b = add_mset y C" for x y C
        using that False by auto
      then have token: "x \<noteq> y \<and> mset ?a - mset ?b = {#x#} \<and> mset ?b - mset ?a = {#y#} \<longleftrightarrow>
          (\<exists>C. mset ?a = add_mset x C \<and> mset ?b = add_mset y C)" for x y
        using one_token_apart [of x y "mset ?a" "mset ?b"] by blast
      have "(\<exists>x y. x \<noteq> y \<and> mset ?a - mset ?b = {#x#} \<and> mset ?b - mset ?a = {#y#} \<and> R x y) \<longleftrightarrow>
          (\<exists>x y. (x \<noteq> y \<and> mset ?a - mset ?b = {#x#} \<and> mset ?b - mset ?a = {#y#}) \<and> R x y)" for R
        by blast
      also have "\<dots> R \<longleftrightarrow> (\<exists>C x y. mset ?a = add_mset x C \<and> mset ?b = add_mset y C \<and> R x y)" for R
        unfolding token by blast
      finally show ?thesis .
    qed
    also have "\<dots> \<longleftrightarrow> close_names (mset ?a) (mset ?b)" using False by (simp add: close_names_def)
    finally show ?thesis by blast
  qed
qed

text \<open>Two stated values contradict when both can be read and read differently.\<close>

definition contradict :: "string option \<Rightarrow> string option \<Rightarrow> (string \<Rightarrow> 'a option) \<Rightarrow> bool" where
  "contradict i c parse \<longleftrightarrow>
     present i \<and> present c \<and> (\<exists>v w. parse (the i) = Some v \<and> parse (the c) = Some w \<and> v \<noteq> w)"

lemma compareField_mismatch: "compareField i c parse = FIELD_MISMATCH \<longleftrightarrow> contradict i c parse"
  by (auto simp: compareField_def contradict_def present_def split: option.splits)

lemma compareField_cases:
  "compareField i c p = FIELD_MATCH \<longleftrightarrow> present i \<and> present c \<and> (\<exists>v. p (the i) = Some v \<and> p (the c) = Some v)"
  "compareField i c p = NOT_COMPARED \<longleftrightarrow> \<not> (present i \<and> present c)"
  "compareField i c p \<noteq> FIELD_PARTIAL"
  by (auto simp: compareField_def present_def split: option.splits)

text \<open>The claims that name the applicant, as the rule is meant: no order, spelling or mask matters.\<close>

definition same_person :: "name_library \<Rightarrow> identity_facts \<Rightarrow> credential_claim \<Rightarrow> bool" where
  "same_person lib i c \<longleftrightarrow>
     mset (nameTokens lib (if_fullName i)) = mset (nameTokens lib (cc_holderName c)) \<and> nameTokens lib (if_fullName i) \<noteq> [] \<and>
     (present (Some (if_dateOfBirth i)) \<and> present (cc_dateOfBirth c) \<longrightarrow>
       (\<exists>v. parseDateOfBirth (if_dateOfBirth i) = Some v \<and> parseDateOfBirth (the (cc_dateOfBirth c)) = Some v)) \<and>
     (present (if_sex i) \<and> present (cc_sex c) \<longrightarrow>
       (\<exists>v. normaliseSex (the (if_sex i)) = Some v \<and> normaliseSex (the (cc_sex c)) = Some v)) \<and>
     (present (if_nationalIdHint i) \<and> present (cc_nationalIdHint c) \<longrightarrow>
       (\<exists>v. parseNationalIdHint (the (if_nationalIdHint i)) = Some v \<and> parseNationalIdHint (the (cc_nationalIdHint c)) = Some v))"

fun stated :: "claim_field \<Rightarrow> identity_facts \<Rightarrow> credential_claim \<Rightarrow> bool" where
  "stated DATE_OF_BIRTH i c \<longleftrightarrow> present (Some (if_dateOfBirth i)) \<and> present (cc_dateOfBirth c)"
| "stated SEX i c \<longleftrightarrow> present (if_sex i) \<and> present (cc_sex c)"
| "stated NATIONAL_ID_HINT i c \<longleftrightarrow> present (if_nationalIdHint i) \<and> present (cc_nationalIdHint c)"

lemma bound_iff:
  "br_outcome (bindCredential lib i c req) = BOUND \<longleftrightarrow> same_person lib i c \<and> filter (\<lambda>f. \<not> stated f i c) req = []"
proof -
  let ?n = "compareNames lib (if_fullName i) (cc_holderName c)"
  let ?d = "compareField (Some (if_dateOfBirth i)) (cc_dateOfBirth c) parseDateOfBirth"
  let ?s = "compareField (if_sex i) (cc_sex c) normaliseSex"
  let ?h = "compareField (if_nationalIdHint i) (cc_nationalIdHint c) parseNationalIdHint"
  let ?fields = "br_fields (bindCredential lib i c req)"
  have name: "NAME_FIELD ?n = FIELD_MISMATCH \<longleftrightarrow> ?n = NAME_MISMATCH" "NAME_FIELD ?n = FIELD_PARTIAL \<longleftrightarrow> ?n = NAME_PARTIAL"
    "NAME_FIELD ?n \<noteq> UNREADABLE" by (cases ?n; simp)+
  have missing: "field_of f ?fields = NOT_COMPARED \<longleftrightarrow> \<not> stated f i c" for f
    by (cases f) (simp_all add: bindCredential_def Let_def compareField_cases)
  have fine: "x \<notin> {FIELD_MISMATCH, FIELD_PARTIAL, UNREADABLE} \<longleftrightarrow> x = FIELD_MATCH \<or> x = NOT_COMPARED" for x
    by (cases x) simp_all
  have "br_outcome (bindCredential lib i c req) = BOUND \<longleftrightarrow>
      ?n = NAME_EXACT \<and> (\<forall>x \<in> {?d, ?s, ?h}. x \<notin> {FIELD_MISMATCH, FIELD_PARTIAL, UNREADABLE}) \<and>
      \<not> list_ex (\<lambda>f. field_of f ?fields = NOT_COMPARED) req"
    by (cases ?n) (auto simp: bindCredential_def Let_def)
  also have "\<dots> \<longleftrightarrow> same_person lib i c \<and> filter (\<lambda>f. \<not> stated f i c) req = []"
    unfolding missing fine
    by (auto simp: same_person_def compareNames_exact compareField_cases list_ex_iff filter_empty_conv)
  finally show ?thesis .
qed

lemma not_bound_iff:
  "br_outcome (bindCredential lib i c req) = NOT_BOUND \<longleftrightarrow>
     compareNames lib (if_fullName i) (cc_holderName c) = NAME_MISMATCH \<or>
     compareField (Some (if_dateOfBirth i)) (cc_dateOfBirth c) parseDateOfBirth = FIELD_MISMATCH \<or>
     compareField (if_sex i) (cc_sex c) normaliseSex = FIELD_MISMATCH \<or>
     compareField (if_nationalIdHint i) (cc_nationalIdHint c) parseNationalIdHint = FIELD_MISMATCH"
proof -
  have "NAME_FIELD n = FIELD_MISMATCH \<longleftrightarrow> n = NAME_MISMATCH" for n by (cases n) simp_all
  then show ?thesis by (simp add: bindCredential_def Let_def eq_commute [of FIELD_MISMATCH])
qed

text \<open>
  C34: A credential is BOUND exactly when its holder's name has the very tokens of the
  applicant's, in any order and spelling of case and marks, every fact both sides state reads as
  the same value, and every required fact is stated by both. It is NOT_BOUND exactly when a fact
  both sides state reads as two different values, or the names are not close: one has no token,
  or neither side's tokens are all among the other's and the two do not differ in just one token
  each, both of at least three letters and one edit apart.
\<close>

theorem bound_means_same_person:
  "(br_outcome (bindCredential lib i c req) = BOUND \<longleftrightarrow>
     same_person lib i c \<and> filter (\<lambda>f. \<not> stated f i c) req = []) \<and>
   (br_outcome (bindCredential lib i c req) = NOT_BOUND \<longleftrightarrow>
     \<not> close_names (mset (nameTokens lib (if_fullName i))) (mset (nameTokens lib (cc_holderName c))) \<or>
     contradict (Some (if_dateOfBirth i)) (cc_dateOfBirth c) parseDateOfBirth \<or>
     contradict (if_sex i) (cc_sex c) normaliseSex \<or>
     contradict (if_nationalIdHint i) (cc_nationalIdHint c) parseNationalIdHint)"
  by (simp only: bound_iff not_bound_iff compareNames_mismatch compareField_mismatch)

subsection \<open>Examples\<close>

abbreviation plain_names :: name_library where
  "plain_names \<equiv> \<lparr>nfkd_upper = js_upper, is_letter = is_upper\<rparr>"

definition applicant_facts :: "string \<Rightarrow> identity_facts" where
  "applicant_facts name =
     \<lparr>if_fullName = name, if_dateOfBirth = ''2001-03-09'', if_sex = Some ''MALE'', if_nationalIdHint = Some ''12001234''\<rparr>"

definition holder_claim :: "string \<Rightarrow> credential_claim" where
  "holder_claim name =
     \<lparr>cc_holderName = name, cc_dateOfBirth = Some ''9/03/2001'', cc_sex = Some ''m'',
      cc_nationalIdHint = Some ''1200********1234''\<rparr>"

text \<open>Order and case do not matter; two short tokens one letter apart are two names.\<close>

theorem bound_means_same_person_witness:
  "same_person plain_names (applicant_facts ''NSANZIMANA Jackson'') (holder_claim ''jackson nsanzimana'') \<and>
   br_outcome (bindCredential plain_names (applicant_facts ''Jo'') (holder_claim ''Ja'') []) = NOT_BOUND"
proof
  have "br_outcome (bindCredential plain_names (applicant_facts ''NSANZIMANA Jackson'') (holder_claim ''jackson nsanzimana'')
      [SEX, NATIONAL_ID_HINT]) = BOUND"
    by code_simp
  then show "same_person plain_names (applicant_facts ''NSANZIMANA Jackson'') (holder_claim ''jackson nsanzimana'')"
    using bound_means_same_person by blast
  have "nameTokens plain_names ''Jo'' = [''JO'']" "nameTokens plain_names ''Ja'' = [''JA'']" by code_simp+
  then have "\<not> close_names (mset (nameTokens plain_names ''Jo'')) (mset (nameTokens plain_names ''Ja''))"
    by (auto simp: close_names_def add_mset_eq_single)
  then show "br_outcome (bindCredential plain_names (applicant_facts ''Jo'') (holder_claim ''Ja'') []) = NOT_BOUND"
    using bound_means_same_person [of plain_names "applicant_facts ''Jo''" "holder_claim ''Ja''" "[]"]
    by (simp add: applicant_facts_def holder_claim_def)
qed

end
