(* ===== verification/Announcements.thy ===== *)
theory Announcements
  imports SharedTypes
begin

text \<open>
  The tables transcribed from the three agencies' announcements
  (\<open>packages/shared-types/src/eligibility.types.ts\<close>, \<open>agency.types.ts\<close>): education levels, age bands,
  conviction thresholds, education requirements, required documents, specialist fields.
\<close>

subsection \<open>Levels and fields\<close>

datatype education_level =
    O_LEVEL_S3 | O_LEVEL_S6_EQUIV | A_LEVEL_A2 | A1_IPRC | BACHELOR_A0 | MASTERS | PHD

definition EDUCATION_LEVELS :: "education_level list" where
  "EDUCATION_LEVELS = [O_LEVEL_S3, O_LEVEL_S6_EQUIV, A_LEVEL_A2, A1_IPRC, BACHELOR_A0, MASTERS, PHD]"

datatype nesa_level = NESA_A2 | NESA_A1 | NESA_O_LEVEL

datatype specialist_field =
    MEDICINE | ENGINEERING | LAW | NURSING | EDUCATION | VETERINARY_MEDICINE | CLINICAL_PSYCHOLOGY

definition RDF_SPECIALIST_FIELDS :: "specialist_field list" where
  "RDF_SPECIALIST_FIELDS = [MEDICINE, ENGINEERING, LAW]"

definition RCS_SPECIALIST_FIELDS :: "specialist_field list" where
  "RCS_SPECIALIST_FIELDS =
    [MEDICINE, ENGINEERING, NURSING, LAW, EDUCATION, VETERINARY_MEDICINE, CLINICAL_PSYCHOLOGY]"

subsection \<open>Age\<close>

record age_criteria =
  minAge :: int
  maxAge :: int

fun AGE_CRITERIA :: "application_category \<Rightarrow> age_criteria" where
  "AGE_CRITERIA GENERAL_ENLISTMENT = \<lparr>minAge = 18, maxAge = 25\<rparr>"
| "AGE_CRITERIA RESERVE_FORCE_ALEVEL = \<lparr>minAge = 18, maxAge = 25\<rparr>"
| "AGE_CRITERIA RESERVE_FORCE_UNIVERSITY = \<lparr>minAge = 18, maxAge = 26\<rparr>"
| "AGE_CRITERIA RESERVE_FORCE_SPECIALIST = \<lparr>minAge = 18, maxAge = 27\<rparr>"
| "AGE_CRITERIA CADET_OFFICER = \<lparr>minAge = 18, maxAge = 25\<rparr>"
| "AGE_CRITERIA BASIC_POLICE_COURSE = \<lparr>minAge = 18, maxAge = 25\<rparr>"
| "AGE_CRITERIA GENERAL_ENLISTEE = \<lparr>minAge = 18, maxAge = 25\<rparr>"
| "AGE_CRITERIA OFFICER_ONE_YEAR = \<lparr>minAge = 18, maxAge = 25\<rparr>"
| "AGE_CRITERIA OFFICER_ONE_YEAR_SPECIALIST = \<lparr>minAge = 18, maxAge = 27\<rparr>"
| "AGE_CRITERIA OFFICER_FOUR_YEAR_UR = \<lparr>minAge = 18, maxAge = 21\<rparr>"

subsection \<open>Convictions\<close>

datatype conviction_threshold = ANY_CONVICTION | IMPRISONMENT_GT_6MO | IMPRISONMENT_GTE_6MO

fun CRIMINAL_THRESHOLD_BY_CATEGORY :: "application_category \<Rightarrow> conviction_threshold" where
  "CRIMINAL_THRESHOLD_BY_CATEGORY GENERAL_ENLISTMENT = ANY_CONVICTION"
| "CRIMINAL_THRESHOLD_BY_CATEGORY RESERVE_FORCE_ALEVEL = ANY_CONVICTION"
| "CRIMINAL_THRESHOLD_BY_CATEGORY RESERVE_FORCE_UNIVERSITY = ANY_CONVICTION"
| "CRIMINAL_THRESHOLD_BY_CATEGORY RESERVE_FORCE_SPECIALIST = ANY_CONVICTION"
| "CRIMINAL_THRESHOLD_BY_CATEGORY CADET_OFFICER = IMPRISONMENT_GT_6MO"
| "CRIMINAL_THRESHOLD_BY_CATEGORY BASIC_POLICE_COURSE = IMPRISONMENT_GTE_6MO"
| "CRIMINAL_THRESHOLD_BY_CATEGORY GENERAL_ENLISTEE = ANY_CONVICTION"
| "CRIMINAL_THRESHOLD_BY_CATEGORY OFFICER_ONE_YEAR = ANY_CONVICTION"
| "CRIMINAL_THRESHOLD_BY_CATEGORY OFFICER_ONE_YEAR_SPECIALIST = ANY_CONVICTION"
| "CRIMINAL_THRESHOLD_BY_CATEGORY OFFICER_FOUR_YEAR_UR = ANY_CONVICTION"

subsection \<open>Education\<close>

record education_requirement =
  minLevel :: education_level
  acceptedLevels :: "education_level list"
  nesaVerificationRequired :: bool
  hecVerificationRequired :: bool
  minScienceGradePercent :: "real option"

definition above_a2 :: "education_level list" where
  "above_a2 = [A_LEVEL_A2, A1_IPRC, BACHELOR_A0, MASTERS, PHD]"

definition above_a1 :: "education_level list" where
  "above_a1 = [A1_IPRC, BACHELOR_A0, MASTERS, PHD]"

definition degrees :: "education_level list" where
  "degrees = [BACHELOR_A0, MASTERS, PHD]"

fun EDUCATION_REQUIREMENTS :: "application_category \<Rightarrow> education_requirement" where
  "EDUCATION_REQUIREMENTS GENERAL_ENLISTMENT =
     \<lparr>minLevel = O_LEVEL_S3, acceptedLevels = EDUCATION_LEVELS, nesaVerificationRequired = True,
      hecVerificationRequired = False, minScienceGradePercent = None\<rparr>"
| "EDUCATION_REQUIREMENTS RESERVE_FORCE_ALEVEL =
     \<lparr>minLevel = A_LEVEL_A2, acceptedLevels = above_a2, nesaVerificationRequired = True,
      hecVerificationRequired = False, minScienceGradePercent = None\<rparr>"
| "EDUCATION_REQUIREMENTS RESERVE_FORCE_UNIVERSITY =
     \<lparr>minLevel = A1_IPRC, acceptedLevels = above_a1, nesaVerificationRequired = False,
      hecVerificationRequired = True, minScienceGradePercent = None\<rparr>"
| "EDUCATION_REQUIREMENTS RESERVE_FORCE_SPECIALIST =
     \<lparr>minLevel = BACHELOR_A0, acceptedLevels = degrees, nesaVerificationRequired = False,
      hecVerificationRequired = True, minScienceGradePercent = None\<rparr>"
| "EDUCATION_REQUIREMENTS CADET_OFFICER =
     \<lparr>minLevel = A1_IPRC, acceptedLevels = above_a1, nesaVerificationRequired = False,
      hecVerificationRequired = True, minScienceGradePercent = None\<rparr>"
| "EDUCATION_REQUIREMENTS BASIC_POLICE_COURSE =
     \<lparr>minLevel = A_LEVEL_A2, acceptedLevels = above_a2, nesaVerificationRequired = True,
      hecVerificationRequired = False, minScienceGradePercent = None\<rparr>"
| "EDUCATION_REQUIREMENTS GENERAL_ENLISTEE =
     \<lparr>minLevel = A_LEVEL_A2, acceptedLevels = above_a2, nesaVerificationRequired = True,
      hecVerificationRequired = False, minScienceGradePercent = None\<rparr>"
| "EDUCATION_REQUIREMENTS OFFICER_ONE_YEAR =
     \<lparr>minLevel = A1_IPRC, acceptedLevels = above_a1, nesaVerificationRequired = False,
      hecVerificationRequired = True, minScienceGradePercent = None\<rparr>"
| "EDUCATION_REQUIREMENTS OFFICER_ONE_YEAR_SPECIALIST =
     \<lparr>minLevel = BACHELOR_A0, acceptedLevels = degrees, nesaVerificationRequired = False,
      hecVerificationRequired = True, minScienceGradePercent = None\<rparr>"
| "EDUCATION_REQUIREMENTS OFFICER_FOUR_YEAR_UR =
     \<lparr>minLevel = A_LEVEL_A2, acceptedLevels = [A_LEVEL_A2], nesaVerificationRequired = True,
      hecVerificationRequired = False, minScienceGradePercent = Some 70\<rparr>"

subsection \<open>Documents\<close>

datatype document_type =
    NATIONAL_ID | APPLICATION_FORM_WITH_PHOTO | ALEVEL_CERTIFICATE | OLEVEL_CERTIFICATE
  | DEGREE_DIPLOMA_COPY | DEGREE_DIPLOMA_NOTARIZED | GOOD_CONDUCT_CERTIFICATE
  | NON_CONVICTION_CERTIFICATE | CELIBACY_CERTIFICATE | MEDICAL_CERTIFICATE_GOVT | BIRTH_CERTIFICATE

fun REQUIRED_DOCUMENTS :: "application_category \<Rightarrow> document_type list" where
  "REQUIRED_DOCUMENTS GENERAL_ENLISTMENT =
     [NATIONAL_ID, OLEVEL_CERTIFICATE, GOOD_CONDUCT_CERTIFICATE, NON_CONVICTION_CERTIFICATE]"
| "REQUIRED_DOCUMENTS RESERVE_FORCE_ALEVEL =
     [NATIONAL_ID, ALEVEL_CERTIFICATE, GOOD_CONDUCT_CERTIFICATE, NON_CONVICTION_CERTIFICATE]"
| "REQUIRED_DOCUMENTS RESERVE_FORCE_UNIVERSITY =
     [NATIONAL_ID, DEGREE_DIPLOMA_COPY, GOOD_CONDUCT_CERTIFICATE, NON_CONVICTION_CERTIFICATE]"
| "REQUIRED_DOCUMENTS RESERVE_FORCE_SPECIALIST =
     [NATIONAL_ID, DEGREE_DIPLOMA_COPY, GOOD_CONDUCT_CERTIFICATE, NON_CONVICTION_CERTIFICATE]"
| "REQUIRED_DOCUMENTS CADET_OFFICER =
     [APPLICATION_FORM_WITH_PHOTO, NATIONAL_ID, DEGREE_DIPLOMA_COPY, GOOD_CONDUCT_CERTIFICATE]"
| "REQUIRED_DOCUMENTS BASIC_POLICE_COURSE =
     [APPLICATION_FORM_WITH_PHOTO, NATIONAL_ID, ALEVEL_CERTIFICATE, GOOD_CONDUCT_CERTIFICATE]"
| "REQUIRED_DOCUMENTS GENERAL_ENLISTEE =
     [NATIONAL_ID, ALEVEL_CERTIFICATE, GOOD_CONDUCT_CERTIFICATE, NON_CONVICTION_CERTIFICATE,
      CELIBACY_CERTIFICATE, MEDICAL_CERTIFICATE_GOVT]"
| "REQUIRED_DOCUMENTS OFFICER_ONE_YEAR =
     [BIRTH_CERTIFICATE, NATIONAL_ID, DEGREE_DIPLOMA_NOTARIZED, GOOD_CONDUCT_CERTIFICATE,
      NON_CONVICTION_CERTIFICATE, CELIBACY_CERTIFICATE, MEDICAL_CERTIFICATE_GOVT]"
| "REQUIRED_DOCUMENTS OFFICER_ONE_YEAR_SPECIALIST =
     [BIRTH_CERTIFICATE, NATIONAL_ID, DEGREE_DIPLOMA_NOTARIZED, GOOD_CONDUCT_CERTIFICATE,
      NON_CONVICTION_CERTIFICATE, CELIBACY_CERTIFICATE, MEDICAL_CERTIFICATE_GOVT]"
| "REQUIRED_DOCUMENTS OFFICER_FOUR_YEAR_UR =
     [BIRTH_CERTIFICATE, NATIONAL_ID, ALEVEL_CERTIFICATE, GOOD_CONDUCT_CERTIFICATE,
      NON_CONVICTION_CERTIFICATE, CELIBACY_CERTIFICATE, MEDICAL_CERTIFICATE_GOVT]"

fun AGENCY_DOCUMENT_TYPES :: "agency \<Rightarrow> document_type list" where
  "AGENCY_DOCUMENT_TYPES RDF =
     [NATIONAL_ID, OLEVEL_CERTIFICATE, ALEVEL_CERTIFICATE, DEGREE_DIPLOMA_COPY,
      GOOD_CONDUCT_CERTIFICATE, NON_CONVICTION_CERTIFICATE]"
| "AGENCY_DOCUMENT_TYPES RNP =
     [NATIONAL_ID, APPLICATION_FORM_WITH_PHOTO, ALEVEL_CERTIFICATE, DEGREE_DIPLOMA_COPY, GOOD_CONDUCT_CERTIFICATE]"
| "AGENCY_DOCUMENT_TYPES RCS =
     [NATIONAL_ID, APPLICATION_FORM_WITH_PHOTO, BIRTH_CERTIFICATE, ALEVEL_CERTIFICATE,
      DEGREE_DIPLOMA_NOTARIZED, GOOD_CONDUCT_CERTIFICATE, NON_CONVICTION_CERTIFICATE,
      CELIBACY_CERTIFICATE, MEDICAL_CERTIFICATE_GOVT]"

lemmas announcement_tables [table_simps] =
  EDUCATION_LEVELS_def above_a2_def above_a1_def degrees_def RDF_SPECIALIST_FIELDS_def RCS_SPECIALIST_FIELDS_def

subsection \<open>The tables are coherent\<close>

lemma one_registry_per_category:
  "hecVerificationRequired (EDUCATION_REQUIREMENTS c) = (\<not> nesaVerificationRequired (EDUCATION_REQUIREMENTS c))"
  by (cases c) simp_all

lemma required_documents_storable:
  "agencyForCategory c = Some a \<Longrightarrow> set (REQUIRED_DOCUMENTS c) \<subseteq> set (AGENCY_DOCUMENT_TYPES a)"
  by (cases c) (auto simp: table_simps)

lemma minimum_level_accepted: "minLevel (EDUCATION_REQUIREMENTS c) \<in> set (acceptedLevels (EDUCATION_REQUIREMENTS c))"
  by (cases c) (simp_all add: table_simps)

end
