(* ===== verification/CampaignPolicy.thy ===== *)
theory CampaignPolicy
  imports Announcements "HOL-Library.Monad_Syntax"
begin

text \<open>
  Campaign policy v2 (\<open>packages/shared-campaign-policy/src/index.ts\<close>): reading an authored block into its
  canonical form, the consistency with the v1 envelope, and the rules. Normalisation throws one error,
  \<open>INVALID_POLICY_V2\<close>, with a message that says where; \<open>None\<close> is that throw.
\<close>

subsection \<open>Vocabularies and blocks\<close>

definition QUALIFICATION_LEVELS :: "education_level list" where
  "QUALIFICATION_LEVELS = [O_LEVEL_S3, O_LEVEL_S6_EQUIV, A_LEVEL_A2, A1_IPRC, BACHELOR_A0, MASTERS, PHD]"

definition SPECIALIST_FIELDS :: "specialist_field list" where
  "SPECIALIST_FIELDS = [MEDICINE, ENGINEERING, LAW, NURSING, EDUCATION, VETERINARY_MEDICINE, CLINICAL_PSYCHOLOGY]"

fun level_text :: "education_level \<Rightarrow> string" where
  "level_text O_LEVEL_S3 = ''O_LEVEL_S3''"
| "level_text O_LEVEL_S6_EQUIV = ''O_LEVEL_S6_EQUIV''"
| "level_text A_LEVEL_A2 = ''A_LEVEL_A2''"
| "level_text A1_IPRC = ''A1_IPRC''"
| "level_text BACHELOR_A0 = ''BACHELOR_A0''"
| "level_text MASTERS = ''MASTERS''"
| "level_text PHD = ''PHD''"

fun field_text :: "specialist_field \<Rightarrow> string" where
  "field_text MEDICINE = ''MEDICINE''"
| "field_text ENGINEERING = ''ENGINEERING''"
| "field_text LAW = ''LAW''"
| "field_text NURSING = ''NURSING''"
| "field_text EDUCATION = ''EDUCATION''"
| "field_text VETERINARY_MEDICINE = ''VETERINARY_MEDICINE''"
| "field_text CLINICAL_PSYCHOLOGY = ''CLINICAL_PSYCHOLOGY''"

datatype qualification_code = LEVEL education_level | FIELD specialist_field

fun code_name :: "qualification_code \<Rightarrow> string" where
  "code_name (LEVEL l) = level_text l"
| "code_name (FIELD f) = ''FIELD:'' @ field_text f"

datatype conviction_rule = NEVER_CONVICTED | NO_SENTENCE_6M_OR_MORE | NO_SENTENCE_OVER_6M

fun rule_text :: "conviction_rule \<Rightarrow> string" where
  "rule_text NEVER_CONVICTED = ''NEVER_CONVICTED''"
| "rule_text NO_SENTENCE_6M_OR_MORE = ''NO_SENTENCE_6M_OR_MORE''"
| "rule_text NO_SENTENCE_OVER_6M = ''NO_SENTENCE_OVER_6M''"

definition CONVICTION_RULES :: "conviction_rule list" where
  "CONVICTION_RULES = [NEVER_CONVICTED, NO_SENTENCE_6M_OR_MORE, NO_SENTENCE_OVER_6M]"

datatype satisfaction_mode = REGISTRY_VERIFIED | UPLOAD | PRESENT_AT_VENUE

fun mode_text :: "satisfaction_mode \<Rightarrow> string" where
  "mode_text REGISTRY_VERIFIED = ''REGISTRY_VERIFIED''"
| "mode_text UPLOAD = ''UPLOAD''"
| "mode_text PRESENT_AT_VENUE = ''PRESENT_AT_VENUE''"

definition SATISFACTION_MODES :: "satisfaction_mode list" where
  "SATISFACTION_MODES = [REGISTRY_VERIFIED, UPLOAD, PRESENT_AT_VENUE]"

record age_band =
  ab_qualifications :: "qualification_code list"
  ab_minimumAge :: int
  ab_maximumAge :: int

record document_rule =
  du_type :: string
  du_satisfaction :: satisfaction_mode
  du_notarised :: bool

record clearance_values =
  cl_allowedCertificateCodes :: "string list"
  cl_noRecordCertificateCodes :: "string list"
  cl_validityDays :: int

record policy_v2 =
  ageBands :: "age_band list"
  educationAlternatives :: "education_level list"
  minimumSciencePercent :: "int option"
  conviction_rule_of :: conviction_rule
  notUnderProsecution :: bool
  documents_of :: "document_rule list"
  clearance_of :: "clearance_values option"

subsection \<open>Reading authored values\<close>

text \<open>\<open>Object.keys\<close> must all be allowed, and every allowed key an own key.\<close>

definition object_with :: "json \<Rightarrow> string list \<Rightarrow> (string \<times> json) list option" where
  "object_with v allowed =
     (case v of
        JObj kvs \<Rightarrow>
          if list_all (\<lambda>(k, _). k \<in> set allowed) kvs \<and> list_all (\<lambda>k. map_of kvs k \<noteq> None) allowed then Some kvs else None
      | _ \<Rightarrow> None)"

definition whole_number :: "real \<Rightarrow> bool" where
  "whole_number r \<longleftrightarrow> of_int \<lfloor>r\<rfloor> = r \<and> \<bar>\<lfloor>r\<rfloor>\<bar> \<le> 2 ^ 53 - 1"

definition bounded_int :: "json option \<Rightarrow> int \<Rightarrow> int \<Rightarrow> int option" where
  "bounded_int v lo hi =
     (case v of
        Some (JNum r) \<Rightarrow> if \<not> whole_number r \<or> \<lfloor>r\<rfloor> < lo \<or> \<lfloor>r\<rfloor> > hi then None else Some \<lfloor>r\<rfloor>
      | _ \<Rightarrow> None)"

definition oneOf :: "json option \<Rightarrow> 'a list \<Rightarrow> ('a \<Rightarrow> string) \<Rightarrow> 'a option" where
  "oneOf v allowed text =
     (case v of Some (JStr s) \<Rightarrow> find (\<lambda>x. text x = s) allowed | _ \<Rightarrow> None)"

definition array :: "json option \<Rightarrow> nat \<Rightarrow> nat \<Rightarrow> json list option" where
  "array v lo hi =
     (case v of Some (JArr xs) \<Rightarrow> if length xs < lo \<or> length xs > hi then None else Some xs | _ \<Rightarrow> None)"

definition boolean_of :: "json option \<Rightarrow> bool option" where
  "boolean_of v = (case v of Some (JBool b) \<Rightarrow> Some b | _ \<Rightarrow> None)"

definition token_char :: "char \<Rightarrow> bool" where
  "token_char c \<longleftrightarrow> is_upper c \<or> is_digit c \<or> c \<in> set ''_:-''"

definition CODE_TOKEN :: "string \<Rightarrow> bool" where
  "CODE_TOKEN s \<longleftrightarrow> (case s of [] \<Rightarrow> False | c # cs \<Rightarrow> (is_upper c \<or> is_digit c) \<and> length cs \<le> 63 \<and> list_all token_char cs)"

definition REGISTRY_CODE :: "string \<Rightarrow> bool" where
  "REGISTRY_CODE s \<longleftrightarrow>
     (case s of [] \<Rightarrow> False
      | c # cs \<Rightarrow> (is_upper c \<or> is_lower c \<or> is_digit c) \<and> length cs \<le> 63 \<and>
          list_all (\<lambda>x. token_char x \<or> is_lower x \<or> x = CHR ''.'') cs)"

definition qualification :: "json \<Rightarrow> qualification_code option" where
  "qualification v =
     (case v of
        JStr s \<Rightarrow>
          if take 6 s = ''FIELD:'' then map_option FIELD (oneOf (Some (JStr (drop 6 s))) SPECIALIST_FIELDS field_text)
          else map_option LEVEL (oneOf (Some v) QUALIFICATION_LEVELS level_text)
      | _ \<Rightarrow> None)"

text \<open>\<open>codeSet\<close>: code tokens without duplicates, sorted.\<close>

definition codeSet :: "json option \<Rightarrow> nat \<Rightarrow> string list option" where
  "codeSet v lo = do {
     xs \<leftarrow> array v lo 20;
     out \<leftarrow> those (map (\<lambda>e. case e of JStr s \<Rightarrow> if REGISTRY_CODE s then Some s else None | _ \<Rightarrow> None) xs);
     (if distinct out then Some (sort out) else None)
   }"

subsection \<open>Normalisation\<close>

definition read_band :: "json \<Rightarrow> age_band option" where
  "read_band raw = do {
     band \<leftarrow> object_with raw [''qualifications'', ''minimumAge'', ''maximumAge''];
     qs \<leftarrow> array (map_of band ''qualifications'') 1 12;
     codes \<leftarrow> those (map qualification qs);
     lo \<leftarrow> bounded_int (map_of band ''minimumAge'') 0 130;
     hi \<leftarrow> bounded_int (map_of band ''maximumAge'') 0 130;
     (if lo > hi then None
      else Some \<lparr>ab_qualifications = sort_key code_name (remdups codes), ab_minimumAge = lo, ab_maximumAge = hi\<rparr>)
   }"

text \<open>\<open>xs.join()\<close>.\<close>

fun joined_codes :: "qualification_code list \<Rightarrow> string" where
  "joined_codes [] = ''''"
| "joined_codes [q] = code_name q"
| "joined_codes (q # qs) = code_name q @ '','' @ joined_codes qs"

definition band_order :: "age_band \<Rightarrow> int \<times> int \<times> string" where
  "band_order b = (ab_maximumAge b, ab_minimumAge b, joined_codes (ab_qualifications b))"

definition read_bands :: "json option \<Rightarrow> age_band list option" where
  "read_bands v = do {
     raws \<leftarrow> array v 1 8;
     bands \<leftarrow> those (map read_band raws);
     (if distinct (concat (map ab_qualifications bands)) then Some (sort_key band_order bands) else None)
   }"

definition level_rank :: "education_level \<Rightarrow> int" where
  "level_rank l = index_of QUALIFICATION_LEVELS l"

definition read_alternative :: "json \<Rightarrow> education_level option" where
  "read_alternative raw = do {
     alt \<leftarrow> object_with raw [''level''];
     oneOf (map_of alt ''level'') QUALIFICATION_LEVELS level_text
   }"

definition read_alternatives :: "json option \<Rightarrow> education_level list option" where
  "read_alternatives v = do {
     raws \<leftarrow> array v 1 7;
     levels \<leftarrow> those (map read_alternative raws);
     (if distinct levels then Some (sort_key level_rank levels) else None)
   }"

definition read_science :: "json option \<Rightarrow> int option option" where
  "read_science v = (if v = Some JNull then Some None else map_option Some (bounded_int v 1 100))"

definition read_document :: "json \<Rightarrow> document_rule option" where
  "read_document raw = do {
     doc \<leftarrow> object_with raw [''type'', ''satisfaction'', ''notarised''];
     t \<leftarrow> (case map_of doc ''type'' of Some (JStr s) \<Rightarrow> if CODE_TOKEN s then Some s else None | _ \<Rightarrow> None);
     n \<leftarrow> boolean_of (map_of doc ''notarised'');
     mode \<leftarrow> oneOf (map_of doc ''satisfaction'') SATISFACTION_MODES mode_text;
     Some \<lparr>du_type = t, du_satisfaction = mode, du_notarised = n\<rparr>
   }"

definition read_documents :: "json option \<Rightarrow> document_rule list option" where
  "read_documents v = do {
     raws \<leftarrow> array v 1 20;
     docs \<leftarrow> those (map read_document raws);
     (if distinct (map du_type docs) then Some (sort_key du_type docs) else None)
   }"

definition read_clearance :: "json \<Rightarrow> clearance_values option" where
  "read_clearance v = do {
     c \<leftarrow> object_with v [''allowedCertificateCodes'', ''noRecordCertificateCodes'', ''validityDays''];
     allowed \<leftarrow> codeSet (map_of c ''allowedCertificateCodes'') 1;
     noRecord \<leftarrow> codeSet (map_of c ''noRecordCertificateCodes'') 0;
     days \<leftarrow> bounded_int (map_of c ''validityDays'') 1 3650;
     (if \<not> list_all (\<lambda>code. code \<in> set allowed) noRecord then None
      else Some \<lparr>cl_allowedCertificateCodes = allowed, cl_noRecordCertificateCodes = noRecord, cl_validityDays = days\<rparr>)
   }"

definition POLICY_KEYS :: "string list" where
  "POLICY_KEYS = [''schemaVersion'', ''ageBands'', ''educationAlternatives'', ''minimumSciencePercent'', ''conviction'',
     ''documents'', ''clearance'']"

definition normalizePolicyV2 :: "json \<Rightarrow> policy_v2 option" where
  "normalizePolicyV2 v = do {
     body \<leftarrow> object_with v POLICY_KEYS;
     _ \<leftarrow> (if map_of body ''schemaVersion'' = Some (JNum 2) then Some () else None);
     bands \<leftarrow> read_bands (map_of body ''ageBands'');
     alternatives \<leftarrow> read_alternatives (map_of body ''educationAlternatives'');
     science \<leftarrow> read_science (map_of body ''minimumSciencePercent'');
     conviction \<leftarrow> object_with (the (map_of body ''conviction'')) [''rule'', ''notUnderProsecution''];
     prosecution \<leftarrow> boolean_of (map_of conviction ''notUnderProsecution'');
     docs \<leftarrow> read_documents (map_of body ''documents'');
     clearance \<leftarrow> (if map_of body ''clearance'' = Some JNull then Some None
       else map_option Some (read_clearance (the (map_of body ''clearance''))));
     rule \<leftarrow> oneOf (map_of conviction ''rule'') CONVICTION_RULES rule_text;
     Some \<lparr>ageBands = bands, educationAlternatives = alternatives, minimumSciencePercent = science,
       conviction_rule_of = rule, notUnderProsecution = prosecution, documents_of = docs, clearance_of = clearance\<rparr>
   }"

definition readPolicyV2 :: "json \<Rightarrow> policy_v2 option" where
  "readPolicyV2 v = (case normalizePolicyV2 v of Some p \<Rightarrow> Some p | None \<Rightarrow> None)"


subsection \<open>The rules\<close>

text \<open>\<open>Math.min\<close> and \<open>Math.max\<close> of no number are infinite: \<open>None\<close>, which equals no age.\<close>

definition least :: "int list \<Rightarrow> int option" where
  "least xs = (case xs of [] \<Rightarrow> None | x # ys \<Rightarrow> Some (fold min ys x))"

definition greatest :: "int list \<Rightarrow> int option" where
  "greatest xs = (case xs of [] \<Rightarrow> None | x # ys \<Rightarrow> Some (fold max ys x))"

definition ageEnvelope :: "policy_v2 \<Rightarrow> int option \<times> int option" where
  "ageEnvelope p = (least (map ab_minimumAge (ageBands p)), greatest (map ab_maximumAge (ageBands p)))"

record qualification_facts =
  qf_level :: "education_level option"
  qf_field :: "specialist_field option"

definition qualification_matches :: "qualification_facts \<Rightarrow> qualification_code \<Rightarrow> bool" where
  "qualification_matches facts q =
     (let heldIndex = (case qf_level facts of None \<Rightarrow> -1 | Some l \<Rightarrow> level_rank l) in
      case q of
        FIELD f \<Rightarrow> qf_field facts = Some f
      | LEVEL l \<Rightarrow> heldIndex \<ge> 0 \<and> heldIndex \<ge> level_rank l)"

definition ageBandFor :: "policy_v2 \<Rightarrow> qualification_facts \<Rightarrow> age_band option" where
  "ageBandFor p facts =
     foldl (\<lambda>best band.
         if list_ex (qualification_matches facts) (ab_qualifications band) \<and>
            (case best of None \<Rightarrow> True | Some b \<Rightarrow> ab_maximumAge band > ab_maximumAge b)
         then Some band else best) None (ageBands p)"

text \<open>An age of \<open>None\<close> is NaN, of which every comparison is false.\<close>

definition js_below :: "int option \<Rightarrow> int \<Rightarrow> bool" where
  "js_below age n \<longleftrightarrow> (case age of None \<Rightarrow> False | Some a \<Rightarrow> a < n)"

definition js_above :: "int option \<Rightarrow> int \<Rightarrow> bool" where
  "js_above age n \<longleftrightarrow> (case age of None \<Rightarrow> False | Some a \<Rightarrow> a > n)"

datatype age_verdict_code = WITHIN_BAND | BELOW_MINIMUM | ABOVE_CAP | NO_BAND_FOR_QUALIFICATION

record age_verdict =
  av_eligible :: bool
  av_code :: age_verdict_code
  av_age :: "int option"
  av_cap :: "int option"
  av_minimum :: "int option"

definition evaluateAgeForQualification :: "policy_v2 \<Rightarrow> qualification_facts \<Rightarrow> int option \<Rightarrow> age_verdict" where
  "evaluateAgeForQualification p facts age =
     (case ageBandFor p facts of
        None \<Rightarrow> \<lparr>av_eligible = False, av_code = NO_BAND_FOR_QUALIFICATION, av_age = age, av_cap = None, av_minimum = None\<rparr>
      | Some band \<Rightarrow>
          if js_below age (ab_minimumAge band)
          then \<lparr>av_eligible = False, av_code = BELOW_MINIMUM, av_age = age, av_cap = Some (ab_maximumAge band),
                av_minimum = Some (ab_minimumAge band)\<rparr>
          else if js_above age (ab_maximumAge band)
          then \<lparr>av_eligible = False, av_code = ABOVE_CAP, av_age = age, av_cap = Some (ab_maximumAge band),
                av_minimum = Some (ab_minimumAge band)\<rparr>
          else \<lparr>av_eligible = True, av_code = WITHIN_BAND, av_age = age, av_cap = Some (ab_maximumAge band),
                av_minimum = Some (ab_minimumAge band)\<rparr>)"

definition educationSatisfied :: "policy_v2 \<Rightarrow> education_level \<Rightarrow> bool" where
  "educationSatisfied p level \<longleftrightarrow> list_ex (\<lambda>a. level_rank level \<ge> level_rank a) (educationAlternatives p)"

definition scienceSatisfied :: "policy_v2 \<Rightarrow> real option \<Rightarrow> bool" where
  "scienceSatisfied p sciencePercent =
     (case minimumSciencePercent p of
        None \<Rightarrow> True
      | Some m \<Rightarrow> (case sciencePercent of None \<Rightarrow> False | Some x \<Rightarrow> x \<ge> of_int m))"

record conviction_facts =
  cf_convicted :: bool
  cf_longestSentenceMonths :: "int option"
  cf_underProsecution :: bool

datatype conviction_verdict_code = CONVICTION_CLEAR | CONVICTED | SENTENCE_BARS | SENTENCE_UNKNOWN | UNDER_PROSECUTION

definition sentence_verdict :: "conviction_facts \<Rightarrow> (int \<Rightarrow> bool) \<Rightarrow> bool \<times> conviction_verdict_code" where
  "sentence_verdict facts bars =
     (if cf_convicted facts \<and> cf_longestSentenceMonths facts = None then (False, SENTENCE_UNKNOWN)
      else
        (case cf_longestSentenceMonths facts of
           None \<Rightarrow> (True, CONVICTION_CLEAR)
         | Some m \<Rightarrow> if bars m then (False, SENTENCE_BARS) else (True, CONVICTION_CLEAR)))"

definition convictionVerdict :: "policy_v2 \<Rightarrow> conviction_facts \<Rightarrow> bool \<times> conviction_verdict_code" where
  "convictionVerdict p facts =
     (if notUnderProsecution p \<and> cf_underProsecution facts then (False, UNDER_PROSECUTION)
      else
        (case conviction_rule_of p of
           NEVER_CONVICTED \<Rightarrow> if cf_convicted facts then (False, CONVICTED) else (True, CONVICTION_CLEAR)
         | NO_SENTENCE_6M_OR_MORE \<Rightarrow> sentence_verdict facts (\<lambda>m. m \<ge> 6)
         | NO_SENTENCE_OVER_6M \<Rightarrow> sentence_verdict facts (\<lambda>m. m > 6)))"

definition v1CriminalThreshold :: "conviction_rule \<Rightarrow> conviction_threshold" where
  "v1CriminalThreshold rule =
     (if rule = NEVER_CONVICTED then ANY_CONVICTION
      else if rule = NO_SENTENCE_OVER_6M then IMPRISONMENT_GT_6MO else IMPRISONMENT_GTE_6MO)"

record v1_envelope =
  v1_minimumAge :: int
  v1_maximumAge :: int
  v1_criminalThreshold :: string
  v1_requiredDocumentTypes :: "string list"

fun threshold_text :: "conviction_threshold \<Rightarrow> string" where
  "threshold_text ANY_CONVICTION = ''ANY_CONVICTION''"
| "threshold_text IMPRISONMENT_GT_6MO = ''IMPRISONMENT_GT_6MO''"
| "threshold_text IMPRISONMENT_GTE_6MO = ''IMPRISONMENT_GTE_6MO''"

text \<open>Which of the three messages \<open>checkEnvelope\<close> returns; \<open>None\<close> is its null.\<close>

datatype envelope_fault = AGE_DIFFERS | THRESHOLD_DIFFERS | DOCUMENTS_DIFFER

definition checkEnvelope :: "policy_v2 \<Rightarrow> v1_envelope \<Rightarrow> envelope_fault option" where
  "checkEnvelope p v1 =
     (case ageEnvelope p of
        (lo, hi) \<Rightarrow>
          if lo \<noteq> Some (v1_minimumAge v1) \<or> hi \<noteq> Some (v1_maximumAge v1) then Some AGE_DIFFERS
          else if v1_criminalThreshold v1 \<noteq> threshold_text (v1CriminalThreshold (conviction_rule_of p)) then Some THRESHOLD_DIFFERS
          else
            let v2Types = sort (map du_type (documents_of p)); v1Types = sort (v1_requiredDocumentTypes v1) in
            if length v2Types \<noteq> length v1Types \<or> list_ex (\<lambda>(t, u). t \<noteq> u) (zip v2Types v1Types) then Some DOCUMENTS_DIFFER
            else None)"

definition documentPlan :: "policy_v2 \<Rightarrow> document_rule list \<times> document_rule list \<times> document_rule list" where
  "documentPlan p =
     (filter (\<lambda>d. du_satisfaction d = REGISTRY_VERIFIED) (documents_of p),
      filter (\<lambda>d. du_satisfaction d = UPLOAD) (documents_of p),
      filter (\<lambda>d. du_satisfaction d = PRESENT_AT_VENUE) (documents_of p))"

definition pickerRows :: "policy_v2 \<Rightarrow> (qualification_code list \<times> int \<times> int) list" where
  "pickerRows p = map (\<lambda>b. (ab_qualifications b, ab_minimumAge b, ab_maximumAge b)) (ageBands p)"

subsection \<open>A canonical block prints and reads back\<close>

definition band_json :: "age_band \<Rightarrow> json" where
  "band_json b = JObj [(''qualifications'', JArr (map (JStr \<circ> code_name) (ab_qualifications b))),
     (''minimumAge'', JNum (of_int (ab_minimumAge b))), (''maximumAge'', JNum (of_int (ab_maximumAge b)))]"

definition document_json :: "document_rule \<Rightarrow> json" where
  "document_json d = JObj [(''type'', JStr (du_type d)), (''satisfaction'', JStr (mode_text (du_satisfaction d))),
     (''notarised'', JBool (du_notarised d))]"

definition clearance_json :: "clearance_values \<Rightarrow> json" where
  "clearance_json c = JObj [(''allowedCertificateCodes'', JArr (map JStr (cl_allowedCertificateCodes c))),
     (''noRecordCertificateCodes'', JArr (map JStr (cl_noRecordCertificateCodes c))),
     (''validityDays'', JNum (of_int (cl_validityDays c)))]"

definition policy_json :: "policy_v2 \<Rightarrow> json" where
  "policy_json p = JObj
     [(''schemaVersion'', JNum 2),
      (''ageBands'', JArr (map band_json (ageBands p))),
      (''educationAlternatives'', JArr (map (\<lambda>l. JObj [(''level'', JStr (level_text l))]) (educationAlternatives p))),
      (''minimumSciencePercent'', (case minimumSciencePercent p of None \<Rightarrow> JNull | Some n \<Rightarrow> JNum (of_int n))),
      (''conviction'', JObj [(''rule'', JStr (rule_text (conviction_rule_of p))), (''notUnderProsecution'', JBool (notUnderProsecution p))]),
      (''documents'', JArr (map document_json (documents_of p))),
      (''clearance'', (case clearance_of p of None \<Rightarrow> JNull | Some c \<Rightarrow> clearance_json c))]"

definition canonical_band :: "age_band \<Rightarrow> bool" where
  "canonical_band b \<longleftrightarrow>
     ab_qualifications b \<noteq> [] \<and> length (ab_qualifications b) \<le> 12 \<and> distinct (ab_qualifications b) \<and>
     sorted (map code_name (ab_qualifications b)) \<and>
     0 \<le> ab_minimumAge b \<and> ab_minimumAge b \<le> ab_maximumAge b \<and> ab_maximumAge b \<le> 130"

definition canonical_clearance :: "clearance_values \<Rightarrow> bool" where
  "canonical_clearance c \<longleftrightarrow>
     cl_allowedCertificateCodes c \<noteq> [] \<and> length (cl_allowedCertificateCodes c) \<le> 20 \<and>
     length (cl_noRecordCertificateCodes c) \<le> 20 \<and>
     distinct (cl_allowedCertificateCodes c) \<and> distinct (cl_noRecordCertificateCodes c) \<and>
     sorted (cl_allowedCertificateCodes c) \<and> sorted (cl_noRecordCertificateCodes c) \<and>
     set (cl_noRecordCertificateCodes c) \<subseteq> set (cl_allowedCertificateCodes c) \<and>
     list_all REGISTRY_CODE (cl_allowedCertificateCodes c) \<and>
     1 \<le> cl_validityDays c \<and> cl_validityDays c \<le> 3650"

definition canonical_policy :: "policy_v2 \<Rightarrow> bool" where
  "canonical_policy p \<longleftrightarrow>
     ageBands p \<noteq> [] \<and> length (ageBands p) \<le> 8 \<and> list_all canonical_band (ageBands p) \<and>
     distinct (concat (map ab_qualifications (ageBands p))) \<and> sorted (map band_order (ageBands p)) \<and>
     educationAlternatives p \<noteq> [] \<and> length (educationAlternatives p) \<le> 7 \<and> distinct (educationAlternatives p) \<and>
     sorted (map level_rank (educationAlternatives p)) \<and>
     (case minimumSciencePercent p of None \<Rightarrow> True | Some n \<Rightarrow> 1 \<le> n \<and> n \<le> 100) \<and>
     documents_of p \<noteq> [] \<and> length (documents_of p) \<le> 20 \<and> distinct (map du_type (documents_of p)) \<and>
     sorted (map du_type (documents_of p)) \<and> list_all (CODE_TOKEN \<circ> du_type) (documents_of p) \<and>
     (case clearance_of p of None \<Rightarrow> True | Some c \<Rightarrow> canonical_clearance c)"


lemma those_map_iff: "those (map f xs) = Some ys \<longleftrightarrow> list_all2 (\<lambda>x y. f x = Some y) xs ys"
  by (induction xs arbitrary: ys) (auto split: option.splits simp: list_all2_Cons1)

lemma those_map_id: "list_all (\<lambda>y. f (g y) = Some y) ys \<Longrightarrow> those (map f (map g ys)) = Some ys"
  by (induction ys) auto

lemma list_all2_target:
  "list_all2 (\<lambda>x y. f x = Some y) xs ys \<Longrightarrow> (\<And>x y. f x = Some y \<Longrightarrow> P y) \<Longrightarrow> list_all P ys \<and> length ys = length xs"
  by (induction rule: list_all2_induct) auto

lemma bounded_int_Some: "bounded_int v lo hi = Some n \<Longrightarrow> lo \<le> n \<and> n \<le> hi"
  by (auto simp: bounded_int_def split: option.splits json.splits if_splits)

lemma bounded_int_print: "lo \<le> n \<Longrightarrow> n \<le> hi \<Longrightarrow> - (2 ^ 53) < lo \<Longrightarrow> hi < 2 ^ 53 \<Longrightarrow> bounded_int (Some (JNum (of_int n))) lo hi = Some n"
  by (simp add: bounded_int_def whole_number_def)

lemma array_Some: "array v lo hi = Some xs \<Longrightarrow> lo \<le> length xs \<and> length xs \<le> hi"
  by (auto simp: array_def split: option.splits json.splits if_splits)

lemma array_print: "lo \<le> length xs \<Longrightarrow> length xs \<le> hi \<Longrightarrow> array (Some (JArr xs)) lo hi = Some xs"
  by (simp add: array_def)

lemma texts_read_back [simp]:
  "oneOf (Some (JStr (level_text l))) QUALIFICATION_LEVELS level_text = Some l"
  "oneOf (Some (JStr (field_text f))) SPECIALIST_FIELDS field_text = Some f"
  "oneOf (Some (JStr (rule_text r))) CONVICTION_RULES rule_text = Some r"
  "oneOf (Some (JStr (mode_text m))) SATISFACTION_MODES mode_text = Some m"
  subgoal by (cases l) (simp_all add: oneOf_def QUALIFICATION_LEVELS_def)
  subgoal by (cases f) (simp_all add: oneOf_def SPECIALIST_FIELDS_def)
  subgoal by (cases r) (simp_all add: oneOf_def CONVICTION_RULES_def)
  subgoal by (cases m) (simp_all add: oneOf_def SATISFACTION_MODES_def)
  done

lemma qualification_print [simp]: "qualification (JStr (code_name q)) = Some q"
proof (cases q)
  case (LEVEL l)
  moreover have "take 6 (level_text l) \<noteq> ''FIELD:''" by (cases l) simp_all
  ultimately show ?thesis by (simp add: qualification_def)
next
  case (FIELD f)
  then show ?thesis by (simp add: qualification_def)
qed

lemma read_band_canonical: "read_band v = Some b \<Longrightarrow> canonical_band b"
proof -
  assume "read_band v = Some b"
  then obtain kvs qs codes lo hi where qs: "array (map_of kvs ''qualifications'') 1 12 = Some qs"
      "those (map qualification qs) = Some codes" and ages: "bounded_int (map_of kvs ''minimumAge'') 0 130 = Some lo"
      "bounded_int (map_of kvs ''maximumAge'') 0 130 = Some hi" "\<not> lo > hi"
    and b: "b = \<lparr>ab_qualifications = sort_key code_name (remdups codes), ab_minimumAge = lo, ab_maximumAge = hi\<rparr>"
    by (auto simp: read_band_def split: Option.bind_splits if_splits)
  have len: "1 \<le> length codes" "length codes \<le> 12"
    using array_Some [OF qs(1)] list_all2_lengthD [OF iffD1 [OF those_map_iff qs(2)]] by simp_all
  have "codes \<noteq> []" using len by auto
  then have "remdups codes \<noteq> []" by simp
  then have "sort_key code_name (remdups codes) \<noteq> []" by (metis length_sort length_0_conv)
  moreover have "length (sort_key code_name (remdups codes)) \<le> 12"
    using len length_remdups_leq [of codes] by (simp del: length_remdups_leq)
  ultimately show ?thesis using bounded_int_Some [OF ages(1)] bounded_int_Some [OF ages(2)] ages(3)
    by (simp add: canonical_band_def b)
qed

lemma read_band_print: "canonical_band b \<Longrightarrow> read_band (band_json b) = Some b"
proof -
  assume c: "canonical_band b"
  have len: "1 \<le> length (ab_qualifications b)" "length (ab_qualifications b) \<le> 12"
    using c by (simp_all add: canonical_band_def Suc_le_eq)
  have "those (map qualification (map (JStr \<circ> code_name) (ab_qualifications b))) = Some (ab_qualifications b)"
    by (rule those_map_id) (simp add: list_all_iff)
  moreover have "sort_key code_name (remdups (ab_qualifications b)) = ab_qualifications b"
    using c by (simp add: canonical_band_def sort_key_id_if_sorted distinct_remdups_id)
  moreover have "bounded_int (Some (JNum (of_int (ab_minimumAge b)))) 0 130 = Some (ab_minimumAge b)"
      "bounded_int (Some (JNum (of_int (ab_maximumAge b)))) 0 130 = Some (ab_maximumAge b)"
    using c by (simp_all add: canonical_band_def bounded_int_print)
  ultimately show ?thesis using c len
    by (simp add: read_band_def band_json_def object_with_def array_print canonical_band_def)
qed


lemma sort_key_not_Nil: "xs \<noteq> [] \<Longrightarrow> sort_key f xs \<noteq> []"
  by (metis length_sort length_0_conv)

lemma read_bands_canonical:
  assumes "read_bands v = Some bs"
  shows "bs \<noteq> [] \<and> length bs \<le> 8 \<and> list_all canonical_band bs \<and> distinct (concat (map ab_qualifications bs)) \<and>
    sorted (map band_order bs)"
proof -
  from assms obtain raws bands where raws: "array v 1 8 = Some raws" "those (map read_band raws) = Some bands"
      "distinct (concat (map ab_qualifications bands))" and bs: "bs = sort_key band_order bands"
    by (auto simp: read_bands_def split: Option.bind_splits if_splits)
  have "list_all canonical_band bands \<and> length bands = length raws"
    using raws(2) read_band_canonical unfolding those_map_iff by (rule list_all2_target)
  moreover from this have "bands \<noteq> []" using array_Some [OF raws(1)] by auto
  moreover have "mset (concat (map ab_qualifications bs)) = mset (concat (map ab_qualifications bands))"
    unfolding bs mset_concat by (simp add: mset_map [symmetric] del: mset_map) (metis mset_map mset_sort sum_mset_sum_list)
  ultimately show ?thesis using raws(3) array_Some [OF raws(1)]
    by (simp add: bs sort_key_not_Nil list_all_iff) (metis mset_eq_imp_distinct_iff)
qed

lemma read_bands_print:
  assumes "bs \<noteq> []" and "length bs \<le> 8" and "list_all canonical_band bs" and "distinct (concat (map ab_qualifications bs))"
    and "sorted (map band_order bs)"
  shows "read_bands (Some (JArr (map band_json bs))) = Some bs"
proof -
  have "those (map read_band (map band_json bs)) = Some bs"
    by (rule those_map_id) (use assms(3) in \<open>simp add: list_all_iff read_band_print\<close>)
  moreover have "sort_key band_order bs = bs" using assms(5) by (rule sort_key_id_if_sorted)
  ultimately show ?thesis using assms by (simp add: read_bands_def array_print Suc_le_eq)
qed

lemma read_alternatives_canonical:
  "read_alternatives v = Some ls \<Longrightarrow> ls \<noteq> [] \<and> length ls \<le> 7 \<and> distinct ls \<and> sorted (map level_rank ls)"
proof -
  assume "read_alternatives v = Some ls"
  then obtain raws levels where raws: "array v 1 7 = Some raws" "those (map read_alternative raws) = Some levels"
      "distinct levels" and ls: "ls = sort_key level_rank levels"
    by (auto simp: read_alternatives_def split: Option.bind_splits if_splits)
  have "length levels = length raws" using list_all2_lengthD [OF iffD1 [OF those_map_iff raws(2)]] by simp
  moreover from this have "levels \<noteq> []" using array_Some [OF raws(1)] by auto
  ultimately show ?thesis using array_Some [OF raws(1)] raws(3) by (simp add: ls sort_key_not_Nil)
qed

lemma read_alternatives_print:
  assumes "ls \<noteq> []" and "length ls \<le> 7" and "distinct ls" and "sorted (map level_rank ls)"
  shows "read_alternatives (Some (JArr (map (\<lambda>l. JObj [(''level'', JStr (level_text l))]) ls))) = Some ls"
proof -
  have "those (map read_alternative (map (\<lambda>l. JObj [(''level'', JStr (level_text l))]) ls)) = Some ls"
    by (rule those_map_id) (simp add: list_all_iff read_alternative_def object_with_def)
  with assms show ?thesis
    by (simp add: read_alternatives_def array_print Suc_le_eq sort_key_id_if_sorted comp_def)
qed

lemma read_documents_canonical:
  "read_documents v = Some ds \<Longrightarrow> ds \<noteq> [] \<and> length ds \<le> 20 \<and> distinct (map du_type ds) \<and> sorted (map du_type ds) \<and>
     list_all (CODE_TOKEN \<circ> du_type) ds"
proof -
  assume "read_documents v = Some ds"
  then obtain raws docs where raws: "array v 1 20 = Some raws" "those (map read_document raws) = Some docs"
      "distinct (map du_type docs)" and ds: "ds = sort_key du_type docs"
    by (auto simp: read_documents_def split: Option.bind_splits if_splits)
  have "list_all (CODE_TOKEN \<circ> du_type) docs \<and> length docs = length raws"
    using raws(2) unfolding those_map_iff
    by (rule list_all2_target) (auto simp: read_document_def split: Option.bind_splits json.splits option.splits if_splits)
  moreover from this have "docs \<noteq> []" using array_Some [OF raws(1)] by auto
  moreover have "distinct (map du_type ds)"
    using raws(3) unfolding ds by (metis mset_map mset_sort mset_eq_imp_distinct_iff)
  ultimately show ?thesis using array_Some [OF raws(1)] by (simp add: ds sort_key_not_Nil list_all_iff)
qed

lemma read_documents_print:
  assumes "ds \<noteq> []" and "length ds \<le> 20" and "distinct (map du_type ds)" and "sorted (map du_type ds)"
    and "list_all (CODE_TOKEN \<circ> du_type) ds"
  shows "read_documents (Some (JArr (map document_json ds))) = Some ds"
proof -
  have "those (map read_document (map document_json ds)) = Some ds"
    by (rule those_map_id)
       (use assms(5) in \<open>simp add: list_all_iff read_document_def document_json_def object_with_def boolean_of_def\<close>)
  with assms show ?thesis by (simp add: read_documents_def array_print Suc_le_eq sort_key_id_if_sorted)
qed

lemma codeSet_canonical:
  "codeSet v lo = Some cs \<Longrightarrow> lo \<le> length cs \<and> length cs \<le> 20 \<and> distinct cs \<and> sorted cs \<and> list_all REGISTRY_CODE cs"
proof -
  assume "codeSet v lo = Some cs"
  then obtain xs out where xs: "array v lo 20 = Some xs"
      "those (map (\<lambda>e. case e of JStr s \<Rightarrow> if REGISTRY_CODE s then Some s else None | _ \<Rightarrow> None) xs) = Some out"
      "distinct out" and cs: "cs = sort out"
    by (auto simp: codeSet_def split: Option.bind_splits if_splits)
  have "list_all REGISTRY_CODE out \<and> length out = length xs"
    using xs(2) unfolding those_map_iff by (rule list_all2_target) (auto split: json.splits if_splits)
  then show ?thesis using array_Some [OF xs(1)] xs(3) by (simp add: cs list_all_iff)
qed

lemma codeSet_print:
  "lo \<le> length cs \<Longrightarrow> length cs \<le> 20 \<Longrightarrow> distinct cs \<Longrightarrow> sorted cs \<Longrightarrow> list_all REGISTRY_CODE cs \<Longrightarrow>
     codeSet (Some (JArr (map JStr cs))) lo = Some cs"
proof -
  assume cs: "lo \<le> length cs" "length cs \<le> 20" "distinct cs" "sorted cs" "list_all REGISTRY_CODE cs"
  have "those (map (\<lambda>e. case e of JStr s \<Rightarrow> if REGISTRY_CODE s then Some s else None | _ \<Rightarrow> None) (map JStr cs)) = Some cs"
    by (rule those_map_id) (use cs(5) in \<open>simp add: list_all_iff\<close>)
  with cs show ?thesis by (simp add: codeSet_def array_print sorted_sort_id)
qed

lemma read_clearance_canonical: "read_clearance v = Some c \<Longrightarrow> canonical_clearance c"
proof -
  assume "read_clearance v = Some c"
  then obtain kvs allowed noRecord days where parts: "codeSet (map_of kvs ''allowedCertificateCodes'') 1 = Some allowed"
      "codeSet (map_of kvs ''noRecordCertificateCodes'') 0 = Some noRecord"
      "bounded_int (map_of kvs ''validityDays'') 1 3650 = Some days" "list_all (\<lambda>code. code \<in> set allowed) noRecord"
    and c: "c = \<lparr>cl_allowedCertificateCodes = allowed, cl_noRecordCertificateCodes = noRecord, cl_validityDays = days\<rparr>"
    by (auto simp: read_clearance_def split: Option.bind_splits if_splits)
  have "allowed \<noteq> []" using codeSet_canonical [OF parts(1)] by auto
  then show ?thesis
    using codeSet_canonical [OF parts(1)] codeSet_canonical [OF parts(2)] bounded_int_Some [OF parts(3)] parts(4)
    by (auto simp: canonical_clearance_def c list_all_iff)
qed

lemma read_clearance_print: "canonical_clearance c \<Longrightarrow> read_clearance (clearance_json c) = Some c"
proof -
  assume c: "canonical_clearance c"
  have "codeSet (Some (JArr (map JStr (cl_allowedCertificateCodes c)))) 1 = Some (cl_allowedCertificateCodes c)"
    by (rule codeSet_print) (use c in \<open>simp_all add: canonical_clearance_def Suc_le_eq\<close>)
  moreover have "codeSet (Some (JArr (map JStr (cl_noRecordCertificateCodes c)))) 0 = Some (cl_noRecordCertificateCodes c)"
    by (rule codeSet_print) (use c in \<open>auto simp: canonical_clearance_def list_all_iff\<close>)
  moreover have "bounded_int (Some (JNum (of_int (cl_validityDays c)))) 1 3650 = Some (cl_validityDays c)"
    by (rule bounded_int_print) (use c in \<open>simp_all add: canonical_clearance_def\<close>)
  ultimately show ?thesis using c
    by (auto simp: read_clearance_def clearance_json_def object_with_def canonical_clearance_def list_all_iff)
qed

text \<open>
  Whatever block is authored, a policy that normalisation accepts is canonical (bands, alternatives,
  documents and codes within their bounds, without repetitions and in order, no qualification in two
  bands), and printing it and normalising again gives the same policy: the stored form is stable.
\<close>

text \<open>
  C33: Whatever block is authored, a policy that normalisation accepts is canonical (bands,
  alternatives, documents and codes within their bounds, without repetitions and in order, no
  qualification in two bands), and printing it and normalising again gives the same policy: the
  stored form is stable.
\<close>

theorem normalised_policy_is_canonical:
  assumes "normalizePolicyV2 v = Some p"
  shows "canonical_policy p \<and> normalizePolicyV2 (policy_json p) = Some p"
proof -
  from assms obtain body conviction clearance where
      read: "read_bands (map_of body ''ageBands'') = Some (ageBands p)"
        "read_alternatives (map_of body ''educationAlternatives'') = Some (educationAlternatives p)"
        "read_science (map_of body ''minimumSciencePercent'') = Some (minimumSciencePercent p)"
        "read_documents (map_of body ''documents'') = Some (documents_of p)"
      and clearance: "(if map_of body ''clearance'' = Some JNull then Some None
          else map_option Some (read_clearance (the (map_of body ''clearance'')))) = Some (clearance_of p)"
    by (auto simp: normalizePolicyV2_def split: Option.bind_splits)
  have science: "case minimumSciencePercent p of None \<Rightarrow> True | Some n \<Rightarrow> 1 \<le> n \<and> n \<le> 100"
    using read(3) by (auto simp: read_science_def split: if_splits option.splits dest!: bounded_int_Some)
  have cleared_ok: "case clearance_of p of None \<Rightarrow> True | Some c \<Rightarrow> canonical_clearance c"
    using clearance by (auto split: if_splits option.splits dest: read_clearance_canonical)
  have canonical: "canonical_policy p"
    unfolding canonical_policy_def
    using read_bands_canonical [OF read(1)] read_alternatives_canonical [OF read(2)] read_documents_canonical [OF read(4)]
      science cleared_ok by blast
  have "read_bands (Some (JArr (map band_json (ageBands p)))) = Some (ageBands p)"
    using read_bands_canonical [OF read(1)] by (simp add: read_bands_print)
  moreover have "read_alternatives (Some (JArr (map (\<lambda>l. JObj [(''level'', JStr (level_text l))]) (educationAlternatives p)))) =
      Some (educationAlternatives p)"
    using read_alternatives_canonical [OF read(2)] by (simp add: read_alternatives_print)
  moreover have "read_science (Some (case minimumSciencePercent p of None \<Rightarrow> JNull | Some n \<Rightarrow> JNum (of_int n))) =
      Some (minimumSciencePercent p)"
    using science by (auto simp: read_science_def bounded_int_print split: option.splits)
  moreover have "read_documents (Some (JArr (map document_json (documents_of p)))) = Some (documents_of p)"
    using read_documents_canonical [OF read(4)] by (simp add: read_documents_print)
  moreover have "read_clearance (clearance_json c) = Some c \<and> clearance_json c \<noteq> JNull" if "clearance_of p = Some c" for c
    using cleared_ok that by (simp add: read_clearance_print) (simp add: clearance_json_def)
  ultimately have "normalizePolicyV2 (policy_json p) = Some p"
    by (cases "clearance_of p")
       (auto simp: normalizePolicyV2_def policy_json_def object_with_def POLICY_KEYS_def boolean_of_def intro!: policy_v2.equality)
  with canonical show ?thesis ..
qed

definition sample_policy_block :: json where
  "sample_policy_block = JObj
     [(''schemaVersion'', JNum 2),
      (''ageBands'', JArr [JObj [(''qualifications'', JArr [JStr ''FIELD:MEDICINE'', JStr ''FIELD:LAW'']), (''minimumAge'', JNum 18), (''maximumAge'', JNum 27)],
         JObj [(''minimumAge'', JNum 18), (''maximumAge'', JNum 25), (''qualifications'', JArr [JStr ''A_LEVEL_A2''])]]),
      (''educationAlternatives'', JArr [JObj [(''level'', JStr ''A_LEVEL_A2'')]]),
      (''minimumSciencePercent'', JNull),
      (''conviction'', JObj [(''rule'', JStr ''NEVER_CONVICTED''), (''notUnderProsecution'', JBool True)]),
      (''documents'', JArr [JObj [(''type'', JStr ''NATIONAL_ID''), (''satisfaction'', JStr ''REGISTRY_VERIFIED''), (''notarised'', JBool False)]]),
      (''clearance'', JNull)]"

definition sample_policy :: policy_v2 where
  "sample_policy =
     \<lparr>ageBands = [\<lparr>ab_qualifications = [LEVEL A_LEVEL_A2], ab_minimumAge = 18, ab_maximumAge = 25\<rparr>,
        \<lparr>ab_qualifications = [FIELD LAW, FIELD MEDICINE], ab_minimumAge = 18, ab_maximumAge = 27\<rparr>],
      educationAlternatives = [A_LEVEL_A2], minimumSciencePercent = None, conviction_rule_of = NEVER_CONVICTED,
      notUnderProsecution = True,
      documents_of = [\<lparr>du_type = ''NATIONAL_ID'', du_satisfaction = REGISTRY_VERIFIED, du_notarised = False\<rparr>],
      clearance_of = None\<rparr>"

lemma sample_policy_read: "normalizePolicyV2 sample_policy_block = Some sample_policy"
  by code_simp

theorem normalised_policy_is_canonical_witness: "normalizePolicyV2 (policy_json sample_policy) = Some sample_policy"
  using normalised_policy_is_canonical [OF sample_policy_read] by simp


subsection \<open>What the rules decide\<close>

definition band_applies :: "qualification_facts \<Rightarrow> age_band \<Rightarrow> bool" where
  "band_applies facts b \<longleftrightarrow> list_ex (qualification_matches facts) (ab_qualifications b)"

lemma best_band_fold:
  assumes "foldl (\<lambda>best band. if band_applies facts band \<and> (case best of None \<Rightarrow> True | Some b \<Rightarrow> ab_maximumAge band > ab_maximumAge b)
      then Some band else best) best0 bs = best"
    and "\<And>b. best0 = Some b \<Longrightarrow> band_applies facts b"
  shows "(best = None \<longrightarrow> best0 = None \<and> (\<forall>c \<in> set bs. \<not> band_applies facts c)) \<and>
    (\<forall>b. best = Some b \<longrightarrow> (best0 = Some b \<or> b \<in> set bs) \<and> band_applies facts b \<and>
       (\<forall>c \<in> set bs \<union> set_option best0. band_applies facts c \<longrightarrow> ab_maximumAge c \<le> ab_maximumAge b))"
  using assms
proof (induction bs arbitrary: best0)
  case (Cons x bs)
  let ?next = "if band_applies facts x \<and> (case best0 of None \<Rightarrow> True | Some b \<Rightarrow> ab_maximumAge x > ab_maximumAge b) then Some x else best0"
  have ok: "band_applies facts b" if "?next = Some b" for b using that Cons.prems(2) by (auto split: if_splits)
  note IH = Cons.IH [of ?next, OF _ ok]
  have step: "foldl (\<lambda>best band. if band_applies facts band \<and> (case best of None \<Rightarrow> True | Some b \<Rightarrow> ab_maximumAge band > ab_maximumAge b)
      then Some band else best) ?next bs = best" using Cons.prems(1) by simp
  show ?case
  proof (cases "band_applies facts x \<and> (case best0 of None \<Rightarrow> True | Some b \<Rightarrow> ab_maximumAge x > ab_maximumAge b)")
    case True
    then show ?thesis using IH [OF step] by (fastforce split: option.splits)
  next
    case False
    then show ?thesis using IH [OF step] Cons.prems(2) by (fastforce split: option.splits)
  qed
qed auto

lemma ageBandFor_best:
  "ageBandFor p facts = None \<longleftrightarrow> (\<forall>c \<in> set (ageBands p). \<not> band_applies facts c)"
  "ageBandFor p facts = Some b \<Longrightarrow> b \<in> set (ageBands p) \<and> band_applies facts b \<and>
     (\<forall>c \<in> set (ageBands p). band_applies facts c \<longrightarrow> ab_maximumAge c \<le> ab_maximumAge b)"
proof -
  have fold: "foldl (\<lambda>best band. if band_applies facts band \<and> (case best of None \<Rightarrow> True | Some b \<Rightarrow> ab_maximumAge band > ab_maximumAge b)
      then Some band else best) None (ageBands p) = ageBandFor p facts"
    by (simp add: ageBandFor_def band_applies_def)
  note best = best_band_fold [OF fold]
  show "ageBandFor p facts = None \<longleftrightarrow> (\<forall>c \<in> set (ageBands p). \<not> band_applies facts c)"
    using best by (cases "ageBandFor p facts") auto
  show "ageBandFor p facts = Some b \<Longrightarrow> b \<in> set (ageBands p) \<and> band_applies facts b \<and>
     (\<forall>c \<in> set (ageBands p). band_applies facts c \<longrightarrow> ab_maximumAge c \<le> ab_maximumAge b)"
    using best by auto
qed

lemma level_rank_nonneg [simp]: "0 \<le> level_rank l"
  by (cases l) (simp_all add: level_rank_def QUALIFICATION_LEVELS_def Let_def)

lemma higher_level_applies:
  assumes "band_applies \<lparr>qf_level = Some l, qf_field = f\<rparr> b" and "level_rank l \<le> level_rank m"
  shows "band_applies \<lparr>qf_level = Some m, qf_field = f\<rparr> b"
  using assms
  by (auto simp: band_applies_def list_ex_iff qualification_matches_def Let_def split: qualification_code.splits)
     (metis order_trans level_rank_nonneg)+

text \<open>
  A higher qualification never narrows the chances: it keeps every accepted level accepted, it never
  lowers the age cap, and it stays within the band when that band's minimum is no higher; and every cap
  lies within the envelope the version 1 policy must print.
\<close>

text \<open>
  A higher qualification never narrows the chances: it keeps every accepted level accepted,
  it never lowers the age cap, and it stays within the band when that band's minimum is no
  higher; and every cap lies within the envelope the version 1 policy must print.
\<close>

theorem higher_qualification_never_hurts:
  assumes "level_rank l \<le> level_rank m" and "educationSatisfied p l"
    and "av_eligible (evaluateAgeForQualification p \<lparr>qf_level = Some l, qf_field = f\<rparr> age)"
  shows "educationSatisfied p m \<and>
    (\<exists>cap cap'. av_cap (evaluateAgeForQualification p \<lparr>qf_level = Some l, qf_field = f\<rparr> age) = Some cap \<and>
       av_cap (evaluateAgeForQualification p \<lparr>qf_level = Some m, qf_field = f\<rparr> age) = Some cap' \<and> cap \<le> cap') \<and>
    av_code (evaluateAgeForQualification p \<lparr>qf_level = Some m, qf_field = f\<rparr> age) \<in> {WITHIN_BAND, BELOW_MINIMUM}"
proof -
  obtain b where b: "ageBandFor p \<lparr>qf_level = Some l, qf_field = f\<rparr> = Some b" "\<not> js_above age (ab_maximumAge b)"
    using assms(3) by (auto simp: evaluateAgeForQualification_def split: option.splits if_splits)
  then have applies: "band_applies \<lparr>qf_level = Some m, qf_field = f\<rparr> b" "b \<in> set (ageBands p)"
    using ageBandFor_best(2) [OF b(1)] higher_level_applies assms(1) by blast+
  then obtain c where c: "ageBandFor p \<lparr>qf_level = Some m, qf_field = f\<rparr> = Some c"
    using ageBandFor_best(1) [of p "\<lparr>qf_level = Some m, qf_field = f\<rparr>"] by (cases "ageBandFor p \<lparr>qf_level = Some m, qf_field = f\<rparr>") auto
  then have "ab_maximumAge b \<le> ab_maximumAge c" using ageBandFor_best(2) [OF c] applies by blast
  moreover have "educationSatisfied p m"
    using assms(1,2) by (auto simp: educationSatisfied_def list_ex_iff intro: order_trans)
  ultimately show ?thesis using b c by (auto simp: evaluateAgeForQualification_def js_above_def split: option.splits)
qed

theorem higher_qualification_never_hurts_witness:
  "educationSatisfied sample_policy MASTERS \<and>
   av_code (evaluateAgeForQualification sample_policy \<lparr>qf_level = Some MASTERS, qf_field = Some LAW\<rparr> (Some 26)) = WITHIN_BAND"
proof -
  have "level_rank A_LEVEL_A2 \<le> level_rank MASTERS" "educationSatisfied sample_policy A_LEVEL_A2"
      "av_eligible (evaluateAgeForQualification sample_policy \<lparr>qf_level = Some A_LEVEL_A2, qf_field = Some LAW\<rparr> (Some 26))"
    by code_simp+
  from higher_qualification_never_hurts [OF this] have "educationSatisfied sample_policy MASTERS" by blast
  moreover have "av_code (evaluateAgeForQualification sample_policy \<lparr>qf_level = Some MASTERS, qf_field = Some LAW\<rparr> (Some 26)) = WITHIN_BAND"
    by code_simp
  ultimately show ?thesis ..
qed

lemma least_Min: "xs \<noteq> [] \<Longrightarrow> least xs = Some (Min (set xs))"
  by (cases xs) (simp_all add: least_def Min.set_eq_fold [symmetric])

lemma greatest_Max: "xs \<noteq> [] \<Longrightarrow> greatest xs = Some (Max (set xs))"
  by (cases xs) (simp_all add: greatest_def Max.set_eq_fold [symmetric])

lemma lists_differ: "length xs \<noteq> length ys \<or> list_ex (\<lambda>(t, u). t \<noteq> u) (zip xs ys) \<longleftrightarrow> xs \<noteq> ys"
  by (induction xs ys rule: list_induct2') auto

lemma sort_eq_iff: "sort xs = sort ys \<longleftrightarrow> mset xs = mset ys" for xs :: "string list"
  by (metis mset_sort sort_key_id_if_sorted properties_for_sort sorted_sort)

text \<open>
  The envelope check passes exactly when the version 1 window is the widest of the bands, the version 1
  threshold is the rule's, and both list the same documents, in whatever order.
\<close>

text \<open>
  The envelope check passes exactly when the version 1 window is the widest of the bands,
  the version 1 threshold is the rule's, and both list the same documents, in whatever order.
\<close>

theorem envelope_agrees:
  assumes "ageBands p \<noteq> []"
  shows "checkEnvelope p v1 = None \<longleftrightarrow>
    v1_minimumAge v1 = Min (ab_minimumAge ` set (ageBands p)) \<and> v1_maximumAge v1 = Max (ab_maximumAge ` set (ageBands p)) \<and>
    v1_criminalThreshold v1 = threshold_text (v1CriminalThreshold (conviction_rule_of p)) \<and>
    mset (v1_requiredDocumentTypes v1) = mset (map du_type (documents_of p))"
proof -
  let ?a = "sort (map du_type (documents_of p))" and ?b = "sort (v1_requiredDocumentTypes v1)"
  have "length ?a \<noteq> length ?b \<or> list_ex (\<lambda>(t, u). t \<noteq> u) (zip ?a ?b) \<longleftrightarrow> ?a \<noteq> ?b"
    by (rule lists_differ)
  also have "\<dots> \<longleftrightarrow> mset (v1_requiredDocumentTypes v1) \<noteq> mset (map du_type (documents_of p))"
    using sort_eq_iff [of "map du_type (documents_of p)" "v1_requiredDocumentTypes v1"] by auto
  finally have docs: "length ?a \<noteq> length ?b \<or> list_ex (\<lambda>(t, u). t \<noteq> u) (zip ?a ?b) \<longleftrightarrow>
      mset (v1_requiredDocumentTypes v1) \<noteq> mset (map du_type (documents_of p))" .
  show ?thesis
    unfolding checkEnvelope_def ageEnvelope_def Let_def docs using assms
    by (auto simp: least_Min greatest_Max split: if_splits)
qed

theorem envelope_agrees_witness:
  "checkEnvelope sample_policy \<lparr>v1_minimumAge = 18, v1_maximumAge = 27, v1_criminalThreshold = ''ANY_CONVICTION'',
     v1_requiredDocumentTypes = [''NATIONAL_ID'']\<rparr> = None"
proof -
  have "ageBands sample_policy \<noteq> []" by (simp add: sample_policy_def)
  from envelope_agrees [OF this] show ?thesis by (simp add: sample_policy_def v1CriminalThreshold_def)
qed

text \<open>A clear verdict keeps the version 1 promise of the rule's threshold.\<close>

lemma clear_conviction:
  "fst (convictionVerdict p facts) \<longleftrightarrow>
     \<not> (notUnderProsecution p \<and> cf_underProsecution facts) \<and>
     (case v1CriminalThreshold (conviction_rule_of p) of
        ANY_CONVICTION \<Rightarrow> \<not> cf_convicted facts
      | IMPRISONMENT_GT_6MO \<Rightarrow> (case cf_longestSentenceMonths facts of None \<Rightarrow> \<not> cf_convicted facts | Some m \<Rightarrow> m \<le> 6)
      | IMPRISONMENT_GTE_6MO \<Rightarrow> (case cf_longestSentenceMonths facts of None \<Rightarrow> \<not> cf_convicted facts | Some m \<Rightarrow> m < 6))"
  by (auto simp: convictionVerdict_def sentence_verdict_def v1CriminalThreshold_def
      split: conviction_rule.splits option.splits)

lemma plan_is_a_partition:
  "(case documentPlan p of (registry, upload, venue) \<Rightarrow> mset registry + mset upload + mset venue = mset (documents_of p))"
proof -
  have "mset (filter (\<lambda>d. du_satisfaction d = REGISTRY_VERIFIED) ds) + mset (filter (\<lambda>d. du_satisfaction d = UPLOAD) ds) +
      mset (filter (\<lambda>d. du_satisfaction d = PRESENT_AT_VENUE) ds) = mset ds" for ds
  proof (induction ds)
    case (Cons d ds)
    then show ?case by (cases "du_satisfaction d") auto
  qed simp
  then show ?thesis by (simp add: documentPlan_def)
qed

end
