(* ===== verification/Eligibility.thy ===== *)
theory Eligibility
  imports IdentityMatch CampaignPolicy Canonical
begin

text \<open>
  The age and academic gates (\<open>services/eligibility-service\<close>): the pure rules of \<open>domain/\<close>, the reads of
  the applicant's row, and the three use cases of \<open>application/\<close> with what they publish. The registries
  NESA and HEC, \<open>pgp_sym_decrypt\<close>, \<open>Date\<close> parsing and printing, and \<open>String\<close> of a fraction are fields of
  the environment. The en dash and the greater-or-equal sign of a reason are written in UTF-8.
\<close>

subsection \<open>Texts\<close>

fun category_text :: "application_category \<Rightarrow> string" where
  "category_text GENERAL_ENLISTMENT = ''GENERAL_ENLISTMENT''"
| "category_text RESERVE_FORCE_ALEVEL = ''RESERVE_FORCE_ALEVEL''"
| "category_text RESERVE_FORCE_UNIVERSITY = ''RESERVE_FORCE_UNIVERSITY''"
| "category_text RESERVE_FORCE_SPECIALIST = ''RESERVE_FORCE_SPECIALIST''"
| "category_text CADET_OFFICER = ''CADET_OFFICER''"
| "category_text BASIC_POLICE_COURSE = ''BASIC_POLICE_COURSE''"
| "category_text GENERAL_ENLISTEE = ''GENERAL_ENLISTEE''"
| "category_text OFFICER_ONE_YEAR = ''OFFICER_ONE_YEAR''"
| "category_text OFFICER_ONE_YEAR_SPECIALIST = ''OFFICER_ONE_YEAR_SPECIALIST''"
| "category_text OFFICER_FOUR_YEAR_UR = ''OFFICER_FOUR_YEAR_UR''"

fun eligibility_text :: "eligibility_status \<Rightarrow> string" where
  "eligibility_text PENDING = ''PENDING''"
| "eligibility_text ELIGIBLE = ''ELIGIBLE''"
| "eligibility_text INELIGIBLE = ''INELIGIBLE''"

definition at_least_sign :: string where "at_least_sign = [CHR 0xE2, CHR 0x89, CHR 0xA5]"

definition en_dash :: string where "en_dash = [CHR 0xE2, CHR 0x80, CHR 0x93]"

subsection \<open>Age\<close>

text \<open>
  A day of the calendar as the pattern and the round trip through \<open>Date\<close> accept it. \<open>None\<close> is the
  exception; an invalid \<open>asOf\<close> makes every part of the arithmetic NaN, \<open>Some None\<close>.
\<close>

definition dob_parts :: "string \<Rightarrow> (int \<times> int \<times> int) option" where
  "dob_parts s =
     (let y = take 4 s; m = take 2 (drop 5 s); d = drop 8 s in
      if digits_only 4 y \<and> take 1 (drop 4 s) = ''-'' \<and> digits_only 2 m \<and> take 1 (drop 7 s) = ''-'' \<and> digits_only 2 d \<and>
         valid_civil (digits_val y) (digits_val m) (digits_val d)
      then Some (digits_val y, digits_val m, digits_val d) else None)"

definition age_on :: "int \<times> int \<times> int \<Rightarrow> civil_date \<Rightarrow> int" where
  "age_on dob day =
     (case dob of (y, m, d) \<Rightarrow>
        let age = civil_year day - y; monthDelta = civil_month day - m in
        if monthDelta < 0 \<or> monthDelta = 0 \<and> civil_day day < d then age - 1 else age)"

definition ageInYears :: "string \<Rightarrow> instant option \<Rightarrow> int option option" where
  "ageInYears dateOfBirth asOf =
     (case dob_parts dateOfBirth of
        None \<Rightarrow> None
      | Some dob \<Rightarrow> Some (map_option (\<lambda>t. age_on dob (civil_of_days (t div day_ms))) asOf))"

record age_eligibility_result =
  ae_eligible :: bool
  ae_ageAtEvaluation :: int
  ae_dateOfBirth :: string
  ae_evaluationDate :: string
  ae_reason :: string
  ae_appliedMaxAge :: int

text \<open>The printed window replaces the engine's; an invalid \<open>asOf\<close> makes \<open>toISOString\<close> throw.\<close>

definition evaluateAgeEligibility ::
  "(instant \<Rightarrow> string) \<Rightarrow> application_category \<Rightarrow> string \<Rightarrow> instant option \<Rightarrow> age_criteria option \<Rightarrow> age_eligibility_result option" where
  "evaluateAgeEligibility print_date cat dateOfBirth asOf window =
     (let criteria = (case window of Some w \<Rightarrow> w | None \<Rightarrow> AGE_CRITERIA cat) in
      case (ageInYears dateOfBirth asOf, asOf) of
        (Some (Some age), Some t) \<Rightarrow>
          let eligible = (age \<ge> minAge criteria \<and> age \<le> maxAge criteria) in
          Some \<lparr>ae_eligible = eligible, ae_ageAtEvaluation = age, ae_dateOfBirth = dateOfBirth, ae_evaluationDate = print_date t,
            ae_reason =
              (if eligible then ''Age '' @ show_int age @ '' is within the '' @ show_int (minAge criteria) @ en_dash @
                 show_int (maxAge criteria) @ '' band for '' @ category_text cat @ ''.''
               else if age < minAge criteria then ''Age '' @ show_int age @ '' is below the minimum age '' @
                 show_int (minAge criteria) @ '' for '' @ category_text cat @ ''.''
               else ''Age '' @ show_int age @ '' exceeds the maximum age '' @ show_int (maxAge criteria) @ '' for '' @
                 category_text cat @ ''.''),
            ae_appliedMaxAge = maxAge criteria\<rparr>
      | _ \<Rightarrow> None)"

subsection \<open>Education\<close>

fun NESA_QUALIFICATION_TO_EDUCATION_LEVEL :: "nesa_level \<Rightarrow> education_level" where
  "NESA_QUALIFICATION_TO_EDUCATION_LEVEL NESA_A2 = A_LEVEL_A2"
| "NESA_QUALIFICATION_TO_EDUCATION_LEVEL NESA_A1 = A1_IPRC"
| "NESA_QUALIFICATION_TO_EDUCATION_LEVEL NESA_O_LEVEL = O_LEVEL_S3"

record education_facts =
  ef_qualificationLevel :: nesa_level
  ef_percentageScore :: "real option"

record education_result =
  ed_academicStatus :: eligibility_status
  ed_meetsRequirement :: bool
  ed_reason :: string
  ed_requiredMinLevel :: education_level
  ed_evaluatedLevel :: education_level
  ed_evaluationDate :: string

definition percent :: "(real \<Rightarrow> string) \<Rightarrow> real option \<Rightarrow> string" where
  "percent show_fraction x = (case x of None \<Rightarrow> ''undefined'' | Some v \<Rightarrow> show_number show_fraction v)"

definition evaluateNesaEducation ::
  "(real \<Rightarrow> string) \<Rightarrow> application_category \<Rightarrow> education_facts \<Rightarrow> string \<Rightarrow> education_result" where
  "evaluateNesaEducation show_fraction cat payload evaluationDate =
     (let requirement = EDUCATION_REQUIREMENTS cat;
          evaluatedLevel = NESA_QUALIFICATION_TO_EDUCATION_LEVEL (ef_qualificationLevel payload);
          meetsLevel = (evaluatedLevel \<in> set (acceptedLevels requirement));
          scoreThreshold = minScienceGradePercent requirement;
          scienceScore = ef_percentageScore payload;
          meetsScience = (case scoreThreshold of None \<Rightarrow> True
            | Some t \<Rightarrow> (case scienceScore of None \<Rightarrow> False | Some x \<Rightarrow> x \<ge> t));
          meetsRequirement = (meetsLevel \<and> meetsScience)
      in \<lparr>ed_academicStatus = (if meetsRequirement then ELIGIBLE else INELIGIBLE),
          ed_meetsRequirement = meetsRequirement,
          ed_reason =
            (if meetsRequirement then ''Qualification '' @ level_text evaluatedLevel @ '' satisfies the '' @
               level_text (minLevel requirement) @ '' requirement for '' @ category_text cat @
               (if scoreThreshold \<noteq> None then '' (science '' @ percent show_fraction scienceScore @ ''% '' @ at_least_sign @ '' '' @
                  percent show_fraction scoreThreshold @ ''%)'' else '''') @ ''.''
             else if \<not> meetsLevel then ''Qualification '' @ level_text evaluatedLevel @ '' does not meet the '' @
               level_text (minLevel requirement) @ '' minimum for '' @ category_text cat @ ''.''
             else if scienceScore = None then ''Category '' @ category_text cat @ '' requires a science score '' @ at_least_sign @
               '' '' @ percent show_fraction scoreThreshold @ ''% but NESA returned none.''
             else ''Science score '' @ percent show_fraction scienceScore @ ''% is below the '' @
               percent show_fraction scoreThreshold @ ''% minimum for '' @ category_text cat @ ''.''),
          ed_requiredMinLevel = minLevel requirement,
          ed_evaluatedLevel = evaluatedLevel,
          ed_evaluationDate = evaluationDate\<rparr>)"

record hec_payload =
  hp_institutionName :: string
  hp_degreeTitle :: string
  hp_educationLevel :: education_level
  hp_specialistField :: "string option"
  hp_graduationYear :: int

definition BASE_MAX_AGE :: int where "BASE_MAX_AGE = 25"

definition SPECIALIST_FIELDS_BY_CATEGORY :: "application_category \<Rightarrow> string list option" where
  "SPECIALIST_FIELDS_BY_CATEGORY cat =
     (case cat of
        RESERVE_FORCE_SPECIALIST \<Rightarrow> Some (map field_text RDF_SPECIALIST_FIELDS)
      | OFFICER_ONE_YEAR_SPECIALIST \<Rightarrow> Some (map field_text RCS_SPECIALIST_FIELDS)
      | _ \<Rightarrow> None)"

record hec_education_result = education_result +
  he_appliedMaxAge :: int
  he_ageExceptionApplies :: bool
  he_specialistField :: "string option"

definition evaluateHecEducation :: "application_category \<Rightarrow> hec_payload \<Rightarrow> string \<Rightarrow> hec_education_result" where
  "evaluateHecEducation cat payload evaluationDate =
     (let requirement = EDUCATION_REQUIREMENTS cat;
          evaluatedLevel = hp_educationLevel payload;
          meetsLevel = (evaluatedLevel \<in> set (acceptedLevels requirement));
          requiredFields = SPECIALIST_FIELDS_BY_CATEGORY cat;
          meetsSpecialist = (case requiredFields of None \<Rightarrow> True
            | Some fs \<Rightarrow> (case hp_specialistField payload of None \<Rightarrow> False | Some f \<Rightarrow> f \<in> set fs));
          meetsRequirement = (meetsLevel \<and> meetsSpecialist);
          appliedMaxAge = maxAge (AGE_CRITERIA cat);
          ageExceptionApplies = (appliedMaxAge > BASE_MAX_AGE);
          field = (case hp_specialistField payload of None \<Rightarrow> ''null'' | Some f \<Rightarrow> f)
      in \<lparr>ed_academicStatus = (if meetsRequirement then ELIGIBLE else INELIGIBLE),
          ed_meetsRequirement = meetsRequirement,
          ed_reason =
            (if meetsRequirement then ''Degree '' @ level_text evaluatedLevel @ '' satisfies the '' @
               level_text (minLevel requirement) @ '' requirement for '' @ category_text cat @
               (if requiredFields \<noteq> None then '' (specialist field '' @ field @ '' recognised)'' else '''') @
               (if ageExceptionApplies then ''; qualifies the relaxed maximum age of '' @ show_int appliedMaxAge else '''') @ ''.''
             else if \<not> meetsLevel then ''Degree level '' @ level_text evaluatedLevel @ '' does not meet the '' @
               level_text (minLevel requirement) @ '' minimum for '' @ category_text cat @ ''.''
             else if hp_specialistField payload = None then ''Category '' @ category_text cat @
               '' requires a recognised specialist field but the degree declares none.''
             else ''Specialist field '' @ field @ '' is not recognised for '' @ category_text cat @ ''.''),
          ed_requiredMinLevel = minLevel requirement,
          ed_evaluatedLevel = evaluatedLevel,
          ed_evaluationDate = evaluationDate,
          he_appliedMaxAge = appliedMaxAge,
          he_ageExceptionApplies = ageExceptionApplies,
          he_specialistField = hp_specialistField payload\<rparr>)"

subsection \<open>Binding before evaluating\<close>

record nesa_holder =
  nh_name :: string
  nh_sex :: "gender option"
  nh_nationalIdHint :: "string option"

record nesa_results =
  nr_holder :: nesa_holder
  nr_published :: bool
  nr_malpractice :: bool
  nr_qualificationLevel :: "nesa_level option"
  nr_division :: string
  nr_weightedPercent :: "real option"

datatype nesa_review_reason =
    NAME_IS_PARTIAL | HOLDER_FIELD_UNREADABLE | NID_HINT_NOT_COMPARED | SEX_NOT_COMPARED | MALPRACTICE
  | UNKNOWN_LEVEL_TYPE | DIVISION_NOT_PASS

datatype nesa_gate_decision =
    NESA_NOT_BOUND binding_result
  | NESA_UNPUBLISHED binding_result
  | NESA_REVIEW binding_result "nesa_review_reason list"
  | NESA_EVALUATE binding_result education_facts

definition PASSING_DIVISIONS :: "string list" where "PASSING_DIVISIONS = [''PASS'']"

fun gender_text :: "gender \<Rightarrow> string" where
  "gender_text MALE = ''MALE''" | "gender_text FEMALE = ''FEMALE''"

definition nesa_reasons :: "binding_result \<Rightarrow> nesa_results \<Rightarrow> nesa_review_reason list" where
  "nesa_reasons binding results =
     (if br_outcome binding = REVIEW then
        (if br_nameMatch binding = NAME_PARTIAL then [NAME_IS_PARTIAL] else []) @
        (if bf_nationalIdHint (br_fields binding) = NOT_COMPARED then [NID_HINT_NOT_COMPARED] else []) @
        (if bf_sex (br_fields binding) = NOT_COMPARED then [SEX_NOT_COMPARED] else []) @
        (if UNREADABLE \<in> {bf_name (br_fields binding), bf_dateOfBirth (br_fields binding), bf_sex (br_fields binding),
             bf_nationalIdHint (br_fields binding)} then [HOLDER_FIELD_UNREADABLE] else [])
      else []) @
     (if nr_malpractice results then [MALPRACTICE] else []) @
     (if nr_qualificationLevel results = None then [UNKNOWN_LEVEL_TYPE] else []) @
     (if nr_division results \<notin> set PASSING_DIVISIONS then [DIVISION_NOT_PASS] else [])"

definition nesa_claim :: "nesa_results \<Rightarrow> credential_claim" where
  "nesa_claim results =
     \<lparr>cc_holderName = nh_name (nr_holder results), cc_dateOfBirth = None,
      cc_sex = map_option gender_text (nh_sex (nr_holder results)),
      cc_nationalIdHint = nh_nationalIdHint (nr_holder results)\<rparr>"

definition decideNesaGate :: "name_library \<Rightarrow> identity_facts \<Rightarrow> nesa_results \<Rightarrow> nesa_gate_decision" where
  "decideNesaGate lib identity results =
     (let binding = bindCredential lib identity (nesa_claim results) [SEX, NATIONAL_ID_HINT] in
      if br_outcome binding = NOT_BOUND then NESA_NOT_BOUND binding
      else if \<not> nr_published results then NESA_UNPUBLISHED binding
      else
        (case (nesa_reasons binding results, nr_qualificationLevel results) of
           ([], Some level) \<Rightarrow>
             NESA_EVALUATE binding \<lparr>ef_qualificationLevel = level, ef_percentageScore = nr_weightedPercent results\<rparr>
         | (reasons, _) \<Rightarrow> NESA_REVIEW binding reasons))"

subsection \<open>The pinned policy\<close>

record pinned_policy =
  pp_v2 :: policy_v2
  pp_referenceDate :: string

text \<open>\<open>None\<close> stands for infinite bounds; a normalised policy has a band.\<close>

definition ageWindowFromPolicy :: "pinned_policy \<Rightarrow> age_criteria option" where
  "ageWindowFromPolicy policy =
     (case ageEnvelope (pp_v2 policy) of
        (Some lo, Some hi) \<Rightarrow> Some \<lparr>minAge = lo, maxAge = hi\<rparr>
      | _ \<Rightarrow> None)"

record qualification_evidence =
  qe_level :: education_level
  qe_field :: "specialist_field option"
  qe_sciencePercent :: "real option"
  qe_dateOfBirth :: string

definition with_verdict :: "eligibility_status \<Rightarrow> bool \<Rightarrow> string \<Rightarrow> 'a education_result_scheme \<Rightarrow> 'a education_result_scheme" where
  "with_verdict status meets reason result =
     result\<lparr>ed_academicStatus := status, ed_meetsRequirement := meets, ed_reason := reason\<rparr>"

definition age_text :: "int option \<Rightarrow> string" where
  "age_text age = (case age of None \<Rightarrow> ''NaN'' | Some a \<Rightarrow> show_int a)"

definition applyPolicyV2Education ::
  "(string \<Rightarrow> instant option) \<Rightarrow> 'a education_result_scheme \<Rightarrow> pinned_policy option \<Rightarrow> qualification_evidence \<Rightarrow>
    'a education_result_scheme" where
  "applyPolicyV2Education date_of result policy evidence =
     (case policy of
        None \<Rightarrow> result
      | Some pin \<Rightarrow>
          if ed_academicStatus result = PENDING then result
          else
            let v2 = pp_v2 pin; level = level_text (qe_level evidence) in
            if \<not> educationSatisfied v2 (qe_level evidence)
            then with_verdict INELIGIBLE False (''Qualification '' @ level @ '' is not one of the levels this campaign accepts.'') result
            else if \<not> scienceSatisfied v2 (qe_sciencePercent evidence)
            then with_verdict INELIGIBLE False (''The secondary science mark does not reach the '' @
                   (case minimumSciencePercent v2 of None \<Rightarrow> ''null'' | Some n \<Rightarrow> show_int n) @ ''% this campaign requires.'') result
            else
              (case ageInYears (qe_dateOfBirth evidence) (date_of (pp_referenceDate pin @ ''T00:00:00Z'')) of
                 None \<Rightarrow> with_verdict INELIGIBLE False ''The age could not be established against the campaign reference date.'' result
               | Some age \<Rightarrow>
                   let verdict = evaluateAgeForQualification v2 \<lparr>qf_level = Some (qe_level evidence), qf_field = qe_field evidence\<rparr> age in
                   if \<not> av_eligible verdict then
                     with_verdict INELIGIBLE False
                       (case (av_code verdict, av_cap verdict, av_minimum verdict) of
                          (ABOVE_CAP, Some cap, _) \<Rightarrow> ''Age '' @ age_text age @ '' exceeds the maximum age '' @ show_int cap @ '' for a '' @ level @
                            '' qualification in this campaign.''
                        | (BELOW_MINIMUM, _, Some low) \<Rightarrow> ''Age '' @ age_text age @ '' is below the minimum age '' @ show_int low @ '' for this campaign.''
                        | _ \<Rightarrow> ''No age limit in this campaign covers a '' @ level @ '' qualification.'') result
                   else with_verdict ELIGIBLE True
                          (''Qualification '' @ level @ '' and age '' @ age_text age @ '' satisfy this campaign'' @ [CHR 0x27] @ ''s policy.'') result))"

end
