(* ===== verification/EligibilityService.thy ===== *)
theory EligibilityService
  imports Eligibility
begin

text \<open>
  The use cases of \<open>services/eligibility-service/src/application\<close>: what each gate reads, decides and
  publishes. A call answers the events that reached the bus and the outcome, or the fault that stopped it;
  the consumer then leaves the offset uncommitted and the event is delivered again.
\<close>

subsection \<open>Events\<close>

record age_event =
  ag_envelope :: event_envelope
  ag_applicantId :: uuid
  ag_applicationId :: uuid
  ag_agency :: agency
  ag_category :: application_category
  ag_ageStatus :: eligibility_status
  ag_ageAtEvaluation :: int
  ag_appliedMaxAge :: int
  ag_eligible :: bool
  ag_reason :: string

text \<open>Of the details only the education check is ever set; the seven others are null.\<close>

record eligibility_result =
  er_eligible :: bool
  er_reason :: string
  er_failureCode :: "string option"
  er_reviewReasons :: "nesa_review_reason list"
  er_evaluatedAt :: string
  er_educationCheck :: "bool option"

record nesa_event =
  ne_envelope :: event_envelope
  ne_applicantId :: uuid
  ne_applicationId :: uuid
  ne_agency :: agency
  ne_category :: application_category
  ne_nesaRequestId :: string
  ne_eligibilityResult :: eligibility_result
  ne_academicStatus :: eligibility_status

record hec_event =
  hc_envelope :: event_envelope
  hc_applicantId :: uuid
  hc_applicationId :: uuid
  hc_agency :: agency
  hc_category :: application_category
  hc_hecRequestId :: string
  hc_degreeVerified :: bool
  hc_institutionName :: "string option"
  hc_degreeTitle :: "string option"
  hc_graduationYear :: "int option"
  hc_specialistField :: "string option"
  hc_eligibilityResult :: eligibility_result
  hc_academicStatus :: eligibility_status

text \<open>Every audit entry is of entity type APPLICANT, by eligibility-service.\<close>

record gate_audit =
  ga_envelope :: event_envelope
  ga_entityId :: uuid
  ga_action :: string
  ga_agency :: agency
  ga_metadata :: "(string \<times> json) list"

datatype gate_event =
    AGE_COMPLETED age_event
  | NESA_COMPLETED nesa_event
  | HEC_COMPLETED hec_event
  | GATE_AUDIT gate_audit

datatype gate_error = Gate_read | Invalid_date | Unknown_category | Registry_unavailable | Gate_bus

subsection \<open>Environment and reads\<close>

datatype nesa_lookup = NESA_FOUND string nesa_results | NESA_NOT_FOUND string

datatype hec_lookup = HEC_VERIFIED string hec_payload | HEC_HOLDER_MISMATCH string | HEC_NOT_FOUND string

record gate_env =
  ge_names :: name_library
  ge_decrypt :: "string \<Rightarrow> string option"
  ge_date :: "string \<Rightarrow> instant option"
  ge_print :: "instant \<Rightarrow> string"
  ge_fraction :: "real \<Rightarrow> string"
  ge_clock :: instant
  ge_policy :: "(uuid \<Rightarrow> application_category \<Rightarrow> pinned_policy option option) option"
  ge_nesa :: "string \<Rightarrow> nesa_lookup option"
  ge_hec :: "string \<Rightarrow> string \<Rightarrow> hec_lookup option"
  ge_bus :: "gate_event \<Rightarrow> bool"

text \<open>
  \<open>PgCampaignPolicyReader\<close> on the row its query selects: the stored block and the reference date. A block
  that cannot be read is a fault; no row, or no block, leaves the engine's constants in force.
\<close>

definition findPinnedPolicy :: "(json option \<times> string option) option \<Rightarrow> pinned_policy option option" where
  "findPinnedPolicy row =
     (case row of
        None \<Rightarrow> Some None
      | Some (block, reference_date) \<Rightarrow>
          if block = None \<or> block = Some JNull then Some None
          else
            (case (readPolicyV2 (the block), reference_date) of
               (Some v2, Some d) \<Rightarrow> Some (Some \<lparr>pp_v2 = v2, pp_referenceDate = d\<rparr>)
             | _ \<Rightarrow> None))"

definition live_citizen :: "uuid \<Rightarrow> 'ev identity_store \<Rightarrow> citizen_columns option" where
  "live_citizen who s =
     (case citizen_of s who of
        None \<Rightarrow> None
      | Some c \<Rightarrow> if cz_deleted_at c \<noteq> None then None else Some c)"

definition findApplicantById :: "gate_env \<Rightarrow> uuid \<Rightarrow> 'ev identity_store \<Rightarrow> (string \<times> identity_status) option option" where
  "findApplicantById env who s =
     (case live_citizen who s of
        None \<Rightarrow> Some None
      | Some c \<Rightarrow> map_option (\<lambda>dob. Some (dob, cz_identity_status c)) (ge_decrypt env (cz_encrypted_date_of_birth c)))"

text \<open>A nullable column is decrypted when it holds a value.\<close>

definition decrypt_nullable :: "gate_env \<Rightarrow> string option \<Rightarrow> string option option" where
  "decrypt_nullable env column =
     (case column of None \<Rightarrow> Some None | Some text \<Rightarrow> map_option Some (ge_decrypt env text))"

definition findBindingSubjectById :: "gate_env \<Rightarrow> uuid \<Rightarrow> 'ev identity_store \<Rightarrow> (identity_facts \<times> identity_status) option option" where
  "findBindingSubjectById env who s =
     (case live_citizen who s of
        None \<Rightarrow> Some None
      | Some c \<Rightarrow>
          (case (ge_decrypt env (cz_encrypted_full_name c), ge_decrypt env (cz_encrypted_date_of_birth c),
                 decrypt_nullable env (cz_encrypted_national_id_hint c)) of
             (Some name, Some dob, Some hint) \<Rightarrow>
               Some (Some (\<lparr>if_fullName = name, if_dateOfBirth = dob, if_sex = Some (gender_text (cz_gender c)),
                            if_nationalIdHint = hint\<rparr>, cz_identity_status c))
           | _ \<Rightarrow> None))"

definition findG2GSubjectById :: "gate_env \<Rightarrow> uuid \<Rightarrow> 'ev identity_store \<Rightarrow> (string option \<times> identity_status) option option" where
  "findG2GSubjectById env who s =
     (case live_citizen who s of
        None \<Rightarrow> Some None
      | Some c \<Rightarrow> map_option (\<lambda>h. Some (h, cz_identity_status c)) (decrypt_nullable env (cz_encrypted_nida_lookup_hash c)))"

text \<open>One \<open>publish\<close> after the other; the first that throws ends the call.\<close>

fun publish_each :: "('e \<Rightarrow> bool) \<Rightarrow> 'e list \<Rightarrow> 'e list \<times> bool" where
  "publish_each bus [] = ([], True)"
| "publish_each bus (e # es) =
     (if bus e then (case publish_each bus es of (sent, ok) \<Rightarrow> (e # sent, ok)) else ([], False))"

definition announce_then :: "gate_env \<Rightarrow> gate_event list \<Rightarrow> 'o \<Rightarrow> gate_event list \<times> (gate_error + 'o)" where
  "announce_then env es answer =
     (case publish_each (ge_bus env) es of (sent, ok) \<Rightarrow> (sent, if ok then Inr answer else Inl Gate_bus))"

definition gate_context :: "auth_draws \<Rightarrow> event_context option \<Rightarrow> event_context" where
  "gate_context dr ctx = (case ctx of Some c \<Rightarrow> c | None \<Rightarrow> newCorrelationContext (dr_ids dr 0))"

subsection \<open>The age gate\<close>

record evaluate_age_command =
  ec_applicantId :: uuid
  ec_category :: application_category
  ec_applicationId :: "uuid option"
  ec_referenceDate :: "string option"
  ec_context :: "event_context option"

datatype evaluate_age_outcome =
    AGE_EVALUATED agency age_eligibility_result
  | AGE_APPLICANT_NOT_FOUND
  | AGE_IDENTITY_NOT_VERIFIED identity_status

definition age_audit_of :: "event_envelope \<Rightarrow> evaluate_age_command \<Rightarrow> agency \<Rightarrow> age_eligibility_result \<Rightarrow> gate_audit" where
  "age_audit_of env cmd a r =
     \<lparr>ga_envelope = env, ga_entityId = ec_applicantId cmd,
      ga_action = (if ae_eligible r then ''AGE_ELIGIBILITY_PASSED'' else ''AGE_ELIGIBILITY_FAILED''), ga_agency = a,
      ga_metadata = [(''category'', JStr (category_text (ec_category cmd))), (''ageAtEvaluation'', JNum (of_int (ae_ageAtEvaluation r))),
        (''appliedMaxAge'', JNum (of_int (ae_appliedMaxAge r))), (''eligible'', JBool (ae_eligible r)), (''reason'', JStr (ae_reason r))]\<rparr>"

definition age_event_of :: "event_envelope \<Rightarrow> evaluate_age_command \<Rightarrow> uuid \<Rightarrow> agency \<Rightarrow> age_eligibility_result \<Rightarrow> age_event" where
  "age_event_of env cmd applicationId a r =
     \<lparr>ag_envelope = env, ag_applicantId = ec_applicantId cmd, ag_applicationId = applicationId, ag_agency = a,
      ag_category = ec_category cmd, ag_ageStatus = (if ae_eligible r then ELIGIBLE else INELIGIBLE),
      ag_ageAtEvaluation = ae_ageAtEvaluation r, ag_appliedMaxAge = ae_appliedMaxAge r, ag_eligible = ae_eligible r,
      ag_reason = ae_reason r\<rparr>"

definition pinned_for :: "gate_env \<Rightarrow> uuid option \<Rightarrow> application_category \<Rightarrow> pinned_policy option option" where
  "pinned_for env applicationId cat =
     (case (ge_policy env, applicationId) of
        (Some reader, Some i) \<Rightarrow> reader i cat
      | _ \<Rightarrow> Some None)"

definition evaluate_age ::
  "gate_env \<Rightarrow> auth_draws \<Rightarrow> evaluate_age_command \<Rightarrow> 'ev identity_store \<Rightarrow> gate_event list \<times> (gate_error + evaluate_age_outcome)" where
  "evaluate_age env dr cmd s =
     (case findApplicantById env (ec_applicantId cmd) s of
        None \<Rightarrow> ([], Inl Gate_read)
      | Some None \<Rightarrow> ([], Inr AGE_APPLICANT_NOT_FOUND)
      | Some (Some (dob, status)) \<Rightarrow>
          if status \<noteq> IDENTITY_VERIFIED then ([], Inr (AGE_IDENTITY_NOT_VERIFIED status))
          else
            (case pinned_for env (ec_applicationId cmd) (ec_category cmd) of
               None \<Rightarrow> ([], Inl Gate_read)
             | Some pinned \<Rightarrow>
                 let asOf = (case pinned of
                       Some p \<Rightarrow> ge_date env (pp_referenceDate p @ ''T00:00:00Z'')
                     | None \<Rightarrow>
                         (case ec_referenceDate cmd of
                            Some d \<Rightarrow> if d \<noteq> [] then ge_date env d else Some (ge_clock env)
                          | None \<Rightarrow> Some (ge_clock env)));
                     window = (case pinned of Some p \<Rightarrow> ageWindowFromPolicy p | None \<Rightarrow> None) in
                 (case evaluateAgeEligibility (ge_print env) (ec_category cmd) dob asOf window of
                    None \<Rightarrow> ([], Inl Invalid_date)
                  | Some result \<Rightarrow>
                      (case agencyForCategory (ec_category cmd) of
                         None \<Rightarrow> ([], Inl Unknown_category)
                       | Some a \<Rightarrow>
                           let ctx = gate_context dr (ec_context cmd) in
                           announce_then env
                             (GATE_AUDIT (age_audit_of (envelope dr 1 ctx) cmd a result) #
                              (case ec_applicationId cmd of
                                 None \<Rightarrow> []
                               | Some i \<Rightarrow> [AGE_COMPLETED (age_event_of (envelope dr 2 ctx) cmd i a result)]))
                             (AGE_EVALUATED a result)))))"

subsection \<open>The academic gate, A-Level path\<close>

record nesa_command =
  nk_applicantId :: uuid
  nk_applicationId :: uuid
  nk_category :: application_category
  nk_nesaIndexNumber :: string
  nk_context :: "event_context option"

datatype nesa_outcome =
    NESA_EVALUATED agency education_result string
  | NESA_APPLICANT_NOT_FOUND
  | NESA_IDENTITY_NOT_VERIFIED identity_status
  | NESA_NOT_APPLICABLE
  | NESA_RECORD_NOT_FOUND string
  | NESA_RECORD_NOT_BOUND string binding_fields
  | NESA_RESULTS_PENDING string
  | NESA_REVIEW_REQUIRED string "nesa_review_reason list" binding_fields

fun field_result_text :: "field_result \<Rightarrow> string" where
  "field_result_text FIELD_MATCH = ''MATCH''"
| "field_result_text FIELD_PARTIAL = ''PARTIAL''"
| "field_result_text FIELD_MISMATCH = ''MISMATCH''"
| "field_result_text NOT_COMPARED = ''NOT_COMPARED''"
| "field_result_text UNREADABLE = ''UNREADABLE''"

definition binding_json :: "binding_fields \<Rightarrow> json" where
  "binding_json f = JObj [(''name'', JStr (field_result_text (bf_name f))), (''dateOfBirth'', JStr (field_result_text (bf_dateOfBirth f))),
     (''sex'', JStr (field_result_text (bf_sex f))), (''nationalIdHint'', JStr (field_result_text (bf_nationalIdHint f)))]"

fun nesa_reason_text :: "nesa_review_reason \<Rightarrow> string" where
  "nesa_reason_text NAME_IS_PARTIAL = ''NAME_PARTIAL''"
| "nesa_reason_text HOLDER_FIELD_UNREADABLE = ''HOLDER_FIELD_UNREADABLE''"
| "nesa_reason_text NID_HINT_NOT_COMPARED = ''NID_HINT_NOT_COMPARED''"
| "nesa_reason_text SEX_NOT_COMPARED = ''SEX_NOT_COMPARED''"
| "nesa_reason_text MALPRACTICE = ''MALPRACTICE''"
| "nesa_reason_text UNKNOWN_LEVEL_TYPE = ''UNKNOWN_LEVEL_TYPE''"
| "nesa_reason_text DIVISION_NOT_PASS = ''DIVISION_NOT_PASS''"

definition CODE_NOT_BOUND :: string where "CODE_NOT_BOUND = ''NESA_RECORD_NOT_BOUND''"
definition CODE_UNPUBLISHED :: string where "CODE_UNPUBLISHED = ''NESA_RESULTS_UNPUBLISHED''"
definition CODE_REVIEW :: string where "CODE_REVIEW = ''NESA_REVIEW_REQUIRED''"

definition NESA_NOT_BOUND_CITIZEN_MESSAGE :: string where
  "NESA_NOT_BOUND_CITIZEN_MESSAGE =
     ''This record does not match your identity. Check the examination index number and correct it if needed.''"

text \<open>The failure code, the fields and the reasons of the gate that the events carry.\<close>

record nesa_gate_note =
  gn_failureCode :: "string option"
  gn_binding :: "binding_fields option"
  gn_reviewReasons :: "nesa_review_reason list"

definition no_note :: nesa_gate_note where
  "no_note = \<lparr>gn_failureCode = None, gn_binding = None, gn_reviewReasons = []\<rparr>"

definition nesa_events ::
  "auth_draws \<Rightarrow> event_context \<Rightarrow> nesa_command \<Rightarrow> agency \<Rightarrow> education_result \<Rightarrow> string \<Rightarrow> string \<Rightarrow> nesa_gate_note \<Rightarrow> gate_event list" where
  "nesa_events dr ctx cmd a education req evaluatedAt gate =
     (let failureCode = (case gn_failureCode gate of Some c \<Rightarrow> Some c
            | None \<Rightarrow> if ed_meetsRequirement education then None else Some ''EDUCATION_REQUIREMENT_NOT_MET'') in
      [NESA_COMPLETED
         \<lparr>ne_envelope = envelope dr 1 ctx, ne_applicantId = nk_applicantId cmd, ne_applicationId = nk_applicationId cmd, ne_agency = a,
          ne_category = nk_category cmd, ne_nesaRequestId = req,
          ne_eligibilityResult = \<lparr>er_eligible = ed_meetsRequirement education, er_reason = ed_reason education,
            er_failureCode = failureCode, er_reviewReasons = gn_reviewReasons gate, er_evaluatedAt = evaluatedAt,
            er_educationCheck = (if ed_academicStatus education = PENDING then None else Some (ed_meetsRequirement education))\<rparr>,
          ne_academicStatus = ed_academicStatus education\<rparr>,
       GATE_AUDIT
         \<lparr>ga_envelope = envelope dr 2 ctx, ga_entityId = nk_applicantId cmd,
          ga_action =
            (if gn_failureCode gate = Some CODE_NOT_BOUND then ''NESA_RECORD_NOT_BOUND''
             else if gn_failureCode gate = Some CODE_UNPUBLISHED then ''NESA_RESULTS_UNPUBLISHED''
             else if gn_failureCode gate = Some CODE_REVIEW then ''NESA_REVIEW_REQUIRED''
             else if ed_meetsRequirement education then ''NESA_EDUCATION_PASSED'' else ''NESA_EDUCATION_FAILED''),
          ga_agency = a,
          ga_metadata = [(''category'', JStr (category_text (nk_category cmd))),
            (''academicStatus'', JStr (eligibility_text (ed_academicStatus education))),
            (''requiredMinLevel'', JStr (level_text (ed_requiredMinLevel education))),
            (''evaluatedLevel'', JStr (level_text (ed_evaluatedLevel education))),
            (''meetsRequirement'', JBool (ed_meetsRequirement education)), (''nesaRequestId'', JStr req),
            (''reason'', JStr (ed_reason education))] @
            (case gn_binding gate of None \<Rightarrow> [] | Some b \<Rightarrow> [(''binding'', binding_json b)]) @
            (if gn_reviewReasons gate = [] then []
             else [(''reviewReasons'', JArr (map (JStr \<circ> nesa_reason_text) (gn_reviewReasons gate)))])\<rparr>])"

definition unfinished :: "application_category \<Rightarrow> eligibility_status \<Rightarrow> string \<Rightarrow> string \<Rightarrow> education_result" where
  "unfinished cat status reason evaluatedAt =
     \<lparr>ed_academicStatus = status, ed_meetsRequirement = False, ed_reason = reason,
      ed_requiredMinLevel = minLevel (EDUCATION_REQUIREMENTS cat), ed_evaluatedLevel = minLevel (EDUCATION_REQUIREMENTS cat),
      ed_evaluationDate = evaluatedAt\<rparr>"

definition verify_nesa ::
  "gate_env \<Rightarrow> auth_draws \<Rightarrow> nesa_command \<Rightarrow> 'ev identity_store \<Rightarrow> gate_event list \<times> (gate_error + nesa_outcome)" where
  "verify_nesa env dr cmd s =
     (case findBindingSubjectById env (nk_applicantId cmd) s of
        None \<Rightarrow> ([], Inl Gate_read)
      | Some None \<Rightarrow> ([], Inr NESA_APPLICANT_NOT_FOUND)
      | Some (Some (identity, status)) \<Rightarrow>
          if status \<noteq> IDENTITY_VERIFIED then ([], Inr (NESA_IDENTITY_NOT_VERIFIED status))
          else if \<not> nesaVerificationRequired (EDUCATION_REQUIREMENTS (nk_category cmd)) then ([], Inr NESA_NOT_APPLICABLE)
          else
            (case (ge_nesa env (nk_nesaIndexNumber cmd), agencyForCategory (nk_category cmd)) of
               (None, _) \<Rightarrow> ([], Inl Registry_unavailable)
             | (_, None) \<Rightarrow> ([], Inl Unknown_category)
             | (Some lookup, Some a) \<Rightarrow>
                 let asOf = ge_print env (ge_clock env); ctx = gate_context dr (nk_context cmd); cat = nk_category cmd in
                 (case lookup of
                    NESA_NOT_FOUND req \<Rightarrow>
                      announce_then env
                        (nesa_events dr ctx cmd a
                           (unfinished cat INELIGIBLE ''No NESA A-Level record was found for the supplied examination index.'' asOf)
                           req asOf no_note)
                        (NESA_RECORD_NOT_FOUND req)
                  | NESA_FOUND req results \<Rightarrow>
                      (case decideNesaGate (ge_names env) identity results of
                         NESA_NOT_BOUND binding \<Rightarrow>
                           announce_then env
                             (nesa_events dr ctx cmd a (unfinished cat PENDING NESA_NOT_BOUND_CITIZEN_MESSAGE asOf) req asOf
                                \<lparr>gn_failureCode = Some CODE_NOT_BOUND, gn_binding = Some (br_fields binding), gn_reviewReasons = []\<rparr>)
                             (NESA_RECORD_NOT_BOUND req (br_fields binding))
                       | NESA_UNPUBLISHED binding \<Rightarrow>
                           announce_then env
                             (nesa_events dr ctx cmd a
                                (unfinished cat PENDING ''NESA results for this index are not yet published; the check will be repeated.'' asOf)
                                req asOf
                                \<lparr>gn_failureCode = Some CODE_UNPUBLISHED, gn_binding = Some (br_fields binding), gn_reviewReasons = []\<rparr>)
                             (NESA_RESULTS_PENDING req)
                       | NESA_REVIEW binding reasons \<Rightarrow>
                           announce_then env
                             (nesa_events dr ctx cmd a
                                (unfinished cat PENDING
                                   ''The NESA record needs a review by an officer before the academic check can complete.'' asOf)
                                req asOf
                                \<lparr>gn_failureCode = Some CODE_REVIEW, gn_binding = Some (br_fields binding), gn_reviewReasons = reasons\<rparr>)
                             (NESA_REVIEW_REQUIRED req reasons (br_fields binding))
                       | NESA_EVALUATE binding facts \<Rightarrow>
                           (case pinned_for env (Some (nk_applicationId cmd)) cat of
                              None \<Rightarrow> ([], Inl Gate_read)
                            | Some pinned \<Rightarrow>
                                let evaluated = evaluateNesaEducation (ge_fraction env) cat facts asOf;
                                    education = applyPolicyV2Education (ge_date env) evaluated pinned
                                      \<lparr>qe_level = ed_evaluatedLevel evaluated, qe_field = None,
                                       qe_sciencePercent = ef_percentageScore facts, qe_dateOfBirth = if_dateOfBirth identity\<rparr> in
                                announce_then env
                                  (nesa_events dr ctx cmd a education req asOf
                                     \<lparr>gn_failureCode = None, gn_binding = Some (br_fields binding), gn_reviewReasons = []\<rparr>)
                                  (NESA_EVALUATED a education req))))))"


subsection \<open>The academic gate, degree path\<close>

record hec_command =
  hk_applicantId :: uuid
  hk_applicationId :: uuid
  hk_category :: application_category
  hk_hecRegistrationNumber :: string
  hk_context :: "event_context option"

datatype hec_outcome =
    HEC_EVALUATED agency eligibility_status hec_education_result string
  | HEC_APPLICANT_NOT_FOUND
  | HEC_IDENTITY_NOT_VERIFIED identity_status
  | G2G_SUBJECT_UNAVAILABLE
  | HEC_NOT_APPLICABLE
  | DEGREE_NOT_FOUND string
  | DEGREE_HOLDER_MISMATCH string

definition json_or_null :: "('a \<Rightarrow> json) \<Rightarrow> 'a option \<Rightarrow> json" where
  "json_or_null f x = (case x of None \<Rightarrow> JNull | Some v \<Rightarrow> f v)"

definition hec_events ::
  "auth_draws \<Rightarrow> event_context \<Rightarrow> hec_command \<Rightarrow> agency \<Rightarrow> bool \<Rightarrow> 'a education_result_scheme \<Rightarrow> string \<Rightarrow> string \<Rightarrow> string \<Rightarrow>
    hec_payload option \<Rightarrow> gate_event list" where
  "hec_events dr ctx cmd a degreeVerified education req evaluatedAt action payload =
     [HEC_COMPLETED
        \<lparr>hc_envelope = envelope dr 1 ctx, hc_applicantId = hk_applicantId cmd, hc_applicationId = hk_applicationId cmd, hc_agency = a,
         hc_category = hk_category cmd, hc_hecRequestId = req, hc_degreeVerified = degreeVerified,
         hc_institutionName = map_option hp_institutionName payload, hc_degreeTitle = map_option hp_degreeTitle payload,
         hc_graduationYear = map_option hp_graduationYear payload, hc_specialistField = Option.bind payload hp_specialistField,
         hc_eligibilityResult = \<lparr>er_eligible = ed_meetsRequirement education, er_reason = ed_reason education,
           er_failureCode = (if ed_meetsRequirement education then None else Some ''EDUCATION_REQUIREMENT_NOT_MET''),
           er_reviewReasons = [], er_evaluatedAt = evaluatedAt, er_educationCheck = Some (ed_meetsRequirement education)\<rparr>,
         hc_academicStatus = ed_academicStatus education\<rparr>,
      GATE_AUDIT
        \<lparr>ga_envelope = envelope dr 2 ctx, ga_entityId = hk_applicantId cmd, ga_action = action, ga_agency = a,
         ga_metadata = [(''category'', JStr (category_text (hk_category cmd))),
           (''academicStatus'', JStr (eligibility_text (ed_academicStatus education))),
           (''requiredMinLevel'', JStr (level_text (ed_requiredMinLevel education))),
           (''evaluatedLevel'', JStr (level_text (ed_evaluatedLevel education))),
           (''meetsRequirement'', JBool (ed_meetsRequirement education)), (''degreeVerified'', JBool degreeVerified),
           (''institutionName'', json_or_null JStr (map_option hp_institutionName payload)),
           (''specialistField'', json_or_null JStr (Option.bind payload hp_specialistField)),
           (''hecRequestId'', JStr req), (''reason'', JStr (ed_reason education))]\<rparr>]"

text \<open>The date of birth is read in a transaction of its own, which finds the store \<open>later\<close>.\<close>

definition verify_hec ::
  "gate_env \<Rightarrow> auth_draws \<Rightarrow> hec_command \<Rightarrow> 'ev identity_store \<Rightarrow> 'ev identity_store \<Rightarrow> gate_event list \<times> (gate_error + hec_outcome)" where
  "verify_hec env dr cmd s later =
     (case findG2GSubjectById env (hk_applicantId cmd) s of
        None \<Rightarrow> ([], Inl Gate_read)
      | Some None \<Rightarrow> ([], Inr HEC_APPLICANT_NOT_FOUND)
      | Some (Some (subject, status)) \<Rightarrow>
          if status \<noteq> IDENTITY_VERIFIED then ([], Inr (HEC_IDENTITY_NOT_VERIFIED status))
          else
            (case subject of
               None \<Rightarrow> ([], Inr G2G_SUBJECT_UNAVAILABLE)
             | Some h \<Rightarrow>
                 if \<not> hecVerificationRequired (EDUCATION_REQUIREMENTS (hk_category cmd)) then ([], Inr HEC_NOT_APPLICABLE)
                 else
                   (case (ge_hec env (hk_hecRegistrationNumber cmd) h, agencyForCategory (hk_category cmd)) of
                      (None, _) \<Rightarrow> ([], Inl Registry_unavailable)
                    | (_, None) \<Rightarrow> ([], Inl Unknown_category)
                    | (Some lookup, Some a) \<Rightarrow>
                        let asOf = ge_print env (ge_clock env); ctx = gate_context dr (hk_context cmd); cat = hk_category cmd in
                        (case lookup of
                           HEC_HOLDER_MISMATCH req \<Rightarrow>
                             announce_then env
                               (hec_events dr ctx cmd a False
                                  (unfinished cat INELIGIBLE ''The supplied degree registration is registered to a different citizen.'' asOf)
                                  req asOf ''HEC_HOLDER_MISMATCH'' None)
                               (DEGREE_HOLDER_MISMATCH req)
                         | HEC_NOT_FOUND req \<Rightarrow>
                             announce_then env
                               (hec_events dr ctx cmd a False
                                  (unfinished cat INELIGIBLE ''No HEC degree record was found for the supplied registration number.'' asOf)
                                  req asOf ''HEC_DEGREE_NOT_FOUND'' None)
                               (DEGREE_NOT_FOUND req)
                         | HEC_VERIFIED req payload \<Rightarrow>
                             (case pinned_for env (Some (hk_applicationId cmd)) cat of
                                None \<Rightarrow> ([], Inl Gate_read)
                              | Some pinned \<Rightarrow>
                                  (case (if pinned = None then Some None else findApplicantById env (hk_applicantId cmd) later) of
                                     None \<Rightarrow> ([], Inl Gate_read)
                                   | Some holder \<Rightarrow>
                                       let evaluated = evaluateHecEducation cat payload asOf;
                                           field = (case hp_specialistField payload of None \<Rightarrow> None
                                             | Some f \<Rightarrow> find (\<lambda>x. field_text x = f) SPECIALIST_FIELDS);
                                           education =
                                             (if pinned \<noteq> None \<and> holder = None
                                              then with_verdict PENDING False ''The applicant record could not be read; the check will be repeated.'' evaluated
                                              else
                                                (case holder of
                                                   None \<Rightarrow> evaluated
                                                 | Some (dob, _) \<Rightarrow>
                                                     applyPolicyV2Education (ge_date env) evaluated pinned
                                                       \<lparr>qe_level = ed_evaluatedLevel evaluated, qe_field = field,
                                                        qe_sciencePercent = None, qe_dateOfBirth = dob\<rparr>)) in
                                       announce_then env
                                         (hec_events dr ctx cmd a True education req asOf
                                            (if ed_meetsRequirement education then ''HEC_EDUCATION_PASSED'' else ''HEC_EDUCATION_FAILED'')
                                            (Some payload))
                                         (HEC_EVALUATED a (ed_academicStatus education) education req)))))))"

subsection \<open>What the gates promise\<close>


lemma publish_each_subset: "publish_each bus es = (sent, ok) \<Longrightarrow> set sent \<subseteq> set es \<and> (ok \<longrightarrow> sent = es)"
  by (induction es arbitrary: sent ok) (auto split: if_splits prod.splits)

lemma announced: "announce_then env es answer = (sent, ans) \<Longrightarrow> set sent \<subseteq> set es \<and> (ans = Inr answer \<and> sent = es \<or> ans = Inl Gate_bus)"
  using publish_each_subset [of "ge_bus env" es] by (auto simp: announce_then_def split: prod.splits if_splits)

text \<open>
  The age the gate computes is the number of birthdays reached: the anniversary it counts is on or
  before the reference day and the next one after it, in the order of the calendar.
\<close>

theorem age_counts_birthdays:
  "age_on (y, m, d) day = a \<longleftrightarrow>
     (y + a, m, d) \<le> (civil_year day, civil_month day, civil_day day) \<and>
     (civil_year day, civil_month day, civil_day day) < (y + a + 1, m, d)"
  by (auto simp: age_on_def Let_def less_eq_prod_def less_prod_def)

lemma evaluate_age_band:
  "evaluateAgeEligibility print_date cat dob asOf window = Some r \<Longrightarrow>
     ae_eligible r \<longleftrightarrow>
       (let c = (case window of Some w \<Rightarrow> w | None \<Rightarrow> AGE_CRITERIA cat) in minAge c \<le> ae_ageAtEvaluation r \<and> ae_ageAtEvaluation r \<le> maxAge c)"
  by (auto simp: evaluateAgeEligibility_def Let_def split: option.splits)

lemma nesa_reasons_Nil:
  assumes "nesa_reasons b results = []" and "br_outcome b \<noteq> NOT_BOUND" and "b = bindCredential lib identity (nesa_claim results) [SEX, NATIONAL_ID_HINT]"
  shows "br_outcome b = BOUND \<and> \<not> nr_malpractice results \<and> nr_division results = ''PASS'' \<and> nr_qualificationLevel results \<noteq> None"
proof -
  have rest: "\<not> nr_malpractice results" "nr_division results = ''PASS''" "nr_qualificationLevel results \<noteq> None"
    using assms(1) by (auto simp: nesa_reasons_def PASSING_DIVISIONS_def split: if_splits)
  have "br_outcome b \<noteq> REVIEW"
  proof
    assume review: "br_outcome b = REVIEW"
    then have clean: "br_nameMatch b \<noteq> NAME_PARTIAL" "bf_nationalIdHint (br_fields b) \<noteq> NOT_COMPARED" "bf_sex (br_fields b) \<noteq> NOT_COMPARED"
        "UNREADABLE \<notin> {bf_name (br_fields b), bf_dateOfBirth (br_fields b), bf_sex (br_fields b), bf_nationalIdHint (br_fields b)}"
      using assms(1) by (auto simp: nesa_reasons_def split: if_splits)
    have "bf_name (br_fields b) = NAME_FIELD (br_nameMatch b)" by (simp add: assms(3) bindCredential_def Let_def)
    then have "bf_name (br_fields b) \<noteq> FIELD_PARTIAL" using clean(1) by (cases "br_nameMatch b") simp_all
    moreover have "bf_dateOfBirth (br_fields b) \<noteq> FIELD_PARTIAL" "bf_sex (br_fields b) \<noteq> FIELD_PARTIAL"
        "bf_nationalIdHint (br_fields b) \<noteq> FIELD_PARTIAL"
      by (simp_all add: assms(3) bindCredential_def Let_def compareField_cases)
    ultimately show False using review clean by (auto simp: assms(3) bindCredential_def Let_def split: if_splits)
  qed
  then have "br_outcome b = BOUND" using assms(2) by (cases "br_outcome b") simp_all
  with rest show ?thesis by blast
qed

lemma evaluated_is_bound:
  assumes "decideNesaGate lib identity results = NESA_EVALUATE b facts"
  shows "same_person lib identity (nesa_claim results) \<and> stated SEX identity (nesa_claim results) \<and>
    stated NATIONAL_ID_HINT identity (nesa_claim results) \<and> nr_published results \<and> \<not> nr_malpractice results \<and>
    nr_division results = ''PASS'' \<and> nr_qualificationLevel results = Some (ef_qualificationLevel facts)"
proof -
  have b: "b = bindCredential lib identity (nesa_claim results) [SEX, NATIONAL_ID_HINT]" "br_outcome b \<noteq> NOT_BOUND"
      "nr_published results" "nesa_reasons b results = []" "nr_qualificationLevel results = Some (ef_qualificationLevel facts)"
    using assms by (auto simp: decideNesaGate_def Let_def split: if_splits list.splits option.splits)
  from nesa_reasons_Nil [OF b(4) b(2) b(1)] have "br_outcome b = BOUND" "\<not> nr_malpractice results" "nr_division results = ''PASS''" by simp_all
  then show ?thesis using bound_iff [of lib identity "nesa_claim results" "[SEX, NATIONAL_ID_HINT]"] b(1,3,5)
    by (auto split: if_splits)
qed


lemma normaliseSex_printed: "normaliseSex (gender_text g) = Some g"
proof -
  have "normaliseSex (gender_text MALE) = Some MALE" "normaliseSex (gender_text FEMALE) = Some FEMALE" by code_simp+
  then show ?thesis by (cases g) simp_all
qed

lemma nesa_events_status:
  "NESA_COMPLETED e \<in> set (nesa_events dr ctx cmd a education req stamp gate) \<Longrightarrow>
     ne_academicStatus e = ed_academicStatus education \<and> ne_applicationId e = nk_applicationId cmd \<and> ne_agency e = a"
  by (auto simp: nesa_events_def Let_def)

text \<open>The applicant whose row the gate read, verified at that time.\<close>

definition verified_subject :: "gate_env \<Rightarrow> uuid \<Rightarrow> 'ev identity_store \<Rightarrow> identity_facts \<Rightarrow> bool" where
  "verified_subject env who s identity \<longleftrightarrow> findBindingSubjectById env who s = Some (Some (identity, IDENTITY_VERIFIED))"

lemma nesa_verdict_cases:
  assumes "verify_nesa env dr cmd s = (sent, ans)" and "NESA_COMPLETED e \<in> set sent"
  obtains (absent) req where "ge_nesa env (nk_nesaIndexNumber cmd) = Some (NESA_NOT_FOUND req)" "ne_academicStatus e = INELIGIBLE"
  | (waiting) req results where "ge_nesa env (nk_nesaIndexNumber cmd) = Some (NESA_FOUND req results)" "ne_academicStatus e = PENDING"
  | (judged) identity req results b facts pinned where "verified_subject env (nk_applicantId cmd) s identity"
      "ge_nesa env (nk_nesaIndexNumber cmd) = Some (NESA_FOUND req results)"
      "decideNesaGate (ge_names env) identity results = NESA_EVALUATE b facts"
      "pinned_for env (Some (nk_applicationId cmd)) (nk_category cmd) = Some pinned"
      "ne_academicStatus e = ed_academicStatus (applyPolicyV2Education (ge_date env)
         (evaluateNesaEducation (ge_fraction env) (nk_category cmd) facts (ge_print env (ge_clock env))) pinned
         \<lparr>qe_level = NESA_QUALIFICATION_TO_EDUCATION_LEVEL (ef_qualificationLevel facts), qe_field = None,
          qe_sciencePercent = ef_percentageScore facts, qe_dateOfBirth = if_dateOfBirth identity\<rparr>)"
proof -
  obtain identity where subject: "findBindingSubjectById env (nk_applicantId cmd) s = Some (Some (identity, IDENTITY_VERIFIED))"
    using assms by (auto simp: verify_nesa_def split: option.splits prod.splits if_splits)
  obtain lookup a where found: "ge_nesa env (nk_nesaIndexNumber cmd) = Some lookup" "agencyForCategory (nk_category cmd) = Some a"
      "nesaVerificationRequired (EDUCATION_REQUIREMENTS (nk_category cmd))"
    using assms subject by (auto simp: verify_nesa_def split: option.splits if_splits)
  show thesis
  proof (cases lookup)
    case (NESA_NOT_FOUND req)
    have "ne_academicStatus e = INELIGIBLE"
      using assms found subject NESA_NOT_FOUND
      by (auto simp: verify_nesa_def Let_def unfinished_def dest!: announced nesa_events_status subsetD)
    then show thesis using absent found NESA_NOT_FOUND by blast
  next
    case (NESA_FOUND req results)
    show thesis
    proof (cases "decideNesaGate (ge_names env) identity results")
      case (NESA_EVALUATE b facts)
      obtain pinned where pinned: "pinned_for env (Some (nk_applicationId cmd)) (nk_category cmd) = Some pinned"
        using assms found subject NESA_FOUND NESA_EVALUATE by (auto simp: verify_nesa_def Let_def split: option.splits)
      have "ed_evaluatedLevel (evaluateNesaEducation (ge_fraction env) (nk_category cmd) facts (ge_print env (ge_clock env))) =
          NESA_QUALIFICATION_TO_EDUCATION_LEVEL (ef_qualificationLevel facts)"
        by (simp add: evaluateNesaEducation_def Let_def)
      then show thesis
        using assms found subject NESA_FOUND NESA_EVALUATE pinned
        by (intro judged [of identity req results b facts pinned])
           (auto simp: verify_nesa_def verified_subject_def Let_def dest!: announced nesa_events_status subsetD)
    next
      case (NESA_NOT_BOUND b)
      have "ne_academicStatus e = PENDING"
        using assms found subject NESA_FOUND NESA_NOT_BOUND
        by (auto simp: verify_nesa_def Let_def unfinished_def dest!: announced nesa_events_status subsetD)
      then show thesis using waiting found NESA_FOUND by blast
    next
      case (NESA_UNPUBLISHED b)
      have "ne_academicStatus e = PENDING"
        using assms found subject NESA_FOUND NESA_UNPUBLISHED
        by (auto simp: verify_nesa_def Let_def unfinished_def dest!: announced nesa_events_status subsetD)
      then show thesis using waiting found NESA_FOUND by blast
    next
      case (NESA_REVIEW b reasons)
      have "ne_academicStatus e = PENDING"
        using assms found subject NESA_FOUND NESA_REVIEW
        by (auto simp: verify_nesa_def Let_def unfinished_def dest!: announced nesa_events_status subsetD)
      then show thesis using waiting found NESA_FOUND by blast
    qed
  qed
qed

text \<open>
  An academic verdict on A-Level results, for or against, is given only on the applicant's own record:
  unless the registry has no such index, the identity was verified, the holder's name has the very tokens
  of the applicant's, sex and National ID hint are stated on both sides and agree, and the results are
  published, free of malpractice, passed, and of a known level; whatever else the registry answers, the
  verdict stays PENDING.
\<close>

text \<open>
  C29: An academic verdict on A-Level results, for or against, is given only on the applicant's
  own record: unless the registry has no such index, the identity was verified, the holder's
  name has the very tokens of the applicant's, sex and National ID hint are stated on both sides
  and agree, and the results are published, free of malpractice, passed, and of a known level;
  whatever else the registry answers, the verdict stays PENDING.
\<close>

theorem no_borrowed_results:
  assumes "verify_nesa env dr cmd s = (sent, ans)" and "NESA_COMPLETED e \<in> set sent" and "ne_academicStatus e \<noteq> PENDING"
    and "ge_nesa env (nk_nesaIndexNumber cmd) = Some (NESA_FOUND req results)"
  shows "\<exists>identity. verified_subject env (nk_applicantId cmd) s identity \<and>
    mset (nameTokens (ge_names env) (if_fullName identity)) = mset (nameTokens (ge_names env) (nh_name (nr_holder results))) \<and>
    normaliseSex (the (if_sex identity)) = nh_sex (nr_holder results) \<and> nh_sex (nr_holder results) \<noteq> None \<and>
    Option.bind (if_nationalIdHint identity) parseNationalIdHint = Option.bind (nh_nationalIdHint (nr_holder results)) parseNationalIdHint \<and>
    Option.bind (if_nationalIdHint identity) parseNationalIdHint \<noteq> None \<and>
    nr_published results \<and> \<not> nr_malpractice results \<and> nr_division results = ''PASS'' \<and> nr_qualificationLevel results \<noteq> None"
  using assms(1,2)
proof (cases rule: nesa_verdict_cases)
  case (judged identity req' results' b facts pinned)
  have same: "results' = results" using judged(2) assms(4) by simp
  note bound = evaluated_is_bound [OF judged(3) [unfolded same]]
  show ?thesis
    using bound judged(1) by (intro exI [of _ identity]) (auto simp: same_person_def present_def nesa_claim_def normaliseSex_printed split: option.splits)
qed (use assms in auto)

text \<open>
  Results the registry has but has not published are not asked for again: the call ends with an answer,
  not a fault, so the consumer commits the offset, and what the citizen is told, that the check will be
  repeated, is left to an event nobody sends.
\<close>

text \<open>
  Results the registry has but has not published are not asked for again: the call ends
  with an answer, not a fault, so the consumer commits the offset, and what the citizen is told,
  that the check will be repeated, is left to an event nobody sends.
\<close>

theorem unpublished_results_end_the_call:
  assumes "verified_subject env (nk_applicantId cmd) s identity"
    and "nesaVerificationRequired (EDUCATION_REQUIREMENTS (nk_category cmd))" and "agencyForCategory (nk_category cmd) = Some a"
    and "ge_nesa env (nk_nesaIndexNumber cmd) = Some (NESA_FOUND req results)" and "\<not> nr_published results"
    and "br_outcome (bindCredential (ge_names env) identity (nesa_claim results) [SEX, NATIONAL_ID_HINT]) \<noteq> NOT_BOUND"
    and "ge_bus env = (\<lambda>_. True)"
  shows "\<exists>e audit. verify_nesa env dr cmd s = ([NESA_COMPLETED e, GATE_AUDIT audit], Inr (NESA_RESULTS_PENDING req)) \<and>
    ne_academicStatus e = PENDING \<and> er_educationCheck (ne_eligibilityResult e) = None \<and>
    er_reason (ne_eligibilityResult e) = ''NESA results for this index are not yet published; the check will be repeated.''"
proof -
  obtain b where "decideNesaGate (ge_names env) identity results = NESA_UNPUBLISHED b"
    using assms(5,6) by (simp add: decideNesaGate_def Let_def)
  with assms(1-4,7) show ?thesis
    by (simp add: verify_nesa_def verified_subject_def announce_then_def nesa_events_def unfinished_def Let_def)
qed

subsection \<open>At concrete inputs\<close>

definition gate_columns :: citizen_columns where
  "gate_columns =
     \<lparr>cz_encrypted_full_name = ''NSANZIMANA Jackson'', cz_encrypted_date_of_birth = ''2001-03-09'',
      cz_encrypted_home_district = ''Gasabo'', cz_encrypted_home_province = ''Kigali'',
      cz_encrypted_nida_lookup_hash = Some ''00'', cz_encrypted_national_id_hint = Some ''12001234'',
      cz_encrypted_phone_number = None, cz_gender = MALE, cz_registration_channel = WEB,
      cz_identity_status = IDENTITY_VERIFIED, cz_nida_verification_request_id = None, cz_nida_verified_at = None,
      cz_nida_match_confidence = None, cz_phone_number_hash = None, cz_phone_verified_at = None,
      cz_biometric_session_id = None, cz_biometric_passed_liveness = False, cz_biometric_face_match_confidence = None,
      cz_deleted_at = None, cz_created_at = 0, cz_updated_at = 0\<rparr>"

definition gate_store :: "string identity_store" where
  "gate_store =
     \<lparr>is_db = sample_db empty_schema, is_citizens = [(''citizen'', gate_columns)], is_challenges = [], is_sessions = [],
      is_attempts = (\<lambda>_. None)\<rparr>"

definition gate_draws :: auth_draws where
  "gate_draws = \<lparr>dr_ids = (\<lambda>_. ''id''), dr_stamps = (\<lambda>_. ''now''), dr_code = 42, dr_salt = [], dr_token = []\<rparr>"

definition gate_results :: "bool \<Rightarrow> nesa_results" where
  "gate_results published =
     \<lparr>nr_holder = \<lparr>nh_name = ''jackson nsanzimana'', nh_sex = Some MALE, nh_nationalIdHint = Some ''1200********1234''\<rparr>,
      nr_published = published, nr_malpractice = False, nr_qualificationLevel = Some NESA_A2, nr_division = ''PASS'',
      nr_weightedPercent = None\<rparr>"

definition gate_sample :: "bool \<Rightarrow> gate_env" where
  "gate_sample published =
     \<lparr>ge_names = \<lparr>nfkd_upper = js_upper, is_letter = is_upper\<rparr>, ge_decrypt = Some, ge_date = (\<lambda>_. Some 0),
      ge_print = (\<lambda>_. ''now''), ge_fraction = (\<lambda>_. []), ge_clock = 1767225600000, ge_policy = None,
      ge_nesa = (\<lambda>_. Some (NESA_FOUND ''req'' (gate_results published))), ge_hec = (\<lambda>_ _. None), ge_bus = (\<lambda>_. True)\<rparr>"

definition gate_command :: nesa_command where
  "gate_command =
     \<lparr>nk_applicantId = ''citizen'', nk_applicationId = ''app'', nk_category = RESERVE_FORCE_ALEVEL,
      nk_nesaIndexNumber = ''index'', nk_context = None\<rparr>"

definition gate_identity :: identity_facts where
  "gate_identity =
     \<lparr>if_fullName = ''NSANZIMANA Jackson'', if_dateOfBirth = ''2001-03-09'', if_sex = Some ''MALE'', if_nationalIdHint = Some ''12001234''\<rparr>"

lemma gate_env_fields:
  "ge_nesa (gate_sample p) index = Some (NESA_FOUND ''req'' (gate_results p))" "ge_policy (gate_sample p) = None"
  "ge_bus (gate_sample p) = (\<lambda>_. True)"
  by (simp_all add: gate_sample_def)

lemma gate_subject: "verified_subject (gate_sample published) ''citizen'' gate_store gate_identity"
  by (simp add: gate_identity_def verified_subject_def findBindingSubjectById_def live_citizen_def citizen_of_def gate_store_def gate_columns_def
      gate_sample_def decrypt_nullable_def)

lemma sample_nesa_event:
  assumes "verify_nesa (gate_sample True) gate_draws gate_command gate_store = (sent, ans)"
  obtains e where "NESA_COMPLETED e \<in> set sent" "ne_academicStatus e = ELIGIBLE" "ne_applicationId e = ''app''" "ne_agency e = RDF"
proof -
  have "case decideNesaGate (ge_names (gate_sample True)) gate_identity (gate_results True) of
      NESA_EVALUATE _ facts \<Rightarrow> ef_qualificationLevel facts = NESA_A2 \<and> ef_percentageScore facts = None | _ \<Rightarrow> False"
    by code_simp
  then obtain b where gate: "decideNesaGate (ge_names (gate_sample True)) gate_identity (gate_results True) =
      NESA_EVALUATE b \<lparr>ef_qualificationLevel = NESA_A2, ef_percentageScore = None\<rparr>"
    by (auto split: nesa_gate_decision.splits)
  have "A_LEVEL_A2 \<in> set above_a2" by code_simp
  then have "\<exists>e. NESA_COMPLETED e \<in> set sent \<and> ne_academicStatus e = ELIGIBLE \<and> ne_applicationId e = ''app'' \<and> ne_agency e = RDF"
    using assms gate gate_subject [of True]
    by (auto simp: verify_nesa_def verified_subject_def gate_command_def gate_env_fields agencyForCategory_def CATEGORY_TO_AGENCY_def
        ENTRIES_def RDF_APPLICATION_CATEGORIES_def pinned_for_def applyPolicyV2Education_def announce_then_def nesa_events_def
        evaluateNesaEducation_def Let_def)
  then show thesis using that by blast
qed

theorem no_borrowed_results_witness:
  "\<exists>identity. verified_subject (gate_sample True) ''citizen'' gate_store identity \<and>
     mset (nameTokens (ge_names (gate_sample True)) (if_fullName identity)) =
       mset (nameTokens (ge_names (gate_sample True)) ''jackson nsanzimana'')"
proof -
  obtain sent ans where run: "verify_nesa (gate_sample True) gate_draws gate_command gate_store = (sent, ans)" by fastforce
  obtain e where e: "NESA_COMPLETED e \<in> set sent" "ne_academicStatus e \<noteq> PENDING"
    using sample_nesa_event [OF run] by (metis eligibility_status.distinct)
  show ?thesis
    using no_borrowed_results [OF run e(1,2), of "''req''" "gate_results True"]
    by (auto simp: gate_command_def gate_env_fields gate_results_def)
qed

theorem unpublished_results_end_the_call_witness:
  "snd (verify_nesa (gate_sample False) gate_draws gate_command gate_store) = Inr (NESA_RESULTS_PENDING ''req'')"
proof -
  have bound: "br_outcome (bindCredential (ge_names (gate_sample False)) gate_identity (nesa_claim (gate_results False)) [SEX, NATIONAL_ID_HINT]) \<noteq> NOT_BOUND"
    by code_simp
  show ?thesis
    using unpublished_results_end_the_call [OF _ _ _ _ _ bound, of gate_command gate_store RDF "''req''" gate_draws] gate_subject [of False]
    by (auto simp: gate_command_def gate_results_def gate_env_fields agencyForCategory_def CATEGORY_TO_AGENCY_def
        ENTRIES_def RDF_APPLICATION_CATEGORIES_def)
qed

end
