(* ===== verification/Clearance.thy ===== *)
theory Clearance
  imports EligibilityService
begin

text \<open>
  \<open>services/background-vetting-service\<close>: the criminal gate. The records flag of the investigation bureau,
  the clearance certificate the citizen names, the append-only record of what was concluded
  (\<open>rls/0040\<close>, \<open>rls/0044\<close>), and the escalation of a certificate the registry never answered for.
\<close>

subsection \<open>The production fence on registry answers (\<open>shared-config/src/sandbox-fence.ts\<close>)\<close>

datatype usrp_environment = ENV_DEVELOPMENT | ENV_SANDBOX | ENV_PRODUCTION

fun environment_of :: "string \<Rightarrow> usrp_environment option" where
  "environment_of raw =
     (if raw = ''development'' then Some ENV_DEVELOPMENT
      else if raw = ''sandbox'' then Some ENV_SANDBOX
      else if raw = ''production'' then Some ENV_PRODUCTION
      else None)"

text \<open>\<open>None\<close> is the thrown \<open>EnvValidationError\<close>.\<close>

definition resolveUsrpEnvironment :: "(string \<Rightarrow> string option) \<Rightarrow> usrp_environment option" where
  "resolveUsrpEnvironment source =
     (let text = (\<lambda>k. js_lower (js_trim (case source k of Some v \<Rightarrow> v | None \<Rightarrow> [])));
          nodeProduction = (text ''NODE_ENV'' = ''production'');
          raw = text ''USRP_ENVIRONMENT'' in
      if raw = [] then Some (if nodeProduction then ENV_PRODUCTION else ENV_DEVELOPMENT)
      else
        (case environment_of raw of
           None \<Rightarrow> None
         | Some e \<Rightarrow>
             if e \<noteq> ENV_DEVELOPMENT \<and> \<not> nodeProduction then None
             else if e = ENV_DEVELOPMENT \<and> nodeProduction then None
             else Some e))"

definition isForbiddenSandboxResponse :: "bool \<Rightarrow> (string \<Rightarrow> string option) \<Rightarrow> bool" where
  "isForbiddenSandboxResponse stamped source =
     (if \<not> stamped then False
      else (case resolveUsrpEnvironment source of Some e \<Rightarrow> e = ENV_PRODUCTION | None \<Rightarrow> True))"

subsection \<open>The certificate number\<close>

definition normaliseClearanceNumber :: "string \<Rightarrow> string" where
  "normaliseClearanceNumber raw = js_upper (filter (\<lambda>c. \<not> is_js_space c \<and> c \<noteq> CHR ''-'') (js_trim raw))"

definition CLEARANCE_NUMBER_PATTERN :: "string \<Rightarrow> bool" where
  "CLEARANCE_NUMBER_PATTERN s \<longleftrightarrow>
     length s = 17 \<and> is_upper (hd s) \<and> list_all is_digit (take 12 (tl s)) \<and>
     list_all (\<lambda>c. is_upper c \<or> is_digit c) (drop 13 s)"

definition parseClearanceNumber :: "string \<Rightarrow> string option" where
  "parseClearanceNumber raw =
     (let n = normaliseClearanceNumber raw in if CLEARANCE_NUMBER_PATTERN n then Some n else None)"

subsection \<open>Certificates and the registry's answer\<close>

record certificate_in_force =
  cf_type :: string
  cf_issuedOn :: string
  cf_holderName :: string
  cf_holderDob :: string
  cf_reference :: string

datatype clearance_certificate = Certificate_in_force certificate_in_force | Certificate_not_in_force string

datatype clearance_lookup = Certificate_found clearance_certificate string | Certificate_unknown string

definition IREMBO_NOT_FOUND_CODE :: string where "IREMBO_NOT_FOUND_CODE = ''3103''"

datatype certificate_mapping = Mapped_FOUND clearance_certificate | Mapped_NOT_FOUND | Mapped_FAULT string

definition isoFromDdMmYyyy :: "json option \<Rightarrow> string option" where
  "isoFromDdMmYyyy v =
     (case v of
        Some (JStr s) \<Rightarrow>
          if length s = 10 \<and> digits_only 2 (take 2 s) \<and> s ! 2 = CHR ''/'' \<and> digits_only 2 (take 2 (drop 3 s)) \<and>
             s ! 5 = CHR ''/'' \<and> digits_only 4 (drop 6 s)
          then
            (let d = digits_val (take 2 s); m = digits_val (take 2 (drop 3 s)); y = digits_val (drop 6 s) in
             if real_date y m d then Some (four_digits y @ ''-'' @ two_digits m @ ''-'' @ two_digits d) else None)
          else None
      | _ \<Rightarrow> None)"

definition usable_type :: "string \<Rightarrow> bool" where
  "usable_type s \<longleftrightarrow> s \<noteq> [] \<and> list_all (\<lambda>c. is_upper c \<or> is_digit c \<or> c = CHR ''_'') s"

fun is_object :: "json \<Rightarrow> bool" where
  "is_object (JObj _) = True" | "is_object _ = False"

fun string_of :: "json option \<Rightarrow> string option" where
  "string_of (Some (JStr s)) = Some s" | "string_of _ = None"

fun bool_of :: "json option \<Rightarrow> bool option" where
  "bool_of (Some (JBool b)) = Some b" | "bool_of _ = None"

definition mapIremboCertificate :: "json \<Rightarrow> certificate_mapping" where
  "mapIremboCertificate body =
     (if \<not> is_object body then Mapped_FAULT ''body is not an object''
      else if bool_of (json_get body ''status'') = Some False then
        (if string_of (json_get body ''responseCode'') = Some IREMBO_NOT_FOUND_CODE \<and> json_get body ''data'' = Some JNull
         then Mapped_NOT_FOUND else Mapped_FAULT ''registry answered status:false'')
      else if bool_of (json_get body ''status'') \<noteq> Some True then Mapped_FAULT ''status is not a boolean''
      else
        (case json_get body ''data'' of
           Some (JObj kvs) \<Rightarrow>
             (let data = map_of kvs; issuedOn = isoFromDdMmYyyy (data ''ISSUED_ON''); dob = isoFromDdMmYyyy (data ''DATE_OF_BIRTH'') in
              case (bool_of (data ''STATUS''), string_of (data ''APPLICATION_CODE'')) of
                (None, _) \<Rightarrow> Mapped_FAULT ''STATUS is not a boolean''
              | (Some _, None) \<Rightarrow> Mapped_FAULT ''APPLICATION_CODE is unusable''
              | (Some inForce, Some type) \<Rightarrow>
                  if \<not> usable_type type then Mapped_FAULT ''APPLICATION_CODE is unusable''
                  else if \<not> inForce then Mapped_FOUND (Certificate_not_in_force type)
                  else
                    (case string_of (data ''NAME'') of
                       None \<Rightarrow> Mapped_FAULT ''NAME is unusable''
                     | Some name \<Rightarrow>
                         if js_trim name = [] then Mapped_FAULT ''NAME is unusable''
                         else
                           (case (string_of (data ''REFERENCE_NUMBER''), issuedOn, dob) of
                              (None, _, _) \<Rightarrow> Mapped_FAULT ''REFERENCE_NUMBER is unusable''
                            | (Some _, None, _) \<Rightarrow> Mapped_FAULT ''ISSUED_ON is not a date''
                            | (Some _, Some _, None) \<Rightarrow> Mapped_FAULT ''DATE_OF_BIRTH is not a date''
                            | (Some reference, Some issued, Some born) \<Rightarrow>
                                Mapped_FOUND (Certificate_in_force
                                  \<lparr>cf_type = type, cf_issuedOn = issued, cf_holderName = name, cf_holderDob = born,
                                   cf_reference = reference\<rparr>))))
         | _ \<Rightarrow> Mapped_FAULT ''data is not an object''))"

text \<open>A transport that throws answers \<open>None\<close>; a body \<open>JSON.parse\<close> refuses is \<open>None\<close> too.\<close>

record registry_response =
  rs_status :: int
  rs_stamped :: bool
  rs_body :: "json option"

definition ok_status :: "int \<Rightarrow> bool" where
  "ok_status n \<longleftrightarrow> 200 \<le> n \<and> n < 300"

text \<open>\<open>IremboCertificateGateway.verify\<close>; \<open>None\<close> is a thrown \<open>ClearanceRegistryUnavailableError\<close>.\<close>

definition irembo_verify :: "(string \<Rightarrow> string option) \<Rightarrow> string \<Rightarrow> registry_response option \<Rightarrow> clearance_lookup option" where
  "irembo_verify source requestId response =
     (case response of
        None \<Rightarrow> None
      | Some r \<Rightarrow>
          if isForbiddenSandboxResponse (rs_stamped r) source then None
          else if \<not> ok_status (rs_status r) then None
          else
            (case rs_body r of
               None \<Rightarrow> None
             | Some body \<Rightarrow>
                 (case mapIremboCertificate body of
                    Mapped_FAULT _ \<Rightarrow> None
                  | Mapped_NOT_FOUND \<Rightarrow> Some (Certificate_unknown requestId)
                  | Mapped_FOUND c \<Rightarrow> Some (Certificate_found c requestId))))"

subsection \<open>The ordered checks (\<open>domain/clearance-rules.ts\<close>)\<close>

record clearance_policy =
  allowedTypes :: "string list"
  noRecordTypes :: "string list"
  validityDays :: int

datatype clearance_failure =
    CERTIFICATE_NUMBER_MALFORMED | CERTIFICATE_NOT_FOUND | CERTIFICATE_NOT_VALID | CERTIFICATE_WRONG_TYPE
  | CERTIFICATE_EXPIRED | CERTIFICATE_NOT_BOUND

text \<open>Certificate type, issue date and binding; each may be null, as it is in an escalation.\<close>

record certificate_facts =
  ct_certificateType :: "string option"
  ct_issuedOn :: "string option"
  ct_binding :: "binding_fields option"

datatype clearance_decision =
    Decided_CLEARED certificate_facts
  | Decided_REVIEW "clearance_review_reason list" certificate_facts
  | Correction_needed clearance_failure certificate_facts

definition no_facts :: certificate_facts where
  "no_facts = \<lparr>ct_certificateType = None, ct_issuedOn = None, ct_binding = None\<rparr>"

text \<open>A month or day out of range carries over, as \<open>Date.UTC\<close> carries it.\<close>

definition dayNumber :: "string \<Rightarrow> int option" where
  "dayNumber printed =
     (if length printed = 10 \<and> digits_only 4 (take 4 printed) \<and> printed ! 4 = CHR ''-'' \<and> digits_only 2 (take 2 (drop 5 printed)) \<and>
         printed ! 7 = CHR ''-'' \<and> digits_only 2 (drop 8 printed)
      then
        (let y = digits_val (take 4 printed); m = digits_val (take 2 (drop 5 printed)); d = digits_val (drop 8 printed) in
         Some (days_of_civil (utc_year y + (m - 1) div 12) ((m - 1) mod 12 + 1) d))
      else None)"

definition daysBetween :: "string \<Rightarrow> string \<Rightarrow> int option" where
  "daysBetween issuedOn referenceDate =
     (case (dayNumber issuedOn, dayNumber referenceDate) of (Some a, Some b) \<Rightarrow> Some (b - a) | _ \<Rightarrow> None)"

definition certificate_claim :: "certificate_in_force \<Rightarrow> credential_claim" where
  "certificate_claim c =
     \<lparr>cc_holderName = cf_holderName c, cc_dateOfBirth = Some (cf_holderDob c), cc_sex = None, cc_nationalIdHint = None\<rparr>"

definition review_reasons_of :: "binding_result \<Rightarrow> clearance_policy \<Rightarrow> string \<Rightarrow> clearance_review_reason list" where
  "review_reasons_of binding policy type =
     (if br_outcome binding = REVIEW
      then [if br_nameMatch binding = NAME_PARTIAL then IDENTITY_NAME_PARTIAL else IDENTITY_HOLDER_UNREADABLE] else []) @
     (if \<not> List.member (noRecordTypes policy) type then [CLEARANCE_CONTENT_REVIEW] else [])"

definition decideClearance ::
  "name_library \<Rightarrow> clearance_lookup \<Rightarrow> identity_facts \<Rightarrow> clearance_policy \<Rightarrow> string \<Rightarrow> clearance_decision" where
  "decideClearance lib lookup identity policy referenceDate =
     (case lookup of
        Certificate_unknown _ \<Rightarrow> Correction_needed CERTIFICATE_NOT_FOUND no_facts
      | Certificate_found (Certificate_not_in_force _) _ \<Rightarrow> Correction_needed CERTIFICATE_NOT_VALID no_facts
      | Certificate_found (Certificate_in_force c) _ \<Rightarrow>
          (let binding = bindCredential lib identity (certificate_claim c) [DATE_OF_BIRTH];
               known = \<lparr>ct_certificateType = Some (cf_type c), ct_issuedOn = Some (cf_issuedOn c),
                        ct_binding = Some (br_fields binding)\<rparr> in
           if br_outcome binding = NOT_BOUND then Correction_needed CERTIFICATE_NOT_BOUND known
           else if \<not> List.member (allowedTypes policy) (cf_type c) then Correction_needed CERTIFICATE_WRONG_TYPE known
           else if (case daysBetween (cf_issuedOn c) referenceDate of
                      None \<Rightarrow> True | Some age \<Rightarrow> age < 0 \<or> age > validityDays policy)
           then Correction_needed CERTIFICATE_EXPIRED known
           else
             (let reasons = review_reasons_of binding policy (cf_type c) in
              if reasons \<noteq> [] then Decided_REVIEW reasons known else Decided_CLEARED known)))"

subsection \<open>The append-only record (\<open>rls/0040\<close>, \<open>rls/0044\<close>)\<close>

record verification_record =
  vf_agency :: agency
  vf_applicationId :: uuid
  vf_applicantId :: uuid
  vf_referenceHmac :: string
  vf_referenceLast4 :: string
  vf_certificateType :: "string option"
  vf_issuedOn :: "string option"
  vf_outcome :: string
  vf_failureCode :: "string option"
  vf_reviewReasons :: "clearance_review_reason list"
  vf_binding :: "binding_fields option"
  vf_requestId :: "string option"
  vf_correlationId :: string

fun failure_code_text :: "clearance_failure \<Rightarrow> string" where
  "failure_code_text CERTIFICATE_NUMBER_MALFORMED = ''CERTIFICATE_NUMBER_MALFORMED''"
| "failure_code_text CERTIFICATE_NOT_FOUND = ''CERTIFICATE_NOT_FOUND''"
| "failure_code_text CERTIFICATE_NOT_VALID = ''CERTIFICATE_NOT_VALID''"
| "failure_code_text CERTIFICATE_WRONG_TYPE = ''CERTIFICATE_WRONG_TYPE''"
| "failure_code_text CERTIFICATE_EXPIRED = ''CERTIFICATE_EXPIRED''"
| "failure_code_text CERTIFICATE_NOT_BOUND = ''CERTIFICATE_NOT_BOUND''"

definition CLEARANCE_FAILURE_CODES :: "clearance_failure list" where
  "CLEARANCE_FAILURE_CODES =
     [CERTIFICATE_NUMBER_MALFORMED, CERTIFICATE_NOT_FOUND, CERTIFICATE_NOT_VALID, CERTIFICATE_WRONG_TYPE,
      CERTIFICATE_EXPIRED, CERTIFICATE_NOT_BOUND]"

text \<open>The check constraints of the table, in the order the columns are declared.\<close>

definition is_hex_lower :: "char \<Rightarrow> bool" where
  "is_hex_lower c \<longleftrightarrow> is_digit c \<or> (let n = of_char c :: nat in 97 \<le> n \<and> n \<le> 102)"

definition shape_check :: "string \<Rightarrow> string option \<Rightarrow> clearance_review_reason list \<Rightarrow> bool" where
  "shape_check verdict failure reasons \<longleftrightarrow>
     (if verdict = ''CLEARED'' then failure = None \<and> reasons = []
      else if verdict = ''REVIEW'' then failure = None \<and> reasons \<noteq> []
      else if verdict = ''CORRECTION_NEEDED'' then reasons = [] \<and> failure \<in> set (map (Some \<circ> failure_code_text) CLEARANCE_FAILURE_CODES)
      else if verdict = ''PENDING'' then reasons = [] \<and> failure = Some ''REGISTRY_UNAVAILABLE''
      else False)"

definition clearance_row_ok :: "verification_record \<Rightarrow> bool" where
  "clearance_row_ok v \<longleftrightarrow>
     length (vf_referenceHmac v) = 64 \<and> list_all is_hex_lower (vf_referenceHmac v) \<and>
     length (vf_referenceLast4 v) = 4 \<and> list_all (\<lambda>c. is_upper c \<or> is_digit c \<or> c = CHR ''*'') (vf_referenceLast4 v) \<and>
     (case vf_certificateType v of None \<Rightarrow> True | Some t \<Rightarrow> usable_type t \<and> length t \<le> 64) \<and>
     shape_check (vf_outcome v) (vf_failureCode v) (vf_reviewReasons v)"

definition traceable :: "nat \<Rightarrow> string \<Rightarrow> string option" where
  "traceable most s =
     (if s \<noteq> [] \<and> length s \<le> most \<and>
         list_all (\<lambda>c. is_upper c \<or> is_digit c \<or> (let n = of_char c :: nat in 97 \<le> n \<and> n \<le> 122) \<or> c \<in> set ''._:-'') s
      then Some s else None)"

definition same_conclusion :: "clearance_row \<Rightarrow> verification_record \<Rightarrow> bool" where
  "same_conclusion r v \<longleftrightarrow>
     cv_reference_hmac r = vf_referenceHmac v \<and> cv_certificate_type r = vf_certificateType v \<and> cv_issued_on r = vf_issuedOn v \<and>
     cv_outcome r = vf_outcome v \<and> cv_failure_code r = vf_failureCode v \<and> cv_review_reasons r = Some (vf_reviewReasons v)"

definition latest_clearance :: "agency \<Rightarrow> uuid \<Rightarrow> 'ev database \<Rightarrow> clearance_row option" where
  "latest_clearance a i db =
     latest_by (\<lambda>c. (cv_verified_at c, cv_id c)) (filter (\<lambda>c. cv_application_id c = i) (clearance_verifications (schema_of db a)))"

datatype record_answer = Recorded | Already_recorded | Refused_unknown | Refused_supersedes | Refused_constraint

definition clearance_row_of :: "uuid \<Rightarrow> instant \<Rightarrow> verification_record \<Rightarrow> clearance_row" where
  "clearance_row_of newId now v =
     \<lparr>cv_id = newId, cv_application_id = vf_applicationId v, cv_verified_at = now, cv_outcome = vf_outcome v,
      cv_review_reasons = Some (vf_reviewReasons v), cv_reference_hmac = vf_referenceHmac v,
      cv_reference_last4 = vf_referenceLast4 v, cv_certificate_type = vf_certificateType v, cv_issued_on = vf_issuedOn v,
      cv_failure_code = vf_failureCode v, cv_binding = map_option binding_json (vf_binding v),
      cv_upstream_trace_id = Option.bind (vf_requestId v) (traceable 64), cv_correlation_id = traceable 128 (vf_correlationId v)\<rparr>"

text \<open>
  \<open>record_clearance_verification\<close>, called as the vetting service. \<open>Refused_constraint\<close> is the check
  violation of the insert; every refusal leaves the database as it was.
\<close>

definition record_clearance_verification ::
  "uuid \<Rightarrow> verification_record \<Rightarrow> 'ev database \<Rightarrow> 'ev database \<times> record_answer" where
  "record_clearance_verification newId v db =
     (let a = vf_agency v; i = vf_applicationId v in
      if (case app_of db a i of None \<Rightarrow> True | Some r \<Rightarrow> applicant_id r \<noteq> vf_applicantId v) then (db, Refused_unknown)
      else
        (let refusal =
           (case latest_clearance a i db of
              None \<Rightarrow> None
            | Some r \<Rightarrow>
                if same_conclusion r v then Some Already_recorded
                else if vf_outcome v = ''REVIEW'' \<and> vf_reviewReasons v = [CLEARANCE_UNVERIFIED] \<and> cv_outcome r \<noteq> ''PENDING''
                then Some Refused_supersedes
                else None) in
         case refusal of
           Some answer \<Rightarrow> (db, answer)
         | None \<Rightarrow>
             if \<not> clearance_row_ok v then (db, Refused_constraint)
             else (update_schema a (\<lambda>s. s\<lparr>clearance_verifications := clearance_verifications s @ [clearance_row_of newId (db_now db) v]\<rparr>) db,
                   Recorded)))"

subsection \<open>Events and environment of the gate\<close>

record vetting_completed =
  vc_envelope :: event_envelope
  vc_applicantId :: uuid
  vc_applicationId :: uuid
  vc_agency :: agency
  vc_category :: application_category
  vc_ribRequestId :: string
  vc_clearanceStatus :: criminal_clearance_status
  vc_appliedThreshold :: conviction_threshold
  vc_source :: "string option"
  vc_reviewReasons :: "clearance_review_reason list"

text \<open>Every audit entry is of entity type APPLICATION, by background-vetting-service.\<close>

record vetting_audit =
  va_envelope :: event_envelope
  va_entityId :: uuid
  va_action :: string
  va_agency :: agency
  va_metadata :: "(string \<times> json) list"

datatype vetting_event = RIB_VETTING_COMPLETED vetting_completed | VETTING_AUDIT vetting_audit

datatype vetting_error =
    Identity_unread | Clearance_registry_unavailable string | Verification_refused record_answer
  | Rib_unavailable string | Rib_body_not_object | Rib_unknown_category | Vetting_bus

record vetting_env =
  ve_gate :: gate_env
  ve_environment :: "string \<Rightarrow> string option"
  ve_irembo :: "string \<Rightarrow> string \<Rightarrow> registry_response option"
  ve_rib :: "string \<Rightarrow> string \<Rightarrow> registry_response option"
  ve_requestId :: string
  ve_hmac :: "string \<Rightarrow> string"
  ve_policy :: clearance_policy
  ve_bus :: "vetting_event \<Rightarrow> bool"

fun clearance_reason_text :: "clearance_review_reason \<Rightarrow> string" where
  "clearance_reason_text CLEARANCE_CONTENT_REVIEW = ''CLEARANCE_CONTENT_REVIEW''"
| "clearance_reason_text IDENTITY_NAME_PARTIAL = ''IDENTITY_NAME_PARTIAL''"
| "clearance_reason_text IDENTITY_HOLDER_UNREADABLE = ''IDENTITY_HOLDER_UNREADABLE''"
| "clearance_reason_text CLEARANCE_UNVERIFIED = ''CLEARANCE_UNVERIFIED''"

fun criminal_text :: "criminal_clearance_status \<Rightarrow> string" where
  "criminal_text CRIMINAL_PENDING = ''PENDING''"
| "criminal_text CLEARED = ''CLEARED''"
| "criminal_text FLAGGED_CONVICTION = ''FLAGGED_CONVICTION''"
| "criminal_text FLAGGED_PROSECUTION = ''FLAGGED_PROSECUTION''"
| "criminal_text FLAGGED_DISMISSED = ''FLAGGED_DISMISSED''"
| "criminal_text UNDER_REVIEW = ''UNDER_REVIEW''"

subsection \<open>The records flag (\<open>criminal-rules.ts\<close>, \<open>verify-criminal-clearance.service.ts\<close>)\<close>

text \<open>The dash of two of the reasons is written as a hyphen here: a character of the model has eight bits.\<close>

record criminal_decision =
  cd_clearanceStatus :: criminal_clearance_status
  cd_cleared :: bool
  cd_appliedThreshold :: conviction_threshold
  cd_reason :: string

definition evaluateCriminalClearance :: "application_category \<Rightarrow> rib_record_status \<Rightarrow> criminal_decision" where
  "evaluateCriminalClearance cat ribStatus =
     (let appliedThreshold = CRIMINAL_THRESHOLD_BY_CATEGORY cat in
      case ribStatus of
        RIB_CLEAR \<Rightarrow>
          \<lparr>cd_clearanceStatus = CLEARED, cd_cleared = True, cd_appliedThreshold = appliedThreshold,
           cd_reason = ''RIB returned no criminal records.''\<rparr>
      | UNDER_INVESTIGATION \<Rightarrow>
          \<lparr>cd_clearanceStatus = UNDER_REVIEW, cd_cleared = False, cd_appliedThreshold = appliedThreshold,
           cd_reason = ''RIB reports an active investigation - requires human adjudication.''\<rparr>
      | HAS_RECORDS \<Rightarrow>
          if appliedThreshold = ANY_CONVICTION then
            \<lparr>cd_clearanceStatus = FLAGGED_CONVICTION, cd_cleared = False, cd_appliedThreshold = appliedThreshold,
             cd_reason = ''RIB reports criminal records; this category disqualifies on ANY conviction.''\<rparr>
          else
            \<lparr>cd_clearanceStatus = UNDER_REVIEW, cd_cleared = False, cd_appliedThreshold = appliedThreshold,
             cd_reason = ''RIB reports criminal records; the sentence-length threshold cannot be '' @
               ''auto-decided from a coarse flag - requires authorized detailed review.''\<rparr>)"

fun rib_text :: "rib_record_status \<Rightarrow> string" where
  "rib_text RIB_CLEAR = ''CLEAR''"
| "rib_text HAS_RECORDS = ''HAS_RECORDS''"
| "rib_text UNDER_INVESTIGATION = ''UNDER_INVESTIGATION''"

text \<open>
  \<open>RibHttpGateway\<close> on the response it gets: a JSON body of null has no properties and throws a
  \<open>TypeError\<close>; any other value without a known \<open>status\<close> is the gateway's own error.
\<close>

definition rib_checkVetting :: "string \<Rightarrow> registry_response option \<Rightarrow> vetting_error + rib_record_status" where
  "rib_checkVetting requestId response =
     (case response of
        None \<Rightarrow> Inl (Rib_unavailable requestId)
      | Some r \<Rightarrow>
          if \<not> ok_status (rs_status r) then Inl (Rib_unavailable requestId)
          else
            (case rs_body r of
               None \<Rightarrow> Inl (Rib_unavailable requestId)
             | Some JNull \<Rightarrow> Inl Rib_body_not_object
             | Some wire \<Rightarrow>
                 (case string_of (json_get wire ''status'') of
                    None \<Rightarrow> Inl (Rib_unavailable requestId)
                  | Some s \<Rightarrow>
                      (case find (\<lambda>x. rib_text x = s) [RIB_CLEAR, HAS_RECORDS, UNDER_INVESTIGATION] of
                         None \<Rightarrow> Inl (Rib_unavailable requestId)
                       | Some status \<Rightarrow> Inr status))))"

record applicant_submitted =
  sm_envelope :: event_envelope
  sm_applicantId :: uuid
  sm_applicationId :: uuid
  sm_category :: application_category
  sm_nationalIdHash :: string

definition rib_events ::
  "auth_draws \<Rightarrow> event_context \<Rightarrow> applicant_submitted \<Rightarrow> agency \<Rightarrow> rib_record_status \<Rightarrow> criminal_decision \<Rightarrow> string \<Rightarrow> vetting_event list" where
  "rib_events dr ctx cmd a status decision req =
     [RIB_VETTING_COMPLETED
        \<lparr>vc_envelope = envelope dr 1 ctx, vc_applicantId = sm_applicantId cmd, vc_applicationId = sm_applicationId cmd,
         vc_agency = a, vc_category = sm_category cmd, vc_ribRequestId = req,
         vc_clearanceStatus = cd_clearanceStatus decision, vc_appliedThreshold = cd_appliedThreshold decision,
         vc_source = None, vc_reviewReasons = []\<rparr>,
      VETTING_AUDIT
        \<lparr>va_envelope = envelope dr 2 ctx, va_entityId = sm_applicationId cmd,
         va_action = (if cd_cleared decision then ''CRIMINAL_CLEARANCE_PASSED'' else ''CRIMINAL_CLEARANCE_FLAGGED''),
         va_agency = a,
         va_metadata = [(''applicantId'', JStr (sm_applicantId cmd)), (''category'', JStr (category_text (sm_category cmd))),
           (''ribStatus'', JStr (rib_text status)), (''clearanceStatus'', JStr (criminal_text (cd_clearanceStatus decision))),
           (''appliedThreshold'', JStr (threshold_text (cd_appliedThreshold decision))), (''cleared'', JBool (cd_cleared decision)),
           (''reason'', JStr (cd_reason decision)), (''ribRequestId'', JStr req)]\<rparr>]"

text \<open>The use case under the handler of APPLICANT_SUBMITTED, which derives the context from the event.\<close>

definition verify_criminal ::
  "vetting_env \<Rightarrow> auth_draws \<Rightarrow> applicant_submitted \<Rightarrow> vetting_event list \<times> (vetting_error + criminal_decision)" where
  "verify_criminal env dr cmd =
     (case rib_checkVetting (ve_requestId env) (ve_rib env (sm_nationalIdHash cmd) (ve_requestId env)) of
        Inl e \<Rightarrow> ([], Inl e)
      | Inr status \<Rightarrow>
          let decision = evaluateCriminalClearance (sm_category cmd) status in
          (case agencyForCategory (sm_category cmd) of
             None \<Rightarrow> ([], Inl Rib_unknown_category)
           | Some a \<Rightarrow>
               (case publish_each (ve_bus env) (rib_events dr (deriveContext (sm_envelope cmd)) cmd a status decision (ve_requestId env)) of
                  (sent, ok) \<Rightarrow> (sent, if ok then Inr decision else Inl Vetting_bus))))"

subsection \<open>The certificate (\<open>verify-clearance-certificate.service.ts\<close>)\<close>

record conclusion_subject =
  cs_applicantId :: uuid
  cs_applicationId :: uuid
  cs_agency :: agency
  cs_category :: application_category

record escalate_command = conclusion_subject +
  kc_number :: string
  kc_context :: "event_context option"

record clearance_command = escalate_command +
  kc_referenceDate :: string
  kc_policy :: "clearance_policy option"

datatype clearance_outcome =
    Certificate_CLEARED "string option"
  | Certificate_REVIEW_REQUIRED "clearance_review_reason list" "string option"
  | Certificate_CORRECTION_NEEDED clearance_failure "binding_fields option" "string option"
  | Certificate_APPLICANT_NOT_FOUND
  | Certificate_IDENTITY_NOT_VERIFIED

record reference_handle =
  rh_agency :: agency
  rh_applicationId :: uuid
  rh_applicantId :: uuid
  rh_hmac :: string
  rh_last4 :: string
  rh_correlationId :: string

definition reference_key :: "string \<Rightarrow> string" where
  "reference_key number =
     (case parseClearanceNumber number of
        Some n \<Rightarrow> n
      | None \<Rightarrow> take 64 (map (\<lambda>c. if is_upper c \<or> is_digit c then c else CHR ''*'') (js_upper (js_trim number))))"

definition last4 :: "string \<Rightarrow> string" where
  "last4 s = lpad (drop (length s - 4) s) 4 CHR ''*''"

definition referenceOf :: "vetting_env \<Rightarrow> 'a escalate_command_scheme \<Rightarrow> event_context \<Rightarrow> reference_handle" where
  "referenceOf env cmd ctx =
     (let referenceKey = reference_key (kc_number cmd) in
      \<lparr>rh_agency = cs_agency cmd, rh_applicationId = cs_applicationId cmd, rh_applicantId = cs_applicantId cmd,
       rh_hmac = ve_hmac env referenceKey, rh_last4 = last4 referenceKey, rh_correlationId = cx_correlationId ctx\<rparr>)"

fun decision_outcome :: "clearance_decision \<Rightarrow> string" where
  "decision_outcome (Decided_CLEARED _) = ''CLEARED''"
| "decision_outcome (Decided_REVIEW _ _) = ''REVIEW''"
| "decision_outcome (Correction_needed _ _) = ''CORRECTION_NEEDED''"

fun decision_reasons :: "clearance_decision \<Rightarrow> clearance_review_reason list" where
  "decision_reasons (Decided_REVIEW reasons _) = reasons"
| "decision_reasons _ = []"

fun decision_facts :: "clearance_decision \<Rightarrow> certificate_facts" where
  "decision_facts (Decided_CLEARED k) = k"
| "decision_facts (Decided_REVIEW _ k) = k"
| "decision_facts (Correction_needed _ k) = k"

fun decision_failure :: "clearance_decision \<Rightarrow> clearance_failure option" where
  "decision_failure (Correction_needed c _) = Some c"
| "decision_failure _ = None"

definition record_of :: "reference_handle \<Rightarrow> clearance_decision \<Rightarrow> string option \<Rightarrow> verification_record" where
  "record_of base decision requestId =
     \<lparr>vf_agency = rh_agency base, vf_applicationId = rh_applicationId base, vf_applicantId = rh_applicantId base,
      vf_referenceHmac = rh_hmac base, vf_referenceLast4 = rh_last4 base,
      vf_certificateType = ct_certificateType (decision_facts decision), vf_issuedOn = ct_issuedOn (decision_facts decision),
      vf_outcome = decision_outcome decision, vf_failureCode = map_option failure_code_text (decision_failure decision),
      vf_reviewReasons = decision_reasons decision, vf_binding = ct_binding (decision_facts decision),
      vf_requestId = requestId, vf_correlationId = rh_correlationId base\<rparr>"

definition pending_of :: "reference_handle \<Rightarrow> string \<Rightarrow> verification_record" where
  "pending_of base requestId =
     \<lparr>vf_agency = rh_agency base, vf_applicationId = rh_applicationId base, vf_applicantId = rh_applicantId base,
      vf_referenceHmac = rh_hmac base, vf_referenceLast4 = rh_last4 base, vf_certificateType = None, vf_issuedOn = None,
      vf_outcome = ''PENDING'', vf_failureCode = Some ''REGISTRY_UNAVAILABLE'', vf_reviewReasons = [], vf_binding = None,
      vf_requestId = Some requestId, vf_correlationId = rh_correlationId base\<rparr>"

text \<open>\<open>recordPending\<close>: best effort, whatever the function answers.\<close>

definition recordPending :: "uuid \<Rightarrow> reference_handle \<Rightarrow> string \<Rightarrow> 'ev database \<Rightarrow> 'ev database" where
  "recordPending newId base requestId db = fst (record_clearance_verification newId (pending_of base requestId) db)"

definition field_if :: "string \<Rightarrow> json option \<Rightarrow> (string \<times> json) list" where
  "field_if k v = (case v of None \<Rightarrow> [] | Some x \<Rightarrow> [(k, x)])"

definition reasons_json :: "clearance_review_reason list \<Rightarrow> json option" where
  "reasons_json reasons = (if reasons = [] then None else Some (JArr (map (JStr \<circ> clearance_reason_text) reasons)))"

definition clearance_audit_of ::
  "auth_draws \<Rightarrow> event_context \<Rightarrow> 'a conclusion_subject_scheme \<Rightarrow> reference_handle \<Rightarrow> clearance_decision \<Rightarrow> string option \<Rightarrow> string option \<Rightarrow>
    vetting_audit" where
  "clearance_audit_of dr ctx cmd base decision requestId auditAction =
     \<lparr>va_envelope = envelope dr 2 ctx, va_entityId = cs_applicationId cmd,
      va_action =
        (case auditAction of Some a \<Rightarrow> a
         | None \<Rightarrow>
             (case decision of
                Decided_CLEARED _ \<Rightarrow> ''CLEARANCE_CERTIFICATE_PASSED''
              | Decided_REVIEW _ _ \<Rightarrow> ''CLEARANCE_CERTIFICATE_REVIEW_REQUIRED''
              | Correction_needed _ _ \<Rightarrow> ''CLEARANCE_CERTIFICATE_CORRECTION_NEEDED'')),
      va_agency = cs_agency cmd,
      va_metadata =
        [(''applicantId'', JStr (cs_applicantId cmd)), (''category'', JStr (category_text (cs_category cmd))),
         (''source'', JStr ''IREMBO_CERTIFICATE''),
         (''appliedThreshold'', JStr (threshold_text (CRIMINAL_THRESHOLD_BY_CATEGORY (cs_category cmd)))),
         (''referenceLast4'', JStr (rh_last4 base))] @
        field_if ''certificateType'' (map_option JStr (ct_certificateType (decision_facts decision))) @
        field_if ''issuedOn'' (map_option JStr (ct_issuedOn (decision_facts decision))) @
        field_if ''failureCode'' (map_option (JStr \<circ> failure_code_text) (decision_failure decision)) @
        field_if ''reviewReasons'' (reasons_json (decision_reasons decision)) @
        field_if ''binding'' (map_option binding_json (ct_binding (decision_facts decision))) @
        field_if ''requestId'' (map_option JStr requestId)\<rparr>"

definition clearance_event_of ::
  "auth_draws \<Rightarrow> event_context \<Rightarrow> 'a conclusion_subject_scheme \<Rightarrow> clearance_decision \<Rightarrow> string option \<Rightarrow> vetting_completed" where
  "clearance_event_of dr ctx cmd decision requestId =
     \<lparr>vc_envelope = envelope dr 1 ctx, vc_applicantId = cs_applicantId cmd, vc_applicationId = cs_applicationId cmd,
      vc_agency = cs_agency cmd, vc_category = cs_category cmd,
      vc_ribRequestId = (case requestId of Some r \<Rightarrow> r | None \<Rightarrow> ''none''),
      vc_clearanceStatus = (case decision of Decided_CLEARED _ \<Rightarrow> CLEARED | _ \<Rightarrow> UNDER_REVIEW),
      vc_appliedThreshold = CRIMINAL_THRESHOLD_BY_CATEGORY (cs_category cmd),
      vc_source = Some ''IREMBO_CERTIFICATE'', vc_reviewReasons = decision_reasons decision\<rparr>"

definition outcome_of_decision :: "clearance_decision \<Rightarrow> string option \<Rightarrow> clearance_outcome" where
  "outcome_of_decision decision requestId =
     (case decision of
        Decided_CLEARED _ \<Rightarrow> Certificate_CLEARED requestId
      | Decided_REVIEW reasons _ \<Rightarrow> Certificate_REVIEW_REQUIRED reasons requestId
      | Correction_needed code k \<Rightarrow> Certificate_CORRECTION_NEEDED code (ct_binding k) requestId)"

text \<open>Record first; a refusal throws before anything is published.\<close>

definition conclude ::
  "vetting_env \<Rightarrow> auth_draws \<Rightarrow> uuid \<Rightarrow> 'a conclusion_subject_scheme \<Rightarrow> event_context \<Rightarrow> reference_handle \<Rightarrow> clearance_decision \<Rightarrow>
    string option \<Rightarrow> string option \<Rightarrow> 'ev database \<Rightarrow> 'ev database \<times> vetting_event list \<times> (vetting_error + clearance_outcome)" where
  "conclude env dr newId cmd ctx base decision requestId auditAction db =
     (case record_clearance_verification newId (record_of base decision requestId) db of
        (db', answer) \<Rightarrow>
          if answer \<noteq> Recorded \<and> answer \<noteq> Already_recorded then (db', [], Inl (Verification_refused answer))
          else
            (case publish_each (ve_bus env)
                    ((case decision of Correction_needed _ _ \<Rightarrow> []
                      | _ \<Rightarrow> [RIB_VETTING_COMPLETED (clearance_event_of dr ctx cmd decision requestId)]) @
                     [VETTING_AUDIT (clearance_audit_of dr ctx cmd base decision requestId auditAction)]) of
               (sent, ok) \<Rightarrow> (db', sent, if ok then Inr (outcome_of_decision decision requestId) else Inl Vetting_bus)))"

text \<open>
  \<open>verify\<close>. The identity is read in its own transaction, from \<open>s\<close>; the record finds the database \<open>db\<close>,
  after the registry has answered.
\<close>

definition verify_certificate ::
  "vetting_env \<Rightarrow> auth_draws \<Rightarrow> uuid \<Rightarrow> clearance_command \<Rightarrow> 'ev identity_store \<Rightarrow> 'ev database \<Rightarrow>
    'ev database \<times> vetting_event list \<times> (vetting_error + clearance_outcome)" where
  "verify_certificate env dr newId cmd s db =
     (let ctx = gate_context dr (kc_context cmd); base = referenceOf env cmd ctx in
      case findBindingSubjectById (ve_gate env) (cs_applicantId cmd) s of
        None \<Rightarrow> (db, [], Inl Identity_unread)
      | Some None \<Rightarrow> (db, [], Inr Certificate_APPLICANT_NOT_FOUND)
      | Some (Some (identity, status)) \<Rightarrow>
          if status \<noteq> IDENTITY_VERIFIED then (db, [], Inr Certificate_IDENTITY_NOT_VERIFIED)
          else
            (case parseClearanceNumber (kc_number cmd) of
               None \<Rightarrow> conclude env dr newId cmd ctx base (Correction_needed CERTIFICATE_NUMBER_MALFORMED no_facts) None None db
             | Some number \<Rightarrow>
                 (case irembo_verify (ve_environment env) (ve_requestId env) (ve_irembo env number (ve_requestId env)) of
                    None \<Rightarrow> (recordPending newId base (ve_requestId env) db, [], Inl (Clearance_registry_unavailable (ve_requestId env)))
                  | Some lookup \<Rightarrow>
                      conclude env dr newId cmd ctx base
                        (decideClearance (ge_names (ve_gate env)) lookup identity
                           (case kc_policy cmd of None \<Rightarrow> ve_policy env | Some p \<Rightarrow> p) (kc_referenceDate cmd))
                        (Some (case lookup of Certificate_found _ r \<Rightarrow> r | Certificate_unknown r \<Rightarrow> r)) None db)))"

definition escalateUnverified ::
  "vetting_env \<Rightarrow> auth_draws \<Rightarrow> uuid \<Rightarrow> 'a escalate_command_scheme \<Rightarrow> 'ev database \<Rightarrow>
    'ev database \<times> vetting_event list \<times> (vetting_error + clearance_outcome)" where
  "escalateUnverified env dr newId cmd db =
     (let ctx = gate_context dr (kc_context cmd) in
      conclude env dr newId cmd ctx (referenceOf env cmd ctx) (Decided_REVIEW [CLEARANCE_UNVERIFIED] no_facts) None
        (Some ''CLEARANCE_VERIFICATION_ESCALATED'') db)"

subsection \<open>Ingress and the last word on a parked event\<close>

record certificate_submitted =
  sb_envelope :: event_envelope
  sb_applicantId :: uuid
  sb_applicationId :: uuid
  sb_agency :: agency
  sb_category :: application_category
  sb_number :: string
  sb_referenceDate :: string
  sb_policy :: "clearance_policy option"

datatype vetting_input = Certificate_submitted certificate_submitted | Applicant_submitted applicant_submitted | Foreign_event

definition command_of :: "certificate_submitted \<Rightarrow> clearance_command" where
  "command_of e =
     \<lparr>cs_applicantId = sb_applicantId e, cs_applicationId = sb_applicationId e, cs_agency = sb_agency e, cs_category = sb_category e,
      kc_number = sb_number e, kc_context = Some (deriveContext (sb_envelope e)),
      kc_referenceDate = sb_referenceDate e, kc_policy = sb_policy e\<rparr>"

text \<open>The handler of the consumer group; \<open>None\<close> is the event it ignores.\<close>

definition on_certificate_submitted ::
  "vetting_env \<Rightarrow> auth_draws \<Rightarrow> uuid \<Rightarrow> vetting_input \<Rightarrow> 'ev identity_store \<Rightarrow> 'ev database \<Rightarrow>
    'ev database \<times> vetting_event list \<times> (vetting_error + clearance_outcome) option" where
  "on_certificate_submitted env dr newId event s db =
     (case event of
        Certificate_submitted e \<Rightarrow> (case verify_certificate env dr newId (command_of e) s db of (db', sent, ans) \<Rightarrow> (db', sent, Some ans))
      | _ \<Rightarrow> (db, [], None))"

definition CLEARANCE_CONSUMER_GROUP :: string where "CLEARANCE_CONSUMER_GROUP = ''background-vetting-clearance''"

definition clearanceDeadLetterObserver ::
  "vetting_env \<Rightarrow> auth_draws \<Rightarrow> uuid \<Rightarrow> string \<Rightarrow> vetting_error \<Rightarrow> vetting_input \<Rightarrow> 'ev database \<Rightarrow>
    'ev database \<times> vetting_event list \<times> (vetting_error + clearance_outcome) option" where
  "clearanceDeadLetterObserver env dr newId groupId error event db =
     (if groupId \<noteq> CLEARANCE_CONSUMER_GROUP then (db, [], None)
      else
        (case (event, error) of
           (Certificate_submitted e, Clearance_registry_unavailable _) \<Rightarrow>
             (case escalateUnverified env dr newId (command_of e) db of (db', sent, ans) \<Rightarrow> (db', sent, Some ans))
         | _ \<Rightarrow> (db, [], None)))"

subsection \<open>What the gate promises\<close>

lemma record_refused:
  "record_clearance_verification newId v db = (db', answer) \<Longrightarrow> answer \<noteq> Recorded \<Longrightarrow> db' = db"
  by (auto simp: record_clearance_verification_def Let_def split: option.splits if_splits)

lemma recorded_row:
  assumes "record_clearance_verification newId v db = (db', answer)" and "answer = Recorded \<or> answer = Already_recorded"
  shows "\<exists>r \<in> set (clearance_verifications (schema_of db' (vf_agency v))). cv_application_id r = vf_applicationId v \<and> same_conclusion r v"
proof (cases "answer = Recorded")
  case True
  then have "clearance_row_of newId (db_now db) v \<in> set (clearance_verifications (schema_of db' (vf_agency v)))"
    using assms(1) by (auto simp: record_clearance_verification_def Let_def store_simps split: option.splits if_splits)
  then show ?thesis
    by (intro bexI [of _ "clearance_row_of newId (db_now db) v"]) (simp_all add: clearance_row_of_def same_conclusion_def)
next
  case False
  then obtain r where "latest_clearance (vf_agency v) (vf_applicationId v) db = Some r" "same_conclusion r v" "db' = db"
    using assms by (auto simp: record_clearance_verification_def Let_def split: option.splits if_splits)
  then show ?thesis by (auto simp: latest_clearance_def dest!: latest_by_SomeD intro!: bexI [of _ r])
qed

lemma conclude_cases:
  assumes "conclude env dr newId cmd ctx base decision req action db = (db', sent, ans)"
  obtains (refused) answer where "db' = db" "sent = []" "ans = Inl (Verification_refused answer)"
  | (concluded) answer where "record_clearance_verification newId (record_of base decision req) db = (db', answer)"
      "answer = Recorded \<or> answer = Already_recorded"
      "set sent \<subseteq> (case decision of Correction_needed _ _ \<Rightarrow> {} | _ \<Rightarrow> {RIB_VETTING_COMPLETED (clearance_event_of dr ctx cmd decision req)}) \<union>
         {VETTING_AUDIT (clearance_audit_of dr ctx cmd base decision req action)}"
      "ans = Inr (outcome_of_decision decision req) \<or> ans = Inl Vetting_bus"
proof -
  obtain db1 answer where r: "record_clearance_verification newId (record_of base decision req) db = (db1, answer)" by fastforce
  let ?es = "(case decision of Correction_needed _ _ \<Rightarrow> [] | _ \<Rightarrow> [RIB_VETTING_COMPLETED (clearance_event_of dr ctx cmd decision req)]) @
    [VETTING_AUDIT (clearance_audit_of dr ctx cmd base decision req action)]"
  obtain sent1 ok where p: "publish_each (ve_bus env) ?es = (sent1, ok)" by fastforce
  show thesis
  proof (cases "answer = Recorded \<or> answer = Already_recorded")
    case True
    then have "db' = db1" "sent = sent1" "ans = (if ok then Inr (outcome_of_decision decision req) else Inl Vetting_bus)"
      using assms r p by (auto simp: conclude_def)
    moreover have "set sent1 \<subseteq> set ?es" using publish_each_subset [OF p] by blast
    ultimately show thesis using True r by (intro concluded) (auto split: clearance_decision.splits if_splits)
  next
    case False
    then show thesis using assms r record_refused [OF r] by (intro refused) (auto simp: conclude_def)
  qed
qed

lemma decided_clear:
  assumes "decideClearance lib lookup identity policy day = Decided_CLEARED k"
  obtains c req age where "lookup = Certificate_found (Certificate_in_force c) req"
    "same_person lib identity (certificate_claim c)" "stated DATE_OF_BIRTH identity (certificate_claim c)"
    "cf_type c \<in> set (allowedTypes policy)" "cf_type c \<in> set (noRecordTypes policy)"
    "daysBetween (cf_issuedOn c) day = Some age" "0 \<le> age" "age \<le> validityDays policy"
proof -
  obtain c req where l: "lookup = Certificate_found (Certificate_in_force c) req"
    using assms by (auto simp: decideClearance_def split: clearance_lookup.splits clearance_certificate.splits)
  define b where "b = bindCredential lib identity (certificate_claim c) [DATE_OF_BIRTH]"
  have facts: "br_outcome b \<noteq> NOT_BOUND" "cf_type c \<in> set (allowedTypes policy)" "review_reasons_of b policy (cf_type c) = []"
    using assms by (auto simp: l decideClearance_def Let_def b_def [symmetric] split: if_splits option.splits)
  obtain age where age: "daysBetween (cf_issuedOn c) day = Some age" "0 \<le> age" "age \<le> validityDays policy"
    using assms by (auto simp: l decideClearance_def Let_def b_def [symmetric] split: if_splits option.splits)
  have "br_outcome b \<noteq> REVIEW" "cf_type c \<in> set (noRecordTypes policy)"
    using facts(3) by (auto simp: review_reasons_of_def split: if_splits)
  with facts(1) have "br_outcome b = BOUND" by (cases "br_outcome b") simp_all
  then show thesis
    using that [OF l _ _ facts(2) \<open>cf_type c \<in> set (noRecordTypes policy)\<close> age] bound_iff [of lib identity "certificate_claim c" "[DATE_OF_BIRTH]"]
    unfolding b_def by (auto split: if_splits)
qed

text \<open>The registry's answer as the use case gets it.\<close>

definition registry_answer :: "vetting_env \<Rightarrow> string \<Rightarrow> clearance_lookup option" where
  "registry_answer env number = irembo_verify (ve_environment env) (ve_requestId env) (ve_irembo env number (ve_requestId env))"

definition policy_for :: "vetting_env \<Rightarrow> clearance_command \<Rightarrow> clearance_policy" where
  "policy_for env cmd = (case kc_policy cmd of None \<Rightarrow> ve_policy env | Some p \<Rightarrow> p)"

lemma verify_certificate_event:
  assumes "verify_certificate env dr newId cmd s db = (db', sent, ans)" and "RIB_VETTING_COMPLETED e \<in> set sent"
  obtains identity number lookup decision req answer ctx where
    "verified_subject (ve_gate env) (cs_applicantId cmd) s identity" "parseClearanceNumber (kc_number cmd) = Some number"
    "registry_answer env number = Some lookup"
    "decision = decideClearance (ge_names (ve_gate env)) lookup identity (policy_for env cmd) (kc_referenceDate cmd)"
    "decision_failure decision = None" "e = clearance_event_of dr ctx cmd decision req"
    "record_clearance_verification newId (record_of (referenceOf env cmd ctx) decision req) db = (db', answer)"
    "answer = Recorded \<or> answer = Already_recorded"
    "ans = Inr (outcome_of_decision decision req) \<or> ans = Inl Vetting_bus"
proof -
  obtain identity where subject: "findBindingSubjectById (ve_gate env) (cs_applicantId cmd) s = Some (Some (identity, IDENTITY_VERIFIED))"
    using assms by (auto simp: verify_certificate_def Let_def split: option.splits prod.splits if_splits)
  define ctx where "ctx = gate_context dr (kc_context cmd)"
  define base where "base = referenceOf env cmd ctx"
  show thesis
  proof (cases "parseClearanceNumber (kc_number cmd)")
    case None
    then have "conclude env dr newId cmd ctx base (Correction_needed CERTIFICATE_NUMBER_MALFORMED no_facts) None None db = (db', sent, ans)"
      using assms(1) subject by (simp add: verify_certificate_def Let_def ctx_def base_def)
    then show thesis using assms(2) by (cases rule: conclude_cases) auto
  next
    case (Some number)
    obtain lookup where lookup: "registry_answer env number = Some lookup"
      using assms subject Some by (auto simp: verify_certificate_def registry_answer_def Let_def split: option.splits)
    define req where "req = Some (case lookup of Certificate_found _ r \<Rightarrow> r | Certificate_unknown r \<Rightarrow> r)"
    define decision where "decision = decideClearance (ge_names (ve_gate env)) lookup identity (policy_for env cmd) (kc_referenceDate cmd)"
    have "conclude env dr newId cmd ctx base decision req None db = (db', sent, ans)"
      using assms(1) subject Some lookup
      by (simp add: verify_certificate_def registry_answer_def policy_for_def Let_def ctx_def base_def decision_def req_def)
    then show thesis
    proof (cases rule: conclude_cases)
      case (concluded answer)
      moreover have "decision_failure decision = None" "e = clearance_event_of dr ctx cmd decision req"
        using concluded(3) assms(2) by (cases decision; auto)+
      ultimately show thesis
        using subject Some lookup decision_def
        by (intro that [of identity number lookup decision ctx req answer]) (simp_all add: verified_subject_def base_def)
    qed (use assms(2) in simp)
  qed
qed

text \<open>What the gate found when it cleared the holder of a certificate.\<close>

definition own_certificate :: "vetting_env \<Rightarrow> clearance_command \<Rightarrow> 'ev identity_store \<Rightarrow> 'ev database \<Rightarrow> bool" where
  "own_certificate env cmd s db' \<longleftrightarrow>
   (\<exists>identity number c req age.
    verified_subject (ve_gate env) (cs_applicantId cmd) s identity \<and> parseClearanceNumber (kc_number cmd) = Some number \<and>
    registry_answer env number = Some (Certificate_found (Certificate_in_force c) req) \<and>
    mset (nameTokens (ge_names (ve_gate env)) (if_fullName identity)) = mset (nameTokens (ge_names (ve_gate env)) (cf_holderName c)) \<and>
    parseDateOfBirth (if_dateOfBirth identity) = parseDateOfBirth (cf_holderDob c) \<and> parseDateOfBirth (cf_holderDob c) \<noteq> None \<and>
    cf_type c \<in> set (allowedTypes (policy_for env cmd)) \<inter> set (noRecordTypes (policy_for env cmd)) \<and>
    daysBetween (cf_issuedOn c) (kc_referenceDate cmd) = Some age \<and> 0 \<le> age \<and> age \<le> validityDays (policy_for env cmd) \<and>
    (\<exists>row \<in> set (clearance_verifications (schema_of db' (cs_agency cmd))). cv_application_id row = cs_applicationId cmd \<and>
       cv_outcome row = ''CLEARED'' \<and> cv_reference_hmac row = ve_hmac env number))"

lemma cleared_event_certificate:
  assumes "verify_certificate env dr newId cmd s db = (db', sent, ans)" and "RIB_VETTING_COMPLETED e \<in> set sent"
    and "vc_clearanceStatus e = CLEARED"
  shows "own_certificate env cmd s db'"
proof -
  obtain identity number lookup decision req answer ctx where d:
    "verified_subject (ve_gate env) (cs_applicantId cmd) s identity" "parseClearanceNumber (kc_number cmd) = Some number"
    "registry_answer env number = Some lookup"
    "decision = decideClearance (ge_names (ve_gate env)) lookup identity (policy_for env cmd) (kc_referenceDate cmd)"
    "decision_failure decision = None" "e = clearance_event_of dr ctx cmd decision req"
    "record_clearance_verification newId (record_of (referenceOf env cmd ctx) decision req) db = (db', answer)"
    "answer = Recorded \<or> answer = Already_recorded"
    using verify_certificate_event [OF assms(1,2)] by metis
  obtain k where k: "decision = Decided_CLEARED k"
    using assms(3) d(6) by (cases decision) (auto simp: clearance_event_of_def)
  obtain c r age where c: "lookup = Certificate_found (Certificate_in_force c) r"
    "same_person (ge_names (ve_gate env)) identity (certificate_claim c)" "stated DATE_OF_BIRTH identity (certificate_claim c)"
    "cf_type c \<in> set (allowedTypes (policy_for env cmd))" "cf_type c \<in> set (noRecordTypes (policy_for env cmd))"
    "daysBetween (cf_issuedOn c) (kc_referenceDate cmd) = Some age" "0 \<le> age" "age \<le> validityDays (policy_for env cmd)"
    using decided_clear [OF d(4) [unfolded k, symmetric]] by metis
  obtain row where row: "row \<in> set (clearance_verifications (schema_of db' (cs_agency cmd)))"
      "cv_application_id row = cs_applicationId cmd" "cv_outcome row = ''CLEARED''" "cv_reference_hmac row = ve_hmac env number"
    using recorded_row [OF d(7,8)] d(2) k by (auto simp: record_of_def referenceOf_def Let_def same_conclusion_def reference_key_def)
  show ?thesis
    unfolding own_certificate_def using d(1-3) c row
    by (intro exI [of _ identity] exI [of _ number] exI [of _ c] exI [of _ r] exI [of _ age])
       (auto simp: same_person_def certificate_claim_def)
qed

text \<open>
  C30: A certificate clears an application only when it is the applicant's own: the identity was
  verified, the registry answered with a certificate in force whose holder has the very name
  tokens and the same readable date of birth, of an allowed no-record type, issued no later than
  the reference day and within the validity window; and the verdict is on the append-only record
  under the certificate's HMAC before it is published.
\<close>

theorem cleared_certificate_is_own:
  assumes "verify_certificate env dr newId cmd s db = (db', sent, ans)" and "RIB_VETTING_COMPLETED e \<in> set sent"
    and "vc_clearanceStatus e = CLEARED"
  shows "\<exists>identity number c req age.
    verified_subject (ve_gate env) (cs_applicantId cmd) s identity \<and> parseClearanceNumber (kc_number cmd) = Some number \<and>
    registry_answer env number = Some (Certificate_found (Certificate_in_force c) req) \<and>
    mset (nameTokens (ge_names (ve_gate env)) (if_fullName identity)) = mset (nameTokens (ge_names (ve_gate env)) (cf_holderName c)) \<and>
    parseDateOfBirth (if_dateOfBirth identity) = parseDateOfBirth (cf_holderDob c) \<and> parseDateOfBirth (cf_holderDob c) \<noteq> None \<and>
    cf_type c \<in> set (allowedTypes (policy_for env cmd)) \<inter> set (noRecordTypes (policy_for env cmd)) \<and>
    daysBetween (cf_issuedOn c) (kc_referenceDate cmd) = Some age \<and> 0 \<le> age \<and> age \<le> validityDays (policy_for env cmd) \<and>
    (\<exists>row \<in> set (clearance_verifications (schema_of db' (cs_agency cmd))). cv_application_id row = cs_applicationId cmd \<and>
       cv_outcome row = ''CLEARED'' \<and> cv_reference_hmac row = ve_hmac env number)"
  using cleared_event_certificate [OF assms] unfolding own_certificate_def .

text \<open>
  A registry that cannot be reached, or answers with anything but its own envelope, is never a verdict:
  nothing is published, the applications are untouched, the error is thrown so that the event is delivered
  again, and the record gains at most one PENDING row.
\<close>

text \<open>
  C31: A registry that cannot be reached, or answers with anything but its own envelope, is
  never a verdict: nothing is published, the applications are untouched, the error is thrown so
  that the event is delivered again, and the record gains at most one PENDING row.
\<close>

theorem registry_outage_is_no_verdict:
  assumes "verified_subject (ve_gate env) (cs_applicantId cmd) s identity"
    and "parseClearanceNumber (kc_number cmd) = Some number" and "registry_answer env number = None"
  shows "\<exists>db' added. verify_certificate env dr newId cmd s db = (db', [], Inl (Clearance_registry_unavailable (ve_requestId env))) \<and>
    (\<forall>a i. app_of db' a i = app_of db a i) \<and>
    clearance_verifications (schema_of db' (cs_agency cmd)) = clearance_verifications (schema_of db (cs_agency cmd)) @ added \<and>
    length added \<le> 1 \<and> filter (\<lambda>r. cv_outcome r \<noteq> ''PENDING'') added = []"
proof -
  let ?base = "referenceOf env cmd (gate_context dr (kc_context cmd))" and ?req = "ve_requestId env"
  let ?db' = "recordPending newId ?base ?req db"
  have run: "verify_certificate env dr newId cmd s db = (?db', [], Inl (Clearance_registry_unavailable ?req))"
    using assms by (simp add: verify_certificate_def verified_subject_def registry_answer_def Let_def)
  have "?db' = db \<or> ?db' = update_schema (cs_agency cmd) (\<lambda>s. s\<lparr>clearance_verifications := clearance_verifications s @
      [clearance_row_of newId (db_now db) (pending_of ?base ?req)]\<rparr>) db"
    by (auto simp: recordPending_def record_clearance_verification_def pending_of_def referenceOf_def Let_def split: option.splits)
  then consider (same) "?db' = db" | (added) "?db' = update_schema (cs_agency cmd) (\<lambda>s. s\<lparr>clearance_verifications := clearance_verifications s @
      [clearance_row_of newId (db_now db) (pending_of ?base ?req)]\<rparr>) db" by blast
  then show ?thesis
  proof cases
    case same
    with run show ?thesis by (intro exI [of _ db] exI [of _ "[]"]) simp
  next
    case added
    have "app_of ?db' a i = app_of db a i" for a i by (simp add: added app_of_def schema_of_update_schema)
    with run show ?thesis
      by (intro exI [of _ ?db'] exI [of _ "[clearance_row_of newId (db_now db) (pending_of ?base ?req)]"])
         (simp add: added schema_of_update_schema clearance_row_of_def pending_of_def)
  qed
qed

text \<open>
  An escalation that comes late finds the verdict and is refused: with any other verdict as the newest
  record, nothing is written and nothing is published.
\<close>

theorem escalation_spares_a_verdict:
  assumes "latest_clearance (cs_agency cmd) (cs_applicationId cmd) db = Some r"
    and "cv_outcome r \<noteq> ''PENDING''" and "cv_review_reasons r \<noteq> Some [CLEARANCE_UNVERIFIED]"
  shows "\<exists>answer. escalateUnverified env dr newId cmd db = (db, [], Inl (Verification_refused answer)) \<and>
    answer \<in> {Refused_unknown, Refused_supersedes}"
proof -
  let ?v = "\<lambda>ctx. record_of (referenceOf env cmd ctx) (Decided_REVIEW [CLEARANCE_UNVERIFIED] no_facts) None"
  have "\<exists>answer. record_clearance_verification newId (?v ctx) db = (db, answer) \<and> answer \<in> {Refused_unknown, Refused_supersedes}" for ctx
    using assms by (auto simp: record_clearance_verification_def record_of_def referenceOf_def same_conclusion_def Let_def split: option.splits)
  then obtain answer where "record_clearance_verification newId (?v (gate_context dr (kc_context cmd))) db = (db, answer)"
      "answer \<in> {Refused_unknown, Refused_supersedes}" by blast
  then show ?thesis by (intro exI [of _ answer]) (auto simp: escalateUnverified_def conclude_def Let_def)
qed

lemma latest_by_snoc: "\<forall>x \<in> set xs. key x < key y \<Longrightarrow> latest_by key (xs @ [y]) = Some y"
  by (induction xs) (auto simp: less_imp_le)

lemma parsed_number_shape:
  assumes "parseClearanceNumber raw = Some n"
  shows "reference_key raw = n" "length (last4 n) = 4" "list_all (\<lambda>c. is_upper c \<or> is_digit c) (last4 n)"
proof -
  have n: "length n = 17" "list_all (\<lambda>c. is_upper c \<or> is_digit c) (drop 13 n)"
    using assms by (auto simp: parseClearanceNumber_def CLEARANCE_NUMBER_PATTERN_def Let_def split: if_splits)
  then show "reference_key raw = n" "length (last4 n) = 4" "list_all (\<lambda>c. is_upper c \<or> is_digit c) (last4 n)"
    using assms by (simp_all add: reference_key_def last4_def lpad_def)
qed

text \<open>A record later than every other of its application is inserted, unless the guard of \<open>rls/0044\<close> refuses it.\<close>

lemma record_inserts:
  assumes "app_of db (vf_agency v) (vf_applicationId v) = Some row" and "applicant_id row = vf_applicantId v"
    and "latest_clearance (vf_agency v) (vf_applicationId v) db = Some r" and "cv_verified_at r < db_now db"
    and "cv_outcome r \<noteq> vf_outcome v" and "vf_reviewReasons v = [CLEARANCE_UNVERIFIED] \<longrightarrow> cv_outcome r = ''PENDING''"
    and "clearance_row_ok v" and "record_clearance_verification newId v db = (db', answer)"
  shows "answer = Recorded" "app_of db' = app_of db" "db_now db' = db_now db"
    "latest_clearance (vf_agency v) (vf_applicationId v) db' = Some (clearance_row_of newId (db_now db) v)"
proof -
  let ?a = "vf_agency v" and ?i = "vf_applicationId v" and ?y = "clearance_row_of newId (db_now db) v"
  have run: "answer = Recorded"
    "db' = update_schema ?a (\<lambda>s. s\<lparr>clearance_verifications := clearance_verifications s @ [?y]\<rparr>) db"
    using assms by (auto simp: record_clearance_verification_def same_conclusion_def Let_def)
  show "answer = Recorded" "db_now db' = db_now db" using run by (simp_all add: store_simps)
  show "app_of db' = app_of db" by (intro ext) (simp add: run app_of_def schema_of_update_schema)
  let ?rows = "filter (\<lambda>c. cv_application_id c = ?i) (clearance_verifications (schema_of db ?a))"
  have "\<forall>x \<in> set ?rows. (cv_verified_at x, cv_id x) < (cv_verified_at ?y, cv_id ?y)"
  proof
    fix x assume "x \<in> set ?rows"
    then have "(cv_verified_at x, cv_id x) \<le> (cv_verified_at r, cv_id r)"
      using latest_by_SomeD [OF assms(3) [unfolded latest_clearance_def]] by auto
    then show "(cv_verified_at x, cv_id x) < (cv_verified_at ?y, cv_id ?y)"
      using assms(4) by (auto simp: clearance_row_of_def less_eq_prod_def less_prod_def)
  qed
  from latest_by_snoc [of _ "\<lambda>c. (cv_verified_at c, cv_id c)", OF this]
  show "latest_clearance ?a ?i db' = Some ?y"
    by (simp add: latest_clearance_def run schema_of_update_schema clearance_row_of_def)
qed

text \<open>
  The guard looks at the newest record only. Deliver the event again after the certificate was CLEARED,
  with the registry down: a PENDING record is laid on top of the verdict, and when the retries are spent
  the escalation passes the guard, records REVIEW and publishes UNDER_REVIEW for a citizen who was cleared.
\<close>

text \<open>
  C32: The guard looks at the newest record only. Deliver the event again after the certificate
  was CLEARED, with the registry down: a PENDING record is laid on top of the verdict, and when
  the retries are spent the escalation passes the guard, records REVIEW and publishes
  UNDER_REVIEW for a citizen who was cleared.
\<close>

theorem outage_after_clearance_reopens_review:
  assumes "verified_subject (ve_gate env) (sb_applicantId e) s identity" and "parseClearanceNumber (sb_number e) = Some number"
    and "registry_answer env number = None"
    and "app_of db (sb_agency e) (sb_applicationId e) = Some row" and "applicant_id row = sb_applicantId e"
    and "latest_clearance (sb_agency e) (sb_applicationId e) db = Some r" and "cv_outcome r = ''CLEARED''"
    and "cv_verified_at r < db_now db" and "db_now db < t"
    and "length (ve_hmac env number) = 64" and "list_all is_hex_lower (ve_hmac env number)"
    and "ve_bus env = (\<lambda>_. True)"
  shows "\<exists>db1 db3 sent v r'.
    verify_certificate env dr newId (command_of e) s db = (db1, [], Inl (Clearance_registry_unavailable (ve_requestId env))) \<and>
    clearanceDeadLetterObserver env dr' newId' CLEARANCE_CONSUMER_GROUP (Clearance_registry_unavailable (ve_requestId env))
      (Certificate_submitted e) (db1\<lparr>db_now := t\<rparr>) = (db3, sent, Some (Inr (Certificate_REVIEW_REQUIRED [CLEARANCE_UNVERIFIED] None))) \<and>
    RIB_VETTING_COMPLETED v \<in> set sent \<and> vc_applicationId v = sb_applicationId e \<and> vc_clearanceStatus v = UNDER_REVIEW \<and>
    latest_clearance (sb_agency e) (sb_applicationId e) db3 = Some r' \<and> cv_outcome r' = ''REVIEW''"
proof -
  let ?a = "sb_agency e" and ?i = "sb_applicationId e" and ?ctx = "deriveContext (sb_envelope e)"
  define base where "base = referenceOf env (command_of e) ?ctx"
  define p where "p = pending_of base (ve_requestId env)"
  define v where "v = record_of base (Decided_REVIEW [CLEARANCE_UNVERIFIED] no_facts) None"
  note key = parsed_number_shape [OF assms(2)]
  have base: "rh_agency base = ?a" "rh_applicationId base = ?i" "rh_applicantId base = sb_applicantId e" "rh_hmac base = ve_hmac env number"
      "rh_last4 base = last4 number" by (simp_all add: base_def referenceOf_def command_of_def key(1) Let_def)
  have last: "list_all (\<lambda>c. is_upper c \<or> is_digit c \<or> c = CHR ''*'') (last4 number)" using key(3) by (auto simp: list_all_iff)
  have ok: "clearance_row_ok p" "clearance_row_ok v"
    using assms(10,11) key(2) last by (simp_all add: p_def v_def pending_of_def record_of_def no_facts_def clearance_row_ok_def shape_check_def base)
  obtain db1 x where r1: "record_clearance_verification newId p db = (db1, x)" by fastforce
  have p: "vf_agency p = ?a" "vf_applicationId p = ?i" "vf_applicantId p = sb_applicantId e" "vf_outcome p = ''PENDING''" "vf_reviewReasons p = []"
    by (simp_all add: p_def pending_of_def base)
  have s1: "app_of db1 = app_of db" "db_now db1 = db_now db" "latest_clearance ?a ?i db1 = Some (clearance_row_of newId (db_now db) p)"
    using record_inserts [OF _ _ _ assms(8) _ _ ok(1) r1, of row, unfolded p] assms(4-7) by (simp_all add: p)
  have verify: "verify_certificate env dr newId (command_of e) s db = (db1, [], Inl (Clearance_registry_unavailable (ve_requestId env)))"
    using assms(1-3) r1
    by (simp add: verify_certificate_def verified_subject_def registry_answer_def command_of_def gate_context_def recordPending_def
        p_def base_def Let_def)
  obtain db3 y where r3: "record_clearance_verification newId' v (db1\<lparr>db_now := t\<rparr>) = (db3, y)" by fastforce
  have v: "vf_agency v = ?a" "vf_applicationId v = ?i" "vf_applicantId v = sb_applicantId e" "vf_outcome v = ''REVIEW''"
      "vf_reviewReasons v = [CLEARANCE_UNVERIFIED]"
    by (simp_all add: v_def record_of_def base)
  have later: "app_of (db1\<lparr>db_now := t\<rparr>) ?a ?i = Some row"
      "latest_clearance ?a ?i (db1\<lparr>db_now := t\<rparr>) = Some (clearance_row_of newId (db_now db) p)"
    using fun_cong [OF fun_cong [OF s1(1)], of ?a ?i] s1(3) assms(4) by (simp_all add: app_of_def latest_clearance_def)
  have s3: "y = Recorded" "latest_clearance ?a ?i db3 = Some (clearance_row_of newId' t v)"
    using record_inserts [OF _ _ _ _ _ _ ok(2) r3, of row "clearance_row_of newId (db_now db) p", unfolded v] later assms(5,9)
    by (simp_all add: v p clearance_row_of_def)
  have "clearanceDeadLetterObserver env dr' newId' CLEARANCE_CONSUMER_GROUP (Clearance_registry_unavailable (ve_requestId env))
      (Certificate_submitted e) (db1\<lparr>db_now := t\<rparr>) =
      (db3, [RIB_VETTING_COMPLETED (clearance_event_of dr' ?ctx (command_of e) (Decided_REVIEW [CLEARANCE_UNVERIFIED] no_facts) None),
             VETTING_AUDIT (clearance_audit_of dr' ?ctx (command_of e) base (Decided_REVIEW [CLEARANCE_UNVERIFIED] no_facts) None
               (Some ''CLEARANCE_VERIFICATION_ESCALATED''))],
       Some (Inr (Certificate_REVIEW_REQUIRED [CLEARANCE_UNVERIFIED] None)))"
    using r3 assms(12) s3(1)
    by (simp add: clearanceDeadLetterObserver_def escalateUnverified_def conclude_def command_of_def gate_context_def Let_def
        outcome_of_decision_def v_def base_def)
  with verify s3(2) show ?thesis
    by (intro exI [of _ db1] exI [of _ db3] exI conjI) (auto simp: clearance_event_of_def command_of_def clearance_row_of_def v)
qed

subsection \<open>At concrete inputs\<close>

definition sample_certificate :: json where
  "sample_certificate =
     JObj [(''status'', JBool True),
           (''data'', JObj [(''STATUS'', JBool True), (''APPLICATION_CODE'', JStr ''NO_RECORD''), (''NAME'', JStr ''Jackson NSANZIMANA''),
              (''REFERENCE_NUMBER'', JStr ''ref''), (''ISSUED_ON'', JStr ''20/05/2026''), (''DATE_OF_BIRTH'', JStr ''09/03/2001'')])]"

definition vetting_sample :: "registry_response option \<Rightarrow> vetting_env" where
  "vetting_sample response =
     \<lparr>ve_gate = gate_sample True, ve_environment = (\<lambda>_. None), ve_irembo = (\<lambda>_ _. response), ve_rib = (\<lambda>_ _. None),
      ve_requestId = ''trace'', ve_hmac = (\<lambda>_. replicate 64 CHR ''a''),
      ve_policy = \<lparr>allowedTypes = [''NO_RECORD''], noRecordTypes = [''NO_RECORD''], validityDays = 90\<rparr>, ve_bus = (\<lambda>_. True)\<rparr>"

definition answered :: "registry_response option" where
  "answered = Some \<lparr>rs_status = 200, rs_stamped = False, rs_body = Some sample_certificate\<rparr>"

definition sample_submitted :: certificate_submitted where
  "sample_submitted =
     \<lparr>sb_envelope = newEnvelope \<lparr>cx_correlationId = ''corr'', cx_causationId = ''cause''\<rparr> ''event'' ''now'',
      sb_applicantId = ''citizen'', sb_applicationId = ''app'', sb_agency = RDF, sb_category = RESERVE_FORCE_ALEVEL,
      sb_number = '' b123456789012-abcd'', sb_referenceDate = ''2026-06-30'', sb_policy = None\<rparr>"

lemma sample_number: "parseClearanceNumber (sb_number sample_submitted) = Some ''B123456789012ABCD''"
  by code_simp

lemma vetting_sample_fields:
  "verified_subject (ve_gate (vetting_sample response)) ''citizen'' gate_store gate_identity"
  "registry_answer (vetting_sample None) number = None"
  "ve_policy (vetting_sample response) = \<lparr>allowedTypes = [''NO_RECORD''], noRecordTypes = [''NO_RECORD''], validityDays = 90\<rparr>"
  "ve_bus (vetting_sample response) = (\<lambda>_. True)" "ve_hmac (vetting_sample response) number = replicate 64 CHR ''a''"
  using gate_subject by (simp_all add: vetting_sample_def registry_answer_def irembo_verify_def)

lemma vetting_sample_names: "ge_names (ve_gate (vetting_sample response)) = ge_names (gate_sample True)"
  by (simp add: vetting_sample_def)

lemma sample_cleared_event:
  assumes "verify_certificate (vetting_sample answered) gate_draws ''row'' (command_of sample_submitted) gate_store
    (one_app (sample_row SUBMITTED)) = (db', sent, ans)"
  obtains e where "RIB_VETTING_COMPLETED e \<in> set sent" "vc_clearanceStatus e = CLEARED" "vc_applicationId e = ''app''" "vc_agency e = RDF"
proof -
  let ?env = "vetting_sample answered" and ?cmd = "command_of sample_submitted" and ?db = "one_app (sample_row SUBMITTED)"
  note run = assms
  define c where "c = \<lparr>cf_type = ''NO_RECORD'', cf_issuedOn = ''2026-05-20'', cf_holderName = ''Jackson NSANZIMANA'',
    cf_holderDob = ''2001-03-09'', cf_reference = ''ref''\<rparr>"
  define policy where "policy = \<lparr>allowedTypes = [''NO_RECORD''], noRecordTypes = [''NO_RECORD''], validityDays = 90\<rparr>"
  define l where "l = Certificate_found (Certificate_in_force c) ''trace''"
  define k where "k = \<lparr>ct_certificateType = Some ''NO_RECORD'', ct_issuedOn = Some ''2026-05-20'',
    ct_binding = Some (br_fields (bindCredential (ge_names (gate_sample True)) gate_identity (certificate_claim c) [DATE_OF_BIRTH]))\<rparr>"
  have bound: "br_outcome (bindCredential (ge_names (gate_sample True)) gate_identity (certificate_claim c) [DATE_OF_BIRTH]) = BOUND"
    unfolding c_def by code_simp
  have age: "daysBetween ''2026-05-20'' ''2026-06-30'' = Some 41" by code_simp
  have l: "registry_answer ?env ''B123456789012ABCD'' = Some l" "ct_certificateType k = Some ''NO_RECORD''"
    "decideClearance (ge_names (gate_sample True)) l gate_identity policy ''2026-06-30'' = Decided_CLEARED k"
  proof -
    show "registry_answer ?env ''B123456789012ABCD'' = Some l" unfolding l_def c_def by code_simp
    show "ct_certificateType k = Some ''NO_RECORD''" by (simp add: k_def)
    have facts: "cf_type c = ''NO_RECORD''" "cf_issuedOn c = ''2026-05-20''" by (simp_all add: c_def)
    show "decideClearance (ge_names (gate_sample True)) l gate_identity policy ''2026-06-30'' = Decided_CLEARED k"
      using bound age by (simp add: decideClearance_def l_def k_def policy_def review_reasons_of_def facts Let_def)
  qed
  have ok: "usable_type ''NO_RECORD''" "list_all is_hex_lower (replicate 64 CHR ''a'')" by code_simp+
  note shape = parsed_number_shape [OF sample_number]
  have last: "list_all (\<lambda>c. is_upper c \<or> is_digit c \<or> c = CHR ''*'') (last4 ''B123456789012ABCD'')"
    using shape(3) by (auto simp: list_all_iff)
  define ctx where "ctx = deriveContext (sb_envelope sample_submitted)"
  define v where "v = record_of (referenceOf ?env ?cmd ctx) (Decided_CLEARED k) (Some (case l of Certificate_found _ r \<Rightarrow> r | Certificate_unknown r \<Rightarrow> r))"
  have "conclude ?env gate_draws ''row'' ?cmd ctx (referenceOf ?env ?cmd ctx) (Decided_CLEARED k)
      (Some (case l of Certificate_found _ r \<Rightarrow> r | Certificate_unknown r \<Rightarrow> r)) None ?db = (db', sent, ans)"
    using run l vetting_sample_fields(1) [of answered] sample_number
    by (simp add: verify_certificate_def verified_subject_def registry_answer_def [symmetric] command_of_def vetting_sample_fields
        sample_submitted_def ctx_def gate_context_def Let_def vetting_sample_names policy_def)
  moreover have "snd (record_clearance_verification ''row'' v ?db) = Recorded"
  proof -
    have "clearance_row_ok v"
      using ok last shape l(2)
      by (simp add: v_def record_of_def referenceOf_def clearance_row_ok_def shape_check_def command_of_def sample_submitted_def
          vetting_sample_fields Let_def)
    moreover have "latest_clearance RDF ''app'' ?db = None"
      by (simp add: latest_clearance_def one_app_def sample_db_def empty_schema_def)
    ultimately show ?thesis
      by (simp add: record_clearance_verification_def v_def record_of_def referenceOf_def command_of_def sample_submitted_def Let_def)
  qed
  ultimately have "\<exists>e. RIB_VETTING_COMPLETED e \<in> set sent \<and> vc_clearanceStatus e = CLEARED \<and> vc_applicationId e = ''app'' \<and> vc_agency e = RDF"
    by (auto simp: conclude_def v_def vetting_sample_fields clearance_event_of_def command_of_def sample_submitted_def split: prod.splits)
  then show thesis using that by blast
qed

theorem cleared_certificate_is_own_witness:
  "\<exists>row \<in> set (clearance_verifications (schema_of (fst (verify_certificate (vetting_sample answered) gate_draws ''row''
       (command_of sample_submitted) gate_store (one_app (sample_row SUBMITTED)))) RDF)).
     cv_application_id row = ''app'' \<and> cv_outcome row = ''CLEARED''"
proof -
  let ?env = "vetting_sample answered" and ?cmd = "command_of sample_submitted" and ?db = "one_app (sample_row SUBMITTED)"
  obtain db' sent ans where run: "verify_certificate ?env gate_draws ''row'' ?cmd gate_store ?db = (db', sent, ans)"
    by (metis prod_cases3)
  obtain e where "RIB_VETTING_COMPLETED e \<in> set sent" "vc_clearanceStatus e = CLEARED"
    using sample_cleared_event [OF run] by blast
  from cleared_certificate_is_own [OF run this] show ?thesis
    unfolding run fst_conv by (auto simp: command_of_def sample_submitted_def)
qed

theorem registry_outage_is_no_verdict_witness:
  "fst (snd (verify_certificate (vetting_sample None) gate_draws ''row'' (command_of sample_submitted) gate_store
     (one_app (sample_row SUBMITTED)))) = []"
  using registry_outage_is_no_verdict [of "vetting_sample None" "command_of sample_submitted" gate_store gate_identity
      "''B123456789012ABCD''" gate_draws "''row''" "one_app (sample_row SUBMITTED)"] sample_number vetting_sample_fields
  by (auto simp: command_of_def sample_submitted_def)

text \<open>The application, with the record of an earlier conclusion.\<close>

definition concluded_db :: "string database" where
  "concluded_db =
     sample_db (empty_schema
       \<lparr>applications := [(''app'', sample_row SUBMITTED)],
        clearance_verifications :=
          [\<lparr>cv_id = ''first'', cv_application_id = ''app'', cv_verified_at = 500, cv_outcome = ''CLEARED'',
            cv_review_reasons = Some [], cv_reference_hmac = replicate 64 CHR ''a'', cv_reference_last4 = ''ABCD'',
            cv_certificate_type = Some ''NO_RECORD'', cv_issued_on = Some ''2026-05-20'', cv_failure_code = None,
            cv_binding = None, cv_upstream_trace_id = None, cv_correlation_id = None\<rparr>]\<rparr>)"

lemma concluded_latest:
  "\<exists>r. latest_clearance RDF ''app'' concluded_db = Some r \<and> cv_outcome r = ''CLEARED'' \<and> cv_verified_at r = 500 \<and>
     cv_review_reasons r = Some []"
  "app_of concluded_db RDF ''app'' = Some (sample_row SUBMITTED)" "db_now concluded_db = 1000"
  by (simp_all add: latest_clearance_def concluded_db_def sample_db_def app_of_def)

theorem escalation_spares_a_verdict_witness:
  "fst (escalateUnverified (vetting_sample None) gate_draws ''row'' (command_of sample_submitted) concluded_db) = concluded_db"
proof -
  obtain r where "latest_clearance RDF ''app'' concluded_db = Some r" "cv_outcome r = ''CLEARED''" "cv_review_reasons r = Some []"
    using concluded_latest(1) by blast
  then show ?thesis
    using escalation_spares_a_verdict [of "command_of sample_submitted" concluded_db r "vetting_sample None" gate_draws "''row''"]
    by (auto simp: command_of_def sample_submitted_def)
qed

theorem outage_after_clearance_reopens_review_witness:
  "\<exists>db3 r'. latest_clearance RDF ''app'' (db3 :: string database) = Some r' \<and> cv_outcome r' = ''REVIEW''"
proof -
  obtain r where "latest_clearance RDF ''app'' concluded_db = Some r" "cv_outcome r = ''CLEARED''" "cv_verified_at r = 500"
    using concluded_latest(1) by blast
  moreover have "list_all is_hex_lower (replicate 64 CHR ''a'')" by code_simp
  ultimately show ?thesis
    using outage_after_clearance_reopens_review [of "vetting_sample None" sample_submitted gate_store gate_identity _ concluded_db
        "sample_row SUBMITTED" r 2000 gate_draws "''row''" gate_draws "''later''"]
      sample_number vetting_sample_fields concluded_latest(2,3)
    by (auto simp: sample_submitted_def)
qed

end
