(* ===== verification/Vetting.thy ===== *)
theory Vetting
  imports Clearance
begin

text \<open>
  From the gates to the application: the handler of
  \<open>application-service/src/adapters/events/vetting-result.consumer.ts\<close> turns the events of the age,
  academic and criminal gates into vetting results and projects them; and what a document-green status
  rests on when the messages are the gates' own.
\<close>

subsection \<open>The consumer\<close>

datatype vetting_message = From_eligibility gate_event | From_vetting vetting_event

definition optional_json :: "string \<Rightarrow> json option \<Rightarrow> (string \<times> json) list" where
  "optional_json k v = (case v of None \<Rightarrow> [] | Some x \<Rightarrow> [(k, x)])"

text \<open>The result object as it is serialised; of the details only the education check can be set.\<close>

definition eligibility_json :: "eligibility_result \<Rightarrow> json" where
  "eligibility_json r =
     JObj ([(''eligible'', JBool (er_eligible r)), (''reason'', JStr (er_reason r))] @
       optional_json ''failureCode'' (map_option JStr (er_failureCode r)) @
       optional_json ''reviewReasons''
         (if er_reviewReasons r = [] then None else Some (JArr (map (JStr \<circ> nesa_reason_text) (er_reviewReasons r)))) @
       [(''evaluatedAt'', JStr (er_evaluatedAt r)),
        (''details'', JObj [(''citizenshipCheck'', JNull), (''ageCheck'', JNull),
           (''educationCheck'', case er_educationCheck r of None \<Rightarrow> JNull | Some b \<Rightarrow> JBool b),
           (''criminalCheck'', JNull), (''prosecutionCheck'', JNull), (''dismissalCheck'', JNull),
           (''moralCharacterCheck'', JNull), (''healthCheck'', JNull)])])"

definition age_detail :: "age_event \<Rightarrow> json" where
  "age_detail e =
     JObj [(''eligible'', JBool (ag_eligible e)), (''ageAtEvaluation'', JNum (of_int (ag_ageAtEvaluation e))),
       (''appliedMaxAge'', JNum (of_int (ag_appliedMaxAge e))), (''reason'', JStr (ag_reason e))]"

text \<open>\<open>None\<close> is an event that is no vetting result: the handler returns.\<close>

fun vetting_result_of :: "vetting_message \<Rightarrow> vetting_result option" where
  "vetting_result_of (From_eligibility (AGE_COMPLETED e)) =
     Some \<lparr>vr_application_id = ag_applicationId e, vr_agency = ag_agency e, vr_correlation_id = ev_correlationId (ag_envelope e),
           vr_verdict = AgeVerdict (ag_ageStatus e) (age_detail e)\<rparr>"
| "vetting_result_of (From_eligibility (NESA_COMPLETED e)) =
     Some \<lparr>vr_application_id = ne_applicationId e, vr_agency = ne_agency e, vr_correlation_id = ev_correlationId (ne_envelope e),
           vr_verdict = AcademicVerdict (ne_academicStatus e) NESA (ne_nesaRequestId e) (eligibility_json (ne_eligibilityResult e))\<rparr>"
| "vetting_result_of (From_eligibility (HEC_COMPLETED e)) =
     Some \<lparr>vr_application_id = hc_applicationId e, vr_agency = hc_agency e, vr_correlation_id = ev_correlationId (hc_envelope e),
           vr_verdict = AcademicVerdict (hc_academicStatus e) HEC (hc_hecRequestId e) (eligibility_json (hc_eligibilityResult e))\<rparr>"
| "vetting_result_of (From_vetting (RIB_VETTING_COMPLETED e)) =
     Some \<lparr>vr_application_id = vc_applicationId e, vr_agency = vc_agency e, vr_correlation_id = ev_correlationId (vc_envelope e),
           vr_verdict = CriminalVerdict (vc_clearanceStatus e) (threshold_text (vc_appliedThreshold e)) (vc_ribRequestId e)\<rparr>"
| "vetting_result_of _ = None"

definition on_vetting_message ::
  "lifecycle_options \<Rightarrow> (apply_vetting_outcome \<Rightarrow> 'ev list) option \<Rightarrow> vetting_message \<Rightarrow> 'ev database \<Rightarrow> 'ev database" where
  "on_vetting_message opts stage m db =
     (case vetting_result_of m of None \<Rightarrow> db | Some result \<Rightarrow> fst (applyVettingResult opts stage result db))"

text \<open>The deliveries of the consumer group, duplicates and any order included.\<close>

fun deliver_messages ::
  "lifecycle_options \<Rightarrow> (apply_vetting_outcome \<Rightarrow> 'ev list) option \<Rightarrow> vetting_message list \<Rightarrow> 'ev database \<Rightarrow> 'ev database" where
  "deliver_messages opts stage [] db = db"
| "deliver_messages opts stage (m # ms) db = deliver_messages opts stage ms (on_vetting_message opts stage m db)"

subsection \<open>The gates' calls\<close>

text \<open>One call of a gate's use case, with the environment, the command and the stores it ran on.\<close>

datatype gate_call =
    Age_call gate_env auth_draws evaluate_age_command "string identity_store"
  | Nesa_call gate_env auth_draws nesa_command "string identity_store"
  | Hec_call gate_env auth_draws hec_command "string identity_store" "string identity_store"
  | Certificate_call vetting_env auth_draws uuid clearance_command "string identity_store" "string database"
  | Escalation_call vetting_env auth_draws uuid clearance_command "string database"
  | Records_call vetting_env auth_draws applicant_submitted

fun messages_of :: "gate_call \<Rightarrow> vetting_message list" where
  "messages_of (Age_call env dr cmd s) = map From_eligibility (fst (evaluate_age env dr cmd s))"
| "messages_of (Nesa_call env dr cmd s) = map From_eligibility (fst (verify_nesa env dr cmd s))"
| "messages_of (Hec_call env dr cmd s later) = map From_eligibility (fst (verify_hec env dr cmd s later))"
| "messages_of (Certificate_call env dr newId cmd s db) = map From_vetting (fst (snd (verify_certificate env dr newId cmd s db)))"
| "messages_of (Escalation_call env dr newId cmd db) = map From_vetting (fst (snd (escalateUnverified env dr newId cmd db)))"
| "messages_of (Records_call env dr cmd) = map From_vetting (fst (verify_criminal env dr cmd))"

text \<open>The application a call is about, with the applicant and the category its command carries.\<close>

fun subject_of :: "gate_call \<Rightarrow> uuid option \<times> uuid \<times> application_category" where
  "subject_of (Age_call _ _ cmd _) = (ec_applicationId cmd, ec_applicantId cmd, ec_category cmd)"
| "subject_of (Nesa_call _ _ cmd _) = (Some (nk_applicationId cmd), nk_applicantId cmd, nk_category cmd)"
| "subject_of (Hec_call _ _ cmd _ _) = (Some (hk_applicationId cmd), hk_applicantId cmd, hk_category cmd)"
| "subject_of (Certificate_call _ _ _ cmd _ _) = (Some (cs_applicationId cmd), cs_applicantId cmd, cs_category cmd)"
| "subject_of (Escalation_call _ _ _ cmd _) = (Some (cs_applicationId cmd), cs_applicantId cmd, cs_category cmd)"
| "subject_of (Records_call _ _ cmd) = (Some (sm_applicationId cmd), sm_applicantId cmd, sm_category cmd)"

subsection \<open>What a call found\<close>

text \<open>The day the age is counted on: the policy's pinned one, else the command's, else now.\<close>

definition age_reference :: "gate_env \<Rightarrow> evaluate_age_command \<Rightarrow> pinned_policy option \<Rightarrow> instant option" where
  "age_reference env cmd pinned =
     (case pinned of
        Some p \<Rightarrow> ge_date env (pp_referenceDate p @ ''T00:00:00Z'')
      | None \<Rightarrow>
          (case ec_referenceDate cmd of
             Some d \<Rightarrow> if d \<noteq> [] then ge_date env d else Some (ge_clock env)
           | None \<Rightarrow> Some (ge_clock env)))"

text \<open>
  In the call's own environment and store: the applicant was verified, and the birth date on the row
  gives an age inside the window that applies.
\<close>

fun age_admitted :: "agency \<Rightarrow> gate_call \<Rightarrow> bool" where
  "age_admitted a (Age_call env dr cmd s) \<longleftrightarrow>
     agencyForCategory (ec_category cmd) = Some a \<and>
     (\<exists>dob pinned day age. findApplicantById env (ec_applicantId cmd) s = Some (Some (dob, IDENTITY_VERIFIED)) \<and>
        pinned_for env (ec_applicationId cmd) (ec_category cmd) = Some pinned \<and>
        age_reference env cmd pinned = Some day \<and> ageInYears dob (Some day) = Some (Some age) \<and>
        (let c = (case Option.bind pinned ageWindowFromPolicy of Some w \<Rightarrow> w | None \<Rightarrow> AGE_CRITERIA (ec_category cmd)) in
         minAge c \<le> age \<and> age \<le> maxAge c))"
| "age_admitted a _ \<longleftrightarrow> False"

text \<open>
  The applicant was verified, and the registry's results are published, the applicant's own, free of
  malpractice and passed; or the council has a degree under the applicant's own lookup hash.
\<close>

fun studies_proven :: "agency \<Rightarrow> gate_call \<Rightarrow> bool" where
  "studies_proven a (Nesa_call env dr cmd s) \<longleftrightarrow>
     agencyForCategory (nk_category cmd) = Some a \<and>
     (\<exists>identity req results. verified_subject env (nk_applicantId cmd) s identity \<and>
        ge_nesa env (nk_nesaIndexNumber cmd) = Some (NESA_FOUND req results) \<and>
        same_person (ge_names env) identity (nesa_claim results) \<and> stated SEX identity (nesa_claim results) \<and>
        stated NATIONAL_ID_HINT identity (nesa_claim results) \<and>
        nr_published results \<and> \<not> nr_malpractice results \<and> nr_division results = ''PASS'')"
| "studies_proven a (Hec_call env dr cmd s later) \<longleftrightarrow>
     agencyForCategory (hk_category cmd) = Some a \<and>
     (\<exists>h req payload. findG2GSubjectById env (hk_applicantId cmd) s = Some (Some (Some h, IDENTITY_VERIFIED)) \<and>
        ge_hec env (hk_hecRegistrationNumber cmd) h = Some (HEC_VERIFIED req payload))"
| "studies_proven a _ \<longleftrightarrow> False"

text \<open>The applicant's own certificate in force, on the record; or the bureau's clear flag.\<close>

fun record_clean :: "agency \<Rightarrow> gate_call \<Rightarrow> bool" where
  "record_clean a (Certificate_call env dr newId cmd s db) \<longleftrightarrow>
     cs_agency cmd = a \<and> own_certificate env cmd s (fst (verify_certificate env dr newId cmd s db))"
| "record_clean a (Records_call env dr cmd) \<longleftrightarrow>
     agencyForCategory (sm_category cmd) = Some a \<and>
     rib_checkVetting (ve_requestId env) (ve_rib env (sm_nationalIdHash cmd) (ve_requestId env)) = Inr RIB_CLEAR"
| "record_clean a _ \<longleftrightarrow> False"

definition review_announced :: "agency \<Rightarrow> uuid \<Rightarrow> gate_call \<Rightarrow> bool" where
  "review_announced a i k \<longleftrightarrow>
     (\<exists>e. From_vetting (RIB_VETTING_COMPLETED e) \<in> set (messages_of k) \<and> vc_agency e = a \<and> vc_applicationId e = i \<and>
        vc_clearanceStatus e = UNDER_REVIEW)"

subsection \<open>What an event tells of its call\<close>

lemma publish_event: "publish_each bus es = (sent, ok) \<Longrightarrow> e \<in> set sent \<Longrightarrow> e \<in> set es"
  using publish_each_subset by blast

text \<open>Each use case publishes its own kind of result, and audit entries.\<close>

lemma age_kinds:
  "evaluate_age env dr cmd s = (sent, ans) \<Longrightarrow> x \<in> set sent \<Longrightarrow> (\<exists>e. x = AGE_COMPLETED e) \<or> (\<exists>e. x = GATE_AUDIT e)"
  by (auto simp: evaluate_age_def Let_def announce_then_def split: option.splits prod.splits if_splits dest!: publish_event)

lemma nesa_announced:
  "announce_then env (nesa_events dr ctx cmd a education req stamp gate) answer = (sent, ans) \<Longrightarrow> x \<in> set sent \<Longrightarrow>
     (\<exists>e. x = NESA_COMPLETED e) \<or> (\<exists>e. x = GATE_AUDIT e)"
  using announced [of env "nesa_events dr ctx cmd a education req stamp gate" answer sent ans] by (auto simp: nesa_events_def Let_def)

lemma hec_announced:
  "announce_then env (hec_events dr ctx cmd a v education req stamp action payload) answer = (sent, ans) \<Longrightarrow> x \<in> set sent \<Longrightarrow>
     (\<exists>e. x = HEC_COMPLETED e) \<or> (\<exists>e. x = GATE_AUDIT e)"
  using announced [of env "hec_events dr ctx cmd a v education req stamp action payload" answer sent ans] by (auto simp: hec_events_def)

lemma nesa_kinds:
  "verify_nesa env dr cmd s = (sent, ans) \<Longrightarrow> x \<in> set sent \<Longrightarrow> (\<exists>e. x = NESA_COMPLETED e) \<or> (\<exists>e. x = GATE_AUDIT e)"
  by (auto simp: verify_nesa_def Let_def dest: nesa_announced
      split: option.splits prod.splits if_splits nesa_lookup.splits nesa_gate_decision.splits)

lemma hec_kinds:
  "verify_hec env dr cmd s later = (sent, ans) \<Longrightarrow> x \<in> set sent \<Longrightarrow> (\<exists>e. x = HEC_COMPLETED e) \<or> (\<exists>e. x = GATE_AUDIT e)"
  by (auto simp: verify_hec_def Let_def dest: hec_announced split: option.splits prod.splits if_splits hec_lookup.splits)

lemma age_event_call:
  assumes "AGE_COMPLETED e \<in> set (fst (evaluate_age env dr cmd s))"
  shows "ec_applicationId cmd = Some (ag_applicationId e)"
    and "ag_ageStatus e = ELIGIBLE \<Longrightarrow> age_admitted (ag_agency e) (Age_call env dr cmd s)"
proof -
  obtain sent ans where run: "evaluate_age env dr cmd s = (sent, ans)" by (rule prod.exhaust)
  then have sent: "AGE_COMPLETED e \<in> set sent" using assms by simp
  obtain dob where subject: "findApplicantById env (ec_applicantId cmd) s = Some (Some (dob, IDENTITY_VERIFIED))"
    using run sent by (auto simp: evaluate_age_def split: option.splits prod.splits if_splits)
  obtain pinned where pinned: "pinned_for env (ec_applicationId cmd) (ec_category cmd) = Some pinned"
    using run sent subject by (cases "pinned_for env (ec_applicationId cmd) (ec_category cmd)") (auto simp: evaluate_age_def)
  have unread: "evaluate_age env dr cmd s =
      (case evaluateAgeEligibility (ge_print env) (ec_category cmd) dob (age_reference env cmd pinned) (Option.bind pinned ageWindowFromPolicy) of
         None \<Rightarrow> ([], Inl Invalid_date)
       | Some result \<Rightarrow>
           (case agencyForCategory (ec_category cmd) of
              None \<Rightarrow> ([], Inl Unknown_category)
            | Some a \<Rightarrow>
                let ctx = gate_context dr (ec_context cmd) in
                announce_then env
                  (GATE_AUDIT (age_audit_of (envelope dr 1 ctx) cmd a result) #
                   (case ec_applicationId cmd of
                      None \<Rightarrow> []
                    | Some i \<Rightarrow> [AGE_COMPLETED (age_event_of (envelope dr 2 ctx) cmd i a result)]))
                  (AGE_EVALUATED a result)))"
    using subject pinned by (cases pinned) (simp_all add: evaluate_age_def age_reference_def Let_def)
  obtain r a i where r: "evaluateAgeEligibility (ge_print env) (ec_category cmd) dob (age_reference env cmd pinned)
        (Option.bind pinned ageWindowFromPolicy) = Some r"
      "agencyForCategory (ec_category cmd) = Some a" "ec_applicationId cmd = Some i"
      "ag_applicationId e = i" "ag_agency e = a" "ag_ageStatus e = ELIGIBLE \<longleftrightarrow> ae_eligible r"
    using run sent unfolding unread
    by (auto simp: Let_def announce_then_def age_event_of_def split: option.splits prod.splits if_splits dest!: publish_event)
  then show "ec_applicationId cmd = Some (ag_applicationId e)" by simp
  obtain day age where "age_reference env cmd pinned = Some day" "ageInYears dob (Some day) = Some (Some age)"
      "ae_eligible r \<longleftrightarrow> (let c = (case Option.bind pinned ageWindowFromPolicy of Some w \<Rightarrow> w | None \<Rightarrow> AGE_CRITERIA (ec_category cmd)) in
         minAge c \<le> age \<and> age \<le> maxAge c)"
    using r(1) by (auto simp: evaluateAgeEligibility_def Let_def split: option.splits)
  then show "age_admitted (ag_agency e) (Age_call env dr cmd s)" if "ag_ageStatus e = ELIGIBLE"
    using subject pinned r that by auto
qed

lemma nesa_event_call:
  assumes "NESA_COMPLETED e \<in> set (fst (verify_nesa env dr cmd s))"
  shows "nk_applicationId cmd = ne_applicationId e"
    and "ne_academicStatus e = ELIGIBLE \<Longrightarrow> studies_proven (ne_agency e) (Nesa_call env dr cmd s)"
proof -
  obtain sent ans where run: "verify_nesa env dr cmd s = (sent, ans)" by (rule prod.exhaust)
  then have sent: "NESA_COMPLETED e \<in> set sent" using assms by simp
  have origin: "ne_applicationId e = nk_applicationId cmd \<and> agencyForCategory (nk_category cmd) = Some (ne_agency e)"
    using run sent
    by (auto simp: verify_nesa_def Let_def dest!: announced nesa_events_status subsetD
        split: option.splits prod.splits if_splits nesa_lookup.splits nesa_gate_decision.splits)
  then show "nk_applicationId cmd = ne_applicationId e" by simp
  show "studies_proven (ne_agency e) (Nesa_call env dr cmd s)" if "ne_academicStatus e = ELIGIBLE"
    using run sent
  proof (cases rule: nesa_verdict_cases)
    case (judged identity req results b facts pinned)
    with evaluated_is_bound [OF judged(3)] origin show ?thesis by auto
  qed (use that in auto)
qed

lemma hec_events_status:
  "HEC_COMPLETED e \<in> set (hec_events dr ctx cmd a verified education req stamp action payload) \<Longrightarrow>
     hc_academicStatus e = ed_academicStatus education \<and> hc_applicationId e = hk_applicationId cmd \<and> hc_agency e = a"
  by (auto simp: hec_events_def)

lemma hec_event_call:
  assumes "HEC_COMPLETED e \<in> set (fst (verify_hec env dr cmd s later))"
  shows "hk_applicationId cmd = hc_applicationId e"
    and "hc_academicStatus e = ELIGIBLE \<Longrightarrow> studies_proven (hc_agency e) (Hec_call env dr cmd s later)"
proof -
  obtain sent ans where run: "verify_hec env dr cmd s later = (sent, ans)" by (rule prod.exhaust)
  then have sent: "HEC_COMPLETED e \<in> set sent" using assms by simp
  obtain h where subject: "findG2GSubjectById env (hk_applicantId cmd) s = Some (Some (Some h, IDENTITY_VERIFIED))"
    using run sent by (auto simp: verify_hec_def split: option.splits prod.splits if_splits)
  obtain lookup a where found: "ge_hec env (hk_hecRegistrationNumber cmd) h = Some lookup" "agencyForCategory (hk_category cmd) = Some a"
      "hecVerificationRequired (EDUCATION_REQUIREMENTS (hk_category cmd))"
    using run sent subject by (auto simp: verify_hec_def split: option.splits if_splits)
  have "hc_applicationId e = hk_applicationId cmd \<and> hc_agency e = a \<and>
      (hc_academicStatus e = ELIGIBLE \<longrightarrow> (\<exists>req payload. lookup = HEC_VERIFIED req payload))"
  proof (cases lookup)
    case (HEC_HOLDER_MISMATCH req)
    with run sent subject found show ?thesis
      by (auto simp: verify_hec_def Let_def unfinished_def dest!: announced hec_events_status subsetD)
  next
    case (HEC_NOT_FOUND req)
    with run sent subject found show ?thesis
      by (auto simp: verify_hec_def Let_def unfinished_def dest!: announced hec_events_status subsetD)
  next
    case (HEC_VERIFIED req payload)
    with run sent subject found show ?thesis
      by (auto simp: verify_hec_def Let_def dest!: announced hec_events_status subsetD split: option.splits prod.splits if_splits)
  qed
  with subject found show "hk_applicationId cmd = hc_applicationId e"
    and "hc_academicStatus e = ELIGIBLE \<Longrightarrow> studies_proven (hc_agency e) (Hec_call env dr cmd s later)"
    by auto
qed

lemma certificate_event_call:
  assumes "RIB_VETTING_COMPLETED e \<in> set (fst (snd (verify_certificate env dr newId cmd s db)))"
  shows "cs_applicationId cmd = vc_applicationId e"
    and "vc_clearanceStatus e = CLEARED \<Longrightarrow> record_clean (vc_agency e) (Certificate_call env dr newId cmd s db)"
proof -
  obtain db' sent ans where run: "verify_certificate env dr newId cmd s db = (db', sent, ans)" by (metis prod_cases3)
  then have sent: "RIB_VETTING_COMPLETED e \<in> set sent" using assms by simp
  have origin: "vc_applicationId e = cs_applicationId cmd" "vc_agency e = cs_agency cmd"
    using run sent by (rule verify_certificate_event, simp add: clearance_event_of_def)+
  then show "cs_applicationId cmd = vc_applicationId e" by simp
  show "record_clean (vc_agency e) (Certificate_call env dr newId cmd s db)" if "vc_clearanceStatus e = CLEARED"
    using cleared_event_certificate [OF run sent that] origin run by simp
qed

lemma escalation_event_call:
  assumes "RIB_VETTING_COMPLETED e \<in> set (fst (snd (escalateUnverified env dr newId cmd db)))"
  shows "cs_applicationId cmd = vc_applicationId e \<and> vc_clearanceStatus e = UNDER_REVIEW"
proof -
  define ctx where "ctx = gate_context dr (kc_context cmd)"
  obtain db' sent ans where run: "conclude env dr newId cmd ctx (referenceOf env cmd ctx)
      (Decided_REVIEW [CLEARANCE_UNVERIFIED] no_facts) None (Some ''CLEARANCE_VERIFICATION_ESCALATED'') db = (db', sent, ans)"
    by (metis prod_cases3)
  then have sent: "RIB_VETTING_COMPLETED e \<in> set sent" using assms by (simp add: escalateUnverified_def ctx_def Let_def)
  show ?thesis using run by (cases rule: conclude_cases) (use sent in \<open>auto simp: clearance_event_of_def\<close>)
qed

lemma records_event_call:
  assumes "RIB_VETTING_COMPLETED e \<in> set (fst (verify_criminal env dr cmd))"
  shows "sm_applicationId cmd = vc_applicationId e"
    and "vc_clearanceStatus e = CLEARED \<Longrightarrow> record_clean (vc_agency e) (Records_call env dr cmd)"
proof -
  obtain status where status: "rib_checkVetting (ve_requestId env) (ve_rib env (sm_nationalIdHash cmd) (ve_requestId env)) = Inr status"
    using assms by (auto simp: verify_criminal_def split: sum.splits)
  let ?decision = "evaluateCriminalClearance (sm_category cmd) status"
  obtain a where a: "agencyForCategory (sm_category cmd) = Some a"
    using assms status by (cases "agencyForCategory (sm_category cmd)") (simp_all add: verify_criminal_def Let_def)
  obtain sent ok where sent: "publish_each (ve_bus env)
      (rib_events dr (deriveContext (sm_envelope cmd)) cmd a status ?decision (ve_requestId env)) = (sent, ok)"
    by (rule prod.exhaust)
  have "RIB_VETTING_COMPLETED e \<in> set (rib_events dr (deriveContext (sm_envelope cmd)) cmd a status ?decision (ve_requestId env))"
    using assms status a sent publish_each_subset [OF sent] by (auto simp: verify_criminal_def Let_def)
  then have "vc_applicationId e = sm_applicationId cmd \<and> agencyForCategory (sm_category cmd) = Some (vc_agency e) \<and>
      vc_clearanceStatus e = cd_clearanceStatus ?decision"
    using a by (simp add: rib_events_def)
  moreover have "status = RIB_CLEAR" if "cd_clearanceStatus (evaluateCriminalClearance (sm_category cmd) status) = CLEARED"
    using that by (cases status) (auto simp: evaluateCriminalClearance_def Let_def split: if_splits)
  ultimately show "sm_applicationId cmd = vc_applicationId e"
    and "vc_clearanceStatus e = CLEARED \<Longrightarrow> record_clean (vc_agency e) (Records_call env dr cmd)"
    using status by auto
qed

subsection \<open>Green rests on the gates\<close>

text \<open>What a verdict on an application rests on, among the calls about it.\<close>

definition verdict_grounded :: "agency \<Rightarrow> uuid \<Rightarrow> gate_call set \<Rightarrow> vetting_verdict \<Rightarrow> bool" where
  "verdict_grounded a i K v \<longleftrightarrow>
     (case v of
        AgeVerdict s _ \<Rightarrow> s = ELIGIBLE \<longrightarrow> (\<exists>k \<in> K. age_admitted a k)
      | AcademicVerdict s _ _ _ \<Rightarrow> s = ELIGIBLE \<longrightarrow> (\<exists>k \<in> K. studies_proven a k)
      | CriminalVerdict s _ _ \<Rightarrow>
          (s = CLEARED \<longrightarrow> (\<exists>k \<in> K. record_clean a k)) \<and> (s = UNDER_REVIEW \<longrightarrow> (\<exists>k \<in> K. review_announced a i k)))"

text \<open>What the row's columns, and its status, rest on.\<close>

definition gates_passed :: "lifecycle_options \<Rightarrow> agency \<Rightarrow> uuid \<Rightarrow> gate_call set \<Rightarrow> bool" where
  "gates_passed opts a i K \<longleftrightarrow>
     (\<exists>k \<in> K. age_admitted a k) \<and> (\<exists>k \<in> K. studies_proven a k) \<and>
     ((\<exists>k \<in> K. record_clean a k) \<or> clearanceContentReviewAdmitsToExam opts \<and> (\<exists>k \<in> K. review_announced a i k))"

definition grounded :: "lifecycle_options \<Rightarrow> agency \<Rightarrow> uuid \<Rightarrow> gate_call set \<Rightarrow> app_row \<Rightarrow> bool" where
  "grounded opts a i K r \<longleftrightarrow>
     (age_eligibility_status r = ELIGIBLE \<longrightarrow> (\<exists>k \<in> K. age_admitted a k)) \<and>
     (academic_status r = ELIGIBLE \<longrightarrow> (\<exists>k \<in> K. studies_proven a k)) \<and>
     (app_row.criminal_clearance_status r = CLEARED \<longrightarrow> (\<exists>k \<in> K. record_clean a k)) \<and>
     (app_row.criminal_clearance_status r = UNDER_REVIEW \<longrightarrow> (\<exists>k \<in> K. review_announced a i k)) \<and>
     (app_status r = DOCUMENT_REVIEW_GREEN \<longrightarrow> gates_passed opts a i K)"

lemma eligibility_message_grounded:
  assumes "From_eligibility x \<in> set (messages_of k)" and "vetting_result_of (From_eligibility x) = Some result"
  shows "fst (subject_of k) = Some (vr_application_id result)"
    and "verdict_grounded (vr_agency result) i {k} (vr_verdict result)"
proof -
  have "fst (subject_of k) = Some (vr_application_id result) \<and> verdict_grounded (vr_agency result) i {k} (vr_verdict result)"
  proof (cases k)
    case (Age_call env dr cmd s)
    then obtain e where "x = AGE_COMPLETED e"
      using assms age_kinds [of env dr cmd s "fst (evaluate_age env dr cmd s)" "snd (evaluate_age env dr cmd s)" x] by auto
    with assms Age_call age_event_call [of e env dr cmd s] show ?thesis by (auto simp: verdict_grounded_def)
  next
    case (Nesa_call env dr cmd s)
    then obtain e where "x = NESA_COMPLETED e"
      using assms nesa_kinds [of env dr cmd s "fst (verify_nesa env dr cmd s)" "snd (verify_nesa env dr cmd s)" x] by auto
    with assms Nesa_call nesa_event_call [of e env dr cmd s] show ?thesis by (auto simp: verdict_grounded_def)
  next
    case (Hec_call env dr cmd s later)
    then obtain e where "x = HEC_COMPLETED e"
      using assms hec_kinds [of env dr cmd s later "fst (verify_hec env dr cmd s later)" "snd (verify_hec env dr cmd s later)" x] by auto
    with assms Hec_call hec_event_call [of e env dr cmd s later] show ?thesis by (auto simp: verdict_grounded_def)
  qed (use assms(1) in auto)
  then show "fst (subject_of k) = Some (vr_application_id result)"
    and "verdict_grounded (vr_agency result) i {k} (vr_verdict result)" by blast+
qed

lemma vetting_message_grounded:
  assumes "From_vetting (RIB_VETTING_COMPLETED e) \<in> set (messages_of k)"
  shows "fst (subject_of k) = Some (vc_applicationId e)"
    and "verdict_grounded (vc_agency e) (vc_applicationId e) {k} (CriminalVerdict (vc_clearanceStatus e) t q)"
proof -
  have "review_announced (vc_agency e) (vc_applicationId e) k" if "vc_clearanceStatus e = UNDER_REVIEW"
    using assms that by (auto simp: review_announced_def)
  moreover have "fst (subject_of k) = Some (vc_applicationId e) \<and> (vc_clearanceStatus e = CLEARED \<longrightarrow> record_clean (vc_agency e) k)"
  proof (cases k)
    case (Certificate_call env dr newId cmd s db)
    with assms certificate_event_call [of e env dr newId cmd s db] show ?thesis by auto
  next
    case (Escalation_call env dr newId cmd db)
    with assms escalation_event_call [of e env dr newId cmd db] show ?thesis by auto
  next
    case (Records_call env dr cmd)
    with assms records_event_call [of e env dr cmd] show ?thesis by auto
  qed (use assms in auto)
  ultimately show "fst (subject_of k) = Some (vc_applicationId e)"
    and "verdict_grounded (vc_agency e) (vc_applicationId e) {k} (CriminalVerdict (vc_clearanceStatus e) t q)"
    by (auto simp: verdict_grounded_def)
qed

lemma message_grounded:
  assumes "m \<in> set (messages_of k)" and "vetting_result_of m = Some result"
  shows "fst (subject_of k) = Some (vr_application_id result)"
    and "verdict_grounded (vr_agency result) (vr_application_id result) {k} (vr_verdict result)"
proof -
  have "fst (subject_of k) = Some (vr_application_id result) \<and>
      verdict_grounded (vr_agency result) (vr_application_id result) {k} (vr_verdict result)"
  proof (cases m)
    case (From_eligibility x)
    with assms eligibility_message_grounded show ?thesis by blast
  next
    case (From_vetting x)
    with assms show ?thesis by (cases x) (auto dest: vetting_message_grounded)
  qed
  then show "fst (subject_of k) = Some (vr_application_id result)"
    and "verdict_grounded (vr_agency result) (vr_application_id result) {k} (vr_verdict result)" by blast+
qed

lemma verdict_grounded_mono: "verdict_grounded a i K v \<Longrightarrow> K \<subseteq> L \<Longrightarrow> verdict_grounded a i L v"
  unfolding verdict_grounded_def by (cases v) auto

text \<open>The calls about one application.\<close>

definition calls_about :: "uuid \<Rightarrow> gate_call set \<Rightarrow> gate_call set" where
  "calls_about i K = {k \<in> K. fst (subject_of k) = Some i}"

lemma grounded_step:
  assumes "grounded opts a i K r" and "verdict_grounded a i K v"
    and "t = deriveApplicationStatus (app_status r) (projected_evidence opts b j v r db) opts"
  shows "grounded opts a i K ((write_verdict b now v r)\<lparr>app_status := t, updated_at := u\<rparr>)"
proof -
  let ?e = "projected_evidence opts b j v r db"
  have cols: "ageStatus ?e = ELIGIBLE \<Longrightarrow> \<exists>k \<in> K. age_admitted a k" "academicStatus ?e = ELIGIBLE \<Longrightarrow> \<exists>k \<in> K. studies_proven a k"
      "criminalStatus ?e = CLEARED \<Longrightarrow> \<exists>k \<in> K. record_clean a k"
      "criminalStatus ?e = UNDER_REVIEW \<Longrightarrow> \<exists>k \<in> K. review_announced a i k"
    using assms(1,2) by (auto simp: projected_evidence_def grounded_def verdict_grounded_def Let_def split: vetting_verdict.splits)
  have "t = DOCUMENT_REVIEW_GREEN \<Longrightarrow> app_status r = DOCUMENT_REVIEW_GREEN \<or> allGatesPassed ?e opts"
    using derive_into_green [of "app_status r" ?e opts] assms(3) by auto
  then have green: "t = DOCUMENT_REVIEW_GREEN \<Longrightarrow> gates_passed opts a i K"
    using assms(1) cols by (auto simp: grounded_def gates_passed_def allGatesPassed_def criminalAllowsScheduling_def)
  from assms(1,2) green show ?thesis
    by (auto simp: grounded_def verdict_grounded_def write_verdict_def split: vetting_verdict.splits verified_via.splits)
qed

lemma message_keeps_ground:
  assumes "app_of db a i = Some r" and "grounded opts a i (calls_about i K) r" and "\<exists>k \<in> K. m \<in> set (messages_of k)"
  shows "\<exists>r'. app_of (on_vetting_message opts stage m db) a i = Some r' \<and> grounded opts a i (calls_about i K) r'"
proof (cases "vetting_result_of m")
  case None
  with assms show ?thesis by (simp add: on_vetting_message_def)
next
  case (Some result)
  let ?db' = "fst (applyVettingResult opts stage result db)"
  obtain k where k: "k \<in> K" "m \<in> set (messages_of k)" using assms(3) by blast
  have "\<exists>r'. app_of ?db' a i = Some r' \<and> grounded opts a i (calls_about i K) r'"
  proof (cases "vr_agency result = a \<and> vr_application_id result = i")
    case True
    have ground: "verdict_grounded a i (calls_about i K) (vr_verdict result)"
    proof (rule verdict_grounded_mono)
      show "verdict_grounded a i {k} (vr_verdict result)" using message_grounded(2) [OF k(2) Some] True by simp
      show "{k} \<subseteq> calls_about i K" using message_grounded(1) [OF k(2) Some] k(1) True by (simp add: calls_about_def)
    qed
    show ?thesis
    proof (cases rule: applyVettingResult_cases [of db result opts stage])
      case (applied q t ap db2)
      then have [simp]: "q = r" using True assms(1) by simp
      let ?r' = "(write_verdict a (db_now db) (vr_verdict result) r)\<lparr>app_status := t, updated_at := db_now db\<rparr>"
      have "app_of ?db' a i = Some ?r'"
        using applied True assms(1) by (auto simp: store_simps Let_def split: option.split)
      moreover have "grounded opts a i (calls_about i K) ?r'"
        by (rule grounded_step [OF assms(2) ground]) (use applied(3) True in simp)
      ultimately show ?thesis by blast
    qed (use assms True in auto)
  next
    case False
    have "app_of ?db' a i = app_of db a i"
      using applyVettingResult_local [of result db opts stage] False unfolding local_to_def app_of_def by (cases "vr_agency result = a") auto
    with assms show ?thesis by simp
  qed
  with Some show ?thesis by (simp add: on_vetting_message_def)
qed

lemma messages_keep_ground:
  assumes "app_of db a i = Some r" and "grounded opts a i (calls_about i K) r"
    and "\<forall>m \<in> set ms. \<exists>k \<in> K. m \<in> set (messages_of k)"
  shows "\<exists>r'. app_of (deliver_messages opts stage ms db) a i = Some r' \<and> grounded opts a i (calls_about i K) r'"
  using assms
proof (induction ms arbitrary: db r)
  case (Cons m ms)
  obtain r' where "app_of (on_vetting_message opts stage m db) a i = Some r'" "grounded opts a i (calls_about i K) r'"
    using message_keeps_ground [OF Cons.prems(1,2), of m stage] Cons.prems(3) by auto
  from Cons.IH [OF this] Cons.prems(3) show ?case by simp
qed auto



end
