(* ===== verification/Forensics.thy ===== *)
theory Forensics
  imports SharedTypes "HOL-Library.Word"
begin

text \<open>
  The pure part of \<open>services/document-forensics-service/src/domain\<close>: the byte probes of
  \<open>forensics.ts\<close> (container by magic number, the JPEG segment walk, the PNG chunk walk, the bounded PDF
  text probe), the verdict composed from them, and the envelope of \<open>document-envelope.ts\<close> in which a
  document rests in the object store.

  A \<open>Buffer\<close> is a list of bytes. The walks are proved against writers of the two containers: they report
  what the segments, or chunks, that were written carry. AES-256-GCM is a record of two functions.
\<close>

subsection \<open>Buffers\<close>

type_synonym buffer = "8 word list"

definition subarray :: "buffer \<Rightarrow> nat \<Rightarrow> nat \<Rightarrow> buffer" where
  "subarray b i j = take (j - i) (drop i b)"

definition latin1 :: "buffer \<Rightarrow> string" where
  "latin1 b = map (\<lambda>w. char_of (unat w)) b"

text \<open>\<open>Buffer.from\<close> of a literal; every literal of the source is ASCII.\<close>

definition bytes_of :: "string \<Rightarrow> buffer" where
  "bytes_of s = map (\<lambda>c. of_nat (of_char c)) s"

text \<open>Both readers throw past the end of the buffer; the walks call them within it.\<close>

definition readUInt16BE :: "buffer \<Rightarrow> nat \<Rightarrow> nat" where
  "readUInt16BE b i = unat (b ! i) * 256 + unat (b ! (i + 1))"

definition readUInt32BE :: "buffer \<Rightarrow> nat \<Rightarrow> nat" where
  "readUInt32BE b i = readUInt16BE b i * 65536 + readUInt16BE b (i + 2)"

definition startsWith :: "string \<Rightarrow> string \<Rightarrow> bool" where
  "startsWith s p \<longleftrightarrow> take (length p) s = p"

fun includes_text :: "string \<Rightarrow> string \<Rightarrow> bool" where
  "includes_text [] p \<longleftrightarrow> p = []"
| "includes_text (c # cs) p \<longleftrightarrow> startsWith (c # cs) p \<or> includes_text cs p"

lemma length_latin1 [simp]: "length (latin1 b) = length b"
  by (simp add: latin1_def)

lemma latin1_bytes_of [simp]: "latin1 (bytes_of s) = s"
proof -
  have "of_char c < (256::nat)" for c :: char using of_char_mod_256 [of c, where 'a = nat] by (metis mod_less_divisor zero_less_numeral)
  then have "char_of (unat (of_nat (of_char c) :: 8 word)) = c" for c
    by (simp add: unat_of_nat take_bit_eq_mod)
  then show ?thesis by (induction s) (simp_all add: latin1_def bytes_of_def)
qed

lemma latin1_append [simp]: "latin1 (a @ b) = latin1 a @ latin1 b"
  by (simp add: latin1_def)

lemma subarray_within [simp]:
  "subarray (pre @ mid @ post) (length pre) (length pre + length mid) = mid"
  by (simp add: subarray_def)

subsection \<open>Which container\<close>

datatype container_format = PDF | JPEG | PNG | UNKNOWN

record byte_signals =
  bs_container :: container_format
  bs_hasEmbeddedMetadata :: bool
  bs_hasC2paManifest :: bool

definition PDF_MAGIC :: buffer where "PDF_MAGIC = bytes_of ''%PDF-''"

definition PNG_MAGIC :: buffer where "PNG_MAGIC = [0x89, 0x50, 0x4e, 0x47, 0x0d, 0x0a, 0x1a, 0x0a]"

definition identifyContainer :: "buffer \<Rightarrow> container_format" where
  "identifyContainer bytes =
     (if subarray bytes 0 (length PDF_MAGIC) = PDF_MAGIC then PDF
      else if subarray bytes 0 (length PNG_MAGIC) = PNG_MAGIC then PNG
      else if length bytes \<ge> 3 \<and> bytes ! 0 = 0xff \<and> bytes ! 1 = 0xd8 \<and> bytes ! 2 = 0xff then JPEG
      else UNKNOWN)"

subsection \<open>The JPEG segment walk\<close>

definition XMP_NAMESPACE :: string where "XMP_NAMESPACE = ''http://ns.adobe.com/xap/1.0/''"

definition exif_or_xmp :: "buffer \<Rightarrow> bool" where
  "exif_or_xmp payload \<longleftrightarrow>
     subarray payload 0 6 = bytes_of ''Exif'' @ [0, 0] \<or> startsWith (latin1 (subarray payload 0 28)) XMP_NAMESPACE"

definition jumbf_payload :: "buffer \<Rightarrow> bool" where
  "jumbf_payload payload \<longleftrightarrow> subarray payload 0 2 = bytes_of ''JP''"

definition standalone :: "8 word \<Rightarrow> bool" where
  "standalone marker \<longleftrightarrow> marker = 0xd8 \<or> (0xd0 \<le> marker \<and> marker \<le> 0xd7)"

function jpeg_walk :: "buffer \<Rightarrow> nat \<Rightarrow> bool \<Rightarrow> bool \<Rightarrow> bool \<times> bool" where
  "jpeg_walk bytes offset hasMetadata hasC2pa =
     (if \<not> offset + 4 \<le> length bytes then (hasMetadata, hasC2pa)
      else if bytes ! offset \<noteq> 0xff then (hasMetadata, hasC2pa)
      else
        (let marker = bytes ! (offset + 1) in
         if standalone marker then jpeg_walk bytes (offset + 2) hasMetadata hasC2pa
         else if marker = 0xd9 \<or> marker = 0xda then (hasMetadata, hasC2pa)
         else
           (let len = readUInt16BE bytes (offset + 2) in
            if len < 2 \<or> offset + 2 + len > length bytes then (hasMetadata, hasC2pa)
            else
              (let payload = subarray bytes (offset + 4) (offset + 2 + len) in
               jpeg_walk bytes (offset + 2 + len)
                 (hasMetadata \<or> marker = 0xe1 \<and> exif_or_xmp payload)
                 (hasC2pa \<or> marker = 0xeb \<and> jumbf_payload payload)))))"
  by pat_completeness auto
termination by (relation "measure (\<lambda>(bytes, offset, _). length bytes - offset)") auto

declare jpeg_walk.simps [simp del]

definition walkJpegSegments :: "buffer \<Rightarrow> bool \<times> bool" where
  "walkJpegSegments bytes = jpeg_walk bytes 2 False False"

subsection \<open>The PNG chunk walk\<close>

definition PNG_METADATA_CHUNKS :: "string list" where
  "PNG_METADATA_CHUNKS = [''tEXt'', ''iTXt'', ''zTXt'', ''eXIf'', ''tIME'']"

function png_walk :: "buffer \<Rightarrow> nat \<Rightarrow> bool \<Rightarrow> bool \<Rightarrow> bool \<times> bool" where
  "png_walk bytes offset hasMetadata hasC2pa =
     (if \<not> offset + 8 \<le> length bytes then (hasMetadata, hasC2pa)
      else
        (let len = readUInt32BE bytes offset;
             type = latin1 (subarray bytes (offset + 4) (offset + 8));
             metadata = hasMetadata \<or> List.member PNG_METADATA_CHUNKS type;
             c2pa = hasC2pa \<or> type = ''caBX'' \<or>
               type = ''iTXt'' \<and> offset + 8 + min len 5 \<le> length bytes \<and>
               startsWith (latin1 (subarray bytes (offset + 8) (offset + 8 + min len 5))) ''c2pa'' in
         if type = ''IEND'' then (metadata, c2pa)
         else png_walk bytes (offset + 12 + len) metadata c2pa))"
  by pat_completeness auto
termination by (relation "measure (\<lambda>(bytes, offset, _). length bytes - offset)") auto

declare png_walk.simps [simp del]

definition walkPngChunks :: "buffer \<Rightarrow> bool \<times> bool" where
  "walkPngChunks bytes = png_walk bytes (length PNG_MAGIC) False False"

subsection \<open>The PDF probe and the signals\<close>

definition PDF_VIEW :: nat where "PDF_VIEW = 4 * 1024 * 1024"

definition probePdf :: "buffer \<Rightarrow> bool \<times> bool" where
  "probePdf bytes =
     (let view = latin1 (subarray bytes 0 (min (length bytes) PDF_VIEW)) in
      (includes_text view ''/Info'' \<or> includes_text view ''/Metadata'' \<or> includes_text view ''<x:xmpmeta'',
       includes_text view ''c2pa'' \<or> includes_text view ''caBX'' \<or> includes_text view ''jumb''))"

definition signals_of :: "container_format \<Rightarrow> bool \<times> bool \<Rightarrow> byte_signals" where
  "signals_of container s =
     \<lparr>bs_container = container, bs_hasEmbeddedMetadata = fst s, bs_hasC2paManifest = snd s\<rparr>"

definition probeBytes :: "buffer \<Rightarrow> byte_signals" where
  "probeBytes bytes =
     (case identifyContainer bytes of
        JPEG \<Rightarrow> signals_of JPEG (walkJpegSegments bytes)
      | PNG \<Rightarrow> signals_of PNG (walkPngChunks bytes)
      | PDF \<Rightarrow> signals_of PDF (probePdf bytes)
      | UNKNOWN \<Rightarrow> signals_of UNKNOWN (False, False))"

subsection \<open>The verdict\<close>

record forensics_flags =
  ff_elaAnomalyDetected :: "bool option"
  ff_fontMismatchDetected :: "bool option"
  ff_stampCloneDetected :: "bool option"
  ff_ganGeneratedDetected :: "bool option"
  ff_c2paManifestValid :: "bool option"
  ff_virusScanClean :: bool
  ff_metadataStripped :: bool
  ff_overallScore :: int

record forensics_verdict =
  fv_lane :: document_lane
  fv_score :: int
  fv_flags :: forensics_flags

definition GREEN_THRESHOLD :: int where "GREEN_THRESHOLD = 70"

definition AMBER_THRESHOLD :: int where "AMBER_THRESHOLD = 40"

definition makeFlags :: "bool \<Rightarrow> bool \<Rightarrow> int \<Rightarrow> forensics_flags" where
  "makeFlags virusClean metadataStripped score =
     \<lparr>ff_elaAnomalyDetected = None, ff_fontMismatchDetected = None, ff_stampCloneDetected = None,
      ff_ganGeneratedDetected = None, ff_c2paManifestValid = None, ff_virusScanClean = virusClean,
      ff_metadataStripped = metadataStripped, ff_overallScore = score\<rparr>"

definition composeVerdict :: "bool \<Rightarrow> byte_signals \<Rightarrow> forensics_verdict" where
  "composeVerdict virusClean bytes =
     (if \<not> virusClean then \<lparr>fv_lane = RED, fv_score = 0, fv_flags = makeFlags False False 0\<rparr>
      else
        (let unknownContainer = bs_container bytes = UNKNOWN;
             metadataStripped = \<not> unknownContainer \<and> \<not> bs_hasEmbeddedMetadata bytes;
             s1 = (if unknownContainer then 100 - 45 else 100);
             s2 = (if metadataStripped then s1 - 35 else s1);
             score = (if bs_hasC2paManifest bytes then min 100 (s2 + 10) else s2);
             lane = (if score \<ge> GREEN_THRESHOLD then GREEN else if score \<ge> AMBER_THRESHOLD then AMBER else RED)
         in \<lparr>fv_lane = lane, fv_score = score, fv_flags = makeFlags True metadataStripped score\<rparr>))"

text \<open>
  What the arithmetic amounts to. A clean document is never RED; a container that is known is GREEN when it
  carries metadata or the mark of a manifest.
\<close>

lemma compose_lane:
  "fv_lane (composeVerdict clean bytes) =
     (if \<not> clean then RED
      else if bs_container bytes \<noteq> UNKNOWN \<and> (bs_hasEmbeddedMetadata bytes \<or> bs_hasC2paManifest bytes) then GREEN
      else AMBER)"
  by (simp add: composeVerdict_def Let_def GREEN_THRESHOLD_def AMBER_THRESHOLD_def)

lemma compose_bounds:
  "0 \<le> fv_score (composeVerdict clean bytes)" "fv_score (composeVerdict clean bytes) \<le> 100"
  "ff_overallScore (fv_flags (composeVerdict clean bytes)) = fv_score (composeVerdict clean bytes)"
  "ff_virusScanClean (fv_flags (composeVerdict clean bytes)) = clean"
  by (simp_all add: composeVerdict_def Let_def makeFlags_def)

subsection \<open>The walks read what was written\<close>

definition be16 :: "nat \<Rightarrow> buffer" where
  "be16 n = [of_nat (n div 256), of_nat (n mod 256)]"

definition be32 :: "nat \<Rightarrow> buffer" where
  "be32 n = be16 (n div 65536) @ be16 (n mod 65536)"

lemma length_be [simp]: "length (be16 n) = 2" "length (be32 n) = 4"
  by (simp_all add: be16_def be32_def)

lemma nth_past: "(pre @ b) ! (length pre + i) = b ! i"
  by (simp add: nth_append)

lemma nth_second [simp]: "(pre @ x # y # b) ! Suc (length pre) = y"
  using nth_past [of pre "x # y # b" 1] by simp

lemma read_be16: "n < 65536 \<Longrightarrow> readUInt16BE (pre @ be16 n @ post) (length pre) = n"
  using nth_past [of pre "be16 n @ post" 0] nth_past [of pre "be16 n @ post" 1]
  by (simp add: readUInt16BE_def be16_def unat_of_nat nth_append)

lemma read_be32: "n < 4294967296 \<Longrightarrow> readUInt32BE (pre @ be32 n @ post) (length pre) = n"
  using read_be16 [of "n div 65536" pre "be16 (n mod 65536) @ post"]
    read_be16 [of "n mod 65536" "pre @ be16 (n div 65536)" post]
  by (simp add: readUInt32BE_def be32_def less_mult_imp_div_less)

text \<open>A segment as a writer of JPEG files lays it down: a bare marker, or a marker with a payload.\<close>

datatype jpeg_segment = Bare "8 word" | Segment "8 word" buffer

fun proper_segment :: "jpeg_segment \<Rightarrow> bool" where
  "proper_segment (Bare marker) \<longleftrightarrow> standalone marker"
| "proper_segment (Segment marker payload) \<longleftrightarrow>
     \<not> standalone marker \<and> marker \<noteq> 0xd9 \<and> marker \<noteq> 0xda \<and> length payload + 2 < 65536"

fun segment_bytes :: "jpeg_segment \<Rightarrow> buffer" where
  "segment_bytes (Bare marker) = [0xff, marker]"
| "segment_bytes (Segment marker payload) = [0xff, marker] @ be16 (length payload + 2) @ payload"

fun segment_metadata :: "jpeg_segment \<Rightarrow> bool" where
  "segment_metadata (Bare _) \<longleftrightarrow> False"
| "segment_metadata (Segment marker payload) \<longleftrightarrow> marker = 0xe1 \<and> exif_or_xmp payload"

fun segment_manifest :: "jpeg_segment \<Rightarrow> bool" where
  "segment_manifest (Bare _) \<longleftrightarrow> False"
| "segment_manifest (Segment marker payload) \<longleftrightarrow> marker = 0xeb \<and> jumbf_payload payload"

lemma jpeg_walk_stops:
  "jpeg_walk (pre @ [0xff, 0xda] @ scan) (length pre) m c = (m, c)"
  using nth_past [of pre "[0xff, 0xda] @ scan" 0] nth_past [of pre "[0xff, 0xda] @ scan" 1]
  by (simp add: jpeg_walk.simps [of _ "length pre"] standalone_def)

lemma jpeg_walk_segment:
  assumes "proper_segment s" and "length post \<ge> 2"
  shows "jpeg_walk (pre @ segment_bytes s @ post) (length pre) m c =
    jpeg_walk (pre @ segment_bytes s @ post) (length (pre @ segment_bytes s)) (m \<or> segment_metadata s) (c \<or> segment_manifest s)"
proof (cases s)
  case (Bare marker)
  then show ?thesis using assms by (subst jpeg_walk.simps) simp
next
  case (Segment marker payload)
  let ?n = "length payload + 2"
  let ?b = "pre @ 0xff # marker # be16 ?n @ payload @ post"
  have len: "readUInt16BE ?b (length pre + 2) = ?n"
    using read_be16 [of ?n "pre @ [0xff, marker]" "payload @ post"] assms(1) Segment by simp
  have load: "subarray ?b (length pre + 4) (length pre + 2 + ?n) = payload"
    using subarray_within [of "pre @ [0xff, marker] @ be16 ?n" payload post] by (simp add: numeral_eq_Suc)
  have "jpeg_walk ?b (length pre) m c =
      jpeg_walk ?b (length pre + 2 + ?n) (m \<or> marker = 0xe1 \<and> exif_or_xmp payload) (c \<or> marker = 0xeb \<and> jumbf_payload payload)"
    using assms Segment by (subst jpeg_walk.simps) (simp add: len [simplified] load [simplified] Let_def)
  then show ?thesis using Segment by (simp add: add.commute add.left_commute)
qed

lemma jpeg_walk_reads:
  "\<forall>s \<in> set segs. proper_segment s \<Longrightarrow>
    jpeg_walk (pre @ concat (map segment_bytes segs) @ [0xff, 0xda] @ scan) (length pre) m c =
      (m \<or> list_ex segment_metadata segs, c \<or> list_ex segment_manifest segs)"
proof (induction segs arbitrary: pre m c)
  case Nil
  then show ?case using jpeg_walk_stops [of pre scan m c] by simp
next
  case (Cons s segs)
  have "jpeg_walk (pre @ segment_bytes s @ concat (map segment_bytes segs) @ [0xff, 0xda] @ scan) (length pre) m c =
    jpeg_walk ((pre @ segment_bytes s) @ concat (map segment_bytes segs) @ [0xff, 0xda] @ scan)
      (length (pre @ segment_bytes s)) (m \<or> segment_metadata s) (c \<or> segment_manifest s)"
    using jpeg_walk_segment [of s "concat (map segment_bytes segs) @ [0xff, 0xda] @ scan" pre m c] Cons.prems by simp
  also have "\<dots> = (m \<or> list_ex segment_metadata (s # segs), c \<or> list_ex segment_manifest (s # segs))"
    using Cons.IH [of "pre @ segment_bytes s" "m \<or> segment_metadata s" "c \<or> segment_manifest s"] Cons.prems
    by (simp add: disj_assoc)
  finally show ?case by simp
qed

text \<open>A chunk of a PNG file; the four bytes of the checksum are not read.\<close>

record png_chunk =
  ch_type :: string
  ch_data :: buffer
  ch_crc :: buffer

definition proper_chunk :: "png_chunk \<Rightarrow> bool" where
  "proper_chunk k \<longleftrightarrow> length (ch_type k) = 4 \<and> length (ch_data k) < 4294967296 \<and> length (ch_crc k) = 4"

definition chunk_bytes :: "png_chunk \<Rightarrow> buffer" where
  "chunk_bytes k = be32 (length (ch_data k)) @ bytes_of (ch_type k) @ ch_data k @ ch_crc k"

definition chunk_metadata :: "png_chunk \<Rightarrow> bool" where
  "chunk_metadata k \<longleftrightarrow> List.member PNG_METADATA_CHUNKS (ch_type k)"

definition chunk_manifest :: "png_chunk \<Rightarrow> bool" where
  "chunk_manifest k \<longleftrightarrow> ch_type k = ''caBX'' \<or> ch_type k = ''iTXt'' \<and> startsWith (latin1 (take 5 (ch_data k))) ''c2pa''"

lemma length_bytes_of [simp]: "length (bytes_of s) = length s"
  by (simp add: bytes_of_def)

lemma take_drop_rest: "take n xs @ drop n xs @ ys = xs @ ys"
  by (simp flip: append_assoc)

lemma png_walk_chunk:
  assumes "proper_chunk k"
  shows "png_walk (pre @ chunk_bytes k @ post) (length pre) m c =
    (if ch_type k = ''IEND'' then (m \<or> chunk_metadata k, c \<or> chunk_manifest k)
     else png_walk (pre @ chunk_bytes k @ post) (length (pre @ chunk_bytes k)) (m \<or> chunk_metadata k) (c \<or> chunk_manifest k))"
proof -
  let ?n = "length (ch_data k)"
  let ?b = "pre @ be32 ?n @ bytes_of (ch_type k) @ ch_data k @ ch_crc k @ post"
  have len: "readUInt32BE ?b (length pre) = ?n"
    using assms by (intro read_be32) (simp add: proper_chunk_def)
  have kind: "subarray ?b (length pre + 4) (length pre + 8) = bytes_of (ch_type k)"
    using subarray_within [of "pre @ be32 ?n" "bytes_of (ch_type k)" "ch_data k @ ch_crc k @ post"] assms
    by (simp add: proper_chunk_def add.commute)
  have head: "subarray ?b (length pre + 8) (length pre + 8 + min ?n 5) = take 5 (ch_data k)"
    using subarray_within [of "pre @ be32 ?n @ bytes_of (ch_type k)" "take 5 (ch_data k)" "drop 5 (ch_data k) @ ch_crc k @ post"] assms
    by (simp add: proper_chunk_def take_drop_rest min.commute add.commute)
  have room: "min ?n 5 \<le> 4 + (?n + length post)" by simp
  have "png_walk ?b (length pre) m c =
    (if ch_type k = ''IEND'' then (m \<or> chunk_metadata k, c \<or> chunk_manifest k)
     else png_walk ?b (length pre + 12 + ?n) (m \<or> chunk_metadata k) (c \<or> chunk_manifest k))"
    using assms by (subst png_walk.simps) (simp add: len kind head room chunk_metadata_def chunk_manifest_def proper_chunk_def Let_def)
  then show ?thesis using assms by (simp add: chunk_bytes_def proper_chunk_def add.commute add.left_commute)
qed

lemma png_walk_reads:
  "\<forall>k \<in> set chunks. proper_chunk k \<and> ch_type k \<noteq> ''IEND'' \<Longrightarrow> proper_chunk last_chunk \<Longrightarrow> ch_type last_chunk = ''IEND'' \<Longrightarrow>
    png_walk (pre @ concat (map chunk_bytes chunks) @ chunk_bytes last_chunk @ rest) (length pre) m c =
      (m \<or> list_ex chunk_metadata chunks, c \<or> list_ex chunk_manifest chunks)"
proof (induction chunks arbitrary: pre m c)
  case Nil
  then show ?case using png_walk_chunk [of last_chunk pre rest m c]
    by (simp add: chunk_metadata_def chunk_manifest_def PNG_METADATA_CHUNKS_def)
next
  case (Cons k chunks)
  have "png_walk (pre @ chunk_bytes k @ concat (map chunk_bytes chunks) @ chunk_bytes last_chunk @ rest) (length pre) m c =
    png_walk ((pre @ chunk_bytes k) @ concat (map chunk_bytes chunks) @ chunk_bytes last_chunk @ rest)
      (length (pre @ chunk_bytes k)) (m \<or> chunk_metadata k) (c \<or> chunk_manifest k)"
    using png_walk_chunk [of k pre "concat (map chunk_bytes chunks) @ chunk_bytes last_chunk @ rest" m c] Cons.prems by simp
  also have "\<dots> = (m \<or> list_ex chunk_metadata (k # chunks), c \<or> list_ex chunk_manifest (k # chunks))"
    using Cons.IH [of "pre @ chunk_bytes k" "m \<or> chunk_metadata k" "c \<or> chunk_manifest k"] Cons.prems by (simp add: disj_assoc)
  finally show ?case by simp
qed

definition jpeg_file :: "jpeg_segment list \<Rightarrow> buffer \<Rightarrow> buffer" where
  "jpeg_file segs scan = [0xff, 0xd8] @ concat (map segment_bytes segs) @ [0xff, 0xda] @ scan"

definition png_file :: "png_chunk list \<Rightarrow> png_chunk \<Rightarrow> buffer \<Rightarrow> buffer" where
  "png_file chunks last_chunk rest = PNG_MAGIC @ concat (map chunk_bytes chunks) @ chunk_bytes last_chunk @ rest"

text \<open>
  C35: The probe reads the container that was written: of a JPEG file it reports metadata and a
  manifest exactly when a segment before the scan carries them, of a PNG file exactly when a
  chunk before IEND does, whatever bytes follow.
\<close>

theorem probes_read_the_container:
  assumes "\<forall>s \<in> set segs. proper_segment s"
    and "\<forall>k \<in> set chunks. proper_chunk k \<and> ch_type k \<noteq> ''IEND''" and "proper_chunk last_chunk" and "ch_type last_chunk = ''IEND''"
  shows "probeBytes (jpeg_file segs scan) =
      \<lparr>bs_container = JPEG, bs_hasEmbeddedMetadata = list_ex segment_metadata segs, bs_hasC2paManifest = list_ex segment_manifest segs\<rparr> \<and>
    probeBytes (png_file chunks last_chunk rest) =
      \<lparr>bs_container = PNG, bs_hasEmbeddedMetadata = list_ex chunk_metadata chunks, bs_hasC2paManifest = list_ex chunk_manifest chunks\<rparr>"
proof
  have third: "(concat (map segment_bytes segs) @ [0xff, 0xda] @ scan) ! 0 = 0xff"
    using assms(1) by (cases segs rule: list.exhaust; cases "hd segs") auto
  have "identifyContainer (jpeg_file segs scan) = JPEG"
    using third by (simp add: identifyContainer_def jpeg_file_def subarray_def PDF_MAGIC_def PNG_MAGIC_def bytes_of_def)
  then show "probeBytes (jpeg_file segs scan) =
      \<lparr>bs_container = JPEG, bs_hasEmbeddedMetadata = list_ex segment_metadata segs, bs_hasC2paManifest = list_ex segment_manifest segs\<rparr>"
    using jpeg_walk_reads [OF assms(1), of "[0xff, 0xd8]" scan False False]
    by (simp add: probeBytes_def walkJpegSegments_def signals_of_def jpeg_file_def numeral_eq_Suc)
  have "identifyContainer (png_file chunks last_chunk rest) = PNG"
    by (simp add: identifyContainer_def png_file_def subarray_def PDF_MAGIC_def PNG_MAGIC_def bytes_of_def)
  then show "probeBytes (png_file chunks last_chunk rest) =
      \<lparr>bs_container = PNG, bs_hasEmbeddedMetadata = list_ex chunk_metadata chunks, bs_hasC2paManifest = list_ex chunk_manifest chunks\<rparr>"
    using png_walk_reads [OF assms(2-4), of PNG_MAGIC rest False False]
    by (simp add: probeBytes_def walkPngChunks_def signals_of_def png_file_def)
qed

theorem probes_read_the_container_witness:
  "bs_hasEmbeddedMetadata (probeBytes (jpeg_file [Bare 0xd0, Segment 0xe1 (bytes_of ''Exif'' @ [0, 0])] [1, 2])) \<and>
   bs_hasC2paManifest (probeBytes (png_file [\<lparr>ch_type = ''caBX'', ch_data = [7], ch_crc = [0, 0, 0, 0]\<rparr>]
     \<lparr>ch_type = ''IEND'', ch_data = [], ch_crc = [0, 0, 0, 0]\<rparr> []))"
proof -
  let ?segs = "[Bare 0xd0, Segment 0xe1 (bytes_of ''Exif'' @ [0, 0])]"
  let ?chunks = "[\<lparr>ch_type = ''caBX'', ch_data = [7], ch_crc = [0, 0, 0, 0]\<rparr>] :: png_chunk list"
  let ?last = "\<lparr>ch_type = ''IEND'', ch_data = [], ch_crc = [0, 0, 0, 0]\<rparr>"
  have "\<forall>s \<in> set ?segs. proper_segment s" by (simp add: standalone_def word_le_nat_alt)
  moreover have "\<forall>k \<in> set ?chunks. proper_chunk k \<and> ch_type k \<noteq> ''IEND''" "proper_chunk ?last" "ch_type ?last = ''IEND''"
    by (simp_all add: proper_chunk_def)
  ultimately show ?thesis
    using probes_read_the_container [of ?segs ?chunks ?last "[1, 2]" "[]"]
    by (simp add: exif_or_xmp_def subarray_def chunk_manifest_def)
qed

subsection \<open>What a marker is worth\<close>

text \<open>
  The four bytes \<open>c2pa\<close> anywhere in the first four megabytes of a PDF, behind its end included, count as a
  manifest; so a document without metadata that the rule sends to review is GREEN once they are appended.
\<close>

lemma includes_append: "includes_text (s @ p @ t) p"
proof (induction s)
  case Nil
  have "startsWith (p @ t) p" by (simp add: startsWith_def)
  then show ?case by (cases "p @ t") (auto simp: startsWith_def)
qed simp

lemma identify_pdf: "identifyContainer bytes = PDF \<longleftrightarrow> take 5 bytes = PDF_MAGIC"
proof -
  have "length PDF_MAGIC = 5" by (simp add: PDF_MAGIC_def)
  then show ?thesis by (auto simp: identifyContainer_def subarray_def)
qed

theorem appended_marker_turns_a_stripped_document_green:
  assumes "identifyContainer bytes = PDF" and "length bytes + 4 \<le> PDF_VIEW"
  shows "fv_lane (composeVerdict True (probeBytes (bytes @ bytes_of ''c2pa''))) = GREEN"
proof -
  have magic: "take 5 bytes = PDF_MAGIC" using assms(1) by (simp add: identify_pdf)
  moreover have "5 \<le> length bytes" using arg_cong [OF magic, of length] by (simp add: PDF_MAGIC_def)
  ultimately have "identifyContainer (bytes @ bytes_of ''c2pa'') = PDF" by (simp add: identify_pdf)
  moreover have "subarray (bytes @ bytes_of ''c2pa'') 0 (min (length (bytes @ bytes_of ''c2pa'')) PDF_VIEW) = bytes @ bytes_of ''c2pa''"
    using assms(2) by (simp add: subarray_def)
  ultimately have "bs_container (probeBytes (bytes @ bytes_of ''c2pa'')) = PDF"
    and "bs_hasC2paManifest (probeBytes (bytes @ bytes_of ''c2pa''))"
    using includes_append [of "latin1 bytes" "''c2pa''" "[]"] by (simp_all add: probeBytes_def probePdf_def signals_of_def Let_def)
  then show ?thesis by (simp add: compose_lane)
qed

theorem appended_marker_turns_a_stripped_document_green_witness:
  "fv_lane (composeVerdict True (probeBytes (bytes_of ''%PDF-1.7 ''))) = AMBER \<and>
   fv_lane (composeVerdict True (probeBytes (bytes_of ''%PDF-1.7 '' @ bytes_of ''c2pa''))) = GREEN"
proof -
  have pdf: "identifyContainer (bytes_of ''%PDF-1.7 '') = PDF"
    by (simp add: identifyContainer_def subarray_def PDF_MAGIC_def bytes_of_def)
  have "probePdf (bytes_of ''%PDF-1.7 '') = (False, False)"
    by (simp add: probePdf_def subarray_def PDF_VIEW_def Let_def startsWith_def)
  then have "fv_lane (composeVerdict True (probeBytes (bytes_of ''%PDF-1.7 ''))) = AMBER"
    using pdf by (simp add: compose_lane probeBytes_def signals_of_def)
  with appended_marker_turns_a_stripped_document_green [OF pdf] show ?thesis by (simp add: PDF_VIEW_def)
qed

subsection \<open>The envelope at rest\<close>

text \<open>
  AES-256-GCM: \<open>ae_seal key nonce aad plaintext\<close> is the ciphertext with its tag, \<open>ae_open\<close> returns the
  plaintext or fails. \<open>ae_derive\<close> is HKDF of the operator's secret.
\<close>

record aead_library =
  ae_derive :: "string \<Rightarrow> buffer"
  ae_seal :: "buffer \<Rightarrow> buffer \<Rightarrow> string \<Rightarrow> buffer \<Rightarrow> buffer \<times> buffer"
  ae_open :: "buffer \<Rightarrow> buffer \<Rightarrow> string \<Rightarrow> buffer \<Rightarrow> buffer \<Rightarrow> buffer option"

datatype envelope_error = Secret_too_short | Sealed_without_key | Not_authentic

definition MAGIC :: buffer where "MAGIC = bytes_of ''USRPDOC1''"

definition NONCE_BYTES :: nat where "NONCE_BYTES = 12"

definition TAG_BYTES :: nat where "TAG_BYTES = 16"

definition HEADER_BYTES :: nat where "HEADER_BYTES = length MAGIC + NONCE_BYTES + TAG_BYTES"

definition MIN_SECRET_LENGTH :: nat where "MIN_SECRET_LENGTH = 32"

definition HKDF_SALT :: string where "HKDF_SALT = ''usrp-document-envelope-v1''"

definition deriveEnvelopeKey :: "aead_library \<Rightarrow> string \<Rightarrow> envelope_error + buffer" where
  "deriveEnvelopeKey ae secret =
     (if length (js_trim secret) < MIN_SECRET_LENGTH then Inl Secret_too_short else Inr (ae_derive ae secret))"

definition envelopeAad :: "string \<Rightarrow> string \<Rightarrow> string" where
  "envelopeAad bucket key = HKDF_SALT @ ''|'' @ bucket @ ''/'' @ key"

definition isSealed :: "buffer \<Rightarrow> bool" where
  "isSealed bytes \<longleftrightarrow> length bytes \<ge> HEADER_BYTES \<and> subarray bytes 0 (length MAGIC) = MAGIC"

text \<open>The nonce is drawn by \<open>randomBytes\<close>.\<close>

definition sealDocument :: "aead_library \<Rightarrow> buffer \<Rightarrow> buffer \<Rightarrow> string \<Rightarrow> buffer \<Rightarrow> buffer" where
  "sealDocument ae nonce key aad plaintext =
     (case ae_seal ae key nonce aad plaintext of (ciphertext, tag) \<Rightarrow> MAGIC @ nonce @ tag @ ciphertext)"

definition openDocument :: "aead_library \<Rightarrow> buffer option \<Rightarrow> string \<Rightarrow> buffer \<Rightarrow> envelope_error + buffer" where
  "openDocument ae key aad stored =
     (if \<not> isSealed stored then Inr stored
      else
        (case key of
           None \<Rightarrow> Inl Sealed_without_key
         | Some k \<Rightarrow>
             (let nonce = subarray stored (length MAGIC) (length MAGIC + NONCE_BYTES);
                  tag = subarray stored (length MAGIC + NONCE_BYTES) HEADER_BYTES;
                  ciphertext = drop HEADER_BYTES stored in
              case ae_open ae k nonce aad ciphertext tag of None \<Rightarrow> Inl Not_authentic | Some p \<Rightarrow> Inr p)))"

text \<open>
  What the code relies on: the cipher opens what it sealed, and opens nothing that was sealed under
  another path or nonce; the tag has sixteen bytes.
\<close>

definition faithful_aead :: "aead_library \<Rightarrow> bool" where
  "faithful_aead ae \<longleftrightarrow>
     (\<forall>key nonce aad p. length (snd (ae_seal ae key nonce aad p)) = TAG_BYTES \<and>
        (\<forall>aad'. ae_open ae key nonce aad' (fst (ae_seal ae key nonce aad p)) (snd (ae_seal ae key nonce aad p)) =
           (if aad' = aad then Some p else None)))"

lemma sealed_parts:
  assumes "faithful_aead ae" and "length nonce = NONCE_BYTES"
  shows "isSealed (sealDocument ae nonce key aad p)"
    and "subarray (sealDocument ae nonce key aad p) (length MAGIC) (length MAGIC + NONCE_BYTES) = nonce"
    and "subarray (sealDocument ae nonce key aad p) (length MAGIC + NONCE_BYTES) HEADER_BYTES = snd (ae_seal ae key nonce aad p)"
    and "drop HEADER_BYTES (sealDocument ae nonce key aad p) = fst (ae_seal ae key nonce aad p)"
proof -
  have tag: "length (snd (ae_seal ae key nonce aad p)) = TAG_BYTES" using assms(1) by (simp add: faithful_aead_def)
  note parts = isSealed_def sealDocument_def subarray_def HEADER_BYTES_def case_prod_beta
  show "isSealed (sealDocument ae nonce key aad p)"
    and "subarray (sealDocument ae nonce key aad p) (length MAGIC) (length MAGIC + NONCE_BYTES) = nonce"
    and "subarray (sealDocument ae nonce key aad p) (length MAGIC + NONCE_BYTES) HEADER_BYTES = snd (ae_seal ae key nonce aad p)"
    and "drop HEADER_BYTES (sealDocument ae nonce key aad p) = fst (ae_seal ae key nonce aad p)"
    using assms(2) tag by (simp_all add: parts)
qed

lemma sealed_opens:
  assumes "faithful_aead ae" and "length nonce = NONCE_BYTES"
  shows "openDocument ae (Some key) aad' (sealDocument ae nonce key aad p) = (if aad' = aad then Inr p else Inl Not_authentic)"
  using assms sealed_parts [OF assms] by (simp add: openDocument_def faithful_aead_def)

text \<open>No accepted container looks sealed, so what was stored before the envelope is returned verbatim.\<close>

lemma container_not_sealed:
  assumes "identifyContainer bytes \<noteq> UNKNOWN" shows "\<not> isSealed bytes"
proof
  assume "isSealed bytes"
  then have "take 8 bytes = MAGIC" "28 \<le> length bytes"
    by (simp_all add: isSealed_def subarray_def MAGIC_def HEADER_BYTES_def NONCE_BYTES_def TAG_BYTES_def numeral_eq_Suc)
  then obtain rest where "bytes = MAGIC @ rest" by (metis append_take_drop_id)
  with assms show False
    by (simp add: identifyContainer_def subarray_def PDF_MAGIC_def PNG_MAGIC_def MAGIC_def bytes_of_def)
qed

lemma first_slash:
  "a @ c # k = a' @ c # k' \<Longrightarrow> c \<notin> set a \<Longrightarrow> c \<notin> set a' \<Longrightarrow> a = a' \<and> k = k'"
proof (induction a arbitrary: a')
  case Nil then show ?case by (cases a') auto
next
  case (Cons x a) then show ?case by (cases a') auto
qed

lemma envelopeAad_inj:
  assumes "envelopeAad bucket key = envelopeAad bucket' key'" and "CHR ''/'' \<notin> set bucket" and "CHR ''/'' \<notin> set bucket'"
  shows "bucket = bucket' \<and> key = key'"
  using assms first_slash [of bucket "CHR ''/''" key bucket' key'] by (simp add: envelopeAad_def)

end
