(* ===== verification/Documents.thy ===== *)
theory Documents
  imports Forensics Officer EligibilityService
begin

text \<open>
  The document lane of \<open>services/document-forensics-service/src\<close>: the scanner's verdict
  (\<open>clamav.virus-scanner.ts\<close>), the sealed object store (\<open>minio.object-store.ts\<close>, \<open>minio.object-writer.ts\<close>), the rule
  of replacement (\<open>supersession.ts\<close>), the record of a verdict (\<open>document-record.pg-store.ts\<close>) and the two use cases
  (\<open>upload-document.service.ts\<close>, \<open>analyze-document.service.ts\<close>), over the application store; and the consumer of
  application-service that routes an application by a verdict.

  The columns of \<open>document_records\<close> are in \<open>Store\<close>; the trail of revisions and the object store stand beside the
  database. A transaction that finds its row holds it locked, so a record is one step, and uploads of one slot
  follow one another; a first upload finds no row to lock, so its two halves, \<open>read_slot\<close> and
  \<open>execute_decision\<close>, also stand alone. The object is written inside the transaction, by another system, and stays
  written when the commit fails.
\<close>

subsection \<open>The scanner\<close>

datatype scan_result = Scan_CLEAN | Scan_INFECTED string | Scan_UNAVAILABLE string

definition CLEAN_VERDICT :: string where "CLEAN_VERDICT = ''stream: OK''"

text \<open>\<open>/^stream: (.+) FOUND$/\<close>; a dot matches no line terminator.\<close>

definition found_signature :: "string \<Rightarrow> string option" where
  "found_signature line =
     (let signature = drop 8 (take (length line - 6) line) in
      if startsWith line ''stream: '' \<and> drop (length line - 6) line = '' FOUND'' \<and> length line > 14 \<and>
         list_all (\<lambda>c. c \<noteq> CHR 0x0A \<and> c \<noteq> CHR 0x0D) signature
      then Some signature else None)"

definition parseReply :: "string \<Rightarrow> scan_result" where
  "parseReply reply =
     (let line = js_trim (filter (\<lambda>c. c \<noteq> CHR 0x00) reply) in
      if line = CLEAN_VERDICT then Scan_CLEAN
      else
        (case found_signature line of
           Some signature \<Rightarrow> Scan_INFECTED signature
         | None \<Rightarrow> Scan_UNAVAILABLE (''unexpected clamd reply: '' @ take 120 line)))"

text \<open>The answer of the daemon to \<open>INSTREAM\<close>: a failure of the connection, or the reply.\<close>

type_synonym clamd = "buffer \<Rightarrow> string + string"

definition scan_bytes :: "clamd \<Rightarrow> buffer \<Rightarrow> scan_result" where
  "scan_bytes clamd bytes = (case clamd bytes of Inl detail \<Rightarrow> Scan_UNAVAILABLE detail | Inr reply \<Rightarrow> parseReply reply)"

datatype analyze_result = Analyzed forensics_verdict | Scanner_unavailable string

definition analyze_bytes :: "clamd \<Rightarrow> buffer \<Rightarrow> analyze_result" where
  "analyze_bytes clamd bytes =
     (case scan_bytes clamd bytes of
        Scan_UNAVAILABLE detail \<Rightarrow> Scanner_unavailable detail
      | scan \<Rightarrow> Analyzed (composeVerdict (scan = Scan_CLEAN) (probeBytes bytes)))"

subsection \<open>The object store\<close>

type_synonym objects = "string \<times> string \<Rightarrow> buffer option"

datatype document_error =
    Object_store_unavailable | Envelope_failed envelope_error | Persistence_failed | Key_too_long | Document_bus

record document_env =
  de_clamd :: clamd
  de_aead :: aead_library
  de_writeKey :: buffer
  de_readKey :: "buffer option"
  de_bucket :: string
  de_hmac :: "buffer \<Rightarrow> string"
  de_putStatus :: nat
  de_getStatus :: nat  \<comment> \<open>200 when the server is up; a key it does not hold is then answered 404\<close>
  de_commits :: bool  \<comment> \<open>whether the commit of the transaction succeeds\<close>

definition s3_get :: "document_env \<Rightarrow> string \<Rightarrow> string \<Rightarrow> objects \<Rightarrow> nat \<times> buffer" where
  "s3_get env bucket key objs =
     (case objs (bucket, key) of
        None \<Rightarrow> (if de_getStatus env = 200 then 404 else de_getStatus env, [])
      | Some body \<Rightarrow> (de_getStatus env, body))"

definition getObject :: "document_env \<Rightarrow> string \<Rightarrow> string \<Rightarrow> objects \<Rightarrow> document_error + buffer option" where
  "getObject env bucket key objs =
     (case s3_get env bucket key objs of
        (status, body) \<Rightarrow>
          if status = 404 then Inr None
          else if status \<noteq> 200 then Inl Object_store_unavailable
          else
            (case openDocument (de_aead env) (de_readKey env) (envelopeAad bucket key) body of
               Inl e \<Rightarrow> Inl (Envelope_failed e)
             | Inr bytes \<Rightarrow> Inr (Some bytes)))"

definition WRITE_OK :: "nat list" where "WRITE_OK = [200, 201, 204]"

definition putObject :: "document_env \<Rightarrow> buffer \<Rightarrow> string \<Rightarrow> string \<Rightarrow> buffer \<Rightarrow> objects \<Rightarrow> objects option" where
  "putObject env nonce bucket key bytes objs =
     (let sealed = sealDocument (de_aead env) nonce (de_writeKey env) (envelopeAad bucket key) bytes in
      if List.member WRITE_OK (de_putStatus env) then Some (objs((bucket, key) := Some sealed)) else None)"

fun document_type_text :: "document_type \<Rightarrow> string" where
  "document_type_text NATIONAL_ID = ''NATIONAL_ID''"
| "document_type_text APPLICATION_FORM_WITH_PHOTO = ''APPLICATION_FORM_WITH_PHOTO''"
| "document_type_text ALEVEL_CERTIFICATE = ''ALEVEL_CERTIFICATE''"
| "document_type_text OLEVEL_CERTIFICATE = ''OLEVEL_CERTIFICATE''"
| "document_type_text DEGREE_DIPLOMA_COPY = ''DEGREE_DIPLOMA_COPY''"
| "document_type_text DEGREE_DIPLOMA_NOTARIZED = ''DEGREE_DIPLOMA_NOTARIZED''"
| "document_type_text GOOD_CONDUCT_CERTIFICATE = ''GOOD_CONDUCT_CERTIFICATE''"
| "document_type_text NON_CONVICTION_CERTIFICATE = ''NON_CONVICTION_CERTIFICATE''"
| "document_type_text CELIBACY_CERTIFICATE = ''CELIBACY_CERTIFICATE''"
| "document_type_text MEDICAL_CERTIFICATE_GOVT = ''MEDICAL_CERTIFICATE_GOVT''"
| "document_type_text BIRTH_CERTIFICATE = ''BIRTH_CERTIFICATE''"

fun agency_text :: "agency \<Rightarrow> string" where
  "agency_text RDF = ''RDF''" | "agency_text RNP = ''RNP''" | "agency_text RCS = ''RCS''"

definition MAX_KEY_LENGTH :: nat where "MAX_KEY_LENGTH = 512"

definition deriveObjectKey :: "agency \<Rightarrow> uuid \<Rightarrow> document_type \<Rightarrow> string option" where
  "deriveObjectKey a applicationId documentType =
     (let key = js_lower (agency_text a) @ ''/'' @ applicationId @ ''/'' @ js_lower (document_type_text documentType) in
      if length key > MAX_KEY_LENGTH then None else Some key)"

subsection \<open>May an upload replace what is there\<close>

definition LAST_REPLACEABLE_STATUS :: application_status where
  "LAST_REPLACEABLE_STATUS = DOCUMENT_REVIEW_AMBER"

record slot_state =
  sl_caseStatus :: application_status
  sl_humanReviewed :: bool
  sl_storedHmac :: "string option"
  sl_exists :: bool

datatype supersession_decision =
    Slot_CREATE | Slot_SUPERSEDE int | Slot_RETRY int | Slot_CLOSED_HUMAN_REVIEW | Slot_CLOSED_CASE_ADVANCED

definition decideSupersession :: "slot_state \<Rightarrow> string \<Rightarrow> int \<Rightarrow> supersession_decision" where
  "decideSupersession slot incomingHmac currentRevision =
     (let advanced = status_rank (sl_caseStatus slot) > status_rank LAST_REPLACEABLE_STATUS in
      if \<not> sl_exists slot then (if advanced then Slot_CLOSED_CASE_ADVANCED else Slot_CREATE)
      else if sl_humanReviewed slot then Slot_CLOSED_HUMAN_REVIEW
      else if advanced then Slot_CLOSED_CASE_ADVANCED
      else if sl_storedHmac slot = Some incomingHmac then Slot_RETRY currentRevision
      else Slot_SUPERSEDE (currentRevision + 1))"

subsection \<open>The record of a verdict\<close>

record revision_row =
  rv_document_id :: uuid
  rv_application_id :: uuid
  rv_revision :: int
  rv_content_hmac :: string
  rv_file_size_bytes :: nat
  rv_mime_type :: string
  rv_lane :: document_lane
  rv_score :: int
  rv_flags :: forensics_flags
  rv_uploaded_by :: string
  rv_uploaded_at :: instant

record 'ev document_world =
  dw_db :: "'ev database"
  dw_revisions :: "agency \<Rightarrow> revision_row list"
  dw_objects :: objects

record verdict_input =
  vi_applicationId :: uuid
  vi_agency :: agency
  vi_documentType :: document_type
  vi_objectBucket :: string
  vi_objectKey :: string
  vi_fileSizeBytes :: nat
  vi_mimeType :: string
  vi_virusScanStatus :: string
  vi_contentHmac :: string
  vi_verdict :: forensics_verdict

datatype closed_reason = HUMAN_REVIEWED | CASE_ADVANCED

datatype verdict_outcome = Verdict_RECORDED uuid int bool | RECORD_REVIEW_CLOSED closed_reason | RECORD_APPLICATION_NOT_FOUND

definition flags_json :: "forensics_flags \<Rightarrow> json" where
  "flags_json f =
     (let b = (\<lambda>v. case v of None \<Rightarrow> JNull | Some x \<Rightarrow> JBool x) in
      JObj [(''elaAnomalyDetected'', b (ff_elaAnomalyDetected f)), (''fontMismatchDetected'', b (ff_fontMismatchDetected f)),
            (''stampCloneDetected'', b (ff_stampCloneDetected f)), (''ganGeneratedDetected'', b (ff_ganGeneratedDetected f)),
            (''c2paManifestValid'', b (ff_c2paManifestValid f)), (''virusScanClean'', JBool (ff_virusScanClean f)),
            (''metadataStripped'', JBool (ff_metadataStripped f)), (''overallScore'', JNum (of_int (ff_overallScore f)))])"

definition slots_of :: "agency \<Rightarrow> 'ev document_world \<Rightarrow> document_row list" where
  "slots_of a w = document_records (schema_of (dw_db w) a)"

text \<open>\<open>existing[0]\<close>: the statement names no order, so the first row stands for whichever the server returns.\<close>

definition find_slot :: "agency \<Rightarrow> uuid \<Rightarrow> string \<Rightarrow> 'ev document_world \<Rightarrow> document_row option" where
  "find_slot a i key w = find (\<lambda>d. doc_application_id d = i \<and> doc_object_key d = Some key) (slots_of a w)"

definition slot_state_of :: "application_status \<Rightarrow> document_row option \<Rightarrow> slot_state" where
  "slot_state_of status slot =
     \<lparr>sl_caseStatus = status,
      sl_humanReviewed = (case slot of None \<Rightarrow> False | Some d \<Rightarrow> human_reviewed_at d \<noteq> None),
      sl_storedHmac = Option.bind slot doc_content_hmac, sl_exists = (slot \<noteq> None)\<rparr>"

definition revision_of :: "instant \<Rightarrow> uuid \<Rightarrow> int \<Rightarrow> verdict_input \<Rightarrow> revision_row" where
  "revision_of now documentId revision inp =
     \<lparr>rv_document_id = documentId, rv_application_id = vi_applicationId inp, rv_revision = revision,
      rv_content_hmac = vi_contentHmac inp, rv_file_size_bytes = vi_fileSizeBytes inp, rv_mime_type = vi_mimeType inp,
      rv_lane = fv_lane (vi_verdict inp), rv_score = fv_score (vi_verdict inp), rv_flags = fv_flags (vi_verdict inp),
      rv_uploaded_by = ''APPLICANT'', rv_uploaded_at = now\<rparr>"

definition judged :: "instant \<Rightarrow> int \<Rightarrow> verdict_input \<Rightarrow> document_row \<Rightarrow> document_row" where
  "judged now revision inp d =
     d\<lparr>doc_document_type := document_type_text (vi_documentType inp), doc_object_bucket := Some (vi_objectBucket inp),
       doc_file_size_bytes := Some (vi_fileSizeBytes inp), doc_mime_type := Some (vi_mimeType inp),
       doc_virus_scan_status := Some (vi_virusScanStatus inp), doc_virus_scan_at := Some now,
       doc_score := Some (fv_score (vi_verdict inp)), doc_lane := Some (fv_lane (vi_verdict inp)),
       doc_flags := Some (flags_json (fv_flags (vi_verdict inp))), doc_completed_at := Some now,
       doc_revision := revision, doc_content_hmac := Some (vi_contentHmac inp)\<rparr>"

definition blank_document :: "uuid \<Rightarrow> verdict_input \<Rightarrow> document_row" where
  "blank_document newId inp =
     \<lparr>doc_application_id = vi_applicationId inp, doc_lane = None, human_reviewed_by_id = None, human_reviewed_at = None,
      human_review_decision = None, doc_id = newId, doc_document_type = [], doc_object_key = Some (vi_objectKey inp),
      doc_object_bucket = None, doc_file_size_bytes = None, doc_mime_type = None, doc_virus_scan_status = None,
      doc_virus_scan_at = None, doc_score = None, doc_flags = None, doc_completed_at = None, doc_revision = 1,
      doc_content_hmac = None\<rparr>"

text \<open>The rows of the two tables; \<open>None\<close> when a key is taken and the statement fails.\<close>

definition write_slot :: "uuid \<Rightarrow> int \<Rightarrow> verdict_input \<Rightarrow> 'ev document_world \<Rightarrow> 'ev document_world option" where
  "write_slot documentId revision inp w =
     (let a = vi_agency inp; now = db_now (dw_db w) in
      if list_ex (\<lambda>r. rv_document_id r = documentId \<and> rv_revision r = revision) (dw_revisions w a) then None
      else Some (w\<lparr>dw_db := update_schema a
                     (\<lambda>s. s\<lparr>document_records := map (\<lambda>d. if doc_id d = documentId then judged now revision inp d else d)
                               (document_records s)\<rparr>) (dw_db w),
                   dw_revisions := (dw_revisions w)(a := dw_revisions w a @ [revision_of now documentId revision inp])\<rparr>))"

definition create_slot :: "uuid \<Rightarrow> verdict_input \<Rightarrow> 'ev document_world \<Rightarrow> 'ev document_world option" where
  "create_slot newId inp w =
     (let a = vi_agency inp; now = db_now (dw_db w) in
      if list_ex (\<lambda>d. doc_id d = newId) (slots_of a w) \<or> list_ex (\<lambda>r. rv_document_id r = newId) (dw_revisions w a) then None
      else Some (w\<lparr>dw_db := update_schema a
                     (\<lambda>s. s\<lparr>document_records := document_records s @ [judged now 1 inp (blank_document newId inp)]\<rparr>) (dw_db w),
                   dw_revisions := (dw_revisions w)(a := dw_revisions w a @ [revision_of now newId 1 inp])\<rparr>))"

text \<open>The object is written first, then the rows; whatever fails afterwards leaves the object as it was written.\<close>

definition commit_rows ::
  "bool \<Rightarrow> ('ev document_world \<Rightarrow> 'ev document_world option) \<Rightarrow> verdict_outcome \<Rightarrow> objects option \<Rightarrow> 'ev document_world \<Rightarrow>
    'ev document_world \<times> verdict_outcome option" where
  "commit_rows commits rows answer written w =
     (case written of
        None \<Rightarrow> (w, None)
      | Some objs \<Rightarrow>
          (case rows (w\<lparr>dw_objects := objs\<rparr>) of
             None \<Rightarrow> (w\<lparr>dw_objects := objs\<rparr>, None)
           | Some w' \<Rightarrow> if commits then (w', Some answer) else (w\<lparr>dw_objects := objs\<rparr>, None)))"

text \<open>The two selects: no application, or the decision and the row it is about.\<close>

definition read_slot :: "verdict_input \<Rightarrow> 'ev document_world \<Rightarrow> (supersession_decision \<times> document_row option) option" where
  "read_slot inp w =
     (case app_of (dw_db w) (vi_agency inp) (vi_applicationId inp) of
        None \<Rightarrow> None
      | Some app \<Rightarrow>
          (let slot = find_slot (vi_agency inp) (vi_applicationId inp) (vi_objectKey inp) w in
           Some (decideSupersession (slot_state_of (app_status app) slot) (vi_contentHmac inp)
                   (case slot of None \<Rightarrow> 1 | Some d \<Rightarrow> doc_revision d), slot)))"

text \<open>What the decision does; \<open>None\<close> is a \<open>ForensicsPersistenceError\<close>.\<close>

definition execute_decision ::
  "bool \<Rightarrow> uuid \<Rightarrow> (objects \<Rightarrow> objects option) \<Rightarrow> verdict_input \<Rightarrow> supersession_decision \<times> document_row option \<Rightarrow>
    'ev document_world \<Rightarrow> 'ev document_world \<times> verdict_outcome option" where
  "execute_decision commits newId writeObject inp decided w =
     (case decided of (decision, slot) \<Rightarrow>
        (let documentId = (case slot of None \<Rightarrow> newId | Some d \<Rightarrow> doc_id d) in
         case decision of
           Slot_CLOSED_HUMAN_REVIEW \<Rightarrow> (w, Some (RECORD_REVIEW_CLOSED HUMAN_REVIEWED))
         | Slot_CLOSED_CASE_ADVANCED \<Rightarrow> (w, Some (RECORD_REVIEW_CLOSED CASE_ADVANCED))
         | Slot_RETRY revision \<Rightarrow> (w, Some (Verdict_RECORDED documentId revision False))
         | Slot_SUPERSEDE revision \<Rightarrow>
             commit_rows commits (write_slot documentId revision inp) (Verdict_RECORDED documentId revision True)
               (writeObject (dw_objects w)) w
         | Slot_CREATE \<Rightarrow>
             commit_rows commits (create_slot documentId inp) (Verdict_RECORDED documentId 1 False) (writeObject (dw_objects w)) w))"

definition recordVerdict ::
  "bool \<Rightarrow> uuid \<Rightarrow> (objects \<Rightarrow> objects option) \<Rightarrow> verdict_input \<Rightarrow> 'ev document_world \<Rightarrow>
    'ev document_world \<times> verdict_outcome option" where
  "recordVerdict commits newId writeObject inp w =
     (case read_slot inp w of
        None \<Rightarrow> (w, Some RECORD_APPLICATION_NOT_FOUND)
      | Some decided \<Rightarrow> execute_decision commits newId writeObject inp decided w)"

subsection \<open>Uploading\<close>

record forensics_completed =
  dc_envelope :: event_envelope
  dc_applicationId :: uuid
  dc_agency :: agency
  dc_documentId :: uuid
  dc_documentType :: document_type
  dc_lane :: document_lane
  dc_forensicsScore :: int
  dc_flags :: forensics_flags

record document_audit =
  da_envelope :: event_envelope
  da_entityId :: uuid
  da_action :: string
  da_performedBy :: string
  da_agency :: agency
  da_statuses :: "(application_status \<times> application_status) option"  \<comment> \<open>previous and new status\<close>
  da_metadata :: "(string \<times> json) list"

datatype document_event = DOCUMENT_FORENSICS_COMPLETED forensics_completed | DOCUMENT_AUDIT document_audit

text \<open>What a call draws: the ids of its events, the id of a row it may insert, the nonce of a seal.\<close>

record document_draws =
  dd_events :: auth_draws
  dd_recordId :: uuid
  dd_nonce :: buffer

record upload_command =
  up_applicantId :: uuid
  up_applicationId :: uuid
  up_documentType :: document_type
  up_declaredMediaType :: string
  up_bytes :: buffer
  up_context :: event_context

datatype upload_outcome =
    UPLOADED uuid agency string int bool forensics_verdict
  | Upload_APPLICATION_NOT_FOUND
  | Upload_NOT_ACCEPTING_DOCUMENTS agency application_status
  | Upload_UNSUPPORTED_DOCUMENT_TYPE agency
  | Upload_UNSUPPORTED_CONTENT container_format
  | Upload_CONTENT_TYPE_MISMATCH string container_format
  | Upload_MALWARE_DETECTED
  | Upload_SCANNER_UNAVAILABLE string
  | Upload_REVIEW_CLOSED closed_reason

definition isDocumentTypeSupported :: "agency \<Rightarrow> document_type \<Rightarrow> bool" where
  "isDocumentTypeSupported a t = List.member (AGENCY_DOCUMENT_TYPES a) t"

definition MEDIA_TYPE_CONTAINER :: "(string \<times> container_format) list" where
  "MEDIA_TYPE_CONTAINER = [(''image/jpeg'', JPEG), (''image/jpg'', JPEG), (''image/png'', PNG), (''application/pdf'', PDF)]"

definition CLOSED_TO_UPLOADS :: "application_status list" where
  "CLOSED_TO_UPLOADS = [ACCEPTED, REJECTED, WITHDRAWN, WALK_IN_REJECTED]"

definition findOwnedApplication :: "uuid \<Rightarrow> uuid \<Rightarrow> 'ev database \<Rightarrow> (agency \<times> application_status) option" where
  "findOwnedApplication applicantId applicationId db =
     (case find (\<lambda>a. case app_of db a applicationId of None \<Rightarrow> False | Some r \<Rightarrow> applicant_id r = applicantId) AGENCIES of
        None \<Rightarrow> None
      | Some a \<Rightarrow> map_option (\<lambda>r. (a, app_status r)) (app_of db a applicationId))"

definition upload_audit ::
  "event_envelope \<Rightarrow> upload_command \<Rightarrow> agency \<Rightarrow> string \<Rightarrow> (string \<times> json) list \<Rightarrow> document_event" where
  "upload_audit env cmd a action metadata =
     DOCUMENT_AUDIT
       \<lparr>da_envelope = env, da_entityId = up_applicationId cmd, da_action = action, da_performedBy = ''APPLICANT'',
        da_agency = a, da_statuses = None, da_metadata = metadata\<rparr>"

definition closed_reason_text :: "closed_reason \<Rightarrow> string" where
  "closed_reason_text r = (case r of HUMAN_REVIEWED \<Rightarrow> ''HUMAN_REVIEWED'' | CASE_ADVANCED \<Rightarrow> ''CASE_ADVANCED'')"

definition completed_event ::
  "event_envelope \<Rightarrow> uuid \<Rightarrow> agency \<Rightarrow> document_type \<Rightarrow> uuid \<Rightarrow> forensics_verdict \<Rightarrow> document_event" where
  "completed_event env applicationId a t documentId verdict =
     DOCUMENT_FORENSICS_COMPLETED
       \<lparr>dc_envelope = env, dc_applicationId = applicationId, dc_agency = a, dc_documentId = documentId, dc_documentType = t,
        dc_lane = fv_lane verdict, dc_forensicsScore = fv_score verdict, dc_flags = fv_flags verdict\<rparr>"

definition uploaded_metadata :: "upload_command \<Rightarrow> uuid \<Rightarrow> int \<Rightarrow> bool \<Rightarrow> forensics_verdict \<Rightarrow> (string \<times> json) list" where
  "uploaded_metadata cmd documentId revision superseded verdict =
     [(''documentId'', JStr documentId), (''documentType'', JStr (document_type_text (up_documentType cmd))),
      (''fileSizeBytes'', JNum (of_nat (length (up_bytes cmd)))), (''revision'', JNum (of_int revision)),
      (''superseded'', JBool superseded), (''lane'', JStr (lane_name (fv_lane verdict))),
      (''forensicsScore'', JNum (of_int (fv_score verdict))),
      (''c2paManifestPresent'', JBool (bs_hasC2paManifest (probeBytes (up_bytes cmd)))), (''encryptedAtRest'', JBool True)]"

definition verdict_input_of :: "document_env \<Rightarrow> upload_command \<Rightarrow> agency \<Rightarrow> string \<Rightarrow> forensics_verdict \<Rightarrow> verdict_input" where
  "verdict_input_of env cmd a key verdict =
     \<lparr>vi_applicationId = up_applicationId cmd, vi_agency = a, vi_documentType = up_documentType cmd,
      vi_objectBucket = de_bucket env, vi_objectKey = key, vi_fileSizeBytes = length (up_bytes cmd),
      vi_mimeType = up_declaredMediaType cmd, vi_virusScanStatus = ''CLEAN'', vi_contentHmac = de_hmac env (up_bytes cmd),
      vi_verdict = verdict\<rparr>"

definition publish_then ::
  "(document_event \<Rightarrow> bool) \<Rightarrow> document_event list \<Rightarrow> 'o \<Rightarrow> document_event list \<times> (document_error + 'o)" where
  "publish_then bus es answer =
     (case publish_each bus es of (sent, ok) \<Rightarrow> (sent, if ok then Inr answer else Inl Document_bus))"

text \<open>Steps 4 and 5: the record, the object within it, and the two events.\<close>

definition store_upload ::
  "document_env \<Rightarrow> (document_event \<Rightarrow> bool) \<Rightarrow> document_draws \<Rightarrow> upload_command \<Rightarrow> agency \<Rightarrow> string \<Rightarrow> forensics_verdict \<Rightarrow>
    'ev document_world \<Rightarrow> 'ev document_world \<times> document_event list \<times> (document_error + upload_outcome)" where
  "store_upload env bus dd cmd a key verdict w =
     (let id = (\<lambda>n. envelope (dd_events dd) n (up_context cmd)) in
      case recordVerdict (de_commits env) (dd_recordId dd)
             (putObject env (dd_nonce dd) (de_bucket env) key (up_bytes cmd)) (verdict_input_of env cmd a key verdict) w of
        (w', None) \<Rightarrow> (w', [], Inl Persistence_failed)
      | (w', Some RECORD_APPLICATION_NOT_FOUND) \<Rightarrow> (w', [], Inr Upload_APPLICATION_NOT_FOUND)
      | (w', Some (RECORD_REVIEW_CLOSED reason)) \<Rightarrow>
          (w', publish_then bus
                 [upload_audit (id 1) cmd a ''DOCUMENT_REUPLOAD_REFUSED''
                    [(''documentType'', JStr (document_type_text (up_documentType cmd))), (''reason'', JStr (closed_reason_text reason))]]
                 (Upload_REVIEW_CLOSED reason))
      | (w', Some (Verdict_RECORDED documentId revision superseded)) \<Rightarrow>
          (w', publish_then bus
                 [completed_event (id 1) (up_applicationId cmd) a (up_documentType cmd) documentId verdict,
                  upload_audit (id 2) cmd a ''DOCUMENT_UPLOADED'' (uploaded_metadata cmd documentId revision superseded verdict)]
                 (UPLOADED documentId a key revision superseded verdict)))"

text \<open>The owner is read in a transaction of its own, from \<open>db\<close>; the record finds \<open>w\<close>, after the scan.\<close>

definition upload ::
  "document_env \<Rightarrow> (document_event \<Rightarrow> bool) \<Rightarrow> document_draws \<Rightarrow> upload_command \<Rightarrow> 'ev database \<Rightarrow> 'ev document_world \<Rightarrow>
    'ev document_world \<times> document_event list \<times> (document_error + upload_outcome)" where
  "upload env bus dd cmd db w =
     (case findOwnedApplication (up_applicantId cmd) (up_applicationId cmd) db of
        None \<Rightarrow> (w, [], Inr Upload_APPLICATION_NOT_FOUND)
      | Some (a, status) \<Rightarrow>
          if List.member CLOSED_TO_UPLOADS status then (w, [], Inr (Upload_NOT_ACCEPTING_DOCUMENTS a status))
          else if \<not> isDocumentTypeSupported a (up_documentType cmd) then (w, [], Inr (Upload_UNSUPPORTED_DOCUMENT_TYPE a))
          else
            (let container = bs_container (probeBytes (up_bytes cmd)) in
             if container = UNKNOWN then (w, [], Inr (Upload_UNSUPPORTED_CONTENT container))
             else if map_of MEDIA_TYPE_CONTAINER (up_declaredMediaType cmd) \<noteq> Some container
             then (w, [], Inr (Upload_CONTENT_TYPE_MISMATCH (up_declaredMediaType cmd) container))
             else
               (case analyze_bytes (de_clamd env) (up_bytes cmd) of
                  Scanner_unavailable detail \<Rightarrow> (w, [], Inr (Upload_SCANNER_UNAVAILABLE detail))
                | Analyzed verdict \<Rightarrow>
                    (case deriveObjectKey a (up_applicationId cmd) (up_documentType cmd) of
                       None \<Rightarrow> (w, [], Inl Key_too_long)
                     | Some key \<Rightarrow>
                         if \<not> ff_virusScanClean (fv_flags verdict)
                         then (w, publish_then bus
                                    [upload_audit (envelope (dd_events dd) 1 (up_context cmd)) cmd a ''DOCUMENT_UPLOAD_REJECTED_MALWARE''
                                       [(''documentType'', JStr (document_type_text (up_documentType cmd))),
                                        (''fileSizeBytes'', JNum (of_nat (length (up_bytes cmd)))),
                                        (''reason'', JStr ''MALWARE_DETECTED'')]]
                                    Upload_MALWARE_DETECTED)
                         else store_upload env bus dd cmd a key verdict w))))"

subsection \<open>Analysing an object at rest\<close>

record analyze_command =
  an_applicationId :: uuid
  an_agency :: agency
  an_documentType :: document_type
  an_objectBucket :: string
  an_objectKey :: string
  an_mimeType :: string
  an_context :: event_context

datatype analyze_outcome =
    ANALYZED uuid forensics_verdict
  | Analyze_APPLICATION_NOT_FOUND
  | Analyze_OBJECT_NOT_FOUND
  | Analyze_UNSUPPORTED_DOCUMENT_TYPE
  | Analyze_SCANNER_UNAVAILABLE string
  | Analyze_REVIEW_CLOSED closed_reason

definition analysis_input :: "document_env \<Rightarrow> analyze_command \<Rightarrow> buffer \<Rightarrow> forensics_verdict \<Rightarrow> verdict_input" where
  "analysis_input env cmd bytes verdict =
     \<lparr>vi_applicationId = an_applicationId cmd, vi_agency = an_agency cmd, vi_documentType = an_documentType cmd,
      vi_objectBucket = an_objectBucket cmd, vi_objectKey = an_objectKey cmd, vi_fileSizeBytes = length bytes,
      vi_mimeType = an_mimeType cmd,
      vi_virusScanStatus = (if ff_virusScanClean (fv_flags verdict) then ''CLEAN'' else ''INFECTED''),
      vi_contentHmac = de_hmac env bytes, vi_verdict = verdict\<rparr>"

definition analysis_audit :: "event_envelope \<Rightarrow> analyze_command \<Rightarrow> uuid \<Rightarrow> forensics_verdict \<Rightarrow> document_event" where
  "analysis_audit env cmd documentId verdict =
     DOCUMENT_AUDIT
       \<lparr>da_envelope = env, da_entityId = an_applicationId cmd, da_action = ''DOCUMENT_FORENSICS_COMPLETED'',
        da_performedBy = ''document-forensics-service'', da_agency = an_agency cmd, da_statuses = None,
        da_metadata =
          [(''documentId'', JStr documentId), (''documentType'', JStr (document_type_text (an_documentType cmd))),
           (''lane'', JStr (lane_name (fv_lane verdict))), (''forensicsScore'', JNum (of_int (fv_score verdict))),
           (''virusScanClean'', JBool (ff_virusScanClean (fv_flags verdict)))]\<rparr>"

definition store_analysis ::
  "document_env \<Rightarrow> (document_event \<Rightarrow> bool) \<Rightarrow> document_draws \<Rightarrow> analyze_command \<Rightarrow> buffer \<Rightarrow> forensics_verdict \<Rightarrow>
    'ev document_world \<Rightarrow> 'ev document_world \<times> document_event list \<times> (document_error + analyze_outcome)" where
  "store_analysis env bus dd cmd bytes verdict w =
     (let id = (\<lambda>n. envelope (dd_events dd) n (an_context cmd)) in
      case recordVerdict (de_commits env) (dd_recordId dd) Some (analysis_input env cmd bytes verdict) w of
        (w', None) \<Rightarrow> (w', [], Inl Persistence_failed)
      | (w', Some RECORD_APPLICATION_NOT_FOUND) \<Rightarrow> (w', [], Inr Analyze_APPLICATION_NOT_FOUND)
      | (w', Some (RECORD_REVIEW_CLOSED reason)) \<Rightarrow> (w', [], Inr (Analyze_REVIEW_CLOSED reason))
      | (w', Some (Verdict_RECORDED documentId revision superseded)) \<Rightarrow>
          (w', publish_then bus
                 [completed_event (id 1) (an_applicationId cmd) (an_agency cmd) (an_documentType cmd) documentId verdict,
                  analysis_audit (id 2) cmd documentId verdict]
                 (ANALYZED documentId verdict)))"

definition analyze ::
  "document_env \<Rightarrow> (document_event \<Rightarrow> bool) \<Rightarrow> document_draws \<Rightarrow> analyze_command \<Rightarrow> 'ev document_world \<Rightarrow>
    'ev document_world \<times> document_event list \<times> (document_error + analyze_outcome)" where
  "analyze env bus dd cmd w =
     (if \<not> isDocumentTypeSupported (an_agency cmd) (an_documentType cmd) then (w, [], Inr Analyze_UNSUPPORTED_DOCUMENT_TYPE)
      else
        (case getObject env (an_objectBucket cmd) (an_objectKey cmd) (dw_objects w) of
           Inl e \<Rightarrow> (w, [], Inl e)
         | Inr None \<Rightarrow> (w, [], Inr Analyze_OBJECT_NOT_FOUND)
         | Inr (Some bytes) \<Rightarrow>
             (case analyze_bytes (de_clamd env) bytes of
                Scanner_unavailable detail \<Rightarrow> (w, [], Inr (Analyze_SCANNER_UNAVAILABLE detail))
              | Analyzed verdict \<Rightarrow> store_analysis env bus dd cmd bytes verdict w)))"

subsection \<open>A document seen at the venue\<close>

text \<open>
  \<open>recordVenueVerification\<close> of \<open>document-checklist.pg-repository.ts\<close>: an officer's sighting of a paper is a row of its
  own that names no object. The columns that say who saw it are not modelled, so that the partial index already
  holds the sighting is an argument, \<open>sighted\<close>; \<open>None\<close> is a failed statement (a taken id, no such application).
\<close>

definition sighting_row :: "uuid \<Rightarrow> uuid \<Rightarrow> document_type \<Rightarrow> document_row" where
  "sighting_row newId applicationId documentType =
     \<lparr>doc_application_id = applicationId, doc_lane = None, human_reviewed_by_id = None, human_reviewed_at = None,
      human_review_decision = None, doc_id = newId, doc_document_type = document_type_text documentType, doc_object_key = None,
      doc_object_bucket = None, doc_file_size_bytes = None, doc_mime_type = None, doc_virus_scan_status = None,
      doc_virus_scan_at = None, doc_score = None, doc_flags = None, doc_completed_at = None, doc_revision = 1,
      doc_content_hmac = None\<rparr>"

definition recordVenueVerification ::
  "bool \<Rightarrow> uuid \<Rightarrow> agency \<Rightarrow> uuid \<Rightarrow> document_type \<Rightarrow> 'ev document_world \<Rightarrow> 'ev document_world option" where
  "recordVenueVerification sighted newId a applicationId documentType w =
     (if sighted then Some w
      else if list_ex (\<lambda>d. doc_id d = newId) (slots_of a w) \<or> app_of (dw_db w) a applicationId = None then None
      else Some (w\<lparr>dw_db := update_schema a
                     (\<lambda>s. s\<lparr>document_records := document_records s @ [sighting_row newId applicationId documentType]\<rparr>) (dw_db w)\<rparr>))"

subsection \<open>Routing the application\<close>

text \<open>\<open>forensics-result.consumer.ts\<close> and \<open>project-forensics-result.service.ts\<close> of application-service.\<close>

definition routing_of :: "forensics_completed \<Rightarrow> forensics_routing_result" where
  "routing_of e =
     \<lparr>fr_applicationId = dc_applicationId e, fr_agency = dc_agency e, fr_lane = dc_lane e, fr_documentId = dc_documentId e,
      fr_correlationId = ev_correlationId (dc_envelope e)\<rparr>"

definition routing_audit ::
  "event_envelope \<Rightarrow> forensics_completed \<Rightarrow> application_status \<Rightarrow> application_status \<Rightarrow> document_audit" where
  "routing_audit env e current target =
     \<lparr>da_envelope = env, da_entityId = dc_applicationId e,
      da_action = (if target = REJECTED then ''APPLICATION_REJECTED'' else ''APPLICATION_STATUS_ADVANCED''),
      da_performedBy = ''application-service'', da_agency = dc_agency e, da_statuses = Some (current, target),
      da_metadata = [(''stage'', JStr ''DOCUMENT_FORENSICS_ROUTING''), (''lane'', JStr (lane_name (dc_lane e))),
                     (''documentId'', JStr (dc_documentId e))]\<rparr>"

definition project_forensics ::
  "(document_event \<Rightarrow> bool) \<Rightarrow> auth_draws \<Rightarrow> forensics_completed \<Rightarrow> 'ev database \<Rightarrow>
    'ev database \<times> document_event list \<times> (document_error + apply_forensics_outcome)" where
  "project_forensics bus dr e db =
     (case applyForensicsRouting (routing_of e) db of
        (db', Forensics_APPLIED s t p) \<Rightarrow>
          (db', publish_then bus [DOCUMENT_AUDIT (routing_audit (envelope dr 1 (deriveContext (dc_envelope e))) e s t)] (Forensics_APPLIED s t p))
      | (db', answer) \<Rightarrow> (db', [], Inr answer))"

definition on_document_event ::
  "(document_event \<Rightarrow> bool) \<Rightarrow> auth_draws \<Rightarrow> document_event \<Rightarrow> 'ev database \<Rightarrow>
    'ev database \<times> document_event list \<times> (document_error + apply_forensics_outcome) option" where
  "on_document_event bus dr event db =
     (case event of
        DOCUMENT_FORENSICS_COMPLETED e \<Rightarrow> (case project_forensics bus dr e db of (db', sent, ans) \<Rightarrow> (db', sent, Some ans))
      | _ \<Rightarrow> (db, [], None))"

subsection \<open>What a record may change\<close>

definition trail_of :: "agency \<Rightarrow> uuid \<Rightarrow> 'ev document_world \<Rightarrow> revision_row list" where
  "trail_of a documentId w = filter (\<lambda>r. rv_document_id r = documentId) (dw_revisions w a)"

definition slot_key :: "document_row \<Rightarrow> uuid \<times> string option" where
  "slot_key d = (doc_application_id d, doc_object_key d)"

definition keyed :: "document_row \<Rightarrow> bool" where
  "keyed d \<longleftrightarrow> doc_object_key d \<noteq> None"

lemma slots_of_simps [simp]:
  "slots_of a (w\<lparr>dw_objects := objs\<rparr>) = slots_of a w"
  "slots_of a (w\<lparr>dw_revisions := revs\<rparr>) = slots_of a w"
  "find_slot a i key (w\<lparr>dw_objects := objs\<rparr>) = find_slot a i key w"
  "trail_of a n (w\<lparr>dw_objects := objs\<rparr>) = trail_of a n w"
  "trail_of a n (w\<lparr>dw_db := db\<rparr>) = trail_of a n w"
  by (simp_all add: slots_of_def find_slot_def trail_of_def)

lemma judged_simps [simp]:
  "doc_id (judged now n inp d) = doc_id d"
  "doc_application_id (judged now n inp d) = doc_application_id d"
  "doc_object_key (judged now n inp d) = doc_object_key d"
  "doc_object_bucket (judged now n inp d) = Some (vi_objectBucket inp)"
  "doc_revision (judged now n inp d) = n"
  "doc_content_hmac (judged now n inp d) = Some (vi_contentHmac inp)"
  "doc_lane (judged now n inp d) = Some (fv_lane (vi_verdict inp))"
  "doc_score (judged now n inp d) = Some (fv_score (vi_verdict inp))"
  "human_reviewed_at (judged now n inp d) = human_reviewed_at d"
  "human_reviewed_by_id (judged now n inp d) = human_reviewed_by_id d"
  "slot_key (judged now n inp d) = slot_key d" "keyed (judged now n inp d) = keyed d"
  by (simp_all add: judged_def slot_key_def keyed_def)

lemma blank_simps [simp]:
  "doc_id (blank_document n inp) = n" "doc_application_id (blank_document n inp) = vi_applicationId inp"
  "doc_object_key (blank_document n inp) = Some (vi_objectKey inp)"
  "slot_key (blank_document n inp) = (vi_applicationId inp, Some (vi_objectKey inp))" "keyed (blank_document n inp)"
  by (simp_all add: blank_document_def slot_key_def keyed_def)

lemma write_slot_rows:
  assumes "write_slot n v inp w = Some w'"
  shows "slots_of a w' =
      (if a = vi_agency inp then map (\<lambda>d. if doc_id d = n then judged (db_now (dw_db w)) v inp d else d) (slots_of a w) else slots_of a w)"
    and "dw_revisions w' a =
      (if a = vi_agency inp then dw_revisions w a @ [revision_of (db_now (dw_db w)) n v inp] else dw_revisions w a)"
    and "dw_objects w' = dw_objects w"
  using assms by (auto simp: write_slot_def slots_of_def Let_def store_simps split: if_splits)

lemma create_slot_rows:
  assumes "create_slot n inp w = Some w'"
  shows "slots_of a w' =
      (if a = vi_agency inp then slots_of a w @ [judged (db_now (dw_db w)) 1 inp (blank_document n inp)] else slots_of a w)"
    and "dw_revisions w' a =
      (if a = vi_agency inp then dw_revisions w a @ [revision_of (db_now (dw_db w)) n 1 inp] else dw_revisions w a)"
    and "dw_objects w' = dw_objects w"
    and "\<forall>d \<in> set (slots_of (vi_agency inp) w). doc_id d \<noteq> n"
    and "\<forall>r \<in> set (dw_revisions w (vi_agency inp)). rv_document_id r \<noteq> n"
  using assms by (auto simp: create_slot_def slots_of_def Let_def store_simps list_ex_iff split: if_splits)

lemma sighting_rows:
  assumes "recordVenueVerification sighted n b i t w = Some w'"
  obtains "w' = w"
  | "slots_of b w' = slots_of b w @ [sighting_row n i t]" "\<And>a. a \<noteq> b \<Longrightarrow> slots_of a w' = slots_of a w"
      "\<forall>d \<in> set (slots_of b w). doc_id d \<noteq> n" "dw_revisions w' = dw_revisions w" "dw_objects w' = dw_objects w"
  using assms by (auto simp: recordVenueVerification_def slots_of_def store_simps list_ex_iff split: if_splits)

lemma sighting_simps [simp]:
  "doc_id (sighting_row n i t) = n" "doc_object_key (sighting_row n i t) = None" "\<not> keyed (sighting_row n i t)"
  "slot_key (sighting_row n i t) = (i, None)"
  by (simp_all add: sighting_row_def keyed_def slot_key_def)

lemma find_slot_SomeD:
  "find_slot a i key w = Some d \<Longrightarrow> d \<in> set (slots_of a w) \<and> doc_application_id d = i \<and> doc_object_key d = Some key"
  by (auto simp: find_slot_def find_Some_iff)

lemma find_slot_None:
  "find_slot a i key w = None \<Longrightarrow> d \<in> set (slots_of a w) \<Longrightarrow> slot_key d \<noteq> (i, Some key)"
  by (auto simp: find_slot_def find_None_iff slot_key_def)

lemma recordVerdict_alt:
  "recordVerdict commits newId writeObject inp w =
     (case app_of (dw_db w) (vi_agency inp) (vi_applicationId inp) of
        None \<Rightarrow> (w, Some RECORD_APPLICATION_NOT_FOUND)
      | Some app \<Rightarrow>
          (let slot = find_slot (vi_agency inp) (vi_applicationId inp) (vi_objectKey inp) w;
               documentId = (case slot of None \<Rightarrow> newId | Some d \<Rightarrow> doc_id d) in
           case decideSupersession (slot_state_of (app_status app) slot) (vi_contentHmac inp)
                  (case slot of None \<Rightarrow> 1 | Some d \<Rightarrow> doc_revision d) of
             Slot_CLOSED_HUMAN_REVIEW \<Rightarrow> (w, Some (RECORD_REVIEW_CLOSED HUMAN_REVIEWED))
           | Slot_CLOSED_CASE_ADVANCED \<Rightarrow> (w, Some (RECORD_REVIEW_CLOSED CASE_ADVANCED))
           | Slot_RETRY revision \<Rightarrow> (w, Some (Verdict_RECORDED documentId revision False))
           | Slot_SUPERSEDE revision \<Rightarrow>
               commit_rows commits (write_slot documentId revision inp) (Verdict_RECORDED documentId revision True)
                 (writeObject (dw_objects w)) w
           | Slot_CREATE \<Rightarrow>
               commit_rows commits (create_slot documentId inp) (Verdict_RECORDED documentId 1 False) (writeObject (dw_objects w)) w))"
  by (cases "app_of (dw_db w) (vi_agency inp) (vi_applicationId inp)")
    (simp_all add: recordVerdict_def read_slot_def execute_decision_def Let_def)

text \<open>The four ways a record leaves the world; in the last three the slot carries no stamp.\<close>

lemma recordVerdict_cases:
  assumes "recordVerdict commits newId wr inp w = (w', ans)"
  obtains (same) "w' = w" and "\<And>n r s. ans = Some (Verdict_RECORDED n r s) \<Longrightarrow>
      \<not> s \<and> (\<exists>d. find_slot (vi_agency inp) (vi_applicationId inp) (vi_objectKey inp) w = Some d \<and> doc_id d = n \<and>
        doc_content_hmac d = Some (vi_contentHmac inp) \<and> doc_revision d = r)"
  | (object) objs where "wr (dw_objects w) = Some objs" "w' = w\<lparr>dw_objects := objs\<rparr>" "ans = None"
      "\<And>d. find_slot (vi_agency inp) (vi_applicationId inp) (vi_objectKey inp) w = Some d \<Longrightarrow> human_reviewed_at d = None"
  | (superseded) objs d where "wr (dw_objects w) = Some objs"
      "find_slot (vi_agency inp) (vi_applicationId inp) (vi_objectKey inp) w = Some d" "human_reviewed_at d = None"
      "write_slot (doc_id d) (doc_revision d + 1) inp (w\<lparr>dw_objects := objs\<rparr>) = Some w'"
      "ans = Some (Verdict_RECORDED (doc_id d) (doc_revision d + 1) True)" "doc_content_hmac d \<noteq> Some (vi_contentHmac inp)"
  | (created) objs where "wr (dw_objects w) = Some objs"
      "find_slot (vi_agency inp) (vi_applicationId inp) (vi_objectKey inp) w = None"
      "create_slot newId inp (w\<lparr>dw_objects := objs\<rparr>) = Some w'" "ans = Some (Verdict_RECORDED newId 1 False)"
proof (cases "app_of (dw_db w) (vi_agency inp) (vi_applicationId inp)")
  case None
  then show thesis using assms same by (auto simp: recordVerdict_alt)
next
  case (Some app)
  let ?slot = "find_slot (vi_agency inp) (vi_applicationId inp) (vi_objectKey inp) w"
  let ?decision = "decideSupersession (slot_state_of (app_status app) ?slot) (vi_contentHmac inp)
    (case ?slot of None \<Rightarrow> 1 | Some d \<Rightarrow> doc_revision d)"
  note run = assms [unfolded recordVerdict_alt, simplified, unfolded Some, simplified, unfolded Let_def]
  have unrecorded: "w' = w \<Longrightarrow> (\<And>n r s. ans \<noteq> Some (Verdict_RECORDED n r s)) \<Longrightarrow> thesis"
    by (rule same) auto
  show thesis
  proof (cases ?slot)
    case None
    show thesis
    proof (cases ?decision)
      case Slot_CREATE
      then show thesis using run None object created unrecorded
        by (auto simp: commit_rows_def split: option.splits if_splits)
    next
      case Slot_CLOSED_CASE_ADVANCED
      then show thesis using run None unrecorded by auto
    qed (use None in \<open>auto simp: decideSupersession_def slot_state_of_def Let_def split: if_splits\<close>)
  next
    case slot: (Some d)
    show thesis
    proof (cases ?decision)
      case Slot_CREATE
      then show thesis using slot by (auto simp: decideSupersession_def slot_state_of_def Let_def split: if_splits)
    next
      case (Slot_SUPERSEDE n)
      then have open_slot: "human_reviewed_at d = None" "n = doc_revision d + 1" "doc_content_hmac d \<noteq> Some (vi_contentHmac inp)"
        using slot by (auto simp: decideSupersession_def slot_state_of_def Let_def split: if_splits)
      then show thesis using run slot Slot_SUPERSEDE object superseded unrecorded
        by (auto simp: commit_rows_def split: option.splits if_splits)
    next
      case (Slot_RETRY n)
      then have "doc_content_hmac d = Some (vi_contentHmac inp)" "n = doc_revision d"
        using slot by (auto simp: decideSupersession_def slot_state_of_def Let_def split: if_splits)
      then show thesis using run slot Slot_RETRY same by auto
    next
      case Slot_CLOSED_HUMAN_REVIEW
      then show thesis using run slot unrecorded by auto
    next
      case Slot_CLOSED_CASE_ADVANCED
      then show thesis using run slot unrecorded by auto
    qed
  qed
qed

text \<open>Whatever refuses an upload leaves the world alone.\<close>

definition accepts_upload ::
  "document_env \<Rightarrow> upload_command \<Rightarrow> agency \<Rightarrow> application_status \<Rightarrow> string \<Rightarrow> forensics_verdict \<Rightarrow> 'ev database \<Rightarrow> bool" where
  "accepts_upload env cmd a status key verdict db \<longleftrightarrow>
     findOwnedApplication (up_applicantId cmd) (up_applicationId cmd) db = Some (a, status) \<and>
     \<not> List.member CLOSED_TO_UPLOADS status \<and> isDocumentTypeSupported a (up_documentType cmd) \<and>
     bs_container (probeBytes (up_bytes cmd)) \<noteq> UNKNOWN \<and>
     map_of MEDIA_TYPE_CONTAINER (up_declaredMediaType cmd) = Some (bs_container (probeBytes (up_bytes cmd))) \<and>
     analyze_bytes (de_clamd env) (up_bytes cmd) = Analyzed verdict \<and> ff_virusScanClean (fv_flags verdict) \<and>
     deriveObjectKey a (up_applicationId cmd) (up_documentType cmd) = Some key"

lemma accepted_upload:
  "accepts_upload env cmd a status key verdict db \<Longrightarrow> upload env bus dd cmd db w = store_upload env bus dd cmd a key verdict w"
  by (simp add: accepts_upload_def upload_def Let_def)

lemma publish_then_subset: "set (fst (publish_then bus es answer)) \<subseteq> set es"
proof -
  obtain sent ok where p: "publish_each bus es = (sent, ok)" by fastforce
  then show ?thesis using publish_each_subset [OF p] by (simp add: publish_then_def)
qed

lemma only_audits [simp]:
  "DOCUMENT_FORENSICS_COMPLETED e \<notin> set (fst (publish_then bus [upload_audit en cmd a act md] answer))"
  using publish_then_subset [of bus "[upload_audit en cmd a act md]" answer] by (auto simp: upload_audit_def)

lemma refused_upload:
  assumes "\<And>a status key verdict. \<not> accepts_upload env cmd a status key verdict db"
  shows "fst (upload env bus dd cmd db w) = w \<and> (\<forall>n a key r s v. snd (snd (upload env bus dd cmd db w)) \<noteq> Inr (UPLOADED n a key r s v)) \<and>
    (\<forall>e. DOCUMENT_FORENSICS_COMPLETED e \<notin> set (fst (snd (upload env bus dd cmd db w))))"
proof (cases "findOwnedApplication (up_applicantId cmd) (up_applicationId cmd) db")
  case None
  then show ?thesis by (simp add: upload_def)
next
  case (Some found)
  obtain a status where found: "found = (a, status)" by (cases found)
  show ?thesis
  proof (cases "List.member CLOSED_TO_UPLOADS status \<or> \<not> isDocumentTypeSupported a (up_documentType cmd) \<or>
      bs_container (probeBytes (up_bytes cmd)) = UNKNOWN \<or>
      map_of MEDIA_TYPE_CONTAINER (up_declaredMediaType cmd) \<noteq> Some (bs_container (probeBytes (up_bytes cmd)))")
    case True
    then show ?thesis using Some found by (auto simp: upload_def Let_def)
  next
    case False
    note admitted = this
    show ?thesis
    proof (cases "analyze_bytes (de_clamd env) (up_bytes cmd)")
      case (Analyzed verdict)
      show ?thesis
      proof (cases "deriveObjectKey a (up_applicationId cmd) (up_documentType cmd)")
        case None
        then show ?thesis using Some found admitted Analyzed by (simp add: upload_def Let_def)
      next
        case key: (Some key)
        then have "\<not> ff_virusScanClean (fv_flags verdict)"
          using assms [of a status key verdict] Some found admitted Analyzed by (auto simp: accepts_upload_def)
        moreover have "snd (publish_then bus es Upload_MALWARE_DETECTED) \<noteq> Inr (UPLOADED n b k r s v)" for es n b k r s v
          by (simp add: publish_then_def split: prod.split)
        ultimately show ?thesis using Some found admitted Analyzed key by (simp add: upload_def Let_def)
      qed
    next
      case (Scanner_unavailable detail)
      then show ?thesis using Some found admitted by (simp add: upload_def Let_def)
    qed
  qed
qed

lemma upload_cases:
  obtains (aside) "fst (upload env bus dd cmd db w) = w"
      "\<And>n a key r s v. snd (snd (upload env bus dd cmd db w)) \<noteq> Inr (UPLOADED n a key r s v)"
  | (stored) a status key verdict where "accepts_upload env cmd a status key verdict db"
      "upload env bus dd cmd db w = store_upload env bus dd cmd a key verdict w"
proof (cases "\<exists>a status key verdict. accepts_upload env cmd a status key verdict db")
  case True
  then obtain a status key verdict where "accepts_upload env cmd a status key verdict db" by blast
  then show thesis using stored accepted_upload by blast
next
  case False
  then have "\<And>a status key verdict. \<not> accepts_upload env cmd a status key verdict db" by blast
  from refused_upload [OF this, of bus dd w] show thesis by (intro aside) simp_all
qed

lemma store_upload_world:
  "fst (store_upload env bus dd cmd a key verdict w) =
   fst (recordVerdict (de_commits env) (dd_recordId dd) (putObject env (dd_nonce dd) (de_bucket env) key (up_bytes cmd))
     (verdict_input_of env cmd a key verdict) w)"
  by (simp add: store_upload_def Let_def split: prod.split option.split verdict_outcome.split)

lemma store_analysis_world:
  "fst (store_analysis env bus dd cmd bytes verdict w) =
   fst (recordVerdict (de_commits env) (dd_recordId dd) Some (analysis_input env cmd bytes verdict) w)"
  by (simp add: store_analysis_def Let_def split: prod.split option.split verdict_outcome.split)

lemma analyze_world:
  "fst (analyze env bus dd cmd w) = w \<or>
   (\<exists>bytes verdict. fst (analyze env bus dd cmd w) =
      fst (recordVerdict (de_commits env) (dd_recordId dd) Some (analysis_input env cmd bytes verdict) w))"
proof -
  have "fst (analyze env bus dd cmd w) = w \<or>
      (\<exists>bytes verdict. analyze env bus dd cmd w = store_analysis env bus dd cmd bytes verdict w)"
    by (simp add: analyze_def split: option.split sum.split analyze_result.split) blast
  then show ?thesis
  proof
    assume "\<exists>bytes verdict. analyze env bus dd cmd w = store_analysis env bus dd cmd bytes verdict w"
    then obtain bytes verdict where "analyze env bus dd cmd w = store_analysis env bus dd cmd bytes verdict w" by blast
    then have "fst (analyze env bus dd cmd w) =
        fst (recordVerdict (de_commits env) (dd_recordId dd) Some (analysis_input env cmd bytes verdict) w)"
      by (simp add: store_analysis_world)
    then show ?thesis by blast
  qed simp
qed

subsection \<open>The officer's stamp\<close>

text \<open>An adjudication changes a document row only by the review columns, and only where there were none.\<close>

definition stamps :: "document_row \<Rightarrow> document_row \<Rightarrow> bool" where
  "stamps d d' \<longleftrightarrow> d' = d \<or> human_reviewed_by_id d = None \<and>
     (\<exists>x y z. d' = d\<lparr>human_reviewed_by_id := x, human_reviewed_at := y, human_review_decision := z\<rparr>)"

definition stamped_by :: "'ev database \<Rightarrow> 'ev database \<Rightarrow> bool" where
  "stamped_by db db' \<longleftrightarrow>
     (\<forall>b. \<exists>f. document_records (schema_of db' b) = map f (document_records (schema_of db b)) \<and> (\<forall>d. stamps d (f d)))"

lemma stamped_by_same:
  "(\<And>b. document_records (schema_of db' b) = document_records (schema_of db b)) \<Longrightarrow> stamped_by db db'"
  unfolding stamped_by_def by (intro allI exI [of _ "\<lambda>d. d"]) (simp add: stamps_def)

lemma stamped_by_documents:
  "stamped_by db db0 \<Longrightarrow> (\<And>b. document_records (schema_of db' b) = document_records (schema_of db0 b)) \<Longrightarrow> stamped_by db db'"
  by (simp add: stamped_by_def)

lemma document_statements:
  "document_records (schema_of (update_app a i f db) b) = document_records (schema_of db b)"
  "document_records (schema_of (insert_history a i s t why who corr db) b) = document_records (schema_of db b)"
  by (simp_all add: update_app_def insert_history_def schema_of_update_schema)

lemma stamp_documents_stamps: "stamped_by db (stamp_documents a i off dec db)"
  unfolding stamped_by_def
proof
  fix b
  let ?f = "\<lambda>d. if doc_application_id d = i \<and> doc_lane d = Some AMBER \<and> human_reviewed_by_id d = None
    then d\<lparr>human_reviewed_by_id := Some off, human_reviewed_at := Some (db_now db), human_review_decision := Some dec\<rparr> else d"
  show "\<exists>f. document_records (schema_of (stamp_documents a i off dec db) b) = map f (document_records (schema_of db b)) \<and> (\<forall>d. stamps d (f d))"
    by (cases "a = b"; intro exI [of _ "if a = b then ?f else (\<lambda>d. d)"])
      (auto simp: stamp_documents_def stamps_def schema_of_update_schema)
qed

lemma adjudicate_documents: "stamped_by db (fst (adjudicate opts inp db))"
proof (cases rule: adjudicate_cases [of opts inp db])
  case (refused oc)
  then show ?thesis by (simp add: stamped_by_same)
next
  case (applied r decided target)
  define db2 where "db2 = (let db1 = (if aj_decision inp = CLEAR \<and> decided \<noteq> LANE_DOCUMENT
        then update_app (actor_agency (aj_actor inp)) (aj_applicationId inp) (record_human_verdict (officerId (aj_actor inp)) decided (db_now db)) db
        else db)
    in if target \<noteq> app_status r then update_app (actor_agency (aj_actor inp)) (aj_applicationId inp) (\<lambda>r. r\<lparr>app_status := target\<rparr>) db1 else db1)"
  have same: "document_records (schema_of db2 b) = document_records (schema_of db b)" for b
    by (simp add: db2_def Let_def document_statements)
  define db3 where "db3 = (if decided = LANE_DOCUMENT \<and> app_status r = DOCUMENT_REVIEW_AMBER
    then stamp_documents (actor_agency (aj_actor inp)) (aj_applicationId inp) (officerId (aj_actor inp)) (decision_name (aj_decision inp)) db2
    else db2)"
  have "stamped_by db2 db3" by (simp add: db3_def stamp_documents_stamps stamped_by_same)
  then have "stamped_by db db3" using same by (simp add: stamped_by_def)
  then show ?thesis
    using applied(2) by (auto simp: write_adjudication_def Let_def db3_def db2_def document_statements intro: stamped_by_documents)
qed

lemma stamps_fields:
  "stamps d d' \<Longrightarrow> doc_id d' = doc_id d \<and> slot_key d' = slot_key d \<and> keyed d' = keyed d \<and> doc_revision d' = doc_revision d \<and>
    doc_content_hmac d' = doc_content_hmac d \<and> doc_lane d' = doc_lane d \<and> doc_score d' = doc_score d \<and>
    doc_application_id d' = doc_application_id d \<and> doc_object_key d' = doc_object_key d"
  by (auto simp: stamps_def slot_key_def keyed_def)

subsection \<open>Slots and their trails\<close>

text \<open>The newest revision of a slot says what its row says.\<close>

definition tracked :: "revision_row list \<Rightarrow> document_row \<Rightarrow> bool" where
  "tracked rs d \<longleftrightarrow>
     map rv_revision rs = [1..doc_revision d] \<and> rs \<noteq> [] \<and>
     doc_content_hmac d = Some (rv_content_hmac (last rs)) \<and> doc_lane d = Some (rv_lane (last rs)) \<and>
     doc_score d = Some (rv_score (last rs))"

definition slots_ok :: "'ev document_world \<Rightarrow> bool" where
  "slots_ok w \<longleftrightarrow>
     (\<forall>a. distinct (map doc_id (slots_of a w)) \<and> distinct (map slot_key (filter keyed (slots_of a w))) \<and>
        (\<forall>r \<in> set (dw_revisions w a). rv_document_id r \<in> doc_id ` set (slots_of a w)) \<and>
        (\<forall>d \<in> set (slots_of a w). keyed d \<longrightarrow> tracked (trail_of a (doc_id d) w) d))"

lemma tracked_next:
  assumes "tracked rs d"
  shows "tracked (rs @ [revision_of now (doc_id d) (doc_revision d + 1) inp]) (judged now (doc_revision d + 1) inp d)"
proof -
  have "1 \<le> doc_revision d" using assms by (cases "1 \<le> doc_revision d") (auto simp: tracked_def)
  then show ?thesis using assms by (simp add: tracked_def revision_of_def upto_rec2)
qed

lemma tracked_first:
  "tracked [revision_of now n 1 inp] (judged now 1 inp (blank_document n inp))"
  by (simp add: tracked_def revision_of_def)

lemma slots_ok_parts:
  assumes "slots_ok w"
  shows "distinct (map doc_id (slots_of a w))" and "distinct (map slot_key (filter keyed (slots_of a w)))"
    and "r \<in> set (dw_revisions w a) \<Longrightarrow> rv_document_id r \<in> doc_id ` set (slots_of a w)"
    and "d \<in> set (slots_of a w) \<Longrightarrow> keyed d \<Longrightarrow> tracked (trail_of a (doc_id d) w) d"
  using assms unfolding slots_ok_def by simp_all

lemma slots_okI:
  assumes "\<And>a. distinct (map doc_id (slots_of a w))" and "\<And>a. distinct (map slot_key (filter keyed (slots_of a w)))"
    and "\<And>a r. r \<in> set (dw_revisions w a) \<Longrightarrow> rv_document_id r \<in> doc_id ` set (slots_of a w)"
    and "\<And>a d. d \<in> set (slots_of a w) \<Longrightarrow> keyed d \<Longrightarrow> tracked (trail_of a (doc_id d) w) d"
  shows "slots_ok w"
  using assms unfolding slots_ok_def by blast

lemma slots_ok_map:
  assumes "slots_ok w" and "\<And>a. \<exists>f. slots_of a w' = map f (slots_of a w) \<and> (\<forall>d. stamps d (f d))"
    and "dw_revisions w' = dw_revisions w"
  shows "slots_ok w'"
proof (rule slots_okI)
  fix a
  obtain f where f: "slots_of a w' = map f (slots_of a w)" "\<And>d. stamps d (f d)" using assms(2) by blast
  note same = stamps_fields [OF f(2)]
  have "map doc_id (slots_of a w') = map doc_id (slots_of a w)" using f(1) same by simp
  then show "distinct (map doc_id (slots_of a w'))" using slots_ok_parts(1) [OF assms(1)] by simp
  have "map slot_key (filter keyed (slots_of a w')) = map slot_key (filter keyed (slots_of a w))"
    using f(1) same by (simp add: filter_map o_def)
  then show "distinct (map slot_key (filter keyed (slots_of a w')))" using slots_ok_parts(2) [OF assms(1)] by simp
  have ids: "doc_id ` set (slots_of a w') = doc_id ` set (slots_of a w)"
    using f(1) same by (simp add: image_image)
  show "rv_document_id r \<in> doc_id ` set (slots_of a w')" if "r \<in> set (dw_revisions w' a)" for r
    using slots_ok_parts(3) [OF assms(1)] that by (simp add: ids assms(3))
  show "tracked (trail_of a (doc_id d') w') d'" if d': "d' \<in> set (slots_of a w')" "keyed d'" for d'
  proof -
    obtain d where d: "d \<in> set (slots_of a w)" "d' = f d" using d'(1) f(1) by auto
    then have "tracked (trail_of a (doc_id d) w) d" using slots_ok_parts(4) [OF assms(1)] d'(2) same by simp
    then show ?thesis using same [of d] d(2) assms(3) by (simp add: tracked_def trail_of_def)
  qed
qed

lemma slots_ok_same:
  assumes "slots_ok w" and "\<And>a. slots_of a w' = slots_of a w" and "dw_revisions w' = dw_revisions w"
  shows "slots_ok w'"
  by (rule slots_ok_map [OF assms(1)]) (auto simp: assms(2,3) stamps_def intro: exI [of _ "\<lambda>d. d"])

lemma write_slot_ok:
  assumes ok: "slots_ok w" and d: "d \<in> set (slots_of (vi_agency inp) w)" "keyed d"
    and run: "write_slot (doc_id d) (doc_revision d + 1) inp w = Some w'"
  shows "slots_ok w'"
proof (rule slots_okI)
  fix a
  note rows = write_slot_rows [OF run]
  let ?f = "\<lambda>x. if doc_id x = doc_id d then judged (db_now (dw_db w)) (doc_revision d + 1) inp x else x"
  have slots: "slots_of a w' = (if a = vi_agency inp then map ?f (slots_of a w) else slots_of a w)" by (rule rows(1))
  have same_ids: "map doc_id (slots_of a w') = map doc_id (slots_of a w)" by (simp add: slots)
  then show "distinct (map doc_id (slots_of a w'))" using slots_ok_parts(1) [OF ok] by simp
  have ids: "doc_id ` set (slots_of a w') = doc_id ` set (slots_of a w)"
    using arg_cong [OF same_ids, of set] by simp
  have "map slot_key (filter keyed (slots_of a w')) = map slot_key (filter keyed (slots_of a w))"
    by (simp add: slots filter_map o_def if_distrib [of keyed] if_distrib [of slot_key] cong: if_cong)
  then show "distinct (map slot_key (filter keyed (slots_of a w')))" using slots_ok_parts(2) [OF ok] by simp
  show "rv_document_id r \<in> doc_id ` set (slots_of a w')" if "r \<in> set (dw_revisions w' a)" for r
    using slots_ok_parts(3) [OF ok] that d(1) by (auto simp: ids rows(2) revision_of_def split: if_splits)
  show "tracked (trail_of a (doc_id d') w') d'" if d': "d' \<in> set (slots_of a w')" "keyed d'" for d'
  proof (cases "a = vi_agency inp \<and> doc_id d' = doc_id d")
    case True
    then obtain x where x: "x \<in> set (slots_of a w)" "doc_id x = doc_id d" "d' = ?f x" using d' slots by (auto split: if_splits)
    then have "x = d" using slots_ok_parts(1) [OF ok, of a] d(1) True by (auto simp: distinct_map inj_on_def)
    then have "d' = judged (db_now (dw_db w)) (doc_revision d + 1) inp d" using x by simp
    moreover have "trail_of a (doc_id d) w' = trail_of a (doc_id d) w @ [revision_of (db_now (dw_db w)) (doc_id d) (doc_revision d + 1) inp]"
      using True rows(2) by (simp add: trail_of_def revision_of_def)
    ultimately show ?thesis using tracked_next [OF slots_ok_parts(4) [OF ok d], of "db_now (dw_db w)" inp] True by simp
  next
    case False
    then have "d' \<in> set (slots_of a w)" using d'(1) slots by (auto split: if_splits)
    moreover have "trail_of a (doc_id d') w' = trail_of a (doc_id d') w"
      using False rows(2) by (auto simp: trail_of_def revision_of_def)
    ultimately show ?thesis using slots_ok_parts(4) [OF ok] d'(2) by simp
  qed
qed

lemma create_slot_ok:
  assumes ok: "slots_ok w" and new: "find_slot (vi_agency inp) (vi_applicationId inp) (vi_objectKey inp) w = None"
    and run: "create_slot n inp w = Some w'"
  shows "slots_ok w'"
proof (rule slots_okI)
  fix a
  note rows = create_slot_rows [OF run]
  let ?d = "judged (db_now (dw_db w)) 1 inp (blank_document n inp)"
  have slots: "slots_of a w' = (if a = vi_agency inp then slots_of a w @ [?d] else slots_of a w)" by (rule rows(1))
  show "distinct (map doc_id (slots_of a w'))" using slots_ok_parts(1) [OF ok] rows(4) by (auto simp: slots)
  show "distinct (map slot_key (filter keyed (slots_of a w')))"
    using slots_ok_parts(2) [OF ok, of a] find_slot_None [OF new] by (fastforce simp: slots)
  show "rv_document_id r \<in> doc_id ` set (slots_of a w')" if "r \<in> set (dw_revisions w' a)" for r
    using slots_ok_parts(3) [OF ok] that by (auto simp: slots rows(2) revision_of_def split: if_splits)
  show "tracked (trail_of a (doc_id d') w') d'" if d': "d' \<in> set (slots_of a w')" "keyed d'" for d'
  proof (cases "a = vi_agency inp \<and> d' = ?d")
    case True
    have "trail_of a n w = []" using rows(5) True by (auto simp: trail_of_def filter_empty_conv)
    then have "trail_of a n w' = [revision_of (db_now (dw_db w)) n 1 inp]"
      using True rows(2) by (simp add: trail_of_def revision_of_def)
    then show ?thesis using True tracked_first by simp
  next
    case False
    then have old: "d' \<in> set (slots_of a w)" using d'(1) slots by (auto split: if_splits)
    then have "a = vi_agency inp \<Longrightarrow> doc_id d' \<noteq> n" using rows(4) by blast
    then have "trail_of a (doc_id d') w' = trail_of a (doc_id d') w"
      using rows(2) by (auto simp: trail_of_def revision_of_def)
    then show ?thesis using slots_ok_parts(4) [OF ok old d'(2)] by simp
  qed
qed

lemma recordVerdict_ok:
  assumes "slots_ok w" shows "slots_ok (fst (recordVerdict commits newId wr inp w))"
proof -
  obtain w' ans where run: "recordVerdict commits newId wr inp w = (w', ans)" by fastforce
  have quiet: "slots_ok (w\<lparr>dw_objects := objs\<rparr>)" for objs by (rule slots_ok_same [OF assms]) simp_all
  show ?thesis
    using run
  proof (cases rule: recordVerdict_cases)
    case same
    then show ?thesis using assms run by simp
  next
    case (object objs)
    then show ?thesis using quiet run by simp
  next
    case (superseded objs d)
    then show ?thesis using write_slot_ok [OF quiet, of d inp objs w'] find_slot_SomeD [OF superseded(2)] run
      by (simp add: keyed_def)
  next
    case (created objs)
    then show ?thesis using create_slot_ok [OF quiet, of inp objs newId w'] run by simp
  qed
qed

subsection \<open>A reviewed document is evidence\<close>

lemma agency_names_lower:
  "js_lower (agency_text RDF) = ''rdf''" "js_lower (agency_text RNP) = ''rnp''" "js_lower (agency_text RCS) = ''rcs''"
  by code_simp+

lemma agency_prefix:
  "js_lower (agency_text a) = (case a of RDF \<Rightarrow> ''rdf'' | RNP \<Rightarrow> ''rnp'' | RCS \<Rightarrow> ''rcs'')"
  by (cases a) (simp_all only: agency_names_lower agency.case)

lemma derived_key_inj:
  assumes "deriveObjectKey a i t = Some key" and "deriveObjectKey b j u = Some key"
    and "CHR ''/'' \<notin> set i" and "CHR ''/'' \<notin> set j"
  shows "a = b \<and> i = j"
proof -
  have "js_lower (agency_text a) @ CHR ''/'' # i @ CHR ''/'' # js_lower (document_type_text t) =
      js_lower (agency_text b) @ CHR ''/'' # j @ CHR ''/'' # js_lower (document_type_text u)"
    using assms(1,2) by (auto simp: deriveObjectKey_def Let_def split: if_splits)
  moreover have "CHR ''/'' \<notin> set (js_lower (agency_text a))" "CHR ''/'' \<notin> set (js_lower (agency_text b))"
    by (simp_all add: agency_prefix split: agency.split)
  ultimately have "js_lower (agency_text a) = js_lower (agency_text b)"
    and rest: "i @ CHR ''/'' # js_lower (document_type_text t) = j @ CHR ''/'' # js_lower (document_type_text u)"
    using first_slash [of "js_lower (agency_text a)" "CHR ''/''" _ "js_lower (agency_text b)"] by simp_all
  moreover have "i = j" using first_slash [OF rest assms(3,4)] by simp
  ultimately show ?thesis by (cases a; cases b) (simp_all only: agency_prefix agency.case list.inject char.inject simp_thms)
qed

lemma find_slot_unique:
  assumes "slots_ok w" and "d \<in> set (slots_of a w)" and "doc_object_key d = Some key"
  shows "find_slot a (doc_application_id d) key w = Some d"
proof -
  obtain d' where d': "find_slot a (doc_application_id d) key w = Some d'"
    using find_slot_None [of a "doc_application_id d" key w d] assms(2,3)
    by (cases "find_slot a (doc_application_id d) key w") (simp_all add: slot_key_def)
  then have "slot_key d' = slot_key d" "keyed d'" "d' \<in> set (slots_of a w)"
    using find_slot_SomeD [OF d'] assms(3) by (simp_all add: slot_key_def keyed_def)
  moreover have "keyed d" using assms(3) by (simp add: keyed_def)
  ultimately have "d' = d" using slots_ok_parts(2) [OF assms(1), of a] assms(2) by (auto simp: distinct_map inj_on_def)
  with d' show ?thesis by simp
qed

text \<open>An officer's decision is on the row, and both review columns say so.\<close>

definition stamped :: "document_row \<Rightarrow> bool" where
  "stamped d \<longleftrightarrow> human_reviewed_at d \<noteq> None \<and> human_reviewed_by_id d \<noteq> None"

text \<open>A row that no other row of its agency shares its slot with, under ids that are a primary key.\<close>

definition sole :: "agency \<Rightarrow> document_row \<Rightarrow> 'ev document_world \<Rightarrow> bool" where
  "sole a d w \<longleftrightarrow> distinct (map doc_id (slots_of a w)) \<and> filter (\<lambda>e. slot_key e = slot_key d) (slots_of a w) = [d]"

lemma sole_parts:
  assumes "sole a d w"
  shows "d \<in> set (slots_of a w)" and "e \<in> set (slots_of a w) \<Longrightarrow> slot_key e = slot_key d \<Longrightarrow> e = d"
    and "e \<in> set (slots_of a w) \<Longrightarrow> doc_id e = doc_id d \<Longrightarrow> e = d"
proof -
  have same: "set (filter (\<lambda>e. slot_key e = slot_key d) (slots_of a w)) = {d}" using assms by (simp add: sole_def)
  then show d: "d \<in> set (slots_of a w)" by auto
  show "e \<in> set (slots_of a w) \<Longrightarrow> slot_key e = slot_key d \<Longrightarrow> e = d" using same by auto
  show "e \<in> set (slots_of a w) \<Longrightarrow> doc_id e = doc_id d \<Longrightarrow> e = d"
    using assms d by (auto simp: sole_def distinct_map inj_on_def)
qed

lemma soleI:
  assumes "distinct (map doc_id (slots_of a w))" and "d \<in> set (slots_of a w)" and "\<forall>e \<in> set (slots_of a w). slot_key e = slot_key d \<longrightarrow> e = d"
  shows "sole a d w"
proof -
  have "filter (\<lambda>e. slot_key e = slot_key d) (slots_of a w) = filter (\<lambda>e. e = d) (slots_of a w)"
    using assms(3) by (intro filter_cong) auto
  moreover have "distinct xs \<Longrightarrow> d \<in> set xs \<Longrightarrow> filter (\<lambda>e. e = d) xs = [d]" for xs
    by (induction xs) (auto simp: filter_empty_conv)
  moreover have "distinct (slots_of a w)" using assms(1) by (simp add: distinct_map)
  ultimately show ?thesis using assms(1,2) by (simp add: sole_def)
qed

lemma sole_found:
  assumes "sole a d w" and "doc_object_key d = Some key"
  shows "find_slot a (doc_application_id d) key w = Some d"
proof -
  obtain e where e: "find_slot a (doc_application_id d) key w = Some e"
    using find_slot_None [OF _ sole_parts(1) [OF assms(1)]] assms(2) by (fastforce simp: slot_key_def)
  then have "e = d" using sole_parts(2) [OF assms(1)] find_slot_SomeD [OF e] assms(2) by (simp add: slot_key_def)
  with e show ?thesis by simp
qed

definition keeps_evidence :: "agency \<Rightarrow> string \<Rightarrow> document_row \<Rightarrow> 'ev document_world \<Rightarrow> 'ev document_world \<Rightarrow> bool" where
  "keeps_evidence a key d w w' \<longleftrightarrow>
     sole a d w' \<and> trail_of a (doc_id d) w' = trail_of a (doc_id d) w \<and>
     (\<forall>bucket. dw_objects w' (bucket, key) = dw_objects w (bucket, key))"

lemma keeps_evidence_mapped:
  assumes "sole a d w" and "slots_of a w' = map f (slots_of a w)"
    and "\<And>e. doc_id (f e) = doc_id e \<and> slot_key (f e) = slot_key e" and "f d = d"
    and "trail_of a (doc_id d) w' = trail_of a (doc_id d) w" and "\<forall>bucket. dw_objects w' (bucket, key) = dw_objects w (bucket, key)"
  shows "keeps_evidence a key d w w'"
  using assms by (simp add: keeps_evidence_def sole_def filter_map o_def)

lemma keeps_evidence_same:
  "sole a d w \<Longrightarrow> slots_of a w' = slots_of a w \<Longrightarrow> dw_revisions w' = dw_revisions w \<Longrightarrow> dw_objects w' = dw_objects w \<Longrightarrow>
    keeps_evidence a key d w w'"
  by (simp add: keeps_evidence_def sole_def trail_of_def)

lemma keeps_evidence_appended:
  assumes "sole a d w" and "slots_of a w' = slots_of a w @ [e]" and "slot_key e \<noteq> slot_key d" and "\<forall>x \<in> set (slots_of a w). doc_id x \<noteq> doc_id e"
    and "trail_of a (doc_id d) w' = trail_of a (doc_id d) w" and "\<forall>bucket. dw_objects w' (bucket, key) = dw_objects w (bucket, key)"
  shows "keeps_evidence a key d w w'"
  using assms by (auto simp: keeps_evidence_def sole_def)

text \<open>A row written to another slot, or the object of another key, leaves the evidence alone.\<close>

definition target_slot :: "verdict_input \<Rightarrow> agency \<times> uuid \<times> string option" where
  "target_slot inp = (vi_agency inp, vi_applicationId inp, Some (vi_objectKey inp))"

definition spares_object :: "(objects \<Rightarrow> objects option) \<Rightarrow> string \<Rightarrow> bool" where
  "spares_object wr key \<longleftrightarrow> (\<forall>objs objs' bucket. wr objs = Some objs' \<longrightarrow> objs' (bucket, key) = objs (bucket, key))"

lemma spares_simps [simp]: "spares_object Some key" "k \<noteq> key \<Longrightarrow> spares_object (putObject env nonce bucket k bytes) key"
  by (auto simp: spares_object_def putObject_def Let_def split: if_splits)

lemma object_write_keeps:
  "sole a d w \<Longrightarrow> spares_object wr key \<Longrightarrow> wr (dw_objects w) = Some objs \<Longrightarrow> keeps_evidence a key d w (w\<lparr>dw_objects := objs\<rparr>)"
  by (simp add: keeps_evidence_def sole_def spares_object_def)

lemma keeps_evidence_trans: "keeps_evidence a key d w w1 \<Longrightarrow> keeps_evidence a key d w1 w2 \<Longrightarrow> keeps_evidence a key d w w2"
  by (simp add: keeps_evidence_def)

lemma write_elsewhere_keeps:
  assumes "sole a d w" and "e \<in> set (slots_of (vi_agency inp) w)" and "a = vi_agency inp \<Longrightarrow> e \<noteq> d"
    and "write_slot (doc_id e) v inp w = Some w'"
  shows "keeps_evidence a key d w w'"
proof (rule keeps_evidence_mapped [OF assms(1)])
  note rows = write_slot_rows [OF assms(4)]
  have other: "a = vi_agency inp \<Longrightarrow> doc_id e \<noteq> doc_id d" using sole_parts(3) [OF assms(1), of e] assms(2,3) by blast
  show "slots_of a w' = map (\<lambda>x. if a = vi_agency inp \<and> doc_id x = doc_id e then judged (db_now (dw_db w)) v inp x else x) (slots_of a w)"
    by (simp add: rows(1))
  show "(if a = vi_agency inp \<and> doc_id d = doc_id e then judged (db_now (dw_db w)) v inp d else d) = d" using other by auto
  show "trail_of a (doc_id d) w' = trail_of a (doc_id d) w" using other by (auto simp: trail_of_def rows(2) revision_of_def)
qed (simp_all add: write_slot_rows(3) [OF assms(4)])

lemma create_elsewhere_keeps:
  assumes "sole a d w" and "target_slot inp \<noteq> (a, slot_key d)" and "create_slot n inp w = Some w'"
  shows "keeps_evidence a key d w w'"
proof -
  note rows = create_slot_rows [OF assms(3)]
  have objects: "\<forall>bucket. dw_objects w' (bucket, key) = dw_objects w (bucket, key)" by (simp add: rows(3))
  show ?thesis
  proof (cases "a = vi_agency inp")
    case True
    have "doc_id d \<noteq> n" using rows(4) sole_parts(1) [OF assms(1)] True by blast
    then have "trail_of a (doc_id d) w' = trail_of a (doc_id d) w" by (simp add: trail_of_def rows(2) revision_of_def)
    then show ?thesis
      using keeps_evidence_appended [OF assms(1), of w' "judged (db_now (dw_db w)) 1 inp (blank_document n inp)"] objects rows(1,4) assms(2) True
      by (simp add: target_slot_def)
  next
    case False
    then show ?thesis using assms(1) objects rows(1,2) by (simp add: keeps_evidence_def sole_def trail_of_def)
  qed
qed

lemma record_keeps_evidence:
  assumes only: "sole a d w" and d: "stamped d" "doc_object_key d = Some key"
    and wr: "target_slot inp = (a, slot_key d) \<or> spares_object wr key"
    and run: "recordVerdict commits newId wr inp w = (w', ans)"
  shows "keeps_evidence a key d w w'"
  using run
proof (cases rule: recordVerdict_cases)
  case same
  then show ?thesis using only by (simp add: keeps_evidence_same)
next
  let ?found = "find_slot (vi_agency inp) (vi_applicationId inp) (vi_objectKey inp) w"
  have elsewhere: "target_slot inp \<noteq> (a, slot_key d)" "spares_object wr key" if "\<And>e. ?found = Some e \<Longrightarrow> human_reviewed_at e = None"
    using that sole_found [OF only d(2)] d wr by (auto simp: stamped_def target_slot_def slot_key_def)
  {
    case (object objs)
    then show ?thesis using object_write_keeps [OF only elsewhere(2)] by simp
  next
    case (superseded objs e)
    have there: "target_slot inp \<noteq> (a, slot_key d)" "spares_object wr key" using elsewhere superseded(2,3) by simp_all
    have kept: "keeps_evidence a key d w (w\<lparr>dw_objects := objs\<rparr>)" by (rule object_write_keeps [OF only there(2) superseded(1)])
    have "e \<in> set (slots_of (vi_agency inp) w)" "e \<noteq> d" using find_slot_SomeD [OF superseded(2)] superseded(3) d(1) by (auto simp: stamped_def)
    then have "keeps_evidence a key d (w\<lparr>dw_objects := objs\<rparr>) w'"
      using write_elsewhere_keeps [of a d "w\<lparr>dw_objects := objs\<rparr>" e inp] superseded(4) kept by (simp add: keeps_evidence_def)
    with kept show ?thesis by (rule keeps_evidence_trans)
  next
    case (created objs)
    have there: "target_slot inp \<noteq> (a, slot_key d)" "spares_object wr key" using elsewhere created(2) by simp_all
    have kept: "keeps_evidence a key d w (w\<lparr>dw_objects := objs\<rparr>)" by (rule object_write_keeps [OF only there(2) created(1)])
    then have "keeps_evidence a key d (w\<lparr>dw_objects := objs\<rparr>) w'"
      using create_elsewhere_keeps [OF _ there(1) created(3)] by (simp add: keeps_evidence_def)
    with kept show ?thesis by (rule keeps_evidence_trans)
  }
qed

text \<open>
  What happens to documents: uploads and analyses, whatever the scanner, the object store and the commit answer;
  sightings at the venue; adjudications; and every other transaction, none of which writes \<open>document_records\<close>. The
  controller accepts only UUIDs.
\<close>

inductive document_step :: "'ev document_world \<Rightarrow> 'ev document_world \<Rightarrow> bool" where
  Upload: "CHR ''/'' \<notin> set (up_applicationId cmd) \<Longrightarrow> document_step w (fst (upload env bus dd cmd db w))"
| Analyze: "document_step w (fst (analyze env bus dd cmd w))"
| Sighting: "recordVenueVerification sighted newId a i t w = Some w' \<Longrightarrow> document_step w w'"
| Adjudicate: "document_step w (w\<lparr>dw_db := fst (adjudicate opts inp (dw_db w))\<rparr>)"
| Elsewhere: "\<forall>a. document_records (schema_of db' a) = document_records (schema_of (dw_db w) a) \<Longrightarrow>
    document_step w (w\<lparr>dw_db := db'\<rparr>)"

lemma slots_of_db [simp]: "slots_of a (w\<lparr>dw_db := db\<rparr>) = document_records (schema_of db a)"
  by (simp add: slots_of_def)

lemma sighting_ok:
  assumes ok: "slots_ok w" and rows: "slots_of b w' = slots_of b w @ [sighting_row n i t]" "\<And>a. a \<noteq> b \<Longrightarrow> slots_of a w' = slots_of a w"
      "\<forall>d \<in> set (slots_of b w). doc_id d \<noteq> n" "dw_revisions w' = dw_revisions w"
  shows "slots_ok w'"
proof (rule slots_okI)
  fix a
  note old = slots_ok_parts [OF ok]
  show "distinct (map doc_id (slots_of a w'))" using old(1) [of a] rows(1-3) by (cases "a = b") auto
  show "distinct (map slot_key (filter keyed (slots_of a w')))" using old(2) [of a] rows(1,2) by (cases "a = b") auto
  show "rv_document_id r \<in> doc_id ` set (slots_of a w')" if "r \<in> set (dw_revisions w' a)" for r
    using old(3) [of r a] that rows(1,2,4) by (cases "a = b") auto
  show "tracked (trail_of a (doc_id d) w') d" if "d \<in> set (slots_of a w')" "keyed d" for d
    using old(4) [of d a] that rows(1,2,4) by (cases "a = b") (auto simp: trail_of_def)
qed

lemma document_step_ok: "document_step w w' \<Longrightarrow> slots_ok w \<Longrightarrow> slots_ok w'"
proof (induction rule: document_step.induct)
  case (Upload cmd w env bus dd db)
  then show ?case
    by (cases rule: upload_cases [of env bus dd cmd db w]) (simp_all add: store_upload_world recordVerdict_ok)
next
  case (Analyze w env bus dd cmd)
  then show ?case using analyze_world [of env bus dd cmd w] by (auto simp: recordVerdict_ok)
next
  case (Sighting sighted newId b i t w w')
  from Sighting(1) show ?case
  proof (cases rule: sighting_rows)
    case 1
    then show ?thesis using Sighting(2) by simp
  next
    case 2
    then show ?thesis by (intro sighting_ok [OF Sighting(2)])
  qed
next
  case (Adjudicate w opts inp)
  show ?case
  proof (rule slots_ok_map [OF Adjudicate])
    show "\<exists>f. slots_of a (w\<lparr>dw_db := fst (adjudicate opts inp (dw_db w))\<rparr>) = map f (slots_of a w) \<and> (\<forall>d. stamps d (f d))" for a
      unfolding slots_of_db unfolding slots_of_def using adjudicate_documents [of "dw_db w" opts inp] unfolding stamped_by_def by (rule spec)
  qed simp
next
  case (Elsewhere db' w)
  show ?case by (rule slots_ok_same [OF Elsewhere(2)]) (use Elsewhere(1) in \<open>simp_all add: slots_of_def\<close>)
qed

lemma upload_target:
  assumes "accepts_upload env cmd b status k verdict db" and "CHR ''/'' \<notin> set (up_applicationId cmd)"
    and "deriveObjectKey a (doc_application_id d) t = Some key" and "doc_object_key d = Some key"
    and "CHR ''/'' \<notin> set (doc_application_id d)"
  shows "target_slot (verdict_input_of env cmd b k verdict) = (a, slot_key d) \<or>
    spares_object (putObject env nonce bucket k bytes) key"
proof (cases "k = key")
  case True
  then show ?thesis
    using derived_key_inj [OF assms(3), of b "up_applicationId cmd" "up_documentType cmd"] assms(1,2,4,5)
    by (simp add: accepts_upload_def target_slot_def verdict_input_of_def slot_key_def)
qed simp

lemma begun_elsewhere:
  assumes "read_slot inp w = Some (Slot_CREATE, None)" and "sole a d w"
  shows "target_slot inp \<noteq> (a, slot_key d)"
proof -
  have "find_slot (vi_agency inp) (vi_applicationId inp) (vi_objectKey inp) w = None"
    using assms(1) by (auto simp: read_slot_def Let_def split: option.splits)
  from find_slot_None [OF this, of d] show ?thesis using sole_parts(1) [OF assms(2)] by (auto simp: target_slot_def)
qed

lemma document_step_evidence:
  assumes "document_step w w'" and "sole a d w" and "stamped d"
    and "deriveObjectKey a (doc_application_id d) t = Some key" and "doc_object_key d = Some key"
    and "CHR ''/'' \<notin> set (doc_application_id d)"
  shows "keeps_evidence a key d w w'"
  using assms
proof (induction rule: document_step.induct)
  case (Upload cmd w env bus dd db)
  show ?case
  proof (cases rule: upload_cases [of env bus dd cmd db w])
    case aside
    then show ?thesis using Upload by (simp add: keeps_evidence_same)
  next
    case (stored b status k verdict)
    have spared: "target_slot (verdict_input_of env cmd b k verdict) = (a, slot_key d) \<or>
        spares_object (putObject env (dd_nonce dd) (de_bucket env) k (up_bytes cmd)) key"
      by (rule upload_target [OF stored(1) Upload(1,4,5,6)])
    then have "keeps_evidence a key d w (fst (recordVerdict (de_commits env) (dd_recordId dd)
        (putObject env (dd_nonce dd) (de_bucket env) k (up_bytes cmd)) (verdict_input_of env cmd b k verdict) w))"
      by (rule record_keeps_evidence [OF Upload(2,3,5) _ prod.collapse [symmetric]])
    then show ?thesis using stored(2) by (simp add: store_upload_world)
  qed
next
  case (Analyze w env bus dd cmd)
  have kept: "keeps_evidence a key d w (fst (recordVerdict commits newId Some inp w))" for commits newId inp
    by (rule record_keeps_evidence [OF Analyze(1,2,4) _ prod.collapse [symmetric]]) simp
  show ?case using analyze_world [of env bus dd cmd w] kept Analyze(1) by (auto simp: keeps_evidence_same)
next
  case (Sighting sighted newId b i u w w')
  from Sighting(1) show ?case
  proof (cases rule: sighting_rows)
    case 1
    then show ?thesis using Sighting(2) by (simp add: keeps_evidence_same)
  next
    case 2
    show ?thesis
    proof (cases "a = b")
      case True
      show ?thesis
        by (rule keeps_evidence_appended [OF Sighting(2), of _ "sighting_row newId i u"])
          (use 2 True Sighting(5) in \<open>simp_all add: slot_key_def trail_of_def\<close>)
    next
      case False
      then show ?thesis using 2 Sighting(2) by (simp add: keeps_evidence_same)
    qed
  qed
next
  case (Adjudicate w opts inp)
  obtain f where f: "document_records (schema_of (fst (adjudicate opts inp (dw_db w))) a) = map f (slots_of a w)" "\<And>e. stamps e (f e)"
    using adjudicate_documents [of "dw_db w" opts inp] by (auto simp: stamped_by_def slots_of_def)
  have "f d = d" using f(2) [of d] Adjudicate(2) by (auto simp: stamps_def stamped_def)
  then show ?case using stamps_fields [OF f(2)] f(1)
    by (intro keeps_evidence_mapped [OF Adjudicate(1), where f = f]) simp_all
next
  case (Elsewhere db' w)
  show ?case by (rule keeps_evidence_same [OF Elsewhere(2)]) (use Elsewhere(1) in \<open>simp_all add: slots_of_def\<close>)
qed

subsection \<open>First uploads in flight\<close>

text \<open>
  A first upload that has read no row holds no lock: until it writes, other calls run. What it is about to write is
  the verdict it composed, and the object when it is an upload; an analysis writes none.
\<close>

datatype in_flight =
    Uploading document_env document_draws upload_command agency string forensics_verdict
  | Analysing document_env document_draws analyze_command buffer forensics_verdict

primrec flight_input :: "in_flight \<Rightarrow> verdict_input" where
  "flight_input (Uploading env dd cmd a key verdict) = verdict_input_of env cmd a key verdict"
| "flight_input (Analysing env dd cmd bytes verdict) = analysis_input env cmd bytes verdict"

primrec finish_flight :: "in_flight \<Rightarrow> 'ev document_world \<Rightarrow> 'ev document_world \<times> verdict_outcome option" where
  "finish_flight (Uploading env dd cmd a key verdict) w =
     execute_decision (de_commits env) (dd_recordId dd) (putObject env (dd_nonce dd) (de_bucket env) key (up_bytes cmd))
       (verdict_input_of env cmd a key verdict) (Slot_CREATE, None) w"
| "finish_flight (Analysing env dd cmd bytes verdict) w =
     execute_decision (de_commits env) (dd_recordId dd) Some (analysis_input env cmd bytes verdict) (Slot_CREATE, None) w"

text \<open>Calls, and between them the halves of first uploads: a half that began found no row for its slot.\<close>

inductive document_run :: "in_flight list \<times> 'ev document_world \<Rightarrow> in_flight list \<times> 'ev document_world \<Rightarrow> bool" where
  Call: "document_step w w' \<Longrightarrow> document_run (fs, w) (fs, w')"
| Begin_upload: "accepts_upload env cmd a status key verdict (db :: 'ev database) \<Longrightarrow> CHR ''/'' \<notin> set (up_applicationId cmd) \<Longrightarrow>
    read_slot (verdict_input_of env cmd a key verdict) w = Some (Slot_CREATE, None) \<Longrightarrow>
    document_run (fs, w) (Uploading env dd cmd a key verdict # fs, w)"
| Begin_analysis: "analyze_bytes (de_clamd env) bytes = Analyzed verdict \<Longrightarrow>
    read_slot (analysis_input env cmd bytes verdict) w = Some (Slot_CREATE, None) \<Longrightarrow>
    document_run (fs, w) (Analysing env dd cmd bytes verdict # fs, w)"
| Finish: "f \<in> set fs \<Longrightarrow> document_run (fs, w) (remove1 f fs, fst (finish_flight f w))"

text \<open>Every upload in flight writes under the key of its own application.\<close>

primrec own_key :: "in_flight \<Rightarrow> bool" where
  "own_key (Uploading env dd cmd a key verdict) \<longleftrightarrow>
     deriveObjectKey a (up_applicationId cmd) (up_documentType cmd) = Some key \<and> CHR ''/'' \<notin> set (up_applicationId cmd)"
| "own_key (Analysing env dd cmd bytes verdict) \<longleftrightarrow> True"

definition run_ok :: "in_flight list \<times> 'ev document_world \<Rightarrow> bool" where
  "run_ok s \<longleftrightarrow> (\<forall>f \<in> set (fst s). own_key f) \<and> (\<forall>a. distinct (map doc_id (slots_of a (snd s))))"

definition no_flight_to :: "agency \<times> uuid \<times> string option \<Rightarrow> in_flight list \<Rightarrow> bool" where
  "no_flight_to slot fs \<longleftrightarrow> (\<forall>f \<in> set fs. target_slot (flight_input f) \<noteq> slot)"

lemma record_ids:
  assumes "distinct (map doc_id (slots_of a w))" and "recordVerdict commits newId wr inp w = (w', ans)"
  shows "distinct (map doc_id (slots_of a w'))"
  using assms(2)
proof (cases rule: recordVerdict_cases)
  case (superseded objs d)
  have "map doc_id (slots_of a w') = map doc_id (slots_of a w)" using write_slot_rows(1) [OF superseded(4), of a] by simp
  then show ?thesis using assms(1) by simp
next
  case (created objs)
  then show ?thesis using assms(1) create_slot_rows(1,4) [OF created(3)] by (auto simp: slots_of_simps)
qed (use assms(1) in simp_all)

lemma document_step_ids:
  assumes "document_step w w'" and "distinct (map doc_id (slots_of a w))"
  shows "distinct (map doc_id (slots_of a w'))"
  using assms
proof (induction rule: document_step.induct)
  case (Upload cmd w env bus dd db)
  then show ?case
    by (cases rule: upload_cases [of env bus dd cmd db w]) (auto simp: store_upload_world intro: record_ids [OF _ prod.collapse [symmetric]])
next
  case (Analyze w env bus dd cmd)
  then show ?case using analyze_world [of env bus dd cmd w] by (auto intro: record_ids [OF _ prod.collapse [symmetric]])
next
  case (Sighting sighted newId b i t w w')
  from Sighting(1) show ?case by (cases rule: sighting_rows; cases "a = b") (use Sighting(2) in auto)
next
  case (Adjudicate w opts inp)
  obtain f where f: "document_records (schema_of (fst (adjudicate opts inp (dw_db w))) a) = map f (slots_of a w)" "\<And>e. stamps e (f e)"
    using adjudicate_documents [of "dw_db w" opts inp] by (auto simp: stamped_by_def slots_of_def)
  then show ?case using Adjudicate stamps_fields [OF f(2)] by (simp add: o_def)
next
  case (Elsewhere db' w)
  then show ?case by (simp add: slots_of_def)
qed

lemma finish_flight_commit:
  obtains commits n wr where
    "fst (finish_flight f w) = fst (commit_rows commits (create_slot n (flight_input f)) (Verdict_RECORDED n 1 False) (wr (dw_objects w)) w)"
    "wr = Some \<or> (\<exists>env dd cmd a key v. f = Uploading env dd cmd a key v \<and> wr = putObject env (dd_nonce dd) (de_bucket env) key (up_bytes cmd))"
proof (cases f)
  case (Uploading env dd cmd a key v)
  show thesis
    by (rule that [of "de_commits env" "dd_recordId dd" "putObject env (dd_nonce dd) (de_bucket env) key (up_bytes cmd)"])
      (auto simp: Uploading execute_decision_def Let_def)
next
  case (Analysing env dd cmd bytes v)
  show thesis by (rule that [of "de_commits env" "dd_recordId dd" Some]) (simp_all add: Analysing execute_decision_def Let_def)
qed

lemma finish_cases:
  obtains (kept) "slots_of a (fst (finish_flight f w)) = slots_of a w" | (created) n objs where
    "create_slot n (flight_input f) (w\<lparr>dw_objects := objs\<rparr>) = Some (fst (finish_flight f w))"
proof -
  obtain commits n wr where run: "fst (finish_flight f w) =
      fst (commit_rows commits (create_slot n (flight_input f)) (Verdict_RECORDED n 1 False) (wr (dw_objects w)) w)"
    by (rule finish_flight_commit)
  show thesis
  proof (cases "wr (dw_objects w)")
    case None
    then show thesis using run kept by (simp add: commit_rows_def)
  next
    case (Some objs)
    then show thesis using run kept created [of n objs]
      by (cases "create_slot n (flight_input f) (w\<lparr>dw_objects := objs\<rparr>)") (auto simp: commit_rows_def split: if_splits)
  qed
qed

lemma document_run_ok: "document_run s s' \<Longrightarrow> run_ok s \<Longrightarrow> run_ok s'"
proof (induction rule: document_run.induct)
  case (Finish f fs w)
  have "distinct (map doc_id (slots_of a (fst (finish_flight f w))))" for a
  proof (cases rule: finish_cases [of a f w])
    case kept
    then show ?thesis using Finish(2) by (simp add: run_ok_def)
  next
    case (created n objs)
    have "distinct (map doc_id (slots_of a w))" using Finish(2) by (simp add: run_ok_def)
    then show ?thesis using create_slot_rows(1,4) [OF created] by auto
  qed
  moreover have "\<forall>g \<in> set (remove1 f fs). own_key g" using Finish(2) set_remove1_subset [of f fs] by (auto simp: run_ok_def)
  ultimately show ?case by (simp add: run_ok_def)
qed (auto simp: run_ok_def accepts_upload_def dest: document_step_ids)

lemma finish_keeps_evidence:
  assumes "sole a d w" and "own_key f" and "target_slot (flight_input f) \<noteq> (a, slot_key d)"
    and "deriveObjectKey a (doc_application_id d) t = Some key" and "doc_object_key d = Some key"
    and "CHR ''/'' \<notin> set (doc_application_id d)"
  shows "keeps_evidence a key d w (fst (finish_flight f w))"
proof -
  have commit: "keeps_evidence a key d w (fst (commit_rows commits (create_slot n (flight_input f)) answer (wr (dw_objects w)) w))"
    if wr: "spares_object wr key" for commits n answer wr
  proof (cases "wr (dw_objects w)")
    case None
    then show ?thesis using assms(1) by (simp add: commit_rows_def keeps_evidence_same)
  next
    case (Some objs)
    note kept = object_write_keeps [OF assms(1) wr Some]
    then have only: "sole a d (w\<lparr>dw_objects := objs\<rparr>)" by (simp add: keeps_evidence_def)
    show ?thesis
      using Some kept keeps_evidence_trans [OF kept create_elsewhere_keeps [OF only assms(3)]]
      by (cases "create_slot n (flight_input f) (w\<lparr>dw_objects := objs\<rparr>)") (simp_all add: commit_rows_def)
  qed
  obtain commits n wr where run: "fst (finish_flight f w) =
      fst (commit_rows commits (create_slot n (flight_input f)) (Verdict_RECORDED n 1 False) (wr (dw_objects w)) w)"
      and wr: "wr = Some \<or>
        (\<exists>env dd cmd a key v. f = Uploading env dd cmd a key v \<and> wr = putObject env (dd_nonce dd) (de_bucket env) key (up_bytes cmd))"
    by (rule finish_flight_commit)
  from wr have "spares_object wr key"
  proof
    assume "\<exists>env dd cmd a key v. f = Uploading env dd cmd a key v \<and> wr = putObject env (dd_nonce dd) (de_bucket env) key (up_bytes cmd)"
    then obtain env dd cmd b k v where up: "f = Uploading env dd cmd b k v" "wr = putObject env (dd_nonce dd) (de_bucket env) k (up_bytes cmd)"
      by blast
    have "k \<noteq> key"
      using derived_key_inj [OF assms(4), of b "up_applicationId cmd" "up_documentType cmd"] assms(2,3,5,6)
      by (auto simp: up(1) target_slot_def verdict_input_of_def slot_key_def)
    then show ?thesis by (simp add: up(2))
  qed simp
  then show ?thesis unfolding run by (rule commit)
qed

lemma document_run_evidence:
  assumes "document_run s s'" and "run_ok s" and "no_flight_to (a, slot_key d) (fst s)" and "sole a d (snd s)" and "stamped d"
    and "deriveObjectKey a (doc_application_id d) t = Some key" and "doc_object_key d = Some key"
    and "CHR ''/'' \<notin> set (doc_application_id d)"
  shows "no_flight_to (a, slot_key d) (fst s') \<and> keeps_evidence a key d (snd s) (snd s')"
  using assms
proof (induction rule: document_run.induct)
  case (Call w w' fs)
  then show ?case using document_step_evidence [OF Call(1)] by simp
next
  case (Begin_upload env cmd b status k verdict db w fs dd)
  then show ?case using begun_elsewhere [OF Begin_upload(3)] by (simp add: no_flight_to_def keeps_evidence_same)
next
  case (Begin_analysis env bytes verdict cmd w fs dd)
  then show ?case using begun_elsewhere [OF Begin_analysis(2)] by (simp add: no_flight_to_def keeps_evidence_same)
next
  case (Finish f fs w)
  have "no_flight_to (a, slot_key d) (remove1 f fs)"
    using Finish(3) set_remove1_subset [of f fs] by (auto simp: no_flight_to_def)
  moreover have "keeps_evidence a key d w (fst (finish_flight f w))"
    using Finish(1-4) finish_keeps_evidence [of a d w f t key] Finish(6-8) by (simp add: run_ok_def no_flight_to_def)
  ultimately show ?case by simp
qed

text \<open>
  C36: Once an officer's decision is on the one row of a slot, whose key is that of its own
  application, and no first upload that found the slot empty is still in flight, nothing the
  services do afterwards changes the row, adds a revision to its trail or replaces the object at
  rest: whatever is uploaded, analysed, sighted or adjudicated, whatever fails on the way, and
  however the two halves of other first uploads interleave with it.
\<close>

theorem reviewed_document_is_evidence:
  assumes "\<forall>b. distinct (map doc_id (slots_of b w0))" and "document_run\<^sup>*\<^sup>* ([], w0) (fs, w)"
    and "d \<in> set (slots_of a w)" and "stamped d" and "\<forall>e \<in> set (slots_of a w). slot_key e = slot_key d \<longrightarrow> e = d"
    and "deriveObjectKey a (doc_application_id d) t = Some key" and "doc_object_key d = Some key"
    and "CHR ''/'' \<notin> set (doc_application_id d)" and "no_flight_to (a, slot_key d) fs"
    and "document_run\<^sup>*\<^sup>* (fs, w) (fs', w')"
  shows "d \<in> set (slots_of a w') \<and> trail_of a (doc_id d) w' = trail_of a (doc_id d) w \<and>
    (\<forall>bucket. dw_objects w' (bucket, key) = dw_objects w (bucket, key))"
proof -
  have "run_ok ([], w0)" using assms(1) by (simp add: run_ok_def)
  with assms(2) have ok: "run_ok (fs, w)" by (induction rule: rtranclp_induct) (auto dest: document_run_ok)
  have only: "sole a d w" using ok assms(3,5) by (intro soleI) (simp_all add: run_ok_def)
  have "run_ok s \<and> no_flight_to (a, slot_key d) (fst s) \<and> keeps_evidence a key d w (snd s)"
    if "document_run\<^sup>*\<^sup>* (fs, w) s" for s
    using that
  proof (induction rule: rtranclp_induct)
    case base
    then show ?case using ok only assms(9) by (simp add: keeps_evidence_same)
  next
    case (step s1 s2)
    then have "no_flight_to (a, slot_key d) (fst s2) \<and> keeps_evidence a key d (snd s1) (snd s2)"
      using document_run_evidence [OF step(2) _ _ _ assms(4,6-8)] by (simp add: keeps_evidence_def)
    then show ?case using step document_run_ok keeps_evidence_trans by blast
  qed
  from this [OF assms(10)] show ?thesis using sole_parts(1) by (auto simp: keeps_evidence_def)
qed

text \<open>
  C37: From an empty document store on, whatever is uploaded, analysed and adjudicated one call
  after another, every slot has one row, and its trail lists the revisions one by one up to the
  row's, the last with the row's digest, lane and score.
\<close>

theorem revision_trail_is_complete:
  assumes "document_step\<^sup>*\<^sup>* w w'" and "\<forall>a. slots_of a w = [] \<and> dw_revisions w a = []"
    and "d \<in> set (slots_of a w')" and "doc_object_key d = Some key"
  shows "find_slot a (doc_application_id d) key w' = Some d \<and>
    map rv_revision (trail_of a (doc_id d) w') = [1..doc_revision d] \<and>
    doc_content_hmac d = Some (rv_content_hmac (last (trail_of a (doc_id d) w'))) \<and>
    doc_lane d = Some (rv_lane (last (trail_of a (doc_id d) w'))) \<and>
    doc_score d = Some (rv_score (last (trail_of a (doc_id d) w')))"
proof -
  have "slots_ok w" using assms(2) by (intro slots_okI) simp_all
  with assms(1) have ok: "slots_ok w'" by (induction rule: rtranclp_induct) (auto dest: document_step_ok)
  from slots_ok_parts(4) [OF ok assms(3)] assms(4) find_slot_unique [OF ok assms(3,4)] show ?thesis
    by (simp add: tracked_def keyed_def)
qed


subsection \<open>What is at rest\<close>

text \<open>An environment in which what is written can be read: one key for both directions, a store that answers.\<close>

definition readable :: "document_env \<Rightarrow> bool" where
  "readable env \<longleftrightarrow> faithful_aead (de_aead env) \<and> de_readKey env = Some (de_writeKey env) \<and> de_getStatus env = 200"

lemma put_get:
  assumes "readable env" and "length nonce = NONCE_BYTES" and "putObject env nonce bucket key bytes objs = Some objs'"
  shows "getObject env bucket key objs' = Inr (Some bytes)"
proof -
  have "objs' (bucket, key) = Some (sealDocument (de_aead env) nonce (de_writeKey env) (envelopeAad bucket key) bytes)"
    using assms(3) by (auto simp: putObject_def Let_def split: if_splits)
  with assms(1,2) show ?thesis by (simp add: getObject_def s3_get_def readable_def sealed_opens)
qed

lemma store_upload_recorded:
  assumes "store_upload env bus dd cmd a key verdict w = (w', sent, Inr (UPLOADED n b k r s v))"
  shows "recordVerdict (de_commits env) (dd_recordId dd) (putObject env (dd_nonce dd) (de_bucket env) key (up_bytes cmd))
      (verdict_input_of env cmd a key verdict) w = (w', Some (Verdict_RECORDED n r s))" and "b = a" and "k = key"
proof -
  obtain w1 ans where run: "recordVerdict (de_commits env) (dd_recordId dd) (putObject env (dd_nonce dd) (de_bucket env) key (up_bytes cmd))
      (verdict_input_of env cmd a key verdict) w = (w1, ans)" by fastforce
  have "w1 = w' \<and> ans = Some (Verdict_RECORDED n r s) \<and> b = a \<and> k = key"
    using assms run
    by (cases ans) (auto simp: store_upload_def publish_then_def Let_def split: verdict_outcome.splits prod.splits if_splits)
  with run show "recordVerdict (de_commits env) (dd_recordId dd) (putObject env (dd_nonce dd) (de_bucket env) key (up_bytes cmd))
      (verdict_input_of env cmd a key verdict) w = (w', Some (Verdict_RECORDED n r s))" and "b = a" and "k = key" by simp_all
qed

text \<open>
  C38: Where the cipher opens what it sealed, under one key, and the object store answers: what
  was answered UPLOADED is on the announced row, with the digest of the uploaded bytes and the
  announced revision, and under the announced key the store returns exactly those bytes. The one
  exception is a retry: when the row already carried the digest of these bytes, nothing is
  written, and the object stays whatever it was.
\<close>

theorem uploaded_document_reads_back:
  assumes "upload env bus dd cmd db w = (w', sent, Inr (UPLOADED n a key r s v))"
    and "readable env" and "length (dd_nonce dd) = NONCE_BYTES"
  shows "(\<exists>d \<in> set (slots_of a w'). doc_id d = n \<and> slot_key d = (up_applicationId cmd, Some key) \<and> doc_revision d = r \<and>
      doc_content_hmac d = Some (de_hmac env (up_bytes cmd))) \<and>
    (let slot = find_slot a (up_applicationId cmd) key w in
     if Option.bind slot doc_content_hmac = Some (de_hmac env (up_bytes cmd)) then w' = w \<and> \<not> s
     else getObject env (de_bucket env) key (dw_objects w') = Inr (Some (up_bytes cmd)) \<and> s = (slot \<noteq> None))"
proof (cases rule: upload_cases [of env bus dd cmd db w])
  case aside
  from aside(2) [of n a key r s v] show ?thesis using assms(1) by simp
next
  case (stored b status k verdict)
  note recorded = store_upload_recorded [OF trans [OF stored(2) [symmetric] assms(1)]]
  let ?inp = "verdict_input_of env cmd b k verdict"
  have fields: "vi_agency ?inp = a" "vi_objectKey ?inp = key" "vi_contentHmac ?inp = de_hmac env (up_bytes cmd)"
      "vi_applicationId ?inp = up_applicationId cmd"
    using recorded(2,3) by (simp_all add: verdict_input_of_def)
  note put = put_get [OF assms(2,3)]
  show ?thesis
    using recorded(1)
  proof (cases rule: recordVerdict_cases)
    case same
    then obtain d where "\<not> s" "find_slot a (up_applicationId cmd) key w = Some d" "doc_id d = n" "doc_revision d = r"
        "doc_content_hmac d = Some (de_hmac env (up_bytes cmd))"
      using fields by auto
    then show ?thesis using same(1) find_slot_SomeD [of a "up_applicationId cmd" key w d] by (auto simp: Let_def slot_key_def)
  next
    case (object objs)
    then show ?thesis by simp
  next
    case (superseded objs d)
    note rows = write_slot_rows [OF superseded(4)]
    have d: "d \<in> set (slots_of a w)" "slot_key d = (up_applicationId cmd, Some key)"
      using find_slot_SomeD [OF superseded(2)] fields by (simp_all add: slot_key_def)
    then have "judged (db_now (dw_db w)) (doc_revision d + 1) ?inp d \<in> set (slots_of a w')"
      by (simp add: rows(1) fields)
    then show ?thesis using put [OF superseded(1)] recorded(3) rows(3) superseded(2,5,6) fields d(2)
      by (intro conjI bexI [of _ "judged (db_now (dw_db w)) (doc_revision d + 1) ?inp d"]) (simp_all add: Let_def)
  next
    case (created objs)
    note rows = create_slot_rows [OF created(3)]
    have "judged (db_now (dw_db w)) 1 ?inp (blank_document n ?inp) \<in> set (slots_of a w')"
      using created(4) by (simp add: rows(1) fields)
    then show ?thesis using put [OF created(1)] recorded(3) rows(3) fields created(2,4)
      by (intro conjI bexI [of _ "judged (db_now (dw_db w)) 1 ?inp (blank_document n ?inp)"]) (simp_all add: Let_def)
  qed
qed

text \<open>A sealed object that was copied to another path does not open there.\<close>

lemma copied_object_does_not_open:
  assumes "readable env" and "length nonce = NONCE_BYTES" and "putObject env nonce bucket key bytes objs = Some objs'"
    and "CHR ''/'' \<notin> set bucket" and "CHR ''/'' \<notin> set bucket'" and "(bucket', key') \<noteq> (bucket, key)"
  shows "getObject env bucket' key' (objs'((bucket', key') := objs' (bucket, key))) = Inl (Envelope_failed Not_authentic)"
proof -
  have "objs' (bucket, key) = Some (sealDocument (de_aead env) nonce (de_writeKey env) (envelopeAad bucket key) bytes)"
    using assms(3) by (auto simp: putObject_def Let_def split: if_splits)
  moreover have "envelopeAad bucket' key' \<noteq> envelopeAad bucket key" using envelopeAad_inj assms(4-6) by blast
  ultimately show ?thesis using assms(1,2) by (simp add: getObject_def s3_get_def readable_def sealed_opens)
qed

subsection \<open>No lane without a scan\<close>

lemma scanned_clean:
  assumes "analyze_bytes clamd bytes = Analyzed verdict" and "ff_virusScanClean (fv_flags verdict)"
  shows "\<exists>reply. clamd bytes = Inr reply \<and> js_trim (filter (\<lambda>c. c \<noteq> CHR 0x00) reply) = CLEAN_VERDICT"
    and "fv_lane verdict \<in> {GREEN, AMBER}"
proof -
  obtain scan where scan: "scan_bytes clamd bytes = scan" "verdict = composeVerdict (scan = Scan_CLEAN) (probeBytes bytes)"
    using assms(1) by (auto simp: analyze_bytes_def split: scan_result.splits)
  then have clean: "scan = Scan_CLEAN" using assms(2) by (simp add: compose_bounds(4))
  show "\<exists>reply. clamd bytes = Inr reply \<and> js_trim (filter (\<lambda>c. c \<noteq> CHR 0x00) reply) = CLEAN_VERDICT"
    using scan(1) clean by (auto simp: scan_bytes_def parseReply_def Let_def split: sum.splits if_splits option.splits)
  show "fv_lane verdict \<in> {GREEN, AMBER}" using scan(2) clean by (simp add: compose_lane)
qed

lemma store_upload_event:
  assumes "DOCUMENT_FORENSICS_COMPLETED e \<in> set (fst (snd (store_upload env bus dd cmd a key verdict w)))"
  shows "dc_applicationId e = up_applicationId cmd \<and> dc_agency e = a \<and> dc_lane e = fv_lane verdict"
proof -
  obtain w1 oc where run: "recordVerdict (de_commits env) (dd_recordId dd) (putObject env (dd_nonce dd) (de_bucket env) key (up_bytes cmd))
      (verdict_input_of env cmd a key verdict) w = (w1, oc)" by fastforce
  show ?thesis
  proof (cases oc)
    case None
    then show ?thesis using assms run by (simp add: store_upload_def Let_def)
  next
    case (Some answer)
    show ?thesis
    proof (cases answer)
      case (Verdict_RECORDED n r s)
      then have "DOCUMENT_FORENSICS_COMPLETED e \<in> set
          [completed_event (envelope (dd_events dd) 1 (up_context cmd)) (up_applicationId cmd) a (up_documentType cmd) n verdict,
           upload_audit (envelope (dd_events dd) 2 (up_context cmd)) cmd a ''DOCUMENT_UPLOADED'' (uploaded_metadata cmd n r s verdict)]"
        using assms run Some publish_then_subset by (fastforce simp: store_upload_def Let_def)
      then show ?thesis by (auto simp: completed_event_def upload_audit_def)
    next
      case (RECORD_REVIEW_CLOSED reason)
      then show ?thesis using assms run Some by (simp add: store_upload_def Let_def)
    next
      case RECORD_APPLICATION_NOT_FOUND
      then show ?thesis using assms run Some by (simp add: store_upload_def Let_def)
    qed
  qed
qed

lemma owned_application:
  "findOwnedApplication p i db = Some (a, status) \<Longrightarrow> \<exists>r. app_of db a i = Some r \<and> applicant_id r = p \<and> app_status r = status"
  by (auto simp: findOwnedApplication_def find_Some_iff split: option.splits)

text \<open>
  C39: An upload announces a lane only for bytes the scanner answered with exactly its clean
  verdict, never RED, and only to an application that belongs to the uploading citizen, in the
  agency that holds it.
\<close>

theorem announced_upload_was_scanned:
  assumes "upload env bus dd cmd db w = (w', sent, ans)" and "DOCUMENT_FORENSICS_COMPLETED e \<in> set sent"
  shows "(\<exists>reply. de_clamd env (up_bytes cmd) = Inr reply \<and> js_trim (filter (\<lambda>c. c \<noteq> CHR 0x00) reply) = ''stream: OK'') \<and>
    dc_lane e \<in> {GREEN, AMBER} \<and>
    (\<exists>r. app_of db (dc_agency e) (dc_applicationId e) = Some r \<and> applicant_id r = up_applicantId cmd)"
proof (cases "\<exists>a status key verdict. accepts_upload env cmd a status key verdict db")
  case True
  then obtain a status key verdict where accepted: "accepts_upload env cmd a status key verdict db" by blast
  then have run: "store_upload env bus dd cmd a key verdict w = (w', sent, ans)" using accepted_upload assms(1) by metis
  have "dc_applicationId e = up_applicationId cmd \<and> dc_agency e = a \<and> dc_lane e = fv_lane verdict"
    using store_upload_event [of e env bus dd cmd a key verdict w] assms(2) by (simp add: run)
  moreover have "analyze_bytes (de_clamd env) (up_bytes cmd) = Analyzed verdict" "ff_virusScanClean (fv_flags verdict)"
    using accepted by (simp_all add: accepts_upload_def)
  note scan = scanned_clean [OF this]
  moreover have "findOwnedApplication (up_applicantId cmd) (up_applicationId cmd) db = Some (a, status)"
    using accepted by (simp add: accepts_upload_def)
  note owned_application [OF this]
  ultimately show ?thesis using scan by (simp add: CLEAN_VERDICT_def) blast
next
  case False
  then have "DOCUMENT_FORENSICS_COMPLETED e \<notin> set (fst (snd (upload env bus dd cmd db w)))"
    using refused_upload by blast
  then show ?thesis using assms by simp
qed

subsection \<open>Where the record and the object part ways\<close>

definition open_case :: "application_status \<Rightarrow> bool" where
  "open_case s \<longleftrightarrow> status_rank s \<le> status_rank LAST_REPLACEABLE_STATUS"

lemma open_case_routes: "open_case s \<Longrightarrow> s \<notin> {REJECTED, WITHDRAWN, ACCEPTED} \<and> forensics_target RED s = Some REJECTED"
  by (cases s) (simp_all add: open_case_def LAST_REPLACEABLE_STATUS_def forensics_target_def)

lemma project_forensics_world: "fst (project_forensics bus dr e db) = fst (applyForensicsRouting (routing_of e) db)"
  by (cases "applyForensicsRouting (routing_of e) db"; cases "snd (applyForensicsRouting (routing_of e) db)")
    (simp_all add: project_forensics_def)

text \<open>
  When bytes that were recorded clean are analysed again and the scanner now finds malware, the answer is a
  retry: the RED lane is published and rejects the application, and the row goes on saying what it said.
\<close>

theorem reanalysis_verdict_is_not_recorded:
  assumes "isDocumentTypeSupported (an_agency cmd) (an_documentType cmd)"
    and "getObject env (an_objectBucket cmd) (an_objectKey cmd) (dw_objects w) = Inr (Some bytes)"
    and "scan_bytes (de_clamd env) bytes = Scan_INFECTED signature"
    and "app_of (dw_db w) (an_agency cmd) (an_applicationId cmd) = Some r" and "open_case (app_status r)"
    and "find_slot (an_agency cmd) (an_applicationId cmd) (an_objectKey cmd) w = Some d"
    and "human_reviewed_at d = None" and "doc_content_hmac d = Some (de_hmac env bytes)"
    and "bus = (\<lambda>_. True)"
  shows "\<exists>e audit. analyze env bus dd cmd w =
      (w, [DOCUMENT_FORENSICS_COMPLETED e, DOCUMENT_AUDIT audit], Inr (ANALYZED (doc_id d) (composeVerdict False (probeBytes bytes)))) \<and>
    dc_lane e = RED \<and>
    status_of (fst (project_forensics bus dr e (dw_db w))) (an_agency cmd) (an_applicationId cmd) = Some REJECTED"
proof -
  let ?v = "composeVerdict False (probeBytes bytes)"
  have verdict: "analyze_bytes (de_clamd env) bytes = Analyzed ?v" using assms(3) by (simp add: analyze_bytes_def)
  have "decideSupersession (slot_state_of (app_status r) (Some d)) (de_hmac env bytes) (doc_revision d) = Slot_RETRY (doc_revision d)"
    using assms(5,7,8) by (simp add: decideSupersession_def slot_state_of_def open_case_def)
  then have "recordVerdict (de_commits env) (dd_recordId dd) Some (analysis_input env cmd bytes ?v) w =
      (w, Some (Verdict_RECORDED (doc_id d) (doc_revision d) False))"
    using assms(4,6) by (simp add: recordVerdict_alt analysis_input_def)
  then obtain e audit where run: "analyze env bus dd cmd w = (w, [DOCUMENT_FORENSICS_COMPLETED e, DOCUMENT_AUDIT audit], Inr (ANALYZED (doc_id d) ?v))"
      and e: "dc_lane e = RED" "dc_agency e = an_agency cmd" "dc_applicationId e = an_applicationId cmd"
    using assms(1,2,9) verdict
    by (simp add: analyze_def store_analysis_def publish_then_def completed_event_def analysis_audit_def Let_def compose_lane)
  have "status_of (fst (applyForensicsRouting (routing_of e) (dw_db w))) (an_agency cmd) (an_applicationId cmd) = Some REJECTED"
    using open_case_routes [OF assms(5)] assms(4) e
    by (simp add: applyForensicsRouting_def routing_of_def status_of_def store_simps Let_def)
  then have "status_of (fst (project_forensics bus dr e (dw_db w))) (an_agency cmd) (an_applicationId cmd) = Some REJECTED"
    by (simp add: project_forensics_world)
  with run e(1) show ?thesis by blast
qed

text \<open>
  When the commit of a replacement fails, the new bytes are at rest under the old row: the tables are
  untouched, the caller is told of a failure, and the object opens to bytes whose digest is not the row's.
\<close>

theorem failed_commit_leaves_the_new_bytes:
  assumes "accepts_upload env cmd a status key verdict db"
    and "app_of (dw_db w) a (up_applicationId cmd) = Some r" and "open_case (app_status r)"
    and "find_slot a (up_applicationId cmd) key w = Some d" and "human_reviewed_at d = None"
    and "doc_content_hmac d \<noteq> Some (de_hmac env (up_bytes cmd))"
    and "readable env" and "length (dd_nonce dd) = NONCE_BYTES" and "List.member WRITE_OK (de_putStatus env)" and "\<not> de_commits env"
  shows "\<exists>w'. upload env bus dd cmd db w = (w', [], Inl Persistence_failed) \<and>
    dw_db w' = dw_db w \<and> dw_revisions w' = dw_revisions w \<and> find_slot a (up_applicationId cmd) key w' = Some d \<and>
    getObject env (de_bucket env) key (dw_objects w') = Inr (Some (up_bytes cmd))"
proof -
  let ?inp = "verdict_input_of env cmd a key verdict"
  obtain objs where put: "putObject env (dd_nonce dd) (de_bucket env) key (up_bytes cmd) (dw_objects w) = Some objs"
    using assms(9) by (simp add: putObject_def Let_def)
  have "decideSupersession (slot_state_of (app_status r) (Some d)) (de_hmac env (up_bytes cmd)) (doc_revision d) =
      Slot_SUPERSEDE (doc_revision d + 1)"
    using assms(3,5,6) by (simp add: decideSupersession_def slot_state_of_def open_case_def)
  then have "recordVerdict (de_commits env) (dd_recordId dd) (putObject env (dd_nonce dd) (de_bucket env) key (up_bytes cmd)) ?inp w =
      (w\<lparr>dw_objects := objs\<rparr>, None)"
    using assms(2,4,10) put
    by (simp add: recordVerdict_alt verdict_input_of_def commit_rows_def Let_def split: option.split)
  then have "upload env bus dd cmd db w = (w\<lparr>dw_objects := objs\<rparr>, [], Inl Persistence_failed)"
    using accepted_upload [OF assms(1)] by (simp add: store_upload_def Let_def)
  with put_get [OF assms(7,8) put] assms(4) show ?thesis by simp
qed

lemma find_appended: "find P (xs @ ys) = (case find P xs of None \<Rightarrow> find P ys | Some x \<Rightarrow> Some x)"
  by (induction xs) simp_all

text \<open>
  C40: Two first uploads of one document can both create: neither locks a row that the other
  would wait for, and no constraint forbids the second. The case then has two rows for one
  object; the first is the one later calls find, with the digest of bytes the second has already
  replaced.
\<close>

theorem racing_first_uploads_create_two_rows:
  assumes "read_slot inp1 w = Some (Slot_CREATE, None)" and "read_slot inp2 w = Some (Slot_CREATE, None)"
    and "execute_decision True n1 (putObject env nonce1 bucket key bytes1) inp1 (Slot_CREATE, None) w = (w1, Some ans1)"
    and "execute_decision True n2 (putObject env nonce2 bucket key bytes2) inp2 (Slot_CREATE, None) w1 = (w2, Some ans2)"
    and "vi_agency inp1 = a" "vi_agency inp2 = a" "vi_applicationId inp1 = i" "vi_applicationId inp2 = i"
    and "vi_objectKey inp1 = key" "vi_objectKey inp2 = key" and "readable env" and "length nonce2 = NONCE_BYTES"
  shows "\<exists>d1 d2. find_slot a i key w2 = Some d1 \<and> d2 \<in> set (slots_of a w2) \<and> slot_key d2 = slot_key d1 \<and>
    doc_id d1 = n1 \<and> doc_id d2 = n2 \<and> n1 \<noteq> n2 \<and> doc_content_hmac d1 = Some (vi_contentHmac inp1) \<and>
    getObject env bucket key (dw_objects w2) = Inr (Some bytes2)"
proof -
  obtain objs1 where one: "create_slot n1 inp1 (w\<lparr>dw_objects := objs1\<rparr>) = Some w1"
    using assms(3) by (auto simp: execute_decision_def commit_rows_def split: option.splits)
  obtain objs2 where two: "putObject env nonce2 bucket key bytes2 (dw_objects w1) = Some objs2"
      "create_slot n2 inp2 (w1\<lparr>dw_objects := objs2\<rparr>) = Some w2"
    using assms(4) by (auto simp: execute_decision_def commit_rows_def split: option.splits)
  let ?d1 = "judged (db_now (dw_db w)) 1 inp1 (blank_document n1 inp1)"
  let ?d2 = "judged (db_now (dw_db w1)) 1 inp2 (blank_document n2 inp2)"
  note rows1 = create_slot_rows [OF one] and rows2 = create_slot_rows [OF two(2)]
  have none: "find_slot a i key w = None"
    using assms(1) by (simp add: read_slot_def assms(5,7,9) Let_def split: option.splits)
  have slots: "slots_of a w2 = slots_of a w @ [?d1, ?d2]" using rows1(1) rows2(1) assms(5,6) by simp
  have "find_slot a i key w2 = Some ?d1"
    using none by (simp add: find_slot_def slots find_appended assms(7,9))
  moreover have "n1 \<noteq> n2" using rows2(4) rows1(1) assms(5,6) by auto
  moreover have "getObject env bucket key (dw_objects w2) = Inr (Some bytes2)"
    using put_get [OF assms(11,12) two(1)] rows2(3) by simp
  ultimately show ?thesis using slots assms(7-10)
    by (intro exI [of _ ?d1] exI [of _ ?d2]) simp
qed

text \<open>The rule of replacement takes the walk-in lane for a case that has advanced: it ranks above every other status.\<close>

theorem walk_in_documents_are_refused:
  assumes "app_of (dw_db w) (vi_agency inp) (vi_applicationId inp) = Some r"
    and "app_status r \<in> {WALK_IN_REGISTERED, WALK_IN_ON_SITE_VETTING, WALK_IN_PHYSICAL_TEST}"
    and "find_slot (vi_agency inp) (vi_applicationId inp) (vi_objectKey inp) w = None"
  shows "recordVerdict commits newId wr inp w = (w, Some (RECORD_REVIEW_CLOSED CASE_ADVANCED))"
  using assms
  by (auto simp: recordVerdict_alt decideSupersession_def slot_state_of_def LAST_REPLACEABLE_STATUS_def)

subsection \<open>Concrete inputs\<close>

text \<open>A cipher that writes the path before the plaintext.\<close>

definition plain_aead :: aead_library where
  "plain_aead =
     \<lparr>ae_derive = bytes_of,
      ae_seal = (\<lambda>key nonce aad p. (replicate (length aad) 1 @ 0 # bytes_of aad @ p, replicate 16 0)),
      ae_open = (\<lambda>key nonce aad c tag.
        let n = length (takeWhile (\<lambda>x. x = 1) c); body = drop (n + 1) c in
        if n = length aad \<and> take n body = bytes_of aad then Some (drop n body) else None)\<rparr>"

lemma bytes_of_inj [simp]: "bytes_of s = bytes_of t \<longleftrightarrow> s = t"
  by (metis latin1_bytes_of)

lemma faithful_plain_aead: "faithful_aead plain_aead"
proof -
  have run: "takeWhile (\<lambda>x. x = 1) (replicate n 1 @ 0 # b) = replicate n (1 :: 8 word)" for n b
    by (induction n) simp_all
  have rest: "drop (n + 1) (replicate n 1 @ 0 # b) = (b :: buffer)" for n b by simp
  show ?thesis by (auto simp: faithful_aead_def plain_aead_def TAG_BYTES_def Let_def run rest)
qed

definition document_sample :: "string \<Rightarrow> bool \<Rightarrow> document_env" where
  "document_sample reply commits =
     \<lparr>de_clamd = (\<lambda>_. Inr reply), de_aead = plain_aead, de_writeKey = [], de_readKey = Some [], de_bucket = ''documents'',
      de_hmac = latin1, de_putStatus = 200, de_getStatus = 200, de_commits = commits\<rparr>"

lemma document_sample_simps [simp]:
  "de_clamd (document_sample reply commits) = (\<lambda>_. Inr reply)" "de_bucket (document_sample reply commits) = ''documents''"
  "de_hmac (document_sample reply commits) = latin1" "de_putStatus (document_sample reply commits) = 200"
  "de_getStatus (document_sample reply commits) = 200" "de_commits (document_sample reply commits) = commits"
  "de_aead (document_sample reply commits) = plain_aead" "de_readKey (document_sample reply commits) = Some []"
  by (simp_all add: document_sample_def)

definition document_draws_sample :: document_draws where
  "document_draws_sample = \<lparr>dd_events = gate_draws, dd_recordId = ''doc'', dd_nonce = replicate 12 0\<rparr>"

definition upload_sample :: "string \<Rightarrow> upload_command" where
  "upload_sample body =
     \<lparr>up_applicantId = ''citizen'', up_applicationId = ''app'', up_documentType = NATIONAL_ID,
      up_declaredMediaType = ''application/pdf'', up_bytes = bytes_of (''%PDF-'' @ body),
      up_context = newCorrelationContext ''corr''\<rparr>"

definition empty_world :: "string document_world" where
  "empty_world = \<lparr>dw_db = one_app (sample_row SUBMITTED), dw_revisions = (\<lambda>_. []), dw_objects = (\<lambda>_. None)\<rparr>"

definition first_upload :: "string document_world \<times> document_event list \<times> (document_error + upload_outcome)" where
  "first_upload = upload (document_sample ''stream: OK'' True) (\<lambda>_. True) document_draws_sample (upload_sample ''/Info'')
     (one_app (sample_row SUBMITTED)) empty_world"

definition sample_key :: string where "sample_key = ''rdf/app/national_id''"

lemma sample_key_derived: "deriveObjectKey RDF ''app'' NATIONAL_ID = Some sample_key"
  by code_simp

lemma sample_readable: "readable (document_sample reply commits)"
  by (simp add: readable_def document_sample_def faithful_plain_aead)

lemma sample_clean: "scan_bytes (de_clamd (document_sample ''stream: OK'' commits)) bytes = Scan_CLEAN"
  by (simp add: document_sample_def scan_bytes_def parseReply_def CLEAN_VERDICT_def js_trim_def is_js_space_def Let_def)

lemma sample_pdf: "identifyContainer (bytes_of (''%PDF-'' @ body)) = PDF"
  by (simp add: identify_pdf PDF_MAGIC_def bytes_of_def)

lemma sample_accepted:
  "accepts_upload (document_sample ''stream: OK'' commits) (upload_sample body) RDF SUBMITTED sample_key
     (composeVerdict True (probeBytes (bytes_of (''%PDF-'' @ body)))) (one_app (sample_row SUBMITTED))"
proof -
  have "findOwnedApplication ''citizen'' ''app'' (one_app (sample_row SUBMITTED)) = Some (RDF, SUBMITTED)"
    by (simp add: findOwnedApplication_def AGENCIES_def)
  moreover have "bs_container (probeBytes (bytes_of (''%PDF-'' @ body))) = PDF"
    by (simp only: probeBytes_def sample_pdf container_format.case signals_of_def byte_signals.simps)
  ultimately show ?thesis
    using sample_clean sample_key_derived
    by (simp add: accepts_upload_def upload_sample_def analyze_bytes_def compose_bounds CLOSED_TO_UPLOADS_def
        isDocumentTypeSupported_def MEDIA_TYPE_CONTAINER_def)
qed

text \<open>The first upload: its row, the trail and the answer.\<close>

definition first_verdict :: forensics_verdict where
  "first_verdict = composeVerdict True (probeBytes (bytes_of ''%PDF-/Info''))"

definition first_row :: document_row where
  "first_row =
     (let inp = verdict_input_of (document_sample ''stream: OK'' True) (upload_sample ''/Info'') RDF sample_key first_verdict in
      judged 1000 1 inp (blank_document ''doc'' inp))"

lemma first_row_simps [simp]:
  "doc_id first_row = ''doc''" "doc_application_id first_row = ''app''" "doc_object_key first_row = Some sample_key"
  "doc_content_hmac first_row = Some ''%PDF-/Info''" "human_reviewed_at first_row = None" "doc_revision first_row = 1"
  by (simp_all add: first_row_def verdict_input_of_def upload_sample_def document_sample_def Let_def)
    (simp add: blank_document_def)

lemma record_creates:
  assumes "app_of (dw_db w) (vi_agency inp) (vi_applicationId inp) = Some r" and "open_case (app_status r)"
    and "find_slot (vi_agency inp) (vi_applicationId inp) (vi_objectKey inp) w = None"
    and "wr (dw_objects w) = Some objs" and "create_slot newId inp (w\<lparr>dw_objects := objs\<rparr>) = Some w'"
  shows "recordVerdict True newId wr inp w = (w', Some (Verdict_RECORDED newId 1 False))"
  using assms
  by (simp add: recordVerdict_alt decideSupersession_def slot_state_of_def open_case_def commit_rows_def Let_def)

lemma create_slot_apps:
  "create_slot n inp w = Some w' \<Longrightarrow> app_of (dw_db w') a i = app_of (dw_db w) a i"
  by (auto simp: create_slot_def Let_def app_of_def store_simps split: if_splits)

lemma sample_getObject:
  "getObject (document_sample reply commits) bucket key objs = getObject (document_sample ''stream: OK'' True) bucket key objs"
  by (cases "objs (bucket, key)") (simp_all add: getObject_def s3_get_def)

lemma first_upload_run:
  obtains w1 e audit where
    "first_upload = (w1, [DOCUMENT_FORENSICS_COMPLETED e, DOCUMENT_AUDIT audit], Inr (UPLOADED ''doc'' RDF sample_key 1 False first_verdict))"
    "slots_of RDF w1 = [first_row]" "app_of (dw_db w1) RDF ''app'' = Some (sample_row SUBMITTED)"
proof -
  let ?env = "document_sample ''stream: OK'' True" and ?cmd = "upload_sample ''/Info''"
  let ?inp = "verdict_input_of ?env ?cmd RDF sample_key first_verdict"
  obtain objs where put: "putObject ?env (dd_nonce document_draws_sample) (de_bucket ?env) sample_key (up_bytes ?cmd) (dw_objects empty_world) = Some objs"
    by (simp add: putObject_def document_sample_def WRITE_OK_def Let_def)
  have empty: "slots_of a empty_world = []" "dw_revisions empty_world a = []" for a
    by (simp_all add: slots_of_def empty_world_def one_app_def sample_db_def empty_schema_def)
  obtain w1 where create: "create_slot ''doc'' ?inp (empty_world\<lparr>dw_objects := objs\<rparr>) = Some w1"
    using empty by (simp add: create_slot_def Let_def)
  have "recordVerdict True ''doc'' (putObject ?env (dd_nonce document_draws_sample) (de_bucket ?env) sample_key (up_bytes ?cmd)) ?inp empty_world =
      (w1, Some (Verdict_RECORDED ''doc'' 1 False))"
  proof (rule record_creates [where wr = "putObject ?env (dd_nonce document_draws_sample) (de_bucket ?env) sample_key (up_bytes ?cmd)", OF _ _ _ put create])
    show "app_of (dw_db empty_world) (vi_agency ?inp) (vi_applicationId ?inp) = Some (sample_row SUBMITTED)"
      by (simp add: empty_world_def verdict_input_of_def upload_sample_def)
    show "open_case (app_status (sample_row SUBMITTED))" by (simp add: open_case_def LAST_REPLACEABLE_STATUS_def)
    show "find_slot (vi_agency ?inp) (vi_applicationId ?inp) (vi_objectKey ?inp) empty_world = None"
      by (simp add: find_slot_def empty)
  qed
  moreover have "up_applicationId ?cmd = ''app''" "vi_agency ?inp = RDF"
    by (simp_all add: upload_sample_def verdict_input_of_def)
  moreover have "slots_of RDF w1 = [first_row]"
    using create_slot_rows(1) [OF create, of RDF] empty
    by (simp add: first_row_def Let_def verdict_input_of_def) (simp add: empty_world_def one_app_def sample_db_def)
  moreover have "app_of (dw_db w1) RDF ''app'' = Some (sample_row SUBMITTED)"
    by (simp add: create_slot_apps [OF create] empty_world_def)
  ultimately show thesis
    using that accepted_upload [OF sample_accepted [of True "''/Info''"], of "\<lambda>_. True" document_draws_sample empty_world]
    by (simp add: first_upload_def first_verdict_def [symmetric] store_upload_def publish_then_def completed_event_def upload_audit_def
        document_draws_sample_def Let_def)
qed

lemma empty_slots [simp]: "slots_of a empty_world = []" "dw_revisions empty_world a = []"
  by (simp_all add: slots_of_def empty_world_def one_app_def sample_db_def empty_schema_def)

lemma first_step: "first_upload = (w1, rest) \<Longrightarrow> document_step empty_world w1"
  using document_step.Upload [of "upload_sample ''/Info''" empty_world "document_sample ''stream: OK'' True" "\<lambda>_. True"
      document_draws_sample "one_app (sample_row SUBMITTED)"]
  by (simp add: first_upload_def upload_sample_def)

lemma first_object:
  assumes "first_upload = (w1, sent, Inr (UPLOADED ''doc'' RDF sample_key 1 False first_verdict))"
  shows "getObject (document_sample ''stream: OK'' True) ''documents'' sample_key (dw_objects w1) = Inr (Some (bytes_of ''%PDF-/Info''))"
proof (cases rule: upload_cases [of "document_sample ''stream: OK'' True" "\<lambda>_. True" document_draws_sample "upload_sample ''/Info''"
      "one_app (sample_row SUBMITTED)" empty_world])
  case aside
  from aside(2) [of "''doc''" RDF sample_key 1 False first_verdict] show ?thesis
    using assms by (simp add: first_upload_def)
next
  case (stored a status key verdict)
  note recorded = store_upload_recorded [OF trans [OF stored(2) [symmetric] assms [unfolded first_upload_def]]]
  note put = put_get [OF sample_readable, of "dd_nonce document_draws_sample" "''stream: OK''" True]
  show ?thesis
    using recorded(1)
  proof (cases rule: recordVerdict_cases)
    case same
    from same(2) [of "''doc''" 1 False] show ?thesis by (simp add: find_slot_def)
  next
    case (created objs)
    then show ?thesis using put [OF _ created(1)] create_slot_rows(3) [OF created(3)] recorded(3)
      by (simp add: document_draws_sample_def NONCE_BYTES_def) (simp add: document_sample_def upload_sample_def)
  qed (simp_all add: find_slot_def)
qed

theorem uploaded_document_reads_back_witness:
  "getObject (document_sample ''stream: OK'' True) ''documents'' sample_key (dw_objects (fst first_upload)) =
     Inr (Some (bytes_of ''%PDF-/Info''))"
proof -
  obtain w1 e audit where run: "first_upload =
      (w1, [DOCUMENT_FORENSICS_COMPLETED e, DOCUMENT_AUDIT audit], Inr (UPLOADED ''doc'' RDF sample_key 1 False first_verdict))"
    by (rule first_upload_run)
  have "find_slot RDF (up_applicationId (upload_sample ''/Info'')) sample_key empty_world = None" by (simp add: find_slot_def)
  moreover have "length (dd_nonce document_draws_sample) = NONCE_BYTES" by (simp add: document_draws_sample_def NONCE_BYTES_def)
  ultimately have "getObject (document_sample ''stream: OK'' True) ''documents'' sample_key (dw_objects w1) =
      Inr (Some (bytes_of ''%PDF-/Info''))"
    using uploaded_document_reads_back [OF run [unfolded first_upload_def] sample_readable] by (simp add: upload_sample_def)
  then show ?thesis by (simp add: run)
qed

theorem announced_upload_was_scanned_witness:
  "\<exists>e. DOCUMENT_FORENSICS_COMPLETED e \<in> set (fst (snd first_upload)) \<and> dc_lane e \<in> {GREEN, AMBER} \<and>
     (\<exists>r. app_of (one_app (sample_row SUBMITTED)) (dc_agency e) (dc_applicationId e) = Some r \<and> applicant_id r = ''citizen'')"
proof -
  obtain w1 e audit where run: "first_upload =
      (w1, [DOCUMENT_FORENSICS_COMPLETED e, DOCUMENT_AUDIT audit], Inr (UPLOADED ''doc'' RDF sample_key 1 False first_verdict))"
    by (rule first_upload_run)
  from announced_upload_was_scanned [OF run [unfolded first_upload_def], of e] show ?thesis
    by (auto simp: run upload_sample_def)
qed

theorem revision_trail_is_complete_witness:
  "map rv_revision (trail_of RDF ''doc'' (fst first_upload)) = [1]"
proof -
  obtain w1 e audit where run: "first_upload =
      (w1, [DOCUMENT_FORENSICS_COMPLETED e, DOCUMENT_AUDIT audit], Inr (UPLOADED ''doc'' RDF sample_key 1 False first_verdict))"
      and row: "slots_of RDF w1 = [first_row]" by (rule first_upload_run)
  have "document_step\<^sup>*\<^sup>* empty_world w1" using first_step [OF run] by (rule r_into_rtranclp)
  from revision_trail_is_complete [OF this, of first_row RDF sample_key] row show ?thesis by (simp add: run)
qed

text \<open>The same row, with an officer's decision on it.\<close>

definition reviewed_row :: document_row where
  "reviewed_row = first_row\<lparr>human_reviewed_by_id := Some ''officer'', human_reviewed_at := Some 1000, human_review_decision := Some ''CLEAR''\<rparr>"

definition reviewed_world :: "string document_world" where
  "reviewed_world =
     \<lparr>dw_db = sample_db (empty_schema\<lparr>applications := [(''app'', sample_row SUBMITTED)], document_records := [reviewed_row]\<rparr>),
      dw_revisions = (\<lambda>a. if a = RDF
        then [revision_of 1000 ''doc'' 1 (verdict_input_of (document_sample ''stream: OK'' True) (upload_sample ''/Info'') RDF sample_key first_verdict)]
        else []),
      dw_objects = (\<lambda>_. Some [1, 2, 3])\<rparr>"

theorem reviewed_document_is_evidence_witness:
  "reviewed_row \<in> set (slots_of RDF (fst (upload (document_sample ''stream: OK'' True) (\<lambda>_. True) document_draws_sample
       (upload_sample ''forged'') (one_app (sample_row SUBMITTED)) reviewed_world))) \<and>
   dw_objects (fst (upload (document_sample ''stream: OK'' True) (\<lambda>_. True) document_draws_sample
       (upload_sample ''forged'') (one_app (sample_row SUBMITTED)) reviewed_world)) (''documents'', sample_key) = Some [1, 2, 3]"
proof -
  have rows: "slots_of a reviewed_world = (if a = RDF then [reviewed_row] else [])" for a
    by (simp add: slots_of_def reviewed_world_def sample_db_def empty_schema_def)
  have objects: "dw_objects reviewed_world = (\<lambda>_. Some [1, 2, 3])" by (simp add: reviewed_world_def)
  have ids: "\<forall>b. distinct (map doc_id (slots_of b reviewed_world))" by (simp add: rows)
  have step: "document_step reviewed_world (fst (upload (document_sample ''stream: OK'' True) (\<lambda>_. True) document_draws_sample
       (upload_sample ''forged'') (one_app (sample_row SUBMITTED)) reviewed_world))"
    by (rule document_step.Upload) (simp add: upload_sample_def)
  note run = r_into_rtranclp [of document_run, OF document_run.Call [OF step]]
  have "stamped reviewed_row" "doc_object_key reviewed_row = Some sample_key" "doc_application_id reviewed_row = ''app''"
    by (simp_all add: stamped_def reviewed_row_def)
  then show ?thesis
    using reviewed_document_is_evidence [OF ids rtranclp.rtrancl_refl _ _ _ _ _ _ _ run, of reviewed_row RDF NATIONAL_ID sample_key]
      sample_key_derived
    by (simp add: rows objects no_flight_to_def)
qed

theorem reanalysis_verdict_is_not_recorded_witness:
  "\<exists>e. dc_lane e = RED \<and>
     status_of (fst (project_forensics (\<lambda>_. True) gate_draws e (dw_db (fst first_upload)))) RDF ''app'' = Some REJECTED"
proof -
  obtain w1 e audit where run: "first_upload =
      (w1, [DOCUMENT_FORENSICS_COMPLETED e, DOCUMENT_AUDIT audit], Inr (UPLOADED ''doc'' RDF sample_key 1 False first_verdict))"
      and row: "slots_of RDF w1 = [first_row]" and app: "app_of (dw_db w1) RDF ''app'' = Some (sample_row SUBMITTED)"
    by (rule first_upload_run)
  let ?env = "document_sample ''stream: Eicar FOUND'' True"
  let ?cmd = "\<lparr>an_applicationId = ''app'', an_agency = RDF, an_documentType = NATIONAL_ID, an_objectBucket = ''documents'',
    an_objectKey = sample_key, an_mimeType = ''application/pdf'', an_context = newCorrelationContext ''corr''\<rparr>"
  have object: "getObject ?env ''documents'' sample_key (dw_objects w1) = Inr (Some (bytes_of ''%PDF-/Info''))"
    using first_object [OF run] by (subst sample_getObject)
  have scan: "scan_bytes (de_clamd ?env) bytes = Scan_INFECTED ''Eicar''" for bytes
    by (simp add: document_sample_def scan_bytes_def parseReply_def CLEAN_VERDICT_def found_signature_def startsWith_def js_trim_def
        is_js_space_def Let_def)
  have "find_slot RDF ''app'' sample_key w1 = Some first_row" by (simp add: find_slot_def row)
  moreover have "de_hmac ?env (bytes_of ''%PDF-/Info'') = ''%PDF-/Info''" by simp
  ultimately show ?thesis
    using reanalysis_verdict_is_not_recorded [of ?cmd ?env w1 "bytes_of ''%PDF-/Info''" "''Eicar''" "sample_row SUBMITTED" first_row
        "\<lambda>_. True" document_draws_sample gate_draws] object scan app
    by (auto simp: run isDocumentTypeSupported_def open_case_def LAST_REPLACEABLE_STATUS_def)
qed

theorem failed_commit_leaves_the_new_bytes_witness:
  "\<exists>w'. fst (upload (document_sample ''stream: OK'' False) (\<lambda>_. True) document_draws_sample (upload_sample ''other'')
       (one_app (sample_row SUBMITTED)) (fst first_upload)) = w' \<and>
     find_slot RDF ''app'' sample_key w' = Some first_row \<and>
     getObject (document_sample ''stream: OK'' False) ''documents'' sample_key (dw_objects w') = Inr (Some (bytes_of ''%PDF-other''))"
proof -
  obtain w1 e audit where run: "first_upload =
      (w1, [DOCUMENT_FORENSICS_COMPLETED e, DOCUMENT_AUDIT audit], Inr (UPLOADED ''doc'' RDF sample_key 1 False first_verdict))"
      and row: "slots_of RDF w1 = [first_row]" and app: "app_of (dw_db w1) RDF ''app'' = Some (sample_row SUBMITTED)"
    by (rule first_upload_run)
  let ?env = "document_sample ''stream: OK'' False" and ?cmd = "upload_sample ''other''"
  have slot: "find_slot RDF ''app'' sample_key w1 = Some first_row" by (simp add: find_slot_def row)
  have "up_applicationId ?cmd = ''app''" "up_bytes ?cmd = bytes_of ''%PDF-other''" by (simp_all add: upload_sample_def)
  moreover have "de_hmac ?env (bytes_of ''%PDF-other'') = ''%PDF-other''" by simp
  moreover have "de_bucket ?env = ''documents''" "\<not> de_commits ?env" "List.member WRITE_OK (de_putStatus ?env)"
    by (simp_all add: document_sample_def WRITE_OK_def)
  moreover have "length (dd_nonce document_draws_sample) = NONCE_BYTES" by (simp add: document_draws_sample_def NONCE_BYTES_def)
  moreover have "open_case SUBMITTED" by (simp add: open_case_def LAST_REPLACEABLE_STATUS_def)
  ultimately show ?thesis
    using failed_commit_leaves_the_new_bytes [OF sample_accepted [of False "''other''"], where w = w1 and r = "sample_row SUBMITTED" and d = first_row
        and dd = document_draws_sample and bus = "\<lambda>_. True"]
      sample_readable slot app
    by (auto simp: run)
qed

text \<open>Two first uploads that both read before either wrote.\<close>

definition race_input :: "string \<Rightarrow> verdict_input" where
  "race_input body = verdict_input_of (document_sample ''stream: OK'' True) (upload_sample body) RDF sample_key first_verdict"

definition race_write :: "string \<Rightarrow> objects \<Rightarrow> objects option" where
  "race_write body = putObject (document_sample ''stream: OK'' True) (replicate 12 0) ''documents'' sample_key (bytes_of (''%PDF-'' @ body))"

definition first_racer :: "string document_world \<times> verdict_outcome option" where
  "first_racer = execute_decision True ''doc'' (race_write ''/Info'') (race_input ''/Info'') (Slot_CREATE, None) empty_world"

definition second_racer :: "string document_world \<times> verdict_outcome option" where
  "second_racer = execute_decision True ''doc2'' (race_write ''other'') (race_input ''other'') (Slot_CREATE, None) (fst first_racer)"

lemma race_input_simps [simp]:
  "vi_agency (race_input body) = RDF" "vi_applicationId (race_input body) = ''app''" "vi_objectKey (race_input body) = sample_key"
  "vi_contentHmac (race_input body) = ''%PDF-'' @ body"
  by (simp_all add: race_input_def verdict_input_of_def upload_sample_def)

lemma empty_world_app: "app_of (dw_db empty_world) RDF ''app'' = Some (sample_row SUBMITTED)"
  by (simp add: empty_world_def)

lemma race_reads: "read_slot (race_input body) empty_world = Some (Slot_CREATE, None)"
  by (simp add: read_slot_def find_slot_def decideSupersession_def slot_state_of_def LAST_REPLACEABLE_STATUS_def empty_world_app)

theorem racing_first_uploads_create_two_rows_witness:
  "\<exists>d1 d2. find_slot RDF ''app'' sample_key (fst second_racer) = Some d1 \<and> d2 \<in> set (slots_of RDF (fst second_racer)) \<and>
     slot_key d2 = slot_key d1 \<and> doc_id d1 = ''doc'' \<and> doc_id d2 = ''doc2'' \<and> doc_content_hmac d1 = Some ''%PDF-/Info'' \<and>
     getObject (document_sample ''stream: OK'' True) ''documents'' sample_key (dw_objects (fst second_racer)) = Inr (Some (bytes_of ''%PDF-other''))"
proof -
  have writes: "\<exists>objs'. race_write body objs = Some objs'" for body objs
    by (simp add: race_write_def putObject_def WRITE_OK_def Let_def)
  obtain objs1 where o1: "race_write ''/Info'' (dw_objects empty_world) = Some objs1" using writes by blast
  obtain w1 where c1: "create_slot ''doc'' (race_input ''/Info'') (empty_world\<lparr>dw_objects := objs1\<rparr>) = Some w1"
    by (simp add: create_slot_def Let_def)
  have one: "first_racer = (w1, Some (Verdict_RECORDED ''doc'' 1 False))"
    by (simp add: first_racer_def execute_decision_def commit_rows_def o1 c1)
  obtain objs2 where o2: "race_write ''other'' (dw_objects w1) = Some objs2" using writes by blast
  obtain w2 where c2: "create_slot ''doc2'' (race_input ''other'') (w1\<lparr>dw_objects := objs2\<rparr>) = Some w2"
    using create_slot_rows(1,2) [OF c1, of RDF] by (simp add: create_slot_def Let_def revision_of_def)
  have two: "second_racer = (w2, Some (Verdict_RECORDED ''doc2'' 1 False))"
    by (simp add: second_racer_def one execute_decision_def commit_rows_def o2 c2)
  show ?thesis
    using racing_first_uploads_create_two_rows [OF race_reads [of "''/Info''"] race_reads [of "''other''"]
        one [unfolded first_racer_def race_write_def] two [unfolded second_racer_def one fst_conv race_write_def],
        where a = RDF and i = "''app''"] sample_readable
    by (simp add: two NONCE_BYTES_def)
qed

theorem walk_in_documents_are_refused_witness:
  "snd (recordVerdict True ''doc'' Some
       (verdict_input_of (document_sample ''stream: OK'' True) (upload_sample ''/Info'') RDF sample_key first_verdict)
       (empty_world\<lparr>dw_db := one_app (sample_row WALK_IN_REGISTERED)\<rparr>)) = Some (RECORD_REVIEW_CLOSED CASE_ADVANCED)"
proof -
  let ?w = "empty_world\<lparr>dw_db := one_app (sample_row WALK_IN_REGISTERED)\<rparr>"
  have "slots_of RDF ?w = []" by (simp add: one_app_def sample_db_def empty_schema_def)
  then show ?thesis
    using walk_in_documents_are_refused [of ?w "verdict_input_of (document_sample ''stream: OK'' True) (upload_sample ''/Info'') RDF sample_key first_verdict"
        "sample_row WALK_IN_REGISTERED" True "''doc''" Some]
    by (simp add: verdict_input_of_def upload_sample_def find_slot_def)
qed

end
