(* ===== verification/Spec2Isabelle.thy ===== *)
theory Spec2Isabelle
  imports Tour FieldUpload Scheduling Erasure Vetting Documents
begin

text \<open>
  A verification library of the e-recruitment platform: three agencies (RDF, RNP, RCS) recruit over one
  shared database, and an application moves from submission to acceptance through events, officers,
  a venue gate and field tablets.

  \<^bold>\<open>How the program is put together.\<close> \<open>services/application-service\<close> is the single writer of the
  application rows. Verdicts of the vetting services, slot assignments, delivery receipts and field
  scores reach it as events and are applied by one transaction each; officers, the venue gate and the
  citizen act through further transactions. \<open>services/scheduling-service\<close> decides exam slots and keeps a
  ledger of its decisions, \<open>services/field-sync-service\<close> stores the signed scores of offline tablets, and
  \<open>packages/shared-database/src/outbox.ts\<close> carries events from committed transactions to the bus.

  \<^bold>\<open>How it is modelled.\<close> A table is a list of records in insertion order (or a map on its key), a
  transaction a function from the database to the database and an answer, with every early return and
  every raise a branch of the answer type. Statements of one transaction run against a locked row, so a
  transaction is one step; where the code relies on no lock (the submission ledger, the slot ledger),
  what other transactions commit in between is an argument of the function. JavaScript numbers that are
  counters, ranks or instants are \<open>int\<close>, JSON numbers \<open>real\<close>, strings lists of code units. Cryptography,
  \<open>JSON.parse\<close>, \<open>Date.parse\<close>, Unicode normalisation, random ids and clocks are arguments; what a property
  needs of them is a named hypothesis.

  \<^bold>\<open>The theories\<close>, in the order they build on each other.
  \<^item> \<open>Prelude\<close>: JSON trees, JavaScript strings, list lemmas and the \<open>named_theorems\<close> collections.
  \<^item> \<open>SharedTypes\<close> (\<open>packages/shared-types/src\<close>): agencies, districts, categories, statuses and their
    canonical order.
  \<^item> \<open>Lifecycle\<close> (\<open>application-service/src/domain/lifecycle.ts\<close>, \<open>adjudication-lanes.ts\<close>,
    \<open>human-decision.ts\<close>): the status derived from the verdicts, monotone and idempotent off the walk-in
    lane.
  \<^item> \<open>Store\<close>, \<open>Sample\<close>: the tables of one agency schema and of the shared schema, primitive updates with
    their frame lemmas, and small concrete databases.
  \<^item> \<open>Transitions\<close>, \<open>Journey\<close>: what a transaction may do to a row and its history (\<open>moves\<close>), the locale of
    local operations, the lifecycle graph, the invariants of a history and the order in which one climbs to
    acceptance.
  \<^item> \<open>Projections\<close> (\<open>adapters/application.pg-repository.ts\<close>): the five event projections.
  \<^item> \<open>Officer\<close> (\<open>adapters/officer-transition.pg-repository.ts\<close>): medical review, final decision,
    acceptance with the cross-agency lock, adjudication.
  \<^item> \<open>Filing\<close> (\<open>application-insert.ts\<close>, \<open>submission-ledger\<close>, \<open>walk-in.pg-repository.ts\<close>): processing codes,
    idempotent submission under interleaving, walk-ins.
  \<^item> \<open>Withdrawals\<close> (\<open>withdrawal.pg-repository.ts\<close>, \<open>self-withdrawal.pg-repository.ts\<close>).
  \<^item> \<open>Calendar\<close>, \<open>Gate\<close> (\<open>domain/gate-admission.ts\<close>, \<open>gate-identity.ts\<close>, \<open>adapters/gate-admission\<close>): the date
    in Kigali, ticket parsing, the order of the checks, identity, admission.
  \<^item> \<open>Platform\<close>, \<open>Tour\<close>: one step relation over all transactions of the application store, its invariant by
    rule induction, and a concrete run through both lanes.
  \<^item> \<open>Clocks\<close> (\<open>field-sync-service/src/domain\<close>): vector clocks as an interpretation of a locale of causality
    orders, the merge decision as a summary of the set of records.
  \<^item> \<open>FieldSync\<close> (\<open>adapters/field-score-store.pg.ts\<close>): storing and resolving scores over the same database.
  \<^item> \<open>Canonical\<close>, \<open>Signing\<close> (\<open>packages/shared-security/src\<close>): canonical JSON printed unambiguously, signatures
    of scores and of invitations.
  \<^item> \<open>FieldUpload\<close> (\<open>application/sync-field-scores.service.ts\<close>, \<open>adapters/device-registry.pg.ts\<close>): devices, batches
    and what is published when.
  \<^item> \<open>Outbox\<close> (\<open>packages/shared-database/src/outbox.ts\<close>): staging, dispatch, relay, purge; a drain refines one
    pass over a queue.
  \<^item> \<open>Scheduling\<close> (\<open>scheduling-service/src\<close>): seats, reservations and announcements under interference, up to
    the projection and the gate.
  \<^item> \<open>Credentials\<close> (\<open>identity-service/src/domain/rwanda-phone.ts\<close>, \<open>onboarding-token.ts\<close>,
    \<open>shared-security/src/hashing.ts\<close>): phone numbers, hashes of National IDs and phones, stored passwords, the
    onboarding token. SHA-256, HMAC, scrypt and base64url are fields of a record, \<open>key_library\<close>.
  \<^item> \<open>Citizens\<close> (\<open>adapters/identity.pg-repository.ts\<close>, \<open>application/verify-identity.service.ts\<close>,
    \<open>project-biometric-result.service.ts\<close>): the identity row behind the applicant of the application store, its
    creation from a NIDA answer, and the trigger that freezes it after an erasure. NIDA and the encryption of
    columns are arguments.
  \<^item> \<open>ApplicantAuth\<close> (\<open>applicant-auth.service.ts\<close>, \<open>applicant-auth.pg-repository.ts\<close>): the date-of-birth check with
    its lockout, one-time codes, sessions. Verifying a code is a sequence of statements, \<open>verify_step\<close>, and
    \<open>verifyOtp\<close> runs them to the end.
  \<^item> \<open>SignIn\<close>: concurrent sign-ins as a step relation that interleaves their statements with each other, with
    faults and with the rest of the service; its invariant by rule induction.
  \<^item> \<open>Erasure\<close> (\<open>erasure.pg-repository.ts\<close>, \<open>erase-identity.service.ts\<close>, \<open>erasure-request.*\<close>, \<open>retention*\<close>): the gated
    tombstone, the queue of requests with its notices, and the retention sweep, over the same database as the
    application store. A sweep is a sequence of transactions, \<open>sweep_run\<close>: the reads that discover its candidates, then
    one erasure after another, with anything in between.
  \<^item> \<open>IdentityMatch\<close> (\<open>packages/shared-identity-match\<close>): whether a credential of another registry names the same
    citizen. Names are compared as multisets of tokens, with one edit tolerated; the edit scan is proved against
    an inductive definition of one edit, and BOUND against what it means for the facts to agree.
  \<^item> \<open>CampaignPolicy\<close> (\<open>packages/shared-campaign-policy\<close>): the parser of an announced policy and the rules it
    carries. A parsed policy is canonical and parses back from its own JSON.
  \<^item> \<open>Announcements\<close> (\<open>shared-types/src/eligibility.types.ts\<close>): the tables of ages, levels, thresholds and
    documents per category.
  \<^item> \<open>Eligibility\<close>, \<open>EligibilityService\<close> (\<open>services/eligibility-service/src\<close>): the pure rules of the age, NESA and
    HEC gates, and their use cases over the identity row, with the events they publish.
  \<^item> \<open>Clearance\<close> (\<open>services/background-vetting-service/src\<close>, \<open>rls/0040\<close>, \<open>rls/0044\<close>): the Irembo certificate, its
    append-only record, the RIB gate, and the escalation of a submission the registry never answered.
  \<^item> \<open>Vetting\<close> (\<open>application-service/src/adapters/vetting-result.consumer.ts\<close>): the events of the three gates
    mapped to the projection of \<open>Projections\<close>. A \<open>gate_call\<close> is a call of a gate with its inputs, and the messages
    delivered are those the calls published, so that a green application is traced to the rules that passed it.
  \<^item> \<open>Forensics\<close> (\<open>document-forensics-service/src/domain/forensics.ts\<close>, \<open>document-envelope.ts\<close>): the byte probes
    on lists of bytes, proved against writers of JPEG and PNG files, the verdict, and the sealed envelope.
  \<^item> \<open>Documents\<close> (the adapters and use cases of \<open>document-forensics-service\<close>, the forensics consumer of
    \<open>application-service\<close>): clamd's reply, the object store, the rule of replacement, the record of a verdict with
    its trail of revisions, uploading and analysing, and the routing of the application by the lane. The scanner,
    the cipher, the keyed digest and the answers of the object store are fields of a record, \<open>document_env\<close>.
    \<open>document_step\<close> is one call at a time; in \<open>document_run\<close> the two halves of first uploads, which find no row to
    lock, interleave with the calls.

  \<^bold>\<open>What the lemmas show.\<close> Of the application store: histories are unbroken journeys in the lifecycle
  graph, acceptance has passed every stage and is unique per citizen, final statuses are never left,
  agencies are isolated, verdicts commute, redeliveries change nothing where the code promises it, and
  filings are answered from the ledger. Of the tablets: uploads of comparable or distinguishable records converge,
  stored scores have authority, revocation is final, signatures bind every field whose numbers the printer tells
  apart. Of the scheduler and the outbox: no oversold seat,
  one invitation per application, nothing staged is lost. Of the identity service: spellings of a
  phone agree, wrong dates of birth lock the National ID, a code buys one session, an erasure is gated,
  complete and final, the sweep spares whoever must be retained. Of the vetting services: no verdict is
  drawn from a credential of another person, a registry that does not answer is never a verdict, and an
  application that turns green passed each gate. Of the document lane: a reviewed document whose slot has one row and
  no first upload in flight is never replaced, the trail of revisions is complete while uploads of a slot follow one
  another, what was accepted and is not a retry reads back. The error properties show inputs on which the
  code does what its comments exclude; each is listed among the findings of the manifest.

  \<^bold>\<open>Bounds.\<close> All recursion is structural or over a finite list, so no fuel is used. A drain handles one batch;
  as many drains as there are pending valid events deliver them all.
  \<open>verify_step\<close> is a straight line of five statements, and \<open>verifyOtp\<close> their composition.

  \<^bold>\<open>Not modelled.\<close> Database roles and row-level security (the model has one role), HTTP controllers and their
  parsers beyond the ticket parser, the socket to clamd and the signing of requests to the object store, the
  transports of NIDA, NESA, HEC, RIB and Irembo (arguments that answer or fail), configuration, logging, Kafka itself, and the services listed as not
  modelled in the manifest. Selfchecks, migrations and user-interface proxies only exercise or forward the
  modelled code. Integer columns are unbounded except where a column limit decides an outcome. The relation \<open>step\<close> of
  the application store leaves out the announcer of stalled clearances, whose claim touches only \<open>updated_at\<close>; the time of a history entry is \<open>db_now\<close> of its transaction, which
  grows from one transaction to the next, where the database takes the start of the transaction. An erasure leaves
  the rows of \<open>onboarding_attempts\<close>, keyed by the hash of a National ID, as the code does. Strings are lists of 8-bit
  characters, so the bullet and the typographic apostrophes of the identity rules are not among them.
\<close>

text \<open>
  C1: In every reachable state the append-only history of an application is an unbroken chain of
  transitions from its opening entry to the status the row carries, and every link of it is an
  edge of the lifecycle graph or the lifting of an adjudication hold.
\<close>

theorem history_explains_the_status:
  assumes "reachable db" and "app_of db a i = Some r"
  shows "trail_end None (trail db a i) = Some (app_status r) \<and> chained None (trail db a i) \<and> journey (trail db a i)"
  using reachable_facts(6,7) [OF assms(1)] assms(2) by (simp add: trail_ok_def)

theorem history_explains_the_status_witness: "trail_end None (trail tour_5 RDF ''app'') = Some ACCEPTED"
proof -
  obtain r where "app_of tour_5 RDF ''app'' = Some r" "app_status r = ACCEPTED"
    using tour_statuses by (auto simp: status_of_def)
  with history_explains_the_status [OF tour_reachable(2), of RDF "''app''"] show ?thesis by simp
qed

text \<open>
  C2: No application is ACCEPTED without its history having passed, in this order, either the
  digital ladder (document green, slot, scheduled, test complete) or the walk-in lane
  (registered, on-site vetting, test), then the medical review and the final shortlist.
\<close>

theorem acceptance_follows_every_stage:
  assumes "reachable db" and "status_of db a i = Some ACCEPTED"
  shows "subseq [DOCUMENT_REVIEW_GREEN, SLOT_ASSIGNED, PHYSICAL_TEST_SCHEDULED, PHYSICAL_TEST_COMPLETE,
           MEDICAL_REVIEW, FINAL_SHORTLIST, ACCEPTED] (map snd (trail db a i)) \<or>
    subseq [WALK_IN_REGISTERED, WALK_IN_ON_SITE_VETTING, WALK_IN_PHYSICAL_TEST,
           MEDICAL_REVIEW, FINAL_SHORTLIST, ACCEPTED] (map snd (trail db a i))"
proof -
  have "ACCEPTED \<in> visited (trail db a i)"
    using reachable_facts(6) [OF assms(1)] assms(2) by (intro trail_end_visited) (simp add: trail_ok_def status_of_def)
  then have "climbed (trail db a i) ACCEPTED"
    by (rule journey_climbed [OF reachable_facts(7) [OF assms(1)]])
  then show ?thesis by (simp add: climbed_def medical_ladders_def)
qed

theorem acceptance_follows_every_stage_witness:
  "subseq [MEDICAL_REVIEW, FINAL_SHORTLIST, ACCEPTED] (map snd (trail tour_5 RDF ''app''))"
proof -
  have "status_of tour_5 RDF ''app'' = Some ACCEPTED" using tour_statuses by simp
  from acceptance_follows_every_stage [OF tour_reachable(2) this] show ?thesis
    by (auto intro: subseq_order.order_trans [rotated] list_emb.intros)
qed

text \<open>
  C3: Platform-wide a citizen holds at most one ACCEPTED application, across all three agency
  schemas, and the shared identity row names the agency that holds the cross-agency lock.
\<close>

theorem one_acceptance_per_citizen:
  assumes "reachable db" and "app_of db a i = Some r" and "app_status r = ACCEPTED"
  shows "(\<exists>ident. applicant_identities db (applicant_id r) = Some ident \<and> cross_agency_locked_by_agency ident = Some a) \<and>
    (\<forall>b j s. app_of db b j = Some s \<and> app_status s = ACCEPTED \<and> applicant_id s = applicant_id r \<longrightarrow> b = a \<and> j = i)"
  using reachable_facts(2) [OF assms(1)] assms(2,3) unfolding acceptance_ok_def by metis

theorem one_acceptance_per_citizen_witness:
  "\<exists>p ident. applicant_identities tour_5 p = Some ident \<and> cross_agency_locked_by_agency ident = Some RDF"
proof -
  obtain r where "app_of tour_5 RDF ''app'' = Some r" "app_status r = ACCEPTED"
    using tour_statuses by (auto simp: status_of_def)
  with one_acceptance_per_citizen [OF tour_reachable(2)] show ?thesis by blast
qed

text \<open>
  C6: In every reachable state two applications of one agency never share a processing code, and
  never stand for the same citizen, campaign and category unless one of them is withdrawn,
  whatever front door filed them.
\<close>

theorem one_live_application_per_intent:
  assumes "reachable db" and "app_of db a i = Some r" and "app_of db a j = Some s" and "i \<noteq> j"
  shows "processing_code r \<noteq> processing_code s \<and>
    \<not> (applicant_id r = applicant_id s \<and> campaign_id r = campaign_id s \<and> category r = category s \<and>
       app_status r \<noteq> WITHDRAWN \<and> app_status s \<noteq> WITHDRAWN)"
  using reachable_facts(3) [OF assms(1)] assms(2-4) unfolding unique_ok_def same_intent_def by blast

theorem one_live_application_per_intent_witness:
  "\<exists>r s. app_of tour_second RDF ''app'' = Some r \<and> app_of tour_second RDF ''app2'' = Some s \<and>
     processing_code r \<noteq> processing_code s"
proof -
  obtain r s where rows: "app_of tour_second RDF ''app'' = Some r" "app_of tour_second RDF ''app2'' = Some s"
    using tour_branches(1) by (auto simp: status_of_def)
  have "processing_code r \<noteq> processing_code s \<and> \<not> (applicant_id r = applicant_id s \<and> campaign_id r = campaign_id s \<and>
      category r = category s \<and> app_status r \<noteq> WITHDRAWN \<and> app_status s \<noteq> WITHDRAWN)"
    by (rule one_live_application_per_intent [OF tour_branches_reachable(1) rows]) simp
  with rows show ?thesis by blast
qed

text \<open>
  C4: No transaction of the service moves an application out of ACCEPTED, REJECTED or WITHDRAWN,
  or adds a transition to its history.
\<close>

theorem final_statuses_are_never_left:
  assumes "step db db'" and "status_of db a i = Some s" and "s \<in> {ACCEPTED, REJECTED, WITHDRAWN}"
  shows "status_of db' a i = Some s \<and> trail db' a i = trail db a i"
  using step_live [OF assms(1)]
proof
  assume "foreign_write db db'"
  then show ?thesis using assms(2) by (simp add: foreign_write_def status_of_def app_of_def trail_def history_of_def)
next
  assume "moves live_edge db db'"
  then obtain es where es: "trail db' a i = trail db a i @ es" "chained (status_of db a i) es" "along live_edge es"
      "trail_end (status_of db a i) es = status_of db' a i"
    unfolding moves_def row_moves_def by blast
  then have "es = []" using assms(2,3) by (cases es) (auto simp: live_edge_def)
  with es assms(2) show ?thesis by simp
qed

theorem final_statuses_are_never_left_witness:
  "status_of (fst (accept default_sod \<lparr>ac_actor = rdf_officer ''commander'', ac_applicationId = ''app''\<rparr> tour_5)) RDF ''app'' =
   Some ACCEPTED"
proof -
  have "status_of tour_5 RDF ''app'' = Some ACCEPTED" using tour_statuses by simp
  from final_statuses_are_never_left [OF step.Accept this] show ?thesis by simp
qed

text \<open>
  C5: In every reachable state an officer who clears the document lane of an application held at
  ADJUDICATION_REVIEW does move it, and moves it back to the stage of its last entry into the
  hold, one of the stages from the assigned slot to the final shortlist or of the walk-in lane,
  WALK_IN_REJECTED included: there is always a recorded entry, and the newest by timestamp is
  the last of the trail.
\<close>

theorem cleared_hold_returns_to_its_stage:
  assumes "reachable db" and "status_of db (actor_agency (aj_actor inp)) (aj_applicationId inp) = Some ADJUDICATION_REVIEW"
    and "aj_decision inp = CLEAR" and "aj_lane inp = Some LANE_DOCUMENT"
  shows "\<exists>es stage. trail db (actor_agency (aj_actor inp)) (aj_applicationId inp) = es @ [(Some stage, ADJUDICATION_REVIEW)] \<and>
    stage \<in> {SLOT_ASSIGNED, PHYSICAL_TEST_SCHEDULED, PHYSICAL_TEST_COMPLETE, MEDICAL_REVIEW, FINAL_SHORTLIST,
      WALK_IN_REGISTERED, WALK_IN_ON_SITE_VETTING, WALK_IN_PHYSICAL_TEST, WALK_IN_REJECTED} \<and>
    status_of (fst (adjudicate opts inp db)) (actor_agency (aj_actor inp)) (aj_applicationId inp) = Some stage"
proof -
  let ?a = "actor_agency (aj_actor inp)" and ?i = "aj_applicationId inp"
  note facts = reachable_facts [OF assms(1)]
  from assms(2) obtain r where r: "app_of db ?a ?i = Some r" "app_status r = ADJUDICATION_REVIEW"
    by (auto simp: status_of_def)
  have ends: "trail_end None (trail db ?a ?i) = Some ADJUDICATION_REVIEW"
    using facts(6) r by (simp add: trail_ok_def)
  then obtain es f where es: "trail db ?a ?i = es @ [(f, ADJUDICATION_REVIEW)]"
    by (cases "trail db ?a ?i" rule: rev_cases) (auto simp: trail_end_snoc)
  have "plain_edge f ADJUDICATION_REVIEW" by (rule journey_hold_entry [OF facts(7) [of ?a ?i]]) (simp add: es)
  then obtain stage where f: "f = Some stage" by (cases f) (auto simp: plain_edge_def)
  have alive: "stage \<in> {SLOT_ASSIGNED, PHYSICAL_TEST_SCHEDULED, PHYSICAL_TEST_COMPLETE, MEDICAL_REVIEW, FINAL_SHORTLIST,
      WALK_IN_REGISTERED, WALK_IN_ON_SITE_VETTING, WALK_IN_PHYSICAL_TEST, WALK_IN_REJECTED}"
    using \<open>plain_edge f ADJUDICATION_REVIEW\<close> f by (simp only: plain_edge_hold_stage)
  have "chained None (trail db ?a ?i)" using facts(6) by (simp add: trail_ok_def)
  then have moved: "stage \<noteq> ADJUDICATION_REVIEW" by (simp add: es f chained_snoc)
  obtain h where h: "latest_entry_into db ?a ?i ADJUDICATION_REVIEW = Some h" "from_status h = Some stage"
    using newest_entry_is_last [OF facts(5) es] f by auto
  have "LANE_DOCUMENT \<in> set (adjudicationLanes (hold_of r))" using r by (simp add: document_lane_iff hold_of_def)
  then have "fst (adjudicate opts inp db) = write_adjudication inp LANE_DOCUMENT ADJUDICATION_REVIEW stage db"
    using r h moved assms(3,4) by (simp add: adjudicate_def adjudication_target_def Let_def)
  then have "status_of (fst (adjudicate opts inp db)) ?a ?i = Some stage"
    using r moved by (simp add: write_adjudication_def status_of_def store_simps Let_def)
  with es f alive show ?thesis by auto
qed

theorem cleared_hold_returns_to_its_stage_witness:
  "\<exists>stage. status_of (fst (adjudicate default_options
       \<lparr>aj_actor = rdf_officer ''adjudicator'', aj_applicationId = ''app'', aj_decision = CLEAR,
        aj_lane = Some LANE_DOCUMENT, aj_notes = None\<rparr> tour_held)) RDF ''app'' = Some stage \<and> stage \<noteq> ADJUDICATION_REVIEW"
proof -
  let ?inp = "\<lparr>aj_actor = rdf_officer ''adjudicator'', aj_applicationId = ''app'', aj_decision = CLEAR,
        aj_lane = Some LANE_DOCUMENT, aj_notes = None\<rparr>"
  have held: "status_of tour_held (actor_agency (aj_actor ?inp)) (aj_applicationId ?inp) = Some ADJUDICATION_REVIEW"
    using tour_branches(2) by (simp add: rdf_officer_def)
  from cleared_hold_returns_to_its_stage [OF tour_branches_reachable(2) held, of default_options]
  show ?thesis by (auto simp: rdf_officer_def)
qed

text \<open>
  C7: Every projection, officer transition, on-site vetting and gate admission leaves the whole
  schema of every other agency as it was.
\<close>

theorem agencies_are_isolated:
  "(b \<noteq> vr_agency vetting \<longrightarrow> schema_of (fst (applyVettingResult opts stage vetting db)) b = schema_of db b) \<and>
   (b \<noteq> sa_agency slot \<longrightarrow> schema_of (fst (applySlotAssignment slot db)) b = schema_of db b) \<and>
   (b \<noteq> nd_agency delivery \<longrightarrow> schema_of (fst (applyNotificationDelivery delivery db)) b = schema_of db b) \<and>
   (b \<noteq> pt_agency test \<longrightarrow> schema_of (fst (applyPhysicalTestComplete test db)) b = schema_of db b) \<and>
   (b \<noteq> fr_agency routing \<longrightarrow> schema_of (fst (applyForensicsRouting routing db)) b = schema_of db b) \<and>
   (b \<noteq> actor_agency (mr_actor review) \<longrightarrow> schema_of (fst (medicalReview review db)) b = schema_of db b) \<and>
   (b \<noteq> actor_agency (fd_actor decision) \<longrightarrow> schema_of (fst (finalDecision sod decision db)) b = schema_of db b) \<and>
   (b \<noteq> actor_agency (ac_actor acceptance) \<longrightarrow> schema_of (fst (accept sod acceptance db)) b = schema_of db b) \<and>
   (b \<noteq> actor_agency (aj_actor adj) \<longrightarrow> schema_of (fst (adjudicate opts adj db)) b = schema_of db b) \<and>
   (b \<noteq> actor_agency (vs_actor vet) \<longrightarrow> schema_of (fst (vetOnSite vstage vet db)) b = schema_of db b) \<and>
   (b \<noteq> actor_agency (ga_actor gate) \<longrightarrow> schema_of (fst (admit lib (\<lambda>d. d) gstage gate db)) b = schema_of db b)"
  using vetting.other_schema [of b "(opts, stage, vetting)" db] slot.other_schema [of b slot db]
    notification.other_schema [of b delivery db] physical_test.other_schema [of b test db]
    forensics.other_schema [of b routing db] medical.other_schema [of b review db]
    final.other_schema [of b "(sod, decision)" db] acceptance.other_schema [of b "(sod, acceptance)" db]
    adjudication.other_schema [of b "(opts, adj)" db] vet.other_schema [of b "(vstage, vet)" db]
    gate.other_schema [of b "(lib, gstage, gate)" db]
  by simp

theorem agencies_are_isolated_witness:
  "schema_of (fst (medicalReview \<lparr>mr_actor = rdf_officer ''doctor'', mr_applicationId = ''app'', mr_mode = BOARD FIT\<rparr> tour_3)) RNP =
   schema_of tour_3 RNP"
proof -
  have "RNP \<noteq> actor_agency (mr_actor \<lparr>mr_actor = rdf_officer ''doctor'', mr_applicationId = ''app'', mr_mode = BOARD FIT\<rparr>)"
    by (simp add: rdf_officer_def)
  with agencies_are_isolated [of RNP _ _ _ tour_3] show ?thesis by blast
qed

end
